(* ===== verification/Dico_Prelude.thy ===== *)
theory Dico_Prelude
  imports Main "HOL-Library.Word" "HOL-Library.Monad_Syntax"
begin

text \<open>
  Shared vocabulary of the development: machine types, error codes, results of
  fallible calls, and the C library's string functions on byte lists.

  \<^item> A \<^verbatim>\<open>char\<close> is a \<open>byte\<close> (\<open>8 word\<close>), an \<^verbatim>\<open>unsigned\<close> is a \<open>wchar\<close>
    (\<open>32 word\<close>). A NUL-terminated string is the list of its bytes before the
    terminator, so reading the terminator is reaching the end of the list.
  \<^item> A call that can fail returns a \<open>res\<close>: the outer \<open>None\<close> is undefined
    behaviour (a NULL or dangling pointer is dereferenced, or the loop does not end),
    \<open>Some (Inl e)\<close> is an error return with \<^verbatim>\<open>errno\<close> (or the return code) \<open>e\<close>,
    \<open>Some (Inr x)\<close> is success.
\<close>

section \<open>Types\<close>

type_synonym byte = "8 word"
type_synonym wchar = "32 word"
type_synonym bytes = "byte list"
type_synonym wstring = "wchar list"

datatype errno =
    EINVAL | ENOMEM | EEXIST | ENOENT | EIO | ENOSYS | EACCES | EILSEQ | ENODATA | EOVERFLOW

type_synonym 'a res = "(errno + 'a) option"

abbreviation str :: "string \<Rightarrow> bytes" where
  "str s \<equiv> map of_char s"

section \<open>Collections of rules\<close>

named_theorems codec_simps \<open>unfolding rules of the encoders and decoders\<close>
named_theorems heap_simps \<open>reads after writes, allocations and deallocations\<close>
named_theorems res_iff \<open>when a fallible call succeeds\<close>

lemma bind_Some_iff [res_iff]: "Option.bind m f = Some y \<longleftrightarrow> (\<exists>x. m = Some x \<and> f x = Some y)"
  by (cases m) auto

lemma map_option_Some_iff [res_iff]: "map_option f m = Some y \<longleftrightarrow> (\<exists>x. m = Some x \<and> y = f x)"
  by (cases m) auto

lemma map_sum_Inr_iff [res_iff]: "map_sum f g x = Inr y \<longleftrightarrow> (\<exists>z. x = Inr z \<and> y = g z)"
  by (cases x) auto

section \<open>The C library on byte strings\<close>

definition c_isupper :: "byte \<Rightarrow> bool" where
  "c_isupper c \<longleftrightarrow> 0x41 \<le> c \<and> c \<le> 0x5a"

definition c_islower :: "byte \<Rightarrow> bool" where
  "c_islower c \<longleftrightarrow> 0x61 \<le> c \<and> c \<le> 0x7a"

definition c_isdigit :: "byte \<Rightarrow> bool" where
  "c_isdigit c \<longleftrightarrow> 0x30 \<le> c \<and> c \<le> 0x39"

definition c_toupper :: "byte \<Rightarrow> byte" where
  "c_toupper c = (if c_islower c then c - 0x20 else c)"

definition c_tolower :: "byte \<Rightarrow> byte" where
  "c_tolower c = (if c_isupper c then c + 0x20 else c)"

text \<open>\<^verbatim>\<open>strcmp\<close> and \<^verbatim>\<open>strcasecmp\<close>: the sign of the comparison of unsigned bytes.\<close>

fun strcmp :: "bytes \<Rightarrow> bytes \<Rightarrow> int" where
  "strcmp [] [] = 0"
| "strcmp [] (b # bs) = -1"
| "strcmp (a # as) [] = 1"
| "strcmp (a # as) (b # bs) = (if a < b then -1 else if b < a then 1 else strcmp as bs)"

definition strcasecmp :: "bytes \<Rightarrow> bytes \<Rightarrow> int" where
  "strcasecmp a b = strcmp (map c_tolower a) (map c_tolower b)"

lemma strcmp_eq_0_iff [simp]: "strcmp a b = 0 \<longleftrightarrow> a = b"
  by (induction a b rule: strcmp.induct) auto

lemma strcasecmp_eq_0_iff: "strcasecmp a b = 0 \<longleftrightarrow> map c_tolower a = map c_tolower b"
  by (simp add: strcasecmp_def)

lemma strcasecmp_refl [simp]: "strcasecmp a a = 0"
  by (simp add: strcasecmp_eq_0_iff)

text \<open>\<^verbatim>\<open>strcspn (s, set)\<close>: the length of the initial part without a byte of the set.\<close>

definition strcspn :: "bytes \<Rightarrow> bytes \<Rightarrow> nat" where
  "strcspn s reject = length (takeWhile (\<lambda>c. c \<notin> set reject) s)"

lemma strcspn_le: "strcspn s r \<le> length s"
  by (simp add: strcspn_def length_takeWhile_le)

lemma take_strcspn: "take (strcspn s r) s = takeWhile (\<lambda>c. c \<notin> set r) s"
  by (simp add: strcspn_def takeWhile_eq_take [symmetric])

lemma drop_strcspn: "drop (strcspn s r) s = dropWhile (\<lambda>c. c \<notin> set r) s"
  by (simp add: strcspn_def dropWhile_eq_drop [symmetric])

text \<open>\<^verbatim>\<open>strchr\<close> and \<^verbatim>\<open>memchr\<close>: the index of the first occurrence.\<close>

definition index_of :: "'a \<Rightarrow> 'a list \<Rightarrow> nat option" where
  "index_of c s = (let n = length (takeWhile (\<lambda>x. x \<noteq> c) s) in if n < length s then Some n else None)"

lemma index_of_Nil [simp]: "index_of c [] = None"
  by (simp add: index_of_def)

lemma index_of_Cons: "index_of c (x # xs) = (if x = c then Some 0 else map_option Suc (index_of c xs))"
  by (simp add: index_of_def Let_def)

lemma index_of_None_iff [simp]: "index_of c s = None \<longleftrightarrow> c \<notin> set s"
  by (induction s) (auto simp: index_of_Cons)

lemma index_of_SomeD:
  "index_of c s = Some n \<Longrightarrow> n < length s \<and> s ! n = c \<and> c \<notin> set (take n s)"
proof (induction s arbitrary: n)
  case Nil
  then show ?case by simp
next
  case (Cons x xs)
  then show ?case
    by (cases n) (auto simp: index_of_Cons split: if_splits)
qed

lemma index_of_append:
  "index_of c (xs @ ys) =
     (if c \<in> set xs then index_of c xs else map_option (\<lambda>n. length xs + n) (index_of c ys))"
  by (cases "index_of c ys"; induction xs) (auto simp: index_of_Cons simp del: index_of_None_iff)

end
