(* ===== verification/Dico_List.thy ===== *)
theory Dico_List
  imports Dico_Prelude
begin

text \<open>
  The doubly linked list of \<^verbatim>\<open>lib/list.c\<close>, over an explicit store of list entries.

  A \<open>mem\<close> holds the live entries (\<open>cells\<close>), the entries already given back to
  \<^verbatim>\<open>free\<close> with the contents they had then (\<open>freed\<close>), the next address
  \<^verbatim>\<open>malloc\<close> hands out (\<open>brk\<close>) and how many more allocations succeed
  (\<open>avail\<close>: any pattern "the first \<open>k\<close> succeed, the rest return NULL").
  Items are the type \<open>'v\<close> (the code's \<^verbatim>\<open>void *\<close>; NULL items are not stored).
  A comparator gets the item and the second argument of the call; it may change the
  object its second argument points to, so it returns that object beside its result.
  The chain of iterators attached to a list (\<^verbatim>\<open>list->itr\<close>) is a list of iterators
  under their identities, the latest first. Items given to the \<^verbatim>\<open>free_item\<close>
  callback are collected in \<open>released\<close>.
\<close>

section \<open>State\<close>

type_synonym addr = nat

record 'v list_entry =
  e_next :: "addr option"
  e_prev :: "addr option"
  e_data :: 'v

record 'v mem =
  cells :: "addr \<Rightarrow> 'v list_entry option"
  freed :: "addr \<Rightarrow> 'v list_entry option"
  brk :: addr
  avail :: nat
  released :: "'v list"

type_synonym 'v comp = "'v \<Rightarrow> 'v \<Rightarrow> int \<times> 'v"

record iterator =
  it_cur :: "addr option"
  it_advanced :: nat
  it_pos :: "64 word"

record 'v dico_list =
  l_count :: nat
  l_head :: "addr option"
  l_tail :: "addr option"
  l_flags :: nat
  l_itr :: "(nat \<times> iterator) list"
  l_comp :: "'v comp option"
  l_free_item :: bool

definition DICO_LIST_COMPARE_HEAD :: nat where "DICO_LIST_COMPARE_HEAD = 1"
definition DICO_LIST_COMPARE_TAIL :: nat where "DICO_LIST_COMPARE_TAIL = 2"

section \<open>The store\<close>

definition mem_malloc :: "'v mem \<Rightarrow> 'v list_entry \<Rightarrow> (addr \<times> 'v mem) option" where
  "mem_malloc m e =
     (if avail m = 0 then None
      else Some (brk m, m\<lparr>cells := (cells m)(brk m \<mapsto> e), brk := Suc (brk m), avail := avail m - 1\<rparr>))"

text \<open>An allocation of a structure that is not a list entry.\<close>

definition mem_take :: "'v mem \<Rightarrow> ('v mem) option" where
  "mem_take m = (if avail m = 0 then None else Some (m\<lparr>avail := avail m - 1\<rparr>))"

definition mem_free :: "'v mem \<Rightarrow> addr \<Rightarrow> 'v mem option" where
  "mem_free m a =
     (case cells m a of None \<Rightarrow> None
      | Some e \<Rightarrow> Some (m\<lparr>cells := (cells m)(a := None), freed := (freed m)(a \<mapsto> e)\<rparr>))"

definition mem_set :: "'v mem \<Rightarrow> addr \<Rightarrow> ('v list_entry \<Rightarrow> 'v list_entry) \<Rightarrow> 'v mem option" where
  "mem_set m a f =
     (case cells m a of None \<Rightarrow> None | Some e \<Rightarrow> Some (m\<lparr>cells := (cells m)(a \<mapsto> f e)\<rparr>))"

definition mem_release :: "'v dico_list \<Rightarrow> 'v \<Rightarrow> 'v mem \<Rightarrow> 'v mem" where
  "mem_release l d m = (if l_free_item l then m\<lparr>released := released m @ [d]\<rparr> else m)"

section \<open>Operations\<close>

subsection \<open>Creation and attributes\<close>

definition cmp_ptr :: "'v comp" where
  "cmp_ptr a b = (if a \<noteq> b then 1 else 0, b)"

definition empty_list :: "'v dico_list" where
  "empty_list =
     \<lparr>l_count = 0, l_head = None, l_tail = None, l_flags = 0, l_itr = [],
      l_comp = Some cmp_ptr, l_free_item = False\<rparr>"

definition dico_list_create :: "'v mem \<Rightarrow> ('v mem \<times> 'v dico_list) option" where
  "dico_list_create m = map_option (\<lambda>m'. (m', empty_list)) (mem_take m)"

partial_function (option) list_clear_loop ::
    "'v dico_list \<Rightarrow> 'v mem \<Rightarrow> addr option \<Rightarrow> 'v mem option" where
  "list_clear_loop l m p =
     (case p of None \<Rightarrow> Some m
      | Some a \<Rightarrow> do {
          e \<leftarrow> cells m a;
          m' \<leftarrow> mem_free (mem_release l (e_data e) m) a;
          list_clear_loop l m' (e_next e) })"

definition dico_list_clear ::
    "'v mem \<Rightarrow> 'v dico_list option \<Rightarrow> ('v mem \<times> 'v dico_list) res" where
  "dico_list_clear m list =
     (case list of None \<Rightarrow> Some (Inl EINVAL)
      | Some l \<Rightarrow>
          (let l' = l\<lparr>l_head := None, l_tail := None, l_count := 0\<rparr> in
           map_option (\<lambda>m'. Inr (m', l')) (list_clear_loop l' m (l_head l))))"

definition dico_list_destroy :: "'v mem \<Rightarrow> 'v dico_list option \<Rightarrow> 'v mem option" where
  "dico_list_destroy m list =
     (case list of None \<Rightarrow> Some m
      | Some l \<Rightarrow> do {
          r \<leftarrow> dico_list_clear m (Some l);
          (case r of Inl e \<Rightarrow> None | Inr (m', _) \<Rightarrow> Some m') })"

definition dico_list_count :: "'v dico_list option \<Rightarrow> nat" where
  "dico_list_count list = (case list of None \<Rightarrow> 0 | Some l \<Rightarrow> l_count l)"

definition dico_list_set_free_item :: "'v dico_list option \<Rightarrow> bool \<Rightarrow> ('v dico_list) res" where
  "dico_list_set_free_item list f =
     Some (case list of None \<Rightarrow> Inl EINVAL | Some l \<Rightarrow> Inr (l\<lparr>l_free_item := f\<rparr>))"

definition dico_list_set_comparator ::
    "'v dico_list option \<Rightarrow> 'v comp option \<Rightarrow> ('v comp option \<times> 'v dico_list) res" where
  "dico_list_set_comparator list c =
     Some (case list of None \<Rightarrow> Inl EINVAL | Some l \<Rightarrow> Inr (l_comp l, l\<lparr>l_comp := c\<rparr>))"

definition dico_list_set_flags :: "'v dico_list option \<Rightarrow> nat \<Rightarrow> ('v dico_list) res" where
  "dico_list_set_flags list f =
     Some (case list of None \<Rightarrow> Inl EINVAL | Some l \<Rightarrow> Inr (l\<lparr>l_flags := f\<rparr>))"

definition dico_list_get_flags :: "'v dico_list option \<Rightarrow> nat" where
  "dico_list_get_flags list = (case list of Some l \<Rightarrow> l_flags l | None \<Rightarrow> 0)"

definition dico_list_get_comparator :: "'v dico_list option \<Rightarrow> ('v comp option) res" where
  "dico_list_get_comparator list =
     Some (case list of None \<Rightarrow> Inl EINVAL | Some l \<Rightarrow> Inr (l_comp l))"

partial_function (option) list_item_loop ::
    "'v mem \<Rightarrow> addr option \<Rightarrow> nat \<Rightarrow> addr option option" where
  "list_item_loop m p n =
     (case p of None \<Rightarrow> Some None
      | Some a \<Rightarrow>
          (if n > 0 then do { e \<leftarrow> cells m a; list_item_loop m (e_next e) (n - 1) }
           else Some (Some a)))"

definition dico_list_item :: "'v mem \<Rightarrow> 'v dico_list option \<Rightarrow> nat \<Rightarrow> 'v option option" where
  "dico_list_item m list n =
     (case list of None \<Rightarrow> Some None
      | Some l \<Rightarrow>
          (if n \<ge> l_count l then Some None
           else do {
             p \<leftarrow> list_item_loop m (l_head l) n;
             a \<leftarrow> p;
             e \<leftarrow> cells m a;
             Some (Some (e_data e)) }))"

subsection \<open>Iterators\<close>

definition list_it :: "'v dico_list \<Rightarrow> nat \<Rightarrow> iterator option" where
  "list_it l i = map_of (l_itr l) i"

definition list_it_upd :: "nat \<Rightarrow> (iterator \<Rightarrow> iterator) \<Rightarrow> 'v dico_list \<Rightarrow> 'v dico_list" where
  "list_it_upd i f l = l\<lparr>l_itr := map (\<lambda>(j, t). (j, if j = i then f t else t)) (l_itr l)\<rparr>"

definition dico_iterator_current ::
    "'v mem \<Rightarrow> 'v dico_list \<Rightarrow> nat option \<Rightarrow> 'v option option" where
  "dico_iterator_current m l ip =
     (case ip of None \<Rightarrow> Some None
      | Some i \<Rightarrow> do {
          t \<leftarrow> list_it l i;
          (case it_cur t of None \<Rightarrow> Some None
           | Some a \<Rightarrow> do { e \<leftarrow> cells m a; Some (Some (e_data e)) }) })"

definition dico_iterator_position :: "'v dico_list \<Rightarrow> nat option \<Rightarrow> (64 word) option" where
  "dico_iterator_position l ip =
     (case ip of None \<Rightarrow> Some 0 | Some i \<Rightarrow> map_option it_pos (list_it l i))"

definition dico_iterator_attach :: "nat \<Rightarrow> 'v dico_list \<Rightarrow> 'v dico_list" where
  "dico_iterator_attach i l =
     l\<lparr>l_itr := (i, \<lparr>it_cur = l_head l, it_advanced = 0, it_pos = 0\<rparr>) # l_itr l\<rparr>"

fun itr_detach :: "nat \<Rightarrow> (nat \<times> iterator) list \<Rightarrow> (nat \<times> iterator) list" where
  "itr_detach i [] = []"
| "itr_detach i ((j, t) # its) = (if j = i then its else (j, t) # itr_detach i its)"

definition dico_iterator_detach :: "nat \<Rightarrow> 'v dico_list \<Rightarrow> 'v dico_list" where
  "dico_iterator_detach i l = l\<lparr>l_itr := itr_detach i (l_itr l)\<rparr>"

definition dico_list_iterator ::
    "nat \<Rightarrow> 'v mem \<Rightarrow> 'v dico_list option \<Rightarrow> ('v mem \<times> 'v dico_list) res" where
  "dico_list_iterator i m list =
     Some (case list of None \<Rightarrow> Inl EINVAL
           | Some l \<Rightarrow>
               (case mem_take m of None \<Rightarrow> Inl ENOMEM
                | Some m' \<Rightarrow> Inr (m', dico_iterator_attach i l)))"

definition dico_iterator_destroy :: "nat option \<Rightarrow> 'v dico_list \<Rightarrow> 'v dico_list" where
  "dico_iterator_destroy ip l = (case ip of None \<Rightarrow> l | Some i \<Rightarrow> dico_iterator_detach i l)"

definition iterator_increase_pos :: "(nat \<times> iterator) list \<Rightarrow> 64 word \<Rightarrow> (nat \<times> iterator) list" where
  "iterator_increase_pos its after =
     map (\<lambda>(j, t). (j, if it_pos t > after then t\<lparr>it_pos := it_pos t + 1\<rparr> else t)) its"

definition iterator_advance ::
    "(nat \<times> iterator) list \<Rightarrow> addr \<Rightarrow> addr option \<Rightarrow> (nat \<times> iterator) list" where
  "iterator_advance its e nxt =
     map (\<lambda>(j, t). (j, if it_cur t = Some e
                       then t\<lparr>it_cur := nxt, it_advanced := Suc (it_advanced t)\<rparr> else t)) its"

definition dico_iterator_first ::
    "'v mem \<Rightarrow> 'v dico_list \<Rightarrow> nat option \<Rightarrow> ('v option \<times> 'v dico_list) option" where
  "dico_iterator_first m l ip =
     (case ip of None \<Rightarrow> Some (None, l)
      | Some i \<Rightarrow> do {
          _ \<leftarrow> list_it l i;
          let l' = list_it_upd i (\<lambda>t. t\<lparr>it_cur := l_head l, it_advanced := 0, it_pos := 0\<rparr>) l;
          d \<leftarrow> dico_iterator_current m l' ip;
          Some (d, l') })"

definition dico_iterator_next ::
    "'v mem \<Rightarrow> 'v dico_list \<Rightarrow> nat option \<Rightarrow> ('v option \<times> 'v dico_list) option" where
  "dico_iterator_next m l ip =
     (case ip of None \<Rightarrow> Some (None, l)
      | Some i \<Rightarrow> do {
          t \<leftarrow> list_it l i;
          (case it_cur t of None \<Rightarrow> Some (None, l)
           | Some a \<Rightarrow> do {
               t' \<leftarrow> (if it_advanced t = 0
                     then do { e \<leftarrow> cells m a;
                               Some (t\<lparr>it_cur := e_next e, it_pos := it_pos t + 1\<rparr>) }
                     else Some t);
               let l' = list_it_upd i (\<lambda>_. t'\<lparr>it_advanced := 0\<rparr>) l;
               d \<leftarrow> dico_iterator_current m l' ip;
               Some (d, l') }) })"

definition dico_iterator_prev ::
    "'v mem \<Rightarrow> 'v dico_list \<Rightarrow> nat option \<Rightarrow> ('v option \<times> 'v dico_list) option" where
  "dico_iterator_prev m l ip =
     (case ip of None \<Rightarrow> Some (None, l)
      | Some i \<Rightarrow> do {
          t \<leftarrow> list_it l i;
          (case it_cur t of None \<Rightarrow> Some (None, l)
           | Some a \<Rightarrow> do {
               e \<leftarrow> cells m a;
               let t' = t\<lparr>it_cur := e_prev e,
                          it_pos := (if it_advanced t = 0 then it_pos t - 1 else it_pos t)\<rparr>;
               let l' = list_it_upd i (\<lambda>_. t'\<lparr>it_advanced := 0\<rparr>) l;
               d \<leftarrow> dico_iterator_current m l' ip;
               Some (d, l') }) })"

text \<open>The two loops of \<^verbatim>\<open>dico_iterator_item\<close>: forward and backward.\<close>

partial_function (option) iterator_forward ::
    "'v mem \<Rightarrow> iterator \<Rightarrow> 64 word \<Rightarrow> iterator option" where
  "iterator_forward m t n =
     (case it_cur t of None \<Rightarrow> Some t
      | Some a \<Rightarrow>
          (if it_pos t < n
           then do { e \<leftarrow> cells m a;
                     iterator_forward m (t\<lparr>it_cur := e_next e, it_pos := it_pos t + 1\<rparr>) n }
           else Some t))"

partial_function (option) iterator_backward ::
    "'v mem \<Rightarrow> iterator \<Rightarrow> 64 word \<Rightarrow> iterator option" where
  "iterator_backward m t n =
     (case it_cur t of None \<Rightarrow> Some t
      | Some a \<Rightarrow>
          (if it_pos t > n
           then do { e \<leftarrow> cells m a;
                     iterator_backward m (t\<lparr>it_cur := e_prev e, it_pos := it_pos t - 1\<rparr>) n }
           else Some t))"

definition dico_iterator_item ::
    "'v mem \<Rightarrow> 'v dico_list \<Rightarrow> nat \<Rightarrow> 64 word \<Rightarrow> ('v option \<times> 'v dico_list) option" where
  "dico_iterator_item m l i n = do {
     t \<leftarrow> list_it l i;
     t' \<leftarrow> (if n > it_pos t then do {
              t1 \<leftarrow> (if it_advanced t = 0 then do {
                       a \<leftarrow> it_cur t;
                       e \<leftarrow> cells m a;
                       Some (t\<lparr>it_cur := e_next e, it_pos := it_pos t + 1\<rparr>) }
                     else Some t);
              iterator_forward m (t1\<lparr>it_advanced := 0\<rparr>) n }
            else if n < it_pos t then
              iterator_backward m
                (t\<lparr>it_pos := (if it_advanced t = 0 then it_pos t - 1 else it_pos t),
                   it_advanced := 0\<rparr>) n
            else Some t);
     let l' = list_it_upd i (\<lambda>_. t') l;
     d \<leftarrow> dico_iterator_current m l' (Some i);
     Some (d, l') }"

definition dico_iterator_set_data :: "'v mem \<Rightarrow> 'v dico_list \<Rightarrow> nat \<Rightarrow> 'v \<Rightarrow> 'v mem option" where
  "dico_iterator_set_data m l i d = do {
     t \<leftarrow> list_it l i;
     a \<leftarrow> it_cur t;
     mem_set m a (\<lambda>e. e\<lparr>e_data := d\<rparr>) }"

subsection \<open>Insertion at the ends\<close>

definition list_append_raw :: "'v mem \<Rightarrow> 'v dico_list \<Rightarrow> 'v \<Rightarrow> ('v mem \<times> 'v dico_list) res" where
  "list_append_raw m l d =
     (case mem_malloc m \<lparr>e_next = None, e_prev = l_tail l, e_data = d\<rparr> of
        None \<Rightarrow> Some (Inl ENOMEM)
      | Some (ep, m1) \<Rightarrow> do {
          (m2, l2) \<leftarrow> (case l_tail l of
                         Some t \<Rightarrow> map_option (\<lambda>m2. (m2, l)) (mem_set m1 t (\<lambda>e. e\<lparr>e_next := Some ep\<rparr>))
                       | None \<Rightarrow> Some (m1, l\<lparr>l_head := Some ep\<rparr>));
          Some (Inr (m2, l2\<lparr>l_tail := Some ep, l_count := Suc (l_count l)\<rparr>)) })"

text \<open>
  \<^verbatim>\<open>_dico_list_prepend\<close> makes the new entry point at the old head but does not store
  the new entry in the old head's \<^verbatim>\<open>prev\<close>.
\<close>

definition list_prepend_raw :: "'v mem \<Rightarrow> 'v dico_list \<Rightarrow> 'v \<Rightarrow> ('v mem \<times> 'v dico_list) res" where
  "list_prepend_raw m l d =
     (case mem_malloc m \<lparr>e_next = l_head l, e_prev = None, e_data = d\<rparr> of
        None \<Rightarrow> Some (Inl ENOMEM)
      | Some (ep, m1) \<Rightarrow>
          Some (Inr (m1, l\<lparr>l_head := Some ep,
                            l_tail := (if l_tail l = None then Some ep else l_tail l),
                            l_count := Suc (l_count l),
                            l_itr := iterator_increase_pos (l_itr l) 0\<rparr>)))"

text \<open>The duplicate check against one end: \<open>None\<close> when the end is NULL.\<close>

definition compare_end :: "'v mem \<Rightarrow> 'v comp \<Rightarrow> addr option \<Rightarrow> 'v \<Rightarrow> (bool \<times> 'v) option" where
  "compare_end m c p d =
     (case p of None \<Rightarrow> Some (False, d)
      | Some a \<Rightarrow> do {
          e \<leftarrow> cells m a;
          let (r, d') = c (e_data e) d;
          Some (r = 0, d') })"

definition dico_list_append ::
    "'v mem \<Rightarrow> 'v dico_list option \<Rightarrow> 'v \<Rightarrow> ('v mem \<times> 'v dico_list) res" where
  "dico_list_append m list d =
     (case list of None \<Rightarrow> Some (Inl EINVAL)
      | Some l \<Rightarrow> do {
          (dup, d') \<leftarrow> (if l_flags l div 2 mod 2 = 1
                        then (case l_comp l of None \<Rightarrow> Some (False, d)
                              | Some c \<Rightarrow> compare_end m c (l_tail l) d)
                        else Some (False, d));
          (if dup then Some (Inl EEXIST) else list_append_raw m l d') })"

definition dico_list_prepend ::
    "'v mem \<Rightarrow> 'v dico_list option \<Rightarrow> 'v \<Rightarrow> ('v mem \<times> 'v dico_list) res" where
  "dico_list_prepend m list d =
     (case list of None \<Rightarrow> Some (Inl EINVAL)
      | Some l \<Rightarrow> do {
          (dup, d') \<leftarrow> (if l_flags l mod 2 = 1
                        then (case l_comp l of None \<Rightarrow> Some (False, d)
                              | Some c \<Rightarrow> compare_end m c (l_head l) d)
                        else Some (False, d));
          (if dup then Some (Inl EEXIST) else list_prepend_raw m l d') })"

subsection \<open>Removal\<close>

text \<open>
  \<^verbatim>\<open>_dico_list_remove_item\<close>. After \<^verbatim>\<open>free(p)\<close> the code still reads
  \<^verbatim>\<open>p->data\<close>: the model reads the contents the freed entry was left with
  (\<open>freed\<close>), which is what an allocator that does not overwrite them gives.
  With \<open>want\<close> (the code's \<^verbatim>\<open>pptr\<close> is not NULL) the item is handed back,
  otherwise it goes to the \<^verbatim>\<open>free_item\<close> callback.
\<close>

definition list_remove_item ::
    "'v mem \<Rightarrow> 'v dico_list \<Rightarrow> addr \<Rightarrow> bool \<Rightarrow> ('v \<times> 'v mem \<times> 'v dico_list) option" where
  "list_remove_item m l p want = do {
     e \<leftarrow> cells m p;
     let l1 = l\<lparr>l_itr := iterator_advance (l_itr l) p (e_next e)\<rparr>;
     (m2, l2) \<leftarrow> (case e_prev e of
                    Some q \<Rightarrow> map_option (\<lambda>m2. (m2, l1)) (mem_set m q (\<lambda>x. x\<lparr>e_next := e_next e\<rparr>))
                  | None \<Rightarrow> do { h \<leftarrow> l_head l1; he \<leftarrow> cells m h;
                                Some (m, l1\<lparr>l_head := e_next he\<rparr>) });
     (m3, l3) \<leftarrow> (case e_next e of
                    Some n \<Rightarrow> map_option (\<lambda>m3. (m3, l2)) (mem_set m2 n (\<lambda>x. x\<lparr>e_prev := e_prev e\<rparr>))
                  | None \<Rightarrow> Some (m2, l2\<lparr>l_tail := e_prev e\<rparr>));
     m4 \<leftarrow> mem_free m3 p;
     let l4 = l3\<lparr>l_count := l_count l3 - 1\<rparr>;
     stale \<leftarrow> freed m4 p;
     Some (e_data stale, if want then m4 else mem_release l4 (e_data stale) m4, l4) }"

partial_function (option) list_find ::
    "'v mem \<Rightarrow> 'v comp \<Rightarrow> addr option \<Rightarrow> 'v \<Rightarrow> (addr option \<times> 'v) option" where
  "list_find m c p k =
     (case p of None \<Rightarrow> Some (None, k)
      | Some a \<Rightarrow> do {
          e \<leftarrow> cells m a;
          let (r, k') = c (e_data e) k;
          (if r = 0 then Some (Some a, k') else list_find m c (e_next e) k') })"

definition comp_or_ptr :: "'v comp option \<Rightarrow> 'v comp" where
  "comp_or_ptr c = (case c of None \<Rightarrow> cmp_ptr | Some f \<Rightarrow> f)"

definition list_remove_raw ::
    "'v mem \<Rightarrow> 'v dico_list option \<Rightarrow> 'v \<Rightarrow> 'v comp option \<Rightarrow> bool \<Rightarrow>
     ('v \<times> 'v mem \<times> 'v dico_list) res" where
  "list_remove_raw m list k c want =
     (case list of None \<Rightarrow> Some (Inl ENOENT)
      | Some l \<Rightarrow>
          (if l_head l = None then Some (Inl ENOENT)
           else do {
             (p, _) \<leftarrow> list_find m (comp_or_ptr c) (l_head l) k;
             (case p of None \<Rightarrow> Some (Inl ENOENT)
              | Some a \<Rightarrow> map_option Inr (list_remove_item m l a want)) }))"

definition dico_list_remove ::
    "'v mem \<Rightarrow> 'v dico_list option \<Rightarrow> 'v \<Rightarrow> bool \<Rightarrow> ('v \<times> 'v mem \<times> 'v dico_list) res" where
  "dico_list_remove m list k want =
     (case list of None \<Rightarrow> Some (Inl EINVAL)
      | Some l \<Rightarrow> list_remove_raw m (Some l) k (l_comp l) want)"

definition dico_list_pop ::
    "'v mem \<Rightarrow> 'v dico_list \<Rightarrow> ('v option \<times> 'v mem \<times> 'v dico_list) option" where
  "dico_list_pop m l =
     (case l_tail l of None \<Rightarrow> Some (None, m, l)
      | Some t \<Rightarrow> do { (d, m', l') \<leftarrow> list_remove_item m l t True; Some (Some d, m', l') })"

definition dico_iterator_remove_current ::
    "'v mem \<Rightarrow> 'v dico_list \<Rightarrow> nat \<Rightarrow> bool \<Rightarrow> ('v \<times> 'v mem \<times> 'v dico_list) option" where
  "dico_iterator_remove_current m l i want = do {
     t \<leftarrow> list_it l i;
     a \<leftarrow> it_cur t;
     list_remove_item m l a want }"

subsection \<open>Search\<close>

definition list_locate_raw ::
    "'v mem \<Rightarrow> 'v dico_list option \<Rightarrow> 'v \<Rightarrow> 'v comp option \<Rightarrow> 'v option option" where
  "list_locate_raw m list k c =
     (case list of None \<Rightarrow> Some None
      | Some l \<Rightarrow> do {
          (p, _) \<leftarrow> list_find m (comp_or_ptr c) (l_head l) k;
          (case p of None \<Rightarrow> Some None
           | Some a \<Rightarrow> do { e \<leftarrow> cells m a; Some (Some (e_data e)) }) })"

definition dico_list_locate :: "'v mem \<Rightarrow> 'v dico_list option \<Rightarrow> 'v \<Rightarrow> 'v option option" where
  "dico_list_locate m list k =
     (case list of None \<Rightarrow> Some None | Some l \<Rightarrow> list_locate_raw m (Some l) k (l_comp l))"

subsection \<open>Sorted insertion\<close>

datatype scan = Scan_dup | Scan_at addr nat | Scan_end

partial_function (option) list_sorted_scan ::
    "'v mem \<Rightarrow> 'v comp \<Rightarrow> nat \<Rightarrow> addr option \<Rightarrow> nat \<Rightarrow> 'v \<Rightarrow> (scan \<times> 'v) option" where
  "list_sorted_scan m c fl p i d =
     (case p of None \<Rightarrow> Some (Scan_end, d)
      | Some a \<Rightarrow> do {
          e \<leftarrow> cells m a;
          let (r, d') = c (e_data e) d;
          (if r > 0 then Some (Scan_at a i, d')
           else if r = 0 \<and> fl \<noteq> 0 then Some (Scan_dup, d')
           else list_sorted_scan m c fl (e_next e) (Suc i) d') })"

definition list_insert_sorted_raw ::
    "'v mem \<Rightarrow> 'v dico_list option \<Rightarrow> 'v \<Rightarrow> 'v comp option \<Rightarrow> ('v mem \<times> 'v dico_list) res" where
  "list_insert_sorted_raw m list d c =
     (case list of None \<Rightarrow> Some (Inl EINVAL)
      | Some l \<Rightarrow>
          (if l_head l = None then list_append_raw m l d
           else do {
             (s, d') \<leftarrow> list_sorted_scan m (comp_or_ptr c) (l_flags l) (l_head l) 0 d;
             (case s of
                Scan_dup \<Rightarrow> Some (Inl EEXIST)
              | Scan_end \<Rightarrow> list_append_raw m l d'
              | Scan_at cur i \<Rightarrow> do {
                  ce \<leftarrow> cells m cur;
                  (case e_prev ce of
                     None \<Rightarrow> list_prepend_raw m l d'
                   | Some prev \<Rightarrow>
                       (case mem_malloc m \<lparr>e_next = Some cur, e_prev = Some prev, e_data = d'\<rparr> of
                          None \<Rightarrow> Some (Inl ENOMEM)
                        | Some (ep, m1) \<Rightarrow> do {
                            m2 \<leftarrow> mem_set m1 cur (\<lambda>e. e\<lparr>e_prev := Some ep\<rparr>);
                            m3 \<leftarrow> mem_set m2 prev (\<lambda>e. e\<lparr>e_next := Some ep\<rparr>);
                            Some (Inr (m3, l\<lparr>l_itr := iterator_increase_pos (l_itr l) (of_nat i - 1),
                                             l_count := Suc (l_count l)\<rparr>)) })) }) }))"

definition dico_list_insert_sorted ::
    "'v mem \<Rightarrow> 'v dico_list option \<Rightarrow> 'v \<Rightarrow> ('v mem \<times> 'v dico_list) res" where
  "dico_list_insert_sorted m list d =
     (case list of None \<Rightarrow> Some (Inl EINVAL)
      | Some l \<Rightarrow> list_insert_sorted_raw m (Some l) d (l_comp l))"

subsection \<open>Traversal and intersection\<close>

partial_function (option) list_iterate_loop ::
    "'v mem \<Rightarrow> nat \<Rightarrow> ('v \<Rightarrow> 's \<Rightarrow> bool \<times> 's) \<Rightarrow> 'v option \<Rightarrow> 'v dico_list \<Rightarrow> 's \<Rightarrow>
     ('v dico_list \<times> 's) option" where
  "list_iterate_loop m i func p l s =
     (case p of None \<Rightarrow> Some (l, s)
      | Some d \<Rightarrow>
          (case func d s of (stop, s') \<Rightarrow>
             (if stop then Some (l, s')
              else Option.bind (dico_iterator_next m l (Some i))
                     (\<lambda>x. list_iterate_loop m i func (fst x) (snd x) s'))))"

definition dico_list_iterate ::
    "'v mem \<Rightarrow> 'v dico_list option \<Rightarrow> nat \<Rightarrow> ('v \<Rightarrow> 's \<Rightarrow> bool \<times> 's) \<Rightarrow> 's \<Rightarrow>
     ('v dico_list option \<times> 's) option" where
  "dico_list_iterate m list i func s =
     (case list of None \<Rightarrow> Some (None, s)
      | Some l \<Rightarrow> do {
          (p, l1) \<leftarrow> dico_iterator_first m (dico_iterator_attach i l) (Some i);
          (l2, s') \<leftarrow> list_iterate_loop m i func p l1 s;
          Some (Some (dico_iterator_detach i l2), s') })"

partial_function (option) list_intersect_loop ::
    "'v dico_list option \<Rightarrow> 'v comp option \<Rightarrow> nat \<Rightarrow> 'v mem \<Rightarrow> 'v option \<Rightarrow> 'v dico_list \<Rightarrow>
     'v dico_list \<Rightarrow> ('v mem \<times> 'v dico_list \<times> 'v dico_list) option" where
  "list_intersect_loop b c i m p a res =
     (case p of None \<Rightarrow> Some (m, a, res)
      | Some d \<Rightarrow>
          Option.bind (list_locate_raw m b d c) (\<lambda>found.
          Option.bind (if found = None then Some (m, res)
                       else Option.bind (list_append_raw m res d)
                              (\<lambda>r. Some (case r of Inl _ \<Rightarrow> (m, res) | Inr x \<Rightarrow> x))) (\<lambda>y.
          Option.bind (dico_iterator_next (fst y) a (Some i)) (\<lambda>x.
          list_intersect_loop b c i (fst y) (fst x) (snd x) (snd y)))))"

text \<open>
  The result is the store, the first list (whose iterator chain changes during the call)
  and the intersection; no intersection when an allocation of the iterator or of the
  result fails.
\<close>

definition dico_list_intersect ::
    "'v mem \<Rightarrow> 'v dico_list option \<Rightarrow> 'v dico_list option \<Rightarrow> 'v comp option \<Rightarrow> nat \<Rightarrow>
     ('v mem \<times> 'v dico_list option \<times> 'v dico_list option) option" where
  "dico_list_intersect m a b c i = do {
     r \<leftarrow> dico_list_iterator i m a;
     (case r of Inl _ \<Rightarrow> Some (m, a, None)
      | Inr (m1, a1) \<Rightarrow>
          (case dico_list_create m1 of None \<Rightarrow> Some (m1, Some a1, None)
           | Some (m2, res) \<Rightarrow> do {
               (p, a2) \<leftarrow> dico_iterator_first m2 a1 (Some i);
               (m3, a3, res') \<leftarrow> list_intersect_loop b c i m2 p a2 res;
               Some (m3, Some (dico_iterator_destroy (Some i) a3), Some res') })) }"

partial_function (option) list_intersect_p_loop ::
    "'v mem \<Rightarrow> 'v dico_list option \<Rightarrow> 'v comp option \<Rightarrow> nat \<Rightarrow> 'v option \<Rightarrow> 'v dico_list \<Rightarrow>
     (bool \<times> 'v dico_list) option" where
  "list_intersect_p_loop m b c i p a =
     (case p of None \<Rightarrow> Some (False, a)
      | Some d \<Rightarrow>
          Option.bind (list_locate_raw m b d c) (\<lambda>found.
          if found \<noteq> None then Some (True, a)
          else Option.bind (dico_iterator_next m a (Some i))
                 (\<lambda>x. list_intersect_p_loop m b c i (fst x) (snd x))))"

definition dico_list_intersect_p ::
    "'v mem \<Rightarrow> 'v dico_list option \<Rightarrow> 'v dico_list option \<Rightarrow> 'v comp option \<Rightarrow> nat \<Rightarrow>
     (bool \<times> 'v dico_list option) option" where
  "dico_list_intersect_p m a b c i = do {
     r \<leftarrow> dico_list_iterator i m a;
     (case r of Inl _ \<Rightarrow> Some (False, a)
      | Inr (m1, a1) \<Rightarrow> do {
          (p, a2) \<leftarrow> dico_iterator_first m1 a1 (Some i);
          (rc, a3) \<leftarrow> list_intersect_p_loop m1 b c i p a2;
          Some (rc, Some (dico_iterator_destroy (Some i) a3)) }) }"

section \<open>The abstraction to sequences\<close>

text \<open>
  \<open>seg m q xs r\<close>: the entries at the addresses of \<open>xs\<close> hold its values and are
  linked in that order in both directions; \<open>q\<close> is what the first one's
  \<^verbatim>\<open>prev\<close> holds and \<open>r\<close> what the last one's \<^verbatim>\<open>next\<close> holds.
\<close>

fun hd_addr :: "(addr \<times> 'v) list \<Rightarrow> addr option \<Rightarrow> addr option" where
  "hd_addr [] r = r"
| "hd_addr (x # xs) r = Some (fst x)"

fun last_addr :: "(addr \<times> 'v) list \<Rightarrow> addr option \<Rightarrow> addr option" where
  "last_addr [] q = q"
| "last_addr (x # xs) q = last_addr xs (Some (fst x))"

fun seg :: "(addr \<Rightarrow> 'v list_entry option) \<Rightarrow> addr option \<Rightarrow> (addr \<times> 'v) list \<Rightarrow> addr option \<Rightarrow> bool" where
  "seg h q [] r \<longleftrightarrow> True"
| "seg h q (x # xs) r \<longleftrightarrow>
     h (fst x) = Some \<lparr>e_next = hd_addr xs r, e_prev = q, e_data = snd x\<rparr> \<and>
     seg h (Some (fst x)) xs r"

definition mem_wf :: "'v mem \<Rightarrow> bool" where
  "mem_wf m \<longleftrightarrow> (\<forall>a. brk m \<le> a \<longrightarrow> cells m a = None)"

definition dll :: "'v mem \<Rightarrow> 'v dico_list \<Rightarrow> (addr \<times> 'v) list \<Rightarrow> bool" where
  "dll m l xs \<longleftrightarrow>
     mem_wf m \<and> seg (cells m) None xs None \<and> distinct (map fst xs) \<and>
     l_head l = hd_addr xs None \<and> l_tail l = last_addr xs None \<and> l_count l = length xs"

text \<open>Every attached iterator points at an entry of the list or past its end.\<close>

definition iters_ok :: "'v dico_list \<Rightarrow> (addr \<times> 'v) list \<Rightarrow> bool" where
  "iters_ok l xs \<longleftrightarrow>
     (\<forall>(j, t) \<in> set (l_itr l). \<forall>a. it_cur t = Some a \<longrightarrow> a \<in> fst ` set xs)"

lemma hd_addr_append [simp]: "hd_addr (xs @ ys) r = hd_addr xs (hd_addr ys r)"
  by (cases xs) auto

lemma last_addr_append [simp]: "last_addr (xs @ ys) q = last_addr ys (last_addr xs q)"
  by (induction xs arbitrary: q) auto

lemma last_addr_Some: "xs \<noteq> [] \<Longrightarrow> last_addr xs q = Some (fst (last xs))"
  by (induction xs arbitrary: q) auto

lemma hd_addr_in: "hd_addr xs None = Some a \<Longrightarrow> a \<in> fst ` set xs"
  by (cases xs) auto

lemma last_addr_in: "last_addr xs None = Some a \<Longrightarrow> a \<in> fst ` set xs"
  by (cases "xs = []") (auto simp: last_addr_Some)

lemma hd_addr_eq_None [simp]: "hd_addr xs None = None \<longleftrightarrow> xs = []"
  by (cases xs) auto

lemma hd_addr_Some_ex [simp]: "\<exists>y. hd_addr xs (Some a) = Some y"
  by (cases xs) auto

lemma last_addr_Some_ex [simp]: "\<exists>y. last_addr xs (Some a) = Some y"
  by (induction xs arbitrary: a) auto

lemma last_addr_eq_None [simp]: "last_addr xs None = None \<longleftrightarrow> xs = []"
  by (cases "xs = []") (auto simp: last_addr_Some)

lemma seg_append [simp]:
  "seg h q (xs @ ys) r \<longleftrightarrow> seg h q xs (hd_addr ys r) \<and> seg h (last_addr xs q) ys r"
  by (induction xs arbitrary: q) auto

lemma seg_cong:
  "(\<And>a. a \<in> fst ` set xs \<Longrightarrow> h' a = h a) \<Longrightarrow> seg h' q xs r = seg h q xs r"
  by (induction xs arbitrary: q) auto

lemma seg_upd_other [simp]: "a \<notin> fst ` set xs \<Longrightarrow> seg (h(a := e)) q xs r = seg h q xs r"
  by (rule seg_cong) auto

lemma seg_live: "seg h q xs r \<Longrightarrow> a \<in> fst ` set xs \<Longrightarrow> \<exists>e. h a = Some e"
  by (induction xs arbitrary: q) auto

lemma brk_not_in_seg: "mem_wf m \<Longrightarrow> seg (cells m) q xs r \<Longrightarrow> brk m \<notin> fst ` set xs"
  using seg_live [of "cells m" q xs r "brk m"] by (auto simp: mem_wf_def)

lemma mem_wf_alloc:
  "mem_wf m \<Longrightarrow> mem_wf (m\<lparr>cells := (cells m)(brk m \<mapsto> e), brk := Suc (brk m), avail := n\<rparr>)"
  by (simp add: mem_wf_def)

lemma mem_wf_upd: "mem_wf m \<Longrightarrow> a < brk m \<Longrightarrow> mem_wf (m\<lparr>cells := (cells m)(a := e)\<rparr>)"
  by (auto simp: mem_wf_def)

lemma mem_wf_live: "mem_wf m \<Longrightarrow> cells m a = Some e \<Longrightarrow> a < brk m"
  by (metis mem_wf_def not_le option.distinct(1))

lemma dll_empty: "mem_wf m \<Longrightarrow> dll m empty_list []"
  by (simp add: dll_def empty_list_def)

section \<open>The forward chain\<close>

text \<open>
  Prepending keeps the chain of \<^verbatim>\<open>next\<close> pointers but not the \<^verbatim>\<open>prev\<close>
  pointers; \<open>chain\<close> is what it keeps.
\<close>

fun nseg :: "(addr \<Rightarrow> 'v list_entry option) \<Rightarrow> (addr \<times> 'v) list \<Rightarrow> addr option \<Rightarrow> bool" where
  "nseg h [] r \<longleftrightarrow> True"
| "nseg h (x # xs) r \<longleftrightarrow>
     (\<exists>q. h (fst x) = Some \<lparr>e_next = hd_addr xs r, e_prev = q, e_data = snd x\<rparr>) \<and> nseg h xs r"

definition chain :: "'v mem \<Rightarrow> 'v dico_list \<Rightarrow> (addr \<times> 'v) list \<Rightarrow> bool" where
  "chain m l xs \<longleftrightarrow>
     mem_wf m \<and> nseg (cells m) xs None \<and> distinct (map fst xs) \<and>
     l_head l = hd_addr xs None \<and> l_tail l = last_addr xs None \<and> l_count l = length xs"

lemma seg_nseg: "seg h q xs r \<Longrightarrow> nseg h xs r"
  by (induction xs arbitrary: q) auto

lemma dll_chain: "dll m l xs \<Longrightarrow> chain m l xs"
  by (auto simp: dll_def chain_def intro: seg_nseg)

lemma nseg_upd_other [simp]: "a \<notin> fst ` set xs \<Longrightarrow> nseg (h(a := e)) xs r = nseg h xs r"
  by (induction xs) auto

lemma nseg_live: "nseg h xs r \<Longrightarrow> a \<in> fst ` set xs \<Longrightarrow> \<exists>e. h a = Some e"
  by (induction xs) auto

lemma brk_not_in_nseg: "mem_wf m \<Longrightarrow> nseg (cells m) xs r \<Longrightarrow> brk m \<notin> fst ` set xs"
  using nseg_live [of "cells m" xs r "brk m"] by (auto simp: mem_wf_def)

section \<open>Appending\<close>

lemma list_append_raw_nomem: "avail m = 0 \<Longrightarrow> list_append_raw m l d = Some (Inl ENOMEM)"
  by (simp add: list_append_raw_def mem_malloc_def)

lemma list_append_raw_dll:
  assumes "dll m l xs" and "avail m > 0"
  shows "\<exists>m' l'. list_append_raw m l d = Some (Inr (m', l')) \<and>
           dll m' l' (xs @ [(brk m, d)]) \<and> l_itr l' = l_itr l \<and>
           l_comp l' = l_comp l \<and> l_flags l' = l_flags l \<and> l_free_item l' = l_free_item l \<and>
           avail m' = avail m - 1 \<and> brk m' = Suc (brk m) \<and>
           (\<forall>a. a \<notin> fst ` set xs \<longrightarrow> a \<noteq> brk m \<longrightarrow> cells m' a = cells m a)"
proof (cases xs rule: rev_cases)
  case Nil
  with assms show ?thesis
    by (auto simp: list_append_raw_def mem_malloc_def dll_def mem_wf_def)
next
  case (snoc ys y)
  note [simp] = snoc
  have fresh: "brk m \<notin> fst ` set xs"
    using assms(1) brk_not_in_seg unfolding dll_def by blast
  have lt: "fst y < brk m"
    using assms(1) mem_wf_live [of m "fst y"] by (auto simp: dll_def)
  have notin: "fst y \<notin> fst ` set ys"
    using assms(1) by (auto simp: dll_def)
  show ?thesis
    using assms fresh lt notin
    by (auto simp: list_append_raw_def mem_malloc_def mem_set_def dll_def mem_wf_def fun_upd_twist)
qed

section \<open>Removal\<close>

text \<open>What an iterator does when the entry \<open>p\<close> is unlinked.\<close>

lemma iters_ok_advance:
  assumes "iters_ok l (ys @ (p, v) # zs)" and "p \<notin> fst ` set ys" and "p \<notin> fst ` set zs"
    and "l_itr l' = iterator_advance (l_itr l) p (hd_addr zs None)"
  shows "iters_ok l' (ys @ zs)"
  using assms
  by (cases zs) (fastforce simp: iters_ok_def iterator_advance_def split: if_splits)+

lemma list_remove_item_dll:
  assumes "dll m l (ys @ (p, v) # zs)"
  shows "\<exists>m' l'. list_remove_item m l p want = Some (v, m', l') \<and> dll m' l' (ys @ zs) \<and>
           l_itr l' = iterator_advance (l_itr l) p (hd_addr zs None) \<and>
           l_comp l' = l_comp l \<and> l_flags l' = l_flags l \<and>
           released m' = released m @ (if want \<or> \<not> l_free_item l then [] else [v]) \<and>
           freed m' p \<noteq> None \<and> cells m' p = None"
proof -
  note D = assms [unfolded dll_def]
  have lt: "\<And>a. a \<in> fst ` set (ys @ (p, v) # zs) \<Longrightarrow> a < brk m"
    using D seg_live mem_wf_live by metis
  show ?thesis
  proof (cases ys rule: rev_cases)
    case Nil
    with D lt show ?thesis
      by (cases zs)
        (auto simp: list_remove_item_def mem_set_def mem_free_def mem_release_def dll_def mem_wf_def Let_def)
  next
    case (snoc us u)
    with D lt show ?thesis
      by (cases zs)
        (auto simp: list_remove_item_def mem_set_def mem_free_def mem_release_def dll_def mem_wf_def
          Let_def)
  qed
qed

section \<open>Searching\<close>

text \<open>The specification of the searches: on the sequence of items alone.\<close>

fun l_locate :: "'v comp \<Rightarrow> 'v list \<Rightarrow> 'v \<Rightarrow> 'v option" where
  "l_locate c [] k = None"
| "l_locate c (v # vs) k = (case c v k of (r, k') \<Rightarrow> if r = 0 then Some v else l_locate c vs k')"

fun l_remove :: "'v comp \<Rightarrow> 'v list \<Rightarrow> 'v \<Rightarrow> ('v \<times> 'v list) option" where
  "l_remove c [] k = None"
| "l_remove c (v # vs) k =
     (case c v k of (r, k') \<Rightarrow>
        if r = 0 then Some (v, vs) else map_option (apsnd ((#) v)) (l_remove c vs k'))"

fun node_find :: "'v comp \<Rightarrow> (addr \<times> 'v) list \<Rightarrow> 'v \<Rightarrow> (addr \<times> 'v) option \<times> 'v" where
  "node_find c [] k = (None, k)"
| "node_find c (x # xs) k =
     (case c (snd x) k of (r, k') \<Rightarrow> if r = 0 then (Some x, k') else node_find c xs k')"

lemma list_find_nseg:
  "nseg (cells m) xs None \<Longrightarrow>
   list_find m c (hd_addr xs None) k = Some (map_option fst (fst (node_find c xs k)), snd (node_find c xs k))"
proof (induction xs arbitrary: k)
  case Nil
  then show ?case by (subst list_find.simps) simp
next
  case (Cons x xs)
  then show ?case by (subst list_find.simps) (auto split: prod.splits)
qed

lemma node_find_locate: "map_option snd (fst (node_find c xs k)) = l_locate c (map snd xs) k"
  by (induction xs arbitrary: k) (auto split: prod.splits)

lemma node_find_None: "fst (node_find c xs k) = None \<Longrightarrow> l_remove c (map snd xs) k = None"
  by (induction xs arbitrary: k) (auto split: prod.splits if_splits)

lemma node_find_Some:
  "fst (node_find c xs k) = Some x \<Longrightarrow>
   \<exists>ys zs. xs = ys @ x # zs \<and> l_remove c (map snd xs) k = Some (snd x, map snd ys @ map snd zs)"
proof (induction xs arbitrary: k)
  case Nil
  then show ?case by simp
next
  case (Cons y xs)
  obtain r k' where c: "c (snd y) k = (r, k')" by fastforce
  show ?case
  proof (cases "r = 0")
    case True
    with Cons.prems c show ?thesis by (intro exI [of _ "[]"] exI [of _ xs]) auto
  next
    case False
    with Cons.prems c have "fst (node_find c xs k') = Some x" by simp
    from Cons.IH [OF this] obtain ys zs where "xs = ys @ x # zs"
        "l_remove c (map snd xs) k' = Some (snd x, map snd ys @ map snd zs)"
      by blast
    with c False show ?thesis by (intro exI [of _ "y # ys"] exI [of _ zs]) auto
  qed
qed

lemma nseg_node: "nseg h xs r \<Longrightarrow> x \<in> set xs \<Longrightarrow> \<exists>e. h (fst x) = Some e \<and> e_data e = snd x"
  by (induction xs) auto

lemma node_find_in: "fst (node_find c xs k) = Some x \<Longrightarrow> x \<in> set xs"
  using node_find_Some by fastforce

lemma list_locate_raw_chain:
  assumes "chain m l xs"
  shows "list_locate_raw m (Some l) k c = Some (l_locate (comp_or_ptr c) (map snd xs) k)"
proof -
  have find: "list_find m (comp_or_ptr c) (l_head l) k =
      Some (map_option fst (fst (node_find (comp_or_ptr c) xs k)), snd (node_find (comp_or_ptr c) xs k))"
    using assms list_find_nseg by (auto simp: chain_def)
  show ?thesis
  proof (cases "fst (node_find (comp_or_ptr c) xs k)")
    case None
    with find show ?thesis
      by (simp add: list_locate_raw_def node_find_locate [symmetric])
  next
    case (Some x)
    then obtain e where "cells m (fst x) = Some e" "e_data e = snd x"
      using assms nseg_node [OF _ node_find_in [OF Some]] unfolding chain_def by blast
    with find Some show ?thesis
      by (simp add: list_locate_raw_def node_find_locate [symmetric])
  qed
qed

lemma list_remove_raw_dll:
  assumes "dll m l xs"
  shows "case l_remove (comp_or_ptr c) (map snd xs) k of
           None \<Rightarrow> list_remove_raw m (Some l) k c want = Some (Inl ENOENT)
         | Some (v, vs) \<Rightarrow> \<exists>m' l' xs'.
             list_remove_raw m (Some l) k c want = Some (Inr (v, m', l')) \<and> dll m' l' xs' \<and>
             map snd xs' = vs \<and> l_comp l' = l_comp l \<and> l_flags l' = l_flags l \<and>
             released m' = released m @ (if want \<or> \<not> l_free_item l then [] else [v]) \<and>
             (iters_ok l xs \<longrightarrow> iters_ok l' xs')"
proof (cases "fst (node_find (comp_or_ptr c) xs k)")
  case None
  then show ?thesis
    using dll_chain [OF assms] list_find_nseg [of m xs] node_find_None [of "comp_or_ptr c" xs k]
    by (auto simp: list_remove_raw_def chain_def)
next
  case (Some x)
  from node_find_Some [OF this] obtain ys zs where split: "xs = ys @ x # zs"
    and rm: "l_remove (comp_or_ptr c) (map snd xs) k = Some (snd x, map snd ys @ map snd zs)"
    by blast
  obtain m' l' where r: "list_remove_item m l (fst x) want = Some (snd x, m', l')"
    "dll m' l' (ys @ zs)" "l_itr l' = iterator_advance (l_itr l) (fst x) (hd_addr zs None)"
    "l_comp l' = l_comp l" "l_flags l' = l_flags l"
    "released m' = released m @ (if want \<or> \<not> l_free_item l then [] else [snd x])"
    using list_remove_item_dll [of m l ys "fst x" "snd x" zs want] assms split by auto
  have ok: "iters_ok l xs \<longrightarrow> iters_ok l' (ys @ zs)"
    using iters_ok_advance [of l ys "fst x" "snd x" zs l'] assms split r(3)
    by (auto simp: dll_def)
  have "list_remove_raw m (Some l) k c want = Some (Inr (snd x, m', l'))"
    using dll_chain [OF assms] Some r(1) list_find_nseg [of m xs "comp_or_ptr c" k] split
    by (auto simp: list_remove_raw_def chain_def)
  with rm r ok show ?thesis by fastforce
qed

section \<open>Prepending\<close>

lemma list_prepend_raw_chain:
  assumes "chain m l xs" and "avail m > 0"
  shows "\<exists>m' l'. list_prepend_raw m l d = Some (Inr (m', l')) \<and> chain m' l' ((brk m, d) # xs) \<and>
           l_comp l' = l_comp l \<and> l_flags l' = l_flags l \<and> (xs = [] \<longrightarrow> dll m' l' [(brk m, d)])"
proof -
  have "brk m \<notin> fst ` set xs"
    using assms(1) brk_not_in_nseg unfolding chain_def by blast
  with assms show ?thesis
    by (cases xs) (auto simp: list_prepend_raw_def mem_malloc_def chain_def dll_def mem_wf_def last_addr_Some)
qed

text \<open>A well-formed list of at least one entry is not well-formed after a prepend.\<close>

lemma list_prepend_raw_breaks:
  assumes "dll m l xs" and "xs \<noteq> []" and "list_prepend_raw m l d = Some (Inr (m', l'))"
  shows "\<not> dll m' l' ys"
proof
  assume D: "dll m' l' ys"
  obtain x zs where xs: "xs = x # zs" using assms(2) by (cases xs) auto
  have h: "cells m (fst x) = Some \<lparr>e_next = hd_addr zs None, e_prev = None, e_data = snd x\<rparr>"
    and fresh: "brk m \<noteq> fst x"
    using assms(1) xs brk_not_in_seg [of m None xs None] by (auto simp: dll_def)
  have new: "cells m' (brk m) = Some \<lparr>e_next = Some (fst x), e_prev = None, e_data = d\<rparr>"
    and old: "cells m' (fst x) = cells m (fst x)" and hd: "l_head l' = Some (brk m)"
    using assms(1,3) xs fresh
    by (auto simp: list_prepend_raw_def mem_malloc_def dll_def split: if_splits)
  from D hd new obtain y ws where "ys = y # ws" "fst y = brk m"
    by (cases ys) (auto simp: dll_def)
  with D new h old show False
    by (cases ws) (auto simp: dll_def)
qed

section \<open>Sorted insertion\<close>

fun l_insert_sorted :: "'v comp \<Rightarrow> bool \<Rightarrow> 'v list \<Rightarrow> 'v \<Rightarrow> 'v list option" where
  "l_insert_sorted c uniq [] d = Some [d]"
| "l_insert_sorted c uniq (v # vs) d =
     (case c v d of (r, d') \<Rightarrow>
        if r > 0 then Some (d' # v # vs)
        else if r = 0 \<and> uniq then None
        else map_option ((#) v) (l_insert_sorted c uniq vs d'))"

fun node_scan :: "'v comp \<Rightarrow> nat \<Rightarrow> (addr \<times> 'v) list \<Rightarrow> nat \<Rightarrow> 'v \<Rightarrow> scan \<times> 'v" where
  "node_scan c fl [] i d = (Scan_end, d)"
| "node_scan c fl (x # xs) i d =
     (case c (snd x) d of (r, d') \<Rightarrow>
        if r > 0 then (Scan_at (fst x) i, d')
        else if r = 0 \<and> fl \<noteq> 0 then (Scan_dup, d')
        else node_scan c fl xs (Suc i) d')"

lemma list_sorted_scan_seg:
  "seg (cells m) q xs None \<Longrightarrow>
   list_sorted_scan m c fl (hd_addr xs None) i d = Some (node_scan c fl xs i d)"
proof (induction xs arbitrary: q i d)
  case Nil
  then show ?case by (subst list_sorted_scan.simps) simp
next
  case (Cons x xs)
  then show ?case by (subst list_sorted_scan.simps) (auto split: prod.splits)
qed

lemma node_scan_spec:
  "case node_scan c fl xs i d of
     (Scan_dup, d') \<Rightarrow> l_insert_sorted c (fl \<noteq> 0) (map snd xs) d = None
   | (Scan_end, d') \<Rightarrow> l_insert_sorted c (fl \<noteq> 0) (map snd xs) d = Some (map snd xs @ [d'])
   | (Scan_at a j, d') \<Rightarrow> \<exists>ys x zs. xs = ys @ x # zs \<and> fst x = a \<and>
        l_insert_sorted c (fl \<noteq> 0) (map snd xs) d = Some (map snd ys @ d' # map snd (x # zs))"
proof (induction xs arbitrary: i d)
  case Nil
  then show ?case by simp
next
  case (Cons x xs)
  obtain r d' where c: "c (snd x) d = (r, d')" by fastforce
  consider "r > 0" | "r = 0" "fl \<noteq> 0" | "\<not> r > 0" "\<not> (r = 0 \<and> fl \<noteq> 0)" by blast
  then show ?case
  proof cases
    case 1
    with c show ?thesis by (fastforce intro: exI [of _ "[]"])
  next
    case 2
    with c show ?thesis by simp
  next
    case 3
    obtain s d'' where ns: "node_scan c fl xs (Suc i) d' = (s, d'')" by fastforce
    note IH = Cons.IH [where i = "Suc i" and d = d', unfolded ns]
    show ?thesis
    proof (cases s)
      case (Scan_at a j)
      with IH obtain ys y zs where "xs = ys @ y # zs" "fst y = a"
        "l_insert_sorted c (fl \<noteq> 0) (map snd xs) d' = Some (map snd ys @ d'' # map snd (y # zs))"
        by auto
      with c 3 have "x # xs = (x # ys) @ y # zs \<and> fst y = a \<and>
          l_insert_sorted c (fl \<noteq> 0) (map snd (x # xs)) d =
            Some (map snd (x # ys) @ d'' # map snd (y # zs))" by auto
      moreover have node: "node_scan c fl (x # xs) i d = (Scan_at a j, d'')"
        using ns c 3 Scan_at by simp
      ultimately show ?thesis unfolding node prod.case scan.case by blast
    qed (use IH ns c 3 in auto)
  qed
qed

lemma list_insert_mid_dll:
  assumes "dll m l (ys @ x # zs)" and "ys \<noteq> []" and "avail m > 0"
  shows "\<exists>m1 m2 m3 q. mem_malloc m \<lparr>e_next = Some (fst x), e_prev = last_addr ys None, e_data = d\<rparr> =
             Some (brk m, m1) \<and> last_addr ys None = Some q \<and>
           mem_set m1 (fst x) (\<lambda>e. e\<lparr>e_prev := Some (brk m)\<rparr>) = Some m2 \<and>
           mem_set m2 q (\<lambda>e. e\<lparr>e_next := Some (brk m)\<rparr>) = Some m3 \<and>
           (\<forall>l'. l_head l' = l_head l \<longrightarrow> l_tail l' = l_tail l \<longrightarrow> l_count l' = Suc (l_count l) \<longrightarrow>
              dll m3 l' (ys @ (brk m, d) # x # zs))"
proof -
  note D = assms(1) [unfolded dll_def]
  obtain us u where ys: "ys = us @ [u]" using assms(2) by (cases ys rule: rev_cases) auto
  have fresh: "brk m \<notin> fst ` set (ys @ x # zs)" using D brk_not_in_seg by blast
  have lt: "fst x < brk m" "fst u < brk m"
    using D ys mem_wf_live [of m] by auto
  show ?thesis
    using D ys assms(3) fresh lt
    by (auto simp: mem_malloc_def mem_set_def dll_def mem_wf_def image_Un)
qed

lemma list_insert_sorted_raw_dll:
  assumes "dll m l xs" and "avail m > 0"
  shows "case l_insert_sorted (comp_or_ptr c) (l_flags l \<noteq> 0) (map snd xs) d of
           None \<Rightarrow> list_insert_sorted_raw m (Some l) d c = Some (Inl EEXIST)
         | Some vs \<Rightarrow> \<exists>m' l' xs'.
             list_insert_sorted_raw m (Some l) d c = Some (Inr (m', l')) \<and>
             chain m' l' xs' \<and> map snd xs' = vs \<and> l_comp l' = l_comp l \<and> l_flags l' = l_flags l \<and>
             (xs = [] \<or> hd_addr xs' None = hd_addr xs None \<longrightarrow> dll m' l' xs')"
proof (cases "xs = []")
  case True
  obtain m' l' where "list_append_raw m l d = Some (Inr (m', l'))" "dll m' l' [(brk m, d)]"
    "l_comp l' = l_comp l" "l_flags l' = l_flags l"
    using list_append_raw_dll [OF assms, of d] True by auto
  moreover have "l_head l = None" using assms(1) True by (simp add: dll_def)
  ultimately show ?thesis
    using True by (auto simp: list_insert_sorted_raw_def intro!: exI [of _ "[(brk m, d)]"] dll_chain)
next
  case False
  obtain s d' where ns: "node_scan (comp_or_ptr c) (l_flags l) xs 0 d = (s, d')" by fastforce
  have scan: "list_sorted_scan m (comp_or_ptr c) (l_flags l) (l_head l) 0 d = Some (s, d')"
    using assms(1) list_sorted_scan_seg [of m None xs] ns by (simp add: dll_def)
  have hd: "l_head l \<noteq> None" using assms(1) False by (simp add: dll_def)
  note sp = node_scan_spec [where c = "comp_or_ptr c" and fl = "l_flags l" and xs = xs and i = 0 and d = d,
      unfolded ns]
  show ?thesis
  proof (cases s)
    case Scan_dup
    with sp scan hd show ?thesis by (auto simp: list_insert_sorted_raw_def)
  next
    case Scan_end
    with sp scan hd list_append_raw_dll [OF assms, of d'] show ?thesis
      by (fastforce simp: list_insert_sorted_raw_def intro: dll_chain)
  next
    case (Scan_at a j)
    with sp obtain ys x zs where xs: "xs = ys @ x # zs" and a: "fst x = a"
      and ins: "l_insert_sorted (comp_or_ptr c) (l_flags l \<noteq> 0) (map snd xs) d =
                  Some (map snd ys @ d' # map snd (x # zs))" by auto
    have ce: "cells m a = Some \<lparr>e_next = hd_addr zs None, e_prev = last_addr ys None, e_data = snd x\<rparr>"
      using assms(1) xs a by (auto simp: dll_def)
    show ?thesis
    proof (cases "ys = []")
      case True
      have step: "list_insert_sorted_raw m (Some l) d c = list_prepend_raw m l d'"
        using True Scan_at scan hd ce by (auto simp: list_insert_sorted_raw_def)
      obtain m' l' where p: "list_prepend_raw m l d' = Some (Inr (m', l'))"
        "chain m' l' ((brk m, d') # xs)" "l_comp l' = l_comp l" "l_flags l' = l_flags l"
        using list_prepend_raw_chain [OF dll_chain [OF assms(1)] assms(2), of d'] by blast
      moreover have "brk m \<noteq> a"
        using assms(1) xs a brk_not_in_seg [of m None xs None] by (auto simp: dll_def)
      ultimately show ?thesis
        using True step ins xs a by (auto intro!: exI [of _ "(brk m, d') # xs"])
    next
      case False
      with list_insert_mid_dll [of m l ys x zs d'] assms xs
      obtain m1 m2 m3 q where mid: "mem_malloc m \<lparr>e_next = Some (fst x), e_prev = last_addr ys None,
            e_data = d'\<rparr> = Some (brk m, m1)" "last_addr ys None = Some q"
        "mem_set m1 (fst x) (\<lambda>e. e\<lparr>e_prev := Some (brk m)\<rparr>) = Some m2"
        "mem_set m2 q (\<lambda>e. e\<lparr>e_next := Some (brk m)\<rparr>) = Some m3"
        "\<And>l'. l_head l' = l_head l \<Longrightarrow> l_tail l' = l_tail l \<Longrightarrow> l_count l' = Suc (l_count l) \<Longrightarrow>
              dll m3 l' (ys @ (brk m, d') # x # zs)" by blast
      have "list_insert_sorted_raw m (Some l) d c =
          Some (Inr (m3, l\<lparr>l_itr := iterator_increase_pos (l_itr l) (of_nat j - 1),
                          l_count := Suc (l_count l)\<rparr>))"
        using Scan_at scan hd ce mid(1-4) a by (auto simp: list_insert_sorted_raw_def)
      with ins mid(5) show ?thesis
        by (auto intro!: exI [of _ "ys @ (brk m, d') # x # zs"] dll_chain)
    qed
  qed
qed

end
