(* ===== verification/Dico_List_Props.thy ===== *)
theory Dico_List_Props
  imports Dico_List "HOL-Library.Multiset"
begin

text \<open>
  What \<^verbatim>\<open>lib/list.c\<close> guarantees: the heap operations of \<open>Dico_List\<close> implement
  operations on sequences, traversal visits every item in order, clearing gives back
  every entry, the intersection is the filtered first list. The interface the other
  components rely on is the locale \<open>item_store\<close>, interpreted on the heap operations.
  The section on prepending shows what the missing \<^verbatim>\<open>prev\<close> link costs.
\<close>

section \<open>Traversal\<close>

fun l_iterate :: "('v \<Rightarrow> 's \<Rightarrow> bool \<times> 's) \<Rightarrow> 'v list \<Rightarrow> 's \<Rightarrow> 's" where
  "l_iterate f [] s = s"
| "l_iterate f (v # vs) s = (case f v s of (stop, s') \<Rightarrow> if stop then s' else l_iterate f vs s')"

definition hd_val :: "(addr \<times> 'v) list \<Rightarrow> 'v option" where
  "hd_val xs = (case xs of [] \<Rightarrow> None | x # _ \<Rightarrow> Some (snd x))"

lemma hd_val_simps [simp]: "hd_val [] = None" "hd_val (x # xs) = Some (snd x)"
  by (simp_all add: hd_val_def)

text \<open>An iterator standing at the front of the remaining entries \<open>xs\<close>.\<close>

definition it_at :: "'v dico_list \<Rightarrow> nat \<Rightarrow> (addr \<times> 'v) list \<Rightarrow> (nat \<times> iterator) list \<Rightarrow> bool" where
  "it_at l i xs rest \<longleftrightarrow>
     i \<notin> fst ` set rest \<and>
     (\<exists>t. l_itr l = (i, t) # rest \<and> it_cur t = hd_addr xs None \<and> it_advanced t = 0)"

lemma map_other_ids [simp]:
  "i \<notin> fst ` set rest \<Longrightarrow> map (\<lambda>(j, t). (j, if j = i then f t else t)) rest = rest"
  by (induction rest) auto

lemma it_at_current:
  "nseg (cells m) xs None \<Longrightarrow> it_at l i xs rest \<Longrightarrow> dico_iterator_current m l (Some i) = Some (hd_val xs)"
  by (cases xs) (auto simp: it_at_def dico_iterator_current_def list_it_def)

lemma dico_iterator_first_at:
  assumes "nseg (cells m) xs None" and "l_head l = hd_addr xs None"
    and "l_itr l = (i, t) # rest" and "i \<notin> fst ` set rest"
  shows "\<exists>l'. dico_iterator_first m l (Some i) = Some (hd_val xs, l') \<and> it_at l' i xs rest \<and>
           l'\<lparr>l_itr := rest\<rparr> = l\<lparr>l_itr := rest\<rparr>"
proof -
  let ?l' = "list_it_upd i (\<lambda>t. t\<lparr>it_cur := l_head l, it_advanced := 0, it_pos := 0\<rparr>) l"
  have at: "it_at ?l' i xs rest" using assms by (simp add: it_at_def list_it_upd_def)
  show ?thesis
    using assms it_at_current [OF assms(1) at] at
    by (simp add: dico_iterator_first_def list_it_def) (simp add: list_it_upd_def)
qed

lemma dico_iterator_next_at:
  assumes "nseg (cells m) (x # xs) None" and "it_at l i (x # xs) rest"
  shows "\<exists>l'. dico_iterator_next m l (Some i) = Some (hd_val xs, l') \<and> it_at l' i xs rest \<and>
           l'\<lparr>l_itr := rest\<rparr> = l\<lparr>l_itr := rest\<rparr>"
proof -
  from assms(2) obtain t where t: "l_itr l = (i, t) # rest" "it_cur t = Some (fst x)"
    "it_advanced t = 0" "i \<notin> fst ` set rest" by (auto simp: it_at_def)
  from assms(1) obtain q where e: "cells m (fst x) = Some \<lparr>e_next = hd_addr xs None, e_prev = q, e_data = snd x\<rparr>"
    by auto
  let ?l' = "list_it_upd i (\<lambda>_. t\<lparr>it_cur := hd_addr xs None, it_pos := it_pos t + 1, it_advanced := 0\<rparr>) l"
  have at: "it_at ?l' i xs rest" using t by (simp add: it_at_def list_it_upd_def)
  have "dico_iterator_next m l (Some i) = Some (hd_val xs, ?l')"
    using t e it_at_current [OF _ at, of m] assms(1)
    by (simp add: dico_iterator_next_def list_it_def)
  then show ?thesis using at t by (simp add: list_it_upd_def)
qed

lemma list_iterate_loop_at:
  "nseg (cells m) xs None \<Longrightarrow> it_at l i xs rest \<Longrightarrow>
   \<exists>l'. list_iterate_loop m i f (hd_val xs) l s = Some (l', l_iterate f (map snd xs) s) \<and>
        (\<exists>t. l_itr l' = (i, t) # rest) \<and> l'\<lparr>l_itr := rest\<rparr> = l\<lparr>l_itr := rest\<rparr>"
proof (induction xs arbitrary: l s)
  case Nil
  then show ?case by (subst list_iterate_loop.simps) (auto simp: it_at_def)
next
  case (Cons x xs)
  obtain stop s' where f: "f (snd x) s = (stop, s')" by fastforce
  show ?case
  proof (cases stop)
    case True
    with f Cons.prems show ?thesis
      by (subst list_iterate_loop.simps) (auto simp: it_at_def)
  next
    case False
    obtain l1 where l1: "dico_iterator_next m l (Some i) = Some (hd_val xs, l1)" "it_at l1 i xs rest"
      "l1\<lparr>l_itr := rest\<rparr> = l\<lparr>l_itr := rest\<rparr>"
      using dico_iterator_next_at [OF Cons.prems] by blast
    with Cons.IH [of l1 s'] Cons.prems(1) f False show ?thesis
      by (subst list_iterate_loop.simps) auto
  qed
qed

lemma itr_detach_hd [simp]: "itr_detach i ((i, t) # rest) = rest"
  by simp

lemma dico_list_iterate_chain:
  assumes "chain m l xs" and "i \<notin> fst ` set (l_itr l)"
  shows "dico_list_iterate m (Some l) i f s = Some (Some l, l_iterate f (map snd xs) s)"
proof -
  let ?l0 = "dico_iterator_attach i l"
  have n: "nseg (cells m) xs None" and h: "l_head ?l0 = hd_addr xs None"
    using assms(1) by (auto simp: chain_def dico_iterator_attach_def)
  obtain t where t: "l_itr ?l0 = (i, t) # l_itr l" by (simp add: dico_iterator_attach_def)
  obtain l1 where l1: "dico_iterator_first m ?l0 (Some i) = Some (hd_val xs, l1)"
    "it_at l1 i xs (l_itr l)" "l1\<lparr>l_itr := l_itr l\<rparr> = ?l0\<lparr>l_itr := l_itr l\<rparr>"
    using dico_iterator_first_at [OF n h t assms(2)] by blast
  obtain l2 t2 where l2: "list_iterate_loop m i f (hd_val xs) l1 s = Some (l2, l_iterate f (map snd xs) s)"
    "l_itr l2 = (i, t2) # l_itr l" "l2\<lparr>l_itr := l_itr l\<rparr> = l1\<lparr>l_itr := l_itr l\<rparr>"
    using list_iterate_loop_at [OF n l1(2), of f s] by (elim exE conjE) (rule that)
  have "dico_iterator_detach i l2 = l"
    using l2 l1(3) by (simp add: dico_iterator_detach_def dico_iterator_attach_def)
  with l1(1) l2(1) show ?thesis by (simp add: dico_list_iterate_def)
qed

section \<open>Clearing, items by number, the last item\<close>

lemma list_clear_loop_seg:
  "seg (cells m) q xs None \<Longrightarrow> distinct (map fst xs) \<Longrightarrow>
   \<exists>m'. list_clear_loop l m (hd_addr xs None) = Some m' \<and>
        (\<forall>a. cells m' a = (if a \<in> fst ` set xs then None else cells m a)) \<and>
        released m' = released m @ (if l_free_item l then map snd xs else []) \<and>
        brk m' = brk m \<and> avail m' = avail m"
proof (induction xs arbitrary: m q)
  case Nil
  then show ?case by (subst list_clear_loop.simps) auto
next
  case (Cons x xs)
  let ?m1 = "mem_release l (snd x) m"
  let ?m2 = "?m1\<lparr>cells := (cells m)(fst x := None), freed := (freed m)(fst x := cells m (fst x))\<rparr>"
  have e: "cells m (fst x) = Some \<lparr>e_next = hd_addr xs None, e_prev = q, e_data = snd x\<rparr>"
    using Cons.prems by simp
  have fr: "mem_free ?m1 (fst x) = Some ?m2"
    using e by (simp add: mem_free_def mem_release_def)
  have "seg (cells ?m2) (Some (fst x)) xs None"
    using Cons.prems by simp
  from Cons.IH [OF this] Cons.prems(2) obtain m' where
    "list_clear_loop l ?m2 (hd_addr xs None) = Some m'"
    "\<forall>a. cells m' a = (if a \<in> fst ` set xs then None else cells ?m2 a)"
    "released m' = released ?m2 @ (if l_free_item l then map snd xs else [])"
    "brk m' = brk ?m2" "avail m' = avail ?m2" by auto
  with e fr show ?case
    by (subst list_clear_loop.simps) (auto simp: mem_release_def)
qed

lemma list_item_loop_nseg:
  "nseg (cells m) xs None \<Longrightarrow> n < length xs \<Longrightarrow>
   list_item_loop m (hd_addr xs None) n = Some (Some (fst (xs ! n)))"
proof (induction xs arbitrary: n)
  case Nil
  then show ?case by simp
next
  case (Cons x xs)
  then show ?case by (cases n) (subst list_item_loop.simps; auto)+
qed

lemma nseg_nth: "nseg h xs r \<Longrightarrow> n < length xs \<Longrightarrow> \<exists>e. h (fst (xs ! n)) = Some e \<and> e_data e = snd (xs ! n)"
  by (induction xs arbitrary: n) (auto simp: nth_Cons split: nat.splits)

lemma dico_list_item_chain:
  assumes "chain m l xs"
  shows "dico_list_item m (Some l) n = Some (if n < length xs then Some (map snd xs ! n) else None)"
proof (cases "n < length xs")
  case True
  obtain e where "cells m (fst (xs ! n)) = Some e" "e_data e = snd (xs ! n)"
    using assms True nseg_nth unfolding chain_def by blast
  with assms True list_item_loop_nseg [of m xs n] show ?thesis
    by (simp add: dico_list_item_def chain_def)
next
  case False
  with assms show ?thesis by (simp add: dico_list_item_def chain_def)
qed

lemma dico_list_pop_dll:
  assumes "dll m l xs"
  shows "if xs = [] then dico_list_pop m l = Some (None, m, l)
         else \<exists>m' l'. dico_list_pop m l = Some (Some (snd (last xs)), m', l') \<and> dll m' l' (butlast xs)"
proof (cases xs rule: rev_cases)
  case Nil
  with assms show ?thesis by (simp add: dico_list_pop_def dll_def)
next
  case (snoc ys y)
  then have "l_tail l = Some (fst y)" using assms by (auto simp: dll_def)
  with snoc assms list_remove_item_dll [of m l ys "fst y" "snd y" "[]" True] show ?thesis
    by (auto simp: dico_list_pop_def)
qed

section \<open>Intersection\<close>

lemma chain_frame:
  assumes "chain m l xs" and "\<And>a. a \<in> fst ` set xs \<Longrightarrow> cells m' a = cells m a" and "mem_wf m'"
  shows "chain m' l xs"
proof -
  have "nseg (cells m') ys r = nseg (cells m) ys r" if "set ys \<subseteq> set xs" for ys r
    using that assms(2) by (induction ys) auto
  then show ?thesis using assms(1,3) by (auto simp: chain_def)
qed

lemma chain_below_brk: "chain m l xs \<Longrightarrow> a \<in> fst ` set xs \<Longrightarrow> a < brk m"
  using nseg_live [of "cells m" xs None a] mem_wf_live [of m a] by (auto simp: chain_def)

lemma nseg_frame:
  "nseg h xs r \<Longrightarrow> (\<And>a. a \<in> fst ` set xs \<Longrightarrow> h' a = h a) \<Longrightarrow> nseg h' xs r"
  by (induction xs) auto

text \<open>One round of the loop: look the item up in \<open>b\<close>, append it to the result if found.\<close>

lemma list_intersect_round:
  assumes "chain m b ys" and "dll m res rs" and "avail m > 0" and "fst ` set ys \<inter> fst ` set rs = {}"
  shows "\<exists>found m' res' rs'. list_locate_raw m (Some b) d c = Some found \<and>
           (if found = None then Some (m, res)
            else Option.bind (list_append_raw m res d)
                   (\<lambda>r. Some (case r of Inl _ \<Rightarrow> (m, res) | Inr x \<Rightarrow> x))) = Some (m', res') \<and>
           dll m' res' rs' \<and> chain m' b ys \<and> fst ` set ys \<inter> fst ` set rs' = {} \<and>
           avail m' \<ge> avail m - 1 \<and>
           (\<forall>a. a \<notin> fst ` set rs \<longrightarrow> a < brk m \<longrightarrow> a \<notin> fst ` set rs' \<and> cells m' a = cells m a) \<and>
           brk m \<le> brk m' \<and>
           map snd rs' = map snd rs @ (if l_locate (comp_or_ptr c) (map snd ys) d = None then [] else [d])"
proof (cases "l_locate (comp_or_ptr c) (map snd ys) d")
  case None
  with list_locate_raw_chain [OF assms(1), of d c] assms show ?thesis by auto
next
  case (Some v)
  obtain m' res' where ap: "list_append_raw m res d = Some (Inr (m', res'))"
    "dll m' res' (rs @ [(brk m, d)])" "avail m' = avail m - 1" "brk m' = Suc (brk m)"
    "\<forall>a. a \<notin> fst ` set rs \<longrightarrow> a \<noteq> brk m \<longrightarrow> cells m' a = cells m a"
    using list_append_raw_dll [OF assms(2,3), of d] by blast
  have below: "\<And>a. a \<in> fst ` set ys \<Longrightarrow> a < brk m" using chain_below_brk assms(1) by blast
  have same: "cells m' a = cells m a" if "a \<in> fst ` set ys" for a
  proof -
    have "a \<notin> fst ` set rs" using that assms(4) by (auto simp: disjoint_iff)
    moreover have "a \<noteq> brk m" using below [OF that] by simp
    ultimately show ?thesis using ap(5) by simp
  qed
  have "chain m' b ys"
    using chain_frame [OF assms(1) same] ap(2) by (simp add: dll_def)
  moreover have "brk m \<notin> fst ` set ys" using below by blast
  then have "fst ` set ys \<inter> fst ` set (rs @ [(brk m, d)]) = {}"
    using assms(4) by (simp add: image_Un Int_Un_distrib)
  ultimately show ?thesis
    using list_locate_raw_chain [OF assms(1), of d c] Some ap
    by (intro exI [of _ "Some v"] exI [of _ m'] exI [of _ res'] exI [of _ "rs @ [(brk m, d)]"]) auto
qed

lemma list_intersect_loop_spec:
  "nseg (cells m) xs None \<Longrightarrow> it_at a i xs rest \<Longrightarrow> chain m b ys \<Longrightarrow> dll m res rs \<Longrightarrow>
   length xs \<le> avail m \<Longrightarrow> fst ` set ys \<inter> fst ` set rs = {} \<Longrightarrow> fst ` set xs \<inter> fst ` set rs = {} \<Longrightarrow>
   \<forall>x\<in>fst ` set xs. x < brk m \<Longrightarrow>
   \<exists>m' a' res' rs'. list_intersect_loop (Some b) c i m (hd_val xs) a res = Some (m', a', res') \<and>
     dll m' res' rs' \<and>
     map snd rs' = map snd rs @ filter (\<lambda>v. l_locate (comp_or_ptr c) (map snd ys) v \<noteq> None) (map snd xs) \<and>
     (\<exists>t. l_itr a' = (i, t) # rest) \<and> a'\<lparr>l_itr := rest\<rparr> = a\<lparr>l_itr := rest\<rparr> \<and>
     (\<forall>x. x \<notin> fst ` set rs \<longrightarrow> x < brk m \<longrightarrow> cells m' x = cells m x)"
proof (induction xs arbitrary: m a res rs)
  case Nil
  then show ?case by (subst list_intersect_loop.simps) (auto simp: it_at_def)
next
  case (Cons x xs)
  note P = Cons.prems
  have "avail m > 0" using P(5) by simp
  from list_intersect_round [OF P(3,4) this P(6), of "snd x" c] obtain found m1 res1 rs1 where
    r: "list_locate_raw m (Some b) (snd x) c = Some found"
      "(if found = None then Some (m, res)
        else Option.bind (list_append_raw m res (snd x))
          (\<lambda>r. Some (case r of Inl _ \<Rightarrow> (m, res) | Inr x \<Rightarrow> x))) = Some (m1, res1)"
      "dll m1 res1 rs1" "chain m1 b ys" "fst ` set ys \<inter> fst ` set rs1 = {}" "avail m1 \<ge> avail m - 1"
      "\<forall>a. a \<notin> fst ` set rs \<longrightarrow> a < brk m \<longrightarrow> a \<notin> fst ` set rs1 \<and> cells m1 a = cells m a" "brk m \<le> brk m1"
      "map snd rs1 = map snd rs @
         (if l_locate (comp_or_ptr c) (map snd ys) (snd x) = None then [] else [snd x])"
    by (elim exE conjE) (rule that)
  have n1: "nseg (cells m1) (x # xs) None"
    by (rule nseg_frame [OF P(1)]) (use P(7,8) r(7) in blast)
  obtain a1 where a1: "dico_iterator_next m1 a (Some i) = Some (hd_val xs, a1)" "it_at a1 i xs rest"
    "a1\<lparr>l_itr := rest\<rparr> = a\<lparr>l_itr := rest\<rparr>"
    using dico_iterator_next_at [OF n1 P(2)] by blast
  have n2: "nseg (cells m1) xs None" and len: "length xs \<le> avail m1"
    using n1 P(5) r(6) by simp_all
  have "y \<notin> fst ` set rs1 \<and> y < brk m1" if "y \<in> fst ` set xs" for y
  proof -
    have "y \<notin> fst ` set rs" "y < brk m" using that P(7,8) by (auto simp: disjoint_iff)
    then show ?thesis using r(7,8) by simp
  qed
  then have disj: "fst ` set xs \<inter> fst ` set rs1 = {}" and lt: "\<forall>y\<in>fst ` set xs. y < brk m1"
    by (simp_all add: disjoint_iff)
  from Cons.IH [OF n2 a1(2) r(4,3) len r(5) disj lt] obtain m2 a2 res2 rs2 t2 where
    f: "list_intersect_loop (Some b) c i m1 (hd_val xs) a1 res1 = Some (m2, a2, res2)" "dll m2 res2 rs2"
      "map snd rs2 = map snd rs1 @ filter (\<lambda>v. l_locate (comp_or_ptr c) (map snd ys) v \<noteq> None) (map snd xs)"
      "l_itr a2 = (i, t2) # rest" "a2\<lparr>l_itr := rest\<rparr> = a1\<lparr>l_itr := rest\<rparr>"
      "\<forall>x. x \<notin> fst ` set rs1 \<longrightarrow> x < brk m1 \<longrightarrow> cells m2 x = cells m1 x"
    by (elim exE conjE) (rule that)
  have "list_intersect_loop (Some b) c i m (hd_val (x # xs)) a res = Some (m2, a2, res2)"
    using r(1,2) a1(1) f(1) by (subst list_intersect_loop.simps) simp
  moreover have "map snd rs2 = map snd rs @
      filter (\<lambda>v. l_locate (comp_or_ptr c) (map snd ys) v \<noteq> None) (map snd (x # xs))"
    using f(3) r(9) by simp
  moreover have "\<forall>y. y \<notin> fst ` set rs \<longrightarrow> y < brk m \<longrightarrow> cells m2 y = cells m y"
    using f(6) r(7,8) by (metis order_less_le_trans)
  moreover have "a2\<lparr>l_itr := rest\<rparr> = a\<lparr>l_itr := rest\<rparr>" using f(5) a1(3) by simp
  ultimately show ?case using f(2,4)
    by (intro exI [of _ m2] exI [of _ a2] exI [of _ res2] exI [of _ rs2] conjI exI [of _ t2])
qed

lemma mem_take_wf: "mem_take m = Some m' \<Longrightarrow> cells m' = cells m \<and> brk m' = brk m \<and> avail m = Suc (avail m')"
  by (auto simp: mem_take_def split: if_splits)

lemma chain_same_cells: "chain m l xs \<Longrightarrow> cells m' = cells m \<Longrightarrow> brk m' = brk m \<Longrightarrow> chain m' l xs"
  by (simp add: chain_def mem_wf_def)

lemma dico_list_intersect_chain:
  assumes a: "chain m a xs" and b: "chain m b ys" and room: "length xs + 2 \<le> avail m"
    and fresh: "i \<notin> fst ` set (l_itr a)"
  shows "\<exists>m' res rs. dico_list_intersect m (Some a) (Some b) c i = Some (m', Some a, Some res) \<and>
           dll m' res rs \<and>
           map snd rs = filter (\<lambda>v. l_locate (comp_or_ptr c) (map snd ys) v \<noteq> None) (map snd xs) \<and>
           (\<forall>x. x < brk m \<longrightarrow> cells m' x = cells m x)"
proof -
  define m1 where "m1 = m\<lparr>avail := avail m - 1\<rparr>"
  define m2 where "m2 = m1\<lparr>avail := avail m1 - 1\<rparr>"
  let ?a1 = "dico_iterator_attach i a"
  have m2: "cells m2 = cells m" "brk m2 = brk m" "avail m2 = avail m - 2"
    by (simp_all add: m2_def m1_def)
  have it: "dico_list_iterator i m (Some a) = Some (Inr (m1, ?a1))"
    and cr: "dico_list_create m1 = Some (m2, empty_list)"
    using room by (simp_all add: dico_list_iterator_def dico_list_create_def mem_take_def m1_def m2_def)
  have n: "nseg (cells m2) xs None" and h: "l_head ?a1 = hd_addr xs None"
    using a m2 by (auto simp: chain_def dico_iterator_attach_def)
  obtain t where t: "l_itr ?a1 = (i, t) # l_itr a" by (simp add: dico_iterator_attach_def)
  obtain a2 where a2: "dico_iterator_first m2 ?a1 (Some i) = Some (hd_val xs, a2)"
    "it_at a2 i xs (l_itr a)" "a2\<lparr>l_itr := l_itr a\<rparr> = ?a1\<lparr>l_itr := l_itr a\<rparr>"
    using dico_iterator_first_at [OF n h t fresh] by blast
  have "mem_wf m2" using a m2 by (simp add: chain_def mem_wf_def)
  then have e: "dll m2 empty_list []" by (rule dll_empty)
  have lt: "\<forall>x\<in>fst ` set xs. x < brk m2" and len: "length xs \<le> avail m2"
    using chain_below_brk [OF a] m2 room by simp_all
  from list_intersect_loop_spec [OF n a2(2) chain_same_cells [OF b m2(1,2)] e len _ _ lt, of c]
  obtain m' a' res rs t' where r: "list_intersect_loop (Some b) c i m2 (hd_val xs) a2 empty_list = Some (m', a', res)"
    "dll m' res rs" "map snd rs = filter (\<lambda>v. l_locate (comp_or_ptr c) (map snd ys) v \<noteq> None) (map snd xs)"
    "l_itr a' = (i, t') # l_itr a" "a'\<lparr>l_itr := l_itr a\<rparr> = a2\<lparr>l_itr := l_itr a\<rparr>"
    "\<forall>x. x < brk m2 \<longrightarrow> cells m' x = cells m2 x"
    by auto
  have "dico_iterator_destroy (Some i) a' = a"
    using r(4,5) a2(3) by (simp add: dico_iterator_destroy_def dico_iterator_detach_def dico_iterator_attach_def)
  with it cr a2(1) r(1) have "dico_list_intersect m (Some a) (Some b) c i = Some (m', Some a, Some res)"
    by (simp add: dico_list_intersect_def)
  with r(2,3,6) m2 show ?thesis by auto
qed

section \<open>Changing an item in place\<close>

lemma dll_set_data:
  assumes "dll m l (ys @ (p, v) # zs)"
  shows "\<exists>m'. mem_set m p (\<lambda>e. e\<lparr>e_data := f (e_data e)\<rparr>) = Some m' \<and> dll m' l (ys @ (p, f v) # zs) \<and>
           avail m' = avail m \<and> released m' = released m"
proof -
  have lt: "p < brk m" using assms mem_wf_live [of m p] by (auto simp: dll_def)
  have hd: "hd_addr (ys @ (p, v) # zs) r = hd_addr (ys @ (p, w) # zs) r" for r w by (cases ys) auto
  have la: "last_addr (ys @ (p, v) # zs) r = last_addr (ys @ (p, w) # zs) r" for r w by simp
  show ?thesis
    using assms lt hd la by (auto simp: mem_set_def dll_def mem_wf_def)
qed

lemma dll_same_cells: "dll m l xs \<Longrightarrow> cells m' = cells m \<Longrightarrow> brk m' = brk m \<Longrightarrow> dll m' l xs"
  by (simp add: dll_def mem_wf_def)

lemma dll_map_data:
  assumes "dll m l xs" and "p \<in> fst ` set xs"
  shows "\<exists>m'. mem_set m p (\<lambda>e. e\<lparr>e_data := f (e_data e)\<rparr>) = Some m' \<and>
           dll m' l (map (\<lambda>x. if fst x = p then (p, f (snd x)) else x) xs) \<and>
           avail m' = avail m \<and> released m' = released m"
proof -
  from assms(2) obtain ys v zs where xs: "xs = ys @ (p, v) # zs"
    by (metis (no_types, lifting) imageE prod.collapse split_list)
  have "p \<notin> fst ` set ys" "p \<notin> fst ` set zs" using assms(1) xs by (auto simp: dll_def)
  then have "map (\<lambda>x. if fst x = p then (p, f (snd x)) else x) ys = ys"
    "map (\<lambda>x. if fst x = p then (p, f (snd x)) else x) zs = zs"
    by (force intro: map_idI)+
  with dll_set_data [of m l ys p v zs f] assms(1) xs show ?thesis by auto
qed

section \<open>The interface of lists\<close>

text \<open>
  What the clients of \<^verbatim>\<open>lib/list.c\<close> rely on: a store that represents a sequence of
  items, with insertion at the end, search and removal by a comparator.
\<close>

locale item_store =
  fixes repr :: "'st \<Rightarrow> 'v list \<Rightarrow> bool"
    and room :: "'st \<Rightarrow> nat"
    and put :: "'st \<Rightarrow> 'v \<Rightarrow> 'st res"
    and get :: "'st \<Rightarrow> 'v \<Rightarrow> 'v option option"
    and del :: "'st \<Rightarrow> 'v \<Rightarrow> ('v \<times> 'st) res"
    and cmp :: "'v comp"
  assumes put_ok: "repr s vs \<Longrightarrow> room s > 0 \<Longrightarrow>
      \<exists>s'. put s v = Some (Inr s') \<and> repr s' (vs @ [v]) \<and> room s' = room s - 1"
    and put_full: "repr s vs \<Longrightarrow> room s = 0 \<Longrightarrow> put s v = Some (Inl ENOMEM)"
    and get_ok: "repr s vs \<Longrightarrow> get s k = Some (l_locate cmp vs k)"
    and del_ok: "repr s vs \<Longrightarrow> l_remove cmp vs k = Some (v, ws) \<Longrightarrow>
      \<exists>s'. del s k = Some (Inr (v, s')) \<and> repr s' ws"
    and del_none: "repr s vs \<Longrightarrow> l_remove cmp vs k = None \<Longrightarrow> del s k = Some (Inl ENOENT)"
begin

lemma get_defined: "repr s vs \<Longrightarrow> get s k \<noteq> None"
  by (simp add: get_ok)

lemma put_total: "repr s vs \<Longrightarrow> put s v \<noteq> None"
  using put_ok [of s vs v] put_full [of s vs v] by (cases "room s") auto

end

text \<open>A store whose comparator is a test that leaves its arguments alone.\<close>

locale keyed_store = item_store repr room put get del cmp
  for repr :: "'st \<Rightarrow> 'v list \<Rightarrow> bool" and room put get del and cmp :: "'v comp" +
  fixes matches :: "'v \<Rightarrow> 'v \<Rightarrow> bool"
  assumes cmp_pure: "snd (cmp v k) = k"
    and cmp_zero: "fst (cmp v k) = 0 \<longleftrightarrow> matches v k"
begin

lemma locate_find: "l_locate cmp vs k = find (\<lambda>v. matches v k) vs"
proof (induction vs)
  case Nil
  show ?case by simp
next
  case (Cons v vs)
  then show ?case using cmp_pure [of v k] cmp_zero [of v k] by (cases "cmp v k") auto
qed

lemma get_find: "repr s vs \<Longrightarrow> get s k = Some (find (\<lambda>v. matches v k) vs)"
  by (simp add: get_ok locate_find)

lemma get_put:
  assumes "repr s vs" and "room s > 0" and "get s k = Some None" and "matches v k"
  shows "\<exists>s'. put s v = Some (Inr s') \<and> repr s' (vs @ [v]) \<and> get s' k = Some (Some v)"
proof -
  obtain s' where s': "put s v = Some (Inr s')" "repr s' (vs @ [v])" using put_ok [OF assms(1,2)] by blast
  have none: "find (\<lambda>v. matches v k) vs = None" using assms(1,3) get_find by simp
  have "find (\<lambda>v. matches v k) (vs @ [v]) = Some v" using none assms(4) by (induction vs) (auto split: if_splits)
  with s' get_find [OF s'(2), of k] show ?thesis by auto
qed

lemma get_put_other:
  assumes "repr s vs" and "room s > 0" and "\<not> matches v k"
  shows "\<exists>s'. put s v = Some (Inr s') \<and> repr s' (vs @ [v]) \<and> get s' k = get s k"
proof -
  obtain s' where s': "put s v = Some (Inr s')" "repr s' (vs @ [v])" using put_ok [OF assms(1,2)] by blast
  have "find (\<lambda>v. matches v k) (vs @ [v]) = find (\<lambda>v. matches v k) vs" using assms(3) by (induction vs) auto
  with s' get_find [OF s'(2), of k] get_find [OF assms(1), of k] show ?thesis by auto
qed

end

text \<open>The heap list is such a store, for lists without the duplicate check of appending.\<close>

definition list_repr :: "'v comp \<Rightarrow> 'v mem \<times> 'v dico_list \<Rightarrow> 'v list \<Rightarrow> bool" where
  "list_repr c s vs \<longleftrightarrow>
     (\<exists>xs. dll (fst s) (snd s) xs \<and> map snd xs = vs) \<and> l_comp (snd s) = Some c \<and> l_flags (snd s) = 0"

definition list_room :: "'v mem \<times> 'v dico_list \<Rightarrow> nat" where
  "list_room s = avail (fst s)"

definition list_put :: "'v mem \<times> 'v dico_list \<Rightarrow> 'v \<Rightarrow> ('v mem \<times> 'v dico_list) res" where
  "list_put s v = dico_list_append (fst s) (Some (snd s)) v"

definition list_get :: "'v mem \<times> 'v dico_list \<Rightarrow> 'v \<Rightarrow> 'v option option" where
  "list_get s k = dico_list_locate (fst s) (Some (snd s)) k"

definition list_del :: "'v mem \<times> 'v dico_list \<Rightarrow> 'v \<Rightarrow> ('v \<times> 'v mem \<times> 'v dico_list) res" where
  "list_del s k = dico_list_remove (fst s) (Some (snd s)) k False"

lemma dico_list_append_noflag:
  "l_flags l div 2 mod 2 = 0 \<Longrightarrow> dico_list_append m (Some l) d = list_append_raw m l d"
  by (simp add: dico_list_append_def)

interpretation heap_list: item_store "list_repr c" list_room list_put list_get list_del c for c
proof (unfold_locales, goal_cases)
  case (1 s vs v)
  then obtain xs where x: "dll (fst s) (snd s) xs" "map snd xs = vs" "l_comp (snd s) = Some c"
    "l_flags (snd s) = 0" by (auto simp: list_repr_def)
  from list_append_raw_dll [OF x(1), of v] 1(2) x show ?case
    by (fastforce simp: list_put_def dico_list_append_noflag list_repr_def list_room_def)
next
  case (2 s vs v)
  then show ?case
    by (auto simp: list_put_def dico_list_append_noflag list_append_raw_nomem list_repr_def list_room_def)
next
  case (3 s vs k)
  then show ?case
    using list_locate_raw_chain [OF dll_chain]
    by (fastforce simp: list_get_def dico_list_locate_def list_repr_def comp_or_ptr_def)
next
  case (4 s vs k v ws)
  then obtain xs where x: "dll (fst s) (snd s) xs" "map snd xs = vs" "l_comp (snd s) = Some c"
    "l_flags (snd s) = 0" by (auto simp: list_repr_def)
  with list_remove_raw_dll [OF x(1), where c = "Some c" and k = k and want = False] 4(2) show ?case
    by (fastforce simp: list_del_def dico_list_remove_def list_repr_def comp_or_ptr_def)
next
  case (5 s vs k)
  then obtain xs where x: "dll (fst s) (snd s) xs" "map snd xs = vs" "l_comp (snd s) = Some c"
    by (auto simp: list_repr_def)
  with list_remove_raw_dll [OF x(1), where c = "Some c" and k = k and want = False] 5(2) show ?case
    by (auto simp: list_del_def dico_list_remove_def comp_or_ptr_def)
qed

section \<open>Properties\<close>

text \<open>Concrete stores for the examples: nothing allocated, and a list of two items.\<close>

definition mem0 :: "nat \<Rightarrow> 'v mem" where
  "mem0 n = \<lparr>cells = Map.empty, freed = Map.empty, brk = 1, avail = n, released = []\<rparr>"

definition mem2 :: "nat \<Rightarrow> 'v \<Rightarrow> 'v \<Rightarrow> 'v mem" where
  "mem2 n u v =
     \<lparr>cells = [1 \<mapsto> \<lparr>e_next = Some 2, e_prev = None, e_data = u\<rparr>,
              2 \<mapsto> \<lparr>e_next = None, e_prev = Some 1, e_data = v\<rparr>],
      freed = Map.empty, brk = 3, avail = n, released = []\<rparr>"

definition list2 :: "'v comp \<Rightarrow> 'v dico_list" where
  "list2 c = empty_list\<lparr>l_count := 2, l_head := Some 1, l_tail := Some 2, l_comp := Some c\<rparr>"

definition int_cmp :: "int comp" where
  "int_cmp a b = (a - b, b)"

lemma dll_mem2: "dll (mem2 n u v) (list2 c) [(1, u), (2, v)]"
  by (simp add: dll_def mem2_def list2_def mem_wf_def empty_list_def)

lemma dll_mem0: "dll (mem0 n) empty_list []"
  by (simp add: dll_empty mem0_def mem_wf_def)

lemma list2_simps [simp]:
  "l_flags (list2 c) = 0" "l_comp (list2 c) = Some c" "l_itr (list2 c) = []" "l_free_item (list2 c) = False"
  by (simp_all add: list2_def empty_list_def)

lemma mem2_avail [simp]: "avail (mem2 n u v) = n" "brk (mem2 n u v) = 3"
  by (simp_all add: mem2_def)

text \<open>
  C17: appending to a well-formed list (no duplicate check requested, memory available)
  succeeds; the list stays well linked in both directions, holds the old items followed by
  the new one, and every attached iterator still points into the list.
\<close>
theorem dico_list_append_refines:
  assumes "dll m l xs" and "avail m > 0" and "l_flags l div 2 mod 2 = 0" and "iters_ok l xs"
  shows "\<exists>m' l' xs'. dico_list_append m (Some l) d = Some (Inr (m', l')) \<and> dll m' l' xs' \<and>
           map snd xs' = map snd xs @ [d] \<and> dico_list_count (Some l') = Suc (length xs) \<and> iters_ok l' xs'"
proof -
  obtain m' l' where r: "list_append_raw m l d = Some (Inr (m', l'))" "dll m' l' (xs @ [(brk m, d)])"
    "l_itr l' = l_itr l" using list_append_raw_dll [OF assms(1,2), of d] by blast
  have "iters_ok l' (xs @ [(brk m, d)])" using assms(4) r(3) by (fastforce simp: iters_ok_def)
  with r assms(3) show ?thesis
    by (intro exI [of _ m'] exI [of _ l'] exI [of _ "xs @ [(brk m, d)]"])
      (auto simp: dico_list_append_noflag dico_list_count_def dll_def)
qed

theorem dico_list_append_refines_witness:
  "\<exists>m' l' xs'. dico_list_append (mem2 1 5 7) (Some (list2 int_cmp)) 9 = Some (Inr (m', l')) \<and>
     dll m' l' xs' \<and> map snd xs' = [5, 7, 9] \<and> dico_list_count (Some l') = 3"
  using dico_list_append_refines [OF dll_mem2 [of 1 5 7 int_cmp], of 9]
  by (force simp: iters_ok_def)



lemma map_of_map_upd: "map_of (map (\<lambda>(j, t). (j, g j t)) its) i = map_option (g i) (map_of its i)"
  by (induction its) auto



text \<open>
  The intersection of two well-formed lists is a new well-formed list with exactly the
  items of the first that the comparator finds in the second, in the order of the first;
  both arguments and every older entry are unchanged.
\<close>
theorem dico_list_intersect_filters:
  assumes "chain m a xs" and "chain m b ys" and "length xs + 2 \<le> avail m"
    and "i \<notin> fst ` set (l_itr a)"
  shows "\<exists>m' res rs. dico_list_intersect m (Some a) (Some b) c i = Some (m', Some a, Some res) \<and>
           dll m' res rs \<and>
           map snd rs = filter (\<lambda>v. l_locate (comp_or_ptr c) (map snd ys) v \<noteq> None) (map snd xs) \<and>
           (\<forall>x. x < brk m \<longrightarrow> cells m' x = cells m x)"
  using assms by (rule dico_list_intersect_chain)

theorem dico_list_intersect_filters_witness:
  "\<exists>m' res rs. dico_list_intersect (mem2 4 5 7) (Some (list2 int_cmp)) (Some (list2 int_cmp)) (Some int_cmp) 1 =
     Some (m', Some (list2 int_cmp), Some res) \<and> dll m' res rs \<and> map snd rs = [5, 7]"
  using dico_list_intersect_filters [OF dll_chain [OF dll_mem2 [of 4 5 7 int_cmp]]
      dll_chain [OF dll_mem2 [of 4 5 7 int_cmp]], of 1 "Some int_cmp"]
  by (force simp: comp_or_ptr_def int_cmp_def)

subsection \<open>Sorted insertion\<close>

lemma l_insert_sorted_sorted:
  assumes "\<And>v k. c v k = (cmp v k, k)" and "\<And>u v w. cmp u v \<le> 0 \<Longrightarrow> cmp v w \<le> 0 \<Longrightarrow> cmp u w \<le> 0"
    and "\<And>u v. 0 < cmp u v \<Longrightarrow> cmp v u \<le> 0"
  shows "sorted_wrt (\<lambda>v w. cmp v w \<le> 0) vs \<Longrightarrow> l_insert_sorted c uniq vs d = Some ws \<Longrightarrow>
         sorted_wrt (\<lambda>v w. cmp v w \<le> 0) ws \<and> mset ws = add_mset d (mset vs)"
proof (induction vs arbitrary: ws)
  case Nil
  then show ?case by auto
next
  case (Cons v vs)
  show ?case
  proof (cases "0 < cmp v d")
    case True
    with Cons.prems assms have "ws = d # v # vs" by simp
    moreover have "cmp d x \<le> 0" if "x \<in> set (v # vs)" for x
    proof -
      have dv: "cmp d v \<le> 0" using True assms(3) by blast
      show ?thesis using that dv Cons.prems(1) assms(2) [of d v x] by auto
    qed
    ultimately show ?thesis using Cons.prems(1) by auto
  next
    case False
    have "l_insert_sorted c uniq (v # vs) d =
            (if cmp v d = 0 \<and> uniq then None else map_option ((#) v) (l_insert_sorted c uniq vs d))"
      using False by (simp only: l_insert_sorted.simps assms(1) prod.case if_False)
    with Cons.prems(2) obtain us where us: "l_insert_sorted c uniq vs d = Some us" "ws = v # us"
      by (simp only: split: if_splits) (auto simp only: map_option_Some_iff option.distinct)
    with Cons have IH: "sorted_wrt (\<lambda>v w. cmp v w \<le> 0) us" "mset us = add_mset d (mset vs)" by auto
    have "set us = insert d (set vs)" using IH(2) by (metis set_mset_add_mset_insert set_mset_mset)
    with IH us(2) Cons.prems(1) False show ?thesis by auto
  qed
qed

lemma l_insert_sorted_total: "l_insert_sorted c False vs d \<noteq> None"
  by (induction vs arbitrary: d) (auto split: prod.splits)

text \<open>
  C19: inserting into a sorted, well-linked list without the uniqueness flag keeps the
  sequence along the \<^verbatim>\<open>next\<close> pointers sorted and adds exactly the new item, for
  every comparator that is a total preorder; unless the item goes to the front, the list
  also stays well linked backwards.
\<close>
theorem dico_list_insert_sorted_sorted:
  assumes "dll m l xs" and "avail m > 0" and "l_flags l = 0" and "l_comp l = Some c"
    and "\<And>v k. c v k = (cmp v k, k)" and "\<And>u v w. cmp u v \<le> 0 \<Longrightarrow> cmp v w \<le> 0 \<Longrightarrow> cmp u w \<le> 0"
    and "\<And>u v. 0 < cmp u v \<Longrightarrow> cmp v u \<le> 0" and "sorted_wrt (\<lambda>v w. cmp v w \<le> 0) (map snd xs)"
  shows "\<exists>m' l' xs'. dico_list_insert_sorted m (Some l) d = Some (Inr (m', l')) \<and> chain m' l' xs' \<and>
           sorted_wrt (\<lambda>v w. cmp v w \<le> 0) (map snd xs') \<and>
           mset (map snd xs') = add_mset d (mset (map snd xs)) \<and>
           (xs = [] \<or> l_head l' = l_head l \<longrightarrow> dll m' l' xs')"
proof -
  obtain vs where vs: "l_insert_sorted c False (map snd xs) d = Some vs"
    using l_insert_sorted_total [of c "map snd xs" d] by auto
  from list_insert_sorted_raw_dll [OF assms(1,2), where c = "Some c" and d = d] vs assms(3)
  obtain m' l' xs' where r: "list_insert_sorted_raw m (Some l) d (Some c) = Some (Inr (m', l'))"
    "chain m' l' xs'" "map snd xs' = vs" "xs = [] \<or> hd_addr xs' None = hd_addr xs None \<longrightarrow> dll m' l' xs'"
    by (auto simp: comp_or_ptr_def)
  have "l_head l' = hd_addr xs' None" "l_head l = hd_addr xs None"
    using r(2) assms(1) by (auto simp: chain_def dll_def)
  with r l_insert_sorted_sorted [OF assms(5-7) assms(8) vs] assms(4) show ?thesis
    by (auto simp: dico_list_insert_sorted_def)
qed

theorem dico_list_insert_sorted_sorted_witness:
  "\<exists>m' l' xs'. dico_list_insert_sorted (mem2 1 5 9) (Some (list2 int_cmp)) 7 = Some (Inr (m', l')) \<and>
     chain m' l' xs' \<and> sorted_wrt (\<lambda>v w. v - w \<le> (0::int)) (map snd xs') \<and>
     mset (map snd xs') = {#7, 5, 9#}"
  using dico_list_insert_sorted_sorted [OF dll_mem2 [of 1 5 9 int_cmp], of int_cmp "\<lambda>v k. v - k" 7]
  by (force simp: int_cmp_def)

subsection \<open>The missing back link of prepending\<close>

text \<open>
  after an insertion at the front of a one-item list, the next insertion that belongs
  between the two items is put at the front instead: items \<open>lo < mid < hi\<close> inserted in
  the order \<open>hi, lo, mid\<close> end up as \<open>mid, lo, hi\<close>. The code decides "insert at
  the front" by \<^verbatim>\<open>!cur->prev\<close>, and \<^verbatim>\<open>_dico_list_prepend\<close> never sets the old
  head's \<^verbatim>\<open>prev\<close>.
\<close>
theorem insert_sorted_after_front_insertion_unsorted:
  assumes "dll m l [(a, hi)]" and "avail m \<ge> 2" and "l_comp l = Some c"
    and "\<And>v k. c v k = (cmp v k, k)" and "0 < cmp hi lo" and "0 < cmp hi mid" and "cmp lo mid < 0"
  shows "\<exists>m1 l1 m2 l2 xs. dico_list_insert_sorted m (Some l) lo = Some (Inr (m1, l1)) \<and>
           dico_list_insert_sorted m1 (Some l1) mid = Some (Inr (m2, l2)) \<and>
           chain m2 l2 xs \<and> map snd xs = [mid, lo, hi]"
proof -
  have a: "cells m a = Some \<lparr>e_next = None, e_prev = None, e_data = hi\<rparr>" "l_head l = Some a"
    "l_tail l = Some a" "l_count l = 1" "mem_wf m"
    using assms(1) by (auto simp: dll_def)
  then have fresh: "a \<noteq> brk m" "a < brk m" by (auto simp: mem_wf_def not_le [symmetric])
  let ?b = "brk m"
  let ?m1 = "m\<lparr>cells := (cells m)(?b \<mapsto> \<lparr>e_next = Some a, e_prev = None, e_data = lo\<rparr>),
               brk := Suc ?b, avail := avail m - 1\<rparr>"
  let ?l1 = "l\<lparr>l_head := Some ?b, l_count := 2, l_itr := iterator_increase_pos (l_itr l) 0\<rparr>"
  have s1: "list_sorted_scan m c (l_flags l) (Some a) 0 lo = Some (Scan_at a 0, lo)"
    using a assms(4,5) by (subst list_sorted_scan.simps) simp
  have i1: "dico_list_insert_sorted m (Some l) lo = Some (Inr (?m1, ?l1))"
    using a s1 assms(2,3)
    by (simp add: dico_list_insert_sorted_def list_insert_sorted_raw_def comp_or_ptr_def
        list_prepend_raw_def mem_malloc_def numeral_2_eq_2)
  have c1: "chain ?m1 ?l1 [(?b, lo), (a, hi)]"
    using a fresh by (simp add: chain_def mem_wf_def)
  have s2: "list_sorted_scan ?m1 c (l_flags l) (Some ?b) 0 mid = Some (Scan_at a 1, mid)"
    using a fresh assms(4,6,7) by (simp add: list_sorted_scan.simps)
  have i2: "dico_list_insert_sorted ?m1 (Some ?l1) mid = list_prepend_raw ?m1 ?l1 mid"
    using a fresh s2 assms(3)
    by (simp add: dico_list_insert_sorted_def list_insert_sorted_raw_def comp_or_ptr_def)
  show ?thesis
    using i1 i2 list_prepend_raw_chain [OF c1, of mid] assms(2) by fastforce
qed

definition list1 :: "'v comp \<Rightarrow> 'v dico_list" where
  "list1 c = empty_list\<lparr>l_count := 1, l_head := Some 1, l_tail := Some 1, l_comp := Some c\<rparr>"

definition mem1 :: "nat \<Rightarrow> 'v \<Rightarrow> 'v mem" where
  "mem1 n v =
     \<lparr>cells = [1 \<mapsto> \<lparr>e_next = None, e_prev = None, e_data = v\<rparr>], freed = Map.empty, brk = 2,
      avail = n, released = []\<rparr>"

lemma dll_mem1: "dll (mem1 n v) (list1 c) [(1, v)]"
  by (simp add: dll_def mem1_def list1_def mem_wf_def empty_list_def)

theorem insert_sorted_after_front_insertion_unsorted_witness:
  "\<exists>m1 l1 m2 l2 xs. dico_list_insert_sorted (mem1 2 3) (Some (list1 int_cmp)) 1 = Some (Inr (m1, l1)) \<and>
     dico_list_insert_sorted m1 (Some l1) 2 = Some (Inr (m2, l2)) \<and>
     chain m2 l2 xs \<and> map snd xs = [2, 1, 3]"
  using insert_sorted_after_front_insertion_unsorted
    [OF dll_mem1 [of 2 3 int_cmp], of int_cmp "\<lambda>v k. v - k" 1 2]
  by (simp add: mem1_def list1_def int_cmp_def)

text \<open>
  after prepending to a well-formed list, removing its former first item leaves the
  list's head pointing at the entry that was just freed, so the next traversal dereferences
  freed memory.
\<close>
theorem prepend_then_remove_old_head_dangles:
  assumes "dll m l (x # xs)" and "list_prepend_raw m l d = Some (Inr (m1, l1))"
  shows "\<exists>m2 l2. list_remove_item m1 l1 (fst x) want = Some (snd x, m2, l2) \<and>
           l_head l2 = Some (fst x) \<and> cells m2 (fst x) = None \<and> freed m2 (fst x) \<noteq> None \<and>
           list_locate_raw m2 (Some l2) k c = None"
proof -
  have fresh: "brk m \<notin> fst ` set (x # xs)" using assms(1) brk_not_in_seg unfolding dll_def by blast
  have ne: "\<exists>y. l_tail l = Some y" using assms(1) by (auto simp: dll_def)
  have "\<exists>m2 l2. list_remove_item m1 l1 (fst x) want = Some (snd x, m2, l2) \<and>
      l_head l2 = Some (fst x) \<and> cells m2 (fst x) = None \<and> freed m2 (fst x) \<noteq> None"
    using assms fresh ne
    by (cases xs)
      (auto simp: list_prepend_raw_def mem_malloc_def dll_def list_remove_item_def mem_set_def
        mem_free_def mem_release_def Let_def split: if_splits)
  moreover have "list_locate_raw m2 (Some l2) k c = None"
    if "l_head l2 = Some (fst x)" "cells m2 (fst x) = None" for m2 l2
    using that by (simp add: list_locate_raw_def list_find.simps)
  ultimately show ?thesis by blast
qed

theorem prepend_then_remove_old_head_dangles_witness:
  "\<exists>m1 l1 m2 l2. list_prepend_raw (mem1 1 3) (list1 int_cmp) 1 = Some (Inr (m1, l1)) \<and>
     list_remove_item m1 l1 1 True = Some (3, m2, l2) \<and> l_head l2 = Some 1 \<and> cells m2 1 = None"
proof -
  obtain m1 l1 where "list_prepend_raw (mem1 1 3) (list1 int_cmp) 1 = Some (Inr (m1, l1))"
    by (simp add: list_prepend_raw_def mem_malloc_def mem1_def)
  with prepend_then_remove_old_head_dangles [OF dll_mem1 [of 1 3 int_cmp], of 1 m1 l1 True 0 None]
  show ?thesis by auto
qed

text \<open>
  clearing a well-formed list (and so destroying it) frees every entry of the list and
  no other, hands every item once and in order to the release callback if there is one, and
  leaves an empty list.
\<close>
theorem dico_list_clear_frees_all:
  assumes "dll m l xs"
  shows "\<exists>m' l'. dico_list_clear m (Some l) = Some (Inr (m', l')) \<and> dll m' l' [] \<and>
           (\<forall>a. cells m' a = (if a \<in> fst ` set xs then None else cells m a)) \<and>
           released m' = released m @ (if l_free_item l then map snd xs else []) \<and>
           dico_list_destroy m (Some l) = Some m'"
proof -
  let ?l' = "l\<lparr>l_head := None, l_tail := None, l_count := 0\<rparr>"
  obtain m' where r: "list_clear_loop ?l' m (hd_addr xs None) = Some m'"
    "\<forall>a. cells m' a = (if a \<in> fst ` set xs then None else cells m a)"
    "released m' = released m @ (if l_free_item l then map snd xs else [])" "brk m' = brk m"
    using list_clear_loop_seg [of m None xs ?l'] assms by (auto simp: dll_def)
  have cl: "dico_list_clear m (Some l) = Some (Inr (m', ?l'))"
    using r(1) assms by (simp add: dico_list_clear_def dll_def Let_def)
  moreover have "dll m' ?l' []" using r(2,4) assms by (auto simp: dll_def mem_wf_def)
  ultimately show ?thesis using r(2,3) by (auto simp: dico_list_destroy_def)
qed

theorem dico_list_clear_frees_all_witness:
  "\<exists>m' l'. dico_list_clear (mem2 0 5 7) (Some (list2 int_cmp)) = Some (Inr (m', l')) \<and> dll m' l' [] \<and>
     cells m' 1 = None \<and> cells m' 2 = None"
  using dico_list_clear_frees_all [OF dll_mem2 [of 0 5 7 int_cmp]] by auto

end
