(* ===== verification/Dico_Assoc.thy ===== *)
theory Dico_Assoc
  imports Dico_List_Props
begin

text \<open>
  The association lists of \<^verbatim>\<open>lib/assoc.c\<close>, kept in the doubly linked list of
  \<^verbatim>\<open>lib/list.c\<close>. What the list calls \<^verbatim>\<open>void *\<close> is here a pair
  (\<open>Assoc\<close>, the items) or a search closure (\<open>Clos\<close>, the second argument of the
  comparators, whose counter they decrement). The address of a pair is the address of the
  list entry that holds it. Every function returns the store on all its branches; the
  result of a call that sets \<^verbatim>\<open>errno\<close> is an \<open>errno option\<close>.
\<close>

section \<open>State\<close>

datatype assoc_item =
    Assoc (as_key: bytes) (as_value: bytes)
  | Clos (cl_count: "64 word") (cl_str: bytes)

record assoc_list =
  a_flags :: nat
  a_list :: "assoc_item dico_list"

definition DICO_ASSOC_CI :: nat where "DICO_ASSOC_CI = 1"
definition DICO_ASSOC_MULT :: nat where "DICO_ASSOC_MULT = 2"

definition flag_ci :: "nat \<Rightarrow> bool" where "flag_ci f \<longleftrightarrow> f mod 2 = 1"
definition flag_mult :: "nat \<Rightarrow> bool" where "flag_mult f \<longleftrightarrow> f div 2 mod 2 = 1"

section \<open>Comparators\<close>

definition assoc_key_cmp :: "assoc_item comp" where
  "assoc_key_cmp item data =
     (case (item, data) of
        (Assoc k v, Clos n s) \<Rightarrow>
          (if strcmp k s = 0 then (if n - 1 = 0 then 0 else 1, Clos (n - 1) s) else (1, data))
      | _ \<Rightarrow> (1, data))"

definition assoc_key_cmp_ci :: "assoc_item comp" where
  "assoc_key_cmp_ci item data =
     (case (item, data) of
        (Assoc k v, Clos n s) \<Rightarrow>
          (if strcasecmp k s = 0 then (if n - 1 = 0 then 0 else 1, Clos (n - 1) s) else (1, data))
      | _ \<Rightarrow> (1, data))"

section \<open>Operations\<close>

definition dico_assoc_create ::
    "assoc_item mem \<Rightarrow> nat \<Rightarrow> (assoc_item mem \<times> assoc_list option)" where
  "dico_assoc_create m flags =
     (case mem_take m of None \<Rightarrow> (m, None)
      | Some m1 \<Rightarrow>
          (case dico_list_create m1 of None \<Rightarrow> (m1, None)
           | Some (m2, l) \<Rightarrow>
               (m2, Some \<lparr>a_flags = flags,
                          a_list = l\<lparr>l_comp := Some (if flag_ci flags then assoc_key_cmp_ci else assoc_key_cmp),
                                     l_free_item := True\<rparr>\<rparr>)))"

text \<open>The entry of the \<open>n\<close>-th pair with the key.\<close>

definition assoc_find_n_raw ::
    "assoc_item mem \<Rightarrow> assoc_list option \<Rightarrow> bytes \<Rightarrow> 64 word \<Rightarrow> addr option option" where
  "assoc_find_n_raw m assoc key n =
     (case assoc of None \<Rightarrow> Some None
      | Some a \<Rightarrow>
          (if n = 0 then Some None
           else map_option fst
                  (list_find m (comp_or_ptr (l_comp (a_list a))) (l_head (a_list a)) (Clos n key))))"

definition dico_assoc_find_n ::
    "assoc_item mem \<Rightarrow> assoc_list option \<Rightarrow> bytes \<Rightarrow> 64 word \<Rightarrow> bytes option option" where
  "dico_assoc_find_n m assoc key n = do {
     kvp \<leftarrow> assoc_find_n_raw m assoc key n;
     (case kvp of None \<Rightarrow> Some None
      | Some p \<Rightarrow> do { e \<leftarrow> cells m p; Some (Some (as_value (e_data e))) }) }"

definition dico_assoc_find ::
    "assoc_item mem \<Rightarrow> assoc_list option \<Rightarrow> bytes \<Rightarrow> bytes option option" where
  "dico_assoc_find m assoc key = dico_assoc_find_n m assoc key 1"

definition dico_assoc_remove_n ::
    "assoc_item mem \<Rightarrow> assoc_list \<Rightarrow> bytes \<Rightarrow> 64 word \<Rightarrow> (assoc_item mem \<times> assoc_list) option" where
  "dico_assoc_remove_n m a key n =
     (if n = 0 then Some (m, a)
      else do {
        r \<leftarrow> dico_list_remove m (Some (a_list a)) (Clos n key) False;
        Some (case r of Inl _ \<Rightarrow> (m, a) | Inr (_, m', l') \<Rightarrow> (m', a\<lparr>a_list := l'\<rparr>)) })"

definition dico_assoc_remove ::
    "assoc_item mem \<Rightarrow> assoc_list \<Rightarrow> bytes \<Rightarrow> (assoc_item mem \<times> assoc_list) option" where
  "dico_assoc_remove m a key = dico_assoc_remove_n m a key 1"

text \<open>The part of \<^verbatim>\<open>dico_assoc_add\<close> that makes a new pair: three allocations.\<close>

definition assoc_new ::
    "assoc_item mem \<Rightarrow> assoc_list \<Rightarrow> bytes \<Rightarrow> bytes \<Rightarrow>
     (errno option \<times> assoc_item mem \<times> assoc_list) option" where
  "assoc_new m a key value =
     (case mem_take m of None \<Rightarrow> Some (Some ENOMEM, m, a)
      | Some m1 \<Rightarrow>
          (case mem_take m1 of None \<Rightarrow> Some (Some ENOMEM, m1, a)
           | Some m2 \<Rightarrow> do {
               r \<leftarrow> dico_list_append m2 (Some (a_list a)) (Assoc key value);
               Some (case r of Inl e \<Rightarrow> (Some e, m2, a)
                     | Inr (m3, l') \<Rightarrow> (None, m3, a\<lparr>a_list := l'\<rparr>)) }))"

definition dico_assoc_add ::
    "assoc_item mem \<Rightarrow> assoc_list \<Rightarrow> bytes \<Rightarrow> bytes option \<Rightarrow> 64 word \<Rightarrow> bool \<Rightarrow>
     (errno option \<times> assoc_item mem \<times> assoc_list) option" where
  "dico_assoc_add m a key val cnt replace =
     (case val of
        None \<Rightarrow> do { (m', a') \<leftarrow> dico_assoc_remove_n m a key cnt; Some (None, m', a') }
      | Some value \<Rightarrow>
          (if flag_mult (a_flags a) then assoc_new m a key value
           else do {
             f \<leftarrow> assoc_find_n_raw m (Some a) key cnt;
             (case f of
                None \<Rightarrow> assoc_new m a key value
              | Some p \<Rightarrow>
                  (if replace
                   then (case mem_take m of None \<Rightarrow> Some (Some ENOMEM, m, a)
                         | Some m1 \<Rightarrow> do {
                             m2 \<leftarrow> mem_set m1 p (\<lambda>e. e\<lparr>e_data := Assoc (as_key (e_data e)) value\<rparr>);
                             Some (None, m2, a) })
                   else Some (Some EEXIST, m, a))) }))"

definition dico_assoc_append ::
    "assoc_item mem \<Rightarrow> assoc_list \<Rightarrow> bytes \<Rightarrow> bytes \<Rightarrow>
     (errno option \<times> assoc_item mem \<times> assoc_list) option" where
  "dico_assoc_append m a key value = dico_assoc_add m a key (Some value) 1 False"

definition dico_assoc_clear ::
    "assoc_item mem \<Rightarrow> assoc_list option \<Rightarrow> (assoc_item mem \<times> assoc_list) res" where
  "dico_assoc_clear m assoc =
     (case assoc of None \<Rightarrow> Some (Inl EINVAL)
      | Some a \<Rightarrow> do {
          r \<leftarrow> dico_list_clear m (Some (a_list a));
          Some (map_sum id (\<lambda>(m', l'). (m', a\<lparr>a_list := l'\<rparr>)) r) })"

definition dico_assoc_destroy :: "assoc_item mem \<Rightarrow> assoc_list option \<Rightarrow> assoc_item mem option" where
  "dico_assoc_destroy m assoc =
     (case assoc of None \<Rightarrow> Some m | Some a \<Rightarrow> dico_list_destroy m (Some (a_list a)))"

definition dico_assoc_iterator ::
    "nat \<Rightarrow> assoc_item mem \<Rightarrow> assoc_list option \<Rightarrow> (assoc_item mem \<times> assoc_list) res" where
  "dico_assoc_iterator i m assoc =
     (case assoc of None \<Rightarrow> Some (Inl EINVAL)
      | Some a \<Rightarrow> do {
          r \<leftarrow> dico_list_iterator i m (Some (a_list a));
          Some (map_sum id (\<lambda>(m', l'). (m', a\<lparr>a_list := l'\<rparr>)) r) })"

text \<open>
  \<^verbatim>\<open>dico_assoc_dup\<close>. When a copy cannot be appended the code destroys the new list and
  leaves the loop, but \<^verbatim>\<open>dico_assoc_destroy\<close> does not reset the caller's pointer, so
  the pointer that is returned refers to the destroyed list: \<open>Dup_dangling\<close>.
\<close>

datatype dup_result = Dup_null | Dup_ok assoc_list | Dup_dangling

partial_function (option) assoc_dup_loop ::
    "nat \<Rightarrow> assoc_item option \<Rightarrow> assoc_item mem \<Rightarrow> assoc_list \<Rightarrow> assoc_list \<Rightarrow>
     (assoc_item mem \<times> assoc_list \<times> dup_result) option" where
  "assoc_dup_loop i p m src dst =
     (case p of None \<Rightarrow> Some (m, src, Dup_ok dst)
      | Some kv \<Rightarrow>
          Option.bind (dico_assoc_append m dst (as_key kv) (as_value kv)) (\<lambda>r.
          (case r of (e, m1, dst1) \<Rightarrow>
             if e \<noteq> None
             then Option.bind (dico_assoc_destroy m1 (Some dst1)) (\<lambda>m2. Some (m2, src, Dup_dangling))
             else Option.bind (dico_iterator_next m1 (a_list src) (Some i)) (\<lambda>x.
                    assoc_dup_loop i (fst x) m1 (src\<lparr>a_list := snd x\<rparr>) dst1))))"

definition dico_assoc_dup ::
    "nat \<Rightarrow> assoc_item mem \<Rightarrow> assoc_list \<Rightarrow> (assoc_item mem \<times> assoc_list \<times> dup_result) option" where
  "dico_assoc_dup i m src =
     (case dico_assoc_create m (a_flags src) of
        (m1, None) \<Rightarrow> Some (m1, src, Dup_null)
      | (m1, Some dst) \<Rightarrow> do {
          r \<leftarrow> dico_assoc_iterator i m1 (Some src);
          (case r of
             Inl e \<Rightarrow> do { m2 \<leftarrow> dico_assoc_destroy m1 (Some dst); Some (m2, src, Dup_null) }
           | Inr (m2, src1) \<Rightarrow> do {
               (p, l2) \<leftarrow> dico_iterator_first m2 (a_list src1) (Some i);
               (m3, src3, res) \<leftarrow> assoc_dup_loop i p m2 (src1\<lparr>a_list := l2\<rparr>) dst;
               Some (m3, src3\<lparr>a_list := dico_iterator_destroy (Some i) (a_list src3)\<rparr>, res) }) })"

section \<open>Specification\<close>

text \<open>Equality of keys under the list's flags, and the \<open>n\<close>-th match of a sequence.\<close>

definition key_eq :: "nat \<Rightarrow> bytes \<Rightarrow> bytes \<Rightarrow> bool" where
  "key_eq f a b \<longleftrightarrow> (if flag_ci f then map c_tolower a = map c_tolower b else a = b)"

fun nth_match :: "('a \<Rightarrow> bool) \<Rightarrow> 'a list \<Rightarrow> nat \<Rightarrow> nat option" where
  "nth_match P [] n = None"
| "nth_match P (x # xs) n =
     (if P x \<and> n = 1 then Some 0 else map_option Suc (nth_match P xs (if P x then n - 1 else n)))"

definition assoc_cmp_of :: "nat \<Rightarrow> assoc_item comp" where
  "assoc_cmp_of f = (if flag_ci f then assoc_key_cmp_ci else assoc_key_cmp)"

definition pair_of :: "addr \<times> assoc_item \<Rightarrow> bytes \<times> bytes" where
  "pair_of x = (as_key (snd x), as_value (snd x))"

definition assoc_ok :: "assoc_item mem \<Rightarrow> assoc_list \<Rightarrow> (addr \<times> assoc_item) list \<Rightarrow> bool" where
  "assoc_ok m a xs \<longleftrightarrow>
     dll m (a_list a) xs \<and> l_comp (a_list a) = Some (assoc_cmp_of (a_flags a)) \<and>
     l_flags (a_list a) = 0 \<and> (\<forall>x\<in>set xs. is_Assoc (snd x))"

definition assoc_repr :: "assoc_item mem \<Rightarrow> assoc_list \<Rightarrow> (bytes \<times> bytes) list \<Rightarrow> bool" where
  "assoc_repr m a kvs \<longleftrightarrow> (\<exists>xs. assoc_ok m a xs \<and> map pair_of xs = kvs)"

lemma key_eq_refl [simp]: "key_eq f k k"
  by (simp add: key_eq_def)

lemma key_eq_sym: "key_eq f a b \<longleftrightarrow> key_eq f b a"
  by (auto simp: key_eq_def)

lemma key_eq_trans: "key_eq f a b \<Longrightarrow> key_eq f b c \<Longrightarrow> key_eq f a c"
  by (simp add: key_eq_def split: if_splits)

lemma assoc_cmp_of_Clos:
  "is_Assoc x \<Longrightarrow> assoc_cmp_of f x (Clos n s) =
     (if key_eq f (as_key x) s then (if n = 1 then 0 else 1, Clos (n - 1) s) else (1, Clos n s))"
  by (cases x)
    (auto simp: assoc_cmp_of_def assoc_key_cmp_def assoc_key_cmp_ci_def key_eq_def strcasecmp_eq_0_iff)

lemma nth_match_map: "nth_match P (map f xs) n = nth_match (P \<circ> f) xs n"
  by (induction xs arbitrary: n) auto

lemma nth_match_0 [simp]: "nth_match P xs 0 = None"
  by (induction xs) auto

lemma nth_match_SomeD:
  "nth_match P xs n = Some i \<Longrightarrow> i < length xs \<and> P (xs ! i) \<and> length (filter P (take i xs)) = n - 1 \<and> n > 0"
proof (induction xs arbitrary: n i)
  case Nil
  then show ?case by simp
next
  case (Cons x xs)
  show ?case
  proof (cases "P x \<and> n = 1")
    case True
    with Cons.prems show ?thesis by simp
  next
    case False
    with Cons.prems obtain j where j: "nth_match P xs (if P x then n - 1 else n) = Some j" "i = Suc j"
      by auto
    from Cons.IH [OF j(1)] j(2) show ?thesis by (auto split: if_splits)
  qed
qed

lemma nth_match_filter:
  "map_option ((!) xs) (nth_match P xs n) =
     (if 0 < n \<and> n \<le> length (filter P xs) then Some (filter P xs ! (n - 1)) else None)"
proof (induction xs arbitrary: n)
  case Nil
  show ?case by auto
next
  case (Cons x xs)
  have eq: "map_option ((!) (x # xs)) (map_option Suc o') = map_option ((!) xs) o'" for o'
    by (cases o') auto
  show ?case
  proof (cases "P x \<and> n = 1")
    case True
    then show ?thesis by simp
  next
    case False
    then have "map_option ((!) (x # xs)) (nth_match P (x # xs) n) =
        map_option ((!) xs) (nth_match P xs (if P x then n - 1 else n))"
      by (simp only: nth_match.simps eq if_False)
    also have "\<dots> = (let k = if P x then n - 1 else n in
        if 0 < k \<and> k \<le> length (filter P xs) then Some (filter P xs ! (k - 1)) else None)"
      by (simp only: Cons Let_def)
    also have "\<dots> = (if 0 < n \<and> n \<le> length (filter P (x # xs)) then Some (filter P (x # xs) ! (n - 1)) else None)"
      using False by (cases "P x"; cases n) (auto simp: nth_Cons')
    finally show ?thesis .
  qed
qed

lemma node_find_assoc:
  "n \<noteq> 0 \<Longrightarrow> \<forall>x\<in>set xs. is_Assoc (snd x) \<Longrightarrow>
   fst (node_find (assoc_cmp_of f) xs (Clos n s)) =
     map_option ((!) xs) (nth_match (\<lambda>x. key_eq f (as_key (snd x)) s) xs (unat n))"
proof (induction xs arbitrary: n)
  case Nil
  then show ?case by simp
next
  case (Cons x xs)
  have eq: "map_option ((!) (x # xs)) (map_option Suc o') = map_option ((!) xs) o'" for o'
    by (cases o') auto
  have one: "unat n = Suc 0 \<longleftrightarrow> n = 1" using unat_1 [where 'a = 64] by (metis One_nat_def word_unat_eq_iff)
  have m1: "n \<noteq> 1 \<Longrightarrow> n - 1 \<noteq> 0" "unat (n - 1) = unat n - 1"
    using Cons.prems(1) by (simp_all add: unat_minus_one word_greater_zero_iff)
  show ?case
    using Cons.IH [of n] Cons.IH [of "n - 1"] Cons.prems one m1
    by (auto simp: assoc_cmp_of_Clos eq)
qed

lemma assoc_find_n_raw_ok:
  assumes "assoc_ok m a xs"
  shows "assoc_find_n_raw m (Some a) key n =
     Some (map_option (\<lambda>i. fst (xs ! i)) (nth_match (\<lambda>x. key_eq (a_flags a) (as_key (snd x)) key) xs (unat n)))"
proof (cases "n = 0")
  case True
  then show ?thesis by (simp add: assoc_find_n_raw_def)
next
  case False
  have "chain m (a_list a) xs" using assms dll_chain by (auto simp: assoc_ok_def)
  then have "list_find m (assoc_cmp_of (a_flags a)) (l_head (a_list a)) (Clos n key) =
      Some (map_option fst (fst (node_find (assoc_cmp_of (a_flags a)) xs (Clos n key))),
            snd (node_find (assoc_cmp_of (a_flags a)) xs (Clos n key)))"
    by (simp add: chain_def list_find_nseg)
  with False assms node_find_assoc [OF False, of xs] show ?thesis
    by (simp add: assoc_find_n_raw_def assoc_ok_def comp_or_ptr_def option.map_comp comp_def)
qed

lemma dll_nth: "dll m l xs \<Longrightarrow> i < length xs \<Longrightarrow> \<exists>e. cells m (fst (xs ! i)) = Some e \<and> e_data e = snd (xs ! i)"
  using nseg_nth dll_chain unfolding chain_def by blast

lemma dico_assoc_find_n_ok:
  assumes "assoc_repr m a kvs"
  shows "dico_assoc_find_n m (Some a) key n =
     Some (map_option (\<lambda>i. snd (kvs ! i)) (nth_match (\<lambda>kv. key_eq (a_flags a) (fst kv) key) kvs (unat n)))"
proof -
  obtain xs where xs: "assoc_ok m a xs" "map pair_of xs = kvs" using assms by (auto simp: assoc_repr_def)
  let ?P = "\<lambda>x. key_eq (a_flags a) (as_key (snd x)) key"
  have P: "(\<lambda>kv. key_eq (a_flags a) (fst kv) key) \<circ> pair_of = ?P" by (auto simp: pair_of_def)
  have m: "nth_match (\<lambda>kv. key_eq (a_flags a) (fst kv) key) kvs (unat n) = nth_match ?P xs (unat n)"
    unfolding xs(2) [symmetric] nth_match_map P ..
  show ?thesis
  proof (cases "nth_match ?P xs (unat n)")
    case None
    with m show ?thesis by (simp add: dico_assoc_find_n_def assoc_find_n_raw_ok [OF xs(1)])
  next
    case (Some i)
    then have i: "i < length xs" using nth_match_SomeD by blast
    then obtain e where "cells m (fst (xs ! i)) = Some e" "e_data e = snd (xs ! i)"
      using xs(1) dll_nth unfolding assoc_ok_def by blast
    with m Some i xs(2) show ?thesis
      by (auto simp: dico_assoc_find_n_def assoc_find_n_raw_ok [OF xs(1)] pair_of_def)
  qed
qed

section \<open>Updates\<close>

lemma list_update_split: "i < length xs \<Longrightarrow> xs[i := y] = take i xs @ y # drop (Suc i) xs"
  by (rule upd_conv_take_nth_drop)

lemma assoc_new_ok:
  assumes "assoc_ok m a xs" and "avail m \<ge> 3"
  shows "\<exists>m' a'. assoc_new m a key v = Some (None, m', a') \<and>
           assoc_ok m' a' (xs @ [(brk m, Assoc key v)]) \<and> a_flags a' = a_flags a \<and>
           l_itr (a_list a') = l_itr (a_list a) \<and> avail m' = avail m - 3 \<and> brk m' = Suc (brk m) \<and>
           (\<forall>x. x \<notin> fst ` set xs \<longrightarrow> x \<noteq> brk m \<longrightarrow> cells m' x = cells m x)"
proof -
  let ?m2 = "m\<lparr>avail := avail m - 2\<rparr>"
  have t: "mem_take m = Some (m\<lparr>avail := avail m - 1\<rparr>)"
    "mem_take (m\<lparr>avail := avail m - 1\<rparr>) = Some ?m2" using assms(2) by (auto simp: mem_take_def)
  have d: "dll ?m2 (a_list a) xs"
    by (rule dll_same_cells [of m]) (use assms(1) in \<open>auto simp: assoc_ok_def\<close>)
  have av: "0 < avail ?m2" using assms(2) by simp
  obtain m' l' where r: "list_append_raw ?m2 (a_list a) (Assoc key v) = Some (Inr (m', l'))"
    "dll m' l' (xs @ [(brk ?m2, Assoc key v)])" "l_itr l' = l_itr (a_list a)"
    "l_comp l' = l_comp (a_list a)" "l_flags l' = l_flags (a_list a)"
    "avail m' = avail ?m2 - 1" "brk m' = Suc (brk ?m2)"
    "\<forall>x. x \<notin> fst ` set xs \<longrightarrow> x \<noteq> brk ?m2 \<longrightarrow> cells m' x = cells ?m2 x"
    using list_append_raw_dll [OF d av, of "Assoc key v"] by (elim exE conjE) (rule that)
  have "l_flags (a_list a) = 0" using assms(1) by (simp add: assoc_ok_def)
  then have ap: "dico_list_append ?m2 (Some (a_list a)) (Assoc key v) = Some (Inr (m', l'))"
    using r(1) by (simp add: dico_list_append_noflag)
  have ok: "assoc_ok m' (a\<lparr>a_list := l'\<rparr>) (xs @ [(brk m, Assoc key v)])"
    using r assms(1) by (auto simp: assoc_ok_def)
  show ?thesis
    using t ap ok r by (auto simp: assoc_new_def)
qed

lemma assoc_replace_ok:
  assumes "assoc_ok m a xs" and "i < length xs" and "avail m > 0"
  shows "\<exists>m1 m2. mem_take m = Some m1 \<and>
           mem_set m1 (fst (xs ! i)) (\<lambda>e. e\<lparr>e_data := Assoc (as_key (e_data e)) v\<rparr>) = Some m2 \<and>
           assoc_ok m2 a (xs[i := (fst (xs ! i), Assoc (as_key (snd (xs ! i))) v)]) \<and> avail m2 = avail m - 1"
proof -
  let ?m1 = "m\<lparr>avail := avail m - 1\<rparr>"
  have t: "mem_take m = Some ?m1" using assms(3) by (simp add: mem_take_def)
  have "dll m (a_list a) xs" using assms(1) by (simp add: assoc_ok_def)
  then have "dll ?m1 (a_list a) xs" by (rule dll_same_cells) simp_all
  then have "dll ?m1 (a_list a) (take i xs @ (fst (xs ! i), snd (xs ! i)) # drop (Suc i) xs)"
    using assms(2) by (simp add: id_take_nth_drop [symmetric])
  from dll_set_data [OF this, of "\<lambda>d. Assoc (as_key d) v"]
  obtain m2 where m2: "mem_set ?m1 (fst (xs ! i)) (\<lambda>e. e\<lparr>e_data := Assoc (as_key (e_data e)) v\<rparr>) = Some m2"
    "dll m2 (a_list a) (xs[i := (fst (xs ! i), Assoc (as_key (snd (xs ! i))) v)])" "avail m2 = avail m - 1"
    using assms(2) by (auto simp: list_update_split)
  have "assoc_ok m2 a (xs[i := (fst (xs ! i), Assoc (as_key (snd (xs ! i))) v)])"
    using m2(2) assms(1) by (auto simp: assoc_ok_def dest: set_update_subset_insert [THEN subsetD])
  with t m2 show ?thesis by auto
qed

text \<open>What \<^verbatim>\<open>dico_assoc_add\<close> does to the pairs of a list that keeps keys unique.\<close>

definition kv_put :: "nat \<Rightarrow> (bytes \<times> bytes) list \<Rightarrow> bytes \<Rightarrow> bytes \<Rightarrow> nat \<Rightarrow> (bytes \<times> bytes) list" where
  "kv_put f kvs key v n =
     (case nth_match (\<lambda>kv. key_eq f (fst kv) key) kvs n of
        None \<Rightarrow> kvs @ [(key, v)]
      | Some i \<Rightarrow> kvs[i := (fst (kvs ! i), v)])"

lemma nth_match_pair_of:
  "nth_match (\<lambda>kv. key_eq f (fst kv) key) (map pair_of xs) n = nth_match (\<lambda>x. key_eq f (as_key (snd x)) key) xs n"
  by (simp add: nth_match_map comp_def pair_of_def)

lemma dico_assoc_add_replace_ok:
  assumes "assoc_repr m a kvs" and "\<not> flag_mult (a_flags a)" and "avail m \<ge> 3"
  shows "\<exists>m' a'. dico_assoc_add m a key (Some v) n True = Some (None, m', a') \<and>
           assoc_repr m' a' (kv_put (a_flags a) kvs key v (unat n)) \<and> a_flags a' = a_flags a"
proof -
  obtain xs where xs: "assoc_ok m a xs" "map pair_of xs = kvs" using assms(1) by (auto simp: assoc_repr_def)
  let ?P = "\<lambda>x. key_eq (a_flags a) (as_key (snd x)) key"
  have k: "nth_match (\<lambda>kv. key_eq (a_flags a) (fst kv) key) kvs (unat n) = nth_match ?P xs (unat n)"
    unfolding xs(2) [symmetric] by (rule nth_match_pair_of)
  show ?thesis
  proof (cases "nth_match ?P xs (unat n)")
    case None
    obtain m' a' where r: "assoc_new m a key v = Some (None, m', a')"
      "assoc_ok m' a' (xs @ [(brk m, Assoc key v)])" "a_flags a' = a_flags a"
      using assoc_new_ok [OF xs(1) assms(3), of key v] by (elim exE conjE) (rule that)
    have "assoc_repr m' a' (kvs @ [(key, v)])"
      using r(2) xs(2) by (auto simp: assoc_repr_def pair_of_def intro!: exI [of _ "xs @ [(brk m, Assoc key v)]"])
    with None r assms(2) k show ?thesis
      by (simp add: dico_assoc_add_def assoc_find_n_raw_ok [OF xs(1)] kv_put_def)
  next
    case (Some i)
    then have i: "i < length xs" using nth_match_SomeD by blast
    have av: "avail m > 0" using assms(3) by simp
    obtain m1 m2 where r: "mem_take m = Some m1"
      "mem_set m1 (fst (xs ! i)) (\<lambda>e. e\<lparr>e_data := Assoc (as_key (e_data e)) v\<rparr>) = Some m2"
      "assoc_ok m2 a (xs[i := (fst (xs ! i), Assoc (as_key (snd (xs ! i))) v)])"
      using assoc_replace_ok [OF xs(1) i av, of v] by blast
    have "map pair_of (xs[i := (fst (xs ! i), Assoc (as_key (snd (xs ! i))) v)]) = kvs[i := (fst (kvs ! i), v)]"
      using xs(2) i by (auto simp: map_update pair_of_def)
    with r(3) have "assoc_repr m2 a (kvs[i := (fst (kvs ! i), v)])" by (auto simp: assoc_repr_def)
    with Some r(1,2) assms(2) k show ?thesis
      by (simp add: dico_assoc_add_def assoc_find_n_raw_ok [OF xs(1)] kv_put_def)
  qed
qed

text \<open>Removal of the \<open>n\<close>-th pair with the key.\<close>

definition kv_del :: "nat \<Rightarrow> (bytes \<times> bytes) list \<Rightarrow> bytes \<Rightarrow> nat \<Rightarrow> (bytes \<times> bytes) list" where
  "kv_del f kvs key n =
     (case nth_match (\<lambda>kv. key_eq f (fst kv) key) kvs n of
        None \<Rightarrow> kvs | Some i \<Rightarrow> take i kvs @ drop (Suc i) kvs)"

lemma l_remove_assoc:
  "n \<noteq> 0 \<Longrightarrow> \<forall>x\<in>set vs. is_Assoc x \<Longrightarrow>
   l_remove (assoc_cmp_of f) vs (Clos n s) =
     map_option (\<lambda>i. (vs ! i, take i vs @ drop (Suc i) vs)) (nth_match (\<lambda>x. key_eq f (as_key x) s) vs (unat n))"
proof (induction vs arbitrary: n)
  case Nil
  then show ?case by simp
next
  case (Cons x xs)
  have eq: "map_option (apsnd ((#) x)) (map_option (\<lambda>i. (xs ! i, take i xs @ drop (Suc i) xs)) o') =
      map_option (\<lambda>i. ((x # xs) ! i, take i (x # xs) @ drop (Suc i) (x # xs))) (map_option Suc o')" for o'
    by (cases o') auto
  have one: "unat n = Suc 0 \<longleftrightarrow> n = 1" using unat_1 [where 'a = 64] by (metis One_nat_def word_unat_eq_iff)
  have m1: "n \<noteq> 1 \<Longrightarrow> n - 1 \<noteq> 0" "unat (n - 1) = unat n - 1"
    using Cons.prems(1) by (simp_all add: unat_minus_one)
  have IH1: "n \<noteq> 1 \<Longrightarrow> l_remove (assoc_cmp_of f) xs (Clos (n - 1) s) =
      map_option (\<lambda>i. (xs ! i, take i xs @ drop (Suc i) xs)) (nth_match (\<lambda>x. key_eq f (as_key x) s) xs (unat n - 1))"
    using Cons.IH [of "n - 1"] m1 Cons.prems(2) by simp
  have IH2: "l_remove (assoc_cmp_of f) xs (Clos n s) =
      map_option (\<lambda>i. (xs ! i, take i xs @ drop (Suc i) xs)) (nth_match (\<lambda>x. key_eq f (as_key x) s) xs (unat n))"
    using Cons.IH [of n] Cons.prems by simp
  show ?case
    using Cons.prems(2) one IH1 IH2 eq by (auto simp: assoc_cmp_of_Clos)
qed

lemma dico_assoc_remove_n_ok:
  assumes "assoc_repr m a kvs"
  shows "\<exists>m' a'. dico_assoc_remove_n m a key n = Some (m', a') \<and>
           assoc_repr m' a' (kv_del (a_flags a) kvs key (unat n)) \<and> a_flags a' = a_flags a"
proof (cases "n = 0")
  case True
  with assms show ?thesis by (simp add: dico_assoc_remove_n_def kv_del_def)
next
  case False
  obtain xs where xs: "assoc_ok m a xs" "map pair_of xs = kvs" using assms by (auto simp: assoc_repr_def)
  have d: "dll m (a_list a) xs" and A: "\<forall>x\<in>set (map snd xs). is_Assoc x"
    and c: "comp_or_ptr (l_comp (a_list a)) = assoc_cmp_of (a_flags a)"
    using xs(1) by (auto simp: assoc_ok_def comp_or_ptr_def)
  let ?nm = "nth_match (\<lambda>x. key_eq (a_flags a) (as_key x) key) (map snd xs) (unat n)"
  have k: "nth_match (\<lambda>kv. key_eq (a_flags a) (fst kv) key) kvs (unat n) = ?nm"
    unfolding xs(2) [symmetric] by (simp add: nth_match_map comp_def pair_of_def)
  note rm = list_remove_raw_dll [OF d, where c = "l_comp (a_list a)" and k = "Clos n key" and want = False,
      unfolded c l_remove_assoc [OF False A]]
  show ?thesis
  proof (cases ?nm)
    case None
    with rm have "list_remove_raw m (Some (a_list a)) (Clos n key) (l_comp (a_list a)) False = Some (Inl ENOENT)"
      by simp
    with None False k assms show ?thesis
      by (simp add: dico_assoc_remove_n_def dico_list_remove_def kv_del_def)
  next
    case (Some i)
    let ?vs = "map snd xs"
    from Some rm obtain m' l' xs' where
      r: "list_remove_raw m (Some (a_list a)) (Clos n key) (l_comp (a_list a)) False = Some (Inr (?vs ! i, m', l'))"
        "dll m' l' xs'" "map snd xs' = take i ?vs @ drop (Suc i) ?vs" "l_comp l' = l_comp (a_list a)"
        "l_flags l' = l_flags (a_list a)"
      by (simp only: option.map option.case prod.case) (elim exE conjE, rule that)
    have pr: "map pair_of xs = map (\<lambda>x. (as_key x, as_value x)) (map snd xs)" for xs :: "(addr \<times> assoc_item) list"
      by (simp add: pair_of_def)
    have "set (map snd xs') \<subseteq> set ?vs"
      unfolding r(3) using set_take_subset [of i ?vs] set_drop_subset [of "Suc i" ?vs] by auto
    then have "\<forall>x\<in>set xs'. is_Assoc (snd x)" using A by fastforce
    then have ok: "assoc_ok m' (a\<lparr>a_list := l'\<rparr>) xs'" using r(2,4,5) xs(1) by (simp add: assoc_ok_def)
    have "map pair_of xs' = take i kvs @ drop (Suc i) kvs"
      unfolding xs(2) [symmetric] pr r(3) by (simp add: take_map drop_map)
    with ok have "assoc_repr m' (a\<lparr>a_list := l'\<rparr>) (take i kvs @ drop (Suc i) kvs)"
      by (auto simp: assoc_repr_def)
    with r(1) Some False k show ?thesis
      by (simp add: dico_assoc_remove_n_def dico_list_remove_def kv_del_def)
  qed
qed

subsection \<open>Lists that keep keys unique\<close>

definition kv_unique :: "nat \<Rightarrow> (bytes \<times> bytes) list \<Rightarrow> bool" where
  "kv_unique f kvs \<longleftrightarrow> sorted_wrt (\<lambda>x y. \<not> key_eq f (fst x) (fst y)) kvs"

lemma kv_put_simps:
  "kv_put f [] key v 1 = [(key, v)]"
  "kv_put f (x # xs) key v 1 = (if key_eq f (fst x) key then (fst x, v) # xs else x # kv_put f xs key v 1)"
  by (auto simp: kv_put_def split: option.splits)

lemma kv_put_keys: "fst ` set (kv_put f kvs key v 1) \<subseteq> insert key (fst ` set kvs)"
  by (induction kvs) (auto simp: kv_put_simps simp del: One_nat_def)

lemma kv_put_unique: "kv_unique f kvs \<Longrightarrow> kv_unique f (kv_put f kvs key v 1)"
proof (induction kvs)
  case Nil
  show ?case by (simp add: kv_put_simps kv_unique_def del: One_nat_def)
next
  case (Cons x xs)
  show ?case
  proof (cases "key_eq f (fst x) key")
    case True
    with Cons.prems show ?thesis by (simp add: kv_put_simps kv_unique_def del: One_nat_def)
  next
    case False
    have "\<not> key_eq f (fst x) (fst y)" if "y \<in> set (kv_put f xs key v 1)" for y
      using that kv_put_keys [of f xs key v] False Cons.prems by (fastforce simp: kv_unique_def)
    with False Cons show ?thesis by (simp add: kv_put_simps kv_unique_def del: One_nat_def)
  qed
qed

lemma find_kv_put:
  "map_option snd (find (\<lambda>kv. key_eq f (fst kv) k) (kv_put f kvs key v 1)) =
     (if key_eq f key k then Some v else map_option snd (find (\<lambda>kv. key_eq f (fst kv) k) kvs))"
proof (induction kvs)
  case Nil
  show ?case by (simp add: kv_put_simps del: One_nat_def)
next
  case (Cons x xs)
  have "key_eq f (fst x) key \<Longrightarrow> key_eq f (fst x) k = key_eq f key k"
    "key_eq f (fst x) k \<Longrightarrow> key_eq f key k \<Longrightarrow> key_eq f (fst x) key"
    by (auto simp: key_eq_def split: if_splits)
  with Cons show ?case
    by (cases "key_eq f (fst x) key"; cases "key_eq f (fst x) k"; cases "key_eq f key k")
      (simp_all add: kv_put_simps del: One_nat_def)
qed

lemma nth_match_find: "map_option ((!) xs) (nth_match P xs 1) = find P xs"
proof (induction xs)
  case Nil
  show ?case by simp
next
  case (Cons x xs)
  have eq: "map_option ((!) (x # xs)) (map_option Suc o') = map_option ((!) xs) o'" for o'
    by (cases o') auto
  show ?case using Cons by (simp add: eq del: One_nat_def option.map_comp)
qed

lemma dico_assoc_find_ok:
  assumes "assoc_repr m a kvs"
  shows "dico_assoc_find m (Some a) key =
     Some (map_option snd (find (\<lambda>kv. key_eq (a_flags a) (fst kv) key) kvs))"
  using dico_assoc_find_n_ok [OF assms, of key 1]
    nth_match_find [of kvs "\<lambda>kv. key_eq (a_flags a) (fst kv) key", symmetric]
  by (simp add: dico_assoc_find_def option.map_comp comp_def del: One_nat_def)

section \<open>Duplication\<close>

lemma dll_destroy: "dll m l xs \<Longrightarrow> \<exists>m'. dico_list_destroy m (Some l) = Some m'"
  using list_clear_loop_seg [of m None xs "l\<lparr>l_head := None, l_tail := None, l_count := 0\<rparr>"]
  by (auto simp: dico_list_destroy_def dico_list_clear_def dll_def Let_def)

lemma assoc_new_fail:
  assumes "assoc_ok m a xs" and "avail m < 3"
  shows "\<exists>m'. assoc_new m a key v = Some (Some ENOMEM, m', a) \<and> assoc_ok m' a xs"
proof -
  have fl: "l_flags (a_list a) = 0" and d: "dll m (a_list a) xs" using assms(1) by (auto simp: assoc_ok_def)
  have ok: "assoc_ok (m\<lparr>avail := n\<rparr>) a xs" for n
    using assms(1) dll_same_cells [OF d, of "m\<lparr>avail := n\<rparr>"] by (simp add: assoc_ok_def)
  consider "avail m = 0" | "avail m = 1" | "avail m = 2" using assms(2) by linarith
  then show ?thesis
    using ok [of 0] assms(1) fl
    by cases (auto simp: assoc_new_def mem_take_def dico_list_append_noflag list_append_raw_nomem)
qed

text \<open>Appending a pair whose key is not there yet, or to a list that allows duplicates.\<close>

lemma dico_assoc_append_fresh:
  assumes "assoc_ok m a xs"
    and "flag_mult (a_flags a) \<or> (\<forall>x\<in>set xs. \<not> key_eq (a_flags a) (as_key (snd x)) key)"
  shows "dico_assoc_append m a key v = assoc_new m a key v"
proof -
  have "nth_match P xs n = None" if "\<forall>x\<in>set xs. \<not> P x" for P n and xs :: "(addr \<times> assoc_item) list"
    using that by (induction xs) auto
  then show ?thesis
    using assms by (auto simp: dico_assoc_append_def dico_assoc_add_def assoc_find_n_raw_ok)
qed

lemma assoc_dup_loop_spec:
  "nseg (cells m) xs None \<Longrightarrow> it_at (a_list src) i xs rest \<Longrightarrow> assoc_ok m dst ys \<Longrightarrow>
   fst ` set xs \<inter> fst ` set ys = {} \<Longrightarrow> \<forall>x\<in>fst ` set xs. x < brk m \<Longrightarrow>
   flag_mult (a_flags dst) \<or> kv_unique (a_flags dst) (map pair_of ys @ map pair_of xs) \<Longrightarrow>
   \<exists>m' src' res. assoc_dup_loop i (hd_val xs) m src dst = Some (m', src', res) \<and>
     a_flags src' = a_flags src \<and> (\<exists>t. l_itr (a_list src') = (i, t) # rest) \<and>
     (a_list src')\<lparr>l_itr := rest\<rparr> = (a_list src)\<lparr>l_itr := rest\<rparr> \<and>
     (if 3 * length xs \<le> avail m
      then \<exists>dst' ys'. res = Dup_ok dst' \<and> assoc_ok m' dst' ys' \<and> a_flags dst' = a_flags dst \<and>
             map pair_of ys' = map pair_of ys @ map pair_of xs \<and>
             (\<forall>x. x \<notin> fst ` set ys \<longrightarrow> x < brk m \<longrightarrow> cells m' x = cells m x)
      else res = Dup_dangling)"
proof (induction xs arbitrary: m src dst ys)
  case Nil
  then show ?case by (subst assoc_dup_loop.simps) (auto simp: it_at_def)
next
  case (Cons x xs)
  note P = Cons.prems
  have nokey: "flag_mult (a_flags dst) \<or> (\<forall>y\<in>set ys. \<not> key_eq (a_flags dst) (as_key (snd y)) (as_key (snd x)))"
    using P(6) by (auto simp: kv_unique_def sorted_wrt_append pair_of_def)
  note ap = dico_assoc_append_fresh [OF P(3) nokey, of "as_value (snd x)"]
  show ?case
  proof (cases "avail m < 3")
    case True
    obtain m1 where m1: "assoc_new m dst (as_key (snd x)) (as_value (snd x)) = Some (Some ENOMEM, m1, dst)"
      "assoc_ok m1 dst ys" using assoc_new_fail [OF P(3) True] by blast
    obtain m2 where "dico_list_destroy m1 (Some (a_list dst)) = Some m2"
      using m1(2) dll_destroy [of m1 "a_list dst" ys] unfolding assoc_ok_def by blast
    with m1(1) ap True P(2) show ?thesis
      by (subst assoc_dup_loop.simps) (auto simp: dico_assoc_destroy_def it_at_def)
  next
    case False
    then have av: "avail m \<ge> 3" by simp
    let ?y = "(brk m, Assoc (as_key (snd x)) (as_value (snd x)))"
    obtain m1 dst1 where r: "assoc_new m dst (as_key (snd x)) (as_value (snd x)) = Some (None, m1, dst1)"
      "assoc_ok m1 dst1 (ys @ [?y])" "a_flags dst1 = a_flags dst" "avail m1 = avail m - 3"
      "brk m1 = Suc (brk m)" "\<forall>z. z \<notin> fst ` set ys \<longrightarrow> z \<noteq> brk m \<longrightarrow> cells m1 z = cells m z"
      using assoc_new_ok [OF P(3) av, of "as_key (snd x)" "as_value (snd x)"] by (elim exE conjE) (rule that)
    have "z \<notin> fst ` set ys \<and> z \<noteq> brk m" if "z \<in> fst ` set (x # xs)" for z
      using that P(4,5) by blast
    then have n1: "nseg (cells m1) (x # xs) None"
      using nseg_frame [OF P(1)] r(6) by simp
    obtain l1 where l1: "dico_iterator_next m1 (a_list src) (Some i) = Some (hd_val xs, l1)" "it_at l1 i xs rest"
      "l1\<lparr>l_itr := rest\<rparr> = (a_list src)\<lparr>l_itr := rest\<rparr>"
      using dico_iterator_next_at [OF n1 P(2)] by blast
    have py: "pair_of ?y = pair_of x" by (simp add: pair_of_def)
    have n2: "nseg (cells m1) xs None" using n1 by simp
    have at: "it_at (a_list (src\<lparr>a_list := l1\<rparr>)) i xs rest" using l1(2) by simp
    have dj: "fst ` set xs \<inter> fst ` set (ys @ [?y]) = {}" and lt: "\<forall>z\<in>fst ` set xs. z < brk m1"
      using P(4,5) r(5) by (auto simp: disjoint_iff)
    have un: "flag_mult (a_flags dst1) \<or> kv_unique (a_flags dst1) (map pair_of (ys @ [?y]) @ map pair_of xs)"
      using P(6) r(3) py by simp
    from Cons.IH [OF n2 at r(2) dj lt un] obtain m' src' res t' where
      f: "assoc_dup_loop i (hd_val xs) m1 (src\<lparr>a_list := l1\<rparr>) dst1 = Some (m', src', res)"
        "a_flags src' = a_flags src" "l_itr (a_list src') = (i, t') # rest"
        "(a_list src')\<lparr>l_itr := rest\<rparr> = l1\<lparr>l_itr := rest\<rparr>"
        "if 3 * length xs \<le> avail m1
         then \<exists>dst' ys'. res = Dup_ok dst' \<and> assoc_ok m' dst' ys' \<and> a_flags dst' = a_flags dst1 \<and>
                map pair_of ys' = map pair_of (ys @ [?y]) @ map pair_of xs \<and>
                (\<forall>z. z \<notin> fst ` set (ys @ [?y]) \<longrightarrow> z < brk m1 \<longrightarrow> cells m' z = cells m1 z)
         else res = Dup_dangling"
      by auto
    have loop: "assoc_dup_loop i (hd_val (x # xs)) m src dst = Some (m', src', res)"
      using ap r(1) l1(1) f(1) by (subst assoc_dup_loop.simps) simp
    have "if 3 * length (x # xs) \<le> avail m
      then \<exists>dst' ys'. res = Dup_ok dst' \<and> assoc_ok m' dst' ys' \<and> a_flags dst' = a_flags dst \<and>
             map pair_of ys' = map pair_of ys @ map pair_of (x # xs) \<and>
             (\<forall>z. z \<notin> fst ` set ys \<longrightarrow> z < brk m \<longrightarrow> cells m' z = cells m z)
      else res = Dup_dangling"
    proof (cases "3 * length xs \<le> avail m1")
      case True
      with f(5) obtain dst' ys' where "res = Dup_ok dst'" "assoc_ok m' dst' ys'" "a_flags dst' = a_flags dst1"
        "map pair_of ys' = map pair_of (ys @ [?y]) @ map pair_of xs"
        "\<forall>z. z \<notin> fst ` set (ys @ [?y]) \<longrightarrow> z < brk m1 \<longrightarrow> cells m' z = cells m1 z" by auto
      with True r(3-6) py av show ?thesis by auto
    next
      case False
      with f(5) r(4) av show ?thesis by auto
    qed
    with loop f(2,3,4) l1(3) show ?thesis by auto
  qed
qed

lemma dico_assoc_dup_spec:
  assumes "assoc_ok m src xs" and "flag_mult (a_flags src) \<or> kv_unique (a_flags src) (map pair_of xs)"
    and "avail m \<ge> 3" and "i \<notin> fst ` set (l_itr (a_list src))"
  shows "\<exists>m' res. dico_assoc_dup i m src = Some (m', src, res) \<and>
     (if 3 * length xs + 3 \<le> avail m
      then \<exists>dst ys. res = Dup_ok dst \<and> assoc_ok m' dst ys \<and> a_flags dst = a_flags src \<and>
             map pair_of ys = map pair_of xs \<and> assoc_ok m' src xs
      else res = Dup_dangling)"
proof -
  define m1 where "m1 = m\<lparr>avail := avail m - 2\<rparr>"
  define m2 where "m2 = m\<lparr>avail := avail m - 3\<rparr>"
  define dst where "dst = \<lparr>a_flags = a_flags src, a_list =
      empty_list\<lparr>l_comp := Some (assoc_cmp_of (a_flags src)), l_free_item := True\<rparr>\<rparr>"
  let ?l0 = "dico_iterator_attach i (a_list src)" and ?rest = "l_itr (a_list src)"
  have D: "dll m (a_list src) xs" using assms(1) by (simp add: assoc_ok_def)
  have c: "dico_assoc_create m (a_flags src) = (m1, Some dst)"
    using assms(3) by (auto simp: dico_assoc_create_def mem_take_def dico_list_create_def m1_def dst_def
        assoc_cmp_of_def)
  have it: "dico_assoc_iterator i m1 (Some src) = Some (Inr (m2, src\<lparr>a_list := ?l0\<rparr>))"
    using assms(3) by (auto simp: dico_assoc_iterator_def dico_list_iterator_def mem_take_def m1_def m2_def)
  have n: "nseg (cells m2) xs None" and h: "l_head ?l0 = hd_addr xs None"
    using dll_chain [OF D] by (auto simp: chain_def dico_iterator_attach_def m2_def)
  obtain t where t: "l_itr ?l0 = (i, t) # ?rest" by (simp add: dico_iterator_attach_def)
  obtain l2 where l2: "dico_iterator_first m2 ?l0 (Some i) = Some (hd_val xs, l2)" "it_at l2 i xs ?rest"
    "l2\<lparr>l_itr := ?rest\<rparr> = ?l0\<lparr>l_itr := ?rest\<rparr>"
    using dico_iterator_first_at [OF n h t assms(4)] by blast
  have at: "it_at (a_list (src\<lparr>a_list := l2\<rparr>)) i xs ?rest" using l2(2) by simp
  have "mem_wf m2" using D by (simp add: dll_def mem_wf_def m2_def)
  then have dok: "assoc_ok m2 dst []" by (simp add: assoc_ok_def dst_def dll_def empty_list_def)
  have lt: "\<forall>x\<in>fst ` set xs. x < brk m2" using chain_below_brk [OF dll_chain [OF D]] by (simp add: m2_def)
  have un: "flag_mult (a_flags dst) \<or> kv_unique (a_flags dst) (map pair_of [] @ map pair_of xs)"
    using assms(2) by (simp add: dst_def)
  have dj: "fst ` set xs \<inter> fst ` set [] = {}" by simp
  from assoc_dup_loop_spec [OF n at dok dj lt un] obtain m' src' res t' where
    f: "assoc_dup_loop i (hd_val xs) m2 (src\<lparr>a_list := l2\<rparr>) dst = Some (m', src', res)"
      "a_flags src' = a_flags src" "l_itr (a_list src') = (i, t') # ?rest"
      "(a_list src')\<lparr>l_itr := ?rest\<rparr> = l2\<lparr>l_itr := ?rest\<rparr>"
      "if 3 * length xs \<le> avail m2
       then \<exists>dst' ys'. res = Dup_ok dst' \<and> assoc_ok m' dst' ys' \<and> a_flags dst' = a_flags dst \<and>
              map pair_of ys' = map pair_of [] @ map pair_of xs \<and>
              (\<forall>x. x \<notin> fst ` set ([] :: (addr \<times> assoc_item) list) \<longrightarrow> x < brk m2 \<longrightarrow> cells m' x = cells m2 x)
       else res = Dup_dangling"
    by (elim exE conjE) (rule that, simp_all cong: if_weak_cong split del: if_split)
  have restored: "src'\<lparr>a_list := dico_iterator_destroy (Some i) (a_list src')\<rparr> = src"
    using f(2-4) l2(3) by (simp add: dico_iterator_destroy_def dico_iterator_detach_def dico_iterator_attach_def)
  have run: "dico_assoc_dup i m src = Some (m', src, res)"
    using c it l2(1) f(1) restored by (simp add: dico_assoc_dup_def)
  have frame: "assoc_ok m' src xs" if "assoc_ok m' dst' ys'" "\<forall>x. x < brk m2 \<longrightarrow> cells m' x = cells m2 x" for dst' ys'
  proof -
    have "seg (cells m') None xs None = seg (cells m2) None xs None"
      by (rule seg_cong) (use that(2) lt in blast)
    then show ?thesis using that(1) D assms(1) by (simp add: assoc_ok_def dll_def m2_def)
  qed
  show ?thesis using run f(5) frame assms(3) by (auto simp: m2_def dst_def split: if_splits)
qed

section \<open>Properties\<close>

text \<open>
  \<^verbatim>\<open>dico_assoc_find_n\<close> returns the value of the \<open>n\<close>-th pair, counted from 1, whose
  key is equal to the one asked for (up to the case of ASCII letters in a list created with
  \<^verbatim>\<open>DICO_ASSOC_CI\<close>), and NULL when there are fewer such pairs or \<open>n\<close> is 0.
\<close>
theorem dico_assoc_find_n_nth:
  assumes "assoc_repr m a kvs"
  shows "dico_assoc_find_n m (Some a) key n =
     (let ms = filter (\<lambda>kv. key_eq (a_flags a) (fst kv) key) kvs
      in Some (if n \<noteq> 0 \<and> unat n \<le> length ms then Some (snd (ms ! (unat n - 1))) else None))"
proof -
  let ?P = "\<lambda>kv. key_eq (a_flags a) (fst kv) key"
  have "map_option (\<lambda>i. snd (kvs ! i)) o' = map_option snd (map_option ((!) kvs) o')" for o'
    by (cases o') auto
  then show ?thesis
    using dico_assoc_find_n_ok [OF assms, of key n] nth_match_filter [of kvs ?P "unat n"]
    by (auto simp: Let_def unat_gt_0)
qed

definition assoc2 :: assoc_list where
  "assoc2 = \<lparr>a_flags = 1, a_list = (list2 assoc_key_cmp_ci)\<lparr>l_free_item := True\<rparr>\<rparr>"

lemma assoc2_repr:
  "assoc_repr (mem2 n (Assoc k1 v1) (Assoc k2 v2)) assoc2 [(k1, v1), (k2, v2)]"
proof -
  have "dll (mem2 n (Assoc k1 v1) (Assoc k2 v2)) (a_list assoc2) [(1, Assoc k1 v1), (2, Assoc k2 v2)]"
    using dll_mem2 [of n "Assoc k1 v1" "Assoc k2 v2" assoc_key_cmp_ci] by (simp add: assoc2_def dll_def)
  then show ?thesis
    by (auto simp: assoc_repr_def assoc_ok_def assoc2_def assoc_cmp_of_def flag_ci_def pair_of_def
        intro!: exI [of _ "[(1, Assoc k1 v1), (2, Assoc k2 v2)]"])
qed

theorem dico_assoc_find_n_nth_witness:
  "dico_assoc_find_n (mem2 0 (Assoc (str ''Ab'') [1]) (Assoc (str ''aB'') [2])) (Some assoc2) (str ''ab'') 2 =
     Some (Some [2])"
  using dico_assoc_find_n_nth [OF assoc2_repr [of 0 "str ''Ab''" "[1]" "str ''aB''" "[2]"], of "str ''ab''" 2]
  by (simp add: assoc2_def key_eq_def flag_ci_def c_tolower_def c_isupper_def)

text \<open>
  In a list that keeps keys unique, adding a value with replacement succeeds when memory
  is available, keeps keys unique, and makes the key (and every key equal to it under the
  list's flags) map to the new value while every other key keeps its value.
\<close>
theorem dico_assoc_add_then_find:
  assumes "assoc_repr m a kvs" and "kv_unique (a_flags a) kvs" and "\<not> flag_mult (a_flags a)"
    and "avail m \<ge> 3"
  shows "\<exists>m' a' kvs'. dico_assoc_add m a key (Some v) 1 True = Some (None, m', a') \<and>
           assoc_repr m' a' kvs' \<and> kv_unique (a_flags a') kvs' \<and>
           (\<forall>k. dico_assoc_find m' (Some a') k =
                  (if key_eq (a_flags a) key k then Some (Some v) else dico_assoc_find m (Some a) k))"
proof -
  obtain m' a' where r: "dico_assoc_add m a key (Some v) 1 True = Some (None, m', a')"
    "assoc_repr m' a' (kv_put (a_flags a) kvs key v 1)" "a_flags a' = a_flags a"
    using dico_assoc_add_replace_ok [OF assms(1,3,4), of key v 1] by auto
  have "dico_assoc_find m' (Some a') k =
      (if key_eq (a_flags a) key k then Some (Some v) else dico_assoc_find m (Some a) k)" for k
    unfolding dico_assoc_find_ok [OF r(2)] dico_assoc_find_ok [OF assms(1)] r(3) find_kv_put by simp
  with r kv_put_unique [OF assms(2)] show ?thesis by (metis)
qed

theorem dico_assoc_add_then_find_witness:
  "\<exists>m' a'. dico_assoc_add (mem2 3 (Assoc (str ''a'') [1]) (Assoc (str ''b'') [2])) assoc2 (str ''A'') (Some [7]) 1 True =
     Some (None, m', a') \<and> dico_assoc_find m' (Some a') (str ''a'') = Some (Some [7])"
  using dico_assoc_add_then_find [OF assoc2_repr [of 3 "str ''a''" "[1]" "str ''b''" "[2]"], of "str ''A''" "[7]"]
  by (force simp: assoc2_def key_eq_def flag_ci_def flag_mult_def kv_unique_def c_tolower_def c_isupper_def)

text \<open>
  with enough memory, \<^verbatim>\<open>dico_assoc_dup\<close> returns a separate list with the same flags and
  the same pairs in the same order, and leaves the source list as it was.
\<close>
theorem dico_assoc_dup_copies:
  assumes "assoc_repr m src kvs" and "flag_mult (a_flags src) \<or> kv_unique (a_flags src) kvs"
    and "avail m \<ge> 3 * length kvs + 3" and "i \<notin> fst ` set (l_itr (a_list src))"
  shows "\<exists>m' dst. dico_assoc_dup i m src = Some (m', src, Dup_ok dst) \<and> a_flags dst = a_flags src \<and>
           assoc_repr m' dst kvs \<and> assoc_repr m' src kvs"
proof -
  obtain xs where xs: "assoc_ok m src xs" "map pair_of xs = kvs" using assms(1) by (auto simp: assoc_repr_def)
  have "avail m \<ge> 3" using assms(3) by simp
  moreover have "3 * length xs + 3 \<le> avail m" using assms(3) xs(2) by auto
  ultimately obtain m' dst ys where "dico_assoc_dup i m src = Some (m', src, Dup_ok dst)"
      "assoc_ok m' dst ys" "a_flags dst = a_flags src" "map pair_of ys = map pair_of xs" "assoc_ok m' src xs"
    using dico_assoc_dup_spec [OF xs(1) _ _ assms(4)] assms(2) xs(2) by auto
  with xs(2) show ?thesis unfolding assoc_repr_def by metis
qed

theorem dico_assoc_dup_copies_witness:
  "\<exists>m' dst. dico_assoc_dup 1 (mem2 9 (Assoc (str ''a'') [1]) (Assoc (str ''b'') [2])) assoc2 =
     Some (m', assoc2, Dup_ok dst) \<and> assoc_repr m' dst [(str ''a'', [1]), (str ''b'', [2])]"
  using dico_assoc_dup_copies [OF assoc2_repr [of 9 "str ''a''" "[1]" "str ''b''" "[2]"], of 1]
  by (auto simp: assoc2_def kv_unique_def key_eq_def flag_ci_def c_tolower_def c_isupper_def)

text \<open>
  when memory runs out while the pairs are being copied, \<^verbatim>\<open>dico_assoc_dup\<close> does not
  return NULL: it returns the pointer to the list it has just destroyed.
\<close>
theorem dico_assoc_dup_out_of_memory_dangles:
  assumes "assoc_repr m src kvs" and "flag_mult (a_flags src) \<or> kv_unique (a_flags src) kvs"
    and "3 \<le> avail m" and "avail m < 3 * length kvs + 3" and "i \<notin> fst ` set (l_itr (a_list src))"
  shows "\<exists>m'. dico_assoc_dup i m src = Some (m', src, Dup_dangling)"
proof -
  obtain xs where xs: "assoc_ok m src xs" "map pair_of xs = kvs" using assms(1) by (auto simp: assoc_repr_def)
  have l: "length kvs = length xs" using xs(2) by auto
  from dico_assoc_dup_spec [OF xs(1) _ assms(3,5)] assms(2,4) xs(2) l show ?thesis by auto
qed

theorem dico_assoc_dup_out_of_memory_dangles_witness:
  "\<exists>m'. dico_assoc_dup 1 (mem2 7 (Assoc (str ''a'') [1]) (Assoc (str ''b'') [2])) assoc2 =
     Some (m', assoc2, Dup_dangling)"
  using dico_assoc_dup_out_of_memory_dangles [OF assoc2_repr [of 7 "str ''a''" "[1]" "str ''b''" "[2]"], of 1]
  by (auto simp: assoc2_def kv_unique_def key_eq_def flag_ci_def c_tolower_def c_isupper_def)

end
