(* ===== verification/Dico_Strat.thy ===== *)
theory Dico_Strat
  imports Dico_List_Props
begin

text \<open>
  The registry of match strategies (\<^verbatim>\<open>lib/strat.c\<close>), search keys
  (\<^verbatim>\<open>lib/key.c\<close>) and the registry of markup names (\<^verbatim>\<open>lib/markup.c\<close>).
  Both registries are clients of the list: they rely on the locale \<open>keyed_store\<close>.
  A strategy is identified by the address of the list entry that holds it, which is what
  the pointers \<^verbatim>\<open>dico_strategy_t\<close> and \<^verbatim>\<open>default_strategy\<close> hold. The type
  \<open>'f\<close> stands for the selector functions, which other parts of the program provide.
\<close>

section \<open>Strategies\<close>

record 'f strategy =
  s_name :: bytes
  s_descr :: bytes
  s_sel :: "'f option"
  s_closure :: nat
  s_is_default :: bool
  s_stratcl :: "nat option"

text \<open>What the list sees: a strategy, or the name a search passes as its second argument.\<close>

datatype 'f strat_item = Strat (the_strat: "'f strategy") | SName (the_name: bytes)

record 'f strat_state =
  st_mem :: "'f strat_item mem"
  st_list :: "'f strat_item dico_list option"
  st_default :: "addr option"

definition DEFSTRATNAME :: "bytes \<Rightarrow> bool" where
  "DEFSTRATNAME s \<longleftrightarrow> s = [0x2e]"

definition dico_strat_name_cmp :: "'f strat_item comp" where
  "dico_strat_name_cmp item data =
     (case (item, data) of (Strat s, SName n) \<Rightarrow> (strcmp (s_name s) n, data) | _ \<Rightarrow> (1, data))"

definition dico_strategy_create ::
    "'f strat_item mem \<Rightarrow> bytes \<Rightarrow> bytes \<Rightarrow> ('f strat_item mem \<times> 'f strategy) option" where
  "dico_strategy_create m name descr =
     map_option (\<lambda>m'. (m', \<lparr>s_name = name, s_descr = descr, s_sel = None, s_closure = 0,
                           s_is_default = False, s_stratcl = None\<rparr>)) (mem_take m)"

definition dico_strategy_dup ::
    "'f strat_item mem \<Rightarrow> 'f strategy \<Rightarrow> ('f strat_item mem \<times> 'f strategy) option" where
  "dico_strategy_dup m strat =
     map_option (\<lambda>(m', np). (m', np\<lparr>s_sel := s_sel strat, s_closure := s_closure strat\<rparr>))
       (dico_strategy_create m (s_name strat) (s_descr strat))"

definition dico_strategy_find :: "'f strat_state \<Rightarrow> bytes \<Rightarrow> addr option option" where
  "dico_strategy_find st name =
     (if DEFSTRATNAME name then Some (st_default st)
      else case st_list st of None \<Rightarrow> Some None
           | Some l \<Rightarrow> map_option fst (list_find (st_mem st) (comp_or_ptr (l_comp l)) (l_head l) (SName name)))"

text \<open>
  \<^verbatim>\<open>dico_strategy_add\<close>: the result is 0 or 1 beside the new state. The result of
  \<^verbatim>\<open>dico_list_append\<close> is not looked at.
\<close>

definition dico_strategy_add :: "'f strat_state \<Rightarrow> 'f strategy \<Rightarrow> (nat \<times> 'f strat_state) option" where
  "dico_strategy_add st strat =
     (case (case st_list st of
              Some l \<Rightarrow> Some (st_mem st, l)
            | None \<Rightarrow> map_option (\<lambda>(m, l). (m, l\<lparr>l_comp := Some dico_strat_name_cmp, l_free_item := True\<rparr>))
                        (dico_list_create (st_mem st))) of
        None \<Rightarrow> Some (1, st)
      | Some (m, l) \<Rightarrow> do {
          let st1 = st\<lparr>st_mem := m, st_list := Some l\<rparr>;
          f \<leftarrow> dico_strategy_find st1 (s_name strat);
          (case f of Some _ \<Rightarrow> Some (0, st1)
           | None \<Rightarrow>
               (case dico_strategy_dup m strat of None \<Rightarrow> Some (1, st1)
                | Some (m2, np) \<Rightarrow> do {
                    r \<leftarrow> dico_list_append m2 (Some l) (Strat np);
                    Some (case r of Inl _ \<Rightarrow> (0, st1\<lparr>st_mem := m2\<rparr>)
                          | Inr (m3, l3) \<Rightarrow> (0, st1\<lparr>st_mem := m3, st_list := Some l3\<rparr>)) })) })"

definition dico_strategy_count :: "'f strat_state \<Rightarrow> nat" where
  "dico_strategy_count st = dico_list_count (st_list st)"

definition dico_strategy_iterate ::
    "'f strat_state \<Rightarrow> nat \<Rightarrow> ('f strat_item \<Rightarrow> 's \<Rightarrow> bool \<times> 's) \<Rightarrow> 's \<Rightarrow> ('f strat_state \<times> 's) option" where
  "dico_strategy_iterate st i func s =
     map_option (\<lambda>(l, s'). (st\<lparr>st_list := l\<rparr>, s')) (dico_list_iterate (st_mem st) (st_list st) i func s)"

text \<open>Setting the flag \<^verbatim>\<open>is_default\<close> of the strategy at an address.\<close>

definition strat_set_default :: "'f strat_item mem \<Rightarrow> addr \<Rightarrow> bool \<Rightarrow> 'f strat_item mem option" where
  "strat_set_default m p b =
     mem_set m p (\<lambda>e. e\<lparr>e_data := Strat (the_strat (e_data e)\<lparr>s_is_default := b\<rparr>)\<rparr>)"

definition dico_set_default_strategy :: "'f strat_state \<Rightarrow> bytes \<Rightarrow> ('f strat_state) res" where
  "dico_set_default_strategy st name =
     (if DEFSTRATNAME name then Some (Inl EINVAL)
      else do {
        sp \<leftarrow> dico_strategy_find st name;
        (case sp of None \<Rightarrow> Some (Inl EINVAL)
         | Some p \<Rightarrow> do {
             m1 \<leftarrow> (case st_default st of None \<Rightarrow> Some (st_mem st)
                   | Some q \<Rightarrow> strat_set_default (st_mem st) q False);
             m2 \<leftarrow> strat_set_default m1 p True;
             Some (Inr (st\<lparr>st_mem := m2, st_default := Some p\<rparr>)) }) })"

definition dico_get_default_strategy :: "'f strat_state \<Rightarrow> addr option" where
  "dico_get_default_strategy st = st_default st"

section \<open>Markup names\<close>

record markup_state =
  mk_mem :: "bytes mem"
  mk_list :: "bytes dico_list option"

definition cmp_markup_name :: "bytes comp" where
  "cmp_markup_name item data = (strcasecmp item data, data)"

definition dico_markup_lookup :: "markup_state \<Rightarrow> bytes \<Rightarrow> bytes option option" where
  "dico_markup_lookup st name = dico_list_locate (mk_mem st) (mk_list st) name"

fun dico_markup_valid_name_p :: "bytes \<Rightarrow> bool" where
  "dico_markup_valid_name_p [] = True"
| "dico_markup_valid_name_p (c # name) =
     (if c < 0x80 \<and> (c_isupper c \<or> c_islower c \<or> c_isdigit c \<or> c = 0x5f)
      then dico_markup_valid_name_p name else False)"

text \<open>The result is the error code the function returns, \<open>None\<close> for 0, beside the new state.\<close>

definition dico_markup_register :: "markup_state \<Rightarrow> bytes \<Rightarrow> (errno option \<times> markup_state) option" where
  "dico_markup_register st name =
     (if \<not> dico_markup_valid_name_p name then Some (Some EINVAL, st)
      else case (case mk_list st of
                   Some l \<Rightarrow> Some (mk_mem st, l)
                 | None \<Rightarrow> map_option (\<lambda>(m, l). (m, l\<lparr>l_comp := Some cmp_markup_name\<rparr>))
                             (dico_list_create (mk_mem st))) of
             None \<Rightarrow> Some (Some ENOMEM, st)
           | Some (m, l) \<Rightarrow> do {
               let st1 = \<lparr>mk_mem = m, mk_list = Some l\<rparr>;
               f \<leftarrow> dico_markup_lookup st1 name;
               (case f of Some _ \<Rightarrow> Some (None, st1)
                | None \<Rightarrow>
                    (case mem_take m of None \<Rightarrow> Some (Some ENOMEM, st1)
                     | Some m2 \<Rightarrow> do {
                         r \<leftarrow> dico_list_append m2 (Some l) name;
                         Some (case r of Inl e \<Rightarrow> (Some e, st1\<lparr>mk_mem := m2\<rparr>)
                               | Inr (m3, l3) \<Rightarrow> (None, \<lparr>mk_mem = m3, mk_list = Some l3\<rparr>)) })) })"

section \<open>Search keys\<close>

datatype select_op = DICO_SELECT_BEGIN | DICO_SELECT_RUN | DICO_SELECT_END

record ('f, 'd) dico_key =
  k_word :: "bytes option"
  k_call_data :: "'d option"
  k_strat :: "'f strategy option"
  k_init :: bool

definition zero_key :: "('f, 'd) dico_key" where
  "zero_key = \<lparr>k_word = None, k_call_data = None, k_strat = None, k_init = False\<rparr>"

text \<open>
  The selector functions: given the operation, the key and the word, a selector returns its
  result and may change the key (its \<^verbatim>\<open>call_data\<close>); \<open>'s\<close> is the state it keeps
  elsewhere.
\<close>

type_synonym ('f, 'd, 's) selector =
  "'f \<Rightarrow> select_op \<Rightarrow> ('f, 'd) dico_key \<Rightarrow> bytes option \<Rightarrow> 's \<Rightarrow> int \<times> ('f, 'd) dico_key \<times> 's"

definition dico_key_deinit ::
    "('f, 'd, 's) selector \<Rightarrow> ('f, 'd) dico_key \<Rightarrow> 's \<Rightarrow> (('f, 'd) dico_key \<times> 's) option" where
  "dico_key_deinit run key s =
     (if k_init key then do {
        strat \<leftarrow> k_strat key;
        let s' = (case s_sel strat of None \<Rightarrow> s
                  | Some f \<Rightarrow> snd (snd (run f DICO_SELECT_END key None s)));
        Some (zero_key, s') }
      else Some (zero_key, s))"

text \<open>\<^verbatim>\<open>strdup\<close> gives the copy of the word; the result is 0 or 1.\<close>

definition dico_key_init ::
    "('f, 'd, 's) selector \<Rightarrow> 'f strategy \<Rightarrow> bytes \<Rightarrow> 's \<Rightarrow> nat \<times> ('f, 'd) dico_key \<times> 's" where
  "dico_key_init run strat word s =
     (let key = zero_key\<lparr>k_word := Some word, k_strat := Some strat\<rparr> in
      case s_sel strat of
        None \<Rightarrow> (0, key\<lparr>k_init := True\<rparr>, s)
      | Some f \<Rightarrow>
          (case run f DICO_SELECT_BEGIN key (Some word) s of
             (r, key', s') \<Rightarrow> if r \<noteq> 0 then (1, key', s') else (0, key'\<lparr>k_init := True\<rparr>, s')))"

definition dico_key_match ::
    "('f, 'd, 's) selector \<Rightarrow> ('f, 'd) dico_key option \<Rightarrow> bytes option \<Rightarrow> 's \<Rightarrow>
     (int \<times> ('f, 'd) dico_key option \<times> 's) res" where
  "dico_key_match run keyp word s =
     (case keyp of None \<Rightarrow> Some (Inl EINVAL)
      | Some key \<Rightarrow>
          (if \<not> k_init key \<or> word = None then Some (Inl EINVAL)
           else do {
             strat \<leftarrow> k_strat key;
             f \<leftarrow> s_sel strat;
             let (r, key', s') = run f DICO_SELECT_RUN key word s;
             Some (Inr (r, Some key', s')) }))"

section \<open>The registries as keyed stores\<close>

definition strat_matches :: "'f strat_item \<Rightarrow> 'f strat_item \<Rightarrow> bool" where
  "strat_matches v k \<longleftrightarrow> (case (v, k) of (Strat s, SName n) \<Rightarrow> s_name s = n | _ \<Rightarrow> False)"

interpretation strat_store: keyed_store "list_repr dico_strat_name_cmp" list_room list_put list_get list_del
    dico_strat_name_cmp strat_matches
  by unfold_locales
    (auto simp: dico_strat_name_cmp_def strat_matches_def split: strat_item.splits)

definition markup_matches :: "bytes \<Rightarrow> bytes \<Rightarrow> bool" where
  "markup_matches v k \<longleftrightarrow> map c_tolower v = map c_tolower k"

interpretation markup_store: keyed_store "list_repr cmp_markup_name" list_room list_put list_get list_del
    cmp_markup_name markup_matches
  by unfold_locales (auto simp: cmp_markup_name_def markup_matches_def strcasecmp_eq_0_iff)

section \<open>The invariant of the strategy registry\<close>

abbreviation strat_at :: "addr \<times> 'f strat_item \<Rightarrow> 'f strategy" where
  "strat_at x \<equiv> the_strat (snd x)"

definition strat_entries :: "'f strat_state \<Rightarrow> (addr \<times> 'f strat_item) list \<Rightarrow> bool" where
  "strat_entries st xs \<longleftrightarrow>
     (case st_list st of
        None \<Rightarrow> xs = [] \<and> mem_wf (st_mem st)
      | Some l \<Rightarrow> dll (st_mem st) l xs \<and> l_comp l = Some dico_strat_name_cmp \<and> l_flags l = 0) \<and>
     (\<forall>x\<in>set xs. is_Strat (snd x))"

definition strat_default_ok :: "'f strat_state \<Rightarrow> (addr \<times> 'f strat_item) list \<Rightarrow> bool" where
  "strat_default_ok st xs \<longleftrightarrow>
     (\<forall>x\<in>set xs. s_is_default (strat_at x) \<longleftrightarrow> st_default st = Some (fst x)) \<and>
     (\<forall>p. st_default st = Some p \<longrightarrow> p \<in> fst ` set xs)"

definition strat_names_ok :: "(addr \<times> 'f strat_item) list \<Rightarrow> bool" where
  "strat_names_ok xs \<longleftrightarrow> distinct (filter (\<lambda>n. \<not> DEFSTRATNAME n) (map (\<lambda>x. s_name (strat_at x)) xs))"

definition strat_ok :: "'f strat_state \<Rightarrow> (addr \<times> 'f strat_item) list \<Rightarrow> bool" where
  "strat_ok st xs \<longleftrightarrow> strat_entries st xs \<and> strat_default_ok st xs \<and> strat_names_ok xs"

lemma strat_entries_default [simp]: "strat_entries (st\<lparr>st_default := d\<rparr>) xs = strat_entries st xs"
  by (cases "st_list st") (simp_all add: strat_entries_def)

lemma node_find_strat:
  "\<forall>x\<in>set xs. is_Strat (snd x) \<Longrightarrow>
   fst (node_find dico_strat_name_cmp xs (SName n)) = find (\<lambda>x. s_name (strat_at x) = n) xs"
  by (induction xs) (auto simp: dico_strat_name_cmp_def split: strat_item.splits prod.splits)

lemma dico_strategy_find_ok:
  assumes "strat_entries st xs"
  shows "dico_strategy_find st name =
     Some (if DEFSTRATNAME name then st_default st
           else map_option fst (find (\<lambda>x. s_name (strat_at x) = name) xs))"
proof (cases "st_list st")
  case None
  with assms show ?thesis by (simp add: dico_strategy_find_def strat_entries_def)
next
  case (Some l)
  with assms have d: "dll (st_mem st) l xs" and c: "l_comp l = Some dico_strat_name_cmp"
    and s: "\<forall>x\<in>set xs. is_Strat (snd x)" by (auto simp: strat_entries_def)
  have "list_find (st_mem st) dico_strat_name_cmp (l_head l) (SName name) =
      Some (map_option fst (fst (node_find dico_strat_name_cmp xs (SName name))),
            snd (node_find dico_strat_name_cmp xs (SName name)))"
    using dll_chain [OF d] by (simp add: chain_def list_find_nseg)
  with Some c node_find_strat [OF s] show ?thesis
    by (simp add: dico_strategy_find_def comp_or_ptr_def)
qed

text \<open>The list is created on first use.\<close>

lemma strat_list_init:
  assumes "strat_entries st xs"
    and "(case st_list st of
            Some l \<Rightarrow> Some (st_mem st, l)
          | None \<Rightarrow> map_option (\<lambda>(m, l). (m, l\<lparr>l_comp := Some dico_strat_name_cmp, l_free_item := True\<rparr>))
                      (dico_list_create (st_mem st))) = Some (m, l)"
  shows "strat_entries (st\<lparr>st_mem := m, st_list := Some l\<rparr>) xs \<and> dll m l xs \<and> l_flags l = 0 \<and>
         l_comp l = Some dico_strat_name_cmp \<and> avail m \<ge> avail (st_mem st) - 1"
proof (cases "st_list st")
  case None
  with assms have "xs = []" "mem_wf (st_mem st)" by (auto simp: strat_entries_def)
  moreover have "m = (st_mem st)\<lparr>avail := avail (st_mem st) - 1\<rparr>"
    "l = empty_list\<lparr>l_comp := Some dico_strat_name_cmp, l_free_item := True\<rparr>"
    using None assms(2) by (auto simp: dico_list_create_def mem_take_def split: if_splits)
  ultimately show ?thesis
    by (simp add: strat_entries_def dll_def mem_wf_def empty_list_def)
next
  case (Some l0)
  with assms show ?thesis by (auto simp: strat_entries_def)
qed

lemma strat_append_ok:
  assumes "strat_ok st xs" and "st_list st = Some l" and "\<not> s_is_default np"
    and "DEFSTRATNAME (s_name np) \<or> s_name np \<notin> (\<lambda>x. s_name (strat_at x)) ` set xs"
    and "list_append_raw (st_mem st) l (Strat np) = Some (Inr (m', l'))"
  shows "strat_ok (st\<lparr>st_mem := m', st_list := Some l'\<rparr>) (xs @ [(brk (st_mem st), Strat np)])"
proof -
  have E: "dll (st_mem st) l xs" "l_comp l = Some dico_strat_name_cmp" "l_flags l = 0"
    "\<forall>x\<in>set xs. is_Strat (snd x)" using assms(1,2) by (auto simp: strat_ok_def strat_entries_def)
  have av: "avail (st_mem st) > 0" 
    using assms(5) list_append_raw_nomem [of "st_mem st" l "Strat np"] by (cases "avail (st_mem st)") auto
  from list_append_raw_dll [OF E(1) av, of "Strat np"] assms(5)
  have d: "dll m' l' (xs @ [(brk (st_mem st), Strat np)])" "l_comp l' = l_comp l" "l_flags l' = l_flags l"
    by auto
  have fresh: "brk (st_mem st) \<notin> fst ` set xs" using E(1) brk_not_in_seg unfolding dll_def by blast
  have D: "strat_default_ok st xs" and N: "strat_names_ok xs" using assms(1) by (auto simp: strat_ok_def)
  have "strat_default_ok (st\<lparr>st_mem := m', st_list := Some l'\<rparr>) (xs @ [(brk (st_mem st), Strat np)])"
    using D fresh assms(3) by (auto simp: strat_default_ok_def)
  moreover have "strat_names_ok (xs @ [(brk (st_mem st), Strat np)])"
    using N assms(4) by (auto simp: strat_names_ok_def)
  ultimately show ?thesis using d E by (auto simp: strat_ok_def strat_entries_def)
qed

lemma strat_ok_same_cells:
  assumes "strat_ok st xs" and "cells m = cells (st_mem st)" and "brk m = brk (st_mem st)"
  shows "strat_ok (st\<lparr>st_mem := m\<rparr>) xs"
  using assms dll_same_cells [OF _ assms(2,3)]
  by (auto simp: strat_ok_def strat_entries_def strat_default_ok_def mem_wf_def split: option.splits)

lemma find_None_name:
  "find (\<lambda>x. s_name (strat_at x) = n) xs = None \<Longrightarrow> n \<notin> (\<lambda>x. s_name (strat_at x)) ` set xs"
  by (force simp: find_None_iff)

text \<open>One addition: what happens to the entries, on every branch.\<close>

lemma dico_strategy_add_cases:
  assumes "strat_ok st xs"
  shows "\<exists>rc st' xs'. dico_strategy_add st strat = Some (rc, st') \<and> strat_ok st' xs' \<and>
           st_default st' = st_default st \<and>
           (xs' = xs \<or> (\<exists>a. xs' = xs @ [(a, Strat (strat\<lparr>s_is_default := False, s_stratcl := None\<rparr>))])) \<and>
           (avail (st_mem st) \<ge> 3 \<longrightarrow> rc = 0 \<and>
              (\<not> DEFSTRATNAME (s_name strat) \<longrightarrow> find (\<lambda>x. s_name (strat_at x) = s_name strat) xs' \<noteq> None))"
proof (cases "case st_list st of
              Some l \<Rightarrow> Some (st_mem st, l)
            | None \<Rightarrow> map_option (\<lambda>(m, l). (m, l\<lparr>l_comp := Some dico_strat_name_cmp, l_free_item := True\<rparr>))
                        (dico_list_create (st_mem st))")
  case None
  then have "avail (st_mem st) = 0"
    by (auto simp: dico_list_create_def mem_take_def split: option.splits if_splits)
  with None assms show ?thesis
    by (intro exI [of _ 1] exI [of _ st] exI [of _ xs]) (simp add: dico_strategy_add_def)
next
  case (Some ml)
  obtain m l where ml: "ml = (m, l)" by fastforce
  let ?st1 = "st\<lparr>st_mem := m, st_list := Some l\<rparr>" and ?n = "s_name strat"
  let ?np = "strat\<lparr>s_is_default := False, s_stratcl := None\<rparr>"
  have E: "strat_entries st xs" using assms by (simp add: strat_ok_def)
  note I = strat_list_init [OF E Some [unfolded ml]]
  have ok1: "strat_ok ?st1 xs" using I assms by (simp add: strat_ok_def strat_default_ok_def)
  let ?f = "if DEFSTRATNAME ?n then st_default st else map_option fst (find (\<lambda>x. s_name (strat_at x) = ?n) xs)"
  have f: "dico_strategy_find ?st1 ?n = Some ?f"
    using dico_strategy_find_ok [of ?st1 xs ?n] I by simp
  show ?thesis
  proof (cases ?f)
    case (Some p)
    with f ok1 \<open>_ = Some ml\<close> ml show ?thesis
      by (simp add: dico_strategy_add_def) (auto split: if_splits)
  next
    case None
    let ?m2 = "m\<lparr>avail := avail m - 1\<rparr>"
    have dup: "dico_strategy_dup m strat = (if avail m = 0 then None else Some (?m2, ?np))"
      by (simp add: dico_strategy_dup_def dico_strategy_create_def mem_take_def)
    have ok2: "strat_ok (?st1\<lparr>st_mem := ?m2\<rparr>) xs" by (rule strat_ok_same_cells [OF ok1]) simp_all
    have nm: "DEFSTRATNAME ?n \<or> ?n \<notin> (\<lambda>x. s_name (strat_at x)) ` set xs"
      using None find_None_name [of ?n xs] by (auto split: if_splits)
    show ?thesis
    proof (cases "avail m \<le> 1")
      case True
      with dup f None Some ml I ok1 ok2 show ?thesis
        by (cases "avail m = 0") (auto simp: dico_strategy_add_def dico_list_append_noflag list_append_raw_nomem)
    next
      case False
      have d2: "dll ?m2 l xs" using I dll_same_cells [of m l xs ?m2] by simp
      have "avail ?m2 > 0" using False by simp
      then obtain m3 l3 where ap: "list_append_raw ?m2 l (Strat ?np) = Some (Inr (m3, l3))"
        using list_append_raw_dll [OF d2, of "Strat ?np"] by blast
      have "strat_ok (?st1\<lparr>st_mem := m3, st_list := Some l3\<rparr>) (xs @ [(brk m, Strat ?np)])"
        using strat_append_ok [OF ok2, of l ?np m3 l3] nm ap by simp
      moreover have "\<exists>x. x \<in> set (xs @ [(brk m, Strat ?np)]) \<and> s_name (strat_at x) = ?n"
        by (rule exI [of _ "(brk m, Strat ?np)"]) simp
      then have "find (\<lambda>x. s_name (strat_at x) = ?n) (xs @ [(brk m, Strat ?np)]) \<noteq> None"
        by (simp only: find_None_iff not_not)
      ultimately show ?thesis using dup f None Some ml I ap False
        by (intro exI [of _ 0] exI [of _ "st\<lparr>st_mem := m3, st_list := Some l3\<rparr>"]
            exI [of _ "xs @ [(brk m, Strat ?np)]"])
          (simp add: dico_strategy_add_def dico_list_append_noflag)
    qed
  qed
qed

text \<open>The flag of one strategy.\<close>

definition flag_default :: "addr \<Rightarrow> bool \<Rightarrow> (addr \<times> 'f strat_item) list \<Rightarrow> (addr \<times> 'f strat_item) list" where
  "flag_default p b xs =
     map (\<lambda>x. if fst x = p then (p, Strat (strat_at x\<lparr>s_is_default := b\<rparr>)) else x) xs"

lemma strat_set_default_ok:
  assumes "strat_entries st xs" and "p \<in> fst ` set xs"
  shows "\<exists>m'. strat_set_default (st_mem st) p b = Some m' \<and>
           strat_entries (st\<lparr>st_mem := m'\<rparr>) (flag_default p b xs)"
proof -
  obtain l where l: "st_list st = Some l" using assms by (auto simp: strat_entries_def split: option.splits)
  with assms(1) have E: "dll (st_mem st) l xs" "l_comp l = Some dico_strat_name_cmp" "l_flags l = 0"
    "\<forall>x\<in>set xs. is_Strat (snd x)" by (auto simp: strat_entries_def)
  from dll_map_data [OF E(1) assms(2), of "\<lambda>d. Strat (the_strat d\<lparr>s_is_default := b\<rparr>)"] l E(2-4)
  show ?thesis by (auto simp: strat_set_default_def strat_entries_def flag_default_def)
qed

lemma flag_default_names [simp]:
  "map (\<lambda>x. s_name (strat_at x)) (flag_default p b xs) = map (\<lambda>x. s_name (strat_at x)) xs"
  "fst ` set (flag_default p b xs) = fst ` set xs"
proof -
  have "map fst (flag_default p b xs) = map fst xs" by (auto simp: flag_default_def)
  then show "fst ` set (flag_default p b xs) = fst ` set xs" by (metis set_map)
qed (auto simp: flag_default_def)

lemma flag_default_flags:
  "x \<in> set (flag_default p b xs) \<Longrightarrow>
   \<exists>y\<in>set xs. fst x = fst y \<and> s_is_default (strat_at x) = (if fst y = p then b else s_is_default (strat_at y))"
  by (auto simp: flag_default_def split: if_splits)

lemma dico_set_default_strategy_cases:
  assumes "strat_ok st xs"
  shows "case find (\<lambda>x. s_name (strat_at x) = name) xs of
           Some x \<Rightarrow> \<not> DEFSTRATNAME name \<longrightarrow> (\<exists>st' xs'. dico_set_default_strategy st name = Some (Inr st') \<and> strat_ok st' xs' \<and>
             st_default st' = Some (fst x) \<and> map (\<lambda>x. s_name (strat_at x)) xs' = map (\<lambda>x. s_name (strat_at x)) xs)
         | None \<Rightarrow> dico_set_default_strategy st name = Some (Inl EINVAL)"
proof (cases "DEFSTRATNAME name \<or> find (\<lambda>x. s_name (strat_at x) = name) xs = None")
  case True
  with assms dico_strategy_find_ok [of st xs name] show ?thesis
    by (auto simp: dico_set_default_strategy_def strat_ok_def split: option.splits)
next
  case False
  then obtain x where x: "find (\<lambda>x. s_name (strat_at x) = name) xs = Some x" by auto
  have px: "fst x \<in> fst ` set xs" using x by (auto simp: find_Some_iff)
  have E: "strat_entries st xs" and D: "strat_default_ok st xs" and N: "strat_names_ok xs"
    using assms by (auto simp: strat_ok_def)
  let ?ys = "case st_default st of None \<Rightarrow> xs | Some q \<Rightarrow> flag_default q False xs"
  obtain m1 where m1: "(case st_default st of None \<Rightarrow> Some (st_mem st)
      | Some q \<Rightarrow> strat_set_default (st_mem st) q False) = Some m1" "strat_entries (st\<lparr>st_mem := m1\<rparr>) ?ys"
    using E D strat_set_default_ok [OF E, of _ False] by (cases "st_default st") (auto simp: strat_default_ok_def)
  have noflag: "\<not> s_is_default (strat_at y)" if "y \<in> set ?ys" for y
    using that D flag_default_flags [of y _ False xs] by (cases "st_default st") (fastforce simp: strat_default_ok_def)+
  have ys: "map (\<lambda>x. s_name (strat_at x)) ?ys = map (\<lambda>x. s_name (strat_at x)) xs" "fst ` set ?ys = fst ` set xs"
    by (auto split: option.splits)
  obtain m2 where m2: "strat_set_default m1 (fst x) True = Some m2"
    "strat_entries (st\<lparr>st_mem := m2\<rparr>) (flag_default (fst x) True ?ys)"
    using strat_set_default_ok [OF m1(2), of "fst x" True] px ys(2) by auto
  let ?st' = "st\<lparr>st_mem := m2, st_default := Some (fst x)\<rparr>" and ?zs = "flag_default (fst x) True ?ys"
  have "s_is_default (strat_at z) \<longleftrightarrow> fst x = fst z" if z: "z \<in> set ?zs" for z
  proof -
    from flag_default_flags [OF z] obtain y where "y \<in> set ?ys" "fst z = fst y"
      "s_is_default (strat_at z) = (if fst y = fst x then True else s_is_default (strat_at y))" by blast
    with noflag [of y] show ?thesis by auto
  qed
  then have "strat_default_ok ?st' ?zs" using px ys(2) by (simp add: strat_default_ok_def)
  moreover have "strat_entries ?st' ?zs" using m2(2) by simp
  moreover have "strat_names_ok ?zs" using N ys(1) by (simp add: strat_names_ok_def)
  ultimately have "strat_ok ?st' ?zs" by (simp add: strat_ok_def)
  moreover have "dico_set_default_strategy st name = Some (Inr ?st')"
    using False x dico_strategy_find_ok [OF E, of name] m1(1) m2(1) by (simp add: dico_set_default_strategy_def)
  ultimately show ?thesis using x ys(1) by (auto intro!: exI [of _ ?st'] exI [of _ ?zs])
qed

section \<open>Properties\<close>

text \<open>The states the program can reach from an empty registry.\<close>

inductive strat_reach :: "'f strat_state \<Rightarrow> bool" where
  empty: "cells m = Map.empty \<Longrightarrow> strat_reach \<lparr>st_mem = m, st_list = None, st_default = None\<rparr>"
| add: "strat_reach st \<Longrightarrow> dico_strategy_add st s = Some (rc, st') \<Longrightarrow> strat_reach st'"
| set_default: "strat_reach st \<Longrightarrow> dico_set_default_strategy st name = Some (Inr st') \<Longrightarrow> strat_reach st'"

lemma strat_reach_ok: "strat_reach st \<Longrightarrow> \<exists>xs. strat_ok st xs"
proof (induction rule: strat_reach.induct)
  case (empty m)
  then show ?case
    by (intro exI [of _ "[]"])
      (simp add: strat_ok_def strat_entries_def strat_default_ok_def strat_names_ok_def mem_wf_def)
next
  case (add st s rc st')
  then obtain xs where "strat_ok st xs" by blast
  from dico_strategy_add_cases [OF this, of s] add.hyps show ?case by auto
next
  case (set_default st name st')
  then obtain xs where xs: "strat_ok st xs" by blast
  show ?case
  proof (cases "DEFSTRATNAME name")
    case True
    with set_default.hyps show ?thesis by (simp add: dico_set_default_strategy_def)
  next
    case False
    with dico_set_default_strategy_cases [OF xs, of name] set_default.hyps show ?thesis
      by (auto split: option.splits)
  qed
qed

text \<open>
  C20: in every state the registry can reach, no name except \<^verbatim>\<open>"."\<close> is registered
  twice, and the strategy whose \<^verbatim>\<open>is_default\<close> flag is set is exactly the one
  \<^verbatim>\<open>default_strategy\<close> points to, which is an entry of the list.
\<close>
theorem strategy_registry_invariant:
  assumes "strat_reach st"
  shows "\<exists>xs. strat_entries st xs \<and>
           distinct (filter (\<lambda>n. \<not> DEFSTRATNAME n) (map (\<lambda>x. s_name (the_strat (snd x))) xs)) \<and>
           (\<forall>x\<in>set xs. s_is_default (the_strat (snd x)) \<longleftrightarrow> dico_get_default_strategy st = Some (fst x)) \<and>
           (\<forall>p. dico_get_default_strategy st = Some p \<longrightarrow> p \<in> fst ` set xs)"
  using strat_reach_ok [OF assms]
  by (auto simp: strat_ok_def strat_default_ok_def strat_names_ok_def dico_get_default_strategy_def)

definition strat_empty :: "nat \<Rightarrow> 'f strat_state" where
  "strat_empty n = \<lparr>st_mem = mem0 n, st_list = None, st_default = None\<rparr>"

definition strat_exact :: "'f strategy" where
  "strat_exact = \<lparr>s_name = str ''exact'', s_descr = [], s_sel = None, s_closure = 0,
                  s_is_default = False, s_stratcl = None\<rparr>"

lemma strat_empty_ok: "strat_ok (strat_empty n) []"
  by (simp add: strat_ok_def strat_entries_def strat_default_ok_def strat_names_ok_def strat_empty_def
      mem_wf_def mem0_def)

theorem strategy_registry_invariant_witness:
  "\<exists>st' xs. dico_strategy_add (strat_empty 3) (strat_exact :: nat strategy) = Some (0, st') \<and> strat_entries st' xs"
proof -
  have r: "strat_reach (strat_empty 3 :: nat strat_state)"
    unfolding strat_empty_def by (rule strat_reach.empty) (simp add: mem0_def)
  obtain st' where st': "dico_strategy_add (strat_empty 3) (strat_exact :: nat strategy) = Some (0, st')"
    using dico_strategy_add_cases [OF strat_empty_ok [of 3], of strat_exact]
    by (auto simp: strat_empty_def mem0_def)
  from strategy_registry_invariant [OF strat_reach.add [OF r st']] st' show ?thesis by blast
qed

text \<open>
  With memory for three allocations, adding a strategy succeeds, and afterwards its name
  is found; when the name was not registered before, the entry found carries the name, the
  description, the selector and the closure that were given, and is not the default.
\<close>
theorem strategy_add_then_find:
  assumes "strat_ok st xs" and "avail (st_mem st) \<ge> 3" and "\<not> DEFSTRATNAME (s_name s)"
    and "dico_strategy_find st (s_name s) = Some None"
  shows "\<exists>st' p e. dico_strategy_add st s = Some (0, st') \<and>
           dico_strategy_find st' (s_name s) = Some (Some p) \<and> cells (st_mem st') p = Some e \<and>
           e_data e = Strat (s\<lparr>s_is_default := False, s_stratcl := None\<rparr>) \<and>
           dico_strategy_count st' = Suc (dico_strategy_count st)"
proof -
  let ?P = "\<lambda>x. s_name (strat_at x) = s_name s" and ?np = "Strat (s\<lparr>s_is_default := False, s_stratcl := None\<rparr>)"
  have no: "find ?P xs = None"
    using assms dico_strategy_find_ok [of st xs "s_name s"] by (simp add: strat_ok_def)
  obtain st' xs' where r: "dico_strategy_add st s = Some (0, st')" "strat_ok st' xs'"
    "xs' = xs \<or> (\<exists>a. xs' = xs @ [(a, ?np)])" "find ?P xs' \<noteq> None"
    using dico_strategy_add_cases [OF assms(1), of s] assms(2,3) by blast
  then obtain a where a: "xs' = xs @ [(a, ?np)]" using no by auto
  have fd: "find ?P (xs @ [(a, ?np)]) = Some (a, ?np)" using no by (induction xs) (auto split: if_splits)
  have E: "strat_entries st' xs'" using r(2) by (simp add: strat_ok_def)
  have fi: "dico_strategy_find st' (s_name s) = Some (Some a)"
    using dico_strategy_find_ok [OF E, of "s_name s"] assms(3) a fd by simp
  have cnt: "dico_strategy_count st = length xs" "dico_strategy_count st' = length xs'"
    using assms(1) r(2) by (auto simp: strat_ok_def strat_entries_def dico_strategy_count_def dico_list_count_def
        dll_def split: option.splits)
  obtain l where "dll (st_mem st') l xs'"
    using E a by (auto simp: strat_entries_def split: option.splits)
  from nseg_node [of "cells (st_mem st')" xs' None "(a, ?np)"] dll_chain [OF this] a
  obtain e where "cells (st_mem st') a = Some e" "e_data e = ?np" by (auto simp: chain_def)
  with r(1) fi cnt a show ?thesis by auto
qed

theorem strategy_add_then_find_witness:
  "\<exists>st' p e. dico_strategy_add (strat_empty 3) (strat_exact :: nat strategy) = Some (0, st') \<and>
     dico_strategy_find st' (str ''exact'') = Some (Some p) \<and> cells (st_mem st') p = Some e \<and>
     e_data e = Strat strat_exact"
  using strategy_add_then_find [OF strat_empty_ok [of 3], of "strat_exact :: nat strategy"]
  by (fastforce simp: strat_exact_def strat_empty_def mem0_def DEFSTRATNAME_def dico_strategy_find_def)

subsection \<open>Markup names\<close>

definition markup_ok :: "markup_state \<Rightarrow> bytes list \<Rightarrow> bool" where
  "markup_ok st vs \<longleftrightarrow>
     (case mk_list st of None \<Rightarrow> vs = [] \<and> mem_wf (mk_mem st)
      | Some l \<Rightarrow> list_repr cmp_markup_name (mk_mem st, l) vs)"

lemma markup_lookup_ok: "markup_ok st vs \<Longrightarrow> dico_markup_lookup st k = Some (find (\<lambda>v. markup_matches v k) vs)"
  using markup_store.get_find [of "(mk_mem st, the (mk_list st))" vs k]
  by (auto simp: markup_ok_def dico_markup_lookup_def list_get_def dico_list_locate_def split: option.splits)

lemma list_repr_avail: "list_repr c (m, l) vs \<Longrightarrow> list_repr c (m\<lparr>avail := n\<rparr>, l) vs"
  using dll_same_cells [of m l _ "m\<lparr>avail := n\<rparr>"] by (fastforce simp: list_repr_def)

lemma markup_list_init:
  assumes "markup_ok st vs" and "avail (mk_mem st) > 0"
  shows "\<exists>m l. (case mk_list st of
             Some l \<Rightarrow> Some (mk_mem st, l)
           | None \<Rightarrow> map_option (\<lambda>(m, l). (m, l\<lparr>l_comp := Some cmp_markup_name\<rparr>))
                       (dico_list_create (mk_mem st))) = Some (m, l) \<and>
           list_repr cmp_markup_name (m, l) vs \<and> avail m \<ge> avail (mk_mem st) - 1"
  using assms
  by (cases "mk_list st")
    (auto simp: markup_ok_def dico_list_create_def mem_take_def list_repr_def dll_def mem_wf_def empty_list_def)

text \<open>
  registering a valid markup name succeeds when memory is available; afterwards
  looking the name up gives the name that was registered first under this spelling up to the
  case of ASCII letters, and what other names are found does not change.
\<close>
theorem markup_register_then_lookup:
  assumes "markup_ok st vs" and "avail (mk_mem st) \<ge> 3" and "dico_markup_valid_name_p name"
  shows "\<exists>st' vs'. dico_markup_register st name = Some (None, st') \<and> markup_ok st' vs' \<and>
           (\<forall>k. dico_markup_lookup st' k =
              (if markup_matches name k \<and> dico_markup_lookup st k = Some None then Some (Some name)
               else dico_markup_lookup st k))"
proof -
  obtain m l where i: "(case mk_list st of Some l \<Rightarrow> Some (mk_mem st, l)
      | None \<Rightarrow> map_option (\<lambda>(m, l). (m, l\<lparr>l_comp := Some cmp_markup_name\<rparr>)) (dico_list_create (mk_mem st))) =
      Some (m, l)" "list_repr cmp_markup_name (m, l) vs" "avail m \<ge> avail (mk_mem st) - 1"
    using markup_list_init [OF assms(1)] assms(2) by auto
  let ?st1 = "\<lparr>mk_mem = m, mk_list = Some l\<rparr>" and ?m2 = "m\<lparr>avail := avail m - 1\<rparr>"
  have ok1: "markup_ok ?st1 vs" using i(2) by (simp add: markup_ok_def)
  note lk = markup_lookup_ok [OF assms(1)] and lk1 = markup_lookup_ok [OF ok1]
  show ?thesis
  proof (cases "find (\<lambda>v. markup_matches v name) vs")
    case (Some v)
    have "find (\<lambda>v. markup_matches v k) vs \<noteq> None" if "markup_matches name k" for k
    proof -
      have "(\<lambda>v. markup_matches v k) = (\<lambda>v. markup_matches v name)"
        using that by (auto simp: markup_matches_def)
      with Some show ?thesis by simp
    qed
    with Some i(1) ok1 lk lk1 assms(3) show ?thesis
      by (intro exI [of _ ?st1] exI [of _ vs]) (auto simp: dico_markup_register_def)
  next
    case None
    have r2: "list_repr cmp_markup_name (?m2, l) vs" using i(2) by (rule list_repr_avail)
    have room: "list_room (?m2, l) > 0" using i(3) assms(2) by (simp add: list_room_def)
    from heap_list.put_ok [OF r2 room, of name] obtain m3 l3 where
      p: "list_put (?m2, l) name = Some (Inr (m3, l3))" "list_repr cmp_markup_name (m3, l3) (vs @ [name])"
      by auto
    have ok3: "markup_ok \<lparr>mk_mem = m3, mk_list = Some l3\<rparr> (vs @ [name])" using p(2) by (simp add: markup_ok_def)
    have f: "find (\<lambda>v. markup_matches v k) (vs @ [name]) =
        (case find (\<lambda>v. markup_matches v k) vs of Some v \<Rightarrow> Some v
         | None \<Rightarrow> if markup_matches name k then Some name else None)" for k
      by (induction vs) auto
    have run: "dico_markup_register st name = Some (None, \<lparr>mk_mem = m3, mk_list = Some l3\<rparr>)"
      using i assms(2,3) None lk1 p(1)
      by (auto simp: dico_markup_register_def mem_take_def list_put_def)
    have "dico_markup_lookup \<lparr>mk_mem = m3, mk_list = Some l3\<rparr> k =
        (if markup_matches name k \<and> dico_markup_lookup st k = Some None then Some (Some name)
         else dico_markup_lookup st k)" for k
      unfolding markup_lookup_ok [OF ok3] f lk by (auto split: option.splits)
    with run ok3 show ?thesis by blast
  qed
qed

theorem markup_register_then_lookup_witness:
  "\<exists>st'. dico_markup_register \<lparr>mk_mem = mem0 3, mk_list = None\<rparr> (str ''Html'') = Some (None, st') \<and>
     dico_markup_lookup st' (str ''hTML'') = Some (Some (str ''Html''))"
proof -
  have ok: "markup_ok \<lparr>mk_mem = mem0 3, mk_list = None\<rparr> []"
    by (simp add: markup_ok_def mem_wf_def mem0_def)
  have v: "dico_markup_valid_name_p (str ''Html'')" by (simp add: c_islower_def c_isupper_def)
  have m: "markup_matches (str ''Html'') (str ''hTML'')"
    by (simp add: markup_matches_def c_tolower_def c_isupper_def)
  have n: "dico_markup_lookup \<lparr>mk_mem = mem0 3, mk_list = None\<rparr> (str ''hTML'') = Some None"
    using markup_lookup_ok [OF ok] by simp
  have a: "avail (mk_mem \<lparr>mk_mem = mem0 3, mk_list = None\<rparr>) \<ge> 3" by (simp add: mem0_def)
  from markup_register_then_lookup [OF ok a v] m n show ?thesis by metis
qed

subsection \<open>The protocol of selectors\<close>

text \<open>A key in use: initialisation, some matches, deinitialisation.\<close>

fun key_matches :: "('f, 'd, 's) selector \<Rightarrow> ('f, 'd) dico_key \<Rightarrow> bytes list \<Rightarrow> 's \<Rightarrow>
    (('f, 'd) dico_key \<times> 's) option" where
  "key_matches run key [] s = Some (key, s)"
| "key_matches run key (w # ws) s = do {
     r \<leftarrow> dico_key_match run (Some key) (Some w) s;
     (case r of Inr (_, Some key', s') \<Rightarrow> key_matches run key' ws s' | _ \<Rightarrow> key_matches run key ws s) }"

definition key_session :: "('f, 'd, 's) selector \<Rightarrow> 'f strategy \<Rightarrow> bytes \<Rightarrow> bytes list \<Rightarrow> 's \<Rightarrow>
    (('f, 'd) dico_key \<times> 's) option" where
  "key_session run strat word ws s = do {
     let (rc, key, s1) = dico_key_init run strat word s;
     (key', s2) \<leftarrow> key_matches run key ws s1;
     dico_key_deinit run key' s2 }"

text \<open>A selector that writes down how it is called and otherwise behaves like \<open>sel\<close>.\<close>

definition traced :: "('f \<Rightarrow> select_op \<Rightarrow> ('f, 'd) dico_key \<Rightarrow> bytes option \<Rightarrow> int \<times> 'd option) \<Rightarrow>
    ('f, 'd, (select_op \<times> bytes option) list) selector" where
  "traced sel f op key w s =
     (case sel f op key w of (r, d) \<Rightarrow> (r, key\<lparr>k_call_data := d\<rparr>, s @ [(op, w)]))"

lemma key_matches_traced:
  "k_init key \<Longrightarrow> k_strat key = Some strat \<Longrightarrow> s_sel strat = Some f \<Longrightarrow>
   \<exists>key'. key_matches (traced sel) key ws s = Some (key', s @ map (\<lambda>w. (DICO_SELECT_RUN, Some w)) ws) \<and>
          k_init key' \<and> k_strat key' = Some strat"
proof (induction ws arbitrary: key s)
  case Nil
  then show ?case by simp
next
  case (Cons w ws)
  obtain r d where rd: "sel f DICO_SELECT_RUN key (Some w) = (r, d)" by fastforce
  with Cons.prems Cons.IH [of "key\<lparr>k_call_data := d\<rparr>" "s @ [(DICO_SELECT_RUN, Some w)]"] show ?case
    by (auto simp: dico_key_match_def traced_def)
qed

lemma key_matches_uninit: "\<not> k_init key \<Longrightarrow> key_matches run key ws s = Some (key, s)"
  by (induction ws) (auto simp: dico_key_match_def)

text \<open>
  C21: whatever the selector of a strategy returns, it is called in the order BEGIN, one RUN
  for each word matched, END; when BEGIN fails, neither RUN nor END is called. Matching
  needs a selector but initialisation and deinitialisation do not, and the key is all zero
  afterwards.
\<close>
theorem key_session_protocol:
  assumes "s_sel strat = Some f"
  shows "key_session (traced sel) strat word ws [] =
     Some (zero_key, (DICO_SELECT_BEGIN, Some word) #
       (if fst (sel f DICO_SELECT_BEGIN (zero_key\<lparr>k_word := Some word, k_strat := Some strat\<rparr>) (Some word)) = 0
        then map (\<lambda>w. (DICO_SELECT_RUN, Some w)) ws @ [(DICO_SELECT_END, None)] else []))"
proof -
  let ?k = "zero_key\<lparr>k_word := Some word, k_strat := Some strat\<rparr>"
  obtain r d where rd: "sel f DICO_SELECT_BEGIN ?k (Some word) = (r, d)" by fastforce
  show ?thesis
  proof (cases "r = 0")
    case True
    let ?k1 = "?k\<lparr>k_call_data := d, k_init := True\<rparr>"
    obtain k2 where "key_matches (traced sel) ?k1 ws [(DICO_SELECT_BEGIN, Some word)] =
        Some (k2, [(DICO_SELECT_BEGIN, Some word)] @ map (\<lambda>w. (DICO_SELECT_RUN, Some w)) ws)"
      "k_init k2" "k_strat k2 = Some strat"
      using key_matches_traced [of ?k1 strat f sel ws "[(DICO_SELECT_BEGIN, Some word)]"] assms by auto
    with True rd assms show ?thesis
      by (simp add: key_session_def dico_key_init_def traced_def dico_key_deinit_def split: prod.splits)
  next
    case False
    with rd assms show ?thesis
      by (simp add: key_session_def dico_key_init_def traced_def key_matches_uninit dico_key_deinit_def zero_key_def)
  qed
qed

theorem key_session_protocol_witness:
  "key_session (traced (\<lambda>f op key w. (0, None :: nat option))) (strat_exact\<lparr>s_sel := Some ()\<rparr>) [1] [[2]] [] =
     Some (zero_key, [(DICO_SELECT_BEGIN, Some [1]), (DICO_SELECT_RUN, Some [2]), (DICO_SELECT_END, None)])"
  using key_session_protocol [of "strat_exact\<lparr>s_sel := Some ()\<rparr>" "()" "\<lambda>f op key w. (0, None :: nat option)" "[1]" "[[2]]"]
  by simp

end
