(* ===== verification/Dico_Utf8_Tables.thy ===== *)
theory Dico_Utf8_Tables
  imports Dico_Prelude
begin

text \<open>
  The character tables of \<^verbatim>\<open>lib/utf8.c\<close>: for each code point of eleven blocks of 256
  code points, its upper case, its lower case and its sort key, and the array
  \<^verbatim>\<open>uni_plane\<close> that finds the block of a code point (NULL where the block has no case).
  The entries are in the order of the source.
\<close>

datatype unicase_info = U (uc_toupper: int) (uc_tolower: int) (uc_sort: int)

definition plane00 :: "unicase_info list" where
  "plane00 =
    [U 0x0000 0x0000 0x0000, U 0x0001 0x0001 0x0001, U 0x0002 0x0002 0x0002, U 0x0003 0x0003 0x0003,
     U 0x0004 0x0004 0x0004, U 0x0005 0x0005 0x0005, U 0x0006 0x0006 0x0006, U 0x0007 0x0007 0x0007,
     U 0x0008 0x0008 0x0008, U 0x0009 0x0009 0x0009, U 0x000A 0x000A 0x000A, U 0x000B 0x000B 0x000B,
     U 0x000C 0x000C 0x000C, U 0x000D 0x000D 0x000D, U 0x000E 0x000E 0x000E, U 0x000F 0x000F 0x000F,
     U 0x0010 0x0010 0x0010, U 0x0011 0x0011 0x0011, U 0x0012 0x0012 0x0012, U 0x0013 0x0013 0x0013,
     U 0x0014 0x0014 0x0014, U 0x0015 0x0015 0x0015, U 0x0016 0x0016 0x0016, U 0x0017 0x0017 0x0017,
     U 0x0018 0x0018 0x0018, U 0x0019 0x0019 0x0019, U 0x001A 0x001A 0x001A, U 0x001B 0x001B 0x001B,
     U 0x001C 0x001C 0x001C, U 0x001D 0x001D 0x001D, U 0x001E 0x001E 0x001E, U 0x001F 0x001F 0x001F,
     U 0x0020 0x0020 0x0020, U 0x0021 0x0021 0x0021, U 0x0022 0x0022 0x0022, U 0x0023 0x0023 0x0023,
     U 0x0024 0x0024 0x0024, U 0x0025 0x0025 0x0025, U 0x0026 0x0026 0x0026, U 0x0027 0x0027 0x0027,
     U 0x0028 0x0028 0x0028, U 0x0029 0x0029 0x0029, U 0x002A 0x002A 0x002A, U 0x002B 0x002B 0x002B,
     U 0x002C 0x002C 0x002C, U 0x002D 0x002D 0x002D, U 0x002E 0x002E 0x002E, U 0x002F 0x002F 0x002F,
     U 0x0030 0x0030 0x0030, U 0x0031 0x0031 0x0031, U 0x0032 0x0032 0x0032, U 0x0033 0x0033 0x0033,
     U 0x0034 0x0034 0x0034, U 0x0035 0x0035 0x0035, U 0x0036 0x0036 0x0036, U 0x0037 0x0037 0x0037,
     U 0x0038 0x0038 0x0038, U 0x0039 0x0039 0x0039, U 0x003A 0x003A 0x003A, U 0x003B 0x003B 0x003B,
     U 0x003C 0x003C 0x003C, U 0x003D 0x003D 0x003D, U 0x003E 0x003E 0x003E, U 0x003F 0x003F 0x003F,
     U 0x0040 0x0040 0x0040, U 0x0041 0x0061 0x0041, U 0x0042 0x0062 0x0042, U 0x0043 0x0063 0x0043,
     U 0x0044 0x0064 0x0044, U 0x0045 0x0065 0x0045, U 0x0046 0x0066 0x0046, U 0x0047 0x0067 0x0047,
     U 0x0048 0x0068 0x0048, U 0x0049 0x0069 0x0049, U 0x004A 0x006A 0x004A, U 0x004B 0x006B 0x004B,
     U 0x004C 0x006C 0x004C, U 0x004D 0x006D 0x004D, U 0x004E 0x006E 0x004E, U 0x004F 0x006F 0x004F,
     U 0x0050 0x0070 0x0050, U 0x0051 0x0071 0x0051, U 0x0052 0x0072 0x0052, U 0x0053 0x0073 0x0053,
     U 0x0054 0x0074 0x0054, U 0x0055 0x0075 0x0055, U 0x0056 0x0076 0x0056, U 0x0057 0x0077 0x0057,
     U 0x0058 0x0078 0x0058, U 0x0059 0x0079 0x0059, U 0x005A 0x007A 0x005A, U 0x005B 0x005B 0x005B,
     U 0x005C 0x005C 0x005C, U 0x005D 0x005D 0x005D, U 0x005E 0x005E 0x005E, U 0x005F 0x005F 0x005F,
     U 0x0060 0x0060 0x0060, U 0x0041 0x0061 0x0041, U 0x0042 0x0062 0x0042, U 0x0043 0x0063 0x0043,
     U 0x0044 0x0064 0x0044, U 0x0045 0x0065 0x0045, U 0x0046 0x0066 0x0046, U 0x0047 0x0067 0x0047,
     U 0x0048 0x0068 0x0048, U 0x0049 0x0069 0x0049, U 0x004A 0x006A 0x004A, U 0x004B 0x006B 0x004B,
     U 0x004C 0x006C 0x004C, U 0x004D 0x006D 0x004D, U 0x004E 0x006E 0x004E, U 0x004F 0x006F 0x004F,
     U 0x0050 0x0070 0x0050, U 0x0051 0x0071 0x0051, U 0x0052 0x0072 0x0052, U 0x0053 0x0073 0x0053,
     U 0x0054 0x0074 0x0054, U 0x0055 0x0075 0x0055, U 0x0056 0x0076 0x0056, U 0x0057 0x0077 0x0057,
     U 0x0058 0x0078 0x0058, U 0x0059 0x0079 0x0059, U 0x005A 0x007A 0x005A, U 0x007B 0x007B 0x007B,
     U 0x007C 0x007C 0x007C, U 0x007D 0x007D 0x007D, U 0x007E 0x007E 0x007E, U 0x007F 0x007F 0x007F,
     U 0x0080 0x0080 0x0080, U 0x0081 0x0081 0x0081, U 0x0082 0x0082 0x0082, U 0x0083 0x0083 0x0083,
     U 0x0084 0x0084 0x0084, U 0x0085 0x0085 0x0085, U 0x0086 0x0086 0x0086, U 0x0087 0x0087 0x0087,
     U 0x0088 0x0088 0x0088, U 0x0089 0x0089 0x0089, U 0x008A 0x008A 0x008A, U 0x008B 0x008B 0x008B,
     U 0x008C 0x008C 0x008C, U 0x008D 0x008D 0x008D, U 0x008E 0x008E 0x008E, U 0x008F 0x008F 0x008F,
     U 0x0090 0x0090 0x0090, U 0x0091 0x0091 0x0091, U 0x0092 0x0092 0x0092, U 0x0093 0x0093 0x0093,
     U 0x0094 0x0094 0x0094, U 0x0095 0x0095 0x0095, U 0x0096 0x0096 0x0096, U 0x0097 0x0097 0x0097,
     U 0x0098 0x0098 0x0098, U 0x0099 0x0099 0x0099, U 0x009A 0x009A 0x009A, U 0x009B 0x009B 0x009B,
     U 0x009C 0x009C 0x009C, U 0x009D 0x009D 0x009D, U 0x009E 0x009E 0x009E, U 0x009F 0x009F 0x009F,
     U 0x00A0 0x00A0 0x00A0, U 0x00A1 0x00A1 0x00A1, U 0x00A2 0x00A2 0x00A2, U 0x00A3 0x00A3 0x00A3,
     U 0x00A4 0x00A4 0x00A4, U 0x00A5 0x00A5 0x00A5, U 0x00A6 0x00A6 0x00A6, U 0x00A7 0x00A7 0x00A7,
     U 0x00A8 0x00A8 0x00A8, U 0x00A9 0x00A9 0x00A9, U 0x00AA 0x00AA 0x00AA, U 0x00AB 0x00AB 0x00AB,
     U 0x00AC 0x00AC 0x00AC, U 0x00AD 0x00AD 0x00AD, U 0x00AE 0x00AE 0x00AE, U 0x00AF 0x00AF 0x00AF,
     U 0x00B0 0x00B0 0x00B0, U 0x00B1 0x00B1 0x00B1, U 0x00B2 0x00B2 0x00B2, U 0x00B3 0x00B3 0x00B3,
     U 0x00B4 0x00B4 0x00B4, U 0x039C 0x00B5 0x039C, U 0x00B6 0x00B6 0x00B6, U 0x00B7 0x00B7 0x00B7,
     U 0x00B8 0x00B8 0x00B8, U 0x00B9 0x00B9 0x00B9, U 0x00BA 0x00BA 0x00BA, U 0x00BB 0x00BB 0x00BB,
     U 0x00BC 0x00BC 0x00BC, U 0x00BD 0x00BD 0x00BD, U 0x00BE 0x00BE 0x00BE, U 0x00BF 0x00BF 0x00BF,
     U 0x00C0 0x00E0 0x0041, U 0x00C1 0x00E1 0x0041, U 0x00C2 0x00E2 0x0041, U 0x00C3 0x00E3 0x0041,
     U 0x00C4 0x00E4 0x0041, U 0x00C5 0x00E5 0x0041, U 0x00C6 0x00E6 0x00C6, U 0x00C7 0x00E7 0x0043,
     U 0x00C8 0x00E8 0x0045, U 0x00C9 0x00E9 0x0045, U 0x00CA 0x00EA 0x0045, U 0x00CB 0x00EB 0x0045,
     U 0x00CC 0x00EC 0x0049, U 0x00CD 0x00ED 0x0049, U 0x00CE 0x00EE 0x0049, U 0x00CF 0x00EF 0x0049,
     U 0x00D0 0x00F0 0x00D0, U 0x00D1 0x00F1 0x004E, U 0x00D2 0x00F2 0x004F, U 0x00D3 0x00F3 0x004F,
     U 0x00D4 0x00F4 0x004F, U 0x00D5 0x00F5 0x004F, U 0x00D6 0x00F6 0x004F, U 0x00D7 0x00D7 0x00D7,
     U 0x00D8 0x00F8 0x00D8, U 0x00D9 0x00F9 0x0055, U 0x00DA 0x00FA 0x0055, U 0x00DB 0x00FB 0x0055,
     U 0x00DC 0x00FC 0x0055, U 0x00DD 0x00FD 0x0059, U 0x00DE 0x00FE 0x00DE, U 0x00DF 0x00DF 0x00DF,
     U 0x00C0 0x00E0 0x0041, U 0x00C1 0x00E1 0x0041, U 0x00C2 0x00E2 0x0041, U 0x00C3 0x00E3 0x0041,
     U 0x00C4 0x00E4 0x0041, U 0x00C5 0x00E5 0x0041, U 0x00C6 0x00E6 0x00C6, U 0x00C7 0x00E7 0x0043,
     U 0x00C8 0x00E8 0x0045, U 0x00C9 0x00E9 0x0045, U 0x00CA 0x00EA 0x0045, U 0x00CB 0x00EB 0x0045,
     U 0x00CC 0x00EC 0x0049, U 0x00CD 0x00ED 0x0049, U 0x00CE 0x00EE 0x0049, U 0x00CF 0x00EF 0x0049,
     U 0x00D0 0x00F0 0x00D0, U 0x00D1 0x00F1 0x004E, U 0x00D2 0x00F2 0x004F, U 0x00D3 0x00F3 0x004F,
     U 0x00D4 0x00F4 0x004F, U 0x00D5 0x00F5 0x004F, U 0x00D6 0x00F6 0x004F, U 0x00F7 0x00F7 0x00F7,
     U 0x00D8 0x00F8 0x00D8, U 0x00D9 0x00F9 0x0055, U 0x00DA 0x00FA 0x0055, U 0x00DB 0x00FB 0x0055,
     U 0x00DC 0x00FC 0x0055, U 0x00DD 0x00FD 0x0059, U 0x00DE 0x00FE 0x00DE, U 0x0178 0x00FF 0x0059]"

definition plane01 :: "unicase_info list" where
  "plane01 =
    [U 0x0100 0x0101 0x0041, U 0x0100 0x0101 0x0041, U 0x0102 0x0103 0x0041, U 0x0102 0x0103 0x0041,
     U 0x0104 0x0105 0x0041, U 0x0104 0x0105 0x0041, U 0x0106 0x0107 0x0043, U 0x0106 0x0107 0x0043,
     U 0x0108 0x0109 0x0043, U 0x0108 0x0109 0x0043, U 0x010A 0x010B 0x0043, U 0x010A 0x010B 0x0043,
     U 0x010C 0x010D 0x0043, U 0x010C 0x010D 0x0043, U 0x010E 0x010F 0x0044, U 0x010E 0x010F 0x0044,
     U 0x0110 0x0111 0x0110, U 0x0110 0x0111 0x0110, U 0x0112 0x0113 0x0045, U 0x0112 0x0113 0x0045,
     U 0x0114 0x0115 0x0045, U 0x0114 0x0115 0x0045, U 0x0116 0x0117 0x0045, U 0x0116 0x0117 0x0045,
     U 0x0118 0x0119 0x0045, U 0x0118 0x0119 0x0045, U 0x011A 0x011B 0x0045, U 0x011A 0x011B 0x0045,
     U 0x011C 0x011D 0x0047, U 0x011C 0x011D 0x0047, U 0x011E 0x011F 0x0047, U 0x011E 0x011F 0x0047,
     U 0x0120 0x0121 0x0047, U 0x0120 0x0121 0x0047, U 0x0122 0x0123 0x0047, U 0x0122 0x0123 0x0047,
     U 0x0124 0x0125 0x0048, U 0x0124 0x0125 0x0048, U 0x0126 0x0127 0x0126, U 0x0126 0x0127 0x0126,
     U 0x0128 0x0129 0x0049, U 0x0128 0x0129 0x0049, U 0x012A 0x012B 0x0049, U 0x012A 0x012B 0x0049,
     U 0x012C 0x012D 0x0049, U 0x012C 0x012D 0x0049, U 0x012E 0x012F 0x0049, U 0x012E 0x012F 0x0049,
     U 0x0130 0x0069 0x0049, U 0x0049 0x0131 0x0049, U 0x0132 0x0133 0x0132, U 0x0132 0x0133 0x0132,
     U 0x0134 0x0135 0x004A, U 0x0134 0x0135 0x004A, U 0x0136 0x0137 0x004B, U 0x0136 0x0137 0x004B,
     U 0x0138 0x0138 0x0138, U 0x0139 0x013A 0x004C, U 0x0139 0x013A 0x004C, U 0x013B 0x013C 0x004C,
     U 0x013B 0x013C 0x004C, U 0x013D 0x013E 0x004C, U 0x013D 0x013E 0x004C, U 0x013F 0x0140 0x013F,
     U 0x013F 0x0140 0x013F, U 0x0141 0x0142 0x0141, U 0x0141 0x0142 0x0141, U 0x0143 0x0144 0x004E,
     U 0x0143 0x0144 0x004E, U 0x0145 0x0146 0x004E, U 0x0145 0x0146 0x004E, U 0x0147 0x0148 0x004E,
     U 0x0147 0x0148 0x004E, U 0x0149 0x0149 0x0149, U 0x014A 0x014B 0x014A, U 0x014A 0x014B 0x014A,
     U 0x014C 0x014D 0x004F, U 0x014C 0x014D 0x004F, U 0x014E 0x014F 0x004F, U 0x014E 0x014F 0x004F,
     U 0x0150 0x0151 0x004F, U 0x0150 0x0151 0x004F, U 0x0152 0x0153 0x0152, U 0x0152 0x0153 0x0152,
     U 0x0154 0x0155 0x0052, U 0x0154 0x0155 0x0052, U 0x0156 0x0157 0x0052, U 0x0156 0x0157 0x0052,
     U 0x0158 0x0159 0x0052, U 0x0158 0x0159 0x0052, U 0x015A 0x015B 0x0053, U 0x015A 0x015B 0x0053,
     U 0x015C 0x015D 0x0053, U 0x015C 0x015D 0x0053, U 0x015E 0x015F 0x0053, U 0x015E 0x015F 0x0053,
     U 0x0160 0x0161 0x0053, U 0x0160 0x0161 0x0053, U 0x0162 0x0163 0x0054, U 0x0162 0x0163 0x0054,
     U 0x0164 0x0165 0x0054, U 0x0164 0x0165 0x0054, U 0x0166 0x0167 0x0166, U 0x0166 0x0167 0x0166,
     U 0x0168 0x0169 0x0055, U 0x0168 0x0169 0x0055, U 0x016A 0x016B 0x0055, U 0x016A 0x016B 0x0055,
     U 0x016C 0x016D 0x0055, U 0x016C 0x016D 0x0055, U 0x016E 0x016F 0x0055, U 0x016E 0x016F 0x0055,
     U 0x0170 0x0171 0x0055, U 0x0170 0x0171 0x0055, U 0x0172 0x0173 0x0055, U 0x0172 0x0173 0x0055,
     U 0x0174 0x0175 0x0057, U 0x0174 0x0175 0x0057, U 0x0176 0x0177 0x0059, U 0x0176 0x0177 0x0059,
     U 0x0178 0x00FF 0x0059, U 0x0179 0x017A 0x005A, U 0x0179 0x017A 0x005A, U 0x017B 0x017C 0x005A,
     U 0x017B 0x017C 0x005A, U 0x017D 0x017E 0x005A, U 0x017D 0x017E 0x005A, U 0x0053 0x017F 0x0053,
     U 0x0180 0x0180 0x0180, U 0x0181 0x0253 0x0181, U 0x0182 0x0183 0x0182, U 0x0182 0x0183 0x0182,
     U 0x0184 0x0185 0x0184, U 0x0184 0x0185 0x0184, U 0x0186 0x0254 0x0186, U 0x0187 0x0188 0x0187,
     U 0x0187 0x0188 0x0187, U 0x0189 0x0256 0x0189, U 0x018A 0x0257 0x018A, U 0x018B 0x018C 0x018B,
     U 0x018B 0x018C 0x018B, U 0x018D 0x018D 0x018D, U 0x018E 0x01DD 0x018E, U 0x018F 0x0259 0x018F,
     U 0x0190 0x025B 0x0190, U 0x0191 0x0192 0x0191, U 0x0191 0x0192 0x0191, U 0x0193 0x0260 0x0193,
     U 0x0194 0x0263 0x0194, U 0x01F6 0x0195 0x01F6, U 0x0196 0x0269 0x0196, U 0x0197 0x0268 0x0197,
     U 0x0198 0x0199 0x0198, U 0x0198 0x0199 0x0198, U 0x019A 0x019A 0x019A, U 0x019B 0x019B 0x019B,
     U 0x019C 0x026F 0x019C, U 0x019D 0x0272 0x019D, U 0x019E 0x019E 0x019E, U 0x019F 0x0275 0x019F,
     U 0x01A0 0x01A1 0x004F, U 0x01A0 0x01A1 0x004F, U 0x01A2 0x01A3 0x01A2, U 0x01A2 0x01A3 0x01A2,
     U 0x01A4 0x01A5 0x01A4, U 0x01A4 0x01A5 0x01A4, U 0x01A6 0x0280 0x01A6, U 0x01A7 0x01A8 0x01A7,
     U 0x01A7 0x01A8 0x01A7, U 0x01A9 0x0283 0x01A9, U 0x01AA 0x01AA 0x01AA, U 0x01AB 0x01AB 0x01AB,
     U 0x01AC 0x01AD 0x01AC, U 0x01AC 0x01AD 0x01AC, U 0x01AE 0x0288 0x01AE, U 0x01AF 0x01B0 0x0055,
     U 0x01AF 0x01B0 0x0055, U 0x01B1 0x028A 0x01B1, U 0x01B2 0x028B 0x01B2, U 0x01B3 0x01B4 0x01B3,
     U 0x01B3 0x01B4 0x01B3, U 0x01B5 0x01B6 0x01B5, U 0x01B5 0x01B6 0x01B5, U 0x01B7 0x0292 0x01B7,
     U 0x01B8 0x01B9 0x01B8, U 0x01B8 0x01B9 0x01B8, U 0x01BA 0x01BA 0x01BA, U 0x01BB 0x01BB 0x01BB,
     U 0x01BC 0x01BD 0x01BC, U 0x01BC 0x01BD 0x01BC, U 0x01BE 0x01BE 0x01BE, U 0x01F7 0x01BF 0x01F7,
     U 0x01C0 0x01C0 0x01C0, U 0x01C1 0x01C1 0x01C1, U 0x01C2 0x01C2 0x01C2, U 0x01C3 0x01C3 0x01C3,
     U 0x01C4 0x01C6 0x01C4, U 0x01C4 0x01C6 0x01C4, U 0x01C4 0x01C6 0x01C4, U 0x01C7 0x01C9 0x01C7,
     U 0x01C7 0x01C9 0x01C7, U 0x01C7 0x01C9 0x01C7, U 0x01CA 0x01CC 0x01CA, U 0x01CA 0x01CC 0x01CA,
     U 0x01CA 0x01CC 0x01CA, U 0x01CD 0x01CE 0x0041, U 0x01CD 0x01CE 0x0041, U 0x01CF 0x01D0 0x0049,
     U 0x01CF 0x01D0 0x0049, U 0x01D1 0x01D2 0x004F, U 0x01D1 0x01D2 0x004F, U 0x01D3 0x01D4 0x0055,
     U 0x01D3 0x01D4 0x0055, U 0x01D5 0x01D6 0x0055, U 0x01D5 0x01D6 0x0055, U 0x01D7 0x01D8 0x0055,
     U 0x01D7 0x01D8 0x0055, U 0x01D9 0x01DA 0x0055, U 0x01D9 0x01DA 0x0055, U 0x01DB 0x01DC 0x0055,
     U 0x01DB 0x01DC 0x0055, U 0x018E 0x01DD 0x018E, U 0x01DE 0x01DF 0x0041, U 0x01DE 0x01DF 0x0041,
     U 0x01E0 0x01E1 0x0041, U 0x01E0 0x01E1 0x0041, U 0x01E2 0x01E3 0x00C6, U 0x01E2 0x01E3 0x00C6,
     U 0x01E4 0x01E5 0x01E4, U 0x01E4 0x01E5 0x01E4, U 0x01E6 0x01E7 0x0047, U 0x01E6 0x01E7 0x0047,
     U 0x01E8 0x01E9 0x004B, U 0x01E8 0x01E9 0x004B, U 0x01EA 0x01EB 0x004F, U 0x01EA 0x01EB 0x004F,
     U 0x01EC 0x01ED 0x004F, U 0x01EC 0x01ED 0x004F, U 0x01EE 0x01EF 0x01B7, U 0x01EE 0x01EF 0x01B7,
     U 0x01F0 0x01F0 0x004A, U 0x01F1 0x01F3 0x01F1, U 0x01F1 0x01F3 0x01F1, U 0x01F1 0x01F3 0x01F1,
     U 0x01F4 0x01F5 0x0047, U 0x01F4 0x01F5 0x0047, U 0x01F6 0x0195 0x01F6, U 0x01F7 0x01BF 0x01F7,
     U 0x01F8 0x01F9 0x004E, U 0x01F8 0x01F9 0x004E, U 0x01FA 0x01FB 0x0041, U 0x01FA 0x01FB 0x0041,
     U 0x01FC 0x01FD 0x00C6, U 0x01FC 0x01FD 0x00C6, U 0x01FE 0x01FF 0x00D8, U 0x01FE 0x01FF 0x00D8]"

definition plane02 :: "unicase_info list" where
  "plane02 =
    [U 0x0200 0x0201 0x0041, U 0x0200 0x0201 0x0041, U 0x0202 0x0203 0x0041, U 0x0202 0x0203 0x0041,
     U 0x0204 0x0205 0x0045, U 0x0204 0x0205 0x0045, U 0x0206 0x0207 0x0045, U 0x0206 0x0207 0x0045,
     U 0x0208 0x0209 0x0049, U 0x0208 0x0209 0x0049, U 0x020A 0x020B 0x0049, U 0x020A 0x020B 0x0049,
     U 0x020C 0x020D 0x004F, U 0x020C 0x020D 0x004F, U 0x020E 0x020F 0x004F, U 0x020E 0x020F 0x004F,
     U 0x0210 0x0211 0x0052, U 0x0210 0x0211 0x0052, U 0x0212 0x0213 0x0052, U 0x0212 0x0213 0x0052,
     U 0x0214 0x0215 0x0055, U 0x0214 0x0215 0x0055, U 0x0216 0x0217 0x0055, U 0x0216 0x0217 0x0055,
     U 0x0218 0x0219 0x0053, U 0x0218 0x0219 0x0053, U 0x021A 0x021B 0x0054, U 0x021A 0x021B 0x0054,
     U 0x021C 0x021D 0x021C, U 0x021C 0x021D 0x021C, U 0x021E 0x021F 0x0048, U 0x021E 0x021F 0x0048,
     U 0x0220 0x0220 0x0220, U 0x0221 0x0221 0x0221, U 0x0222 0x0223 0x0222, U 0x0222 0x0223 0x0222,
     U 0x0224 0x0225 0x0224, U 0x0224 0x0225 0x0224, U 0x0226 0x0227 0x0041, U 0x0226 0x0227 0x0041,
     U 0x0228 0x0229 0x0045, U 0x0228 0x0229 0x0045, U 0x022A 0x022B 0x004F, U 0x022A 0x022B 0x004F,
     U 0x022C 0x022D 0x004F, U 0x022C 0x022D 0x004F, U 0x022E 0x022F 0x004F, U 0x022E 0x022F 0x004F,
     U 0x0230 0x0231 0x004F, U 0x0230 0x0231 0x004F, U 0x0232 0x0233 0x0059, U 0x0232 0x0233 0x0059,
     U 0x0234 0x0234 0x0234, U 0x0235 0x0235 0x0235, U 0x0236 0x0236 0x0236, U 0x0237 0x0237 0x0237,
     U 0x0238 0x0238 0x0238, U 0x0239 0x0239 0x0239, U 0x023A 0x023A 0x023A, U 0x023B 0x023B 0x023B,
     U 0x023C 0x023C 0x023C, U 0x023D 0x023D 0x023D, U 0x023E 0x023E 0x023E, U 0x023F 0x023F 0x023F,
     U 0x0240 0x0240 0x0240, U 0x0241 0x0241 0x0241, U 0x0242 0x0242 0x0242, U 0x0243 0x0243 0x0243,
     U 0x0244 0x0244 0x0244, U 0x0245 0x0245 0x0245, U 0x0246 0x0246 0x0246, U 0x0247 0x0247 0x0247,
     U 0x0248 0x0248 0x0248, U 0x0249 0x0249 0x0249, U 0x024A 0x024A 0x024A, U 0x024B 0x024B 0x024B,
     U 0x024C 0x024C 0x024C, U 0x024D 0x024D 0x024D, U 0x024E 0x024E 0x024E, U 0x024F 0x024F 0x024F,
     U 0x0250 0x0250 0x0250, U 0x0251 0x0251 0x0251, U 0x0252 0x0252 0x0252, U 0x0181 0x0253 0x0181,
     U 0x0186 0x0254 0x0186, U 0x0255 0x0255 0x0255, U 0x0189 0x0256 0x0189, U 0x018A 0x0257 0x018A,
     U 0x0258 0x0258 0x0258, U 0x018F 0x0259 0x018F, U 0x025A 0x025A 0x025A, U 0x0190 0x025B 0x0190,
     U 0x025C 0x025C 0x025C, U 0x025D 0x025D 0x025D, U 0x025E 0x025E 0x025E, U 0x025F 0x025F 0x025F,
     U 0x0193 0x0260 0x0193, U 0x0261 0x0261 0x0261, U 0x0262 0x0262 0x0262, U 0x0194 0x0263 0x0194,
     U 0x0264 0x0264 0x0264, U 0x0265 0x0265 0x0265, U 0x0266 0x0266 0x0266, U 0x0267 0x0267 0x0267,
     U 0x0197 0x0268 0x0197, U 0x0196 0x0269 0x0196, U 0x026A 0x026A 0x026A, U 0x026B 0x026B 0x026B,
     U 0x026C 0x026C 0x026C, U 0x026D 0x026D 0x026D, U 0x026E 0x026E 0x026E, U 0x019C 0x026F 0x019C,
     U 0x0270 0x0270 0x0270, U 0x0271 0x0271 0x0271, U 0x019D 0x0272 0x019D, U 0x0273 0x0273 0x0273,
     U 0x0274 0x0274 0x0274, U 0x019F 0x0275 0x019F, U 0x0276 0x0276 0x0276, U 0x0277 0x0277 0x0277,
     U 0x0278 0x0278 0x0278, U 0x0279 0x0279 0x0279, U 0x027A 0x027A 0x027A, U 0x027B 0x027B 0x027B,
     U 0x027C 0x027C 0x027C, U 0x027D 0x027D 0x027D, U 0x027E 0x027E 0x027E, U 0x027F 0x027F 0x027F,
     U 0x01A6 0x0280 0x01A6, U 0x0281 0x0281 0x0281, U 0x0282 0x0282 0x0282, U 0x01A9 0x0283 0x01A9,
     U 0x0284 0x0284 0x0284, U 0x0285 0x0285 0x0285, U 0x0286 0x0286 0x0286, U 0x0287 0x0287 0x0287,
     U 0x01AE 0x0288 0x01AE, U 0x0289 0x0289 0x0289, U 0x01B1 0x028A 0x01B1, U 0x01B2 0x028B 0x01B2,
     U 0x028C 0x028C 0x028C, U 0x028D 0x028D 0x028D, U 0x028E 0x028E 0x028E, U 0x028F 0x028F 0x028F,
     U 0x0290 0x0290 0x0290, U 0x0291 0x0291 0x0291, U 0x01B7 0x0292 0x01B7, U 0x0293 0x0293 0x0293,
     U 0x0294 0x0294 0x0294, U 0x0295 0x0295 0x0295, U 0x0296 0x0296 0x0296, U 0x0297 0x0297 0x0297,
     U 0x0298 0x0298 0x0298, U 0x0299 0x0299 0x0299, U 0x029A 0x029A 0x029A, U 0x029B 0x029B 0x029B,
     U 0x029C 0x029C 0x029C, U 0x029D 0x029D 0x029D, U 0x029E 0x029E 0x029E, U 0x029F 0x029F 0x029F,
     U 0x02A0 0x02A0 0x02A0, U 0x02A1 0x02A1 0x02A1, U 0x02A2 0x02A2 0x02A2, U 0x02A3 0x02A3 0x02A3,
     U 0x02A4 0x02A4 0x02A4, U 0x02A5 0x02A5 0x02A5, U 0x02A6 0x02A6 0x02A6, U 0x02A7 0x02A7 0x02A7,
     U 0x02A8 0x02A8 0x02A8, U 0x02A9 0x02A9 0x02A9, U 0x02AA 0x02AA 0x02AA, U 0x02AB 0x02AB 0x02AB,
     U 0x02AC 0x02AC 0x02AC, U 0x02AD 0x02AD 0x02AD, U 0x02AE 0x02AE 0x02AE, U 0x02AF 0x02AF 0x02AF,
     U 0x02B0 0x02B0 0x02B0, U 0x02B1 0x02B1 0x02B1, U 0x02B2 0x02B2 0x02B2, U 0x02B3 0x02B3 0x02B3,
     U 0x02B4 0x02B4 0x02B4, U 0x02B5 0x02B5 0x02B5, U 0x02B6 0x02B6 0x02B6, U 0x02B7 0x02B7 0x02B7,
     U 0x02B8 0x02B8 0x02B8, U 0x02B9 0x02B9 0x02B9, U 0x02BA 0x02BA 0x02BA, U 0x02BB 0x02BB 0x02BB,
     U 0x02BC 0x02BC 0x02BC, U 0x02BD 0x02BD 0x02BD, U 0x02BE 0x02BE 0x02BE, U 0x02BF 0x02BF 0x02BF,
     U 0x02C0 0x02C0 0x02C0, U 0x02C1 0x02C1 0x02C1, U 0x02C2 0x02C2 0x02C2, U 0x02C3 0x02C3 0x02C3,
     U 0x02C4 0x02C4 0x02C4, U 0x02C5 0x02C5 0x02C5, U 0x02C6 0x02C6 0x02C6, U 0x02C7 0x02C7 0x02C7,
     U 0x02C8 0x02C8 0x02C8, U 0x02C9 0x02C9 0x02C9, U 0x02CA 0x02CA 0x02CA, U 0x02CB 0x02CB 0x02CB,
     U 0x02CC 0x02CC 0x02CC, U 0x02CD 0x02CD 0x02CD, U 0x02CE 0x02CE 0x02CE, U 0x02CF 0x02CF 0x02CF,
     U 0x02D0 0x02D0 0x02D0, U 0x02D1 0x02D1 0x02D1, U 0x02D2 0x02D2 0x02D2, U 0x02D3 0x02D3 0x02D3,
     U 0x02D4 0x02D4 0x02D4, U 0x02D5 0x02D5 0x02D5, U 0x02D6 0x02D6 0x02D6, U 0x02D7 0x02D7 0x02D7,
     U 0x02D8 0x02D8 0x02D8, U 0x02D9 0x02D9 0x02D9, U 0x02DA 0x02DA 0x02DA, U 0x02DB 0x02DB 0x02DB,
     U 0x02DC 0x02DC 0x02DC, U 0x02DD 0x02DD 0x02DD, U 0x02DE 0x02DE 0x02DE, U 0x02DF 0x02DF 0x02DF,
     U 0x02E0 0x02E0 0x02E0, U 0x02E1 0x02E1 0x02E1, U 0x02E2 0x02E2 0x02E2, U 0x02E3 0x02E3 0x02E3,
     U 0x02E4 0x02E4 0x02E4, U 0x02E5 0x02E5 0x02E5, U 0x02E6 0x02E6 0x02E6, U 0x02E7 0x02E7 0x02E7,
     U 0x02E8 0x02E8 0x02E8, U 0x02E9 0x02E9 0x02E9, U 0x02EA 0x02EA 0x02EA, U 0x02EB 0x02EB 0x02EB,
     U 0x02EC 0x02EC 0x02EC, U 0x02ED 0x02ED 0x02ED, U 0x02EE 0x02EE 0x02EE, U 0x02EF 0x02EF 0x02EF,
     U 0x02F0 0x02F0 0x02F0, U 0x02F1 0x02F1 0x02F1, U 0x02F2 0x02F2 0x02F2, U 0x02F3 0x02F3 0x02F3,
     U 0x02F4 0x02F4 0x02F4, U 0x02F5 0x02F5 0x02F5, U 0x02F6 0x02F6 0x02F6, U 0x02F7 0x02F7 0x02F7,
     U 0x02F8 0x02F8 0x02F8, U 0x02F9 0x02F9 0x02F9, U 0x02FA 0x02FA 0x02FA, U 0x02FB 0x02FB 0x02FB,
     U 0x02FC 0x02FC 0x02FC, U 0x02FD 0x02FD 0x02FD, U 0x02FE 0x02FE 0x02FE, U 0x02FF 0x02FF 0x02FF]"

definition plane03 :: "unicase_info list" where
  "plane03 =
    [U 0x0300 0x0300 0x0300, U 0x0301 0x0301 0x0301, U 0x0302 0x0302 0x0302, U 0x0303 0x0303 0x0303,
     U 0x0304 0x0304 0x0304, U 0x0305 0x0305 0x0305, U 0x0306 0x0306 0x0306, U 0x0307 0x0307 0x0307,
     U 0x0308 0x0308 0x0308, U 0x0309 0x0309 0x0309, U 0x030A 0x030A 0x030A, U 0x030B 0x030B 0x030B,
     U 0x030C 0x030C 0x030C, U 0x030D 0x030D 0x030D, U 0x030E 0x030E 0x030E, U 0x030F 0x030F 0x030F,
     U 0x0310 0x0310 0x0310, U 0x0311 0x0311 0x0311, U 0x0312 0x0312 0x0312, U 0x0313 0x0313 0x0313,
     U 0x0314 0x0314 0x0314, U 0x0315 0x0315 0x0315, U 0x0316 0x0316 0x0316, U 0x0317 0x0317 0x0317,
     U 0x0318 0x0318 0x0318, U 0x0319 0x0319 0x0319, U 0x031A 0x031A 0x031A, U 0x031B 0x031B 0x031B,
     U 0x031C 0x031C 0x031C, U 0x031D 0x031D 0x031D, U 0x031E 0x031E 0x031E, U 0x031F 0x031F 0x031F,
     U 0x0320 0x0320 0x0320, U 0x0321 0x0321 0x0321, U 0x0322 0x0322 0x0322, U 0x0323 0x0323 0x0323,
     U 0x0324 0x0324 0x0324, U 0x0325 0x0325 0x0325, U 0x0326 0x0326 0x0326, U 0x0327 0x0327 0x0327,
     U 0x0328 0x0328 0x0328, U 0x0329 0x0329 0x0329, U 0x032A 0x032A 0x032A, U 0x032B 0x032B 0x032B,
     U 0x032C 0x032C 0x032C, U 0x032D 0x032D 0x032D, U 0x032E 0x032E 0x032E, U 0x032F 0x032F 0x032F,
     U 0x0330 0x0330 0x0330, U 0x0331 0x0331 0x0331, U 0x0332 0x0332 0x0332, U 0x0333 0x0333 0x0333,
     U 0x0334 0x0334 0x0334, U 0x0335 0x0335 0x0335, U 0x0336 0x0336 0x0336, U 0x0337 0x0337 0x0337,
     U 0x0338 0x0338 0x0338, U 0x0339 0x0339 0x0339, U 0x033A 0x033A 0x033A, U 0x033B 0x033B 0x033B,
     U 0x033C 0x033C 0x033C, U 0x033D 0x033D 0x033D, U 0x033E 0x033E 0x033E, U 0x033F 0x033F 0x033F,
     U 0x0340 0x0340 0x0340, U 0x0341 0x0341 0x0341, U 0x0342 0x0342 0x0342, U 0x0343 0x0343 0x0343,
     U 0x0344 0x0344 0x0344, U 0x0399 0x0345 0x0399, U 0x0346 0x0346 0x0346, U 0x0347 0x0347 0x0347,
     U 0x0348 0x0348 0x0348, U 0x0349 0x0349 0x0349, U 0x034A 0x034A 0x034A, U 0x034B 0x034B 0x034B,
     U 0x034C 0x034C 0x034C, U 0x034D 0x034D 0x034D, U 0x034E 0x034E 0x034E, U 0x034F 0x034F 0x034F,
     U 0x0350 0x0350 0x0350, U 0x0351 0x0351 0x0351, U 0x0352 0x0352 0x0352, U 0x0353 0x0353 0x0353,
     U 0x0354 0x0354 0x0354, U 0x0355 0x0355 0x0355, U 0x0356 0x0356 0x0356, U 0x0357 0x0357 0x0357,
     U 0x0358 0x0358 0x0358, U 0x0359 0x0359 0x0359, U 0x035A 0x035A 0x035A, U 0x035B 0x035B 0x035B,
     U 0x035C 0x035C 0x035C, U 0x035D 0x035D 0x035D, U 0x035E 0x035E 0x035E, U 0x035F 0x035F 0x035F,
     U 0x0360 0x0360 0x0360, U 0x0361 0x0361 0x0361, U 0x0362 0x0362 0x0362, U 0x0363 0x0363 0x0363,
     U 0x0364 0x0364 0x0364, U 0x0365 0x0365 0x0365, U 0x0366 0x0366 0x0366, U 0x0367 0x0367 0x0367,
     U 0x0368 0x0368 0x0368, U 0x0369 0x0369 0x0369, U 0x036A 0x036A 0x036A, U 0x036B 0x036B 0x036B,
     U 0x036C 0x036C 0x036C, U 0x036D 0x036D 0x036D, U 0x036E 0x036E 0x036E, U 0x036F 0x036F 0x036F,
     U 0x0370 0x0370 0x0370, U 0x0371 0x0371 0x0371, U 0x0372 0x0372 0x0372, U 0x0373 0x0373 0x0373,
     U 0x0374 0x0374 0x0374, U 0x0375 0x0375 0x0375, U 0x0376 0x0376 0x0376, U 0x0377 0x0377 0x0377,
     U 0x0378 0x0378 0x0378, U 0x0379 0x0379 0x0379, U 0x037A 0x037A 0x037A, U 0x037B 0x037B 0x037B,
     U 0x037C 0x037C 0x037C, U 0x037D 0x037D 0x037D, U 0x037E 0x037E 0x037E, U 0x037F 0x037F 0x037F,
     U 0x0380 0x0380 0x0380, U 0x0381 0x0381 0x0381, U 0x0382 0x0382 0x0382, U 0x0383 0x0383 0x0383,
     U 0x0384 0x0384 0x0384, U 0x0385 0x0385 0x0385, U 0x0386 0x03AC 0x0391, U 0x0387 0x0387 0x0387,
     U 0x0388 0x03AD 0x0395, U 0x0389 0x03AE 0x0397, U 0x038A 0x03AF 0x0399, U 0x038B 0x038B 0x038B,
     U 0x038C 0x03CC 0x039F, U 0x038D 0x038D 0x038D, U 0x038E 0x03CD 0x03A5, U 0x038F 0x03CE 0x03A9,
     U 0x0390 0x0390 0x0399, U 0x0391 0x03B1 0x0391, U 0x0392 0x03B2 0x0392, U 0x0393 0x03B3 0x0393,
     U 0x0394 0x03B4 0x0394, U 0x0395 0x03B5 0x0395, U 0x0396 0x03B6 0x0396, U 0x0397 0x03B7 0x0397,
     U 0x0398 0x03B8 0x0398, U 0x0399 0x03B9 0x0399, U 0x039A 0x03BA 0x039A, U 0x039B 0x03BB 0x039B,
     U 0x039C 0x03BC 0x039C, U 0x039D 0x03BD 0x039D, U 0x039E 0x03BE 0x039E, U 0x039F 0x03BF 0x039F,
     U 0x03A0 0x03C0 0x03A0, U 0x03A1 0x03C1 0x03A1, U 0x03A2 0x03A2 0x03A2, U 0x03A3 0x03C3 0x03A3,
     U 0x03A4 0x03C4 0x03A4, U 0x03A5 0x03C5 0x03A5, U 0x03A6 0x03C6 0x03A6, U 0x03A7 0x03C7 0x03A7,
     U 0x03A8 0x03C8 0x03A8, U 0x03A9 0x03C9 0x03A9, U 0x03AA 0x03CA 0x0399, U 0x03AB 0x03CB 0x03A5,
     U 0x0386 0x03AC 0x0391, U 0x0388 0x03AD 0x0395, U 0x0389 0x03AE 0x0397, U 0x038A 0x03AF 0x0399,
     U 0x03B0 0x03B0 0x03A5, U 0x0391 0x03B1 0x0391, U 0x0392 0x03B2 0x0392, U 0x0393 0x03B3 0x0393,
     U 0x0394 0x03B4 0x0394, U 0x0395 0x03B5 0x0395, U 0x0396 0x03B6 0x0396, U 0x0397 0x03B7 0x0397,
     U 0x0398 0x03B8 0x0398, U 0x0399 0x03B9 0x0399, U 0x039A 0x03BA 0x039A, U 0x039B 0x03BB 0x039B,
     U 0x039C 0x03BC 0x039C, U 0x039D 0x03BD 0x039D, U 0x039E 0x03BE 0x039E, U 0x039F 0x03BF 0x039F,
     U 0x03A0 0x03C0 0x03A0, U 0x03A1 0x03C1 0x03A1, U 0x03A3 0x03C2 0x03A3, U 0x03A3 0x03C3 0x03A3,
     U 0x03A4 0x03C4 0x03A4, U 0x03A5 0x03C5 0x03A5, U 0x03A6 0x03C6 0x03A6, U 0x03A7 0x03C7 0x03A7,
     U 0x03A8 0x03C8 0x03A8, U 0x03A9 0x03C9 0x03A9, U 0x03AA 0x03CA 0x0399, U 0x03AB 0x03CB 0x03A5,
     U 0x038C 0x03CC 0x039F, U 0x038E 0x03CD 0x03A5, U 0x038F 0x03CE 0x03A9, U 0x03CF 0x03CF 0x03CF,
     U 0x0392 0x03D0 0x0392, U 0x0398 0x03D1 0x0398, U 0x03D2 0x03D2 0x03D2, U 0x03D3 0x03D3 0x03D2,
     U 0x03D4 0x03D4 0x03D2, U 0x03A6 0x03D5 0x03A6, U 0x03A0 0x03D6 0x03A0, U 0x03D7 0x03D7 0x03D7,
     U 0x03D8 0x03D8 0x03D8, U 0x03D9 0x03D9 0x03D9, U 0x03DA 0x03DB 0x03DA, U 0x03DA 0x03DB 0x03DA,
     U 0x03DC 0x03DD 0x03DC, U 0x03DC 0x03DD 0x03DC, U 0x03DE 0x03DF 0x03DE, U 0x03DE 0x03DF 0x03DE,
     U 0x03E0 0x03E1 0x03E0, U 0x03E0 0x03E1 0x03E0, U 0x03E2 0x03E3 0x03E2, U 0x03E2 0x03E3 0x03E2,
     U 0x03E4 0x03E5 0x03E4, U 0x03E4 0x03E5 0x03E4, U 0x03E6 0x03E7 0x03E6, U 0x03E6 0x03E7 0x03E6,
     U 0x03E8 0x03E9 0x03E8, U 0x03E8 0x03E9 0x03E8, U 0x03EA 0x03EB 0x03EA, U 0x03EA 0x03EB 0x03EA,
     U 0x03EC 0x03ED 0x03EC, U 0x03EC 0x03ED 0x03EC, U 0x03EE 0x03EF 0x03EE, U 0x03EE 0x03EF 0x03EE,
     U 0x039A 0x03F0 0x039A, U 0x03A1 0x03F1 0x03A1, U 0x03A3 0x03F2 0x03A3, U 0x03F3 0x03F3 0x03F3,
     U 0x03F4 0x03F4 0x03F4, U 0x03F5 0x03F5 0x03F5, U 0x03F6 0x03F6 0x03F6, U 0x03F7 0x03F7 0x03F7,
     U 0x03F8 0x03F8 0x03F8, U 0x03F9 0x03F9 0x03F9, U 0x03FA 0x03FA 0x03FA, U 0x03FB 0x03FB 0x03FB,
     U 0x03FC 0x03FC 0x03FC, U 0x03FD 0x03FD 0x03FD, U 0x03FE 0x03FE 0x03FE, U 0x03FF 0x03FF 0x03FF]"

definition plane04 :: "unicase_info list" where
  "plane04 =
    [U 0x0400 0x0450 0x0415, U 0x0401 0x0451 0x0415, U 0x0402 0x0452 0x0402, U 0x0403 0x0453 0x0413,
     U 0x0404 0x0454 0x0404, U 0x0405 0x0455 0x0405, U 0x0406 0x0456 0x0406, U 0x0407 0x0457 0x0406,
     U 0x0408 0x0458 0x0408, U 0x0409 0x0459 0x0409, U 0x040A 0x045A 0x040A, U 0x040B 0x045B 0x040B,
     U 0x040C 0x045C 0x041A, U 0x040D 0x045D 0x0418, U 0x040E 0x045E 0x0423, U 0x040F 0x045F 0x040F,
     U 0x0410 0x0430 0x0410, U 0x0411 0x0431 0x0411, U 0x0412 0x0432 0x0412, U 0x0413 0x0433 0x0413,
     U 0x0414 0x0434 0x0414, U 0x0415 0x0435 0x0415, U 0x0416 0x0436 0x0416, U 0x0417 0x0437 0x0417,
     U 0x0418 0x0438 0x0418, U 0x0419 0x0439 0x0418, U 0x041A 0x043A 0x041A, U 0x041B 0x043B 0x041B,
     U 0x041C 0x043C 0x041C, U 0x041D 0x043D 0x041D, U 0x041E 0x043E 0x041E, U 0x041F 0x043F 0x041F,
     U 0x0420 0x0440 0x0420, U 0x0421 0x0441 0x0421, U 0x0422 0x0442 0x0422, U 0x0423 0x0443 0x0423,
     U 0x0424 0x0444 0x0424, U 0x0425 0x0445 0x0425, U 0x0426 0x0446 0x0426, U 0x0427 0x0447 0x0427,
     U 0x0428 0x0448 0x0428, U 0x0429 0x0449 0x0429, U 0x042A 0x044A 0x042A, U 0x042B 0x044B 0x042B,
     U 0x042C 0x044C 0x042C, U 0x042D 0x044D 0x042D, U 0x042E 0x044E 0x042E, U 0x042F 0x044F 0x042F,
     U 0x0410 0x0430 0x0410, U 0x0411 0x0431 0x0411, U 0x0412 0x0432 0x0412, U 0x0413 0x0433 0x0413,
     U 0x0414 0x0434 0x0414, U 0x0415 0x0435 0x0415, U 0x0416 0x0436 0x0416, U 0x0417 0x0437 0x0417,
     U 0x0418 0x0438 0x0418, U 0x0419 0x0439 0x0418, U 0x041A 0x043A 0x041A, U 0x041B 0x043B 0x041B,
     U 0x041C 0x043C 0x041C, U 0x041D 0x043D 0x041D, U 0x041E 0x043E 0x041E, U 0x041F 0x043F 0x041F,
     U 0x0420 0x0440 0x0420, U 0x0421 0x0441 0x0421, U 0x0422 0x0442 0x0422, U 0x0423 0x0443 0x0423,
     U 0x0424 0x0444 0x0424, U 0x0425 0x0445 0x0425, U 0x0426 0x0446 0x0426, U 0x0427 0x0447 0x0427,
     U 0x0428 0x0448 0x0428, U 0x0429 0x0449 0x0429, U 0x042A 0x044A 0x042A, U 0x042B 0x044B 0x042B,
     U 0x042C 0x044C 0x042C, U 0x042D 0x044D 0x042D, U 0x042E 0x044E 0x042E, U 0x042F 0x044F 0x042F,
     U 0x0400 0x0450 0x0415, U 0x0401 0x0451 0x0415, U 0x0402 0x0452 0x0402, U 0x0403 0x0453 0x0413,
     U 0x0404 0x0454 0x0404, U 0x0405 0x0455 0x0405, U 0x0406 0x0456 0x0406, U 0x0407 0x0457 0x0406,
     U 0x0408 0x0458 0x0408, U 0x0409 0x0459 0x0409, U 0x040A 0x045A 0x040A, U 0x040B 0x045B 0x040B,
     U 0x040C 0x045C 0x041A, U 0x040D 0x045D 0x0418, U 0x040E 0x045E 0x0423, U 0x040F 0x045F 0x040F,
     U 0x0460 0x0461 0x0460, U 0x0460 0x0461 0x0460, U 0x0462 0x0463 0x0462, U 0x0462 0x0463 0x0462,
     U 0x0464 0x0465 0x0464, U 0x0464 0x0465 0x0464, U 0x0466 0x0467 0x0466, U 0x0466 0x0467 0x0466,
     U 0x0468 0x0469 0x0468, U 0x0468 0x0469 0x0468, U 0x046A 0x046B 0x046A, U 0x046A 0x046B 0x046A,
     U 0x046C 0x046D 0x046C, U 0x046C 0x046D 0x046C, U 0x046E 0x046F 0x046E, U 0x046E 0x046F 0x046E,
     U 0x0470 0x0471 0x0470, U 0x0470 0x0471 0x0470, U 0x0472 0x0473 0x0472, U 0x0472 0x0473 0x0472,
     U 0x0474 0x0475 0x0474, U 0x0474 0x0475 0x0474, U 0x0476 0x0477 0x0474, U 0x0476 0x0477 0x0474,
     U 0x0478 0x0479 0x0478, U 0x0478 0x0479 0x0478, U 0x047A 0x047B 0x047A, U 0x047A 0x047B 0x047A,
     U 0x047C 0x047D 0x047C, U 0x047C 0x047D 0x047C, U 0x047E 0x047F 0x047E, U 0x047E 0x047F 0x047E,
     U 0x0480 0x0481 0x0480, U 0x0480 0x0481 0x0480, U 0x0482 0x0482 0x0482, U 0x0483 0x0483 0x0483,
     U 0x0484 0x0484 0x0484, U 0x0485 0x0485 0x0485, U 0x0486 0x0486 0x0486, U 0x0487 0x0487 0x0487,
     U 0x0488 0x0488 0x0488, U 0x0489 0x0489 0x0489, U 0x048A 0x048A 0x048A, U 0x048B 0x048B 0x048B,
     U 0x048C 0x048D 0x048C, U 0x048C 0x048D 0x048C, U 0x048E 0x048F 0x048E, U 0x048E 0x048F 0x048E,
     U 0x0490 0x0491 0x0490, U 0x0490 0x0491 0x0490, U 0x0492 0x0493 0x0492, U 0x0492 0x0493 0x0492,
     U 0x0494 0x0495 0x0494, U 0x0494 0x0495 0x0494, U 0x0496 0x0497 0x0496, U 0x0496 0x0497 0x0496,
     U 0x0498 0x0499 0x0498, U 0x0498 0x0499 0x0498, U 0x049A 0x049B 0x049A, U 0x049A 0x049B 0x049A,
     U 0x049C 0x049D 0x049C, U 0x049C 0x049D 0x049C, U 0x049E 0x049F 0x049E, U 0x049E 0x049F 0x049E,
     U 0x04A0 0x04A1 0x04A0, U 0x04A0 0x04A1 0x04A0, U 0x04A2 0x04A3 0x04A2, U 0x04A2 0x04A3 0x04A2,
     U 0x04A4 0x04A5 0x04A4, U 0x04A4 0x04A5 0x04A4, U 0x04A6 0x04A7 0x04A6, U 0x04A6 0x04A7 0x04A6,
     U 0x04A8 0x04A9 0x04A8, U 0x04A8 0x04A9 0x04A8, U 0x04AA 0x04AB 0x04AA, U 0x04AA 0x04AB 0x04AA,
     U 0x04AC 0x04AD 0x04AC, U 0x04AC 0x04AD 0x04AC, U 0x04AE 0x04AF 0x04AE, U 0x04AE 0x04AF 0x04AE,
     U 0x04B0 0x04B1 0x04B0, U 0x04B0 0x04B1 0x04B0, U 0x04B2 0x04B3 0x04B2, U 0x04B2 0x04B3 0x04B2,
     U 0x04B4 0x04B5 0x04B4, U 0x04B4 0x04B5 0x04B4, U 0x04B6 0x04B7 0x04B6, U 0x04B6 0x04B7 0x04B6,
     U 0x04B8 0x04B9 0x04B8, U 0x04B8 0x04B9 0x04B8, U 0x04BA 0x04BB 0x04BA, U 0x04BA 0x04BB 0x04BA,
     U 0x04BC 0x04BD 0x04BC, U 0x04BC 0x04BD 0x04BC, U 0x04BE 0x04BF 0x04BE, U 0x04BE 0x04BF 0x04BE,
     U 0x04C0 0x04C0 0x04C0, U 0x04C1 0x04C2 0x0416, U 0x04C1 0x04C2 0x0416, U 0x04C3 0x04C4 0x04C3,
     U 0x04C3 0x04C4 0x04C3, U 0x04C5 0x04C5 0x04C5, U 0x04C6 0x04C6 0x04C6, U 0x04C7 0x04C8 0x04C7,
     U 0x04C7 0x04C8 0x04C7, U 0x04C9 0x04C9 0x04C9, U 0x04CA 0x04CA 0x04CA, U 0x04CB 0x04CC 0x04CB,
     U 0x04CB 0x04CC 0x04CB, U 0x04CD 0x04CD 0x04CD, U 0x04CE 0x04CE 0x04CE, U 0x04CF 0x04CF 0x04CF,
     U 0x04D0 0x04D1 0x0410, U 0x04D0 0x04D1 0x0410, U 0x04D2 0x04D3 0x0410, U 0x04D2 0x04D3 0x0410,
     U 0x04D4 0x04D5 0x04D4, U 0x04D4 0x04D5 0x04D4, U 0x04D6 0x04D7 0x0415, U 0x04D6 0x04D7 0x0415,
     U 0x04D8 0x04D9 0x04D8, U 0x04D8 0x04D9 0x04D8, U 0x04DA 0x04DB 0x04D8, U 0x04DA 0x04DB 0x04D8,
     U 0x04DC 0x04DD 0x0416, U 0x04DC 0x04DD 0x0416, U 0x04DE 0x04DF 0x0417, U 0x04DE 0x04DF 0x0417,
     U 0x04E0 0x04E1 0x04E0, U 0x04E0 0x04E1 0x04E0, U 0x04E2 0x04E3 0x0418, U 0x04E2 0x04E3 0x0418,
     U 0x04E4 0x04E5 0x0418, U 0x04E4 0x04E5 0x0418, U 0x04E6 0x04E7 0x041E, U 0x04E6 0x04E7 0x041E,
     U 0x04E8 0x04E9 0x04E8, U 0x04E8 0x04E9 0x04E8, U 0x04EA 0x04EB 0x04E8, U 0x04EA 0x04EB 0x04E8,
     U 0x04EC 0x04ED 0x042D, U 0x04EC 0x04ED 0x042D, U 0x04EE 0x04EF 0x0423, U 0x04EE 0x04EF 0x0423,
     U 0x04F0 0x04F1 0x0423, U 0x04F0 0x04F1 0x0423, U 0x04F2 0x04F3 0x0423, U 0x04F2 0x04F3 0x0423,
     U 0x04F4 0x04F5 0x0427, U 0x04F4 0x04F5 0x0427, U 0x04F6 0x04F6 0x04F6, U 0x04F7 0x04F7 0x04F7,
     U 0x04F8 0x04F9 0x042B, U 0x04F8 0x04F9 0x042B, U 0x04FA 0x04FA 0x04FA, U 0x04FB 0x04FB 0x04FB,
     U 0x04FC 0x04FC 0x04FC, U 0x04FD 0x04FD 0x04FD, U 0x04FE 0x04FE 0x04FE, U 0x04FF 0x04FF 0x04FF]"

definition plane05 :: "unicase_info list" where
  "plane05 =
    [U 0x0500 0x0500 0x0500, U 0x0501 0x0501 0x0501, U 0x0502 0x0502 0x0502, U 0x0503 0x0503 0x0503,
     U 0x0504 0x0504 0x0504, U 0x0505 0x0505 0x0505, U 0x0506 0x0506 0x0506, U 0x0507 0x0507 0x0507,
     U 0x0508 0x0508 0x0508, U 0x0509 0x0509 0x0509, U 0x050A 0x050A 0x050A, U 0x050B 0x050B 0x050B,
     U 0x050C 0x050C 0x050C, U 0x050D 0x050D 0x050D, U 0x050E 0x050E 0x050E, U 0x050F 0x050F 0x050F,
     U 0x0510 0x0510 0x0510, U 0x0511 0x0511 0x0511, U 0x0512 0x0512 0x0512, U 0x0513 0x0513 0x0513,
     U 0x0514 0x0514 0x0514, U 0x0515 0x0515 0x0515, U 0x0516 0x0516 0x0516, U 0x0517 0x0517 0x0517,
     U 0x0518 0x0518 0x0518, U 0x0519 0x0519 0x0519, U 0x051A 0x051A 0x051A, U 0x051B 0x051B 0x051B,
     U 0x051C 0x051C 0x051C, U 0x051D 0x051D 0x051D, U 0x051E 0x051E 0x051E, U 0x051F 0x051F 0x051F,
     U 0x0520 0x0520 0x0520, U 0x0521 0x0521 0x0521, U 0x0522 0x0522 0x0522, U 0x0523 0x0523 0x0523,
     U 0x0524 0x0524 0x0524, U 0x0525 0x0525 0x0525, U 0x0526 0x0526 0x0526, U 0x0527 0x0527 0x0527,
     U 0x0528 0x0528 0x0528, U 0x0529 0x0529 0x0529, U 0x052A 0x052A 0x052A, U 0x052B 0x052B 0x052B,
     U 0x052C 0x052C 0x052C, U 0x052D 0x052D 0x052D, U 0x052E 0x052E 0x052E, U 0x052F 0x052F 0x052F,
     U 0x0530 0x0530 0x0530, U 0x0531 0x0561 0x0531, U 0x0532 0x0562 0x0532, U 0x0533 0x0563 0x0533,
     U 0x0534 0x0564 0x0534, U 0x0535 0x0565 0x0535, U 0x0536 0x0566 0x0536, U 0x0537 0x0567 0x0537,
     U 0x0538 0x0568 0x0538, U 0x0539 0x0569 0x0539, U 0x053A 0x056A 0x053A, U 0x053B 0x056B 0x053B,
     U 0x053C 0x056C 0x053C, U 0x053D 0x056D 0x053D, U 0x053E 0x056E 0x053E, U 0x053F 0x056F 0x053F,
     U 0x0540 0x0570 0x0540, U 0x0541 0x0571 0x0541, U 0x0542 0x0572 0x0542, U 0x0543 0x0573 0x0543,
     U 0x0544 0x0574 0x0544, U 0x0545 0x0575 0x0545, U 0x0546 0x0576 0x0546, U 0x0547 0x0577 0x0547,
     U 0x0548 0x0578 0x0548, U 0x0549 0x0579 0x0549, U 0x054A 0x057A 0x054A, U 0x054B 0x057B 0x054B,
     U 0x054C 0x057C 0x054C, U 0x054D 0x057D 0x054D, U 0x054E 0x057E 0x054E, U 0x054F 0x057F 0x054F,
     U 0x0550 0x0580 0x0550, U 0x0551 0x0581 0x0551, U 0x0552 0x0582 0x0552, U 0x0553 0x0583 0x0553,
     U 0x0554 0x0584 0x0554, U 0x0555 0x0585 0x0555, U 0x0556 0x0586 0x0556, U 0x0557 0x0557 0x0557,
     U 0x0558 0x0558 0x0558, U 0x0559 0x0559 0x0559, U 0x055A 0x055A 0x055A, U 0x055B 0x055B 0x055B,
     U 0x055C 0x055C 0x055C, U 0x055D 0x055D 0x055D, U 0x055E 0x055E 0x055E, U 0x055F 0x055F 0x055F,
     U 0x0560 0x0560 0x0560, U 0x0531 0x0561 0x0531, U 0x0532 0x0562 0x0532, U 0x0533 0x0563 0x0533,
     U 0x0534 0x0564 0x0534, U 0x0535 0x0565 0x0535, U 0x0536 0x0566 0x0536, U 0x0537 0x0567 0x0537,
     U 0x0538 0x0568 0x0538, U 0x0539 0x0569 0x0539, U 0x053A 0x056A 0x053A, U 0x053B 0x056B 0x053B,
     U 0x053C 0x056C 0x053C, U 0x053D 0x056D 0x053D, U 0x053E 0x056E 0x053E, U 0x053F 0x056F 0x053F,
     U 0x0540 0x0570 0x0540, U 0x0541 0x0571 0x0541, U 0x0542 0x0572 0x0542, U 0x0543 0x0573 0x0543,
     U 0x0544 0x0574 0x0544, U 0x0545 0x0575 0x0545, U 0x0546 0x0576 0x0546, U 0x0547 0x0577 0x0547,
     U 0x0548 0x0578 0x0548, U 0x0549 0x0579 0x0549, U 0x054A 0x057A 0x054A, U 0x054B 0x057B 0x054B,
     U 0x054C 0x057C 0x054C, U 0x054D 0x057D 0x054D, U 0x054E 0x057E 0x054E, U 0x054F 0x057F 0x054F,
     U 0x0550 0x0580 0x0550, U 0x0551 0x0581 0x0551, U 0x0552 0x0582 0x0552, U 0x0553 0x0583 0x0553,
     U 0x0554 0x0584 0x0554, U 0x0555 0x0585 0x0555, U 0x0556 0x0586 0x0556, U 0x0587 0x0587 0x0587,
     U 0x0588 0x0588 0x0588, U 0x0589 0x0589 0x0589, U 0x058A 0x058A 0x058A, U 0x058B 0x058B 0x058B,
     U 0x058C 0x058C 0x058C, U 0x058D 0x058D 0x058D, U 0x058E 0x058E 0x058E, U 0x058F 0x058F 0x058F,
     U 0x0590 0x0590 0x0590, U 0x0591 0x0591 0x0591, U 0x0592 0x0592 0x0592, U 0x0593 0x0593 0x0593,
     U 0x0594 0x0594 0x0594, U 0x0595 0x0595 0x0595, U 0x0596 0x0596 0x0596, U 0x0597 0x0597 0x0597,
     U 0x0598 0x0598 0x0598, U 0x0599 0x0599 0x0599, U 0x059A 0x059A 0x059A, U 0x059B 0x059B 0x059B,
     U 0x059C 0x059C 0x059C, U 0x059D 0x059D 0x059D, U 0x059E 0x059E 0x059E, U 0x059F 0x059F 0x059F,
     U 0x05A0 0x05A0 0x05A0, U 0x05A1 0x05A1 0x05A1, U 0x05A2 0x05A2 0x05A2, U 0x05A3 0x05A3 0x05A3,
     U 0x05A4 0x05A4 0x05A4, U 0x05A5 0x05A5 0x05A5, U 0x05A6 0x05A6 0x05A6, U 0x05A7 0x05A7 0x05A7,
     U 0x05A8 0x05A8 0x05A8, U 0x05A9 0x05A9 0x05A9, U 0x05AA 0x05AA 0x05AA, U 0x05AB 0x05AB 0x05AB,
     U 0x05AC 0x05AC 0x05AC, U 0x05AD 0x05AD 0x05AD, U 0x05AE 0x05AE 0x05AE, U 0x05AF 0x05AF 0x05AF,
     U 0x05B0 0x05B0 0x05B0, U 0x05B1 0x05B1 0x05B1, U 0x05B2 0x05B2 0x05B2, U 0x05B3 0x05B3 0x05B3,
     U 0x05B4 0x05B4 0x05B4, U 0x05B5 0x05B5 0x05B5, U 0x05B6 0x05B6 0x05B6, U 0x05B7 0x05B7 0x05B7,
     U 0x05B8 0x05B8 0x05B8, U 0x05B9 0x05B9 0x05B9, U 0x05BA 0x05BA 0x05BA, U 0x05BB 0x05BB 0x05BB,
     U 0x05BC 0x05BC 0x05BC, U 0x05BD 0x05BD 0x05BD, U 0x05BE 0x05BE 0x05BE, U 0x05BF 0x05BF 0x05BF,
     U 0x05C0 0x05C0 0x05C0, U 0x05C1 0x05C1 0x05C1, U 0x05C2 0x05C2 0x05C2, U 0x05C3 0x05C3 0x05C3,
     U 0x05C4 0x05C4 0x05C4, U 0x05C5 0x05C5 0x05C5, U 0x05C6 0x05C6 0x05C6, U 0x05C7 0x05C7 0x05C7,
     U 0x05C8 0x05C8 0x05C8, U 0x05C9 0x05C9 0x05C9, U 0x05CA 0x05CA 0x05CA, U 0x05CB 0x05CB 0x05CB,
     U 0x05CC 0x05CC 0x05CC, U 0x05CD 0x05CD 0x05CD, U 0x05CE 0x05CE 0x05CE, U 0x05CF 0x05CF 0x05CF,
     U 0x05D0 0x05D0 0x05D0, U 0x05D1 0x05D1 0x05D1, U 0x05D2 0x05D2 0x05D2, U 0x05D3 0x05D3 0x05D3,
     U 0x05D4 0x05D4 0x05D4, U 0x05D5 0x05D5 0x05D5, U 0x05D6 0x05D6 0x05D6, U 0x05D7 0x05D7 0x05D7,
     U 0x05D8 0x05D8 0x05D8, U 0x05D9 0x05D9 0x05D9, U 0x05DA 0x05DA 0x05DA, U 0x05DB 0x05DB 0x05DB,
     U 0x05DC 0x05DC 0x05DC, U 0x05DD 0x05DD 0x05DD, U 0x05DE 0x05DE 0x05DE, U 0x05DF 0x05DF 0x05DF,
     U 0x05E0 0x05E0 0x05E0, U 0x05E1 0x05E1 0x05E1, U 0x05E2 0x05E2 0x05E2, U 0x05E3 0x05E3 0x05E3,
     U 0x05E4 0x05E4 0x05E4, U 0x05E5 0x05E5 0x05E5, U 0x05E6 0x05E6 0x05E6, U 0x05E7 0x05E7 0x05E7,
     U 0x05E8 0x05E8 0x05E8, U 0x05E9 0x05E9 0x05E9, U 0x05EA 0x05EA 0x05EA, U 0x05EB 0x05EB 0x05EB,
     U 0x05EC 0x05EC 0x05EC, U 0x05ED 0x05ED 0x05ED, U 0x05EE 0x05EE 0x05EE, U 0x05EF 0x05EF 0x05EF,
     U 0x05F0 0x05F0 0x05F0, U 0x05F1 0x05F1 0x05F1, U 0x05F2 0x05F2 0x05F2, U 0x05F3 0x05F3 0x05F3,
     U 0x05F4 0x05F4 0x05F4, U 0x05F5 0x05F5 0x05F5, U 0x05F6 0x05F6 0x05F6, U 0x05F7 0x05F7 0x05F7,
     U 0x05F8 0x05F8 0x05F8, U 0x05F9 0x05F9 0x05F9, U 0x05FA 0x05FA 0x05FA, U 0x05FB 0x05FB 0x05FB,
     U 0x05FC 0x05FC 0x05FC, U 0x05FD 0x05FD 0x05FD, U 0x05FE 0x05FE 0x05FE, U 0x05FF 0x05FF 0x05FF]"

definition plane1E :: "unicase_info list" where
  "plane1E =
    [U 0x1E00 0x1E01 0x0041, U 0x1E00 0x1E01 0x0041, U 0x1E02 0x1E03 0x0042, U 0x1E02 0x1E03 0x0042,
     U 0x1E04 0x1E05 0x0042, U 0x1E04 0x1E05 0x0042, U 0x1E06 0x1E07 0x0042, U 0x1E06 0x1E07 0x0042,
     U 0x1E08 0x1E09 0x0043, U 0x1E08 0x1E09 0x0043, U 0x1E0A 0x1E0B 0x0044, U 0x1E0A 0x1E0B 0x0044,
     U 0x1E0C 0x1E0D 0x0044, U 0x1E0C 0x1E0D 0x0044, U 0x1E0E 0x1E0F 0x0044, U 0x1E0E 0x1E0F 0x0044,
     U 0x1E10 0x1E11 0x0044, U 0x1E10 0x1E11 0x0044, U 0x1E12 0x1E13 0x0044, U 0x1E12 0x1E13 0x0044,
     U 0x1E14 0x1E15 0x0045, U 0x1E14 0x1E15 0x0045, U 0x1E16 0x1E17 0x0045, U 0x1E16 0x1E17 0x0045,
     U 0x1E18 0x1E19 0x0045, U 0x1E18 0x1E19 0x0045, U 0x1E1A 0x1E1B 0x0045, U 0x1E1A 0x1E1B 0x0045,
     U 0x1E1C 0x1E1D 0x0045, U 0x1E1C 0x1E1D 0x0045, U 0x1E1E 0x1E1F 0x0046, U 0x1E1E 0x1E1F 0x0046,
     U 0x1E20 0x1E21 0x0047, U 0x1E20 0x1E21 0x0047, U 0x1E22 0x1E23 0x0048, U 0x1E22 0x1E23 0x0048,
     U 0x1E24 0x1E25 0x0048, U 0x1E24 0x1E25 0x0048, U 0x1E26 0x1E27 0x0048, U 0x1E26 0x1E27 0x0048,
     U 0x1E28 0x1E29 0x0048, U 0x1E28 0x1E29 0x0048, U 0x1E2A 0x1E2B 0x0048, U 0x1E2A 0x1E2B 0x0048,
     U 0x1E2C 0x1E2D 0x0049, U 0x1E2C 0x1E2D 0x0049, U 0x1E2E 0x1E2F 0x0049, U 0x1E2E 0x1E2F 0x0049,
     U 0x1E30 0x1E31 0x004B, U 0x1E30 0x1E31 0x004B, U 0x1E32 0x1E33 0x004B, U 0x1E32 0x1E33 0x004B,
     U 0x1E34 0x1E35 0x004B, U 0x1E34 0x1E35 0x004B, U 0x1E36 0x1E37 0x004C, U 0x1E36 0x1E37 0x004C,
     U 0x1E38 0x1E39 0x004C, U 0x1E38 0x1E39 0x004C, U 0x1E3A 0x1E3B 0x004C, U 0x1E3A 0x1E3B 0x004C,
     U 0x1E3C 0x1E3D 0x004C, U 0x1E3C 0x1E3D 0x004C, U 0x1E3E 0x1E3F 0x004D, U 0x1E3E 0x1E3F 0x004D,
     U 0x1E40 0x1E41 0x004D, U 0x1E40 0x1E41 0x004D, U 0x1E42 0x1E43 0x004D, U 0x1E42 0x1E43 0x004D,
     U 0x1E44 0x1E45 0x004E, U 0x1E44 0x1E45 0x004E, U 0x1E46 0x1E47 0x004E, U 0x1E46 0x1E47 0x004E,
     U 0x1E48 0x1E49 0x004E, U 0x1E48 0x1E49 0x004E, U 0x1E4A 0x1E4B 0x004E, U 0x1E4A 0x1E4B 0x004E,
     U 0x1E4C 0x1E4D 0x004F, U 0x1E4C 0x1E4D 0x004F, U 0x1E4E 0x1E4F 0x004F, U 0x1E4E 0x1E4F 0x004F,
     U 0x1E50 0x1E51 0x004F, U 0x1E50 0x1E51 0x004F, U 0x1E52 0x1E53 0x004F, U 0x1E52 0x1E53 0x004F,
     U 0x1E54 0x1E55 0x0050, U 0x1E54 0x1E55 0x0050, U 0x1E56 0x1E57 0x0050, U 0x1E56 0x1E57 0x0050,
     U 0x1E58 0x1E59 0x0052, U 0x1E58 0x1E59 0x0052, U 0x1E5A 0x1E5B 0x0052, U 0x1E5A 0x1E5B 0x0052,
     U 0x1E5C 0x1E5D 0x0052, U 0x1E5C 0x1E5D 0x0052, U 0x1E5E 0x1E5F 0x0052, U 0x1E5E 0x1E5F 0x0052,
     U 0x1E60 0x1E61 0x0053, U 0x1E60 0x1E61 0x0053, U 0x1E62 0x1E63 0x0053, U 0x1E62 0x1E63 0x0053,
     U 0x1E64 0x1E65 0x0053, U 0x1E64 0x1E65 0x0053, U 0x1E66 0x1E67 0x0053, U 0x1E66 0x1E67 0x0053,
     U 0x1E68 0x1E69 0x0053, U 0x1E68 0x1E69 0x0053, U 0x1E6A 0x1E6B 0x0054, U 0x1E6A 0x1E6B 0x0054,
     U 0x1E6C 0x1E6D 0x0054, U 0x1E6C 0x1E6D 0x0054, U 0x1E6E 0x1E6F 0x0054, U 0x1E6E 0x1E6F 0x0054,
     U 0x1E70 0x1E71 0x0054, U 0x1E70 0x1E71 0x0054, U 0x1E72 0x1E73 0x0055, U 0x1E72 0x1E73 0x0055,
     U 0x1E74 0x1E75 0x0055, U 0x1E74 0x1E75 0x0055, U 0x1E76 0x1E77 0x0055, U 0x1E76 0x1E77 0x0055,
     U 0x1E78 0x1E79 0x0055, U 0x1E78 0x1E79 0x0055, U 0x1E7A 0x1E7B 0x0055, U 0x1E7A 0x1E7B 0x0055,
     U 0x1E7C 0x1E7D 0x0056, U 0x1E7C 0x1E7D 0x0056, U 0x1E7E 0x1E7F 0x0056, U 0x1E7E 0x1E7F 0x0056,
     U 0x1E80 0x1E81 0x0057, U 0x1E80 0x1E81 0x0057, U 0x1E82 0x1E83 0x0057, U 0x1E82 0x1E83 0x0057,
     U 0x1E84 0x1E85 0x0057, U 0x1E84 0x1E85 0x0057, U 0x1E86 0x1E87 0x0057, U 0x1E86 0x1E87 0x0057,
     U 0x1E88 0x1E89 0x0057, U 0x1E88 0x1E89 0x0057, U 0x1E8A 0x1E8B 0x0058, U 0x1E8A 0x1E8B 0x0058,
     U 0x1E8C 0x1E8D 0x0058, U 0x1E8C 0x1E8D 0x0058, U 0x1E8E 0x1E8F 0x0059, U 0x1E8E 0x1E8F 0x0059,
     U 0x1E90 0x1E91 0x005A, U 0x1E90 0x1E91 0x005A, U 0x1E92 0x1E93 0x005A, U 0x1E92 0x1E93 0x005A,
     U 0x1E94 0x1E95 0x005A, U 0x1E94 0x1E95 0x005A, U 0x1E96 0x1E96 0x0048, U 0x1E97 0x1E97 0x0054,
     U 0x1E98 0x1E98 0x0057, U 0x1E99 0x1E99 0x0059, U 0x1E9A 0x1E9A 0x1E9A, U 0x1E60 0x1E9B 0x0053,
     U 0x1E9C 0x1E9C 0x1E9C, U 0x1E9D 0x1E9D 0x1E9D, U 0x1E9E 0x1E9E 0x1E9E, U 0x1E9F 0x1E9F 0x1E9F,
     U 0x1EA0 0x1EA1 0x0041, U 0x1EA0 0x1EA1 0x0041, U 0x1EA2 0x1EA3 0x0041, U 0x1EA2 0x1EA3 0x0041,
     U 0x1EA4 0x1EA5 0x0041, U 0x1EA4 0x1EA5 0x0041, U 0x1EA6 0x1EA7 0x0041, U 0x1EA6 0x1EA7 0x0041,
     U 0x1EA8 0x1EA9 0x0041, U 0x1EA8 0x1EA9 0x0041, U 0x1EAA 0x1EAB 0x0041, U 0x1EAA 0x1EAB 0x0041,
     U 0x1EAC 0x1EAD 0x0041, U 0x1EAC 0x1EAD 0x0041, U 0x1EAE 0x1EAF 0x0041, U 0x1EAE 0x1EAF 0x0041,
     U 0x1EB0 0x1EB1 0x0041, U 0x1EB0 0x1EB1 0x0041, U 0x1EB2 0x1EB3 0x0041, U 0x1EB2 0x1EB3 0x0041,
     U 0x1EB4 0x1EB5 0x0041, U 0x1EB4 0x1EB5 0x0041, U 0x1EB6 0x1EB7 0x0041, U 0x1EB6 0x1EB7 0x0041,
     U 0x1EB8 0x1EB9 0x0045, U 0x1EB8 0x1EB9 0x0045, U 0x1EBA 0x1EBB 0x0045, U 0x1EBA 0x1EBB 0x0045,
     U 0x1EBC 0x1EBD 0x0045, U 0x1EBC 0x1EBD 0x0045, U 0x1EBE 0x1EBF 0x0045, U 0x1EBE 0x1EBF 0x0045,
     U 0x1EC0 0x1EC1 0x0045, U 0x1EC0 0x1EC1 0x0045, U 0x1EC2 0x1EC3 0x0045, U 0x1EC2 0x1EC3 0x0045,
     U 0x1EC4 0x1EC5 0x0045, U 0x1EC4 0x1EC5 0x0045, U 0x1EC6 0x1EC7 0x0045, U 0x1EC6 0x1EC7 0x0045,
     U 0x1EC8 0x1EC9 0x0049, U 0x1EC8 0x1EC9 0x0049, U 0x1ECA 0x1ECB 0x0049, U 0x1ECA 0x1ECB 0x0049,
     U 0x1ECC 0x1ECD 0x004F, U 0x1ECC 0x1ECD 0x004F, U 0x1ECE 0x1ECF 0x004F, U 0x1ECE 0x1ECF 0x004F,
     U 0x1ED0 0x1ED1 0x004F, U 0x1ED0 0x1ED1 0x004F, U 0x1ED2 0x1ED3 0x004F, U 0x1ED2 0x1ED3 0x004F,
     U 0x1ED4 0x1ED5 0x004F, U 0x1ED4 0x1ED5 0x004F, U 0x1ED6 0x1ED7 0x004F, U 0x1ED6 0x1ED7 0x004F,
     U 0x1ED8 0x1ED9 0x004F, U 0x1ED8 0x1ED9 0x004F, U 0x1EDA 0x1EDB 0x004F, U 0x1EDA 0x1EDB 0x004F,
     U 0x1EDC 0x1EDD 0x004F, U 0x1EDC 0x1EDD 0x004F, U 0x1EDE 0x1EDF 0x004F, U 0x1EDE 0x1EDF 0x004F,
     U 0x1EE0 0x1EE1 0x004F, U 0x1EE0 0x1EE1 0x004F, U 0x1EE2 0x1EE3 0x004F, U 0x1EE2 0x1EE3 0x004F,
     U 0x1EE4 0x1EE5 0x0055, U 0x1EE4 0x1EE5 0x0055, U 0x1EE6 0x1EE7 0x0055, U 0x1EE6 0x1EE7 0x0055,
     U 0x1EE8 0x1EE9 0x0055, U 0x1EE8 0x1EE9 0x0055, U 0x1EEA 0x1EEB 0x0055, U 0x1EEA 0x1EEB 0x0055,
     U 0x1EEC 0x1EED 0x0055, U 0x1EEC 0x1EED 0x0055, U 0x1EEE 0x1EEF 0x0055, U 0x1EEE 0x1EEF 0x0055,
     U 0x1EF0 0x1EF1 0x0055, U 0x1EF0 0x1EF1 0x0055, U 0x1EF2 0x1EF3 0x0059, U 0x1EF2 0x1EF3 0x0059,
     U 0x1EF4 0x1EF5 0x0059, U 0x1EF4 0x1EF5 0x0059, U 0x1EF6 0x1EF7 0x0059, U 0x1EF6 0x1EF7 0x0059,
     U 0x1EF8 0x1EF9 0x0059, U 0x1EF8 0x1EF9 0x0059, U 0x1EFA 0x1EFA 0x1EFA, U 0x1EFB 0x1EFB 0x1EFB,
     U 0x1EFC 0x1EFC 0x1EFC, U 0x1EFD 0x1EFD 0x1EFD, U 0x1EFE 0x1EFE 0x1EFE, U 0x1EFF 0x1EFF 0x1EFF]"

definition plane1F :: "unicase_info list" where
  "plane1F =
    [U 0x1F08 0x1F00 0x0391, U 0x1F09 0x1F01 0x0391, U 0x1F0A 0x1F02 0x0391, U 0x1F0B 0x1F03 0x0391,
     U 0x1F0C 0x1F04 0x0391, U 0x1F0D 0x1F05 0x0391, U 0x1F0E 0x1F06 0x0391, U 0x1F0F 0x1F07 0x0391,
     U 0x1F08 0x1F00 0x0391, U 0x1F09 0x1F01 0x0391, U 0x1F0A 0x1F02 0x0391, U 0x1F0B 0x1F03 0x0391,
     U 0x1F0C 0x1F04 0x0391, U 0x1F0D 0x1F05 0x0391, U 0x1F0E 0x1F06 0x0391, U 0x1F0F 0x1F07 0x0391,
     U 0x1F18 0x1F10 0x0395, U 0x1F19 0x1F11 0x0395, U 0x1F1A 0x1F12 0x0395, U 0x1F1B 0x1F13 0x0395,
     U 0x1F1C 0x1F14 0x0395, U 0x1F1D 0x1F15 0x0395, U 0x1F16 0x1F16 0x1F16, U 0x1F17 0x1F17 0x1F17,
     U 0x1F18 0x1F10 0x0395, U 0x1F19 0x1F11 0x0395, U 0x1F1A 0x1F12 0x0395, U 0x1F1B 0x1F13 0x0395,
     U 0x1F1C 0x1F14 0x0395, U 0x1F1D 0x1F15 0x0395, U 0x1F1E 0x1F1E 0x1F1E, U 0x1F1F 0x1F1F 0x1F1F,
     U 0x1F28 0x1F20 0x0397, U 0x1F29 0x1F21 0x0397, U 0x1F2A 0x1F22 0x0397, U 0x1F2B 0x1F23 0x0397,
     U 0x1F2C 0x1F24 0x0397, U 0x1F2D 0x1F25 0x0397, U 0x1F2E 0x1F26 0x0397, U 0x1F2F 0x1F27 0x0397,
     U 0x1F28 0x1F20 0x0397, U 0x1F29 0x1F21 0x0397, U 0x1F2A 0x1F22 0x0397, U 0x1F2B 0x1F23 0x0397,
     U 0x1F2C 0x1F24 0x0397, U 0x1F2D 0x1F25 0x0397, U 0x1F2E 0x1F26 0x0397, U 0x1F2F 0x1F27 0x0397,
     U 0x1F38 0x1F30 0x0399, U 0x1F39 0x1F31 0x0399, U 0x1F3A 0x1F32 0x0399, U 0x1F3B 0x1F33 0x0399,
     U 0x1F3C 0x1F34 0x0399, U 0x1F3D 0x1F35 0x0399, U 0x1F3E 0x1F36 0x0399, U 0x1F3F 0x1F37 0x0399,
     U 0x1F38 0x1F30 0x0399, U 0x1F39 0x1F31 0x0399, U 0x1F3A 0x1F32 0x0399, U 0x1F3B 0x1F33 0x0399,
     U 0x1F3C 0x1F34 0x0399, U 0x1F3D 0x1F35 0x0399, U 0x1F3E 0x1F36 0x0399, U 0x1F3F 0x1F37 0x0399,
     U 0x1F48 0x1F40 0x039F, U 0x1F49 0x1F41 0x039F, U 0x1F4A 0x1F42 0x039F, U 0x1F4B 0x1F43 0x039F,
     U 0x1F4C 0x1F44 0x039F, U 0x1F4D 0x1F45 0x039F, U 0x1F46 0x1F46 0x1F46, U 0x1F47 0x1F47 0x1F47,
     U 0x1F48 0x1F40 0x039F, U 0x1F49 0x1F41 0x039F, U 0x1F4A 0x1F42 0x039F, U 0x1F4B 0x1F43 0x039F,
     U 0x1F4C 0x1F44 0x039F, U 0x1F4D 0x1F45 0x039F, U 0x1F4E 0x1F4E 0x1F4E, U 0x1F4F 0x1F4F 0x1F4F,
     U 0x1F50 0x1F50 0x03A5, U 0x1F59 0x1F51 0x03A5, U 0x1F52 0x1F52 0x03A5, U 0x1F5B 0x1F53 0x03A5,
     U 0x1F54 0x1F54 0x03A5, U 0x1F5D 0x1F55 0x03A5, U 0x1F56 0x1F56 0x03A5, U 0x1F5F 0x1F57 0x03A5,
     U 0x1F58 0x1F58 0x1F58, U 0x1F59 0x1F51 0x03A5, U 0x1F5A 0x1F5A 0x1F5A, U 0x1F5B 0x1F53 0x03A5,
     U 0x1F5C 0x1F5C 0x1F5C, U 0x1F5D 0x1F55 0x03A5, U 0x1F5E 0x1F5E 0x1F5E, U 0x1F5F 0x1F57 0x03A5,
     U 0x1F68 0x1F60 0x03A9, U 0x1F69 0x1F61 0x03A9, U 0x1F6A 0x1F62 0x03A9, U 0x1F6B 0x1F63 0x03A9,
     U 0x1F6C 0x1F64 0x03A9, U 0x1F6D 0x1F65 0x03A9, U 0x1F6E 0x1F66 0x03A9, U 0x1F6F 0x1F67 0x03A9,
     U 0x1F68 0x1F60 0x03A9, U 0x1F69 0x1F61 0x03A9, U 0x1F6A 0x1F62 0x03A9, U 0x1F6B 0x1F63 0x03A9,
     U 0x1F6C 0x1F64 0x03A9, U 0x1F6D 0x1F65 0x03A9, U 0x1F6E 0x1F66 0x03A9, U 0x1F6F 0x1F67 0x03A9,
     U 0x1FBA 0x1F70 0x0391, U 0x1FBB 0x1F71 0x1FBB, U 0x1FC8 0x1F72 0x0395, U 0x1FC9 0x1F73 0x1FC9,
     U 0x1FCA 0x1F74 0x0397, U 0x1FCB 0x1F75 0x1FCB, U 0x1FDA 0x1F76 0x0399, U 0x1FDB 0x1F77 0x1FDB,
     U 0x1FF8 0x1F78 0x039F, U 0x1FF9 0x1F79 0x1FF9, U 0x1FEA 0x1F7A 0x03A5, U 0x1FEB 0x1F7B 0x1FEB,
     U 0x1FFA 0x1F7C 0x03A9, U 0x1FFB 0x1F7D 0x1FFB, U 0x1F7E 0x1F7E 0x1F7E, U 0x1F7F 0x1F7F 0x1F7F,
     U 0x1F88 0x1F80 0x0391, U 0x1F89 0x1F81 0x0391, U 0x1F8A 0x1F82 0x0391, U 0x1F8B 0x1F83 0x0391,
     U 0x1F8C 0x1F84 0x0391, U 0x1F8D 0x1F85 0x0391, U 0x1F8E 0x1F86 0x0391, U 0x1F8F 0x1F87 0x0391,
     U 0x1F88 0x1F80 0x0391, U 0x1F89 0x1F81 0x0391, U 0x1F8A 0x1F82 0x0391, U 0x1F8B 0x1F83 0x0391,
     U 0x1F8C 0x1F84 0x0391, U 0x1F8D 0x1F85 0x0391, U 0x1F8E 0x1F86 0x0391, U 0x1F8F 0x1F87 0x0391,
     U 0x1F98 0x1F90 0x0397, U 0x1F99 0x1F91 0x0397, U 0x1F9A 0x1F92 0x0397, U 0x1F9B 0x1F93 0x0397,
     U 0x1F9C 0x1F94 0x0397, U 0x1F9D 0x1F95 0x0397, U 0x1F9E 0x1F96 0x0397, U 0x1F9F 0x1F97 0x0397,
     U 0x1F98 0x1F90 0x0397, U 0x1F99 0x1F91 0x0397, U 0x1F9A 0x1F92 0x0397, U 0x1F9B 0x1F93 0x0397,
     U 0x1F9C 0x1F94 0x0397, U 0x1F9D 0x1F95 0x0397, U 0x1F9E 0x1F96 0x0397, U 0x1F9F 0x1F97 0x0397,
     U 0x1FA8 0x1FA0 0x03A9, U 0x1FA9 0x1FA1 0x03A9, U 0x1FAA 0x1FA2 0x03A9, U 0x1FAB 0x1FA3 0x03A9,
     U 0x1FAC 0x1FA4 0x03A9, U 0x1FAD 0x1FA5 0x03A9, U 0x1FAE 0x1FA6 0x03A9, U 0x1FAF 0x1FA7 0x03A9,
     U 0x1FA8 0x1FA0 0x03A9, U 0x1FA9 0x1FA1 0x03A9, U 0x1FAA 0x1FA2 0x03A9, U 0x1FAB 0x1FA3 0x03A9,
     U 0x1FAC 0x1FA4 0x03A9, U 0x1FAD 0x1FA5 0x03A9, U 0x1FAE 0x1FA6 0x03A9, U 0x1FAF 0x1FA7 0x03A9,
     U 0x1FB8 0x1FB0 0x0391, U 0x1FB9 0x1FB1 0x0391, U 0x1FB2 0x1FB2 0x0391, U 0x1FBC 0x1FB3 0x0391,
     U 0x1FB4 0x1FB4 0x0391, U 0x1FB5 0x1FB5 0x1FB5, U 0x1FB6 0x1FB6 0x0391, U 0x1FB7 0x1FB7 0x0391,
     U 0x1FB8 0x1FB0 0x0391, U 0x1FB9 0x1FB1 0x0391, U 0x1FBA 0x1F70 0x0391, U 0x1FBB 0x1F71 0x1FBB,
     U 0x1FBC 0x1FB3 0x0391, U 0x1FBD 0x1FBD 0x1FBD, U 0x0399 0x1FBE 0x0399, U 0x1FBF 0x1FBF 0x1FBF,
     U 0x1FC0 0x1FC0 0x1FC0, U 0x1FC1 0x1FC1 0x1FC1, U 0x1FC2 0x1FC2 0x0397, U 0x1FCC 0x1FC3 0x0397,
     U 0x1FC4 0x1FC4 0x0397, U 0x1FC5 0x1FC5 0x1FC5, U 0x1FC6 0x1FC6 0x0397, U 0x1FC7 0x1FC7 0x0397,
     U 0x1FC8 0x1F72 0x0395, U 0x1FC9 0x1F73 0x1FC9, U 0x1FCA 0x1F74 0x0397, U 0x1FCB 0x1F75 0x1FCB,
     U 0x1FCC 0x1FC3 0x0397, U 0x1FCD 0x1FCD 0x1FCD, U 0x1FCE 0x1FCE 0x1FCE, U 0x1FCF 0x1FCF 0x1FCF,
     U 0x1FD8 0x1FD0 0x0399, U 0x1FD9 0x1FD1 0x0399, U 0x1FD2 0x1FD2 0x0399, U 0x1FD3 0x1FD3 0x1FD3,
     U 0x1FD4 0x1FD4 0x1FD4, U 0x1FD5 0x1FD5 0x1FD5, U 0x1FD6 0x1FD6 0x0399, U 0x1FD7 0x1FD7 0x0399,
     U 0x1FD8 0x1FD0 0x0399, U 0x1FD9 0x1FD1 0x0399, U 0x1FDA 0x1F76 0x0399, U 0x1FDB 0x1F77 0x1FDB,
     U 0x1FDC 0x1FDC 0x1FDC, U 0x1FDD 0x1FDD 0x1FDD, U 0x1FDE 0x1FDE 0x1FDE, U 0x1FDF 0x1FDF 0x1FDF,
     U 0x1FE8 0x1FE0 0x03A5, U 0x1FE9 0x1FE1 0x03A5, U 0x1FE2 0x1FE2 0x03A5, U 0x1FE3 0x1FE3 0x1FE3,
     U 0x1FE4 0x1FE4 0x03A1, U 0x1FEC 0x1FE5 0x03A1, U 0x1FE6 0x1FE6 0x03A5, U 0x1FE7 0x1FE7 0x03A5,
     U 0x1FE8 0x1FE0 0x03A5, U 0x1FE9 0x1FE1 0x03A5, U 0x1FEA 0x1F7A 0x03A5, U 0x1FEB 0x1F7B 0x1FEB,
     U 0x1FEC 0x1FE5 0x03A1, U 0x1FED 0x1FED 0x1FED, U 0x1FEE 0x1FEE 0x1FEE, U 0x1FEF 0x1FEF 0x1FEF,
     U 0x1FF0 0x1FF0 0x1FF0, U 0x1FF1 0x1FF1 0x1FF1, U 0x1FF2 0x1FF2 0x03A9, U 0x1FFC 0x1FF3 0x03A9,
     U 0x1FF4 0x1FF4 0x03A9, U 0x1FF5 0x1FF5 0x1FF5, U 0x1FF6 0x1FF6 0x03A9, U 0x1FF7 0x1FF7 0x03A9,
     U 0x1FF8 0x1F78 0x039F, U 0x1FF9 0x1F79 0x1FF9, U 0x1FFA 0x1F7C 0x03A9, U 0x1FFB 0x1F7D 0x1FFB,
     U 0x1FFC 0x1FF3 0x03A9, U 0x1FFD 0x1FFD 0x1FFD, U 0x1FFE 0x1FFE 0x1FFE, U 0x1FFF 0x1FFF 0x1FFF]"

definition plane21 :: "unicase_info list" where
  "plane21 =
    [U 0x2100 0x2100 0x2100, U 0x2101 0x2101 0x2101, U 0x2102 0x2102 0x2102, U 0x2103 0x2103 0x2103,
     U 0x2104 0x2104 0x2104, U 0x2105 0x2105 0x2105, U 0x2106 0x2106 0x2106, U 0x2107 0x2107 0x2107,
     U 0x2108 0x2108 0x2108, U 0x2109 0x2109 0x2109, U 0x210A 0x210A 0x210A, U 0x210B 0x210B 0x210B,
     U 0x210C 0x210C 0x210C, U 0x210D 0x210D 0x210D, U 0x210E 0x210E 0x210E, U 0x210F 0x210F 0x210F,
     U 0x2110 0x2110 0x2110, U 0x2111 0x2111 0x2111, U 0x2112 0x2112 0x2112, U 0x2113 0x2113 0x2113,
     U 0x2114 0x2114 0x2114, U 0x2115 0x2115 0x2115, U 0x2116 0x2116 0x2116, U 0x2117 0x2117 0x2117,
     U 0x2118 0x2118 0x2118, U 0x2119 0x2119 0x2119, U 0x211A 0x211A 0x211A, U 0x211B 0x211B 0x211B,
     U 0x211C 0x211C 0x211C, U 0x211D 0x211D 0x211D, U 0x211E 0x211E 0x211E, U 0x211F 0x211F 0x211F,
     U 0x2120 0x2120 0x2120, U 0x2121 0x2121 0x2121, U 0x2122 0x2122 0x2122, U 0x2123 0x2123 0x2123,
     U 0x2124 0x2124 0x2124, U 0x2125 0x2125 0x2125, U 0x2126 0x03C9 0x2126, U 0x2127 0x2127 0x2127,
     U 0x2128 0x2128 0x2128, U 0x2129 0x2129 0x2129, U 0x212A 0x006B 0x212A, U 0x212B 0x00E5 0x212B,
     U 0x212C 0x212C 0x212C, U 0x212D 0x212D 0x212D, U 0x212E 0x212E 0x212E, U 0x212F 0x212F 0x212F,
     U 0x2130 0x2130 0x2130, U 0x2131 0x2131 0x2131, U 0x2132 0x2132 0x2132, U 0x2133 0x2133 0x2133,
     U 0x2134 0x2134 0x2134, U 0x2135 0x2135 0x2135, U 0x2136 0x2136 0x2136, U 0x2137 0x2137 0x2137,
     U 0x2138 0x2138 0x2138, U 0x2139 0x2139 0x2139, U 0x213A 0x213A 0x213A, U 0x213B 0x213B 0x213B,
     U 0x213C 0x213C 0x213C, U 0x213D 0x213D 0x213D, U 0x213E 0x213E 0x213E, U 0x213F 0x213F 0x213F,
     U 0x2140 0x2140 0x2140, U 0x2141 0x2141 0x2141, U 0x2142 0x2142 0x2142, U 0x2143 0x2143 0x2143,
     U 0x2144 0x2144 0x2144, U 0x2145 0x2145 0x2145, U 0x2146 0x2146 0x2146, U 0x2147 0x2147 0x2147,
     U 0x2148 0x2148 0x2148, U 0x2149 0x2149 0x2149, U 0x214A 0x214A 0x214A, U 0x214B 0x214B 0x214B,
     U 0x214C 0x214C 0x214C, U 0x214D 0x214D 0x214D, U 0x214E 0x214E 0x214E, U 0x214F 0x214F 0x214F,
     U 0x2150 0x2150 0x2150, U 0x2151 0x2151 0x2151, U 0x2152 0x2152 0x2152, U 0x2153 0x2153 0x2153,
     U 0x2154 0x2154 0x2154, U 0x2155 0x2155 0x2155, U 0x2156 0x2156 0x2156, U 0x2157 0x2157 0x2157,
     U 0x2158 0x2158 0x2158, U 0x2159 0x2159 0x2159, U 0x215A 0x215A 0x215A, U 0x215B 0x215B 0x215B,
     U 0x215C 0x215C 0x215C, U 0x215D 0x215D 0x215D, U 0x215E 0x215E 0x215E, U 0x215F 0x215F 0x215F,
     U 0x2160 0x2170 0x2160, U 0x2161 0x2171 0x2161, U 0x2162 0x2172 0x2162, U 0x2163 0x2173 0x2163,
     U 0x2164 0x2174 0x2164, U 0x2165 0x2175 0x2165, U 0x2166 0x2176 0x2166, U 0x2167 0x2177 0x2167,
     U 0x2168 0x2178 0x2168, U 0x2169 0x2179 0x2169, U 0x216A 0x217A 0x216A, U 0x216B 0x217B 0x216B,
     U 0x216C 0x217C 0x216C, U 0x216D 0x217D 0x216D, U 0x216E 0x217E 0x216E, U 0x216F 0x217F 0x216F,
     U 0x2160 0x2170 0x2160, U 0x2161 0x2171 0x2161, U 0x2162 0x2172 0x2162, U 0x2163 0x2173 0x2163,
     U 0x2164 0x2174 0x2164, U 0x2165 0x2175 0x2165, U 0x2166 0x2176 0x2166, U 0x2167 0x2177 0x2167,
     U 0x2168 0x2178 0x2168, U 0x2169 0x2179 0x2169, U 0x216A 0x217A 0x216A, U 0x216B 0x217B 0x216B,
     U 0x216C 0x217C 0x216C, U 0x216D 0x217D 0x216D, U 0x216E 0x217E 0x216E, U 0x216F 0x217F 0x216F,
     U 0x2180 0x2180 0x2180, U 0x2181 0x2181 0x2181, U 0x2182 0x2182 0x2182, U 0x2183 0x2183 0x2183,
     U 0x2184 0x2184 0x2184, U 0x2185 0x2185 0x2185, U 0x2186 0x2186 0x2186, U 0x2187 0x2187 0x2187,
     U 0x2188 0x2188 0x2188, U 0x2189 0x2189 0x2189, U 0x218A 0x218A 0x218A, U 0x218B 0x218B 0x218B,
     U 0x218C 0x218C 0x218C, U 0x218D 0x218D 0x218D, U 0x218E 0x218E 0x218E, U 0x218F 0x218F 0x218F,
     U 0x2190 0x2190 0x2190, U 0x2191 0x2191 0x2191, U 0x2192 0x2192 0x2192, U 0x2193 0x2193 0x2193,
     U 0x2194 0x2194 0x2194, U 0x2195 0x2195 0x2195, U 0x2196 0x2196 0x2196, U 0x2197 0x2197 0x2197,
     U 0x2198 0x2198 0x2198, U 0x2199 0x2199 0x2199, U 0x219A 0x219A 0x219A, U 0x219B 0x219B 0x219B,
     U 0x219C 0x219C 0x219C, U 0x219D 0x219D 0x219D, U 0x219E 0x219E 0x219E, U 0x219F 0x219F 0x219F,
     U 0x21A0 0x21A0 0x21A0, U 0x21A1 0x21A1 0x21A1, U 0x21A2 0x21A2 0x21A2, U 0x21A3 0x21A3 0x21A3,
     U 0x21A4 0x21A4 0x21A4, U 0x21A5 0x21A5 0x21A5, U 0x21A6 0x21A6 0x21A6, U 0x21A7 0x21A7 0x21A7,
     U 0x21A8 0x21A8 0x21A8, U 0x21A9 0x21A9 0x21A9, U 0x21AA 0x21AA 0x21AA, U 0x21AB 0x21AB 0x21AB,
     U 0x21AC 0x21AC 0x21AC, U 0x21AD 0x21AD 0x21AD, U 0x21AE 0x21AE 0x21AE, U 0x21AF 0x21AF 0x21AF,
     U 0x21B0 0x21B0 0x21B0, U 0x21B1 0x21B1 0x21B1, U 0x21B2 0x21B2 0x21B2, U 0x21B3 0x21B3 0x21B3,
     U 0x21B4 0x21B4 0x21B4, U 0x21B5 0x21B5 0x21B5, U 0x21B6 0x21B6 0x21B6, U 0x21B7 0x21B7 0x21B7,
     U 0x21B8 0x21B8 0x21B8, U 0x21B9 0x21B9 0x21B9, U 0x21BA 0x21BA 0x21BA, U 0x21BB 0x21BB 0x21BB,
     U 0x21BC 0x21BC 0x21BC, U 0x21BD 0x21BD 0x21BD, U 0x21BE 0x21BE 0x21BE, U 0x21BF 0x21BF 0x21BF,
     U 0x21C0 0x21C0 0x21C0, U 0x21C1 0x21C1 0x21C1, U 0x21C2 0x21C2 0x21C2, U 0x21C3 0x21C3 0x21C3,
     U 0x21C4 0x21C4 0x21C4, U 0x21C5 0x21C5 0x21C5, U 0x21C6 0x21C6 0x21C6, U 0x21C7 0x21C7 0x21C7,
     U 0x21C8 0x21C8 0x21C8, U 0x21C9 0x21C9 0x21C9, U 0x21CA 0x21CA 0x21CA, U 0x21CB 0x21CB 0x21CB,
     U 0x21CC 0x21CC 0x21CC, U 0x21CD 0x21CD 0x21CD, U 0x21CE 0x21CE 0x21CE, U 0x21CF 0x21CF 0x21CF,
     U 0x21D0 0x21D0 0x21D0, U 0x21D1 0x21D1 0x21D1, U 0x21D2 0x21D2 0x21D2, U 0x21D3 0x21D3 0x21D3,
     U 0x21D4 0x21D4 0x21D4, U 0x21D5 0x21D5 0x21D5, U 0x21D6 0x21D6 0x21D6, U 0x21D7 0x21D7 0x21D7,
     U 0x21D8 0x21D8 0x21D8, U 0x21D9 0x21D9 0x21D9, U 0x21DA 0x21DA 0x21DA, U 0x21DB 0x21DB 0x21DB,
     U 0x21DC 0x21DC 0x21DC, U 0x21DD 0x21DD 0x21DD, U 0x21DE 0x21DE 0x21DE, U 0x21DF 0x21DF 0x21DF,
     U 0x21E0 0x21E0 0x21E0, U 0x21E1 0x21E1 0x21E1, U 0x21E2 0x21E2 0x21E2, U 0x21E3 0x21E3 0x21E3,
     U 0x21E4 0x21E4 0x21E4, U 0x21E5 0x21E5 0x21E5, U 0x21E6 0x21E6 0x21E6, U 0x21E7 0x21E7 0x21E7,
     U 0x21E8 0x21E8 0x21E8, U 0x21E9 0x21E9 0x21E9, U 0x21EA 0x21EA 0x21EA, U 0x21EB 0x21EB 0x21EB,
     U 0x21EC 0x21EC 0x21EC, U 0x21ED 0x21ED 0x21ED, U 0x21EE 0x21EE 0x21EE, U 0x21EF 0x21EF 0x21EF,
     U 0x21F0 0x21F0 0x21F0, U 0x21F1 0x21F1 0x21F1, U 0x21F2 0x21F2 0x21F2, U 0x21F3 0x21F3 0x21F3,
     U 0x21F4 0x21F4 0x21F4, U 0x21F5 0x21F5 0x21F5, U 0x21F6 0x21F6 0x21F6, U 0x21F7 0x21F7 0x21F7,
     U 0x21F8 0x21F8 0x21F8, U 0x21F9 0x21F9 0x21F9, U 0x21FA 0x21FA 0x21FA, U 0x21FB 0x21FB 0x21FB,
     U 0x21FC 0x21FC 0x21FC, U 0x21FD 0x21FD 0x21FD, U 0x21FE 0x21FE 0x21FE, U 0x21FF 0x21FF 0x21FF]"

definition plane24 :: "unicase_info list" where
  "plane24 =
    [U 0x2400 0x2400 0x2400, U 0x2401 0x2401 0x2401, U 0x2402 0x2402 0x2402, U 0x2403 0x2403 0x2403,
     U 0x2404 0x2404 0x2404, U 0x2405 0x2405 0x2405, U 0x2406 0x2406 0x2406, U 0x2407 0x2407 0x2407,
     U 0x2408 0x2408 0x2408, U 0x2409 0x2409 0x2409, U 0x240A 0x240A 0x240A, U 0x240B 0x240B 0x240B,
     U 0x240C 0x240C 0x240C, U 0x240D 0x240D 0x240D, U 0x240E 0x240E 0x240E, U 0x240F 0x240F 0x240F,
     U 0x2410 0x2410 0x2410, U 0x2411 0x2411 0x2411, U 0x2412 0x2412 0x2412, U 0x2413 0x2413 0x2413,
     U 0x2414 0x2414 0x2414, U 0x2415 0x2415 0x2415, U 0x2416 0x2416 0x2416, U 0x2417 0x2417 0x2417,
     U 0x2418 0x2418 0x2418, U 0x2419 0x2419 0x2419, U 0x241A 0x241A 0x241A, U 0x241B 0x241B 0x241B,
     U 0x241C 0x241C 0x241C, U 0x241D 0x241D 0x241D, U 0x241E 0x241E 0x241E, U 0x241F 0x241F 0x241F,
     U 0x2420 0x2420 0x2420, U 0x2421 0x2421 0x2421, U 0x2422 0x2422 0x2422, U 0x2423 0x2423 0x2423,
     U 0x2424 0x2424 0x2424, U 0x2425 0x2425 0x2425, U 0x2426 0x2426 0x2426, U 0x2427 0x2427 0x2427,
     U 0x2428 0x2428 0x2428, U 0x2429 0x2429 0x2429, U 0x242A 0x242A 0x242A, U 0x242B 0x242B 0x242B,
     U 0x242C 0x242C 0x242C, U 0x242D 0x242D 0x242D, U 0x242E 0x242E 0x242E, U 0x242F 0x242F 0x242F,
     U 0x2430 0x2430 0x2430, U 0x2431 0x2431 0x2431, U 0x2432 0x2432 0x2432, U 0x2433 0x2433 0x2433,
     U 0x2434 0x2434 0x2434, U 0x2435 0x2435 0x2435, U 0x2436 0x2436 0x2436, U 0x2437 0x2437 0x2437,
     U 0x2438 0x2438 0x2438, U 0x2439 0x2439 0x2439, U 0x243A 0x243A 0x243A, U 0x243B 0x243B 0x243B,
     U 0x243C 0x243C 0x243C, U 0x243D 0x243D 0x243D, U 0x243E 0x243E 0x243E, U 0x243F 0x243F 0x243F,
     U 0x2440 0x2440 0x2440, U 0x2441 0x2441 0x2441, U 0x2442 0x2442 0x2442, U 0x2443 0x2443 0x2443,
     U 0x2444 0x2444 0x2444, U 0x2445 0x2445 0x2445, U 0x2446 0x2446 0x2446, U 0x2447 0x2447 0x2447,
     U 0x2448 0x2448 0x2448, U 0x2449 0x2449 0x2449, U 0x244A 0x244A 0x244A, U 0x244B 0x244B 0x244B,
     U 0x244C 0x244C 0x244C, U 0x244D 0x244D 0x244D, U 0x244E 0x244E 0x244E, U 0x244F 0x244F 0x244F,
     U 0x2450 0x2450 0x2450, U 0x2451 0x2451 0x2451, U 0x2452 0x2452 0x2452, U 0x2453 0x2453 0x2453,
     U 0x2454 0x2454 0x2454, U 0x2455 0x2455 0x2455, U 0x2456 0x2456 0x2456, U 0x2457 0x2457 0x2457,
     U 0x2458 0x2458 0x2458, U 0x2459 0x2459 0x2459, U 0x245A 0x245A 0x245A, U 0x245B 0x245B 0x245B,
     U 0x245C 0x245C 0x245C, U 0x245D 0x245D 0x245D, U 0x245E 0x245E 0x245E, U 0x245F 0x245F 0x245F,
     U 0x2460 0x2460 0x2460, U 0x2461 0x2461 0x2461, U 0x2462 0x2462 0x2462, U 0x2463 0x2463 0x2463,
     U 0x2464 0x2464 0x2464, U 0x2465 0x2465 0x2465, U 0x2466 0x2466 0x2466, U 0x2467 0x2467 0x2467,
     U 0x2468 0x2468 0x2468, U 0x2469 0x2469 0x2469, U 0x246A 0x246A 0x246A, U 0x246B 0x246B 0x246B,
     U 0x246C 0x246C 0x246C, U 0x246D 0x246D 0x246D, U 0x246E 0x246E 0x246E, U 0x246F 0x246F 0x246F,
     U 0x2470 0x2470 0x2470, U 0x2471 0x2471 0x2471, U 0x2472 0x2472 0x2472, U 0x2473 0x2473 0x2473,
     U 0x2474 0x2474 0x2474, U 0x2475 0x2475 0x2475, U 0x2476 0x2476 0x2476, U 0x2477 0x2477 0x2477,
     U 0x2478 0x2478 0x2478, U 0x2479 0x2479 0x2479, U 0x247A 0x247A 0x247A, U 0x247B 0x247B 0x247B,
     U 0x247C 0x247C 0x247C, U 0x247D 0x247D 0x247D, U 0x247E 0x247E 0x247E, U 0x247F 0x247F 0x247F,
     U 0x2480 0x2480 0x2480, U 0x2481 0x2481 0x2481, U 0x2482 0x2482 0x2482, U 0x2483 0x2483 0x2483,
     U 0x2484 0x2484 0x2484, U 0x2485 0x2485 0x2485, U 0x2486 0x2486 0x2486, U 0x2487 0x2487 0x2487,
     U 0x2488 0x2488 0x2488, U 0x2489 0x2489 0x2489, U 0x248A 0x248A 0x248A, U 0x248B 0x248B 0x248B,
     U 0x248C 0x248C 0x248C, U 0x248D 0x248D 0x248D, U 0x248E 0x248E 0x248E, U 0x248F 0x248F 0x248F,
     U 0x2490 0x2490 0x2490, U 0x2491 0x2491 0x2491, U 0x2492 0x2492 0x2492, U 0x2493 0x2493 0x2493,
     U 0x2494 0x2494 0x2494, U 0x2495 0x2495 0x2495, U 0x2496 0x2496 0x2496, U 0x2497 0x2497 0x2497,
     U 0x2498 0x2498 0x2498, U 0x2499 0x2499 0x2499, U 0x249A 0x249A 0x249A, U 0x249B 0x249B 0x249B,
     U 0x249C 0x249C 0x249C, U 0x249D 0x249D 0x249D, U 0x249E 0x249E 0x249E, U 0x249F 0x249F 0x249F,
     U 0x24A0 0x24A0 0x24A0, U 0x24A1 0x24A1 0x24A1, U 0x24A2 0x24A2 0x24A2, U 0x24A3 0x24A3 0x24A3,
     U 0x24A4 0x24A4 0x24A4, U 0x24A5 0x24A5 0x24A5, U 0x24A6 0x24A6 0x24A6, U 0x24A7 0x24A7 0x24A7,
     U 0x24A8 0x24A8 0x24A8, U 0x24A9 0x24A9 0x24A9, U 0x24AA 0x24AA 0x24AA, U 0x24AB 0x24AB 0x24AB,
     U 0x24AC 0x24AC 0x24AC, U 0x24AD 0x24AD 0x24AD, U 0x24AE 0x24AE 0x24AE, U 0x24AF 0x24AF 0x24AF,
     U 0x24B0 0x24B0 0x24B0, U 0x24B1 0x24B1 0x24B1, U 0x24B2 0x24B2 0x24B2, U 0x24B3 0x24B3 0x24B3,
     U 0x24B4 0x24B4 0x24B4, U 0x24B5 0x24B5 0x24B5, U 0x24B6 0x24D0 0x24B6, U 0x24B7 0x24D1 0x24B7,
     U 0x24B8 0x24D2 0x24B8, U 0x24B9 0x24D3 0x24B9, U 0x24BA 0x24D4 0x24BA, U 0x24BB 0x24D5 0x24BB,
     U 0x24BC 0x24D6 0x24BC, U 0x24BD 0x24D7 0x24BD, U 0x24BE 0x24D8 0x24BE, U 0x24BF 0x24D9 0x24BF,
     U 0x24C0 0x24DA 0x24C0, U 0x24C1 0x24DB 0x24C1, U 0x24C2 0x24DC 0x24C2, U 0x24C3 0x24DD 0x24C3,
     U 0x24C4 0x24DE 0x24C4, U 0x24C5 0x24DF 0x24C5, U 0x24C6 0x24E0 0x24C6, U 0x24C7 0x24E1 0x24C7,
     U 0x24C8 0x24E2 0x24C8, U 0x24C9 0x24E3 0x24C9, U 0x24CA 0x24E4 0x24CA, U 0x24CB 0x24E5 0x24CB,
     U 0x24CC 0x24E6 0x24CC, U 0x24CD 0x24E7 0x24CD, U 0x24CE 0x24E8 0x24CE, U 0x24CF 0x24E9 0x24CF,
     U 0x24B6 0x24D0 0x24B6, U 0x24B7 0x24D1 0x24B7, U 0x24B8 0x24D2 0x24B8, U 0x24B9 0x24D3 0x24B9,
     U 0x24BA 0x24D4 0x24BA, U 0x24BB 0x24D5 0x24BB, U 0x24BC 0x24D6 0x24BC, U 0x24BD 0x24D7 0x24BD,
     U 0x24BE 0x24D8 0x24BE, U 0x24BF 0x24D9 0x24BF, U 0x24C0 0x24DA 0x24C0, U 0x24C1 0x24DB 0x24C1,
     U 0x24C2 0x24DC 0x24C2, U 0x24C3 0x24DD 0x24C3, U 0x24C4 0x24DE 0x24C4, U 0x24C5 0x24DF 0x24C5,
     U 0x24C6 0x24E0 0x24C6, U 0x24C7 0x24E1 0x24C7, U 0x24C8 0x24E2 0x24C8, U 0x24C9 0x24E3 0x24C9,
     U 0x24CA 0x24E4 0x24CA, U 0x24CB 0x24E5 0x24CB, U 0x24CC 0x24E6 0x24CC, U 0x24CD 0x24E7 0x24CD,
     U 0x24CE 0x24E8 0x24CE, U 0x24CF 0x24E9 0x24CF, U 0x24EA 0x24EA 0x24EA, U 0x24EB 0x24EB 0x24EB,
     U 0x24EC 0x24EC 0x24EC, U 0x24ED 0x24ED 0x24ED, U 0x24EE 0x24EE 0x24EE, U 0x24EF 0x24EF 0x24EF,
     U 0x24F0 0x24F0 0x24F0, U 0x24F1 0x24F1 0x24F1, U 0x24F2 0x24F2 0x24F2, U 0x24F3 0x24F3 0x24F3,
     U 0x24F4 0x24F4 0x24F4, U 0x24F5 0x24F5 0x24F5, U 0x24F6 0x24F6 0x24F6, U 0x24F7 0x24F7 0x24F7,
     U 0x24F8 0x24F8 0x24F8, U 0x24F9 0x24F9 0x24F9, U 0x24FA 0x24FA 0x24FA, U 0x24FB 0x24FB 0x24FB,
     U 0x24FC 0x24FC 0x24FC, U 0x24FD 0x24FD 0x24FD, U 0x24FE 0x24FE 0x24FE, U 0x24FF 0x24FF 0x24FF]"

definition planeFF :: "unicase_info list" where
  "planeFF =
    [U 0xFF00 0xFF00 0xFF00, U 0xFF01 0xFF01 0xFF01, U 0xFF02 0xFF02 0xFF02, U 0xFF03 0xFF03 0xFF03,
     U 0xFF04 0xFF04 0xFF04, U 0xFF05 0xFF05 0xFF05, U 0xFF06 0xFF06 0xFF06, U 0xFF07 0xFF07 0xFF07,
     U 0xFF08 0xFF08 0xFF08, U 0xFF09 0xFF09 0xFF09, U 0xFF0A 0xFF0A 0xFF0A, U 0xFF0B 0xFF0B 0xFF0B,
     U 0xFF0C 0xFF0C 0xFF0C, U 0xFF0D 0xFF0D 0xFF0D, U 0xFF0E 0xFF0E 0xFF0E, U 0xFF0F 0xFF0F 0xFF0F,
     U 0xFF10 0xFF10 0xFF10, U 0xFF11 0xFF11 0xFF11, U 0xFF12 0xFF12 0xFF12, U 0xFF13 0xFF13 0xFF13,
     U 0xFF14 0xFF14 0xFF14, U 0xFF15 0xFF15 0xFF15, U 0xFF16 0xFF16 0xFF16, U 0xFF17 0xFF17 0xFF17,
     U 0xFF18 0xFF18 0xFF18, U 0xFF19 0xFF19 0xFF19, U 0xFF1A 0xFF1A 0xFF1A, U 0xFF1B 0xFF1B 0xFF1B,
     U 0xFF1C 0xFF1C 0xFF1C, U 0xFF1D 0xFF1D 0xFF1D, U 0xFF1E 0xFF1E 0xFF1E, U 0xFF1F 0xFF1F 0xFF1F,
     U 0xFF20 0xFF20 0xFF20, U 0xFF21 0xFF41 0xFF21, U 0xFF22 0xFF42 0xFF22, U 0xFF23 0xFF43 0xFF23,
     U 0xFF24 0xFF44 0xFF24, U 0xFF25 0xFF45 0xFF25, U 0xFF26 0xFF46 0xFF26, U 0xFF27 0xFF47 0xFF27,
     U 0xFF28 0xFF48 0xFF28, U 0xFF29 0xFF49 0xFF29, U 0xFF2A 0xFF4A 0xFF2A, U 0xFF2B 0xFF4B 0xFF2B,
     U 0xFF2C 0xFF4C 0xFF2C, U 0xFF2D 0xFF4D 0xFF2D, U 0xFF2E 0xFF4E 0xFF2E, U 0xFF2F 0xFF4F 0xFF2F,
     U 0xFF30 0xFF50 0xFF30, U 0xFF31 0xFF51 0xFF31, U 0xFF32 0xFF52 0xFF32, U 0xFF33 0xFF53 0xFF33,
     U 0xFF34 0xFF54 0xFF34, U 0xFF35 0xFF55 0xFF35, U 0xFF36 0xFF56 0xFF36, U 0xFF37 0xFF57 0xFF37,
     U 0xFF38 0xFF58 0xFF38, U 0xFF39 0xFF59 0xFF39, U 0xFF3A 0xFF5A 0xFF3A, U 0xFF3B 0xFF3B 0xFF3B,
     U 0xFF3C 0xFF3C 0xFF3C, U 0xFF3D 0xFF3D 0xFF3D, U 0xFF3E 0xFF3E 0xFF3E, U 0xFF3F 0xFF3F 0xFF3F,
     U 0xFF40 0xFF40 0xFF40, U 0xFF21 0xFF41 0xFF21, U 0xFF22 0xFF42 0xFF22, U 0xFF23 0xFF43 0xFF23,
     U 0xFF24 0xFF44 0xFF24, U 0xFF25 0xFF45 0xFF25, U 0xFF26 0xFF46 0xFF26, U 0xFF27 0xFF47 0xFF27,
     U 0xFF28 0xFF48 0xFF28, U 0xFF29 0xFF49 0xFF29, U 0xFF2A 0xFF4A 0xFF2A, U 0xFF2B 0xFF4B 0xFF2B,
     U 0xFF2C 0xFF4C 0xFF2C, U 0xFF2D 0xFF4D 0xFF2D, U 0xFF2E 0xFF4E 0xFF2E, U 0xFF2F 0xFF4F 0xFF2F,
     U 0xFF30 0xFF50 0xFF30, U 0xFF31 0xFF51 0xFF31, U 0xFF32 0xFF52 0xFF32, U 0xFF33 0xFF53 0xFF33,
     U 0xFF34 0xFF54 0xFF34, U 0xFF35 0xFF55 0xFF35, U 0xFF36 0xFF56 0xFF36, U 0xFF37 0xFF57 0xFF37,
     U 0xFF38 0xFF58 0xFF38, U 0xFF39 0xFF59 0xFF39, U 0xFF3A 0xFF5A 0xFF3A, U 0xFF5B 0xFF5B 0xFF5B,
     U 0xFF5C 0xFF5C 0xFF5C, U 0xFF5D 0xFF5D 0xFF5D, U 0xFF5E 0xFF5E 0xFF5E, U 0xFF5F 0xFF5F 0xFF5F,
     U 0xFF60 0xFF60 0xFF60, U 0xFF61 0xFF61 0xFF61, U 0xFF62 0xFF62 0xFF62, U 0xFF63 0xFF63 0xFF63,
     U 0xFF64 0xFF64 0xFF64, U 0xFF65 0xFF65 0xFF65, U 0xFF66 0xFF66 0xFF66, U 0xFF67 0xFF67 0xFF67,
     U 0xFF68 0xFF68 0xFF68, U 0xFF69 0xFF69 0xFF69, U 0xFF6A 0xFF6A 0xFF6A, U 0xFF6B 0xFF6B 0xFF6B,
     U 0xFF6C 0xFF6C 0xFF6C, U 0xFF6D 0xFF6D 0xFF6D, U 0xFF6E 0xFF6E 0xFF6E, U 0xFF6F 0xFF6F 0xFF6F,
     U 0xFF70 0xFF70 0xFF70, U 0xFF71 0xFF71 0xFF71, U 0xFF72 0xFF72 0xFF72, U 0xFF73 0xFF73 0xFF73,
     U 0xFF74 0xFF74 0xFF74, U 0xFF75 0xFF75 0xFF75, U 0xFF76 0xFF76 0xFF76, U 0xFF77 0xFF77 0xFF77,
     U 0xFF78 0xFF78 0xFF78, U 0xFF79 0xFF79 0xFF79, U 0xFF7A 0xFF7A 0xFF7A, U 0xFF7B 0xFF7B 0xFF7B,
     U 0xFF7C 0xFF7C 0xFF7C, U 0xFF7D 0xFF7D 0xFF7D, U 0xFF7E 0xFF7E 0xFF7E, U 0xFF7F 0xFF7F 0xFF7F,
     U 0xFF80 0xFF80 0xFF80, U 0xFF81 0xFF81 0xFF81, U 0xFF82 0xFF82 0xFF82, U 0xFF83 0xFF83 0xFF83,
     U 0xFF84 0xFF84 0xFF84, U 0xFF85 0xFF85 0xFF85, U 0xFF86 0xFF86 0xFF86, U 0xFF87 0xFF87 0xFF87,
     U 0xFF88 0xFF88 0xFF88, U 0xFF89 0xFF89 0xFF89, U 0xFF8A 0xFF8A 0xFF8A, U 0xFF8B 0xFF8B 0xFF8B,
     U 0xFF8C 0xFF8C 0xFF8C, U 0xFF8D 0xFF8D 0xFF8D, U 0xFF8E 0xFF8E 0xFF8E, U 0xFF8F 0xFF8F 0xFF8F,
     U 0xFF90 0xFF90 0xFF90, U 0xFF91 0xFF91 0xFF91, U 0xFF92 0xFF92 0xFF92, U 0xFF93 0xFF93 0xFF93,
     U 0xFF94 0xFF94 0xFF94, U 0xFF95 0xFF95 0xFF95, U 0xFF96 0xFF96 0xFF96, U 0xFF97 0xFF97 0xFF97,
     U 0xFF98 0xFF98 0xFF98, U 0xFF99 0xFF99 0xFF99, U 0xFF9A 0xFF9A 0xFF9A, U 0xFF9B 0xFF9B 0xFF9B,
     U 0xFF9C 0xFF9C 0xFF9C, U 0xFF9D 0xFF9D 0xFF9D, U 0xFF9E 0xFF9E 0xFF9E, U 0xFF9F 0xFF9F 0xFF9F,
     U 0xFFA0 0xFFA0 0xFFA0, U 0xFFA1 0xFFA1 0xFFA1, U 0xFFA2 0xFFA2 0xFFA2, U 0xFFA3 0xFFA3 0xFFA3,
     U 0xFFA4 0xFFA4 0xFFA4, U 0xFFA5 0xFFA5 0xFFA5, U 0xFFA6 0xFFA6 0xFFA6, U 0xFFA7 0xFFA7 0xFFA7,
     U 0xFFA8 0xFFA8 0xFFA8, U 0xFFA9 0xFFA9 0xFFA9, U 0xFFAA 0xFFAA 0xFFAA, U 0xFFAB 0xFFAB 0xFFAB,
     U 0xFFAC 0xFFAC 0xFFAC, U 0xFFAD 0xFFAD 0xFFAD, U 0xFFAE 0xFFAE 0xFFAE, U 0xFFAF 0xFFAF 0xFFAF,
     U 0xFFB0 0xFFB0 0xFFB0, U 0xFFB1 0xFFB1 0xFFB1, U 0xFFB2 0xFFB2 0xFFB2, U 0xFFB3 0xFFB3 0xFFB3,
     U 0xFFB4 0xFFB4 0xFFB4, U 0xFFB5 0xFFB5 0xFFB5, U 0xFFB6 0xFFB6 0xFFB6, U 0xFFB7 0xFFB7 0xFFB7,
     U 0xFFB8 0xFFB8 0xFFB8, U 0xFFB9 0xFFB9 0xFFB9, U 0xFFBA 0xFFBA 0xFFBA, U 0xFFBB 0xFFBB 0xFFBB,
     U 0xFFBC 0xFFBC 0xFFBC, U 0xFFBD 0xFFBD 0xFFBD, U 0xFFBE 0xFFBE 0xFFBE, U 0xFFBF 0xFFBF 0xFFBF,
     U 0xFFC0 0xFFC0 0xFFC0, U 0xFFC1 0xFFC1 0xFFC1, U 0xFFC2 0xFFC2 0xFFC2, U 0xFFC3 0xFFC3 0xFFC3,
     U 0xFFC4 0xFFC4 0xFFC4, U 0xFFC5 0xFFC5 0xFFC5, U 0xFFC6 0xFFC6 0xFFC6, U 0xFFC7 0xFFC7 0xFFC7,
     U 0xFFC8 0xFFC8 0xFFC8, U 0xFFC9 0xFFC9 0xFFC9, U 0xFFCA 0xFFCA 0xFFCA, U 0xFFCB 0xFFCB 0xFFCB,
     U 0xFFCC 0xFFCC 0xFFCC, U 0xFFCD 0xFFCD 0xFFCD, U 0xFFCE 0xFFCE 0xFFCE, U 0xFFCF 0xFFCF 0xFFCF,
     U 0xFFD0 0xFFD0 0xFFD0, U 0xFFD1 0xFFD1 0xFFD1, U 0xFFD2 0xFFD2 0xFFD2, U 0xFFD3 0xFFD3 0xFFD3,
     U 0xFFD4 0xFFD4 0xFFD4, U 0xFFD5 0xFFD5 0xFFD5, U 0xFFD6 0xFFD6 0xFFD6, U 0xFFD7 0xFFD7 0xFFD7,
     U 0xFFD8 0xFFD8 0xFFD8, U 0xFFD9 0xFFD9 0xFFD9, U 0xFFDA 0xFFDA 0xFFDA, U 0xFFDB 0xFFDB 0xFFDB,
     U 0xFFDC 0xFFDC 0xFFDC, U 0xFFDD 0xFFDD 0xFFDD, U 0xFFDE 0xFFDE 0xFFDE, U 0xFFDF 0xFFDF 0xFFDF,
     U 0xFFE0 0xFFE0 0xFFE0, U 0xFFE1 0xFFE1 0xFFE1, U 0xFFE2 0xFFE2 0xFFE2, U 0xFFE3 0xFFE3 0xFFE3,
     U 0xFFE4 0xFFE4 0xFFE4, U 0xFFE5 0xFFE5 0xFFE5, U 0xFFE6 0xFFE6 0xFFE6, U 0xFFE7 0xFFE7 0xFFE7,
     U 0xFFE8 0xFFE8 0xFFE8, U 0xFFE9 0xFFE9 0xFFE9, U 0xFFEA 0xFFEA 0xFFEA, U 0xFFEB 0xFFEB 0xFFEB,
     U 0xFFEC 0xFFEC 0xFFEC, U 0xFFED 0xFFED 0xFFED, U 0xFFEE 0xFFEE 0xFFEE, U 0xFFEF 0xFFEF 0xFFEF,
     U 0xFFF0 0xFFF0 0xFFF0, U 0xFFF1 0xFFF1 0xFFF1, U 0xFFF2 0xFFF2 0xFFF2, U 0xFFF3 0xFFF3 0xFFF3,
     U 0xFFF4 0xFFF4 0xFFF4, U 0xFFF5 0xFFF5 0xFFF5, U 0xFFF6 0xFFF6 0xFFF6, U 0xFFF7 0xFFF7 0xFFF7,
     U 0xFFF8 0xFFF8 0xFFF8, U 0xFFF9 0xFFF9 0xFFF9, U 0xFFFA 0xFFFA 0xFFFA, U 0xFFFB 0xFFFB 0xFFFB,
     U 0xFFFC 0xFFFC 0xFFFC, U 0xFFFD 0xFFFD 0xFFFD, U 0xFFFE 0xFFFE 0xFFFE, U 0xFFFF 0xFFFF 0xFFFF]"

definition uni_plane :: "int \<Rightarrow> unicase_info list option" where
  "uni_plane p =
     (if p = 0x00 then Some plane00
      else if p = 0x01 then Some plane01
      else if p = 0x02 then Some plane02
      else if p = 0x03 then Some plane03
      else if p = 0x04 then Some plane04
      else if p = 0x05 then Some plane05
      else if p = 0x1E then Some plane1E
      else if p = 0x1F then Some plane1F
      else if p = 0x21 then Some plane21
      else if p = 0x24 then Some plane24
      else if p = 0xFF then Some planeFF
      else None)"

section \<open>Checking the tables entry by entry\<close>

text \<open>
  \<open>table_chk P b t\<close>: the entry of \<open>t\<close> for each code point, counted from \<open>b\<close>,
  satisfies \<open>P\<close>.
\<close>

fun table_chk :: "(int \<Rightarrow> unicase_info \<Rightarrow> bool) \<Rightarrow> int \<Rightarrow> unicase_info list \<Rightarrow> bool" where
  "table_chk P b [] = True"
| "table_chk P b (e # es) = (if P b e then table_chk P (b + 1) es else False)"

lemma table_chk_nth: "table_chk P b t \<Longrightarrow> i < length t \<Longrightarrow> P (b + int i) (t ! i)"
proof (induction t arbitrary: b i)
  case Nil
  then show ?case by simp
next
  case (Cons e es)
  then show ?case using Cons.IH [of "b + 1"] by (cases i) (auto simp: algebra_simps split: if_splits)
qed

lemma plane_length:
  "length plane00 = 256" "length plane01 = 256" "length plane02 = 256" "length plane03 = 256"
  "length plane04 = 256" "length plane05 = 256" "length plane1E = 256" "length plane1F = 256"
  "length plane21 = 256" "length plane24 = 256" "length planeFF = 256"
  by (simp_all add: plane00_def plane01_def plane02_def plane03_def plane04_def plane05_def plane1E_def
      plane1F_def plane21_def plane24_def planeFF_def)

lemma uni_plane_length: "uni_plane p = Some t \<Longrightarrow> length t = 256"
  by (auto simp: uni_plane_def plane_length split: if_splits)

text \<open>A property of every table is checked table by table.\<close>

definition tables_chk :: "(int \<Rightarrow> unicase_info \<Rightarrow> bool) \<Rightarrow> bool" where
  "tables_chk P \<longleftrightarrow> (\<forall>p t. uni_plane p = Some t \<longrightarrow> table_chk P (256 * p) t)"

lemma tables_chkI:
  assumes "table_chk P 0 plane00" "table_chk P 0x100 plane01" "table_chk P 0x200 plane02"
    "table_chk P 0x300 plane03" "table_chk P 0x400 plane04" "table_chk P 0x500 plane05"
    "table_chk P 0x1E00 plane1E" "table_chk P 0x1F00 plane1F" "table_chk P 0x2100 plane21"
    "table_chk P 0x2400 plane24" "table_chk P 0xFF00 planeFF"
  shows "tables_chk P"
  using assms by (auto simp: tables_chk_def uni_plane_def split: if_splits)

lemma tables_chkD:
  assumes "tables_chk P" and "uni_plane p = Some t" and "0 \<le> i" and "i < 256"
  shows "P (256 * p + i) (t ! nat i)"
  using table_chk_nth [of P "256 * p" t "nat i"] uni_plane_length [OF assms(2)] assms
  by (auto simp: tables_chk_def)

section \<open>Upper and lower case of a code point\<close>

definition case_lookup :: "(unicase_info \<Rightarrow> int) \<Rightarrow> int \<Rightarrow> int" where
  "case_lookup f n = (case uni_plane (n div 256 mod 256) of None \<Rightarrow> n | Some t \<Rightarrow> f (t ! nat (n mod 256)))"

definition idem_chk :: "(unicase_info \<Rightarrow> int) \<Rightarrow> int \<Rightarrow> unicase_info \<Rightarrow> bool" where
  "idem_chk f b e = (if f e = b then True else case_lookup f (f e) = f e)"

definition range_chk :: "int \<Rightarrow> unicase_info \<Rightarrow> bool" where
  "range_chk b e = (0 \<le> uc_toupper e \<and> uc_toupper e < 0x10000 \<and> 0 \<le> uc_tolower e \<and> uc_tolower e < 0x10000 \<and>
     (uc_toupper e = 0) = (b = 0) \<and> (uc_tolower e = 0) = (b = 0) \<and>
     (if b < 0x80 then uc_toupper e < 0x80 \<and> uc_tolower e < 0x80
      else if b < 0x800 then uc_toupper e < 0x800 \<and> uc_tolower e < 0x800 else True))"

text \<open>The four characters whose lower case is the lower case of another letter.\<close>

definition lower_merged :: "int \<Rightarrow> bool" where
  "lower_merged b = (if b = 0x130 then True else if b = 0x2126 then True else if b = 0x212A then True else b = 0x212B)"

definition fold_chk :: "int \<Rightarrow> unicase_info \<Rightarrow> bool" where
  "fold_chk b e =
     (if uc_tolower e = b then True else if lower_merged b then True
      else case_lookup uc_toupper (uc_tolower e) = uc_toupper e)"

lemma range_ok: "tables_chk range_chk"
  by (rule tables_chkI; code_simp)

lemma toupper_idem_ok: "tables_chk (idem_chk uc_toupper)"
  by (rule tables_chkI; code_simp)

lemma tolower_idem_ok: "tables_chk (idem_chk uc_tolower)"
  by (rule tables_chkI; code_simp)

lemma fold_ok: "tables_chk fold_chk"
  by (rule tables_chkI; code_simp)

text \<open>The entry a look-up uses: the same for a code point and for its lower 16 bits.\<close>

lemma case_lookup_entry:
  assumes "tables_chk P"
  shows "(\<forall>f. case_lookup f n = n) \<or>
         (\<exists>e. P (n mod 0x10000) e \<and> (\<forall>f. case_lookup f n = f e \<and> case_lookup f (n mod 0x10000) = f e))"
proof (cases "uni_plane (n div 256 mod 256)")
  case None
  then show ?thesis by (simp add: case_lookup_def)
next
  case (Some t)
  define p i where "p = n div 256 mod 256" and "i = n mod 256"
  have i: "0 \<le> i" "i < 256" and p: "0 \<le> p" "p < 256" by (simp_all add: p_def i_def)
  have n: "n mod 0x10000 = 256 * p + i"
    using mod_mult2_eq' [of n 256 256] by (simp add: p_def i_def)
  have "(256 * p + i) div 256 = p" "(256 * p + i) mod 256 = i" using i by auto
  then have "case_lookup f (256 * p + i) = f (t ! nat i)" for f
    using Some p by (simp add: case_lookup_def p_def [symmetric] mod_pos_pos_trivial)
  moreover have "case_lookup f n = f (t ! nat i)" for f
    using Some by (simp add: case_lookup_def i_def)
  moreover have "P (256 * p + i) (t ! nat i)"
    using tables_chkD [OF assms _ i, of p t] Some by (simp add: p_def)
  ultimately show ?thesis unfolding n by blast
qed

lemma case_lookup_idem:
  assumes "tables_chk (idem_chk f)"
  shows "case_lookup f (case_lookup f n) = case_lookup f n"
  using case_lookup_entry [OF assms, of n] by (auto simp: idem_chk_def split: if_splits)

lemma case_lookup_range:
  assumes "f = uc_toupper \<or> f = uc_tolower"
  shows "case_lookup f n = n \<or> 0 \<le> case_lookup f n \<and> case_lookup f n < 0x10000"
  using case_lookup_entry [OF range_ok, of n] assms by (auto simp: range_chk_def)

lemma case_lookup_0:
  assumes "0 \<le> n" and "n < 0x10000" and "f = uc_toupper \<or> f = uc_tolower"
  shows "case_lookup f n = 0 \<longleftrightarrow> n = 0"
  using case_lookup_entry [OF range_ok, of n] assms by (auto simp: range_chk_def mod_pos_pos_trivial)

lemma case_lookup_short:
  assumes "0 \<le> n" and "f = uc_toupper \<or> f = uc_tolower"
  shows "n < 0x80 \<Longrightarrow> case_lookup f n < 0x80" "n < 0x800 \<Longrightarrow> case_lookup f n < 0x800"
  using case_lookup_entry [OF range_ok, of n] assms
  by (auto simp: range_chk_def mod_pos_pos_trivial split: if_splits)

lemma case_lookup_fold:
  assumes "\<not> lower_merged n" and "0 \<le> n" and "n < 0x10000"
  shows "case_lookup uc_toupper (case_lookup uc_tolower n) = case_lookup uc_toupper n"
  using case_lookup_entry [OF fold_ok, of n] assms
  by (auto simp: fold_chk_def mod_pos_pos_trivial split: if_splits)

end
