(* ===== verification/Dico_Utf8.thy ===== *)
theory Dico_Utf8
  imports Dico_Utf8_Tables
begin

text \<open>
  The functions of \<^verbatim>\<open>lib/utf8.c\<close>: UTF-8 encoding and decoding, character widths and
  iterators, case mapping, and the string functions on wide strings (\<^verbatim>\<open>unsigned *\<close>,
  here \<open>wstring\<close>: the units before the terminating 0).
  A step of a pointer beyond the terminating NUL, and the use of a variable that was not
  set, give \<open>None\<close>. Functions that allocate get a flag for each allocation that
  says whether it succeeds.
\<close>

unbundle bit_operations_syntax

section \<open>Widths and iterators\<close>

definition chr_at :: "bytes \<Rightarrow> byte" where
  "chr_at s = (case s of [] \<Rightarrow> 0 | c # _ \<Rightarrow> c)"

definition utf8_char_width :: "bytes \<Rightarrow> nat" where
  "utf8_char_width s =
     (let p = chr_at s in
      if p \<le> 0x7f then 1
      else if 0xc2 \<le> p \<and> p \<le> 0xdf then 2
      else if 0xe0 \<le> p \<and> p \<le> 0xef then 3
      else if 0xf0 \<le> p \<and> p \<le> 0xf4 then 4
      else 0)"

function utf8_strlen :: "bytes \<Rightarrow> nat option" where
  "utf8_strlen s =
     (if s = [] \<or> utf8_char_width s = 0 then Some 0
      else if utf8_char_width s \<le> length s
           then map_option Suc (utf8_strlen (drop (utf8_char_width s) s))
           else None)"
  by pat_completeness auto
termination
  by (relation "measure length") auto

declare utf8_strlen.simps [simp del]

record utf8_iterator =
  ui_string :: bytes
  ui_curptr :: nat
  ui_curwidth :: nat

definition utf8_iter0 :: "utf8_iterator \<Rightarrow> (int \<times> utf8_iterator) option" where
  "utf8_iter0 itr =
     (if ui_curptr itr \<le> length (ui_string itr)
      then (let n = utf8_char_width (drop (ui_curptr itr) (ui_string itr)) in
            Some (if n = 0 then (1, itr) else (0, itr\<lparr>ui_curwidth := n\<rparr>)))
      else None)"

definition utf8_iter_end_p :: "utf8_iterator \<Rightarrow> bool option" where
  "utf8_iter_end_p itr =
     (if ui_curptr itr \<le> length (ui_string itr)
      then Some (chr_at (drop (ui_curptr itr) (ui_string itr)) = 0) else None)"

definition utf8_iter_first :: "utf8_iterator \<Rightarrow> bytes \<Rightarrow> (int \<times> utf8_iterator) option" where
  "utf8_iter_first itr ptr = utf8_iter0 (itr\<lparr>ui_string := ptr, ui_curptr := 0\<rparr>)"

definition utf8_iter_next :: "utf8_iterator \<Rightarrow> (int \<times> utf8_iterator) option" where
  "utf8_iter_next itr = do {
     e \<leftarrow> utf8_iter_end_p itr;
     (if e then Some (-1, itr)
      else utf8_iter0 (itr\<lparr>ui_curptr := ui_curptr itr + ui_curwidth itr\<rparr>)) }"

text \<open>The byte at \<^verbatim>\<open>curptr\<close>, and the macro that tells whether it is a character of its own.\<close>

definition iter_byte :: "utf8_iterator \<Rightarrow> byte" where
  "iter_byte itr = chr_at (drop (ui_curptr itr) (ui_string itr))"

definition utf8_iter_isascii :: "utf8_iterator \<Rightarrow> bool" where
  "utf8_iter_isascii itr \<longleftrightarrow> ui_curwidth itr = 1 \<and> iter_byte itr \<le> 0x7f"

section \<open>Encoding and decoding\<close>

text \<open>The bits \<^verbatim>\<open>utf8_wctomb\<close> sets after it has stored the last \<open>count\<close>-th byte.\<close>

definition wctomb_mark :: "nat \<Rightarrow> wchar" where
  "wctomb_mark c =
     (if c = 6 then 0x4000000 else if c = 5 then 0x200000 else if c = 4 then 0x10000
      else if c = 3 then 0x800 else 0xc0)"

fun wctomb_switch :: "nat \<Rightarrow> wchar \<Rightarrow> bytes \<Rightarrow> bytes" where
  "wctomb_switch c wc r =
     (if c \<le> 1 then ucast wc # r
      else wctomb_switch (c - 1) (drop_bit 6 wc OR wctomb_mark c) (ucast (0x80 OR (wc AND 0x3f)) # r))"

declare wctomb_switch.simps [simp del]

definition wctomb_count :: "wchar \<Rightarrow> nat option" where
  "wctomb_count wc =
     (if wc < 0x80 then Some 1
      else if wc < 0x800 then Some 2
      else if wc < 0x10000 then Some 3
      else if wc < 0x200000 then Some 4
      else if wc < 0x4000000 then Some 5
      else if wc \<le> 0x7fffffff then Some 6
      else None)"

definition utf8_wctomb :: "wchar \<Rightarrow> bytes option" where
  "utf8_wctomb wc = map_option (\<lambda>c. wctomb_switch c wc []) (wctomb_count wc)"

text \<open>
  \<^verbatim>\<open>utf8_mbtowc_internal\<close> gets its bytes from a callback, which returns a C \<^verbatim>\<open>int\<close>
  that is positive while there is data. The second component is the callback's state.
\<close>

type_synonym 's reader = "'s \<Rightarrow> wchar \<times> 's"

definition nextc :: "'s reader \<Rightarrow> (wchar \<Rightarrow> 's \<Rightarrow> (errno + nat \<times> wchar) \<times> 's) \<Rightarrow> 's \<Rightarrow>
    (errno + nat \<times> wchar) \<times> 's" where
  "nextc read k d = (case read d of (n, d') \<Rightarrow> if sint n \<le> 0 then (Inl ENODATA, d') else k n d')"

definition utf8_mbtowc_internal :: "'s reader \<Rightarrow> 's \<Rightarrow> (errno + nat \<times> wchar) \<times> 's" where
  "utf8_mbtowc_internal read data =
     nextc read (\<lambda>s0.
       if s0 < 0x80 then Pair (Inr (1, s0))
       else if s0 < 0xc2 then Pair (Inl EILSEQ)
       else if s0 < 0xe0 then
         nextc read (\<lambda>s1.
           if \<not> (s1 XOR 0x80 < 0x40) then Pair (Inl EILSEQ)
           else Pair (Inr (2, push_bit 6 (s0 AND 0x1f) OR (s1 XOR 0x80))))
       else if s0 < 0xf0 then
         nextc read (\<lambda>s1. nextc read (\<lambda>s2.
           if \<not> (s1 XOR 0x80 < 0x40 \<and> s2 XOR 0x80 < 0x40 \<and> (s0 \<ge> 0xe1 \<or> s1 \<ge> 0xa0))
           then Pair (Inl EILSEQ)
           else Pair (Inr (3, push_bit 12 (s0 AND 0x0f) OR push_bit 6 (s1 XOR 0x80) OR (s2 XOR 0x80)))))
       else if s0 < 0xf8 then
         nextc read (\<lambda>s1. nextc read (\<lambda>s2. nextc read (\<lambda>s3.
           if \<not> (s1 XOR 0x80 < 0x40 \<and> s2 XOR 0x80 < 0x40 \<and> s3 XOR 0x80 < 0x40 \<and>
                (s0 \<ge> 0xf1 \<or> s1 \<ge> 0x90))
           then Pair (Inl EILSEQ)
           else Pair (Inr (4, push_bit 18 (s0 AND 0x07) OR push_bit 12 (s1 XOR 0x80) OR
                              push_bit 6 (s2 XOR 0x80) OR (s3 XOR 0x80))))))
       else Pair (Inl EILSEQ)) data"

definition next_char_from_string :: "bytes reader" where
  "next_char_from_string p = (case p of [] \<Rightarrow> (0, []) | c # p' \<Rightarrow> (ucast c, p'))"

definition utf8_mbtowc :: "bytes \<Rightarrow> nat \<Rightarrow> errno + nat \<times> wchar" where
  "utf8_mbtowc r len =
     fst (utf8_mbtowc_internal next_char_from_string (take (if len \<noteq> 0 then len else utf8_char_width r) r))"

text \<open>A character whose decoding must have succeeded for its value to be set.\<close>

definition decoded :: "bytes \<Rightarrow> nat \<Rightarrow> wchar option" where
  "decoded r len = (case utf8_mbtowc r len of Inl _ \<Rightarrow> None | Inr (_, wc) \<Rightarrow> Some wc)"

section \<open>Case mapping and comparison of multibyte strings\<close>

definition utf8_wc_toupper :: "wchar \<Rightarrow> wchar" where
  "utf8_wc_toupper wc =
     (let plane = drop_bit 8 wc AND 0xFF in
      case uni_plane (uint plane) of
        None \<Rightarrow> wc | Some t \<Rightarrow> word_of_int (uc_toupper (t ! unat (wc AND 0xFF))))"

definition utf8_wc_tolower :: "wchar \<Rightarrow> wchar" where
  "utf8_wc_tolower wc =
     (let plane = drop_bit 8 wc AND 0xFF in
      case uni_plane (uint plane) of
        None \<Rightarrow> wc | Some t \<Rightarrow> word_of_int (uc_tolower (t ! unat (wc AND 0xFF))))"

definition wcmp :: "wchar \<Rightarrow> wchar \<Rightarrow> int" where
  "wcmp wa wb = (if wa < wb then -1 else if wa > wb then 1 else 0)"

definition utf8_symcmp :: "bytes \<Rightarrow> bytes \<Rightarrow> int option" where
  "utf8_symcmp a b = do {
     wa \<leftarrow> decoded a (utf8_char_width a);
     wb \<leftarrow> decoded b (utf8_char_width b);
     Some (wcmp wa wb) }"

definition urf8_symcasecmp :: "bytes \<Rightarrow> bytes \<Rightarrow> int option" where
  "urf8_symcasecmp a b = do {
     wa \<leftarrow> decoded a (utf8_char_width a);
     wb \<leftarrow> decoded b (utf8_char_width b);
     Some (wcmp (utf8_wc_toupper wa) (utf8_wc_toupper wb)) }"

text \<open>
  The body of the loops of \<^verbatim>\<open>utf8_strcasecmp\<close> and \<^verbatim>\<open>utf8_strncasecmp\<close> on two
  non-empty strings: a verdict, or the widths to advance by.
\<close>

definition casecmp_step :: "bytes \<Rightarrow> bytes \<Rightarrow> (int + nat \<times> nat) option" where
  "casecmp_step a b =
     (let alen = utf8_char_width a; blen = utf8_char_width b in
      if alen = 0 then Some (Inl (-1))
      else if blen = 0 then Some (Inl 1)
      else do {
        wa \<leftarrow> decoded a alen;
        wb \<leftarrow> decoded b blen;
        let r = wcmp (utf8_wc_toupper wa) (utf8_wc_toupper wb);
        Some (if r \<noteq> 0 then Inl r else Inr (alen, blen)) })"

function utf8_strcasecmp :: "bytes \<Rightarrow> bytes \<Rightarrow> int option" where
  "utf8_strcasecmp a b =
     (if a = [] then Some (if b \<noteq> [] then -1 else 0)
      else if b = [] then Some 1
      else case casecmp_step a b of
             None \<Rightarrow> None
           | Some (Inl r) \<Rightarrow> Some r
           | Some (Inr (alen, blen)) \<Rightarrow>
               (if 0 < alen \<and> alen \<le> length a \<and> blen \<le> length b
                then utf8_strcasecmp (drop alen a) (drop blen b) else None))"
  by pat_completeness auto
termination
  by (relation "measure (\<lambda>(a, b). length a)") auto

declare utf8_strcasecmp.simps [simp del]

fun utf8_strncasecmp :: "bytes \<Rightarrow> bytes \<Rightarrow> nat \<Rightarrow> int option" where
  "utf8_strncasecmp a b 0 = Some 0"
| "utf8_strncasecmp a b (Suc n) =
     (if a = [] then Some (if b = [] then 0 else -1)
      else if b = [] then Some 1
      else case casecmp_step a b of
             None \<Rightarrow> None
           | Some (Inl r) \<Rightarrow> Some r
           | Some (Inr (alen, blen)) \<Rightarrow>
               (if alen \<le> length a \<and> blen \<le> length b
                then utf8_strncasecmp (drop alen a) (drop blen b) n else None))"

text \<open>
  \<^verbatim>\<open>utf8_toupper\<close> and \<^verbatim>\<open>utf8_tolower\<close> work in place: the encoding of the mapped
  character is written over the original one before the lengths are compared, so on a
  mismatch the string is already changed. \<open>None\<close>: more bytes are written than are left.
\<close>

function utf8_case_loop :: "(wchar \<Rightarrow> wchar) \<Rightarrow> nat \<Rightarrow> bytes \<Rightarrow> (nat \<times> bytes) option" where
  "utf8_case_loop f len s =
     (if s = [] then Some (0, [])
      else case utf8_mbtowc s len of
             Inl _ \<Rightarrow> Some (1, s)
           | Inr (rc, wc) \<Rightarrow>
               (case utf8_wctomb (f wc) of
                  None \<Rightarrow> Some (1, s)
                | Some r \<Rightarrow>
                    (if length r > length s then None
                     else if rc \<noteq> length r \<or> rc = 0 then Some (1, r @ drop (length r) s)
                     else map_option (\<lambda>(c, t). (c, r @ t)) (utf8_case_loop f len (drop rc s)))))"
  by pat_completeness auto
termination
  by (relation "measure (\<lambda>(f, len, s). length s)") auto

declare utf8_case_loop.simps [simp del]

definition utf8_toupper :: "bytes \<Rightarrow> (nat \<times> bytes) option" where
  "utf8_toupper s = utf8_case_loop utf8_wc_toupper (length s) s"

definition utf8_tolower :: "bytes \<Rightarrow> (nat \<times> bytes) option" where
  "utf8_tolower s = utf8_case_loop utf8_wc_tolower (length s) s"

section \<open>Wide strings\<close>

definition utf8_wc_strlen :: "wstring \<Rightarrow> nat" where
  "utf8_wc_strlen s = length s"

text \<open>
  \<^verbatim>\<open>utf8_wc_strdup\<close> allocates one unit more than the string has but copies that number of
  bytes, not of units: the units copied whole, then the low bytes of the next unit (on a
  little-endian machine), then the zeros of \<^verbatim>\<open>calloc\<close>. The result is the wide string
  found there.
\<close>

definition utf8_wc_strdup :: "wstring \<Rightarrow> wstring" where
  "utf8_wc_strdup s =
     (let len = utf8_wc_strlen s + 1;
          part = (if len div 4 < length s then take_bit (8 * (len mod 4)) (s ! (len div 4)) else 0)
      in takeWhile (\<lambda>w. w \<noteq> 0) (take (len div 4) s @ [part]))"

fun wc_hash_loop :: "64 word \<Rightarrow> wstring \<Rightarrow> 64 word" where
  "wc_hash_loop value [] = value"
| "wc_hash_loop value (wc # ws) = wc_hash_loop (ucast wc + (push_bit 16 value OR drop_bit 48 value)) ws"

definition utf8_wc_hash_string :: "wstring \<Rightarrow> 64 word \<Rightarrow> 64 word option" where
  "utf8_wc_hash_string ws n_buckets =
     (if n_buckets = 0 then None else Some (wc_hash_loop 0 ws mod n_buckets))"

fun utf8_wc_strcmp :: "wstring \<Rightarrow> wstring \<Rightarrow> int" where
  "utf8_wc_strcmp [] [] = 0"
| "utf8_wc_strcmp [] (b # bs) = -1"
| "utf8_wc_strcmp (a # as) [] = 1"
| "utf8_wc_strcmp (a # as) (b # bs) = (if a = b then utf8_wc_strcmp as bs else wcmp a b)"

text \<open>\<^verbatim>\<open>utf8_wc_strncmp\<close>: when both strings end before \<open>n\<close> units the result is -1.\<close>

fun utf8_wc_strncmp :: "wstring \<Rightarrow> wstring \<Rightarrow> nat \<Rightarrow> int" where
  "utf8_wc_strncmp as bs 0 = 0"
| "utf8_wc_strncmp [] [] (Suc n) = -1"
| "utf8_wc_strncmp [] (b # bs) (Suc n) = -1"
| "utf8_wc_strncmp (a # as) [] (Suc n) = 1"
| "utf8_wc_strncmp (a # as) (b # bs) (Suc n) =
     (if a = b then utf8_wc_strncmp as bs n else wcmp a b)"

text \<open>The verdict on two units, 0 when they are equal up to case.\<close>

definition wc_casecmp1 :: "wchar \<Rightarrow> wchar \<Rightarrow> int" where
  "wc_casecmp1 a b = (if a \<noteq> b then wcmp (utf8_wc_toupper a) (utf8_wc_toupper b) else 0)"

fun utf8_wc_strcasecmp :: "wstring \<Rightarrow> wstring \<Rightarrow> int" where
  "utf8_wc_strcasecmp [] bs = (if bs \<noteq> [] then -1 else 0)"
| "utf8_wc_strcasecmp (a # as) [] = 1"
| "utf8_wc_strcasecmp (a # as) (b # bs) =
     (let r = wc_casecmp1 a b in if r \<noteq> 0 then r else utf8_wc_strcasecmp as bs)"

fun utf8_wc_strncasecmp :: "wstring \<Rightarrow> wstring \<Rightarrow> nat \<Rightarrow> int" where
  "utf8_wc_strncasecmp as bs 0 = 0"
| "utf8_wc_strncasecmp [] bs (Suc n) = (if bs \<noteq> [] then -1 else 0)"
| "utf8_wc_strncasecmp (a # as) [] (Suc n) = 1"
| "utf8_wc_strncasecmp (a # as) (b # bs) (Suc n) =
     (let r = wc_casecmp1 a b in
      if r \<noteq> 0 then r else if n = 0 then 0 else utf8_wc_strncasecmp as bs n)"

text \<open>The searches return an index into the string they search.\<close>

fun utf8_wc_strchr :: "wstring \<Rightarrow> wchar \<Rightarrow> nat option" where
  "utf8_wc_strchr [] chr = None"
| "utf8_wc_strchr (c # s) chr = (if c = chr then Some 0 else map_option Suc (utf8_wc_strchr s chr))"

fun wc_strchr_ci_loop :: "wstring \<Rightarrow> wchar \<Rightarrow> nat option" where
  "wc_strchr_ci_loop [] u = None"
| "wc_strchr_ci_loop (c # s) u =
     (if utf8_wc_toupper c = u then Some 0 else map_option Suc (wc_strchr_ci_loop s u))"

definition utf8_wc_strchr_ci :: "wstring \<Rightarrow> wchar \<Rightarrow> nat option" where
  "utf8_wc_strchr_ci s chr = wc_strchr_ci_loop s (utf8_wc_toupper chr)"

text \<open>
  The inner loop of \<^verbatim>\<open>utf8_wc_strstr\<close>: it starts with a non-empty rest of the needle and
  tests for its end only after both pointers moved.
\<close>

fun wc_strstr_match :: "wstring \<Rightarrow> wstring \<Rightarrow> bool" where
  "wc_strstr_match (h # hs) (n # ns) = (if h \<noteq> n then False else if ns = [] then True else wc_strstr_match hs ns)"
| "wc_strstr_match [] (n # ns) = False"
| "wc_strstr_match hs [] = False"

fun wc_strstr_loop :: "wchar \<Rightarrow> wstring \<Rightarrow> wstring \<Rightarrow> nat option" where
  "wc_strstr_loop first rest [] = None"
| "wc_strstr_loop first rest (h # hs) =
     (if h = first \<and> wc_strstr_match hs rest then Some 0 else map_option Suc (wc_strstr_loop first rest hs))"

definition utf8_wc_strstr :: "wstring \<Rightarrow> wstring \<Rightarrow> nat option" where
  "utf8_wc_strstr haystack needle =
     (case needle of
        [] \<Rightarrow> Some 0
      | [c] \<Rightarrow> utf8_wc_strchr haystack c
      | c # rest \<Rightarrow> wc_strstr_loop c rest haystack)"

fun wc_quote_loop :: "wstring \<Rightarrow> wstring" where
  "wc_quote_loop [] = []"
| "wc_quote_loop (c # s) =
     (if c = 0x5c \<or> c = 0x22 then 0x5c # c # wc_quote_loop s else c # wc_quote_loop s)"

definition utf8_wc_quote :: "bool \<Rightarrow> wstring \<Rightarrow> wstring option" where
  "utf8_wc_quote alloc s = (if alloc then Some (wc_quote_loop s) else None)"

text \<open>
  \<^verbatim>\<open>utf8_wc_to_mbstr\<close>: the characters are encoded in a buffer of four bytes, so that a
  character that needs more is stored out of bounds (\<open>None\<close>).
\<close>

fun mbstr_loop :: "wstring \<Rightarrow> bytes res" where
  "mbstr_loop [] = Some (Inr [])"
| "mbstr_loop (wc # ws) =
     (case utf8_wctomb wc of
        None \<Rightarrow> Some (Inl EINVAL)
      | Some r \<Rightarrow>
          (if length r > 4 then None
           else map_option (map_sum id (append r)) (mbstr_loop ws)))"

definition utf8_wc_to_mbstr :: "bool \<Rightarrow> wstring \<Rightarrow> nat \<Rightarrow> bytes res" where
  "utf8_wc_to_mbstr alloc wordbuf wordlen = do {
     r \<leftarrow> mbstr_loop (take wordlen wordbuf);
     Some (case r of Inl e \<Rightarrow> Inl e | Inr s \<Rightarrow> if alloc then Inr s else Inl ENOMEM) }"

definition utf8_wc_strupper :: "wstring \<Rightarrow> wstring" where
  "utf8_wc_strupper s = map utf8_wc_toupper s"

definition utf8_wc_strlower :: "wstring \<Rightarrow> wstring" where
  "utf8_wc_strlower s = map utf8_wc_tolower s"

function mbstr_to_wc_loop :: "bytes \<Rightarrow> errno + wstring" where
  "mbstr_to_wc_loop s =
     (if s = [] then Inr []
      else case utf8_mbtowc s (length s) of
             Inl e \<Rightarrow> Inl e
           | Inr (rc, wc) \<Rightarrow> if rc = 0 then Inl EILSEQ else map_sum id ((#) wc) (mbstr_to_wc_loop (drop rc s)))"
  by pat_completeness auto
termination
  by (relation "measure length") auto

declare mbstr_to_wc_loop.simps [simp del]

text \<open>The result is the wide string and what is stored in \<^verbatim>\<open>*plen\<close>: the length in bytes.\<close>

definition utf8_mbstr_to_wc :: "bool \<Rightarrow> bytes \<Rightarrow> errno + wstring \<times> nat" where
  "utf8_mbstr_to_wc alloc s =
     (if \<not> alloc then Inl ENOMEM else map_sum id (\<lambda>w. (w, length s)) (mbstr_to_wc_loop s))"

definition ISWS :: "wchar \<Rightarrow> bool" where
  "ISWS c \<longleftrightarrow> c = 0x20 \<or> c = 0x09 \<or> c = 0x0a"

function norm_wc_loop :: "bytes \<Rightarrow> bool \<Rightarrow> errno + wstring" where
  "norm_wc_loop s inws =
     (if s = [] then Inr []
      else case utf8_mbtowc s (length s) of
             Inl e \<Rightarrow> Inl e
           | Inr (rc, wc) \<Rightarrow>
               (if rc = 0 then Inl EILSEQ
                else if rc = 1 \<and> ISWS wc
                     then (if \<not> inws then map_sum id ((#) 0x20) (norm_wc_loop (drop rc s) True)
                           else norm_wc_loop (drop rc s) inws)
                     else map_sum id ((#) wc) (norm_wc_loop (drop rc s) False)))"
  by pat_completeness auto
termination
  by (relation "measure (\<lambda>(s, inws). length s)") auto

declare norm_wc_loop.simps [simp del]

text \<open>\<^verbatim>\<open>*plen\<close> counts the terminating 0.\<close>

definition utf8_mbstr_to_norm_wc :: "bool \<Rightarrow> bytes \<Rightarrow> errno + wstring \<times> nat" where
  "utf8_mbstr_to_norm_wc alloc s =
     (if \<not> alloc then Inl ENOMEM else map_sum id (\<lambda>w. (w, length w + 1)) (norm_wc_loop s False))"

definition utf8_quote :: "bool \<Rightarrow> bool \<Rightarrow> bool \<Rightarrow> bytes \<Rightarrow> bytes res" where
  "utf8_quote a1 a2 a3 s =
     (case utf8_mbstr_to_wc a1 s of
        Inl e \<Rightarrow> Some (Inl e)
      | Inr (ws, _) \<Rightarrow>
          (case utf8_wc_quote a2 ws of
             None \<Rightarrow> Some (Inl ENOMEM)
           | Some q \<Rightarrow> utf8_wc_to_mbstr a3 q (utf8_wc_strlen q)))"

end
