(* ===== verification/Dico_Utf8_Props.thy ===== *)
theory Dico_Utf8_Props
  imports Dico_Utf8 "HOL-Library.Sublist"
begin

text \<open>
  What \<^verbatim>\<open>lib/utf8.c\<close> guarantees: encoding and decoding are inverse to each other on
  single characters and on whole strings, overlong forms are rejected, the case mapping is
  idempotent and the case-insensitive comparisons compare upper-cased strings, searches
  find the first occurrence.
\<close>

section \<open>Bits of the constants\<close>

lemma bit_less_exp:
  assumes "(w :: 'a::len word) < 2 ^ k" and "k < LENGTH('a)" and "bit w n"
  shows "n < k"
proof -
  have "uint w < 2 ^ k" using assms(1,2) word_2p_lem [of k w] by (simp add: word_size)
  then have "take_bit k (uint w) = uint w" by (simp add: take_bit_int_eq_self)
  moreover have "bit (uint w) n" using assms(3) by (simp add: bit_uint_iff bit_imp_le_length)
  ultimately show ?thesis by (metis bit_take_bit_iff)
qed

lemma bit_masks:
  "bit (0x3f :: wchar) n \<longleftrightarrow> n < 6" "bit (0x1f :: wchar) n \<longleftrightarrow> n < 5" "bit (0x0f :: wchar) n \<longleftrightarrow> n < 4"
  "bit (0x07 :: wchar) n \<longleftrightarrow> n < 3"
proof -
  have "(0x3f :: wchar) = mask 6" "(0x1f :: wchar) = mask 5" "(0x0f :: wchar) = mask 4" "(0x07 :: wchar) = mask 3"
    by (simp_all add: mask_eq_exp_minus_1)
  then show "bit (0x3f :: wchar) n \<longleftrightarrow> n < 6" "bit (0x1f :: wchar) n \<longleftrightarrow> n < 5"
    "bit (0x0f :: wchar) n \<longleftrightarrow> n < 4" "bit (0x07 :: wchar) n \<longleftrightarrow> n < 3"
    by (simp_all only: bit_mask_iff) auto
qed

lemma bit_marks:
  "bit (0x80 :: wchar) n \<longleftrightarrow> n = 7" "bit (0x800 :: wchar) n \<longleftrightarrow> n = 11"
  "bit (0x10000 :: wchar) n \<longleftrightarrow> n = 16" "bit (0xc0 :: wchar) n \<longleftrightarrow> n = 6 \<or> n = 7"
  "bit (0xe0 :: wchar) n \<longleftrightarrow> n = 5 \<or> n = 6 \<or> n = 7" "bit (0xf0 :: wchar) n \<longleftrightarrow> n = 4 \<or> n = 5 \<or> n = 6 \<or> n = 7"
proof -
  have e: "(0x80 :: wchar) = 2 ^ 7" "(0x800 :: wchar) = 2 ^ 11" "(0x10000 :: wchar) = 2 ^ 16" by simp_all
  have c: "(0xc0 :: wchar) = push_bit 6 (mask 2)" "(0xe0 :: wchar) = push_bit 5 (mask 3)"
    "(0xf0 :: wchar) = push_bit 4 (mask 4)" by (simp_all add: mask_eq_exp_minus_1)
  show "bit (0x80 :: wchar) n \<longleftrightarrow> n = 7" "bit (0x800 :: wchar) n \<longleftrightarrow> n = 11" "bit (0x10000 :: wchar) n \<longleftrightarrow> n = 16"
    unfolding e by (auto simp: bit_exp_iff simp del: power_numeral)
  show "bit (0xc0 :: wchar) n \<longleftrightarrow> n = 6 \<or> n = 7" "bit (0xe0 :: wchar) n \<longleftrightarrow> n = 5 \<or> n = 6 \<or> n = 7"
    "bit (0xf0 :: wchar) n \<longleftrightarrow> n = 4 \<or> n = 5 \<or> n = 6 \<or> n = 7"
    unfolding c by (auto simp: bit_push_bit_iff bit_mask_iff)
qed

lemmas wbits = bit_masks bit_marks bit_or_iff bit_and_iff bit_xor_iff bit_push_bit_iff bit_drop_bit_eq
  possible_bit_word comp_apply

lemmas warith = word_less_nat_alt word_le_nat_alt unat_word_ariths unat_drop_bit_eq drop_bit_eq_div

lemma ucast_byte: "x < 0x100 \<Longrightarrow> ucast (ucast (x :: wchar) :: byte) = x"
  by (rule bit_word_eqI) (use bit_less_exp [of x 8] in \<open>auto simp: bit_simps\<close>)

lemma sint_pos: "0 < x \<Longrightarrow> x < 0x100 \<Longrightarrow> \<not> sint (x :: wchar) \<le> 0"
proof -
  assume a: "0 < x" "x < 0x100"
  then have "uint x < 2 ^ 31" "0 < uint x" by (simp_all add: word_less_def)
  then have "sint x = uint x" by (simp add: sint_uint signed_take_bit_int_eq_self)
  with \<open>0 < uint x\<close> show ?thesis by simp
qed

section \<open>Continuation bytes\<close>

definition cont :: "wchar \<Rightarrow> wchar" where
  "cont x = 0x80 OR (x AND 0x3f)"

lemma cont_xor: "cont x XOR 0x80 = x AND 0x3f"
  unfolding cont_def by (rule bit_word_eqI) (simp only: wbits, auto)

lemma and_3f_less: "(x :: wchar) AND 0x3f < 0x40"
proof -
  have "x AND 0x3f = take_bit 6 x" by (rule bit_word_eqI) (simp only: wbits bit_take_bit_iff, auto)
  then show ?thesis
    using take_bit_nat_less_exp [of 6 "unat x"] by (simp add: word_less_nat_alt unsigned_take_bit_eq)
qed

lemma cont_add: "cont x = (x AND 0x3f) + 0x80"
proof -
  have "(x AND 0x3f) AND 0x80 = 0" by (rule bit_word_eqI) (simp only: wbits, auto)
  then show ?thesis by (simp add: cont_def disjunctive_add_eq_or or.commute)
qed

lemma cont_range: "0x80 \<le> cont x" "cont x < 0xc0"
  using and_3f_less [of x] by (simp_all add: cont_add warith)

lemma cont_mark: "n \<ge> 6 \<Longrightarrow> (\<And>k. bit m k \<Longrightarrow> k \<ge> 6) \<Longrightarrow> cont (x OR m) = cont x"
  unfolding cont_def by (rule bit_word_eqI) (simp only: wbits, fastforce)

text \<open>A byte that passes the decoder's test is the continuation byte of its low bits.\<close>

lemma cont_inverse:
  assumes "s XOR 0x80 < (0x40 :: wchar)"
  shows "cont (s XOR 0x80) = s" and "(s XOR 0x80) AND 0x3f = s XOR 0x80"
proof -
  have b: "bit (s XOR 0x80) n \<Longrightarrow> n < 6" for n using bit_less_exp [of "s XOR 0x80" 6 n] assms by simp
  show "(s XOR 0x80) AND 0x3f = s XOR 0x80"
  proof (rule bit_word_eqI)
    fix n
    show "bit ((s XOR 0x80) AND 0x3f) n = bit (s XOR 0x80) n" using b [of n] by (simp only: bit_and_iff bit_masks) blast
  qed
  then have "cont (s XOR 0x80) = 0x80 OR (s XOR 0x80)" by (simp add: cont_def)
  also have "\<dots> = s"
  proof (rule bit_word_eqI)
    fix n
    show "bit (0x80 OR (s XOR 0x80)) n = bit s n" using b [of n] by (simp only: wbits) fastforce
  qed
  finally show "cont (s XOR 0x80) = s" .
qed

section \<open>The encoder in closed form\<close>

lemma wctomb_1: "wc < 0x80 \<Longrightarrow> utf8_wctomb wc = Some [ucast wc]"
  by (simp add: utf8_wctomb_def wctomb_count_def wctomb_switch.simps)

lemma wctomb_2:
  "0x80 \<le> wc \<Longrightarrow> wc < 0x800 \<Longrightarrow> utf8_wctomb wc = Some [ucast (drop_bit 6 wc OR 0xc0), ucast (cont wc)]"
  by (simp add: utf8_wctomb_def wctomb_count_def wctomb_switch.simps wctomb_mark_def cont_def)

lemma lead_3: "drop_bit 6 (drop_bit 6 wc OR 0x800) OR 0xc0 = drop_bit 12 wc OR (0xe0 :: wchar)"
  by (rule bit_word_eqI) (simp only: wbits, auto)

lemma cont_3: "cont (drop_bit 6 wc OR 0x800) = cont (drop_bit 6 wc)"
  by (rule cont_mark [of 6]) (auto simp only: bit_marks)

lemma wctomb_3:
  assumes "0x800 \<le> wc" and "wc < 0x10000"
  shows "utf8_wctomb wc = Some [ucast (drop_bit 12 wc OR 0xe0), ucast (cont (drop_bit 6 wc)), ucast (cont wc)]"
proof -
  have "wctomb_count wc = Some 3" using assms by (auto simp: wctomb_count_def warith)
  then show ?thesis
    using lead_3 [of wc] cont_3 [of wc]
    by (simp add: utf8_wctomb_def wctomb_switch.simps wctomb_mark_def cont_def)
qed

lemma lead_4: "drop_bit 6 (drop_bit 6 (drop_bit 6 wc OR 0x10000) OR 0x800) OR 0xc0 = drop_bit 18 wc OR (0xf0 :: wchar)"
  by (rule bit_word_eqI) (simp only: wbits, auto)

lemma cont_4:
  "cont (drop_bit 6 wc OR 0x10000) = cont (drop_bit 6 wc)"
  "cont (drop_bit 6 (drop_bit 6 wc OR 0x10000) OR 0x800) = cont (drop_bit 12 wc)"
proof -
  show "cont (drop_bit 6 wc OR 0x10000) = cont (drop_bit 6 wc)"
    by (rule cont_mark [of 6]) (auto simp only: bit_marks)
  show "cont (drop_bit 6 (drop_bit 6 wc OR 0x10000) OR 0x800) = cont (drop_bit 12 wc)"
    unfolding cont_def by (rule bit_word_eqI) (simp only: wbits, auto)
qed

lemma wctomb_4:
  assumes "0x10000 \<le> wc" and "wc < 0x200000"
  shows "utf8_wctomb wc =
     Some [ucast (drop_bit 18 wc OR 0xf0), ucast (cont (drop_bit 12 wc)), ucast (cont (drop_bit 6 wc)), ucast (cont wc)]"
proof -
  have "wctomb_count wc = Some 4" using assms by (auto simp: wctomb_count_def warith)
  then show ?thesis
    using lead_4 [of wc] cont_4 [of wc]
    by (simp add: utf8_wctomb_def wctomb_switch.simps wctomb_mark_def cont_def)
qed

section \<open>Encoding and decoding one character\<close>

lemma or_add: "(\<And>n. bit a n \<Longrightarrow> \<not> bit b n) \<Longrightarrow> a OR b = a + (b :: wchar)"
proof -
  assume "\<And>n. bit a n \<Longrightarrow> \<not> bit b n"
  then have "a AND b = 0" by (intro bit_word_eqI) (auto simp: bit_and_iff)
  then show ?thesis by (rule disjunctive_add_eq_or [symmetric])
qed

lemma lead_add:
  "wc < 0x800 \<Longrightarrow> drop_bit 6 wc OR 0xc0 = drop_bit 6 wc + (0xc0 :: wchar)"
  "wc < 0x10000 \<Longrightarrow> drop_bit 12 wc OR 0xe0 = drop_bit 12 wc + (0xe0 :: wchar)"
  "wc < 0x200000 \<Longrightarrow> drop_bit 18 wc OR 0xf0 = drop_bit 18 wc + (0xf0 :: wchar)"
proof -
  show "wc < 0x800 \<Longrightarrow> drop_bit 6 wc OR 0xc0 = drop_bit 6 wc + (0xc0 :: wchar)"
    by (rule or_add, simp only: wbits) (use bit_less_exp [of wc 11] in force)
  show "wc < 0x10000 \<Longrightarrow> drop_bit 12 wc OR 0xe0 = drop_bit 12 wc + (0xe0 :: wchar)"
    by (rule or_add, simp only: wbits) (use bit_less_exp [of wc 16] in force)
  show "wc < 0x200000 \<Longrightarrow> drop_bit 18 wc OR 0xf0 = drop_bit 18 wc + (0xf0 :: wchar)"
    by (rule or_add, simp only: wbits) (use bit_less_exp [of wc 21] in force)
qed

lemma sint_ucast_byte: "sint (ucast (b :: byte) :: wchar) = uint b"
proof -
  have "uint (ucast b :: wchar) = uint b" by (simp add: unsigned_ucast_eq take_bit_int_eq_self bintr_uint)
  moreover have "uint b < 2 ^ 31" "- (2 ^ 31) \<le> uint b"
    using uint_bounded [of b] by (simp_all add: order_trans [OF _ uint_ge_0])
  then have "signed_take_bit 31 (uint b) = uint b" by (intro signed_take_bit_int_eq_self)
  ultimately show ?thesis by (simp add: sint_uint)
qed

lemma nextc_Nil [simp]: "nextc next_char_from_string k [] = (Inl ENODATA, [])"
  by (simp add: nextc_def next_char_from_string_def)

lemma nextc_Cons [simp]:
  "nextc next_char_from_string k (b # p) = (if b = 0 then (Inl ENODATA, p) else k (ucast b) p)"
  by (auto simp: nextc_def next_char_from_string_def sint_ucast_byte uint_0_iff order.order_iff_strict)

lemma ucast_byte_0: "ucast (x :: wchar) = (0 :: byte) \<Longrightarrow> x < 0x100 \<Longrightarrow> x = 0"
  using ucast_byte [of x] by simp

lemma cont_byte: "ucast (ucast (cont x) :: byte) = cont x" "ucast (cont x) \<noteq> (0 :: byte)"
proof -
  have l: "cont x < 0x100" using cont_range(2) [of x] by (simp add: warith)
  then show "ucast (ucast (cont x) :: byte) = cont x" by (rule ucast_byte)
  show "ucast (cont x) \<noteq> (0 :: byte)" using ucast_byte_0 [OF _ l] cont_range(1) [of x] by auto
qed

lemma recombine_2: "wc < 0x800 \<Longrightarrow> push_bit 6 ((drop_bit 6 wc OR 0xc0) AND 0x1f) OR (wc AND 0x3f) = (wc :: wchar)"
proof (rule bit_word_eqI)
  fix n assume "wc < 0x800" "n < LENGTH(32)"
  then have "bit wc n \<Longrightarrow> n < 11" using bit_less_exp [of wc 11 n] by simp
  with \<open>n < LENGTH(32)\<close> show "bit (push_bit 6 ((drop_bit 6 wc OR 0xc0) AND 0x1f) OR (wc AND 0x3f)) n = bit wc n"
    by (simp only: wbits) (cases "n < 6"; auto)
qed

lemma recombine_3:
  "wc < 0x10000 \<Longrightarrow> push_bit 12 ((drop_bit 12 wc OR 0xe0) AND 0x0f) OR push_bit 6 (drop_bit 6 wc AND 0x3f) OR
     (wc AND 0x3f) = (wc :: wchar)"
proof (rule bit_word_eqI)
  fix n assume "wc < 0x10000" "n < LENGTH(32)"
  then have "bit wc n \<Longrightarrow> n < 16" using bit_less_exp [of wc 16 n] by simp
  with \<open>n < LENGTH(32)\<close> show "bit (push_bit 12 ((drop_bit 12 wc OR 0xe0) AND 0x0f) OR
      push_bit 6 (drop_bit 6 wc AND 0x3f) OR (wc AND 0x3f)) n = bit wc n"
    by (simp only: wbits) (cases "n < 6"; cases "n < 12"; auto)
qed

lemma recombine_4:
  "wc < 0x200000 \<Longrightarrow> push_bit 18 ((drop_bit 18 wc OR 0xf0) AND 0x07) OR push_bit 12 (drop_bit 12 wc AND 0x3f) OR
     push_bit 6 (drop_bit 6 wc AND 0x3f) OR (wc AND 0x3f) = (wc :: wchar)"
proof (rule bit_word_eqI)
  fix n assume "wc < 0x200000" "n < LENGTH(32)"
  then have "bit wc n \<Longrightarrow> n < 21" using bit_less_exp [of wc 21 n] by simp
  with \<open>n < LENGTH(32)\<close> show "bit (push_bit 18 ((drop_bit 18 wc OR 0xf0) AND 0x07) OR
      push_bit 12 (drop_bit 12 wc AND 0x3f) OR push_bit 6 (drop_bit 6 wc AND 0x3f) OR (wc AND 0x3f)) n = bit wc n"
    by (simp only: wbits) (cases "n < 6"; cases "n < 12"; cases "n < 18"; auto)
qed

lemma decode_1: "0 < wc \<Longrightarrow> wc < 0x80 \<Longrightarrow>
  utf8_mbtowc_internal next_char_from_string (ucast wc # p) = (Inr (1, wc), p)"
proof -
  assume a: "0 < wc" "wc < 0x80"
  then have l: "wc < 0x100" by (simp add: warith)
  then have "ucast wc \<noteq> (0 :: byte)" "ucast (ucast wc :: byte) = wc"
    using ucast_byte_0 [OF _ l] ucast_byte [OF l] a by auto
  with a show ?thesis by (simp add: utf8_mbtowc_internal_def)
qed

lemma decode_2:
  assumes "0x80 \<le> wc" and "wc < 0x800"
  shows "utf8_mbtowc_internal next_char_from_string (ucast (drop_bit 6 wc OR 0xc0) # ucast (cont wc) # p) =
    (Inr (2, wc), p)"
proof -
  let ?s0 = "drop_bit 6 wc OR (0xc0 :: wchar)"
  have r: "0xc2 \<le> ?s0" "?s0 < 0xe0"
    unfolding lead_add(1) [OF assms(2)] using assms by (simp_all add: warith)
  then have l: "?s0 < 0x100" "?s0 \<noteq> 0" by (auto simp: warith)
  have b: "ucast (ucast ?s0 :: byte) = ?s0" "ucast ?s0 \<noteq> (0 :: byte)"
    using ucast_byte [OF l(1)] ucast_byte_0 [OF _ l(1)] l(2) by auto
  have "\<not> ?s0 < 0x80" "\<not> ?s0 < 0xc2" using r by (auto simp: warith)
  with r(2) b cont_byte [of wc] cont_xor [of wc] and_3f_less [of wc] recombine_2 [OF assms(2)] show ?thesis
    by (simp add: utf8_mbtowc_internal_def)
qed

lemma decode_3:
  assumes "0x800 \<le> wc" and "wc < 0x10000"
  shows "utf8_mbtowc_internal next_char_from_string
      (ucast (drop_bit 12 wc OR 0xe0) # ucast (cont (drop_bit 6 wc)) # ucast (cont wc) # p) = (Inr (3, wc), p)"
proof -
  let ?s0 = "drop_bit 12 wc OR (0xe0 :: wchar)" and ?s1 = "cont (drop_bit 6 wc)"
  have r: "0xe0 \<le> ?s0" "?s0 < 0xf0"
    unfolding lead_add(2) [OF assms(2)] using assms by (simp_all add: warith)
  then have l: "?s0 < 0x100" "?s0 \<noteq> 0" by (auto simp: warith)
  have b: "ucast (ucast ?s0 :: byte) = ?s0" "ucast ?s0 \<noteq> (0 :: byte)"
    using ucast_byte [OF l(1)] ucast_byte_0 [OF _ l(1)] l(2) by auto
  have n: "\<not> ?s0 < 0x80" "\<not> ?s0 < 0xc2" "\<not> ?s0 < 0xe0" using r by (auto simp: warith)
  have "0xe1 \<le> ?s0 \<or> 0xa0 \<le> ?s1"
  proof (cases "wc < 0x1000")
    case True
    then have "drop_bit 6 wc < 0x40" using assms by (simp add: warith)
    then have "drop_bit 6 wc AND 0x3f = drop_bit 6 wc"
      by (intro bit_word_eqI) (use bit_less_exp [of "drop_bit 6 wc" 6] in \<open>auto simp only: bit_and_iff bit_masks; simp\<close>)
    then show ?thesis using assms \<open>drop_bit 6 wc < 0x40\<close> by (intro disjI2) (simp add: cont_add warith)
  next
    case False
    then show ?thesis unfolding lead_add(2) [OF assms(2)] using assms by (intro disjI1) (simp add: warith div_greater_zero_iff Suc_le_eq)
  qed
  with n r(2) b cont_byte [of wc] cont_byte [of "drop_bit 6 wc"] cont_xor [of wc] cont_xor [of "drop_bit 6 wc"]
    and_3f_less [of wc] and_3f_less [of "drop_bit 6 wc"] recombine_3 [OF assms(2)] show ?thesis
    by (simp add: utf8_mbtowc_internal_def)
qed

lemma decode_4:
  assumes "0x10000 \<le> wc" and "wc < 0x200000"
  shows "utf8_mbtowc_internal next_char_from_string
      (ucast (drop_bit 18 wc OR 0xf0) # ucast (cont (drop_bit 12 wc)) # ucast (cont (drop_bit 6 wc)) #
       ucast (cont wc) # p) = (Inr (4, wc), p)"
proof -
  let ?s0 = "drop_bit 18 wc OR (0xf0 :: wchar)" and ?s1 = "cont (drop_bit 12 wc)"
  have r: "0xf0 \<le> ?s0" "?s0 < 0xf8"
    unfolding lead_add(3) [OF assms(2)] using assms by (simp_all add: warith)
  then have l: "?s0 < 0x100" "?s0 \<noteq> 0" by (auto simp: warith)
  have b: "ucast (ucast ?s0 :: byte) = ?s0" "ucast ?s0 \<noteq> (0 :: byte)"
    using ucast_byte [OF l(1)] ucast_byte_0 [OF _ l(1)] l(2) by auto
  have n: "\<not> ?s0 < 0x80" "\<not> ?s0 < 0xc2" "\<not> ?s0 < 0xe0" "\<not> ?s0 < 0xf0" using r by (auto simp: warith)
  have "0xf1 \<le> ?s0 \<or> 0x90 \<le> ?s1"
  proof (cases "wc < 0x40000")
    case True
    then have "drop_bit 12 wc < 0x40" using assms by (simp add: warith)
    then have "drop_bit 12 wc AND 0x3f = drop_bit 12 wc"
      by (intro bit_word_eqI) (use bit_less_exp [of "drop_bit 12 wc" 6] in \<open>auto simp only: bit_and_iff bit_masks; simp\<close>)
    then show ?thesis using assms \<open>drop_bit 12 wc < 0x40\<close> by (intro disjI2) (simp add: cont_add warith)
  next
    case False
    then show ?thesis unfolding lead_add(3) [OF assms(2)] using assms by (intro disjI1) (simp add: warith div_greater_zero_iff Suc_le_eq)
  qed
  with n r(2) b cont_byte [of wc] cont_byte [of "drop_bit 6 wc"] cont_byte [of "drop_bit 12 wc"]
    cont_xor [of wc] cont_xor [of "drop_bit 6 wc"] cont_xor [of "drop_bit 12 wc"]
    and_3f_less [of wc] and_3f_less [of "drop_bit 6 wc"] and_3f_less [of "drop_bit 12 wc"]
    recombine_4 [OF assms(2)] show ?thesis
    by (simp add: utf8_mbtowc_internal_def)
qed

lemma decode_encode:
  assumes "0 < wc" and "wc < 0x200000" and "utf8_wctomb wc = Some r"
  shows "utf8_mbtowc_internal next_char_from_string (r @ p) = (Inr (length r, wc), p)"
proof -
  consider "wc < 0x80" | "0x80 \<le> wc" "wc < 0x800" | "0x800 \<le> wc" "wc < 0x10000" | "0x10000 \<le> wc"
    by (force simp: not_le)
  then show ?thesis
  proof cases
    case 1
    with assms decode_1 [of wc p] show ?thesis by (auto simp: wctomb_1)
  next
    case 2
    with assms(3) decode_2 [OF 2, of p] wctomb_2 [OF 2] show ?thesis by (auto simp: eval_nat_numeral)
  next
    case 3
    with assms(3) decode_3 [OF 3, of p] wctomb_3 [OF 3] show ?thesis by (auto simp: eval_nat_numeral)
  next
    case 4
    with assms(3) decode_4 [OF 4 assms(2), of p] wctomb_4 [OF 4 assms(2)] show ?thesis
      by (auto simp: eval_nat_numeral)
  qed
qed

text \<open>The other direction: what the decoder accepts is what the encoder writes.\<close>

lemma lead_bits:
  "0xc0 \<le> s \<Longrightarrow> s < 0xe0 \<Longrightarrow> (s AND 0x1f) OR 0xc0 = (s :: wchar)"
  "0xe0 \<le> s \<Longrightarrow> s < 0xf0 \<Longrightarrow> (s AND 0x0f) OR 0xe0 = s"
  "0xf0 \<le> s \<Longrightarrow> s < 0xf8 \<Longrightarrow> (s AND 0x07) OR 0xf0 = s"
proof -
  have split: "s = (s AND mask k) + push_bit k (drop_bit k s)" for s :: wchar and k
    using bits_ident [of k s] by (simp add: take_bit_eq_mask add.commute)
  have or: "(s AND mask k) + push_bit k x = (s AND mask k) OR push_bit k x" for s x :: wchar and k
    by (rule disjunctive_add_eq_or, rule bit_word_eqI) (auto simp: bit_simps)
  show "0xc0 \<le> s \<Longrightarrow> s < 0xe0 \<Longrightarrow> (s AND 0x1f) OR 0xc0 = s"
  proof -
    assume "0xc0 \<le> s" "s < 0xe0"
    then have "drop_bit 5 s = 6" by (simp add: word_unat_eq_iff warith)
    then show ?thesis using split [of s 5] or [of s 5 6] by (simp add: mask_eq_exp_minus_1)
  qed
  show "0xe0 \<le> s \<Longrightarrow> s < 0xf0 \<Longrightarrow> (s AND 0x0f) OR 0xe0 = s"
  proof -
    assume "0xe0 \<le> s" "s < 0xf0"
    then have "drop_bit 4 s = 14" by (simp add: word_unat_eq_iff warith)
    then show ?thesis using split [of s 4] or [of s 4 14] by (simp add: mask_eq_exp_minus_1)
  qed
  show "0xf0 \<le> s \<Longrightarrow> s < 0xf8 \<Longrightarrow> (s AND 0x07) OR 0xf0 = s"
  proof -
    assume "0xf0 \<le> s" "s < 0xf8"
    then have "drop_bit 3 s = 30" by (simp add: word_unat_eq_iff warith)
    then show ?thesis using split [of s 3] or [of s 3 30] by (simp add: mask_eq_exp_minus_1)
  qed
qed

definition join :: "wchar \<Rightarrow> wchar \<Rightarrow> wchar" where
  "join h x = push_bit 6 h OR x"

lemma bit_join: "n < 32 \<Longrightarrow> x < 0x40 \<Longrightarrow> bit (join h x) n = (if n < 6 then bit x n else bit h (n - 6))"
  using bit_less_exp [of x 6 n] by (auto simp: join_def bit_or_iff bit_push_bit_iff)

lemma join_facts:
  assumes "x < 0x40" and "h < 0x4000000"
  shows "drop_bit 6 (join h x) = h" "cont (join h x) = cont x" "unat (join h x) = 64 * unat h + unat x"
proof -
  have hb: "bit h n \<Longrightarrow> n < 26" for n using bit_less_exp [of h 26 n] assms(2) by simp
  show "drop_bit 6 (join h x) = h"
  proof (rule bit_word_eqI)
    fix n assume "n < LENGTH(32)"
    then show "bit (drop_bit 6 (join h x)) n = bit h n"
      using bit_join [of "6 + n" x h] assms(1) hb [of n] bit_imp_le_length [of "join h x" "6 + n"]
      by (cases "n < 26") (auto simp: bit_drop_bit_eq)
  qed
  show "cont (join h x) = cont x"
    unfolding cont_def
  proof (rule bit_word_eqI)
    fix n assume "n < LENGTH(32)"
    then show "bit (0x80 OR (join h x AND 0x3f)) n = bit (0x80 OR (x AND 0x3f)) n"
      using bit_join [of n x h] assms(1) by (simp only: wbits) auto
  qed
  have "join h x = push_bit 6 h + x"
    unfolding join_def by (rule or_add) (use bit_less_exp [of x 6] assms(1) in \<open>force simp: bit_push_bit_iff\<close>)
  moreover have "unat (push_bit 6 h) = 64 * unat h"
    using assms(2) by (simp add: push_bit_eq_mult word_less_nat_alt unat_word_ariths)
  ultimately show "unat (join h x) = 64 * unat h + unat x"
    using assms by (simp add: word_less_nat_alt unat_word_ariths)
qed

lemma join_2: "push_bit 12 h OR push_bit 6 x OR y = join (join h x) y"
  unfolding join_def by (rule bit_word_eqI) (simp only: wbits, auto)

lemma join_3: "push_bit 18 h OR push_bit 12 x OR push_bit 6 y OR z = join (join (join h x) y) z"
  unfolding join_def by (rule bit_word_eqI) (simp only: wbits, auto)

lemma drop_drop: "drop_bit 12 w = drop_bit 6 (drop_bit 6 w)" "drop_bit 18 w = drop_bit 6 (drop_bit 6 (drop_bit 6 (w :: wchar)))"
  by (simp_all add: drop_bit_drop_bit)

lemma byte_cast: "ucast (ucast (b :: byte) :: wchar) = b"
  by (simp add: ucast_up_ucast_id is_up)

lemma lead_sub: "h + k = s \<Longrightarrow> k \<le> s \<Longrightarrow> unat h = unat s - unat (k :: wchar)"
  using unat_sub [of k s] by (auto simp: eq_diff_eq [symmetric])

lemma encode_2:
  assumes "0xc2 \<le> s0" and "s0 < 0xe0" and "s1 XOR 0x80 < 0x40"
  shows "utf8_wctomb (push_bit 6 (s0 AND 0x1f) OR (s1 XOR 0x80)) = Some [ucast s0, ucast s1]"
    and "0 < push_bit 6 (s0 AND 0x1f) OR (s1 XOR 0x80)" and "push_bit 6 (s0 AND 0x1f) OR (s1 XOR 0x80) < 0x200000"
proof -
  define h where "h = s0 AND 0x1f"
  let ?wc = "join h (s1 XOR 0x80)"
  have s0: "h OR 0xc0 = s0" using lead_bits(1) [of s0] assms(1,2) by (simp add: h_def warith)
  then have a: "h + 0xc0 = s0"
    using or_add [of h "0xc0"] unfolding h_def by (simp only: wbits) fastforce
  have "unat h = unat s0 - 0xc0" using lead_sub [OF a] assms(1) by (simp add: warith)
  then have h: "2 \<le> h" "h < 0x20" using assms(1,2) by (simp_all add: warith)
  note j = join_facts [OF assms(3), of h]
  have hl: "h < 0x4000000" using h by (simp add: warith)
  have r: "0x80 \<le> ?wc" "?wc < 0x800" using j(3) [OF hl] h assms(3) by (simp_all add: warith)
  have "utf8_wctomb ?wc = Some [ucast (h OR 0xc0), ucast (cont (s1 XOR 0x80))]"
    using wctomb_2 [OF r] j(1,2) [OF hl] by simp
  then show "utf8_wctomb (push_bit 6 (s0 AND 0x1f) OR (s1 XOR 0x80)) = Some [ucast s0, ucast s1]"
    using s0 cont_inverse(1) [OF assms(3)] by (simp add: join_def h_def)
  show "0 < push_bit 6 (s0 AND 0x1f) OR (s1 XOR 0x80)" "push_bit 6 (s0 AND 0x1f) OR (s1 XOR 0x80) < 0x200000"
    using r unfolding join_def h_def by (simp_all add: warith)
qed

lemma encode_3:
  assumes "0xe0 \<le> s0" and "s0 < 0xf0" and "s1 XOR 0x80 < 0x40" and "s2 XOR 0x80 < 0x40" and "0xe1 \<le> s0 \<or> 0xa0 \<le> s1"
  shows "utf8_wctomb (push_bit 12 (s0 AND 0x0f) OR push_bit 6 (s1 XOR 0x80) OR (s2 XOR 0x80)) =
      Some [ucast s0, ucast s1, ucast s2]"
    and "0 < push_bit 12 (s0 AND 0x0f) OR push_bit 6 (s1 XOR 0x80) OR (s2 XOR 0x80)"
    and "push_bit 12 (s0 AND 0x0f) OR push_bit 6 (s1 XOR 0x80) OR (s2 XOR 0x80) < 0x200000"
proof -
  define h where "h = s0 AND 0x0f"
  let ?x = "s1 XOR 0x80" and ?y = "s2 XOR 0x80"
  let ?v = "join h ?x"
  let ?wc = "join ?v ?y"
  have s0: "h OR 0xe0 = s0" using lead_bits(2) [of s0] assms(1,2) by (simp add: h_def)
  then have a: "h + 0xe0 = s0"
    using or_add [of h "0xe0"] unfolding h_def by (simp only: wbits) fastforce
  have uh: "unat h = unat s0 - 0xe0" using lead_sub [OF a] assms(1) by (simp add: warith)
  have ux: "unat ?x = unat s1 - 0x80"
    using cont_inverse [OF assms(3)] cont_add [of ?x] lead_sub [of ?x "0x80" s1] cont_range(1) [of ?x] by simp
  have h: "h < 0x10" using uh assms(2) by (simp add: warith)
  then have hl: "h < 0x4000000" by (simp add: warith)
  note j = join_facts [OF assms(3) hl]
  have v: "0x20 \<le> unat ?v" "unat ?v < 0x400"
    using j(3) uh ux assms(1,2,3,5) by (auto simp: warith)
  then have vl: "?v < 0x4000000" by (simp add: warith)
  note k = join_facts [OF assms(4) vl]
  have r: "0x800 \<le> ?wc" "?wc < 0x10000" using k(3) v assms(4) by (simp_all add: warith)
  have "utf8_wctomb ?wc = Some [ucast (h OR 0xe0), ucast (cont ?x), ucast (cont ?y)]"
    using wctomb_3 [OF r] j(1,2) k(1,2) by (simp add: drop_drop)
  then show "utf8_wctomb (push_bit 12 (s0 AND 0x0f) OR push_bit 6 ?x OR ?y) = Some [ucast s0, ucast s1, ucast s2]"
    unfolding join_2 h_def [symmetric] using s0 cont_inverse(1) [OF assms(3)] cont_inverse(1) [OF assms(4)] by simp
  show "0 < push_bit 12 (s0 AND 0x0f) OR push_bit 6 ?x OR ?y" "push_bit 12 (s0 AND 0x0f) OR push_bit 6 ?x OR ?y < 0x200000"
    using r unfolding join_2 h_def by (simp_all add: warith)
qed

lemma encode_4:
  assumes "0xf0 \<le> s0" and "s0 < 0xf8" and "s1 XOR 0x80 < 0x40" and "s2 XOR 0x80 < 0x40" and "s3 XOR 0x80 < 0x40"
    and "0xf1 \<le> s0 \<or> 0x90 \<le> s1"
  shows "utf8_wctomb (push_bit 18 (s0 AND 0x07) OR push_bit 12 (s1 XOR 0x80) OR push_bit 6 (s2 XOR 0x80) OR (s3 XOR 0x80)) =
      Some [ucast s0, ucast s1, ucast s2, ucast s3]"
    and "0 < push_bit 18 (s0 AND 0x07) OR push_bit 12 (s1 XOR 0x80) OR push_bit 6 (s2 XOR 0x80) OR (s3 XOR 0x80)"
    and "push_bit 18 (s0 AND 0x07) OR push_bit 12 (s1 XOR 0x80) OR push_bit 6 (s2 XOR 0x80) OR (s3 XOR 0x80) < 0x200000"
proof -
  define h where "h = s0 AND 0x07"
  let ?x = "s1 XOR 0x80" and ?y = "s2 XOR 0x80" and ?z = "s3 XOR 0x80"
  let ?u = "join h ?x"
  let ?v = "join ?u ?y"
  let ?wc = "join ?v ?z"
  have s0: "h OR 0xf0 = s0" using lead_bits(3) [of s0] assms(1,2) by (simp add: h_def)
  then have a: "h + 0xf0 = s0"
    using or_add [of h "0xf0"] unfolding h_def by (simp only: wbits) fastforce
  have uh: "unat h = unat s0 - 0xf0" using lead_sub [OF a] assms(1) by (simp add: warith)
  have ux: "unat ?x = unat s1 - 0x80"
    using cont_inverse [OF assms(3)] cont_add [of ?x] lead_sub [of ?x "0x80" s1] cont_range(1) [of ?x] by simp
  have h: "h < 0x8" using uh assms(2) by (simp add: warith)
  then have hl: "h < 0x4000000" by (simp add: warith)
  note j = join_facts [OF assms(3) hl]
  have u: "0x10 \<le> unat ?u" "unat ?u < 0x200"
    using j(3) uh ux assms(1,2,3,6) by (auto simp: warith)
  then have ul: "?u < 0x4000000" by (simp add: warith)
  note k = join_facts [OF assms(4) ul]
  have v: "0x400 \<le> unat ?v" "unat ?v < 0x8000" using k(3) u assms(4) by (simp_all add: warith)
  then have vl: "?v < 0x4000000" by (simp add: warith)
  note l = join_facts [OF assms(5) vl]
  have r: "0x10000 \<le> ?wc" "?wc < 0x200000" using l(3) v assms(5) by (simp_all add: warith)
  have "utf8_wctomb ?wc = Some [ucast (h OR 0xf0), ucast (cont ?x), ucast (cont ?y), ucast (cont ?z)]"
    using wctomb_4 [OF r] j(1,2) k(1,2) l(1,2) by (simp add: drop_drop)
  then show "utf8_wctomb (push_bit 18 (s0 AND 0x07) OR push_bit 12 ?x OR push_bit 6 ?y OR ?z) =
      Some [ucast s0, ucast s1, ucast s2, ucast s3]"
    unfolding join_3 h_def [symmetric]
    using s0 cont_inverse(1) [OF assms(3)] cont_inverse(1) [OF assms(4)] cont_inverse(1) [OF assms(5)] by simp
  show "0 < push_bit 18 (s0 AND 0x07) OR push_bit 12 ?x OR push_bit 6 ?y OR ?z"
    "push_bit 18 (s0 AND 0x07) OR push_bit 12 ?x OR push_bit 6 ?y OR ?z < 0x200000"
    using r unfolding join_3 h_def by (simp_all add: warith)
qed

definition char_ok :: "bytes \<Rightarrow> nat \<Rightarrow> wchar \<Rightarrow> bytes \<Rightarrow> bool" where
  "char_ok bs n wc p \<longleftrightarrow>
     (\<exists>r. utf8_wctomb wc = Some r \<and> bs = r @ p \<and> length r = n \<and> 0 < wc \<and> wc < 0x200000)"

lemma encode_decode:
  assumes "utf8_mbtowc_internal next_char_from_string bs = (Inr (n, wc), p)"
  shows "char_ok bs n wc p"
proof (cases bs)
  case Nil
  with assms show ?thesis by (simp add: utf8_mbtowc_internal_def)
next
  case (Cons b0 q)
  let ?s0 = "ucast b0 :: wchar"
  have nz: "b0 \<noteq> 0" using assms Cons by (auto simp: utf8_mbtowc_internal_def split: if_splits)
  have n8: "?s0 < 0xf8"
  proof (rule ccontr)
    assume "\<not> ?s0 < 0xf8"
    then have "\<not> ?s0 < 0x80" "\<not> ?s0 < 0xc2" "\<not> ?s0 < 0xe0" "\<not> ?s0 < 0xf0" "\<not> ?s0 < 0xf8"
      by (auto simp: warith)
    with assms Cons nz show False by (simp add: utf8_mbtowc_internal_def)
  qed
  have nc: "?s0 < 0x80 \<or> 0xc2 \<le> ?s0"
    using assms Cons nz by (auto simp: utf8_mbtowc_internal_def not_less split: if_splits)
  have bc: "ucast (ucast b :: wchar) = (b :: byte)" for b by (rule byte_cast)
  consider "?s0 < 0x80" | "0xc2 \<le> ?s0" "?s0 < 0xe0" | "0xe0 \<le> ?s0" "?s0 < 0xf0" | "0xf0 \<le> ?s0" "?s0 < 0xf8"
    using n8 nc by (force simp: not_le)
  then show ?thesis
  proof cases
    case 1
    then have "n = 1" "wc = ?s0" "p = q" using assms Cons nz by (simp_all add: utf8_mbtowc_internal_def)
    moreover have "0 < ?s0" using nz bc [of b0] by (metis unsigned_0 word_gt_0)
    moreover have "?s0 < 0x200000" using 1 by (simp add: warith)
    ultimately show ?thesis using Cons wctomb_1 [OF 1] bc [of b0] by (simp add: char_ok_def)
  next
    case 2
    then have c: "\<not> ?s0 < 0x80" "\<not> ?s0 < 0xc2" by (auto simp: warith)
    obtain b1 q1 where q: "q = b1 # q1" using assms Cons nz c 2 by (cases q) (auto simp: utf8_mbtowc_internal_def)
    let ?s1 = "ucast b1 :: wchar"
    have x: "?s1 XOR 0x80 < 0x40" "n = 2" "wc = push_bit 6 (?s0 AND 0x1f) OR (?s1 XOR 0x80)" "p = q1"
      using assms Cons q nz c 2 by (auto simp: utf8_mbtowc_internal_def split: if_splits)
    from encode_2 [OF 2 x(1)] x Cons q bc show ?thesis by (simp add: char_ok_def)
  next
    case 3
    then have c: "\<not> ?s0 < 0x80" "\<not> ?s0 < 0xc2" "\<not> ?s0 < 0xe0" by (auto simp: warith)
    obtain b1 b2 q2 where q: "q = b1 # b2 # q2"
      using assms Cons nz c 3 by (cases q; cases "tl q") (auto simp: utf8_mbtowc_internal_def split: if_splits)
    let ?s1 = "ucast b1 :: wchar" and ?s2 = "ucast b2 :: wchar"
    have x: "?s1 XOR 0x80 < 0x40" "?s2 XOR 0x80 < 0x40" "0xe1 \<le> ?s0 \<or> 0xa0 \<le> ?s1" "n = 3"
      "wc = push_bit 12 (?s0 AND 0x0f) OR push_bit 6 (?s1 XOR 0x80) OR (?s2 XOR 0x80)" "p = q2"
      using assms Cons q nz c 3 by (auto simp: utf8_mbtowc_internal_def split: if_splits)
    from encode_3 [OF 3 x(1-3)] x Cons q bc show ?thesis by (simp add: char_ok_def)
  next
    case 4
    then have c: "\<not> ?s0 < 0x80" "\<not> ?s0 < 0xc2" "\<not> ?s0 < 0xe0" "\<not> ?s0 < 0xf0" by (auto simp: warith)
    obtain b1 b2 b3 q3 where q: "q = b1 # b2 # b3 # q3"
      using assms Cons nz c 4
      by (cases q; cases "tl q"; cases "tl (tl q)") (auto simp: utf8_mbtowc_internal_def split: if_splits)
    let ?s1 = "ucast b1 :: wchar" and ?s2 = "ucast b2 :: wchar" and ?s3 = "ucast b3 :: wchar"
    have x: "?s1 XOR 0x80 < 0x40" "?s2 XOR 0x80 < 0x40" "?s3 XOR 0x80 < 0x40" "0xf1 \<le> ?s0 \<or> 0x90 \<le> ?s1" "n = 4"
      "wc = push_bit 18 (?s0 AND 0x07) OR push_bit 12 (?s1 XOR 0x80) OR push_bit 6 (?s2 XOR 0x80) OR (?s3 XOR 0x80)"
      "p = q3"
      using assms Cons q nz c 4 by (auto simp: utf8_mbtowc_internal_def split: if_splits)
    from encode_4 [OF 4 x(1-4)] x Cons q bc show ?thesis by (simp add: char_ok_def)
  qed
qed

section \<open>Whole strings\<close>

lemma wctomb_switch_nonempty: "wctomb_switch c wc r \<noteq> []"
  by (induction c wc r rule: wctomb_switch.induct) (subst wctomb_switch.simps, simp)

lemma wctomb_nonempty: "utf8_wctomb wc = Some r \<Longrightarrow> r \<noteq> []"
  by (auto simp: utf8_wctomb_def wctomb_switch_nonempty)

lemma utf8_mbtowc_prefix:
  assumes "0 < wc" and "wc < 0x200000" and "utf8_wctomb wc = Some r" and "length r \<le> len"
  shows "utf8_mbtowc (r @ s) len = Inr (length r, wc)"
proof -
  have "len \<noteq> 0" using wctomb_nonempty [OF assms(3)] assms(4) by (cases r) auto
  moreover have "take len (r @ s) = r @ take (len - length r) s" using assms(4) by simp
  ultimately show ?thesis
    using decode_encode [OF assms(1-3), of "take (len - length r) s"] by (simp add: utf8_mbtowc_def)
qed

lemma utf8_mbtowc_canonical:
  assumes "utf8_mbtowc bs len = Inr (n, wc)"
  shows "utf8_wctomb wc = Some (take n bs)" "n \<le> length bs" "0 < n" "n \<le> 4" "0 < wc" "wc < 0x200000"
proof -
  let ?bs = "take (if len \<noteq> 0 then len else utf8_char_width bs) bs"
  obtain p where "utf8_mbtowc_internal next_char_from_string ?bs = (Inr (n, wc), p)"
    using assms by (cases "utf8_mbtowc_internal next_char_from_string ?bs") (auto simp: utf8_mbtowc_def)
  from encode_decode [OF this] obtain r where r: "utf8_wctomb wc = Some r" "?bs = r @ p" "length r = n"
    "0 < wc" "wc < 0x200000" by (auto simp: char_ok_def)
  have "\<exists>q. bs = r @ q" using r(2) append_take_drop_id [of "if len \<noteq> 0 then len else utf8_char_width bs" bs]
    by (metis append.assoc)
  then show "utf8_wctomb wc = Some (take n bs)" "n \<le> length bs" using r(1,3) by auto
  show "0 < wc" "wc < 0x200000" by fact+
  have "length r = 1 \<or> length r = 2 \<or> length r = 3 \<or> length r = 4"
  proof -
    consider "wc < 0x80" | "0x80 \<le> wc" "wc < 0x800" | "0x800 \<le> wc" "wc < 0x10000" | "0x10000 \<le> wc" "wc < 0x200000"
      using r(5) by (force simp: not_le)
    then show ?thesis
      using r(1) wctomb_1 [of wc] wctomb_2 [of wc] wctomb_3 [of wc] wctomb_4 [of wc] by cases auto
  qed
  then show "0 < n" "n \<le> 4" using r(3) by auto
qed

text \<open>A wide string whose characters UTF-8 in at most four bytes can express.\<close>

definition wc_ok :: "wstring \<Rightarrow> bool" where
  "wc_ok ws \<longleftrightarrow> (\<forall>w\<in>set ws. 0 < w \<and> w < 0x200000)"

lemma wctomb_some: "w < 0x200000 \<Longrightarrow> \<exists>r. utf8_wctomb w = Some r"
  by (auto simp: utf8_wctomb_def wctomb_count_def)

lemma wctomb_length:
  assumes "0 < w" and "w < 0x200000" and "utf8_wctomb w = Some r"
  shows "0 < length r \<and> length r \<le> 4"
  using utf8_mbtowc_canonical(3,4) [OF utf8_mbtowc_prefix [OF assms order_refl, of "[]"]] by simp

lemma mbstr_loop_ok: "wc_ok ws \<Longrightarrow> \<exists>s. mbstr_loop ws = Some (Inr s)"
proof (induction ws)
  case Nil
  show ?case by simp
next
  case (Cons w ws)
  then have w: "0 < w" "w < 0x200000" and ws: "wc_ok ws" by (auto simp: wc_ok_def)
  obtain r where r: "utf8_wctomb w = Some r" using wctomb_some [OF w(2)] by blast
  with wctomb_length [OF w r] Cons.IH [OF ws] show ?case by auto
qed

lemma decode_encode_string: "wc_ok ws \<Longrightarrow> mbstr_loop ws = Some (Inr s) \<Longrightarrow> mbstr_to_wc_loop s = Inr ws"
proof (induction ws arbitrary: s)
  case Nil
  then show ?case by (simp add: mbstr_to_wc_loop.simps)
next
  case (Cons w ws)
  then have w: "0 < w" "w < 0x200000" and ws: "wc_ok ws" by (auto simp: wc_ok_def)
  obtain r where r: "utf8_wctomb w = Some r" using wctomb_some [OF w(2)] by blast
  note l = wctomb_length [OF w r]
  with Cons.prems(2) r obtain t where t: "mbstr_loop ws = Some (Inr t)" "s = r @ t"
    by (auto simp: map_sum_Inr_iff split: if_splits)
  have "utf8_mbtowc s (length s) = Inr (length r, w)"
    unfolding t(2) by (rule utf8_mbtowc_prefix [OF w r]) simp
  with Cons.IH [OF ws t(1)] t(2) l show ?case by (subst mbstr_to_wc_loop.simps) auto
qed

lemma encode_decode_string: "mbstr_to_wc_loop s = Inr ws \<Longrightarrow> wc_ok ws \<and> mbstr_loop ws = Some (Inr s)"
proof (induction s arbitrary: ws rule: mbstr_to_wc_loop.induct)
  case (1 s)
  show ?case
  proof (cases "s = []")
    case True
    with 1(2) show ?thesis by (simp add: mbstr_to_wc_loop.simps wc_ok_def)
  next
    case False
    with 1(2) obtain rc wc where m: "utf8_mbtowc s (length s) = Inr (rc, wc)"
      by (subst (asm) mbstr_to_wc_loop.simps) (auto split: sum.splits)
    note c = utf8_mbtowc_canonical [OF m]
    from 1(2) m False c(3) obtain ws' where w: "mbstr_to_wc_loop (drop rc s) = Inr ws'" "ws = wc # ws'"
      by (subst (asm) mbstr_to_wc_loop.simps) (auto simp: map_sum_Inr_iff split: sum.splits)
    from 1(1) [OF False m] c(3) w(1) have "wc_ok ws' \<and> mbstr_loop ws' = Some (Inr (drop rc s))" by auto
    with c w(2) show ?thesis by (auto simp: wc_ok_def)
  qed
qed

section \<open>Case mapping\<close>

lemma and_ff: "(w :: wchar) AND 0xFF = take_bit 8 w"
proof -
  have "(0xFF :: wchar) = mask 8" by (simp add: mask_eq_exp_minus_1)
  then show ?thesis by (simp add: take_bit_eq_mask)
qed

lemma plane_index:
  "uint (drop_bit 8 w AND 0xFF) = uint w div 256 mod 256" "unat (w AND 0xFF) = nat (uint (w :: wchar) mod 256)"
proof -
  have "uint w < 2 ^ 32" using uint_bounded [of w] by simp
  then have "take_bit 32 (uint w) = uint w" by (simp add: take_bit_int_eq_self)
  then have "uint (drop_bit 8 w AND 0xFF) = take_bit 8 (drop_bit 8 (uint w))"
    unfolding and_ff by (simp add: unsigned_take_bit_eq unsigned_drop_bit_eq)
  then show "uint (drop_bit 8 w AND 0xFF) = uint w div 256 mod 256"
    by (simp add: take_bit_eq_mod drop_bit_eq_div)
  have "uint (w AND 0xFF) = take_bit 8 (uint w)"
    unfolding and_ff by (simp only: unsigned_take_bit_eq)
  then have "uint (w AND 0xFF) = uint w mod 256" by (simp add: take_bit_eq_mod)
  then show "unat (w AND 0xFF) = nat (uint w mod 256)" by (metis nat_uint_eq)
qed

lemma case_map_uint:
  assumes "f = uc_toupper \<or> f = uc_tolower"
  shows "uint (word_of_int (case_lookup f (uint (w :: wchar))) :: wchar) = case_lookup f (uint w)"
proof -
  have "uint w < 2 ^ 32" using uint_bounded [of w] by simp
  then have "0 \<le> case_lookup f (uint w) \<and> case_lookup f (uint w) < 2 ^ 32"
    using case_lookup_range [OF assms, of "uint w"] uint_ge_0 [of w] by (elim disjE) simp_all
  then show ?thesis by (simp add: uint_word_of_int mod_pos_pos_trivial)
qed

lemma toupper_lookup: "utf8_wc_toupper w = word_of_int (case_lookup uc_toupper (uint w))"
  by (simp add: utf8_wc_toupper_def case_lookup_def Let_def plane_index split: option.splits)

lemma tolower_lookup: "utf8_wc_tolower w = word_of_int (case_lookup uc_tolower (uint w))"
  by (simp add: utf8_wc_tolower_def case_lookup_def Let_def plane_index split: option.splits)

lemma toupper_uint: "uint (utf8_wc_toupper w) = case_lookup uc_toupper (uint w)"
  unfolding toupper_lookup by (rule case_map_uint) simp

lemma tolower_uint: "uint (utf8_wc_tolower w) = case_lookup uc_tolower (uint w)"
  unfolding tolower_lookup by (rule case_map_uint) simp

lemma toupper_idem: "utf8_wc_toupper (utf8_wc_toupper w) = utf8_wc_toupper w"
  by (simp add: toupper_lookup [of "utf8_wc_toupper w"] toupper_uint case_lookup_idem [OF toupper_idem_ok])
    (simp add: toupper_lookup)

lemma tolower_idem: "utf8_wc_tolower (utf8_wc_tolower w) = utf8_wc_tolower w"
  by (simp add: tolower_lookup [of "utf8_wc_tolower w"] tolower_uint case_lookup_idem [OF tolower_idem_ok])
    (simp add: tolower_lookup)

text \<open>
  Upper-casing and lower-casing a character are idempotent, for every 32-bit value; and
  for every character of the Basic Multilingual Plane except U+0130, U+2126, U+212A and
  U+212B, lower-casing a character does not change its upper case.
\<close>
theorem utf8_wc_case_mapping:
  shows "utf8_wc_toupper (utf8_wc_toupper w) = utf8_wc_toupper w \<and>
         utf8_wc_tolower (utf8_wc_tolower w) = utf8_wc_tolower w \<and>
         (w < 0x10000 \<longrightarrow> w \<notin> {0x130, 0x2126, 0x212A, 0x212B} \<longrightarrow>
          utf8_wc_toupper (utf8_wc_tolower w) = utf8_wc_toupper w)"
proof -
  have "utf8_wc_toupper (utf8_wc_tolower w) = utf8_wc_toupper w"
    if "w < 0x10000" "w \<notin> {0x130, 0x2126, 0x212A, 0x212B}"
  proof -
    have n: "\<not> lower_merged (uint w)"
      using that(2) by (auto simp: lower_merged_def word_uint_eq_iff)
    have "uint w < 0x10000" using that(1) by (simp add: word_less_def)
    with n have "case_lookup uc_toupper (case_lookup uc_tolower (uint w)) = case_lookup uc_toupper (uint w)"
      by (intro case_lookup_fold) simp_all
    then show ?thesis by (simp add: toupper_lookup tolower_uint)
  qed
  then show ?thesis by (simp add: toupper_idem tolower_idem)
qed

theorem utf8_wc_case_mapping_witness:
  "utf8_wc_toupper (utf8_wc_tolower 0x41) = utf8_wc_toupper 0x41"
  using utf8_wc_case_mapping [of "0x41"] by simp

text \<open>
  the tables are indexed by the low 16 bits of the character only: a character beyond the
  Basic Multilingual Plane whose low 16 bits fall into a block that has a table is mapped to
  the upper case of the unrelated character with the same low 16 bits.
\<close>
theorem utf8_wc_toupper_ignores_high_bits:
  assumes "take_bit 16 v = take_bit 16 w" and "uni_plane (uint (drop_bit 8 w AND 0xFF)) \<noteq> None"
  shows "utf8_wc_toupper v = utf8_wc_toupper w"
proof -
  have "drop_bit 8 x AND 0xFF = drop_bit 8 (take_bit 16 x)" "x AND 0xFF = take_bit 8 (take_bit 16 x)" for x :: wchar
    unfolding and_ff by (rule bit_word_eqI; auto simp: bit_simps)+
  then have "drop_bit 8 v AND 0xFF = drop_bit 8 w AND 0xFF" "v AND 0xFF = w AND 0xFF"
    using assms(1) by metis+
  with assms(2) show ?thesis by (auto simp: utf8_wc_toupper_def Let_def split: option.splits)
qed

theorem utf8_wc_toupper_ignores_high_bits_witness:
  "utf8_wc_toupper 0x10061 = utf8_wc_toupper 0x61"
proof -
  have "uint (drop_bit 8 (0x61 :: wchar) AND 0xFF) = 0" by (simp add: plane_index)
  then have "uni_plane (uint (drop_bit 8 (0x61 :: wchar) AND 0xFF)) \<noteq> None" by (simp add: uni_plane_def)
  from utf8_wc_toupper_ignores_high_bits [OF _ this, of "0x10061"] show ?thesis by simp
qed

section \<open>Comparison\<close>

lemma wcmp_0 [simp]: "wcmp a b = 0 \<longleftrightarrow> a = b"
  by (auto simp: wcmp_def)

text \<open>
  \<^verbatim>\<open>utf8_wc_strcasecmp\<close> gives exactly what \<^verbatim>\<open>utf8_wc_strcmp\<close> gives on the two
  strings converted to upper case; in particular it is 0 if and only if these are equal.
\<close>
theorem utf8_wc_strcasecmp_is_strcmp_upper:
  "utf8_wc_strcasecmp a b = utf8_wc_strcmp (utf8_wc_strupper a) (utf8_wc_strupper b) \<and>
   (utf8_wc_strcasecmp a b = 0 \<longleftrightarrow> utf8_wc_strupper a = utf8_wc_strupper b)"
proof (induction a b rule: utf8_wc_strcasecmp.induct)
  case (1 bs)
  then show ?case by (cases bs) (auto simp: utf8_wc_strupper_def)
next
  case (2 a as)
  then show ?case by (simp add: utf8_wc_strupper_def)
next
  case (3 a as b bs)
  then show ?case
    by (cases "wc_casecmp1 a b = 0") (auto simp: utf8_wc_strupper_def Let_def wc_casecmp1_def split: if_splits)
qed

subsection \<open>Multibyte strings\<close>

lemma byte_unat: "x < 0x100 \<Longrightarrow> unat (ucast (x :: wchar) :: byte) = unat x"
  by (simp add: unsigned_ucast_eq take_bit_nat_eq_self word_less_nat_alt)

text \<open>
  The characters \<^verbatim>\<open>utf8_char_width\<close> knows: it takes the lead bytes F5 to F7, which the
  decoder accepts, for invalid.
\<close>

definition wide_ok :: "wstring \<Rightarrow> bool" where
  "wide_ok ws \<longleftrightarrow> (\<forall>w\<in>set ws. 0 < w \<and> w < 0x140000)"

lemma wide_ok_wc_ok: "wide_ok ws \<Longrightarrow> wc_ok ws"
  by (force simp: wide_ok_def wc_ok_def warith)

lemma char_width_encoded:
  assumes "0 < w" and "w < 0x140000" and "utf8_wctomb w = Some r"
  shows "utf8_char_width (r @ p) = length r"
proof -
  have g: "w < 0x200000" using assms(2) by (simp add: warith)
  consider "w < 0x80" | "0x80 \<le> w" "w < 0x800" | "0x800 \<le> w" "w < 0x10000" | "0x10000 \<le> w"
    by (force simp: not_le)
  then show ?thesis
  proof cases
    case 1
    then have "w < 0x100" by (simp add: warith)
    with 1 assms(3) byte_unat [OF this] show ?thesis
      by (auto simp: wctomb_1 utf8_char_width_def chr_at_def word_le_nat_alt word_less_nat_alt)
  next
    case 2
    let ?h = "drop_bit 6 w OR (0xc0 :: wchar)"
    have h: "0xc2 \<le> ?h" "?h < 0xe0" unfolding lead_add(1) [OF 2(2)] using 2 by (simp_all add: warith)
    then have "?h < 0x100" by (simp add: warith)
    with h wctomb_2 [OF 2] assms(3) byte_unat [OF this] show ?thesis
      by (auto simp: utf8_char_width_def chr_at_def word_le_nat_alt word_less_nat_alt)
  next
    case 3
    let ?h = "drop_bit 12 w OR (0xe0 :: wchar)"
    have h: "0xe0 \<le> ?h" "?h < 0xf0" unfolding lead_add(2) [OF 3(2)] using 3 by (simp_all add: warith)
    then have "?h < 0x100" by (simp add: warith)
    with h wctomb_3 [OF 3] assms(3) byte_unat [OF this] show ?thesis
      by (auto simp: utf8_char_width_def chr_at_def word_le_nat_alt word_less_nat_alt)
  next
    case 4
    let ?h = "drop_bit 18 w OR (0xf0 :: wchar)"
    have h: "0xf0 \<le> ?h" "?h < 0xf5" unfolding lead_add(3) [OF g] using 4 assms(2) by (simp_all add: warith)
    then have "?h < 0x100" by (simp add: warith)
    with h wctomb_4 [OF 4 g] assms(3) byte_unat [OF this] show ?thesis
      by (auto simp: utf8_char_width_def chr_at_def word_le_nat_alt word_less_nat_alt)
  qed
qed

lemma mbstr_loop_Cons:
  assumes "wide_ok (w # ws)" and "mbstr_loop (w # ws) = Some (Inr s)"
  shows "\<exists>r t. utf8_wctomb w = Some r \<and> mbstr_loop ws = Some (Inr t) \<and> s = r @ t \<and> 0 < length r \<and>
           utf8_char_width s = length r \<and> decoded s (length r) = Some w \<and> wide_ok ws"
proof -
  have w: "0 < w" "w < 0x140000" and ws: "wide_ok ws" using assms(1) by (auto simp: wide_ok_def)
  have g: "w < 0x200000" using w(2) by (simp add: warith)
  obtain r where r: "utf8_wctomb w = Some r" using wctomb_some [OF g] by blast
  note l = wctomb_length [OF w(1) g r]
  with assms(2) r obtain t where t: "mbstr_loop ws = Some (Inr t)" "s = r @ t"
    by (auto simp: map_sum_Inr_iff split: if_splits)
  have "decoded s (length r) = Some w"
    unfolding decoded_def t(2) using utf8_mbtowc_prefix [OF w(1) g r order_refl, of t] by simp
  with char_width_encoded [OF w r, of t] r t l ws show ?thesis by auto
qed

lemma utf8_strcasecmp_encoded:
  "wide_ok wa \<Longrightarrow> wide_ok wb \<Longrightarrow> mbstr_loop wa = Some (Inr a) \<Longrightarrow> mbstr_loop wb = Some (Inr b) \<Longrightarrow>
   utf8_strcasecmp a b = Some (utf8_wc_strcasecmp wa wb)"
proof (induction wa wb arbitrary: a b rule: utf8_wc_strcasecmp.induct)
  case (1 bs)
  then have "a = []" by simp
  moreover have "b = [] \<longleftrightarrow> bs = []"
    using 1 mbstr_loop_Cons [of "hd bs" "tl bs" b] by (cases bs) auto
  ultimately show ?case by (subst utf8_strcasecmp.simps) auto
next
  case (2 w ws)
  then have "b = []" "a \<noteq> []" using mbstr_loop_Cons [of w ws a] by auto
  then show ?case by (subst utf8_strcasecmp.simps) auto
next
  case (3 w ws v vs)
  obtain r t where r: "mbstr_loop ws = Some (Inr t)" "a = r @ t" "0 < length r"
    "utf8_char_width a = length r" "decoded a (length r) = Some w" "wide_ok ws"
    using mbstr_loop_Cons [OF 3(2) 3(4)] by blast
  obtain q u where q: "mbstr_loop vs = Some (Inr u)" "b = q @ u" "0 < length q"
    "utf8_char_width b = length q" "decoded b (length q) = Some v" "wide_ok vs"
    using mbstr_loop_Cons [OF 3(3) 3(5)] by blast
  have ne: "a \<noteq> []" "b \<noteq> []" using r(2,3) q(2,3) by auto
  have st: "casecmp_step a b = Some (if wcmp (utf8_wc_toupper w) (utf8_wc_toupper v) \<noteq> 0
      then Inl (wcmp (utf8_wc_toupper w) (utf8_wc_toupper v)) else Inr (length r, length q))"
    using r q by (simp add: casecmp_step_def Let_def)
  have c1: "wc_casecmp1 w v = wcmp (utf8_wc_toupper w) (utf8_wc_toupper v)"
    by (auto simp: wc_casecmp1_def)
  show ?case
  proof (cases "wcmp (utf8_wc_toupper w) (utf8_wc_toupper v) = 0")
    case True
    have "utf8_strcasecmp t u = Some (utf8_wc_strcasecmp ws vs)"
      using 3(1) [OF refl _ r(6) q(6) r(1) q(1)] True c1 by simp
    then show ?thesis using True ne st r(2,3) q(2,3) c1 by (subst utf8_strcasecmp.simps) (auto simp: Let_def)
  next
    case False
    then show ?thesis using ne st c1 by (subst utf8_strcasecmp.simps) (simp add: Let_def)
  qed
qed

lemma utf8_strlen_encoded: "wide_ok ws \<Longrightarrow> mbstr_loop ws = Some (Inr s) \<Longrightarrow> utf8_strlen s = Some (length ws)"
proof (induction ws arbitrary: s)
  case Nil
  then show ?case by (simp add: utf8_strlen.simps)
next
  case (Cons w ws)
  obtain r t where r: "mbstr_loop ws = Some (Inr t)" "s = r @ t" "0 < length r"
    "utf8_char_width s = length r" "wide_ok ws" using mbstr_loop_Cons [OF Cons.prems] by blast
  then have "s \<noteq> []" by auto
  with Cons.IH [OF r(5,1)] r show ?case by (subst utf8_strlen.simps) simp
qed

text \<open>
  C22: encoding a character between 1 and 1FFFFF (hexadecimal) gives one to four bytes,
  and decoding any string that starts with these bytes gives back their number and the
  character.
\<close>
theorem utf8_wctomb_mbtowc:
  assumes "0 < wc" and "wc < 0x200000"
  shows "\<exists>r. utf8_wctomb wc = Some r \<and> 1 \<le> length r \<and> length r \<le> 4 \<and>
           (\<forall>s len. length r \<le> len \<longrightarrow> utf8_mbtowc (r @ s) len = Inr (length r, wc))"
proof -
  obtain r where r: "utf8_wctomb wc = Some r" using wctomb_some [OF assms(2)] by blast
  have "utf8_mbtowc (r @ s) len = Inr (length r, wc)" if "length r \<le> len" for s len
    using utf8_mbtowc_prefix [OF assms r that] .
  with r wctomb_length [OF assms r] show ?thesis by (auto simp: Suc_le_eq)
qed

theorem utf8_wctomb_mbtowc_witness:
  "\<exists>r. utf8_wctomb 0x20AC = Some r \<and> (\<forall>s len. length r \<le> len \<longrightarrow> utf8_mbtowc (r @ s) len = Inr (length r, 0x20AC))"
proof -
  have "0 < (0x20AC :: wchar)" "(0x20AC :: wchar) < 0x200000" by simp_all
  from utf8_wctomb_mbtowc [OF this] show ?thesis by blast
qed

text \<open>
  C23: the decoder accepts only canonical encodings: whenever it returns a character and a
  number of bytes, these bytes are exactly what the encoder writes for that character. So
  overlong forms, stray continuation bytes and truncated sequences are rejected.
\<close>
theorem utf8_mbtowc_only_canonical:
  assumes "utf8_mbtowc bs len = Inr (n, wc)"
  shows "utf8_wctomb wc = Some (take n bs) \<and> n \<le> length bs \<and> 1 \<le> n \<and> n \<le> 4 \<and> 0 < wc \<and> wc < 0x200000"
  using utf8_mbtowc_canonical [OF assms] by auto

theorem utf8_mbtowc_only_canonical_witness:
  "utf8_wctomb 0xE9 = Some [0xC3, 0xA9]"
proof -
  have "utf8_mbtowc [0xC3, 0xA9] 2 = Inr (2, 0xE9)"
    by (simp add: utf8_mbtowc_def utf8_mbtowc_internal_def)
  from utf8_mbtowc_only_canonical [OF this] show ?thesis by simp
qed

text \<open>
  C24: converting a multibyte string to a wide string and back gives the original string,
  whenever the first conversion succeeds; and converting a wide string of characters between
  1 and 1FFFFF to a multibyte string and back gives the original wide string.
\<close>
theorem utf8_mbstr_wc_roundtrip:
  "(\<forall>n. utf8_mbstr_to_wc True s = Inr (ws, n) \<longrightarrow> utf8_wc_to_mbstr True ws (length ws) = Some (Inr s)) \<and>
   (wc_ok ws \<longrightarrow> (\<exists>t. utf8_wc_to_mbstr True ws (length ws) = Some (Inr t) \<and>
                      utf8_mbstr_to_wc True t = Inr (ws, length t)))"
proof (intro conjI allI impI)
  fix n
  assume "utf8_mbstr_to_wc True s = Inr (ws, n)"
  then show "utf8_wc_to_mbstr True ws (length ws) = Some (Inr s)"
    using encode_decode_string [of s ws] by (auto simp: utf8_mbstr_to_wc_def utf8_wc_to_mbstr_def map_sum_Inr_iff)
next
  assume ok: "wc_ok ws"
  obtain t where t: "mbstr_loop ws = Some (Inr t)" using mbstr_loop_ok [OF ok] by blast
  with decode_encode_string [OF ok t]
  show "\<exists>t. utf8_wc_to_mbstr True ws (length ws) = Some (Inr t) \<and> utf8_mbstr_to_wc True t = Inr (ws, length t)"
    by (simp add: utf8_mbstr_to_wc_def utf8_wc_to_mbstr_def)
qed

theorem utf8_mbstr_wc_roundtrip_witness:
  "\<exists>s. utf8_wc_to_mbstr True [0x41, 0x3B1] 2 = Some (Inr s) \<and> utf8_mbstr_to_wc True s = Inr ([0x41, 0x3B1], length s)"
proof -
  have "wc_ok [0x41, 0x3B1]" by (simp add: wc_ok_def)
  moreover have "length [0x41 :: wchar, 0x3B1] = 2" by simp
  ultimately show ?thesis using utf8_mbstr_wc_roundtrip [of "[]" "[0x41, 0x3B1]"] by metis
qed

text \<open>
  C25: on valid UTF-8 strings of characters below 140000 (hexadecimal),
  \<^verbatim>\<open>utf8_strcasecmp\<close> is defined and gives what comparing the decoded strings with
  \<^verbatim>\<open>utf8_wc_strcasecmp\<close> gives, and \<^verbatim>\<open>utf8_strlen\<close> counts the characters.
\<close>
theorem utf8_strcasecmp_decodes:
  assumes "utf8_mbstr_to_wc True a = Inr (wa, m)" and "utf8_mbstr_to_wc True b = Inr (wb, n)"
    and "wide_ok wa" and "wide_ok wb"
  shows "utf8_strcasecmp a b = Some (utf8_wc_strcasecmp wa wb) \<and> utf8_strlen a = Some (utf8_wc_strlen wa)"
proof -
  have "mbstr_loop wa = Some (Inr a)" "mbstr_loop wb = Some (Inr b)"
    using assms(1,2) encode_decode_string [of a wa] encode_decode_string [of b wb]
    by (auto simp: utf8_mbstr_to_wc_def map_sum_Inr_iff)
  with utf8_strcasecmp_encoded [OF assms(3,4)] utf8_strlen_encoded [OF assms(3)] show ?thesis
    by (simp add: utf8_wc_strlen_def)
qed

theorem utf8_strcasecmp_decodes_witness:
  "utf8_strcasecmp [0x61] [0x41] = Some (utf8_wc_strcasecmp [0x61] [0x41])"
proof -
  have d: "utf8_mbstr_to_wc True [b] = Inr ([ucast b], 1)" if "b = 0x61 \<or> b = 0x41" for b :: byte
    using that by (auto simp: utf8_mbstr_to_wc_def mbstr_to_wc_loop.simps utf8_mbtowc_def utf8_mbtowc_internal_def)
  from utf8_strcasecmp_decodes [OF d [of "0x61"] d [of "0x41"]] show ?thesis
    by (simp add: wide_ok_def)
qed

section \<open>Searching\<close>

definition first_at :: "('a list \<Rightarrow> bool) \<Rightarrow> 'a list \<Rightarrow> nat option \<Rightarrow> bool" where
  "first_at P h r \<longleftrightarrow>
     (case r of None \<Rightarrow> \<forall>j. \<not> P (drop j h)
      | Some i \<Rightarrow> i \<le> length h \<and> P (drop i h) \<and> (\<forall>j<i. \<not> P (drop j h)))"

lemma first_at_Cons: "\<not> P (x # xs) \<Longrightarrow> first_at P xs r \<Longrightarrow> first_at P (x # xs) (map_option Suc r)"
  by (auto simp: first_at_def drop_Cons less_Suc_eq_0_disj split: option.splits nat.splits)

lemma wc_strstr_match_prefix: "ns \<noteq> [] \<Longrightarrow> wc_strstr_match hs ns \<longleftrightarrow> prefix ns hs"
  by (induction hs ns rule: wc_strstr_match.induct) auto

lemma wc_strstr_loop_first: "rest \<noteq> [] \<Longrightarrow> first_at (prefix (c # rest)) h (wc_strstr_loop c rest h)"
proof (induction h)
  case Nil
  then show ?case by (simp add: first_at_def)
next
  case (Cons x xs)
  show ?case
  proof (cases "prefix (c # rest) (x # xs)")
    case True
    with Cons.prems show ?thesis by (auto simp: wc_strstr_match_prefix first_at_def)
  next
    case False
    then have "wc_strstr_loop c rest (x # xs) = map_option Suc (wc_strstr_loop c rest xs)"
      using Cons.prems by (auto simp: wc_strstr_match_prefix)
    with first_at_Cons [OF False Cons.IH [OF Cons.prems]] show ?thesis by simp
  qed
qed

lemma utf8_wc_strchr_first: "first_at (prefix [c]) h (utf8_wc_strchr h c)"
proof (induction h)
  case Nil
  then show ?case by (simp add: first_at_def)
next
  case (Cons x xs)
  show ?case
  proof (cases "x = c")
    case True
    then show ?thesis by (auto simp: first_at_def)
  next
    case False
    with first_at_Cons [OF _ Cons, of x] show ?thesis by auto
  qed
qed

text \<open>
  \<^verbatim>\<open>utf8_wc_strstr\<close> returns the position of the first occurrence of the needle in the
  haystack, and NULL exactly when the needle does not occur.
\<close>
theorem utf8_wc_strstr_first_occurrence:
  "case utf8_wc_strstr h n of
     None \<Rightarrow> \<not> sublist n h
   | Some i \<Rightarrow> i \<le> length h \<and> prefix n (drop i h) \<and> (\<forall>j<i. \<not> prefix n (drop j h))"
proof -
  consider "n = []" | c where "n = [c]" | c d ns where "n = c # d # ns" by (metis list.exhaust)
  then have f: "first_at (prefix n) h (utf8_wc_strstr h n)"
  proof cases
    case 1
    then show ?thesis by (simp add: utf8_wc_strstr_def first_at_def)
  next
    case (2 c)
    then show ?thesis using utf8_wc_strchr_first [of c h] by (simp add: utf8_wc_strstr_def)
  next
    case (3 c d ns)
    then show ?thesis using wc_strstr_loop_first [of "d # ns" c h] by (simp add: utf8_wc_strstr_def)
  qed
  have "\<exists>j. prefix n (drop j h)" if sub: "sublist n h"
  proof -
    obtain ps ss where "h = ps @ n @ ss" using sub by (auto simp: sublist_def)
    then have "prefix n (drop (length ps) h)" by simp
    then show ?thesis ..
  qed
  with f show ?thesis by (cases "utf8_wc_strstr h n") (auto simp: first_at_def)
qed

theorem utf8_wc_strstr_first_occurrence_witness:
  "utf8_wc_strstr [1, 2, 3] [2, 3] = Some 1 \<and> prefix [2, 3] (drop 1 [1, 2, 3 :: wchar]) \<and> \<not> prefix [2, 3] (drop 0 [1, 2, 3 :: wchar])"
  using utf8_wc_strstr_first_occurrence [of "[1, 2, 3]" "[2, 3]"] by (simp add: utf8_wc_strstr_def)

section \<open>White space\<close>

fun ws_norm :: "bool \<Rightarrow> wstring \<Rightarrow> wstring" where
  "ws_norm inws [] = []"
| "ws_norm inws (w # ws) =
     (if ISWS w then (if inws then ws_norm inws ws else 0x20 # ws_norm True ws) else w # ws_norm False ws)"

lemma norm_wc_loop_decodes:
  "norm_wc_loop s inws = map_sum id (ws_norm inws) (mbstr_to_wc_loop s)"
proof (induction s inws rule: norm_wc_loop.induct)
  case (1 s inws)
  show ?case
  proof (cases "s = [] \<or> (\<exists>e. utf8_mbtowc s (length s) = Inl e)")
    case True
    then show ?thesis by (subst norm_wc_loop.simps, subst mbstr_to_wc_loop.simps) auto
  next
    case False
    then have ne: "s \<noteq> []" by simp
    from False obtain rc wc where m: "utf8_mbtowc s (length s) = Inr (rc, wc)"
      by (cases "utf8_mbtowc s (length s)") auto
    note c = utf8_mbtowc_canonical [OF m]
    have rc1: "rc = 1" if "ISWS wc"
    proof -
      have "wc < 0x80" using that by (auto simp: ISWS_def)
      then have "utf8_wctomb wc = Some [ucast wc]" by (rule wctomb_1)
      with c(1,2) show ?thesis by (cases s) (auto simp: take_Cons' split: if_splits)
    qed
    have IH: "norm_wc_loop (drop rc s) b = map_sum id (ws_norm b) (mbstr_to_wc_loop (drop rc s))"
      if "b = (ISWS wc)" for b
      using that 1 [OF ne m] c(3) rc1 by (cases "ISWS wc"; cases inws) (auto simp: id_def)
    show ?thesis
      using ne m c(3) rc1 IH
      by (subst norm_wc_loop.simps, subst mbstr_to_wc_loop.simps)
        (cases "mbstr_to_wc_loop (drop rc s)"; cases "ISWS wc"; cases inws; simp)
  qed
qed

lemma ws_norm_spaces:
  "successively (\<lambda>a b. \<not> (a = 0x20 \<and> b = 0x20)) (ws_norm inws ws) \<and> 0x09 \<notin> set (ws_norm inws ws) \<and>
   0x0a \<notin> set (ws_norm inws ws) \<and> (inws \<longrightarrow> (\<forall>w. ws_norm inws ws \<noteq> [] \<longrightarrow> hd (ws_norm inws ws) \<noteq> 0x20)) \<and>
   filter (\<lambda>w. \<not> ISWS w) (ws_norm inws ws) = filter (\<lambda>w. \<not> ISWS w) ws"
  by (induction inws ws rule: ws_norm.induct) (auto simp: ISWS_def successively_Cons)

text \<open>
  normalising a valid string keeps its characters other than spaces, tabs and newlines in
  order; the result has no tab and no newline, and no two spaces in a row.
\<close>
theorem utf8_mbstr_to_norm_wc_collapses:
  assumes "utf8_mbstr_to_wc True s = Inr (ws, m)"
  shows "\<exists>w. utf8_mbstr_to_norm_wc True s = Inr (w, length w + 1) \<and>
           filter (\<lambda>c. \<not> ISWS c) w = filter (\<lambda>c. \<not> ISWS c) ws \<and> 0x09 \<notin> set w \<and> 0x0a \<notin> set w \<and>
           successively (\<lambda>a b. \<not> (a = 0x20 \<and> b = 0x20)) w"
proof -
  have "mbstr_to_wc_loop s = Inr ws" using assms by (auto simp: utf8_mbstr_to_wc_def map_sum_Inr_iff)
  then have "utf8_mbstr_to_norm_wc True s = Inr (ws_norm False ws, length (ws_norm False ws) + 1)"
    by (simp add: utf8_mbstr_to_norm_wc_def norm_wc_loop_decodes)
  with ws_norm_spaces [of False ws] show ?thesis by (intro exI [of _ "ws_norm False ws"]) simp
qed

theorem utf8_mbstr_to_norm_wc_collapses_witness:
  "\<exists>w. utf8_mbstr_to_norm_wc True [0x20, 0x09, 0x61] = Inr (w, length w + 1) \<and> filter (\<lambda>c. \<not> ISWS c) w = [0x61]"
proof -
  have d: "utf8_mbstr_to_wc True [0x20, 0x09, 0x61] = Inr ([0x20, 0x09, 0x61], 3)"
    by (simp add: utf8_mbstr_to_wc_def mbstr_to_wc_loop.simps utf8_mbtowc_def utf8_mbtowc_internal_def)
  from utf8_mbstr_to_norm_wc_collapses [OF d] show ?thesis by (auto simp: ISWS_def)
qed

section \<open>Case conversion in place\<close>

text \<open>A mapping whose results need no more bytes than the characters they replace.\<close>

definition shrinking :: "(wchar \<Rightarrow> wchar) \<Rightarrow> bool" where
  "shrinking f \<longleftrightarrow>
     (\<forall>w r. 0 < w \<longrightarrow> w < 0x200000 \<longrightarrow> utf8_wctomb w = Some r \<longrightarrow>
        (\<exists>r'. utf8_wctomb (f w) = Some r' \<and> length r' \<le> length r \<and>
              (length r' = length r \<longrightarrow> 0 < f w \<and> f w < 0x200000)))"

lemma wctomb_length_iff:
  "utf8_wctomb w = Some r \<Longrightarrow> w < 0x200000 \<Longrightarrow>
   length r = (if w < 0x80 then 1 else if w < 0x800 then 2 else if w < 0x10000 then 3 else 4)"
  using wctomb_1 [of w] wctomb_2 [of w] wctomb_3 [of w] wctomb_4 [of w] by (auto simp: not_less)

lemma case_map_shrinking:
  assumes f: "f = uc_toupper \<or> f = uc_tolower" and m: "\<And>w. uint (g w) = case_lookup f (uint w)"
  shows "shrinking g"
  unfolding shrinking_def
proof (intro allI impI)
  fix w r
  assume w: "0 < w" "w < 0x200000" "utf8_wctomb w = Some r"
  have u: "0 < uint w" "uint w < 0x200000" using w by (simp_all add: word_less_def)
  have rg: "g w = w \<or> g w < 0x10000"
    using case_lookup_range [OF f, of "uint w"] m [of w] by (auto simp: word_less_def word_uint_eq_iff)
  then have l: "g w < 0x200000" using w(2) by (auto simp: warith)
  obtain r' where r': "utf8_wctomb (g w) = Some r'" using wctomb_some [OF l] by blast
  have s1: "w < 0x80 \<Longrightarrow> g w < 0x80" and s2: "w < 0x800 \<Longrightarrow> g w < 0x800"
    using case_lookup_short [OF _ f, of "uint w"] m [of w] by (simp_all add: word_less_def)
  have le: "length r' \<le> length r"
    using wctomb_length_iff [OF w(3,2)] wctomb_length_iff [OF r' l] s1 s2 rg by (auto split: if_splits)
  have pos: "0 < g w" if "length r' = length r"
  proof (cases "w < 0x10000")
    case True
    then have "case_lookup f (uint w) \<noteq> 0" using case_lookup_0 [OF _ _ f, of "uint w"] u by (simp add: word_less_def)
    then have "uint (g w) \<noteq> 0" using m [of w] by simp
    then show ?thesis by (metis uint_0_iff word_gt_0)
  next
    case False
    then have "length r = 4" using wctomb_length_iff [OF w(3,2)] by (auto simp: warith split: if_splits)
    with that have "\<not> g w < 0x80" using wctomb_length_iff [OF r' l] by auto
    then show ?thesis by (auto simp: warith)
  qed
  show "\<exists>r'. utf8_wctomb (g w) = Some r' \<and> length r' \<le> length r \<and>
      (length r' = length r \<longrightarrow> 0 < g w \<and> g w < 0x200000)"
    using r' le pos l by blast
qed

lemma utf8_mbtowc_longer: "s \<noteq> [] \<Longrightarrow> length s \<le> len \<Longrightarrow> utf8_mbtowc s len = utf8_mbtowc s (length s)"
  by (simp add: utf8_mbtowc_def)

lemma utf8_case_loop_ok:
  assumes "shrinking f"
  shows "length s \<le> len \<Longrightarrow>
     \<exists>c t. utf8_case_loop f len s = Some (c, t) \<and> length t = length s \<and>
           (c = 0 \<longrightarrow> (\<exists>ws. mbstr_to_wc_loop s = Inr ws \<and> mbstr_to_wc_loop t = Inr (map f ws)))"
proof (induction s rule: length_induct)
  case (1 s)
  show ?case
  proof (cases "s = [] \<or> (\<exists>e. utf8_mbtowc s len = Inl e)")
    case True
    then have "s = [] \<and> utf8_case_loop f len s = Some (0, []) \<or> utf8_case_loop f len s = Some (1, s)"
      by (subst (1 2) utf8_case_loop.simps) auto
    then show ?thesis by (auto simp: mbstr_to_wc_loop.simps [of "[]"])
  next
    case False
    then have ne: "s \<noteq> []" by simp
    from False obtain rc wc where m: "utf8_mbtowc s len = Inr (rc, wc)" by (cases "utf8_mbtowc s len") auto
    note c = utf8_mbtowc_canonical [OF m]
    have lr: "length (take rc s) = rc" using c(2) by simp
    obtain r' where r': "utf8_wctomb (f wc) = Some r'" "length r' \<le> rc"
      "length r' = rc \<Longrightarrow> 0 < f wc \<and> f wc < 0x200000"
      using assms c(1,5,6) lr unfolding shrinking_def by metis
    show ?thesis
    proof (cases "rc = length r'")
      case False
      with ne m r' c(2) show ?thesis by (subst utf8_case_loop.simps) auto
    next
      case True
      have sh: "length (drop rc s) < length s" using ne c(3) by (cases s) auto
      have "length (drop rc s) \<le> len" using 1(2) by simp
      then obtain k t where IH: "utf8_case_loop f len (drop rc s) = Some (k, t)" "length t = length (drop rc s)"
        "k = 0 \<longrightarrow> (\<exists>ws. mbstr_to_wc_loop (drop rc s) = Inr ws \<and> mbstr_to_wc_loop t = Inr (map f ws))"
        using 1(1) sh by blast
      have run: "utf8_case_loop f len s = Some (k, r' @ t)"
        using ne m r' c(2,3) True IH(1) by (subst utf8_case_loop.simps) simp
      have "mbstr_to_wc_loop s = Inr (wc # ws) \<and> mbstr_to_wc_loop (r' @ t) = Inr (map f (wc # ws))"
        if "mbstr_to_wc_loop (drop rc s) = Inr ws" "mbstr_to_wc_loop t = Inr (map f ws)" for ws
      proof
        show "mbstr_to_wc_loop s = Inr (wc # ws)"
          using that(1) ne m c(3) utf8_mbtowc_longer [OF ne 1(2)] by (subst mbstr_to_wc_loop.simps) simp
        have "utf8_mbtowc (r' @ t) (length (r' @ t)) = Inr (length r', f wc)"
          using r'(3) True utf8_mbtowc_prefix [OF _ _ r'(1), of "length (r' @ t)" t] by simp
        then show "mbstr_to_wc_loop (r' @ t) = Inr (map f (wc # ws))"
          using that(2) True c(3) by (subst mbstr_to_wc_loop.simps) auto
      qed
      with IH(2,3) True c(2) run show ?thesis by (intro exI [of _ k] exI [of _ "r' @ t"]) auto
    qed
  qed
qed

text \<open>
  C26: converting a string to upper or lower case in place never writes outside the string:
  the result always has the length of the original. When the functions report success, the
  original is valid UTF-8 and the result is the encoding of its characters converted one by
  one.
\<close>
theorem utf8_case_conversion_in_place:
  "(\<exists>c t. utf8_toupper s = Some (c, t) \<and> length t = length s \<and>
      (c = 0 \<longrightarrow> (\<exists>ws n. utf8_mbstr_to_wc True s = Inr (ws, n) \<and>
                         utf8_mbstr_to_wc True t = Inr (utf8_wc_strupper ws, n)))) \<and>
   (\<exists>c t. utf8_tolower s = Some (c, t) \<and> length t = length s \<and>
      (c = 0 \<longrightarrow> (\<exists>ws n. utf8_mbstr_to_wc True s = Inr (ws, n) \<and>
                         utf8_mbstr_to_wc True t = Inr (utf8_wc_strlower ws, n))))"
proof
  have "shrinking utf8_wc_toupper" by (rule case_map_shrinking [of uc_toupper]) (simp_all add: toupper_uint)
  from utf8_case_loop_ok [OF this order_refl, of s]
  show "\<exists>c t. utf8_toupper s = Some (c, t) \<and> length t = length s \<and>
      (c = 0 \<longrightarrow> (\<exists>ws n. utf8_mbstr_to_wc True s = Inr (ws, n) \<and>
                         utf8_mbstr_to_wc True t = Inr (utf8_wc_strupper ws, n)))"
    by (fastforce simp: utf8_toupper_def utf8_mbstr_to_wc_def utf8_wc_strupper_def)
  have "shrinking utf8_wc_tolower" by (rule case_map_shrinking [of uc_tolower]) (simp_all add: tolower_uint)
  from utf8_case_loop_ok [OF this order_refl, of s]
  show "\<exists>c t. utf8_tolower s = Some (c, t) \<and> length t = length s \<and>
      (c = 0 \<longrightarrow> (\<exists>ws n. utf8_mbstr_to_wc True s = Inr (ws, n) \<and>
                         utf8_mbstr_to_wc True t = Inr (utf8_wc_strlower ws, n)))"
    by (fastforce simp: utf8_tolower_def utf8_mbstr_to_wc_def utf8_wc_strlower_def)
qed

theorem utf8_case_conversion_in_place_witness:
  "\<exists>c t. utf8_toupper [0x61] = Some (c, t) \<and> length t = 1"
  using utf8_case_conversion_in_place [of "[0x61]"] by auto

end
