(* ===== verification/Dico_Lev.thy ===== *)
theory Dico_Lev
  imports Dico_Utf8_Props
begin

text \<open>
  Approximate matching: the Levenshtein and Damerau-Levenshtein distance
  (\<^verbatim>\<open>lib/levenshtein.c\<close>) and Soundex codes (\<^verbatim>\<open>lib/soundex.c\<close>).
  The distance is computed in two or three rows of a table that are used in turn; the
  reference is the recurrence \<open>edit_dist\<close> on prefixes. Distances are natural
  numbers: they do not exceed the lengths of the strings, which are C \<^verbatim>\<open>int\<close>s.
\<close>

section \<open>Levenshtein distance\<close>

definition same_case :: "wchar \<Rightarrow> wchar \<Rightarrow> bool" where
  "same_case a b \<longleftrightarrow> utf8_wc_toupper a = utf8_wc_toupper b"

text \<open>One cell of the row \<open>idx\<close>.\<close>

definition lev_cell :: "bool \<Rightarrow> wstring \<Rightarrow> wstring \<Rightarrow> nat \<Rightarrow> nat \<Rightarrow> nat \<Rightarrow> nat \<Rightarrow> nat list list \<Rightarrow> nat list list" where
  "lev_cell dam a b nrows idx i j row =
     (let prev = (idx + nrows - 1) mod nrows;
          cost = (if same_case (a ! i) (b ! j) then 0 else 1);
          n = min (row ! prev ! (j + 1) + 1) (row ! idx ! j + 1);
          n = min n (row ! prev ! j + cost);
          n = (if dam \<and> i > 0 \<and> j > 0 \<and> same_case (a ! i) (b ! (j - 1)) \<and> same_case (a ! (i - 1)) (b ! j)
               then min n (row ! ((idx + 1) mod nrows) ! (j - 1) + cost) else n)
      in row[idx := (row ! idx)[j + 1 := n]])"

definition lev_row :: "bool \<Rightarrow> wstring \<Rightarrow> wstring \<Rightarrow> nat \<Rightarrow> nat \<Rightarrow> nat \<Rightarrow> nat list list \<Rightarrow> nat list list" where
  "lev_row dam a b nrows idx i row =
     fold (\<lambda>j row. lev_cell dam a b nrows idx i j row) [0..<length b] (row[idx := (row ! idx)[0 := i + 1]])"

text \<open>The outer loop; \<open>dist\<close> is not set before its first round.\<close>

fun lev_loop :: "bool \<Rightarrow> wstring \<Rightarrow> wstring \<Rightarrow> nat \<Rightarrow> nat list \<Rightarrow> nat \<Rightarrow> nat list list \<Rightarrow> nat option \<Rightarrow> nat option" where
  "lev_loop dam a b nrows [] idx row dist = dist"
| "lev_loop dam a b nrows (i # is) idx row dist =
     (let row' = lev_row dam a b nrows idx i row
      in lev_loop dam a b nrows is ((idx + 1) mod nrows) row' (Some (row' ! idx ! length b)))"

definition lev_wide :: "bool \<Rightarrow> wstring \<Rightarrow> wstring \<Rightarrow> nat option" where
  "lev_wide dam a b =
     (let blen = length b;
          nrows = (if dam then 3 else 2);
          row = (replicate nrows (replicate (blen + 1) 0))[0 := [0..<blen + 1]]
      in lev_loop dam a b nrows [0..<length a] 1 row None)"

text \<open>
  \<^verbatim>\<open>dico_levenshtein_distance\<close>: \<open>alloc\<close> tells which of the allocations
  succeed (the first string, the second string, the table). The allocation of the table
  is not checked, and \<^verbatim>\<open>dist\<close> is returned unset when the first string is empty.
\<close>

definition dico_levenshtein_distance :: "bool \<times> bool \<times> bool \<Rightarrow> bytes \<Rightarrow> bytes \<Rightarrow> bool \<Rightarrow> bool \<Rightarrow> int option" where
  "dico_levenshtein_distance alloc astr bstr norm damerau =
     (case alloc of (a1, a2, a3) \<Rightarrow>
        let conv = (if norm then utf8_mbstr_to_norm_wc else utf8_mbstr_to_wc) in
        case conv a1 astr of
          Inl _ \<Rightarrow> Some (-1)
        | Inr (a, _) \<Rightarrow>
            (case conv a2 bstr of
               Inl _ \<Rightarrow> Some (-1)
             | Inr (b, _) \<Rightarrow> if a3 then map_option int (lev_wide damerau a b) else None))"

section \<open>Soundex\<close>

definition soundextbl :: "nat list" where
  "soundextbl = [0, 1, 2, 3, 0, 1, 2, 0, 0, 2, 2, 4, 5, 5, 0, 1, 2, 6, 2, 3, 0, 1, 0, 2, 0, 2]"

text \<open>The table has entries for the letters only.\<close>

definition soundex_code :: "byte \<Rightarrow> nat option" where
  "soundex_code c =
     (let u = c_toupper c in if c_isupper u then Some (soundextbl ! unat (u - 0x41)) else None)"

text \<open>The scan of the letters after the first: \<open>i\<close> digits are stored, \<open>prev\<close> is the last.\<close>

fun soundex_loop :: "nat \<Rightarrow> nat \<Rightarrow> bytes \<Rightarrow> bytes option" where
  "soundex_loop i prev s =
     (if i < 4
      then (case s of
              [] \<Rightarrow> Some []
            | c # s' \<Rightarrow> do {
                n \<leftarrow> soundex_code c;
                (if n \<noteq> 0 \<and> n \<noteq> prev
                 then map_option ((#) (of_nat n + 0x30)) (soundex_loop (i + 1) n s')
                 else soundex_loop i prev s') })
      else Some [])"

declare soundex_loop.simps [simp del]

definition dico_soundex :: "bytes \<Rightarrow> bytes option" where
  "dico_soundex s =
     (case s of
        [] \<Rightarrow> None
      | c # s' \<Rightarrow> do {
          ds \<leftarrow> soundex_loop 1 0 s';
          Some (c_toupper c # ds @ replicate (3 - length ds) 0x30) })"

section \<open>The recurrence\<close>

text \<open>
  \<open>edit_dist dam eq i j\<close>: the distance of the prefixes of lengths \<open>i\<close> and
  \<open>j\<close>, where \<open>eq i j\<close> tells whether the \<open>i\<close>-th character of the first
  string equals the \<open>j\<close>-th of the second; with \<open>dam\<close> a transposition of two
  neighbours is one operation.
\<close>

fun edit_dist :: "bool \<Rightarrow> (nat \<Rightarrow> nat \<Rightarrow> bool) \<Rightarrow> nat \<Rightarrow> nat \<Rightarrow> nat" where
  "edit_dist dam eq 0 j = j"
| "edit_dist dam eq (Suc i) 0 = Suc i"
| "edit_dist dam eq (Suc i) (Suc j) =
     (let cost = (if eq i j then 0 else 1);
          n = min (edit_dist dam eq i (Suc j) + 1) (min (edit_dist dam eq (Suc i) j + 1) (edit_dist dam eq i j + cost))
      in if dam \<and> i > 0 \<and> j > 0 \<and> eq i (j - 1) \<and> eq (i - 1) j
         then min n (edit_dist dam eq (i - 1) (j - 1) + cost) else n)"

definition eq_chars :: "wstring \<Rightarrow> wstring \<Rightarrow> nat \<Rightarrow> nat \<Rightarrow> bool" where
  "eq_chars a b i j \<longleftrightarrow> same_case (a ! i) (b ! j)"

definition dist_row :: "bool \<Rightarrow> wstring \<Rightarrow> wstring \<Rightarrow> nat \<Rightarrow> nat list" where
  "dist_row dam a b i = map (edit_dist dam (eq_chars a b) i) [0..<Suc (length b)]"

lemma dist_row_nth [simp]: "j \<le> length b \<Longrightarrow> dist_row dam a b i ! j = edit_dist dam (eq_chars a b) i j"
  by (simp add: dist_row_def nth_append del: upt_Suc)

lemma length_dist_row [simp]: "length (dist_row dam a b i) = Suc (length b)"
  by (simp add: dist_row_def)

lemma edit_dist_0 [simp]: "edit_dist dam eq i 0 = i"
  by (cases i) auto

subsection \<open>One row\<close>

text \<open>The rows as they stand while row \<open>i + 1\<close> is filled up to column \<open>j\<close>.\<close>

definition row_inv :: "bool \<Rightarrow> wstring \<Rightarrow> wstring \<Rightarrow> nat \<Rightarrow> nat \<Rightarrow> nat \<Rightarrow> nat \<Rightarrow> nat list list \<Rightarrow> bool" where
  "row_inv dam a b nrows idx i j row \<longleftrightarrow>
     length row = nrows \<and> row ! ((idx + nrows - 1) mod nrows) = dist_row dam a b i \<and>
     (dam \<longrightarrow> i > 0 \<longrightarrow> row ! ((idx + 1) mod nrows) = dist_row dam a b (i - 1)) \<and>
     length (row ! idx) = Suc (length b) \<and>
     (\<forall>k\<le>j. row ! idx ! k = edit_dist dam (eq_chars a b) (Suc i) k)"

definition rows_ok :: "bool \<Rightarrow> nat \<Rightarrow> nat \<Rightarrow> bool" where
  "rows_ok dam nrows idx \<longleftrightarrow> nrows = (if dam then 3 else 2) \<and> idx < nrows"

lemma rows_distinct:
  assumes "rows_ok dam nrows idx"
  shows "(idx + nrows - 1) mod nrows \<noteq> idx" "(idx + nrows - 1) mod nrows < nrows"
    "dam \<Longrightarrow> (idx + 1) mod nrows \<noteq> idx" "(idx + 1) mod nrows < nrows"
    "dam \<Longrightarrow> (idx + 1) mod nrows \<noteq> (idx + nrows - 1) mod nrows"
proof -
  have "idx = 0 \<or> idx = 1 \<or> idx = 2 \<and> dam" using assms by (auto simp: rows_ok_def split: if_splits)
  then show "(idx + nrows - 1) mod nrows \<noteq> idx" "(idx + nrows - 1) mod nrows < nrows"
    "dam \<Longrightarrow> (idx + 1) mod nrows \<noteq> idx" "(idx + 1) mod nrows < nrows"
    "dam \<Longrightarrow> (idx + 1) mod nrows \<noteq> (idx + nrows - 1) mod nrows"
    using assms by (auto simp: rows_ok_def)
qed

lemma lev_cell_inv:
  assumes ok: "rows_ok dam nrows idx" and inv: "row_inv dam a b nrows idx i j row" and j: "j < length b"
  shows "row_inv dam a b nrows idx i (Suc j) (lev_cell dam a b nrows idx i j row)"
proof -
  let ?d = "edit_dist dam (eq_chars a b)" and ?prev = "(idx + nrows - 1) mod nrows"
  define n where "n = ?d (Suc i) (Suc j)"
  have len: "length row = nrows" "length (row ! idx) = Suc (length b)" "idx < nrows"
    using inv ok by (auto simp: row_inv_def rows_ok_def)
  have p: "row ! ?prev ! (j + 1) = ?d i (Suc j)" "row ! ?prev ! j = ?d i j" "row ! idx ! j = ?d (Suc i) j"
    using inv j by (auto simp: row_inv_def)
  have t: "row ! ((idx + 1) mod nrows) ! (j - 1) = ?d (i - 1) (j - 1)" if "dam" "i > 0"
    using inv j that by (auto simp: row_inv_def)
  have cell: "lev_cell dam a b nrows idx i j row = row[idx := (row ! idx)[j + 1 := n]]"
    using p t by (simp add: lev_cell_def n_def eq_chars_def Let_def min.assoc del: min_Suc_Suc)
  show ?thesis
    unfolding cell using inv len rows_distinct [OF ok] j
    by (auto simp: row_inv_def nth_list_update n_def le_Suc_eq)
qed

lemma lev_cells_inv:
  assumes "rows_ok dam nrows idx"
  shows "k \<le> length b \<Longrightarrow> row_inv dam a b nrows idx i 0 row \<Longrightarrow>
    row_inv dam a b nrows idx i k (fold (\<lambda>j row. lev_cell dam a b nrows idx i j row) [0..<k] row)"
proof (induction k)
  case 0
  then show ?case by simp
next
  case (Suc k)
  then show ?case using lev_cell_inv [OF assms, of a b i k] by simp
qed

text \<open>The rows before round \<open>i\<close> of the outer loop.\<close>

definition outer_inv :: "bool \<Rightarrow> wstring \<Rightarrow> wstring \<Rightarrow> nat \<Rightarrow> nat \<Rightarrow> nat \<Rightarrow> nat list list \<Rightarrow> bool" where
  "outer_inv dam a b nrows idx i row \<longleftrightarrow>
     rows_ok dam nrows idx \<and> length row = nrows \<and> (\<forall>r\<in>set row. length r = Suc (length b)) \<and>
     row ! ((idx + nrows - 1) mod nrows) = dist_row dam a b i \<and>
     (dam \<longrightarrow> i > 0 \<longrightarrow> row ! ((idx + 1) mod nrows) = dist_row dam a b (i - 1))"

lemma lev_cell_lengths:
  assumes "\<forall>r\<in>set row. length r = L" and "idx < length row"
  shows "\<forall>r\<in>set (lev_cell dam a b nrows idx i j row). length r = L"
  using assms by (auto simp: lev_cell_def Let_def dest!: set_update_subset_insert [THEN subsetD])

lemma lev_row_lengths:
  assumes "\<forall>r\<in>set row. length r = L" and "idx < length row"
  shows "(\<forall>r\<in>set (lev_row dam a b nrows idx i row). length r = L) \<and> length (lev_row dam a b nrows idx i row) = length row"
proof -
  have fold: "(\<forall>r\<in>set row'. length r = L) \<and> idx < length row' \<Longrightarrow>
      (\<forall>r\<in>set (fold (\<lambda>j row. lev_cell dam a b nrows idx i j row) js row'). length r = L) \<and>
      length (fold (\<lambda>j row. lev_cell dam a b nrows idx i j row) js row') = length row'" for js row'
  proof (induction js arbitrary: row')
    case Nil
    then show ?case by simp
  next
    case (Cons j js)
    have "length (lev_cell dam a b nrows idx i j row') = length row'" by (simp add: lev_cell_def Let_def)
    with Cons.IH [of "lev_cell dam a b nrows idx i j row'"] Cons.prems lev_cell_lengths [of row' L idx dam a b nrows i j]
    show ?case by simp
  qed
  have "\<forall>r\<in>set (row[idx := (row ! idx)[0 := i + 1]]). length r = L"
    using assms by (auto dest!: set_update_subset_insert [THEN subsetD])
  then show ?thesis
    unfolding lev_row_def using assms(2) fold [of "row[idx := (row ! idx)[0 := i + 1]]" "[0..<length b]"] by simp
qed

lemma lev_row_inv:
  assumes "outer_inv dam a b nrows idx i row"
  shows "row_inv dam a b nrows idx i (length b) (lev_row dam a b nrows idx i row)"
proof -
  have ok: "rows_ok dam nrows idx" and len: "length row = nrows" "idx < nrows"
    using assms by (auto simp: outer_inv_def rows_ok_def)
  have l2: "length (row ! idx) = Suc (length b)" using assms len by (auto simp: outer_inv_def)
  have "row_inv dam a b nrows idx i 0 (row[idx := (row ! idx)[0 := i + 1]])"
    using assms len l2 rows_distinct [OF ok] by (auto simp: row_inv_def outer_inv_def nth_list_update)
  then show ?thesis unfolding lev_row_def by (intro lev_cells_inv [OF ok]) simp_all
qed

lemma lev_row_outer:
  assumes "outer_inv dam a b nrows idx i row"
  shows "outer_inv dam a b nrows ((idx + 1) mod nrows) (Suc i) (lev_row dam a b nrows idx i row)"
    and "lev_row dam a b nrows idx i row ! idx = dist_row dam a b (Suc i)"
proof -
  let ?r = "lev_row dam a b nrows idx i row"
  have ok: "rows_ok dam nrows idx" and len: "length row = nrows" "idx < nrows"
    using assms by (auto simp: outer_inv_def rows_ok_def)
  note inv = lev_row_inv [OF assms]
  have lens: "\<forall>r\<in>set ?r. length r = Suc (length b)" "length ?r = nrows"
    using lev_row_lengths [of row "Suc (length b)" idx dam a b nrows i] assms len by (auto simp: outer_inv_def)
  show new: "?r ! idx = dist_row dam a b (Suc i)"
    by (rule nth_equalityI) (use inv in \<open>auto simp: row_inv_def less_Suc_eq_le\<close>)
  have i1: "((idx + 1) mod nrows + nrows - 1) mod nrows = idx"
    and i2: "dam \<Longrightarrow> ((idx + 1) mod nrows + 1) mod nrows = (idx + nrows - 1) mod nrows"
    and ok': "rows_ok dam nrows ((idx + 1) mod nrows)"
  proof -
    have "idx = 0 \<or> idx = 1 \<or> idx = 2 \<and> dam" using ok by (auto simp: rows_ok_def split: if_splits)
    then show "((idx + 1) mod nrows + nrows - 1) mod nrows = idx"
      "dam \<Longrightarrow> ((idx + 1) mod nrows + 1) mod nrows = (idx + nrows - 1) mod nrows"
      "rows_ok dam nrows ((idx + 1) mod nrows)"
      using ok by (auto simp: rows_ok_def)
  qed
  show "outer_inv dam a b nrows ((idx + 1) mod nrows) (Suc i) ?r"
    using ok' lens new i1 i2 inv by (auto simp: outer_inv_def row_inv_def)
qed

lemma lev_loop_inv:
  "outer_inv dam a b nrows idx i row \<Longrightarrow> i < k \<Longrightarrow>
   lev_loop dam a b nrows [i..<k] idx row dist = Some (edit_dist dam (eq_chars a b) k (length b))"
proof (induction "k - i" arbitrary: i idx row dist)
  case 0
  then show ?case by simp
next
  case (Suc n)
  note st = lev_row_outer [OF Suc.prems(1)]
  show ?case
  proof (cases "Suc i < k")
    case True
    with Suc.hyps(1) [of "Suc i"] Suc.hyps(2) st(1) Suc.prems(2) show ?thesis
      by (simp add: upt_conv_Cons Let_def)
  next
    case False
    then have "k = Suc i" using Suc.prems(2) by simp
    with st(2) show ?thesis by (simp add: Let_def)
  qed
qed

lemma first_row: "[0..<length b + 1] = dist_row dam a b 0"
  by (rule nth_equalityI) (simp_all del: upt_Suc)

lemma lev_start:
  "outer_inv dam a b (if dam then 3 else 2) 1 0
     ((replicate (if dam then 3 else 2) (replicate (length b + 1) 0))[0 := [0..<length b + 1]])"
proof -
  have r: "replicate 2 x = [x, x]" "replicate 3 x = [x, x, x]" for x :: "nat list"
    by (simp_all add: numeral_eq_Suc)
  show ?thesis
    unfolding first_row [of b dam a] by (cases dam) (simp_all add: outer_inv_def rows_ok_def r)
qed

lemma lev_wide_edit_dist:
  assumes "a \<noteq> []"
  shows "lev_wide dam a b = Some (edit_dist dam (eq_chars a b) (length a) (length b))"
  unfolding lev_wide_def Let_def using lev_loop_inv [OF lev_start, of "length a" dam a b None] assms by simp

section \<open>Minimal edit scripts\<close>

text \<open>
  \<open>edits dam a b n\<close>: some way of turning \<open>a\<close> into \<open>b\<close> by \<open>n\<close>
  deletions, insertions, substitutions and, with \<open>dam\<close>, transpositions of
  neighbours, working from left to right; characters are compared up to case.
\<close>

inductive edits :: "bool \<Rightarrow> wstring \<Rightarrow> wstring \<Rightarrow> nat \<Rightarrow> bool" for dam where
  edits_Nil: "edits dam [] [] 0"
| edits_delete: "edits dam a b n \<Longrightarrow> edits dam (a @ [x]) b (Suc n)"
| edits_insert: "edits dam a b n \<Longrightarrow> edits dam a (b @ [y]) (Suc n)"
| edits_keep: "edits dam a b n \<Longrightarrow> same_case x y \<Longrightarrow> edits dam (a @ [x]) (b @ [y]) n"
| edits_replace: "edits dam a b n \<Longrightarrow> edits dam (a @ [x]) (b @ [y]) (Suc n)"
| edits_swap: "edits dam a b n \<Longrightarrow> dam \<Longrightarrow> same_case x y' \<Longrightarrow> same_case y x' \<Longrightarrow>
    edits dam (a @ [x, y]) (b @ [x', y']) (Suc n)"

lemma same_case_sym: "same_case x y \<longleftrightarrow> same_case y x"
  by (auto simp: same_case_def)

lemma edits_sym: "edits dam a b n \<Longrightarrow> edits dam b a n"
  by (induction rule: edits.induct) (auto intro: edits.intros simp: same_case_sym)

lemma edits_length: "edits dam a b n \<Longrightarrow> length a \<le> length b + n \<and> length b \<le> length a + n"
  by (induction rule: edits.induct) auto

lemma edits_zeroD: "edits dam a b n \<Longrightarrow> n = 0 \<Longrightarrow> map utf8_wc_toupper a = map utf8_wc_toupper b"
  by (induction rule: edits.induct) (auto simp: same_case_def)

lemma edits_zeroI: "map utf8_wc_toupper a = map utf8_wc_toupper b \<Longrightarrow> edits dam a b 0"
proof (induction a arbitrary: b rule: rev_induct)
  case Nil
  then show ?case by (simp add: edits_Nil)
next
  case (snoc x a)
  obtain b' y where "b = b' @ [y]" using snoc.prems by (cases b rule: rev_cases) auto
  with snoc show ?case by (auto intro!: edits_keep simp: same_case_def)
qed

lemma edit_dist_cong:
  "(\<And>k l. k < i \<Longrightarrow> l < j \<Longrightarrow> eq k l \<longleftrightarrow> eq' k l) \<Longrightarrow> edit_dist dam eq i j = edit_dist dam eq' i j"
proof (induction dam eq i j rule: edit_dist.induct)
  case (3 dam eq i j)
  have "edit_dist dam eq i (Suc j) = edit_dist dam eq' i (Suc j)" "edit_dist dam eq (Suc i) j = edit_dist dam eq' (Suc i) j"
    "edit_dist dam eq i j = edit_dist dam eq' i j" "edit_dist dam eq (i - 1) (j - 1) = edit_dist dam eq' (i - 1) (j - 1)"
    if "dam \<and> i > 0 \<and> j > 0 \<and> eq i (j - 1) \<and> eq (i - 1) j"
    using 3 that by auto
  moreover have "edit_dist dam eq i (Suc j) = edit_dist dam eq' i (Suc j)" "edit_dist dam eq (Suc i) j = edit_dist dam eq' (Suc i) j"
    "edit_dist dam eq i j = edit_dist dam eq' i j"
    using 3 by auto
  moreover have "eq i j = eq' i j" "eq i (j - 1) = eq' i (j - 1)" "eq (i - 1) j = eq' (i - 1) j"
    using 3(5) by simp_all
  ultimately show ?case by (auto simp: Let_def)
qed auto

lemma eq_chars_iff: "eq_chars a b i j = True \<longleftrightarrow> same_case (a ! i) (b ! j)"
  by (simp add: eq_chars_def)

text \<open>Where a transposition costs nothing, two kept characters do as well.\<close>

lemma edit_dist_double:
  assumes "i > 0" "j > 0" "eq_chars a b i (j - 1)" "eq_chars a b (i - 1) j" "eq_chars a b i j"
  shows "edit_dist dam (eq_chars a b) i j \<le> edit_dist dam (eq_chars a b) (i - 1) (j - 1)"
proof -
  obtain p q where pq: "i = Suc p" "j = Suc q" using assms(1,2) by (auto simp: gr0_conv_Suc)
  have "eq_chars a b p q" using assms pq by (auto simp: eq_chars_def same_case_def)
  then show ?thesis using pq by (simp add: Let_def min_le_iff_disj)
qed

text \<open>The recurrence is realised by a script \<dots>\<close>

lemma edits_edit_dist:
  "i \<le> length a \<Longrightarrow> j \<le> length b \<Longrightarrow> edits dam (take i a) (take j b) (edit_dist dam (eq_chars a b) i j)"
proof (induction "i + j" arbitrary: i j rule: less_induct)
  case less
  let ?d = "edit_dist dam (eq_chars a b)"
  note IH = less.hyps
  show ?case
  proof (cases i)
    case 0
    show ?thesis
    proof (cases j)
      case (Suc k)
      with IH [of 0 k] less.prems 0 show ?thesis by (auto simp: take_Suc_conv_app_nth intro: edits_insert)
    qed (simp add: 0 edits_Nil)
  next
    case i: (Suc i')
    show ?thesis
    proof (cases j)
      case 0
      with IH [of i' 0] less.prems i show ?thesis by (auto simp: take_Suc_conv_app_nth intro: edits_delete)
    next
      case j: (Suc j')
      have ti: "take i a = take i' a @ [a ! i']" and tj: "take j b = take j' b @ [b ! j']"
        using less.prems i j by (simp_all add: take_Suc_conv_app_nth)
      have del: "edits dam (take i a) (take j b) (Suc (?d i' j))"
        unfolding ti using IH [of i' j] less.prems i j by (intro edits_delete) simp
      have ins: "edits dam (take i a) (take j b) (Suc (?d i j'))"
        unfolding tj using IH [of i j'] less.prems i j by (intro edits_insert) simp
      have sub: "edits dam (take i a) (take j b) (?d i' j' + (if eq_chars a b i' j' then 0 else 1))"
        unfolding ti tj using IH [of i' j'] less.prems i j by (cases "eq_chars a b i' j'") (simp_all add: edits_replace edits_keep eq_chars_iff [of a b i' j', simplified])
      have swap: "edits dam (take i a) (take j b) (Suc (?d (i' - 1) (j' - 1)))"
        if h: "dam" "i' > 0" "j' > 0" "eq_chars a b i' (j' - 1)" "eq_chars a b (i' - 1) j'"
      proof -
        obtain p q where pq: "i' = Suc p" "j' = Suc q" using h(2,3) by (auto simp: gr0_conv_Suc)
        have "take i a = take p a @ [a ! p, a ! i']" "take j b = take q b @ [b ! q, b ! j']"
          using less.prems i j pq by (simp_all add: take_Suc_conv_app_nth)
        moreover have "edits dam (take p a) (take q b) (?d p q)" using IH [of p q] less.prems i j pq by simp
        ultimately show ?thesis using h pq by (auto simp: eq_chars_def intro: edits_swap)
      qed
      show ?thesis
        using del ins sub swap edit_dist_double [of i' j' a b dam] unfolding i j edit_dist.simps Let_def min_def
        by (auto split: if_splits)
    qed
  qed
qed

text \<open>\<dots> and no script is shorter.\<close>

lemma edit_dist_delete: "edit_dist dam eq (Suc i) j \<le> Suc (edit_dist dam eq i j)"
  by (cases j) (simp_all add: Let_def min_le_iff_disj)

lemma edit_dist_insert: "edit_dist dam eq i (Suc j) \<le> Suc (edit_dist dam eq i j)"
  by (cases i) (simp_all add: Let_def min_le_iff_disj)

lemma edit_dist_sub: "edit_dist dam eq (Suc i) (Suc j) \<le> edit_dist dam eq i j + (if eq i j then 0 else 1)"
  by (simp add: Let_def min_le_iff_disj)

lemma edit_dist_swap:
  "dam \<Longrightarrow> eq (Suc i) j \<Longrightarrow> eq i (Suc j) \<Longrightarrow> edit_dist dam eq (Suc (Suc i)) (Suc (Suc j)) \<le> Suc (edit_dist dam eq i j)"
  unfolding edit_dist.simps(3) [of dam eq "Suc i" "Suc j"] by (simp add: Let_def min_le_iff_disj del: edit_dist.simps)

lemma eq_chars_prefix: "k < length a \<Longrightarrow> l < length b \<Longrightarrow> eq_chars (a @ x) (b @ y) k l = eq_chars a b k l"
  by (simp add: eq_chars_def nth_append)

lemma edit_dist_prefix:
  "edit_dist dam (eq_chars (a @ x) (b @ y)) (length a) (length b) = edit_dist dam (eq_chars a b) (length a) (length b)"
  by (rule edit_dist_cong) (simp add: eq_chars_prefix)

lemma edit_dist_minimal: "edits dam a b n \<Longrightarrow> edit_dist dam (eq_chars a b) (length a) (length b) \<le> n"
proof (induction rule: edits.induct)
  case (edits_delete a b n x)
  then show ?case
    using edit_dist_delete [of dam "eq_chars (a @ [x]) b" "length a" "length b"] edit_dist_prefix [of dam a "[x]" b "[]"] by simp
next
  case (edits_insert a b n y)
  then show ?case
    using edit_dist_insert [of dam "eq_chars a (b @ [y])" "length a" "length b"] edit_dist_prefix [of dam a "[]" b "[y]"] by simp
next
  case (edits_keep a b n x y)
  then show ?case
    using edit_dist_sub [of dam "eq_chars (a @ [x]) (b @ [y])" "length a" "length b"] edit_dist_prefix [of dam a "[x]" b "[y]"]
      eq_chars_iff [of "a @ [x]" "b @ [y]" "length a" "length b"]
    by (simp del: edit_dist.simps)
next
  case (edits_replace a b n x y)
  then show ?case
    using edit_dist_sub [of dam "eq_chars (a @ [x]) (b @ [y])" "length a" "length b"] edit_dist_prefix [of dam a "[x]" b "[y]"]
    by (simp del: edit_dist.simps split: if_splits)
next
  case (edits_swap a b n x y' y x')
  then show ?case
    using edit_dist_swap [of dam "eq_chars (a @ [x, y]) (b @ [x', y'])" "length a" "length b"]
      edit_dist_prefix [of dam a "[x, y]" b "[x', y']"]
      eq_chars_iff [of "a @ [x, y]" "b @ [x', y']" "Suc (length a)" "length b"]
      eq_chars_iff [of "a @ [x, y]" "b @ [x', y']" "length a" "Suc (length b)"]
    by (simp add: nth_append same_case_sym del: edit_dist.simps)
qed simp

lemma edit_dist_least:
  "edits dam a b (edit_dist dam (eq_chars a b) (length a) (length b))"
  using edits_edit_dist [of "length a" a "length b" b dam] by simp

lemma edits_Nil_left: "edits dam [] b (length b)"
  by (induction b rule: rev_induct) (auto intro: edits.intros)

lemma edits_max: "\<exists>n\<le>max (length a) (length b). edits dam a b n"
proof (induction a arbitrary: b rule: rev_induct)
  case Nil
  show ?case using edits_Nil_left [of dam b] by auto
next
  case (snoc x a)
  show ?case
  proof (cases b rule: rev_cases)
    case Nil
    with snoc [of "[]"] show ?thesis by (auto intro: edits_delete)
  next
    case (snoc b' y)
    obtain n where "n \<le> max (length a) (length b')" "edits dam a b' n" using snoc.IH [of b'] by auto
    then have "Suc n \<le> max (length (a @ [x])) (length b)" "edits dam (a @ [x]) b (Suc n)"
      unfolding \<open>b = b' @ [y]\<close> by (auto intro: edits_replace)
    then show ?thesis by blast
  qed
qed

lemma lev_wide_least:
  assumes "a \<noteq> []"
  obtains n where "lev_wide dam a b = Some n" "edits dam a b n" "\<And>m. edits dam a b m \<Longrightarrow> n \<le> m"
  using lev_wide_edit_dist [OF assms] edit_dist_least edit_dist_minimal by blast

lemma lev_wide_sym:
  assumes "a \<noteq> []" "b \<noteq> []"
  shows "lev_wide dam a b = lev_wide dam b a"
proof -
  obtain n m where n: "lev_wide dam a b = Some n" "edits dam a b n" "\<And>k. edits dam a b k \<Longrightarrow> n \<le> k"
    and m: "lev_wide dam b a = Some m" "edits dam b a m" "\<And>k. edits dam b a k \<Longrightarrow> m \<le> k"
    using lev_wide_least assms by metis
  have "n = m" using n(3) [OF edits_sym [OF m(2)]] m(3) [OF edits_sym [OF n(2)]] by simp
  with n(1) m(1) show ?thesis by simp
qed

section \<open>Properties\<close>


lemma conv_a: "utf8_mbstr_to_wc True [0x61] = Inr ([0x61], 1)"
  and conv_ab: "utf8_mbstr_to_wc True [0x61, 0x62] = Inr ([0x61, 0x62], 2)"
  and conv_Nil: "utf8_mbstr_to_wc True [] = Inr ([], 0)"
  by (simp_all add: utf8_mbstr_to_wc_def mbstr_to_wc_loop.simps utf8_mbtowc_def utf8_mbtowc_internal_def)


text \<open>
  The distance of two strings that are not empty does not depend on their order, is 0
  exactly when they are equal up to case, and lies between the difference and the maximum
  of their lengths in characters.
\<close>

theorem levenshtein_distance_bounds:
  assumes "(if norm then utf8_mbstr_to_norm_wc else utf8_mbstr_to_wc) True astr = Inr (a, la)"
    and "(if norm then utf8_mbstr_to_norm_wc else utf8_mbstr_to_wc) True bstr = Inr (b, lb)"
    and "a \<noteq> []" and "b \<noteq> []"
  shows "\<exists>n. dico_levenshtein_distance (True, True, True) astr bstr norm dam = Some (int n) \<and>
    dico_levenshtein_distance (True, True, True) bstr astr norm dam = Some (int n) \<and>
    (n = 0 \<longleftrightarrow> map utf8_wc_toupper a = map utf8_wc_toupper b) \<and>
    length a \<le> length b + n \<and> length b \<le> length a + n \<and> n \<le> max (length a) (length b)"
proof -
  obtain n where n: "lev_wide dam a b = Some n" "edits dam a b n" "\<And>m. edits dam a b m \<Longrightarrow> n \<le> m"
    using lev_wide_least [OF assms(3)] by blast
  have "n = 0 \<longleftrightarrow> map utf8_wc_toupper a = map utf8_wc_toupper b"
    using n(2) n(3) [OF edits_zeroI] edits_zeroD [of dam a b n] by auto
  moreover have "n \<le> max (length a) (length b)" using edits_max [of a b dam] n(3) by force
  ultimately show ?thesis
    using assms(1,2) n(1) edits_length [OF n(2)] lev_wide_sym [OF assms(3,4), of dam]
    by (auto simp: dico_levenshtein_distance_def)
qed

theorem levenshtein_distance_bounds_witness:
  "\<exists>n. dico_levenshtein_distance (True, True, True) [0x61, 0x62] [0x61] False True = Some (int n) \<and> 1 \<le> n \<and> n \<le> 2"
  using levenshtein_distance_bounds [of False "[0x61, 0x62]" "[0x61, 0x62]" 2 "[0x61]" "[0x61]" 1 True] conv_a conv_ab
  by auto

text \<open>
  When the first string has no characters, \<^verbatim>\<open>dico_levenshtein_distance\<close> returns the
  variable \<^verbatim>\<open>dist\<close> unset (an undefined value), while the distance it should return is
  the length of the second string.
\<close>

theorem levenshtein_empty_first_undefined:
  assumes "(if norm then utf8_mbstr_to_norm_wc else utf8_mbstr_to_wc) True astr = Inr ([], la)"
    and "(if norm then utf8_mbstr_to_norm_wc else utf8_mbstr_to_wc) True bstr = Inr (b, lb)"
  shows "dico_levenshtein_distance (True, True, True) astr bstr norm dam = None \<and>
    edits dam [] b (length b) \<and> (\<forall>m. edits dam [] b m \<longrightarrow> length b \<le> m)"
  using assms edits_Nil_left [of dam b] edits_length [of dam "[]" b]
  by (auto simp: dico_levenshtein_distance_def lev_wide_def)

theorem levenshtein_empty_first_undefined_witness:
  "dico_levenshtein_distance (True, True, True) [] [0x61] False False = None \<and> edits False [] [0x61] 1"
  using levenshtein_empty_first_undefined [of False "[]" 0 "[0x61]" "[0x61]" 1 False] conv_a conv_Nil by simp

subsection \<open>Soundex codes\<close>

definition c_isalpha :: "byte \<Rightarrow> bool" where
  "c_isalpha c \<longleftrightarrow> c_isupper c \<or> c_islower c"

definition letter_code :: "byte \<Rightarrow> nat" where
  "letter_code c = the (soundex_code c)"

definition digit :: "nat \<Rightarrow> byte" where
  "digit n = of_nat n + 0x30"

lemma toupper_alpha: "c_isalpha c \<Longrightarrow> c_isupper (c_toupper c)"
  by (auto simp: c_isalpha_def c_isupper_def c_islower_def c_toupper_def word_le_nat_alt unat_sub)

lemma soundex_code_alpha: "c_isalpha c \<Longrightarrow> soundex_code c = Some (letter_code c)"
  using toupper_alpha by (simp add: letter_code_def soundex_code_def)

lemma soundex_loop_spec:
  "\<forall>c\<in>set s. c_isalpha c \<Longrightarrow> i \<le> 4 \<Longrightarrow>
   soundex_loop i prev s =
     Some (map digit (take (4 - i) (tl (remdups_adj (prev # filter (\<lambda>n. n \<noteq> 0) (map letter_code s))))))"
proof (induction s arbitrary: i prev)
  case Nil
  then show ?case by (simp add: soundex_loop.simps)
next
  case (Cons c s)
  show ?case
  proof (cases "i < 4")
    case True
    have c: "soundex_code c = Some (letter_code c)" using Cons.prems(1) by (simp add: soundex_code_alpha)
    obtain t where t: "remdups_adj (letter_code c # filter (\<lambda>n. n \<noteq> 0) (map letter_code s)) = letter_code c # t"
      by (cases "remdups_adj (letter_code c # filter (\<lambda>n. n \<noteq> 0) (map letter_code s))")
         (auto simp: remdups_adj_Cons split: list.splits if_splits)
    show ?thesis
    proof (cases "letter_code c \<noteq> 0 \<and> letter_code c \<noteq> prev")
      case new: True
      have "4 - i = Suc (4 - (i + 1))" using True by simp
      with new True c Cons t show ?thesis by (subst soundex_loop.simps) (simp flip: digit_def)
    next
      case False
      with True c Cons show ?thesis by (subst soundex_loop.simps) auto
    qed
  qed (use Cons.prems in \<open>simp add: soundex_loop.simps\<close>)
qed



end
