(* ===== verification/Dico_Codec.thy ===== *)
theory Dico_Codec
  imports Dico_Prelude
begin

text \<open>
  Transfer encodings: base64 (\<^verbatim>\<open>lib/base64.c\<close>) and quoted-printable
  (\<^verbatim>\<open>lib/qp.c\<close>), both as functions on whole buffers and as the converters a filter
  stream calls with an input buffer and room for \<^verbatim>\<open>osize\<close> bytes. \<open>None\<close> stands
  for a read or write outside a buffer or a table. The expressions of the source are
  computed in \<^verbatim>\<open>int\<close> and stored in \<^verbatim>\<open>unsigned char\<close> or masked to six bits,
  so 8-bit words give the same values.
\<close>

unbundle bit_operations_syntax

section \<open>Base64\<close>

definition b64tab :: bytes where
  "b64tab = str ''ABCDEFGHIJKLMNOPQRSTUVWXYZabcdefghijklmnopqrstuvwxyz0123456789+/''"

definition b64val :: "int list" where
  "b64val =
    [-1, -1, -1, -1, -1, -1, -1, -1, -1, -1, -1, -1, -1, -1, -1, -1,
     -1, -1, -1, -1, -1, -1, -1, -1, -1, -1, -1, -1, -1, -1, -1, -1,
     -1, -1, -1, -1, -1, -1, -1, -1, -1, -1, -1, 62, -1, -1, -1, 63,
     52, 53, 54, 55, 56, 57, 58, 59, 60, 61, -1, -1, -1, -1, -1, -1,
     -1, 0, 1, 2, 3, 4, 5, 6, 7, 8, 9, 10, 11, 12, 13, 14,
     15, 16, 17, 18, 19, 20, 21, 22, 23, 24, 25, -1, -1, -1, -1, -1,
     -1, 26, 27, 28, 29, 30, 31, 32, 33, 34, 35, 36, 37, 38, 39, 40,
     41, 42, 43, 44, 45, 46, 47, 48, 49, 50, 51, -1, -1, -1, -1, -1]"

abbreviation equals_sign :: byte where
  "equals_sign \<equiv> 0x3d"

definition dico_base64_input :: "32 word \<Rightarrow> int" where
  "dico_base64_input n = (if unat n < length b64val then b64val ! unat n else -1)"

definition b64chr :: "byte \<Rightarrow> byte" where
  "b64chr v = b64tab ! unat v"

text \<open>The loop over blocks of three bytes and the padded rest.\<close>

fun b64_encode_loop :: "bytes \<Rightarrow> bytes" where
  "b64_encode_loop (a # b # c # input) =
     b64chr (drop_bit 2 a) # b64chr ((push_bit 4 a AND 0x30) OR drop_bit 4 b)
       # b64chr ((push_bit 2 b AND 0x3c) OR drop_bit 6 c) # b64chr (c AND 0x3f) # b64_encode_loop input"
| "b64_encode_loop [a, b] =
     [b64chr (drop_bit 2 a), b64chr ((push_bit 4 a AND 0x30) OR drop_bit 4 b),
      b64chr (push_bit 2 b AND 0x3c), equals_sign]"
| "b64_encode_loop [a] = [b64chr (drop_bit 2 a), b64chr (push_bit 4 a AND 0x30), equals_sign, equals_sign]"
| "b64_encode_loop [] = []"

text \<open>The buffer holds \<open>olen\<close> bytes; the output and a terminating NUL go there.\<close>

definition dico_base64_encode :: "bool \<Rightarrow> bytes \<Rightarrow> bytes res" where
  "dico_base64_encode alloc input =
     (let olen = 4 * (length input + 2) div 3 + 1; out = b64_encode_loop input in
      if \<not> alloc then Some (Inl ENOMEM)
      else if length out + 1 \<le> olen then Some (Inr out) else None)"

definition rd :: "bytes \<Rightarrow> nat \<Rightarrow> byte option" where
  "rd mem i = (if i < length mem then Some (mem ! i) else None)"

definition b64_bad :: "byte \<Rightarrow> bool" where
  "b64_bad c \<longleftrightarrow> c > 127 \<or> b64val ! unat c = -1"

definition b64_val :: "byte \<Rightarrow> byte" where
  "b64_val c = word_of_int (b64val ! unat c)"

text \<open>
  One round of \<^verbatim>\<open>dico_base64_decode\<close> on the memory from \<^verbatim>\<open>input\<close> on; the tests
  are made from left to right and stop at the first one that holds.
\<close>

definition b64_block :: "bytes \<Rightarrow> bytes res" where
  "b64_block mem = do {
     c0 \<leftarrow> rd mem 0;
     (if b64_bad c0 then Some (Inl EINVAL) else do {
        c1 \<leftarrow> rd mem 1;
        (if b64_bad c1 then Some (Inl EINVAL) else do {
           c2 \<leftarrow> rd mem 2;
           (if c2 > 127 \<or> (c2 \<noteq> equals_sign \<and> b64_bad c2) then Some (Inl EINVAL) else do {
              c3 \<leftarrow> rd mem 3;
              (if c3 > 127 \<or> (c3 \<noteq> equals_sign \<and> b64_bad c3) then Some (Inl EINVAL)
               else Some (Inr
                 ((push_bit 2 (b64_val c0) OR drop_bit 4 (b64_val c1)) #
                  (if c2 \<noteq> equals_sign
                   then ((push_bit 4 (b64_val c1) AND 0xf0) OR drop_bit 2 (b64_val c2)) #
                        (if c3 \<noteq> equals_sign then [(push_bit 6 (b64_val c2) AND 0xc0) OR b64_val c3] else [])
                   else [])))) }) }) }) }"

lemma b64_block_length: "b64_block mem = Some (Inr out) \<Longrightarrow> 4 \<le> length mem \<and> 1 \<le> length out \<and> length out \<le> 3"
  by (auto simp: b64_block_def rd_def res_iff split: if_splits)

function b64_decode_loop :: "nat \<Rightarrow> bytes \<Rightarrow> 64 word \<Rightarrow> bytes \<Rightarrow> bytes res" where
  "b64_decode_loop olen mem input_len out =
     (case b64_block mem of
        None \<Rightarrow> None
      | Some (Inl e) \<Rightarrow> Some (Inl e)
      | Some (Inr bs) \<Rightarrow>
          (if length out + length bs > olen then None
           else if input_len - 4 > 0 then b64_decode_loop olen (drop 4 mem) (input_len - 4) (out @ bs)
           else Some (Inr (out @ bs))))"
  by pat_completeness auto
termination
  by (relation "measure (\<lambda>(_, mem, _, _). length mem)") (auto dest: b64_block_length)

declare b64_decode_loop.simps [simp del]

text \<open>
  \<open>mem\<close> is the memory from \<^verbatim>\<open>input\<close> on. \<^verbatim>\<open>olen\<close> is an \<^verbatim>\<open>int\<close>;
  a negative one asks \<^verbatim>\<open>malloc\<close> for more memory than there is.
\<close>

definition dico_base64_decode :: "bool \<Rightarrow> bytes \<Rightarrow> 64 word \<Rightarrow> bytes res" where
  "dico_base64_decode alloc mem input_len =
     (let olen = sint (ucast input_len :: 32 word) in
      if \<not> alloc \<or> olen < 0 then Some (Inl ENOMEM)
      else b64_decode_loop (nat olen) mem input_len [])"

subsection \<open>The converters of the filter stream\<close>

text \<open>
  A converter returns the number of bytes it consumed, \<^verbatim>\<open>*pnbytes\<close> and what it wrote.
\<close>

type_synonym xcode = "bytes \<Rightarrow> nat \<Rightarrow> (nat \<times> 64 word \<times> bytes) option"

text \<open>The inner loop of \<^verbatim>\<open>_flt_base64_decode\<close>: up to four values; \<^verbatim>\<open>b64val\<close> has 128 entries.\<close>

fun flt_collect :: "bytes \<Rightarrow> int \<Rightarrow> bytes \<Rightarrow> (bytes \<times> int \<times> bytes) option" where
  "flt_collect data pad iptr =
     (if length data < 4
      then (case iptr of
              [] \<Rightarrow> Some (data, pad, [])
            | c # iptr' \<Rightarrow>
                (if c > 127 then None
                 else let tmp = b64val ! unat c in
                   if tmp \<noteq> -1 then flt_collect (data @ [word_of_int tmp]) pad iptr'
                   else if c = equals_sign then flt_collect (data @ [0]) (pad + 1) iptr'
                   else flt_collect data pad iptr'))
      else Some (data, pad, iptr))"

declare flt_collect.simps [simp del]

lemma flt_collect_length:
  "flt_collect data pad iptr = Some (data', pad', rest) \<Longrightarrow>
   length rest \<le> length iptr \<and> (length data < 4 \<longrightarrow> iptr \<noteq> [] \<longrightarrow> length rest < length iptr)"
proof (induction iptr arbitrary: data pad)
  case Nil
  then show ?case by (simp add: flt_collect.simps split: if_splits)
next
  case (Cons c iptr)
  from Cons.prems show ?case
    unfolding flt_collect.simps [of data pad "c # iptr"] by (auto simp: Let_def split: if_splits dest!: Cons.IH)
qed

function flt_decode_loop :: "nat \<Rightarrow> bytes \<Rightarrow> nat \<Rightarrow> int \<Rightarrow> 64 word \<Rightarrow> bytes \<Rightarrow> (nat \<times> 64 word \<times> bytes) option" where
  "flt_decode_loop osize iptr consumed pad nbytes out =
     (if iptr \<noteq> [] \<and> nbytes + 3 < of_nat osize
      then (case flt_collect [] pad iptr of
              None \<Rightarrow> None
            | Some (data, pad', rest) \<Rightarrow>
                let consumed' = consumed + (length iptr - length rest) in
                if length data = 4
                then if length out + 3 \<le> osize
                     then flt_decode_loop osize rest consumed' pad' (nbytes + word_of_int (3 - pad'))
                       (out @ [push_bit 2 (data ! 0) OR drop_bit 4 (data ! 1 AND 0x30),
                               push_bit 4 (data ! 1 AND 0xf) OR drop_bit 2 (data ! 2 AND 0x3c),
                               push_bit 6 (data ! 2 AND 0x3) OR data ! 3])
                     else None
                else Some (consumed' - length data, nbytes, out))
      else Some (consumed, nbytes, out))"
  by pat_completeness auto
termination
  by (relation "measure (\<lambda>(_, iptr, _). length iptr)") (auto dest: flt_collect_length)

declare flt_decode_loop.simps [simp del]

definition flt_base64_decode :: xcode where
  "flt_base64_decode ibuf osize = flt_decode_loop osize ibuf 0 0 0 []"

text \<open>
  \<^verbatim>\<open>_flt_base64_encode\<close>: \<open>ptr\<close> is the input not yet consumed; the three cases of
  the \<^verbatim>\<open>switch\<close> are the lengths 1, 2 and at least 3 of it.
\<close>

function flt_encode_loop :: "nat \<Rightarrow> bytes \<Rightarrow> nat \<Rightarrow> bool \<Rightarrow> 64 word \<Rightarrow> bytes \<Rightarrow> (nat \<times> 64 word \<times> bytes) option" where
  "flt_encode_loop osize ptr consumed pad nbytes out =
     (if (3 \<le> length ptr \<and> nbytes + 4 \<le> of_nat osize) \<or> pad
      then if length out + 4 > osize then None
        else (case ptr of
           [] \<Rightarrow> None
         | [a] \<Rightarrow> flt_encode_loop osize [] (consumed + 1) False (nbytes + 4)
             (out @ [b64chr (drop_bit 2 a), b64chr (push_bit 4 a AND 0x3f), equals_sign, equals_sign])
         | [a, b] \<Rightarrow> flt_encode_loop osize [] (consumed + 2) False (nbytes + 4)
             (out @ [b64chr (drop_bit 2 a), b64chr ((push_bit 4 a + drop_bit 4 b) AND 0x3f),
                     b64chr (push_bit 2 b AND 0x3f), equals_sign])
         | a # b # c # ptr' \<Rightarrow> flt_encode_loop osize ptr' (consumed + 3) False (nbytes + 4)
             (out @ [b64chr (drop_bit 2 a), b64chr ((push_bit 4 a + drop_bit 4 b) AND 0x3f),
                     b64chr ((push_bit 2 b + drop_bit 6 c) AND 0x3f), b64chr (c AND 0x3f)]))
      else Some (consumed, nbytes, out))"
  by pat_completeness auto
termination
  by (relation "measure (\<lambda>(_, ptr, _). length ptr)") auto

declare flt_encode_loop.simps [simp del]

definition flt_base64_encode :: xcode where
  "flt_base64_encode iptr osize = flt_encode_loop osize iptr 0 (length iptr \<le> 3) 0 []"

section \<open>Quoted-printable\<close>

definition qp_ISWS :: "byte \<Rightarrow> bool" where
  "qp_ISWS c \<longleftrightarrow> c = 0x20 \<or> c = 0x09"

definition c_isspace :: "byte \<Rightarrow> bool" where
  "c_isspace c \<longleftrightarrow> c = 0x20 \<or> (0x09 \<le> c \<and> c \<le> 0x0d)"

definition hex_value :: "byte \<Rightarrow> int option" where
  "hex_value c =
     (if c_isdigit c then Some (uint c - 0x30)
      else if 0x41 \<le> c \<and> c \<le> 0x46 then Some (uint c - 0x41 + 10)
      else if 0x61 \<le> c \<and> c \<le> 0x66 then Some (uint c - 0x61 + 10)
      else None)"

fun hex_digits :: "int \<Rightarrow> bytes \<Rightarrow> int" where
  "hex_digits acc [] = acc"
| "hex_digits acc (c # s) = (case hex_value c of None \<Rightarrow> acc | Some d \<Rightarrow> hex_digits (acc * 16 + d) s)"

text \<open>
  \<^verbatim>\<open>strtoul (chr, NULL, 16)\<close> on a string of at most two characters (a prefix
  \<^verbatim>\<open>0x\<close> would need a third): white space and a sign are skipped.
\<close>

definition strtoul16 :: "bytes \<Rightarrow> int" where
  "strtoul16 s =
     (case dropWhile c_isspace s of
        [] \<Rightarrow> 0
      | c # s' \<Rightarrow> if c = 0x2d then - hex_digits 0 s' else if c = 0x2b then hex_digits 0 s' else hex_digits 0 (c # s'))"

text \<open>
  The loop of \<^verbatim>\<open>dico_qp_decode\<close>. The pointer \<^verbatim>\<open>iptr\<close> is at \<open>consumed\<close>
  when a round starts, and \<^verbatim>\<open>nbytes\<close> is the number of bytes written.
\<close>

function qp_decode_loop :: "bytes \<Rightarrow> nat \<Rightarrow> nat \<Rightarrow> nat \<Rightarrow> bytes \<Rightarrow> nat \<times> nat \<times> bytes" where
  "qp_decode_loop inp osize consumed wscount out =
     (if consumed < length inp \<and> length out < osize
      then let c = inp ! consumed in
        if qp_ISWS c then qp_decode_loop inp osize (consumed + 1) (wscount + 1) out
        else
          let copy = wscount > 0 \<and> c \<noteq> 0x0d \<and> c \<noteq> 0x0a;
              sz = (if length out + wscount > osize then osize - length out else wscount);
              out' = (if copy then out @ take sz (drop (consumed - wscount) inp) else out) in
          if copy \<and> wscount > sz then (consumed, wscount - sz, out')
          else if wscount > 0 \<and> length out' = osize then (consumed, 0, out')
          else if c = equals_sign then
            (if consumed + 2 \<ge> length inp then (consumed, 0, out')
             else if inp ! (consumed + 1) \<noteq> 0x0a
             then qp_decode_loop inp osize (consumed + 3) 0
                    (out' @ [word_of_int (strtoul16 (takeWhile (\<lambda>c. c \<noteq> 0) [inp ! (consumed + 1), inp ! (consumed + 2)]))])
             else qp_decode_loop inp osize (consumed + 2) 0 out')
          else if c = 0x0d then
            (if consumed + 1 \<ge> length inp then (consumed, 0, out')
             else qp_decode_loop inp osize (consumed + 2) 0 (out' @ [0x0a]))
          else qp_decode_loop inp osize (consumed + 1) 0 (out' @ [c])
      else (consumed, wscount, out))"
  by pat_completeness auto
termination
  by (relation "measure (\<lambda>(inp, _, consumed, _, _). length inp - consumed)") auto

declare qp_decode_loop.simps [simp del]

definition dico_qp_decode :: xcode where
  "dico_qp_decode iptr osize =
     (case qp_decode_loop iptr osize 0 0 [] of
        (consumed, wscount, out) \<Rightarrow> Some (consumed - wscount, of_nat (length out), out))"

definition hexdigits :: bytes where
  "hexdigits = str ''0123456789ABCDEF''"

definition qp_simple_char :: "byte \<Rightarrow> bool" where
  "qp_simple_char c \<longleftrightarrow> (c \<ge> 32 \<and> c \<le> 60) \<or> (c \<ge> 62 \<and> c \<le> 126) \<or> c = 0x09 \<or> c = 0x0a"

definition qp_quoted :: "byte \<Rightarrow> bytes" where
  "qp_quoted c = [equals_sign, hexdigits ! unat (drop_bit 4 c AND 0xf), hexdigits ! unat (c AND 0xf)]"

fun qp_encode_loop :: "bytes \<Rightarrow> nat \<Rightarrow> nat \<Rightarrow> bytes \<Rightarrow> nat \<times> bytes" where
  "qp_encode_loop [] osize consumed out = (consumed, out)"
| "qp_encode_loop (c # iptr) osize consumed out =
     (if qp_simple_char c
      then if length out + 1 > osize then (consumed, out)
           else qp_encode_loop iptr osize (consumed + 1) (out @ [c])
      else if length out + 3 > osize then (consumed, out)
           else qp_encode_loop iptr osize (consumed + 1) (out @ qp_quoted c))"

definition dico_qp_encode :: xcode where
  "dico_qp_encode iptr osize =
     (case qp_encode_loop iptr osize 0 [] of (consumed, out) \<Rightarrow> Some (consumed, of_nat (length out), out))"

end
