(* ===== verification/Dico_Codec_Props.thy ===== *)
theory Dico_Codec_Props
  imports Dico_Codec
begin

text \<open>
  What the transfer encodings guarantee: decoding inverts encoding, buffers are not
  overrun, the filter converters agree with the whole-buffer functions and make progress,
  and where they go wrong.
\<close>

section \<open>The alphabet\<close>

lemma b64_tables:
  "map (\<lambda>c. b64val ! unat c) b64tab = map int [0..<64]" "\<forall>c\<in>set b64tab. c \<le> 127 \<and> c \<noteq> equals_sign \<and> c \<noteq> 0x0a" "length b64tab = 64"
  by code_simp+

lemma b64chr_val:
  assumes "v < 64"
  shows "b64val ! unat (b64chr v) = uint v" "\<not> 127 < b64chr v" "b64chr v \<noteq> equals_sign" "b64_val (b64chr v) = v"
proof -
  have v: "unat v < 64" using assms by (simp add: word_less_nat_alt)
  have "map (\<lambda>c. b64val ! unat c) b64tab ! unat v = map int [0..<64] ! unat v" by (simp add: b64_tables(1))
  then show *: "b64val ! unat (b64chr v) = uint v" using v by (simp add: b64chr_def b64_tables(3) nth_map)
  have "b64chr v \<in> set b64tab" using v by (simp add: b64chr_def b64_tables(3))
  then show "\<not> 127 < b64chr v" "b64chr v \<noteq> equals_sign" using b64_tables(2) by auto
  show "b64_val (b64chr v) = v" using * by (simp add: b64_val_def)
qed

lemma b64_good: "v < 64 \<Longrightarrow> \<not> b64_bad (b64chr v)"
proof -
  assume v: "v < 64"
  have "uint v \<noteq> -1" using uint_ge_0 [of v] by linarith
  with b64chr_val [OF v] show ?thesis by (simp add: b64_bad_def)
qed

section \<open>Six-bit groups\<close>

lemma bit_byte_masks:
  "bit (0x30 :: byte) n \<longleftrightarrow> n = 4 \<or> n = 5" "bit (0x3c :: byte) n \<longleftrightarrow> n = 2 \<or> n = 3 \<or> n = 4 \<or> n = 5"
  "bit (0x3f :: byte) n \<longleftrightarrow> n < 6" "bit (0xf0 :: byte) n \<longleftrightarrow> n = 4 \<or> n = 5 \<or> n = 6 \<or> n = 7"
  "bit (0xc0 :: byte) n \<longleftrightarrow> n = 6 \<or> n = 7" "bit (0xf :: byte) n \<longleftrightarrow> n < 4" "bit (0x3 :: byte) n \<longleftrightarrow> n < 2"
proof -
  have m: "(0x3f :: byte) = mask 6" "(0xf :: byte) = mask 4" "(0x3 :: byte) = mask 2"
    by (simp_all add: mask_eq_exp_minus_1)
  have p: "(0x30 :: byte) = push_bit 4 (mask 2)" "(0x3c :: byte) = push_bit 2 (mask 4)"
    "(0xf0 :: byte) = push_bit 4 (mask 4)" "(0xc0 :: byte) = push_bit 6 (mask 2)"
    by (simp_all add: mask_eq_exp_minus_1)
  show "bit (0x3f :: byte) n \<longleftrightarrow> n < 6" "bit (0xf :: byte) n \<longleftrightarrow> n < 4" "bit (0x3 :: byte) n \<longleftrightarrow> n < 2"
    unfolding m by (simp_all only: bit_mask_iff) auto
  show "bit (0x30 :: byte) n \<longleftrightarrow> n = 4 \<or> n = 5" "bit (0x3c :: byte) n \<longleftrightarrow> n = 2 \<or> n = 3 \<or> n = 4 \<or> n = 5"
    "bit (0xf0 :: byte) n \<longleftrightarrow> n = 4 \<or> n = 5 \<or> n = 6 \<or> n = 7" "bit (0xc0 :: byte) n \<longleftrightarrow> n = 6 \<or> n = 7"
    unfolding p by (auto simp: bit_push_bit_iff bit_mask_iff)
qed

lemmas bbits = bit_byte_masks bit_or_iff bit_and_iff bit_xor_iff bit_push_bit_iff bit_drop_bit_eq
  possible_bit_word comp_apply

lemma less_64I: "(\<And>n. bit (v :: byte) n \<Longrightarrow> n < 6) \<Longrightarrow> v < 64"
proof -
  assume b: "\<And>n. bit v n \<Longrightarrow> n < 6"
  have "v = take_bit 6 v" by (rule bit_word_eqI) (use b in \<open>auto simp: bit_take_bit_iff\<close>)
  moreover have "unat (take_bit 6 v) < 2 ^ 6"
    using take_bit_nat_less_exp [of 6 "unat v"] by (simp add: unsigned_take_bit_eq)
  ultimately show ?thesis by (simp add: word_less_nat_alt)
qed

lemma bit_byte_less: "bit (a :: byte) n \<Longrightarrow> n < 8"
  using bit_imp_le_length [of a n] by simp

lemma sextets_range:
  "drop_bit 2 (a :: byte) < 64" "(push_bit 4 a AND 0x30) OR drop_bit 4 (b :: byte) < 64"
  "(push_bit 2 b AND 0x3c) OR drop_bit 6 (c :: byte) < 64" "c AND 0x3f < 64"
  "push_bit 4 a AND 0x30 < 64" "push_bit 2 b AND 0x3c < 64"
proof -
  show "drop_bit 2 (a :: byte) < 64" by (rule less_64I, simp only: bbits) (use bit_byte_less [of a] in force)
  show "(push_bit 4 a AND 0x30) OR drop_bit 4 (b :: byte) < 64"
    by (rule less_64I, simp only: bbits) (use bit_byte_less [of b] in force)
  show "(push_bit 2 b AND 0x3c) OR drop_bit 6 (c :: byte) < 64"
    by (rule less_64I, simp only: bbits) (use bit_byte_less [of c] in force)
  show "c AND 0x3f < 64" by (rule less_64I, simp only: bbits)
  show "push_bit 4 a AND 0x30 < 64" "push_bit 2 b AND 0x3c < 64"
    by (rule less_64I, simp only: bbits, force)+
qed

lemma sextets_join:
  "push_bit 2 (drop_bit 2 a) OR drop_bit 4 ((push_bit 4 a AND 0x30) OR drop_bit 4 b) = (a :: byte)"
  "(push_bit 4 ((push_bit 4 a AND 0x30) OR drop_bit 4 b) AND 0xf0) OR drop_bit 2 ((push_bit 2 b AND 0x3c) OR drop_bit 6 c) = (b :: byte)"
  "(push_bit 6 ((push_bit 2 b AND 0x3c) OR drop_bit 6 c) AND 0xc0) OR (c AND 0x3f) = (c :: byte)"
proof -
  have n: "n < LENGTH(8) \<Longrightarrow> n = 0 \<or> n = 1 \<or> n = 2 \<or> n = 3 \<or> n = 4 \<or> n = 5 \<or> n = 6 \<or> n = (7::nat)" for n
    by simp linarith
  have hi: "8 \<le> m \<Longrightarrow> \<not> bit x m" for x :: byte and m using bit_byte_less [of x m] by auto
  show "push_bit 2 (drop_bit 2 a) OR drop_bit 4 ((push_bit 4 a AND 0x30) OR drop_bit 4 b) = a"
    by (rule bit_word_eqI, drule n, elim disjE) (simp_all only: bbits, simp_all add: hi)
  show "(push_bit 4 ((push_bit 4 a AND 0x30) OR drop_bit 4 b) AND 0xf0) OR drop_bit 2 ((push_bit 2 b AND 0x3c) OR drop_bit 6 c) = b"
    by (rule bit_word_eqI, drule n, elim disjE) (simp_all only: bbits, simp_all add: hi)
  show "(push_bit 6 ((push_bit 2 b AND 0x3c) OR drop_bit 6 c) AND 0xc0) OR (c AND 0x3f) = c"
    by (rule bit_word_eqI, drule n, elim disjE) (simp_all only: bbits, simp_all add: hi)
qed

lemmas b64_char = b64chr_val [OF sextets_range(1)] b64chr_val [OF sextets_range(2)] b64chr_val [OF sextets_range(3)]
  b64chr_val [OF sextets_range(4)] b64chr_val [OF sextets_range(5)] b64chr_val [OF sextets_range(6)]

lemmas b64_chars_good = b64_good [OF sextets_range(1)] b64_good [OF sextets_range(2)] b64_good [OF sextets_range(3)]
  b64_good [OF sextets_range(4)] b64_good [OF sextets_range(5)] b64_good [OF sextets_range(6)]

section \<open>Decoding inverts encoding\<close>

lemma equals_sign_small: "\<not> (127 :: byte) < equals_sign"
  by simp

lemma rd_Cons [simp]: "rd (x # xs) 0 = Some x" "rd (x # xs) (Suc n) = rd xs n" "rd (x # xs) 1 = rd xs 0"
  "rd (x # xs) 2 = rd xs 1" "rd (x # xs) 3 = rd xs 2"
  by (auto simp: rd_def numeral_eq_Suc)

lemma b64_block_3:
  "b64_block (b64_encode_loop [a, b, c] @ rest) = Some (Inr [a, b, c])"
  using sextets_join(1) [of a b] sextets_join(2) [of a b c] sextets_join(3) [of b c]
  by (simp add: b64_block_def b64_char b64_chars_good)

lemma b64_block_2: "b64_block (b64_encode_loop [a, b] @ rest) = Some (Inr [a, b])"
  using sextets_join(1) [of a b] sextets_join(2) [of a b 0]
  by (simp add: b64_block_def b64_char b64_chars_good)

lemma b64_block_1: "b64_block (b64_encode_loop [a] @ rest) = Some (Inr [a])"
  using sextets_join(1) [of a 0] by (simp add: b64_block_def b64_char b64_chars_good)

lemma b64_encode_length: "length (b64_encode_loop xs) = 4 * ((length xs + 2) div 3)"
proof (induction xs rule: b64_encode_loop.induct)
  case (1 a b c input)
  have "(5 + length input) div 3 = (length input + 2) div 3 + 1" by presburger
  with 1 show ?case by simp
qed auto

lemma b64_decode_step:
  assumes "b64_block mem = Some (Inr bs)" and "length out + length bs \<le> olen" and "n < 2 ^ 64"
  shows "b64_decode_loop olen mem (of_nat (4 + n)) out =
    (if n = 0 then Some (Inr (out @ bs)) else b64_decode_loop olen (drop 4 mem) (of_nat n) (out @ bs))"
proof -
  have "(of_nat (4 + n) :: 64 word) - 4 = of_nat n" by simp
  moreover have "(of_nat n :: 64 word) > 0 \<longleftrightarrow> n \<noteq> 0"
    using assms(3) by (simp add: word_less_nat_alt unsigned_of_nat take_bit_nat_eq_self)
  ultimately show ?thesis using assms(1,2) by (subst b64_decode_loop.simps) (simp del: of_nat_add)
qed

lemma b64_decode_encode:
  "xs \<noteq> [] \<Longrightarrow> length (b64_encode_loop xs) < 2 ^ 64 \<Longrightarrow> length out + length (b64_encode_loop xs) \<le> olen \<Longrightarrow>
   b64_decode_loop olen (b64_encode_loop xs @ rest) (of_nat (length (b64_encode_loop xs))) out = Some (Inr (out @ xs))"
proof (induction xs arbitrary: out rule: b64_encode_loop.induct)
  case (1 a b c input)
  let ?e = "b64_encode_loop input"
  have "b64_decode_loop olen (b64_encode_loop [a, b, c] @ ?e @ rest) (of_nat (4 + length ?e)) out =
      (if length ?e = 0 then Some (Inr (out @ [a, b, c])) else b64_decode_loop olen (?e @ rest) (of_nat (length ?e)) (out @ [a, b, c]))"
    using "1.prems" by (subst b64_decode_step [OF b64_block_3]) simp_all
  also have "\<dots> = Some (Inr (out @ a # b # c # input))"
    using "1.IH" [of "out @ [a, b, c]"] "1.prems" by (cases input) (auto simp: b64_encode_length)
  finally show ?case by simp
next
  case (2 a b)
  have "b64_decode_loop olen (b64_encode_loop [a, b] @ rest) (of_nat (4 + 0)) out = Some (Inr (out @ [a, b]))"
    using "2.prems" by (subst b64_decode_step [OF b64_block_2]) simp_all
  then show ?case by simp
next
  case (3 a)
  have "b64_decode_loop olen (b64_encode_loop [a] @ rest) (of_nat (4 + 0)) out = Some (Inr (out @ [a]))"
    using "3.prems" by (subst b64_decode_step [OF b64_block_1]) simp_all
  then show ?case by simp
qed simp

lemma sint_ucast_len: "n < 2 ^ 31 \<Longrightarrow> sint (ucast (of_nat n :: 64 word) :: 32 word) = int n"
  by (simp add: unsigned_of_nat signed_of_nat take_bit_nat_eq_self signed_take_bit_int_eq_self)

section \<open>Decoding C strings\<close>

lemma b64_bad_0: "b64_bad 0"
  by (simp add: b64_bad_def b64val_def)

lemma b64_block_short:
  assumes "length s < 4"
  shows "b64_block (s @ [0]) = Some (Inl EINVAL)"
proof -
  consider "s = []" | a where "s = [a]" | a b where "s = [a, b]" | a b c where "s = [a, b, c]"
    using assms by (cases s rule: b64_encode_loop.cases) auto
  then show ?thesis by cases (simp_all add: b64_block_def b64_bad_0)
qed

lemma b64_block_some: "4 \<le> length s \<Longrightarrow> b64_block (s @ rest) \<noteq> None"
  by (auto simp: b64_block_def rd_def)

lemma b64_decode_loop_string:
  "length out + 3 * (length s div 4) \<le> olen \<Longrightarrow> length s < 2 ^ 64 \<Longrightarrow>
   (case b64_decode_loop olen (s @ [0]) (of_nat (length s)) out of
      None \<Rightarrow> False
    | Some (Inl e) \<Rightarrow> e = EINVAL
    | Some (Inr r) \<Rightarrow> s \<noteq> [] \<and> length s mod 4 = 0 \<and> length r \<le> length out + 3 * (length s div 4))"
proof (induction "length s" arbitrary: s out rule: less_induct)
  case less
  show ?case
  proof (cases "length s < 4")
    case True
    then show ?thesis by (subst b64_decode_loop.simps) (simp add: b64_block_short)
  next
    case False
    then obtain r where r: "b64_block (s @ [0]) = Some r" using b64_block_some [of s "[0]"] by auto
    show ?thesis
    proof (cases r)
      case (Inl e)
      then have "e = EINVAL" using r by (auto simp: b64_block_def rd_def res_iff split: if_splits)
      with Inl r show ?thesis by (subst b64_decode_loop.simps) simp
    next
      case (Inr bs)
      define n where "n = length s - 4"
      have n4: "length s = 4 + n" using False by (simp add: n_def)
      then have n: "length s = 4 + n" "length s div 4 = Suc (n div 4)" "length s mod 4 = n mod 4" by simp_all
      have t: "length (drop 4 s) = n" using n4 by simp
      have bs: "length bs \<le> 3" using b64_block_length [OF r [unfolded Inr]] by simp
      have step: "b64_decode_loop olen (s @ [0]) (of_nat (length s)) out =
          (if n = 0 then Some (Inr (out @ bs)) else b64_decode_loop olen (drop 4 s @ [0]) (of_nat n) (out @ bs))"
        using b64_decode_step [OF r [unfolded Inr], of out olen n] less.prems n bs False by simp
      have rec: "n \<noteq> 0 \<Longrightarrow> (case b64_decode_loop olen (drop 4 s @ [0]) (of_nat n) (out @ bs) of
            None \<Rightarrow> False | Some (Inl e) \<Rightarrow> e = EINVAL
          | Some (Inr r) \<Rightarrow> drop 4 s \<noteq> [] \<and> n mod 4 = 0 \<and> length r \<le> length (out @ bs) + 3 * (n div 4))"
        using less.hyps [of "drop 4 s" "out @ bs", unfolded t] less.prems n bs by simp
      show ?thesis
      proof (cases "n = 0")
        case True
        with bs n step show ?thesis by auto
      next
        case False
        with rec bs n show ?thesis unfolding step by (auto split: option.splits sum.splits)
      qed
    qed
  qed
qed

section \<open>The converters of the filter\<close>

lemma six_bits_add:
  "(push_bit 4 a + drop_bit 4 b) AND 0x3f = (push_bit 4 a AND 0x30) OR drop_bit 4 (b :: byte)"
  "(push_bit 2 b + drop_bit 6 c) AND 0x3f = (push_bit 2 b AND 0x3c) OR drop_bit 6 (c :: byte)"
  "push_bit 4 a AND 0x3f = push_bit 4 a AND (0x30 :: byte)" "push_bit 2 b AND 0x3f = push_bit 2 b AND (0x3c :: byte)"
proof -
  have hi: "bit x (m + k) \<Longrightarrow> m < 8 - k" for x :: byte and m k using bit_byte_less [of x "m + k"] by auto
  have "push_bit 4 a AND drop_bit 4 b = 0" by (rule bit_word_eqI, simp only: bbits) (auto dest: bit_byte_less)
  then have 1: "push_bit 4 a + drop_bit 4 b = push_bit 4 a OR drop_bit 4 b" by (simp add: disjunctive_add_eq_or)
  have "push_bit 2 b AND drop_bit 6 c = 0" by (rule bit_word_eqI, simp only: bbits) (auto dest: bit_byte_less)
  then have 2: "push_bit 2 b + drop_bit 6 c = push_bit 2 b OR drop_bit 6 c" by (simp add: disjunctive_add_eq_or)
  show "(push_bit 4 a + drop_bit 4 b) AND 0x3f = (push_bit 4 a AND 0x30) OR drop_bit 4 b"
    unfolding 1 by (rule bit_word_eqI, simp only: bbits) (auto dest: bit_byte_less)
  show "(push_bit 2 b + drop_bit 6 c) AND 0x3f = (push_bit 2 b AND 0x3c) OR drop_bit 6 c"
    unfolding 2 by (rule bit_word_eqI, simp only: bbits) (auto dest: bit_byte_less)
  show "push_bit 4 a AND 0x3f = push_bit 4 a AND (0x30 :: byte)" "push_bit 2 b AND 0x3f = push_bit 2 b AND (0x3c :: byte)"
    by (rule bit_word_eqI, simp only: bbits, auto)+
qed

lemma len64: "LENGTH(64) = 64"
  by simp

lemma room: "m + 4 < 2 ^ 64 \<Longrightarrow> osize < 2 ^ 64 \<Longrightarrow> (of_nat m :: 64 word) + 4 \<le> of_nat osize \<longleftrightarrow> m + 4 \<le> osize"
proof -
  assume "m + 4 < 2 ^ 64" "osize < 2 ^ 64"
  then have "unat (of_nat (m + 4) :: 64 word) = m + 4" "unat (of_nat osize :: 64 word) = osize"
    by (simp_all only: unsigned_of_nat len64 take_bit_nat_eq_self of_nat_id)
  then show ?thesis by (simp add: word_le_nat_alt)
qed

definition flt_chunk :: "nat \<Rightarrow> nat \<Rightarrow> nat" where
  "flt_chunk isize room = 3 * min (isize div 3) (room div 4)"

lemma flt_encode_loop_blocks:
  "osize < 2 ^ 63 \<Longrightarrow> length out \<le> osize \<Longrightarrow>
   flt_encode_loop osize ptr consumed False (of_nat (length out)) out =
     (let k = flt_chunk (length ptr) (osize - length out); e = b64_encode_loop (take k ptr) in
      Some (consumed + k, of_nat (length (out @ e)), out @ e))"
proof (induction ptr arbitrary: consumed out rule: b64_encode_loop.induct)
  case (1 a b c ptr)
  have cond: "(of_nat (length out) :: 64 word) + 4 \<le> of_nat osize \<longleftrightarrow> length out + 4 \<le> osize"
    using "1.prems" by (intro room) simp_all
  show ?case
  proof (cases "length out + 4 \<le> osize")
    case False
    then have "(osize - length out) div 4 = 0" by simp
    with False cond show ?thesis by (subst flt_encode_loop.simps) (simp add: flt_chunk_def)
  next
    case True
    let ?o = "out @ b64_encode_loop [a, b, c]"
    have l: "length ?o \<le> osize" "(of_nat (length out) :: 64 word) + 4 = of_nat (length ?o)" using True by simp_all
    have d: "(osize - length out) div 4 = Suc ((osize - length ?o) div 4)"
    proof -
      have "(4 + y) div 4 = Suc (y div 4)" for y :: nat by simp
      moreover have "osize - length out = 4 + (osize - length ?o)" using True by simp
      ultimately show ?thesis by (simp only:)
    qed
    have k: "flt_chunk (length (a # b # c # ptr)) (osize - length out) = 3 + flt_chunk (length ptr) (osize - length ?o)"
    proof -
      have "length (a # b # c # ptr) div 3 = Suc (length ptr div 3)" by simp
      then show ?thesis unfolding flt_chunk_def d by (simp only: min_Suc_Suc mult_Suc_right)
    qed
    have "flt_encode_loop osize (a # b # c # ptr) consumed False (of_nat (length out)) out =
        flt_encode_loop osize ptr (consumed + 3) False (of_nat (length ?o)) ?o"
      unfolding flt_encode_loop.simps [of osize "a # b # c # ptr"] l(2) [symmetric]
      using True cond by (simp add: six_bits_add)
    also note "1.IH" [OF "1.prems"(1) l(1)]
    finally show ?thesis unfolding k by (simp add: Let_def numeral_3_eq_3)
  qed
qed (simp_all add: flt_encode_loop.simps flt_chunk_def)

lemma flt_encode_short:
  assumes "xs \<noteq> []" "length xs \<le> 3" "4 \<le> osize"
  shows "flt_base64_encode xs osize = Some (length xs, 4, b64_encode_loop xs)"
proof -
  consider a where "xs = [a]" | a b where "xs = [a, b]" | a b c where "xs = [a, b, c]"
    using assms(1,2) by (cases xs rule: b64_encode_loop.cases) auto
  then show ?thesis
    using assms(3) by cases (simp_all add: flt_base64_encode_def flt_encode_loop.simps six_bits_add)
qed

lemma dico_base64_encode_ok: "dico_base64_encode True xs = Some (Inr (b64_encode_loop xs))"
proof -
  have "4 * ((n + 2) div 3) \<le> 4 * (n + 2) div 3" for n :: nat by presburger
  then show ?thesis by (simp add: dico_base64_encode_def Let_def b64_encode_length)
qed

lemma flt_encode_progress:
  assumes "xs \<noteq> []" and "4 \<le> osize" and "osize < 2 ^ 63"
  shows "\<exists>k out. flt_base64_encode xs osize = Some (k, of_nat (length out), out) \<and>
    0 < k \<and> k \<le> length xs \<and> length out \<le> osize \<and> dico_base64_encode True (take k xs) = Some (Inr out) \<and>
    (k mod 3 = 0 \<or> k = length xs \<and> k < 3)"
proof (cases "length xs \<le> 3")
  case True
  have "length (b64_encode_loop xs) = 4" using True assms(1) by (cases xs rule: b64_encode_loop.cases) auto
  moreover have "length xs mod 3 = 0 \<or> length xs < 3" using True by (cases "length xs = 3") auto
  ultimately show ?thesis
    using flt_encode_short [OF assms(1) True assms(2)] True assms dico_base64_encode_ok [of xs] by auto
next
  case False
  let ?k = "flt_chunk (length xs) osize"
  have "0 < length xs div 3" "0 < osize div 4" using False assms(2) by (simp_all add: div_greater_zero_iff)
  then have k: "0 < ?k" "?k \<le> length xs" "?k mod 3 = 0" by (auto simp: flt_chunk_def min_def)
  have "length (b64_encode_loop (take ?k xs)) = 4 * min (length xs div 3) (osize div 4)"
  proof -
    have "(3 * m + 2) div 3 = m" for m :: nat by presburger
    then show ?thesis using k(2) by (simp add: b64_encode_length flt_chunk_def min_absorb2)
  qed
  also have "\<dots> \<le> osize"
    using min.cobounded2 [of "length xs div 3" "osize div 4"] div_times_less_eq_dividend [of osize 4] by linarith
  finally show ?thesis
    using flt_encode_loop_blocks [of osize "[]" xs 0] assms(3) False k dico_base64_encode_ok [of "take ?k xs"]
    by (auto simp: flt_base64_encode_def Let_def)
qed

section \<open>Quoted-printable\<close>

text \<open>Text in which no space or tab ends a line or the text itself.\<close>

fun qp_clean :: "bytes \<Rightarrow> bool" where
  "qp_clean [] \<longleftrightarrow> True"
| "qp_clean (c # xs) \<longleftrightarrow> (qp_ISWS c \<longrightarrow> xs \<noteq> [] \<and> hd xs \<noteq> 0x0a) \<and> qp_clean xs"

definition qp_char :: "byte \<Rightarrow> bytes" where
  "qp_char c = (if qp_simple_char c then [c] else qp_quoted c)"

lemma qp_encode_loop_all:
  "length out + 3 * length xs \<le> osize \<Longrightarrow>
   qp_encode_loop xs osize consumed out = (consumed + length xs, out @ concat (map qp_char xs))"
proof (induction xs arbitrary: consumed out)
  case (Cons c xs)
  have "length (qp_quoted c) = 3" by (simp add: qp_quoted_def)
  with Cons show ?case by (auto simp: qp_char_def)
qed simp

lemma hex_nibble: "n < 16 \<Longrightarrow> hex_value (hexdigits ! n) = Some (int n) \<and> hexdigits ! n \<notin> {0, 0x0a, 0x2b, 0x2d} \<and> \<not> c_isspace (hexdigits ! n)"
proof -
  assume n: "n < 16"
  have "list_all (\<lambda>(n, c). hex_value c = Some n \<and> c \<notin> {0, 0x0a, 0x2b, 0x2d} \<and> \<not> c_isspace c) (zip [0..15] hexdigits)"
    by code_simp
  moreover have "(int n, hexdigits ! n) \<in> set (zip [0..15] hexdigits)"
    using n by (auto simp: set_zip hexdigits_def intro!: exI [of _ n])
  ultimately show ?thesis by (auto simp: list_all_iff)
qed

lemma byte_less: "unat (c :: byte) < 256"
  by (rule order_less_le_trans [OF unsigned_less]) simp

lemma nibbles: "c = word_of_int (int (unat (drop_bit 4 c AND 0xf)) * 16 + int (unat (c AND 0xf)))"
  and nibble_less: "unat (drop_bit 4 c AND 0xf) < 16" "unat (c AND 0xf) < 16" for c :: byte
proof -
  have "(0xf :: byte) = mask 4" by (simp add: mask_eq_exp_minus_1)
  then have t: "x AND 0xf = take_bit 4 x" for x :: byte by (simp only: take_bit_eq_mask)
  have lo: "unat (c AND 0xf) = unat c mod 16" unfolding t unsigned_take_bit_eq by (simp add: take_bit_eq_mod)
  have "unat c div 16 < 16" using byte_less [of c] by simp
  then have hi: "unat (drop_bit 4 c AND 0xf) = unat c div 16"
    unfolding t unsigned_take_bit_eq unat_drop_bit_eq by (simp add: take_bit_eq_mod drop_bit_eq_div)
  show "unat (drop_bit 4 c AND 0xf) < 16" "unat (c AND 0xf) < 16"
    using byte_less [of c] by (auto simp: hi lo)
  have "int (unat c div 16) * 16 + int (unat c mod 16) = int (unat c div 16 * 16 + unat c mod 16)"
    by (simp only: of_nat_add of_nat_mult of_nat_numeral)
  also have "\<dots> = uint c" by (simp only: div_mult_mod_eq) simp
  finally show "c = word_of_int (int (unat (drop_bit 4 c AND 0xf)) * 16 + int (unat (c AND 0xf)))"
    unfolding hi lo by simp
qed

lemma unquote_char:
  "word_of_int (strtoul16 [hexdigits ! unat (drop_bit 4 c AND 0xf), hexdigits ! unat (c AND 0xf)]) = (c :: byte)"
  using hex_nibble [OF nibble_less(1), of c] hex_nibble [OF nibble_less(2), of c] nibbles [of c]
  by (simp add: strtoul16_def)

text \<open>A character that is not white space flushes the white space before it.\<close>

lemma qp_decode_flush:
  assumes "inp = pre @ ws @ h # rest" and "\<not> qp_ISWS h" and "h \<noteq> 0x0d" and "ws = [] \<or> h \<noteq> 0x0a"
    and "length out + length ws < osize"
  shows "qp_decode_loop inp osize (length pre + length ws) (length ws) out =
    (if h \<noteq> equals_sign then qp_decode_loop inp osize (length pre + length ws + 1) 0 (out @ ws @ [h])
     else qp_decode_loop inp osize (length pre + length ws) 0 (out @ ws))"
proof -
  have n: "inp ! (length pre + length ws) = h" "length pre + length ws < length inp"
    using assms(1) by (simp_all add: nth_append)
  have t: "take (length ws) (drop (length pre) inp) = ws" using assms(1) by simp
  note unf = qp_decode_loop.simps [of inp osize "length pre + length ws"]
  show ?thesis
  proof (cases "h = equals_sign")
    case True
    have "length (out @ ws) < osize" using assms(5) by simp
    with True n t assms show ?thesis
      unfolding unf [of "length ws" out] unf [of 0 "out @ ws"] by (auto simp: Let_def)
  next
    case False
    with n t assms show ?thesis unfolding unf [of "length ws" out] by (auto simp: Let_def)
  qed
qed

lemma qp_decode_quoted:
  assumes "inp = pre @ qp_quoted c @ rest" and "length out < osize"
  shows "qp_decode_loop inp osize (length pre) 0 out = qp_decode_loop inp osize (length pre + 3) 0 (out @ [c])"
proof -
  let ?h = "hexdigits ! unat (drop_bit 4 c AND 0xf)" and ?l = "hexdigits ! unat (c AND 0xf)"
  have n: "inp ! length pre = equals_sign" "inp ! (length pre + 1) = ?h" "inp ! (length pre + 2) = ?l"
    "length pre + 2 < length inp"
    using assms(1) by (simp_all add: nth_append qp_quoted_def)
  have "?h \<noteq> 0x0a" "?h \<noteq> 0" "?l \<noteq> 0" using hex_nibble [OF nibble_less(1), of c] hex_nibble [OF nibble_less(2), of c] by simp_all
  with n assms(2) unquote_char [of c] show ?thesis
    by (subst qp_decode_loop.simps) (simp add: Let_def qp_ISWS_def)
qed

lemma qp_clean_ws: "qp_clean (ws @ xs) \<Longrightarrow> ws \<noteq> [] \<Longrightarrow> qp_ISWS (last ws) \<Longrightarrow> xs \<noteq> [] \<and> hd xs \<noteq> 0x0a"
  by (induction ws) (auto split: if_splits)

lemma qp_clean_append: "qp_clean (ws @ xs) \<Longrightarrow> qp_clean xs"
  by (induction ws) auto

lemma qp_decode_encoded:
  "\<forall>c\<in>set ws. qp_ISWS c \<Longrightarrow> qp_clean (ws @ xs) \<Longrightarrow> length out + length ws + length xs \<le> osize \<Longrightarrow>
   inp = pre @ ws @ concat (map qp_char xs) \<Longrightarrow>
   qp_decode_loop inp osize (length pre + length ws) (length ws) out = (length inp, 0, out @ ws @ xs)"
proof (induction xs arbitrary: pre ws out)
  case Nil
  have "ws = []"
  proof (rule ccontr)
    assume "ws \<noteq> []"
    with Nil.prems(1) have "qp_ISWS (last ws)" by simp
    with qp_clean_ws [OF Nil.prems(2)] \<open>ws \<noteq> []\<close> show False by simp
  qed
  with Nil show ?case by (subst qp_decode_loop.simps) simp
next
  case (Cons c xs)
  let ?tl = "concat (map qp_char xs)"
  have ws: "ws = [] \<or> c \<noteq> 0x0a" using qp_clean_ws [OF Cons.prems(2)] Cons.prems(1) by auto
  have cl: "qp_clean xs" using qp_clean_append [of "ws @ [c]" xs] Cons.prems(2) by simp
  show ?case
  proof (cases "qp_ISWS c")
    case True
    then have q: "qp_char c = [c]" by (auto simp: qp_char_def qp_simple_char_def qp_ISWS_def)
    have "qp_decode_loop inp osize (length pre + length ws) (length ws) out =
        qp_decode_loop inp osize (length pre + length (ws @ [c])) (length (ws @ [c])) out"
      using True Cons.prems(3,4) q by (subst qp_decode_loop.simps) (simp add: nth_append)
    also have "\<dots> = (length inp, 0, out @ (ws @ [c]) @ xs)"
      using Cons.prems True q by (intro Cons.IH) auto
    finally show ?thesis by simp
  next
    case ws_no: False
    show ?thesis
    proof (cases "qp_simple_char c")
      case True
      then have c: "qp_char c = [c]" "c \<noteq> equals_sign" "c \<noteq> 0x0d"
        by (auto simp: qp_char_def qp_simple_char_def)
      have "qp_decode_loop inp osize (length pre + length ws) (length ws) out =
          qp_decode_loop inp osize (length (pre @ ws @ [c]) + length ([] :: bytes)) (length ([] :: bytes)) (out @ ws @ [c])"
        using qp_decode_flush [of inp pre ws c ?tl out osize] Cons.prems(3,4) c ws ws_no by (simp add: add.assoc)
      also have "\<dots> = (length inp, 0, (out @ ws @ [c]) @ [] @ xs)"
        using Cons.prems cl c by (intro Cons.IH) auto
      finally show ?thesis by simp
    next
      case False
      then have c: "qp_char c = qp_quoted c" by (simp add: qp_char_def)
      have l: "length (qp_quoted c) = 3" by (simp add: qp_quoted_def)
      obtain h1 h2 where h: "qp_quoted c = [equals_sign, h1, h2]" by (simp add: qp_quoted_def)
      have "qp_decode_loop inp osize (length pre + length ws) (length ws) out =
          qp_decode_loop inp osize (length (pre @ ws)) 0 (out @ ws)"
        using qp_decode_flush [of inp pre ws equals_sign "h1 # h2 # ?tl" out osize] Cons.prems(3,4) c h
        by (simp add: qp_ISWS_def)
      also have "\<dots> = qp_decode_loop inp osize (length (pre @ ws) + 3) 0 ((out @ ws) @ [c])"
        using Cons.prems(3,4) c by (intro qp_decode_quoted [where rest = ?tl]) auto
      also have "\<dots> = qp_decode_loop inp osize (length (pre @ ws @ qp_quoted c) + length ([] :: bytes)) (length ([] :: bytes)) (out @ ws @ [c])"
        by (simp add: l add.assoc)
      also have "\<dots> = (length inp, 0, (out @ ws @ [c]) @ [] @ xs)"
        using Cons.prems cl c by (intro Cons.IH) auto
      finally show ?thesis by simp
    qed
  qed
qed

section \<open>Properties\<close>

text \<open>
  C32: Decoding what \<^verbatim>\<open>dico_base64_encode\<close> made of a non-empty buffer gives the buffer
  back, whatever follows the encoded text in memory; the encoder stays within the memory
  it allocates and writes four characters for every three bytes begun.
\<close>

theorem base64_roundtrip:
  assumes "xs \<noteq> []" and "4 * ((length xs + 2) div 3) < 2 ^ 31"
  shows "\<exists>enc. dico_base64_encode True xs = Some (Inr enc) \<and> length enc = 4 * ((length xs + 2) div 3) \<and>
    dico_base64_decode True (enc @ rest) (of_nat (length enc)) = Some (Inr xs)"
proof -
  define enc where "enc = b64_encode_loop xs"
  have l: "length enc < 2 ^ 31" using assms(2) by (simp add: enc_def b64_encode_length)
  have "dico_base64_decode True (enc @ rest) (of_nat (length enc)) = Some (Inr xs)"
    using b64_decode_encode [OF assms(1), of "[]" "length enc" rest] l
    by (simp add: dico_base64_decode_def Let_def sint_ucast_len flip: enc_def)
  then show ?thesis using dico_base64_encode_ok [of xs] by (simp add: enc_def b64_encode_length)
qed

theorem base64_roundtrip_witness:
  "\<exists>enc. dico_base64_encode True [0x48, 0x69] = Some (Inr enc) \<and> length enc = 4 \<and>
    dico_base64_decode True (enc @ [0]) (of_nat (length enc)) = Some (Inr [0x48, 0x69])"
  using base64_roundtrip [of "[0x48, 0x69]" "[0]"] by simp

text \<open>
  C33: Decoding a C string never reads behind its terminating NUL and never writes outside
  the allocated buffer, whatever the string holds, although the length counter wraps
  around when the length is not a multiple of four: every failure is an error return with
  \<^verbatim>\<open>EINVAL\<close>, and only strings whose length is a positive multiple of four are decoded.
\<close>

theorem base64_decode_string_safe:
  assumes "length s < 2 ^ 31"
  shows "case dico_base64_decode True (s @ [0]) (of_nat (length s)) of
      None \<Rightarrow> False
    | Some (Inl e) \<Rightarrow> e = EINVAL
    | Some (Inr r) \<Rightarrow> s \<noteq> [] \<and> length s mod 4 = 0 \<and> length r \<le> 3 * (length s div 4)"
proof -
  have "3 * (length s div 4) \<le> length s" by presburger
  with b64_decode_loop_string [of "[]" s "length s"] assms show ?thesis
    by (auto simp: dico_base64_decode_def Let_def sint_ucast_len split: option.splits sum.splits)
qed

theorem base64_decode_string_safe_witness:
  "case dico_base64_decode True ([0x41, 0x42, 0x43] @ [0]) 3 of
      None \<Rightarrow> False | Some (Inl e) \<Rightarrow> e = EINVAL | Some (Inr r) \<Rightarrow> False"
  using base64_decode_string_safe [of "[0x41, 0x42, 0x43]"] by (simp split: option.splits sum.splits)

text \<open>
  C34: The base64 converter of the filter stream always makes progress: given input and room for
  four bytes it consumes at least one byte, writes no more than the room, and what it writes is the
  encoding of exactly the bytes it consumed; it stops in the middle of a group of three
  only at the end of an input of at most three bytes.
\<close>

theorem flt_base64_encode_progress:
  assumes "xs \<noteq> []" and "4 \<le> osize" and "osize < 2 ^ 63"
  shows "\<exists>k out. flt_base64_encode xs osize = Some (k, of_nat (length out), out) \<and>
    0 < k \<and> k \<le> length xs \<and> length out \<le> osize \<and> dico_base64_encode True (take k xs) = Some (Inr out) \<and>
    (k mod 3 = 0 \<or> k = length xs \<and> k < 3)"
  using flt_encode_progress [OF assms] .

theorem flt_base64_encode_progress_witness:
  "\<exists>k out. flt_base64_encode [1, 2, 3, 4] 16 = Some (k, of_nat (length out), out) \<and> 0 < k \<and> k \<le> 4"
  using flt_base64_encode_progress [of "[1, 2, 3, 4]" 16] by auto

text \<open>
  C35: Quoted-printable text decodes to what was encoded: when no line and not the text
  itself ends with a space or tab and both buffers are large enough, encoding and
  decoding consume all their input and give the original bytes back.
\<close>

theorem qp_roundtrip:
  assumes "qp_clean xs" and "3 * length xs \<le> osize" and "length xs \<le> osize'"
  shows "\<exists>enc. dico_qp_encode xs osize = Some (length xs, of_nat (length enc), enc) \<and>
    dico_qp_decode enc osize' = Some (length enc, of_nat (length xs), xs)"
proof -
  let ?e = "concat (map qp_char xs)"
  have "qp_encode_loop xs osize 0 [] = (length xs, ?e)" using qp_encode_loop_all [of "[]" xs osize 0] assms(2) by simp
  moreover have "qp_decode_loop ?e osize' 0 0 [] = (length ?e, 0, xs)"
    using qp_decode_encoded [of "[]" xs "[]" osize' ?e "[]"] assms(1,3) by simp
  ultimately show ?thesis by (simp add: dico_qp_encode_def dico_qp_decode_def)
qed

theorem qp_roundtrip_witness:
  "\<exists>enc. dico_qp_encode [0x61, 0x20, 0xff, 0x3d] 20 = Some (Suc 3, of_nat (length enc), enc) \<and>
    dico_qp_decode enc 4 = Some (length enc, 4, [0x61, 0x20, 0xff, 0x3d])"
  using qp_roundtrip [of "[0x61, 0x20, 0xff, 0x3d]" 20 4] by (simp add: qp_ISWS_def numeral_3_eq_3)

text \<open>
  The encoder leaves a space at the end of a line as it is, and the decoder drops it, so
  such text does not survive the round trip.
\<close>

theorem qp_trailing_space_lost:
  "dico_qp_encode [0x61, 0x20, 0x0a] 9 = Some (3, 3, [0x61, 0x20, 0x0a]) \<and>
   dico_qp_decode [0x61, 0x20, 0x0a] 9 = Some (3, 2, [0x61, 0x0a])"
  by (simp add: dico_qp_encode_def qp_simple_char_def dico_qp_decode_def qp_decode_loop.simps qp_ISWS_def)

text \<open>
  The decoding converter subtracts the number of collected values when a group is
  incomplete, also when other characters were skipped between them: after
  \<^verbatim>\<open>A, newline, B\<close> it reports one byte as consumed, and the value of \<^verbatim>\<open>A\<close> is lost.
\<close>

theorem flt_base64_decode_loses_value:
  "flt_base64_decode [0x41, 0x0a, 0x42] 100 = Some (1, 0, [])"
  by (simp add: flt_base64_decode_def flt_decode_loop.simps flt_collect.simps b64val_def Let_def)

text \<open>Four padding characters make the count of decoded bytes wrap around below zero.\<close>

theorem flt_base64_decode_count_wraps:
  "flt_base64_decode [equals_sign, equals_sign, equals_sign, equals_sign] 100 = Some (4, -1, [0, 0, 0])"
  by (simp add: flt_base64_decode_def flt_decode_loop.simps flt_collect.simps b64val_def Let_def)

end
