(* ===== verification/Dico_Stream.thy ===== *)
theory Dico_Stream
  imports Dico_Prelude
begin

text \<open>
  Buffered streams: \<^verbatim>\<open>lib/stream.c\<close>. A stream is a record of its buffer, flags and
  counters together with its driver: the functions that \<^verbatim>\<open>dico_stream_set_read\<close> etc.
  install, over a state of the driver's own type. Every function that calls the driver
  returns an \<open>option\<close>: \<open>None\<close> is undefined behaviour (memory outside the buffer is
  touched, an unset variable is used) or a call that never returns.

  Return codes are C integers, 0 for success. \<^verbatim>\<open>size_t\<close> values are natural numbers;
  the arithmetic that can wrap around is written out. The contents of a buffer that
  \<^verbatim>\<open>malloc\<close> returned are zero in the model and are never read before they are written.
  Streams are not \<^verbatim>\<open>NULL\<close>.
\<close>

section \<open>Streams and drivers\<close>

datatype dico_buffer_type = dico_buffer_none | dico_buffer_line | dico_buffer_full

datatype sflag = DICO_STREAM_READ | DICO_STREAM_WRITE | DICO_STREAM_SEEK | STR_DIRTY | STR_ERR | STR_EOF

datatype whence = DICO_SEEK_SET | DICO_SEEK_CUR | DICO_SEEK_END | DICO_SEEK_OTHER

datatype ioctl =
    DICO_IOCTL_GET_TRANSPORT | DICO_IOCTL_SET_TRANSPORT
  | DICO_DBG_CTL_SET_FILE "bytes option" | DICO_DBG_CTL_SET_LINE nat | DICO_DBG_CTL_SET_TS bool
  | DICO_IOCTL_BYTES_IN | DICO_IOCTL_BYTES_OUT
  | DICO_IOCTL_SET_LINELEN nat | DICO_IOCTL_GET_LINELEN

definition errcode :: "errno \<Rightarrow> int" where
  "errcode e = (case e of ENOENT \<Rightarrow> 2 | EIO \<Rightarrow> 5 | ENOMEM \<Rightarrow> 12 | EACCES \<Rightarrow> 13 | EEXIST \<Rightarrow> 17 | EINVAL \<Rightarrow> 22
     | ENOSYS \<Rightarrow> 38 | ENODATA \<Rightarrow> 61 | EOVERFLOW \<Rightarrow> 75 | EILSEQ \<Rightarrow> 84)"

text \<open>
  The driver. \<open>Inl\<close> is an error code other than 0; \<open>d_read\<close> gets the size of the
  buffer and returns the bytes it put there, \<open>d_write\<close> returns how many bytes it took.
\<close>

record 'd driver =
  d_read :: "('d \<Rightarrow> nat \<Rightarrow> ('d \<times> (int + bytes)) option) option"
  d_write :: "('d \<Rightarrow> bytes \<Rightarrow> ('d \<times> (int + nat)) option) option"
  d_flush :: "('d \<Rightarrow> ('d \<times> int) option) option"
  d_open :: "('d \<Rightarrow> sflag set \<Rightarrow> ('d \<times> int) option) option"
  d_close :: "('d \<Rightarrow> ('d \<times> int) option) option"
  d_destroy :: "('d \<Rightarrow> ('d \<times> int) option) option"
  d_seek :: "('d \<Rightarrow> int \<Rightarrow> whence \<Rightarrow> ('d \<times> (int + int)) option) option"
  d_size :: "('d \<Rightarrow> ('d \<times> (int + int)) option) option"
  d_ctl :: "('d \<Rightarrow> ioctl \<Rightarrow> ('d \<times> (int + int)) option) option"
  d_error_string :: "('d \<Rightarrow> int \<Rightarrow> bytes) option"

record 'd dico_stream =
  s_buftype :: dico_buffer_type
  s_bufsize :: nat
  s_buffer :: "bytes option"
  s_level :: nat
  s_cur :: nat
  s_flags :: "sflag set"
  s_bytes_in :: int
  s_bytes_out :: int
  s_last_err :: int
  s_drv :: "'d driver"
  s_data :: 'd

definition no_driver :: "'d driver" where
  "no_driver = \<lparr>d_read = None, d_write = None, d_flush = None, d_open = None, d_close = None,
     d_destroy = None, d_seek = None, d_size = None, d_ctl = None, d_error_string = None\<rparr>"

definition stream_seterror :: "'d dico_stream \<Rightarrow> int \<Rightarrow> bool \<Rightarrow> 'd dico_stream" where
  "stream_seterror s code perm =
     s\<lparr>s_last_err := code, s_flags := (if perm then insert STR_ERR (s_flags s) else s_flags s)\<rparr>"

definition dico_stream_create :: "bool \<Rightarrow> sflag set \<Rightarrow> 'd \<Rightarrow> int + 'd dico_stream" where
  "dico_stream_create alloc flags data =
     (if alloc
      then Inr \<lparr>s_buftype = dico_buffer_none, s_bufsize = 0, s_buffer = None, s_level = 0, s_cur = 0,
             s_flags = flags, s_bytes_in = 0, s_bytes_out = 0, s_last_err = 0, s_drv = no_driver, s_data = data\<rparr>
      else Inl (errcode ENOMEM))"

definition dico_stream_open :: "'d dico_stream \<Rightarrow> ('d dico_stream \<times> int) option" where
  "dico_stream_open s =
     (case d_open (s_drv s) of
        None \<Rightarrow> Some (s\<lparr>s_bytes_in := 0, s_bytes_out := 0\<rparr>, 0)
      | Some f \<Rightarrow> do {
          (d, rc) \<leftarrow> f (s_data s) (s_flags s);
          (let s = s\<lparr>s_data := d\<rparr> in
           if rc \<noteq> 0 then Some (stream_seterror s rc True, rc)
           else Some (s\<lparr>s_bytes_in := 0, s_bytes_out := 0\<rparr>, 0)) })"

definition dico_stream_set_error_string where
  "dico_stream_set_error_string s f = s\<lparr>s_drv := (s_drv s)\<lparr>d_error_string := f\<rparr>\<rparr>"
definition dico_stream_set_open where
  "dico_stream_set_open s f = s\<lparr>s_drv := (s_drv s)\<lparr>d_open := f\<rparr>\<rparr>"
definition dico_stream_set_seek where
  "dico_stream_set_seek s f = s\<lparr>s_drv := (s_drv s)\<lparr>d_seek := f\<rparr>\<rparr>"
definition dico_stream_set_read where
  "dico_stream_set_read s f = s\<lparr>s_drv := (s_drv s)\<lparr>d_read := f\<rparr>\<rparr>"
definition dico_stream_set_write where
  "dico_stream_set_write s f = s\<lparr>s_drv := (s_drv s)\<lparr>d_write := f\<rparr>\<rparr>"
definition dico_stream_set_flush where
  "dico_stream_set_flush s f = s\<lparr>s_drv := (s_drv s)\<lparr>d_flush := f\<rparr>\<rparr>"
definition dico_stream_set_close where
  "dico_stream_set_close s f = s\<lparr>s_drv := (s_drv s)\<lparr>d_close := f\<rparr>\<rparr>"
definition dico_stream_set_destroy where
  "dico_stream_set_destroy s f = s\<lparr>s_drv := (s_drv s)\<lparr>d_destroy := f\<rparr>\<rparr>"
definition dico_stream_set_size where
  "dico_stream_set_size s f = s\<lparr>s_drv := (s_drv s)\<lparr>d_size := f\<rparr>\<rparr>"
definition dico_stream_set_ioctl where
  "dico_stream_set_ioctl s f = s\<lparr>s_drv := (s_drv s)\<lparr>d_ctl := f\<rparr>\<rparr>"

text \<open>\<open>strerror\<close> is the C library's function.\<close>

definition dico_stream_strerror :: "(int \<Rightarrow> bytes) \<Rightarrow> 'd dico_stream \<Rightarrow> int \<Rightarrow> bytes" where
  "dico_stream_strerror strerror s rc =
     (case d_error_string (s_drv s) of Some f \<Rightarrow> f (s_data s) rc | None \<Rightarrow> strerror rc)"

definition dico_stream_last_error :: "'d dico_stream \<Rightarrow> int" where
  "dico_stream_last_error s = s_last_err s"

definition dico_stream_clearerr :: "'d dico_stream \<Rightarrow> 'd dico_stream" where
  "dico_stream_clearerr s = s\<lparr>s_last_err := 0\<rparr>"

definition dico_stream_eof :: "'d dico_stream \<Rightarrow> bool" where
  "dico_stream_eof s \<longleftrightarrow> STR_EOF \<in> s_flags s"

definition stream_cleareof :: "'d dico_stream \<Rightarrow> 'd dico_stream" where
  "stream_cleareof s = s\<lparr>s_flags := s_flags s - {STR_EOF}\<rparr>"

definition stream_advance_buffer :: "'d dico_stream \<Rightarrow> nat \<Rightarrow> 'd dico_stream" where
  "stream_advance_buffer s n = s\<lparr>s_cur := s_cur s + n, s_level := s_level s - n\<rparr>"

definition stream_orig_level :: "'d dico_stream \<Rightarrow> nat" where
  "stream_orig_level s = s_level s + s_cur s"

section \<open>Unbuffered reading and writing\<close>

text \<open>
  The loop of \<^verbatim>\<open>dico_stream_read_unbuffered\<close> without \<^verbatim>\<open>pread\<close>; it gives the bytes
  read and the number of bytes still wanted. A driver that returns more than it was asked
  for has overrun the buffer.
\<close>

function stream_read_loop ::
  "('d \<Rightarrow> nat \<Rightarrow> ('d \<times> (int + bytes)) option) \<Rightarrow> 'd dico_stream \<Rightarrow> nat \<Rightarrow> bytes \<Rightarrow> ('d dico_stream \<times> bytes \<times> nat) option" where
  "stream_read_loop rd s sz acc =
     (if sz = 0 then Some (s, acc, 0)
      else (case rd (s_data s) sz of
              None \<Rightarrow> None
            | Some (d, Inl rc) \<Rightarrow> Some (s\<lparr>s_data := d\<rparr>, acc, sz)
            | Some (d, Inr bs) \<Rightarrow>
                (if bs = [] then Some (s\<lparr>s_data := d, s_flags := insert STR_EOF (s_flags s)\<rparr>, acc, sz)
                 else if length bs > sz then None
                 else stream_read_loop rd (s\<lparr>s_data := d, s_bytes_in := s_bytes_in s + int (length bs)\<rparr>)
                        (sz - length bs) (acc @ bs))))"
  by pat_completeness auto
termination
  by (relation "measure (\<lambda>(_, _, sz, _). sz)") auto

declare stream_read_loop.simps [simp del]

text \<open>
  The result: the stream, the return code and the bytes that were put into the caller's
  buffer; \<open>part\<close> tells whether the caller passes \<^verbatim>\<open>pread\<close>.
\<close>

definition dico_stream_read_unbuffered ::
  "'d dico_stream \<Rightarrow> nat \<Rightarrow> bool \<Rightarrow> ('d dico_stream \<times> int \<times> bytes) option" where
  "dico_stream_read_unbuffered s sz part =
     (case d_read (s_drv s) of
        None \<Rightarrow> Some (stream_seterror s (errcode ENOSYS) False, errcode ENOSYS, [])
      | Some rd \<Rightarrow>
          if DICO_STREAM_READ \<notin> s_flags s
          then Some (stream_seterror s (errcode EACCES) True, errcode EACCES, [])
          else if STR_ERR \<in> s_flags s then Some (s, s_last_err s, [])
          else if STR_EOF \<in> s_flags s \<or> sz = 0
          then (if part then Some (s, 0, []) else Some (stream_seterror s (errcode EIO) False, errcode EIO, []))
          else if \<not> part
          then do {
            (s, bs, rest) \<leftarrow> stream_read_loop rd s sz [];
            (if rest \<noteq> 0 then Some (stream_seterror s (errcode EIO) False, errcode EIO, bs)
             else Some (stream_seterror s 0 False, 0, bs)) }
          else (case rd (s_data s) sz of
                  None \<Rightarrow> None
                | Some (d, Inl rc) \<Rightarrow> Some (stream_seterror (s\<lparr>s_data := d\<rparr>) rc True, rc, [])
                | Some (d, Inr bs) \<Rightarrow>
                    if length bs > sz then None
                    else Some (stream_seterror (s\<lparr>s_data := d, s_bytes_in := s_bytes_in s + int (length bs),
                            s_flags := (if bs = [] then insert STR_EOF (s_flags s) else s_flags s)\<rparr>) 0 False, 0, bs)))"

function stream_write_unbuf_loop ::
  "('d \<Rightarrow> bytes \<Rightarrow> ('d \<times> (int + nat)) option) \<Rightarrow> 'd dico_stream \<Rightarrow> bytes \<Rightarrow> ('d dico_stream \<times> int) option" where
  "stream_write_unbuf_loop wr s bufp =
     (if bufp = [] then Some (s, 0)
      else (case wr (s_data s) bufp of
              None \<Rightarrow> None
            | Some (d, Inl rc) \<Rightarrow> Some (s\<lparr>s_data := d\<rparr>, rc)
            | Some (d, Inr n) \<Rightarrow>
                (if n = 0 then Some (s\<lparr>s_data := d\<rparr>, errcode EIO)
                 else if n > length bufp then None
                 else stream_write_unbuf_loop wr (s\<lparr>s_data := d, s_bytes_out := s_bytes_out s + int n\<rparr>) (drop n bufp))))"
  by pat_completeness auto
termination
  by (relation "measure (\<lambda>(_, _, bufp). length bufp)") auto

declare stream_write_unbuf_loop.simps [simp del]

text \<open>The result: the stream, the return code and \<^verbatim>\<open>*pwrite\<close> when it is passed.\<close>

definition dico_stream_write_unbuffered ::
  "'d dico_stream \<Rightarrow> bytes \<Rightarrow> bool \<Rightarrow> ('d dico_stream \<times> int \<times> nat option) option" where
  "dico_stream_write_unbuffered s buf part =
     (case d_write (s_drv s) of
        None \<Rightarrow> Some (stream_seterror s (errcode ENOSYS) False, errcode ENOSYS, None)
      | Some wr \<Rightarrow>
          if DICO_STREAM_WRITE \<notin> s_flags s
          then Some (stream_seterror s (errcode EACCES) True, errcode EACCES, None)
          else if STR_ERR \<in> s_flags s then Some (s, s_last_err s, None)
          else if buf = [] then Some (s, 0, if part then Some 0 else None)
          else if \<not> part
          then do {
            (s, rc) \<leftarrow> stream_write_unbuf_loop wr s buf;
            Some (stream_seterror s rc (rc \<noteq> 0), rc, None) }
          else (case wr (s_data s) buf of
                  None \<Rightarrow> None
                | Some (d, Inl rc) \<Rightarrow> Some (stream_seterror (s\<lparr>s_data := d\<rparr>) rc True, rc, None)
                | Some (d, Inr n) \<Rightarrow>
                    Some (stream_seterror (s\<lparr>s_data := d, s_bytes_out := s_bytes_out s + int n\<rparr>) 0 False, 0, Some n)))"

section \<open>The buffer\<close>

text \<open>The bytes between \<^verbatim>\<open>cur\<close> and \<^verbatim>\<open>cur + level\<close>.\<close>

definition stream_window :: "'d dico_stream \<Rightarrow> bytes option" where
  "stream_window s =
     (case s_buffer s of
        None \<Rightarrow> if s_level s = 0 then Some [] else None
      | Some b \<Rightarrow> if s_cur s + s_level s \<le> length b then Some (take (s_level s) (drop (s_cur s) b)) else None)"

text \<open>The loop that fills a line buffer of size \<open>lim\<close>, byte by byte.\<close>

function stream_fill_line :: "nat \<Rightarrow> 'd dico_stream \<Rightarrow> nat \<Rightarrow> ('d dico_stream \<times> nat \<times> int) option" where
  "stream_fill_line lim s n =
     (if n < lim
      then (case dico_stream_read_unbuffered s 1 False of
              None \<Rightarrow> None
            | Some (s, rc, bs) \<Rightarrow>
                (if rc \<noteq> 0 then Some (s, n, rc)
                 else (case s_buffer s of
                         None \<Rightarrow> None
                       | Some b \<Rightarrow>
                           if n < length b
                           then let c = hd bs; s = s\<lparr>s_buffer := Some (b[n := c])\<rparr> in
                             if c = 0x0a then Some (s, n + 1, 0) else stream_fill_line lim s (n + 1)
                           else None)))
      else Some (s, n, 0))"
  by pat_completeness auto
termination
  by (relation "measure (\<lambda>(lim, _, n). lim - n)") auto

declare stream_fill_line.simps [simp del]

definition stream_fill_buffer :: "'d dico_stream \<Rightarrow> ('d dico_stream \<times> int) option" where
  "stream_fill_buffer s =
     (case s_buftype s of
        dico_buffer_none \<Rightarrow> Some (s, 0)
      | dico_buffer_full \<Rightarrow> do {
          (s, rc, bs) \<leftarrow> dico_stream_read_unbuffered s (s_bufsize s) True;
          (if rc \<noteq> 0 then Some (s, 1)
           else (case s_buffer s of
                   None \<Rightarrow> None
                 | Some b \<Rightarrow>
                     if length bs \<le> length b
                     then Some (s\<lparr>s_buffer := Some (bs @ drop (length bs) b), s_level := length bs, s_cur := 0\<rparr>, 0)
                     else None)) }
      | dico_buffer_line \<Rightarrow> do {
          (s, n, rc) \<leftarrow> stream_fill_line (s_bufsize s) s 0;
          Some (s\<lparr>s_level := n, s_cur := 0\<rparr>, rc) })"

definition BUFFER_FULL_P :: "'d dico_stream \<Rightarrow> bool" where
  "BUFFER_FULL_P s \<longleftrightarrow> s_cur s + s_level s = s_bufsize s"

definition stream_buffer_full_p :: "'d dico_stream \<Rightarrow> bool option" where
  "stream_buffer_full_p s =
     (case s_buftype s of
        dico_buffer_none \<Rightarrow> Some False
      | dico_buffer_line \<Rightarrow>
          if BUFFER_FULL_P s then Some True else do { w \<leftarrow> stream_window s; Some (0x0a \<in> set w) }
      | dico_buffer_full \<Rightarrow> Some (BUFFER_FULL_P s))"

text \<open>Writing and reading without the buffer leave the buffer alone.\<close>

lemma stream_write_unbuf_loop_frame:
  "stream_write_unbuf_loop wr s bufp = Some (s', rc) \<Longrightarrow>
   \<exists>d out. s' = s\<lparr>s_data := d, s_bytes_out := out\<rparr>"
proof (induction wr s bufp rule: stream_write_unbuf_loop.induct)
  case (1 wr s bufp)
  show ?case
  proof (cases "bufp = []")
    case True
    with "1.prems" show ?thesis
      by (auto simp: stream_write_unbuf_loop.simps intro!: exI [of _ "s_data s"] exI [of _ "s_bytes_out s"])
  next
    case False
    then obtain d r where w: "wr (s_data s) bufp = Some (d, r)"
      using "1.prems" by (subst (asm) stream_write_unbuf_loop.simps) (auto split: option.splits)
    show ?thesis
    proof (cases r)
      case (Inl e)
      with w False "1.prems" show ?thesis
        by (auto simp: stream_write_unbuf_loop.simps [of wr s bufp] intro!: exI [of _ d] exI [of _ "s_bytes_out s"])
    next
      case (Inr n)
      show ?thesis
      proof (cases "n = 0 \<or> length bufp < n")
        case True
        with w Inr False "1.prems" show ?thesis
          by (auto simp: stream_write_unbuf_loop.simps [of wr s bufp] split: if_splits
              intro!: exI [of _ d] exI [of _ "s_bytes_out s"])
      next
        case n: False
        with w Inr False "1.prems"
        have "stream_write_unbuf_loop wr (s\<lparr>s_data := d, s_bytes_out := s_bytes_out s + int n\<rparr>) (drop n bufp) = Some (s', rc)"
          by (simp add: stream_write_unbuf_loop.simps [of wr s bufp])
        with "1.IH" [OF False w _ Inr] n obtain d' out
          where "s' = s\<lparr>s_data := d, s_bytes_out := s_bytes_out s + int n\<rparr>\<lparr>s_data := d', s_bytes_out := out\<rparr>"
          by fastforce
        then show ?thesis by (intro exI [of _ d'] exI [of _ out]) simp
      qed
    qed
  qed
qed

definition same_buffer :: "'d dico_stream \<Rightarrow> 'd dico_stream \<Rightarrow> bool" where
  "same_buffer s s' \<longleftrightarrow> s_buftype s' = s_buftype s \<and> s_bufsize s' = s_bufsize s \<and> s_buffer s' = s_buffer s \<and>
     s_level s' = s_level s \<and> s_cur s' = s_cur s"

lemma same_buffer_refl [simp]: "same_buffer s s"
  by (simp add: same_buffer_def)

lemma stream_write_unbuffered_frame:
  assumes "dico_stream_write_unbuffered s buf part = Some (s', rc, n)"
  shows "same_buffer s s'"
  using assms
  by (auto simp: dico_stream_write_unbuffered_def stream_seterror_def res_iff same_buffer_def
      dest!: stream_write_unbuf_loop_frame split: option.splits if_splits sum.splits)

section \<open>Flushing and seeking\<close>

text \<open>The loop over the complete lines of the buffer.\<close>

function stream_flush_lines :: "'d dico_stream \<Rightarrow> ('d dico_stream \<times> int) option" where
  "stream_flush_lines s =
     (case stream_window s of
        None \<Rightarrow> None
      | Some w \<Rightarrow>
          (case index_of 0x0a w of
             None \<Rightarrow> Some (s, 0)
           | Some i \<Rightarrow>
               (case dico_stream_write_unbuffered s (take (i + 1) w) False of
                  None \<Rightarrow> None
                | Some (s', rc, _) \<Rightarrow>
                    if rc \<noteq> 0 then Some (s', rc) else stream_flush_lines (stream_advance_buffer s' (i + 1)))))"
  by pat_completeness auto
termination
proof (relation "measure s_level", goal_cases)
  case (2 s w i a s' b rc n)
  have "s_level s' = s_level s" using stream_write_unbuffered_frame [of s "take (i + 1) w" False s' rc n] 2
    by (auto simp: same_buffer_def)
  moreover have "length w \<le> s_level s" using 2(1) by (auto simp: stream_window_def split: option.splits if_splits)
  ultimately show ?case using index_of_SomeD [OF 2(2)] by (simp add: stream_advance_buffer_def)
qed simp

declare stream_flush_lines.simps [simp del]

text \<open>The end of \<^verbatim>\<open>_stream_flush_buffer\<close>: the rest moves to the start of the buffer.\<close>

definition stream_flush_end :: "'d dico_stream \<Rightarrow> ('d dico_stream \<times> int) option" where
  "stream_flush_end s =
     (if s_level s \<noteq> 0
      then (case (s_buffer s, stream_window s) of
              (Some b, Some w) \<Rightarrow> Some (s\<lparr>s_buffer := Some (w @ drop (length w) b), s_cur := 0\<rparr>, 0)
            | _ \<Rightarrow> None)
      else Some (s\<lparr>s_flags := s_flags s - {STR_DIRTY}, s_level := 0, s_cur := 0\<rparr>, 0))"

text \<open>The switch on the type of the buffer; \<^verbatim>\<open>abort ()\<close> ends the program.\<close>

definition stream_flush_switch :: "'d dico_stream \<Rightarrow> bool \<Rightarrow> ('d dico_stream \<times> int) option" where
  "stream_flush_switch s all =
     (case s_buftype s of
        dico_buffer_none \<Rightarrow> None
      | dico_buffer_full \<Rightarrow> do {
          w \<leftarrow> stream_window s;
          (s, rc, _) \<leftarrow> dico_stream_write_unbuffered s w False;
          (if rc \<noteq> 0 then Some (s, 1) else stream_flush_end (stream_advance_buffer s (s_level s))) }
      | dico_buffer_line \<Rightarrow>
          if s_level s = 0 then stream_flush_end s
          else do {
            (s, rc) \<leftarrow> stream_flush_lines s;
            (if rc \<noteq> 0 then Some (s, rc)
             else if (all \<and> s_level s \<noteq> 0) \<or> BUFFER_FULL_P s
             then do {
               w \<leftarrow> stream_window s;
               (s, rc, _) \<leftarrow> dico_stream_write_unbuffered s w False;
               (if rc \<noteq> 0 then Some (s, rc) else stream_flush_end (stream_advance_buffer s (s_level s))) }
             else stream_flush_end s) })"

text \<open>
  \<^verbatim>\<open>dico_stream_seek\<close> in three parts: the tests before the switch, and after it the
  call of the driver. Its result is the offset, or -1.
\<close>

definition stream_seek_check :: "'d dico_stream \<Rightarrow> 'd dico_stream \<times> bool" where
  "stream_seek_check s =
     (if STR_ERR \<in> s_flags s then (s, False)
      else if d_seek (s_drv s) = None then (stream_seterror s (errcode ENOSYS) False, False)
      else if DICO_STREAM_SEEK \<notin> s_flags s then (stream_seterror s (errcode EACCES) True, False)
      else (s, True))"

definition stream_call_seek :: "'d dico_stream \<Rightarrow> int \<Rightarrow> whence \<Rightarrow> ('d dico_stream \<times> int) option" where
  "stream_call_seek s offset whence =
     (case d_seek (s_drv s) of
        None \<Rightarrow> None
      | Some f \<Rightarrow> do {
          (d, r) \<leftarrow> f (s_data s) offset whence;
          (let s = s\<lparr>s_data := d\<rparr> in
           case r of
             Inl rc \<Rightarrow> Some (stream_seterror s rc True, -1)
           | Inr res \<Rightarrow> Some (stream_cleareof s, res)) })"

definition stream_call_flush :: "'d dico_stream \<Rightarrow> ('d dico_stream \<times> int) option" where
  "stream_call_flush s =
     (case d_flush (s_drv s) of
        None \<Rightarrow> Some (s, 0)
      | Some f \<Rightarrow> do { (d, rc) \<leftarrow> f (s_data s); Some (s\<lparr>s_data := d\<rparr>, rc) })"

text \<open>
  \<^verbatim>\<open>_stream_flush_buffer\<close>. On a dirty seekable stream it calls \<^verbatim>\<open>dico_stream_seek\<close>
  with \<^verbatim>\<open>DICO_SEEK_CUR\<close>, and that calls \<^verbatim>\<open>dico_stream_flush\<close>, which comes back
  here; the two calls in between are written out.
\<close>

partial_function (option) stream_flush_buffer :: "'d dico_stream \<Rightarrow> bool \<Rightarrow> ('d dico_stream \<times> int) option" where
  "stream_flush_buffer s all =
     (if STR_DIRTY \<in> s_flags s
      then if DICO_STREAM_SEEK \<in> s_flags s
        then (case stream_seek_check s of
                (s1, ok) \<Rightarrow> if \<not> ok then Some (s1, 1) else do {
                  (s2, rc) \<leftarrow> stream_flush_buffer s1 True;
                  (if rc \<noteq> 0 then Some (s2, 1)
                   else do {
                     (s3, rc) \<leftarrow> stream_call_flush s2;
                     (if rc \<noteq> 0 then Some (s3, 1)
                      else do {
                        (s4, res) \<leftarrow> stream_call_seek s3 (- int (stream_orig_level s)) DICO_SEEK_CUR;
                        (if res < 0 then Some (s4, 1) else stream_flush_switch s4 all) }) }) })
        else stream_flush_switch s all
      else stream_flush_end s)"

definition dico_stream_flush :: "'d dico_stream \<Rightarrow> ('d dico_stream \<times> int) option" where
  "dico_stream_flush s = do {
     (s, rc) \<leftarrow> stream_flush_buffer s True;
     (if rc \<noteq> 0 then Some (s, 1) else stream_call_flush s) }"

text \<open>
  \<^verbatim>\<open>dico_stream_seek\<close>. In the case \<^verbatim>\<open>DICO_SEEK_END\<close> the sum \<^verbatim>\<open>bpos + offset\<close> is
  unsigned, so only the second comparison can fail.
\<close>

definition dico_stream_seek :: "'d dico_stream \<Rightarrow> int \<Rightarrow> whence \<Rightarrow> ('d dico_stream \<times> int) option" where
  "dico_stream_seek s offset whence =
     (case stream_seek_check s of
        (s, False) \<Rightarrow> Some (s, -1)
      | (s, True) \<Rightarrow>
          let bpos = int (s_cur s) in
          if whence = DICO_SEEK_OTHER then Some (stream_seterror s (errcode EINVAL) True, -1)
          else if whence = DICO_SEEK_END \<and> (bpos + offset) mod 2 ^ 64 < int (stream_orig_level s)
          then do {
            (s, res) \<leftarrow> stream_call_seek s offset whence;
            (if STR_ERR \<in> s_flags s then Some (s, -1)
             else let off = offset - bpos in
               if 0 \<le> int (s_cur s) + off
               then let lev = (int (s_level s) - off) mod 2 ^ 64 in
                 Some (s\<lparr>s_cur := nat (int (s_cur s) + off), s_level := nat lev\<rparr>, res - lev)
               else None) }
          else do {
            (s, rc) \<leftarrow> dico_stream_flush s;
            (if rc \<noteq> 0 then Some (s, -1) else stream_call_seek s offset whence) })"

definition dico_stream_set_buffer ::
  "bool \<Rightarrow> 'd dico_stream \<Rightarrow> dico_buffer_type \<Rightarrow> nat \<Rightarrow> ('d dico_stream \<times> int) option" where
  "dico_stream_set_buffer alloc s typ sz =
     (let typ = (if sz = 0 then dico_buffer_none else typ) in do {
        s \<leftarrow> (if s_buffer s \<noteq> None then map_option fst (dico_stream_flush s) else Some s);
        (let s = s\<lparr>s_buftype := typ\<rparr> in
         if typ = dico_buffer_none then Some (s\<lparr>s_buffer := None\<rparr>, 0)
         else if \<not> alloc
         then Some (stream_seterror (s\<lparr>s_buffer := None, s_buftype := dico_buffer_none\<rparr>) (errcode ENOMEM) True, errcode ENOMEM)
         else Some (s\<lparr>s_buffer := Some (replicate sz 0), s_bufsize := sz, s_cur := 0, s_level := 0\<rparr>, 0)) })"

section \<open>Buffered reading\<close>

text \<open>
  The loop of \<^verbatim>\<open>dico_stream_read\<close>: \<open>Inl\<close> is the return from the middle of it,
  \<open>Inr\<close> gives what was read and how much is still wanted.
\<close>

function stream_read_buffered :: "'d dico_stream \<Rightarrow> nat \<Rightarrow> bytes \<Rightarrow> ('d dico_stream \<times> (int + bytes \<times> nat)) option" where
  "stream_read_buffered s sz acc =
     (if sz = 0 then Some (s, Inr (acc, 0))
      else (case (if s_level s = 0 then stream_fill_buffer s else Some (s, 0)) of
              None \<Rightarrow> None
            | Some (s, rc) \<Rightarrow>
                (if rc \<noteq> 0 then if acc \<noteq> [] then Some (s, Inr (acc, sz)) else Some (s, Inl 1)
                 else if s_level s = 0 then Some (s, Inr (acc, sz))
                 else (case stream_window s of
                         None \<Rightarrow> None
                       | Some w \<Rightarrow>
                           let n = min sz (s_level s); acc = acc @ take n w; s = stream_advance_buffer s n in
                           if s_buftype s = dico_buffer_line \<and> last acc = 0x0a then Some (s, Inr (acc, sz - n))
                           else stream_read_buffered s (sz - n) acc))))"
  by pat_completeness auto
termination
  by (relation "measure (\<lambda>(_, sz, _). sz)") auto

declare stream_read_buffered.simps [simp del]

definition dico_stream_read :: "'d dico_stream \<Rightarrow> nat \<Rightarrow> bool \<Rightarrow> ('d dico_stream \<times> int \<times> bytes) option" where
  "dico_stream_read s sz part =
     (if s_buftype s = dico_buffer_none then dico_stream_read_unbuffered s sz part
      else if STR_ERR \<in> s_flags s then Some (s, s_last_err s, [])
      else do {
        (s, r) \<leftarrow> stream_read_buffered s sz [];
        (case r of
           Inl rc \<Rightarrow> Some (s, rc, [])
         | Inr (acc, rest) \<Rightarrow>
             if part then Some (s, 0, acc)
             else if rest \<noteq> 0 then Some (stream_seterror s (errcode EIO) True, errcode EIO, acc)
             else Some (s, 0, acc)) })"

text \<open>
  \<^verbatim>\<open>dico_stream_readln\<close>: the loop reads up to \<open>sz\<close> characters; the return code
  \<open>rc\<close> is not set before the first read, and \<^verbatim>\<open>n\<close> does not count the newline.
\<close>

function stream_readln_loop ::
  "'d dico_stream \<Rightarrow> nat \<Rightarrow> nat \<Rightarrow> bytes \<Rightarrow> int option \<Rightarrow> ('d dico_stream \<times> int option \<times> bytes \<times> nat) option" where
  "stream_readln_loop s sz n acc rc =
     (if n < sz
      then (case dico_stream_read s 1 False of
              None \<Rightarrow> None
            | Some (s, rc, bs) \<Rightarrow>
                (if rc \<noteq> 0 then Some (s, Some rc, acc, n)
                 else if hd bs = 0x0a then Some (s, Some rc, acc @ [hd bs], n)
                 else stream_readln_loop s sz (n + 1) (acc @ [hd bs]) (Some rc)))
      else Some (s, rc, acc, n))"
  by pat_completeness auto
termination
  by (relation "measure (\<lambda>(_, sz, n, _). sz - n)") auto

declare stream_readln_loop.simps [simp del]

definition dico_stream_readln :: "'d dico_stream \<Rightarrow> nat \<Rightarrow> ('d dico_stream \<times> int \<times> bytes \<times> nat) option" where
  "dico_stream_readln s sz =
     (if sz = 0 then Some (s, errcode EIO, [], 0)
      else do {
        (s, rc, acc, n) \<leftarrow> stream_readln_loop s (sz - 1) 0 [] None;
        rc \<leftarrow> rc;
        Some (s, rc, acc, n) })"

text \<open>
  \<^verbatim>\<open>dico_stream_getdelim\<close>: \<open>n\<close> is the size of the line buffer, \<open>alloc\<close> tells
  which sizes \<^verbatim>\<open>realloc\<close> can provide. The result: the stream, the return code, the line
  and the size of the buffer. The loop ends only when the delimiter is found or a read fails.
\<close>

partial_function (option) stream_getdelim_loop ::
  "(nat \<Rightarrow> bool) \<Rightarrow> byte \<Rightarrow> 'd dico_stream \<Rightarrow> nat \<Rightarrow> bytes \<Rightarrow> ('d dico_stream \<times> int \<times> bytes \<times> nat) option" where
  "stream_getdelim_loop alloc delim s n line = do {
     (s, rc, bs) \<leftarrow> dico_stream_read s 1 False;
     (if rc \<noteq> 0 then Some (s, rc, line, n)
      else let cur_len = length line; needed = min (2 ^ 63) (2 * n + 1) in
        if cur_len + 1 \<ge> n
        then if cur_len + 1 \<ge> needed then Some (s, errcode EOVERFLOW, line, n)
          else if \<not> alloc needed then Some (s, errcode ENOMEM, line, n)
          else if hd bs = delim then Some (s, 0, line @ [hd bs], needed)
          else stream_getdelim_loop alloc delim s needed (line @ [hd bs])
        else if hd bs = delim then Some (s, 0, line @ [hd bs], n)
        else stream_getdelim_loop alloc delim s n (line @ [hd bs])) }"

definition dico_stream_getdelim ::
  "(nat \<Rightarrow> bool) \<Rightarrow> byte \<Rightarrow> 'd dico_stream \<Rightarrow> nat option \<Rightarrow> ('d dico_stream \<times> int \<times> bytes \<times> nat) option" where
  "dico_stream_getdelim alloc delim s psize =
     (let n = (case psize of None \<Rightarrow> 0 | Some n \<Rightarrow> n) in
      if n = 0
      then if alloc 120 then stream_getdelim_loop alloc delim s 120 [] else Some (s, errcode ENOMEM, [], 0)
      else stream_getdelim_loop alloc delim s n [])"

definition dico_stream_getline ::
  "(nat \<Rightarrow> bool) \<Rightarrow> 'd dico_stream \<Rightarrow> nat option \<Rightarrow> ('d dico_stream \<times> int \<times> bytes \<times> nat) option" where
  "dico_stream_getline alloc s psize = dico_stream_getdelim alloc 0x0a s psize"

section \<open>Buffered writing\<close>

text \<open>
  The loop of \<^verbatim>\<open>dico_stream_write\<close>. The room is computed as \<^verbatim>\<open>bufsize - level\<close>,
  and the bytes are copied to \<^verbatim>\<open>cur + level\<close>.
\<close>

partial_function (option) stream_write_loop :: "'d dico_stream \<Rightarrow> bytes \<Rightarrow> ('d dico_stream \<times> int) option" where
  "stream_write_loop s bufp = do {
     full \<leftarrow> stream_buffer_full_p s;
     (s, rc) \<leftarrow> (if full then stream_flush_buffer s False else Some (s, 0));
     (if rc \<noteq> 0 then Some (s, 1)
      else if bufp = [] then Some (s, 0)
      else let n = min (s_bufsize s - s_level s) (length bufp); pos = s_cur s + s_level s in
        (case s_buffer s of
           None \<Rightarrow> None
         | Some b \<Rightarrow>
             if s_level s > s_bufsize s \<or> pos + n > length b then None
             else stream_write_loop
                    (s\<lparr>s_buffer := Some (take pos b @ take n bufp @ drop (pos + n) b),
                       s_level := s_level s + n, s_flags := insert STR_DIRTY (s_flags s)\<rparr>)
                    (drop n bufp))) }"

definition dico_stream_write :: "'d dico_stream \<Rightarrow> bytes \<Rightarrow> ('d dico_stream \<times> int) option" where
  "dico_stream_write s buf =
     (if s_buftype s = dico_buffer_none
      then map_option (\<lambda>(s, rc, _). (s, rc)) (dico_stream_write_unbuffered s buf False)
      else if STR_ERR \<in> s_flags s then Some (s, s_last_err s)
      else stream_write_loop s buf)"

definition dico_stream_writeln :: "'d dico_stream \<Rightarrow> bytes \<Rightarrow> ('d dico_stream \<times> int) option" where
  "dico_stream_writeln s buf = do {
     (s, rc) \<leftarrow> dico_stream_write s buf;
     (if rc = 0 then dico_stream_write s [0x0a] else Some (s, rc)) }"

section \<open>Closing, sizes, counters\<close>

definition dico_stream_ioctl :: "'d dico_stream \<Rightarrow> ioctl \<Rightarrow> ('d dico_stream \<times> (int + int)) option" where
  "dico_stream_ioctl s code =
     (case d_ctl (s_drv s) of
        None \<Rightarrow> Some (s, Inl (-1))
      | Some f \<Rightarrow> do { (d, r) \<leftarrow> f (s_data s) code; Some (s\<lparr>s_data := d\<rparr>, r) })"

definition dico_stream_close :: "'d dico_stream \<Rightarrow> ('d dico_stream \<times> int) option" where
  "dico_stream_close s = do {
     (s, _) \<leftarrow> dico_stream_flush s;
     (case d_close (s_drv s) of
        None \<Rightarrow> Some (s, 0)
      | Some f \<Rightarrow> do { (d, rc) \<leftarrow> f (s_data s); Some (s\<lparr>s_data := d\<rparr>, rc) }) }"

definition dico_stream_size :: "'d dico_stream \<Rightarrow> ('d dico_stream \<times> (int + int)) option" where
  "dico_stream_size s =
     (case d_size (s_drv s) of
        None \<Rightarrow> Some (stream_seterror s (errcode ENOSYS) False, Inl (errcode ENOSYS))
      | Some f \<Rightarrow> do {
          (d, r) \<leftarrow> f (s_data s);
          (let s = s\<lparr>s_data := d\<rparr> in
           case r of Inl rc \<Rightarrow> Some (stream_seterror s rc True, Inl rc)
                   | Inr n \<Rightarrow> Some (stream_seterror s 0 False, Inr n)) })"

text \<open>\<^verbatim>\<open>dico_stream_destroy\<close> leaves the driver's state, the stream and its buffer are gone.\<close>

definition dico_stream_destroy :: "'d dico_stream \<Rightarrow> 'd option" where
  "dico_stream_destroy s =
     (case d_destroy (s_drv s) of
        None \<Rightarrow> Some (s_data s)
      | Some f \<Rightarrow> map_option fst (f (s_data s)))"

definition dico_stream_bytes_in :: "'d dico_stream \<Rightarrow> ('d dico_stream \<times> int) option" where
  "dico_stream_bytes_in s = do {
     (s, r) \<leftarrow> dico_stream_ioctl s DICO_IOCTL_BYTES_IN;
     Some (s, case r of Inl _ \<Rightarrow> s_bytes_in s | Inr v \<Rightarrow> v) }"

definition dico_stream_bytes_out :: "'d dico_stream \<Rightarrow> ('d dico_stream \<times> int) option" where
  "dico_stream_bytes_out s = do {
     (s, r) \<leftarrow> dico_stream_ioctl s DICO_IOCTL_BYTES_OUT;
     Some (s, case r of Inl _ \<Rightarrow> s_bytes_out s | Inr v \<Rightarrow> v) }"

end
