(* ===== verification/Dico_Stream_Props.thy ===== *)
theory Dico_Stream_Props
  imports Dico_Stream
begin

text \<open>
  What the buffered streams guarantee. The contract of a driver that takes bytes
  (\<open>byte_sink\<close>) and of one that provides them (\<open>byte_source\<close>) are locales; the
  theorems about \<^verbatim>\<open>dico_stream_write\<close>, \<^verbatim>\<open>dico_stream_flush\<close> and
  \<^verbatim>\<open>dico_stream_getline\<close> are proved once from these contracts.
\<close>

section \<open>Streams that are written to\<close>

text \<open>The bytes in the buffer, and everything written so far.\<close>

definition pending :: "'d dico_stream \<Rightarrow> bytes" where
  "pending s = (case stream_window s of None \<Rightarrow> [] | Some w \<Rightarrow> w)"

lemma pending_cong: "same_buffer s s' \<Longrightarrow> pending s' = pending s"
  by (cases "s_buffer s") (auto simp: pending_def stream_window_def same_buffer_def)

text \<open>
  A stream ready for writing: the buffer is where \<^verbatim>\<open>dico_stream_set_buffer\<close> put it, it
  has not been read from, and what it holds is marked dirty.
\<close>

definition write_ready :: "('d \<Rightarrow> bytes \<Rightarrow> ('d \<times> (int + nat)) option) \<Rightarrow> ('d \<Rightarrow> bool) \<Rightarrow> 'd dico_stream \<Rightarrow> bool" where
  "write_ready wr ok s \<longleftrightarrow>
     d_write (s_drv s) = Some wr \<and> ok (s_data s) \<and>
     DICO_STREAM_WRITE \<in> s_flags s \<and> STR_ERR \<notin> s_flags s \<and> DICO_STREAM_SEEK \<notin> s_flags s \<and>
     (s_buftype s \<noteq> dico_buffer_none \<longrightarrow>
        0 < s_bufsize s \<and> (\<exists>b. s_buffer s = Some b \<and> length b = s_bufsize s)) \<and>
     (s_buftype s = dico_buffer_none \<longrightarrow> s_level s = 0) \<and>
     s_cur s = 0 \<and> s_level s \<le> s_bufsize s \<and> (0 < s_level s \<longrightarrow> STR_DIRTY \<in> s_flags s) \<and>
     (STR_DIRTY \<in> s_flags s \<longrightarrow> s_buftype s \<noteq> dico_buffer_none)"

text \<open>As \<open>write_ready\<close>, but with the window anywhere in the buffer, as inside a flush.\<close>

definition flushing :: "('d \<Rightarrow> bytes \<Rightarrow> ('d \<times> (int + nat)) option) \<Rightarrow> ('d \<Rightarrow> bool) \<Rightarrow> 'd dico_stream \<Rightarrow> bool" where
  "flushing wr ok s \<longleftrightarrow>
     d_write (s_drv s) = Some wr \<and> ok (s_data s) \<and>
     DICO_STREAM_WRITE \<in> s_flags s \<and> STR_ERR \<notin> s_flags s \<and> DICO_STREAM_SEEK \<notin> s_flags s \<and>
     s_buftype s \<noteq> dico_buffer_none \<and> 0 < s_bufsize s \<and> STR_DIRTY \<in> s_flags s \<and>
     (\<exists>b. s_buffer s = Some b \<and> length b = s_bufsize s) \<and> s_cur s + s_level s \<le> s_bufsize s"

lemma flushing_window: "flushing wr ok s \<Longrightarrow> stream_window s = Some (pending s) \<and> length (pending s) = s_level s"
  by (auto simp: flushing_def pending_def stream_window_def)

lemma flushing_advance:
  assumes "flushing wr ok s" and "n \<le> s_level s"
  shows "flushing wr ok (stream_advance_buffer s n)" "pending (stream_advance_buffer s n) = drop n (pending s)"
  using assms by (auto simp: flushing_def pending_def stream_window_def stream_advance_buffer_def drop_take add.commute)

lemma stream_flush_end_clean:
  assumes "flushing wr ok s" and "s_level s = 0"
  shows "\<exists>s'. stream_flush_end s = Some (s', 0) \<and> write_ready wr ok s' \<and> pending s' = [] \<and> s_level s' = 0 \<and>
    s_data s' = s_data s \<and> s_bytes_out s' = s_bytes_out s \<and> s_buftype s' = s_buftype s \<and> s_drv s' = s_drv s \<and> s_bufsize s' = s_bufsize s"
  using assms by (auto simp: stream_flush_end_def flushing_def write_ready_def pending_def stream_window_def)

lemma stream_flush_end_rest:
  assumes "flushing wr ok s" and "s_level s \<noteq> 0"
  shows "\<exists>s'. stream_flush_end s = Some (s', 0) \<and> write_ready wr ok s' \<and> pending s' = pending s \<and> s_level s' = s_level s \<and>
    s_data s' = s_data s \<and> s_bytes_out s' = s_bytes_out s \<and> s_buftype s' = s_buftype s \<and> s_drv s' = s_drv s \<and> s_bufsize s' = s_bufsize s"
proof -
  obtain b where b: "s_buffer s = Some b" "length b = s_bufsize s" using assms(1) by (auto simp: flushing_def)
  define w where "w = pending s"
  have w: "stream_window s = Some w" "length w = s_level s" using flushing_window [OF assms(1)] by (simp_all add: w_def)
  have le: "s_level s \<le> s_bufsize s" using assms(1) by (simp add: flushing_def)
  let ?s = "s\<lparr>s_buffer := Some (w @ drop (length w) b), s_cur := 0\<rparr>"
  have "stream_flush_end s = Some (?s, 0)" using assms(2) b w by (simp add: stream_flush_end_def)
  moreover have "write_ready wr ok ?s" using assms b w le by (auto simp: flushing_def write_ready_def)
  moreover have "pending ?s = pending s" using b w le by (simp add: pending_def stream_window_def)
  ultimately show ?thesis by (intro exI [of _ ?s]) simp
qed

lemma write_ready_flushing:
  "write_ready wr ok s \<Longrightarrow> STR_DIRTY \<in> s_flags s \<Longrightarrow> flushing wr ok s"
  by (auto simp: flushing_def write_ready_def)

lemma write_ready_window:
  "write_ready wr ok s \<Longrightarrow> stream_window s = Some (pending s) \<and> length (pending s) = s_level s"
  by (cases "s_buftype s = dico_buffer_none") (auto simp: write_ready_def pending_def stream_window_def split: option.splits)

text \<open>Everything written to the stream: what the driver has and what is still in the buffer.\<close>

definition written :: "('d \<Rightarrow> bytes) \<Rightarrow> 'd dico_stream \<Rightarrow> bytes" where
  "written out s = out (s_data s) @ pending s"

text \<open>\<open>s'\<close> is \<open>s\<close> after some of the buffer went to the driver, and the counter knows it.\<close>

definition moved :: "('d \<Rightarrow> bytes) \<Rightarrow> 'd dico_stream \<Rightarrow> 'd dico_stream \<Rightarrow> bool" where
  "moved out s s' \<longleftrightarrow>
     s_buftype s' = s_buftype s \<and> s_bufsize s' = s_bufsize s \<and> s_drv s' = s_drv s \<and> written out s' = written out s \<and>
     s_bytes_out s' + int (length (out (s_data s))) = s_bytes_out s + int (length (out (s_data s')))"

lemma moved_refl [simp]: "moved out s s"
  by (simp add: moved_def)

lemma moved_trans [trans]: "moved out s s' \<Longrightarrow> moved out s' s'' \<Longrightarrow> moved out s s''"
  by (simp add: moved_def)

text \<open>As \<open>moved\<close>, after \<open>x\<close> was written to the stream.\<close>

definition appended :: "('d \<Rightarrow> bytes) \<Rightarrow> bytes \<Rightarrow> 'd dico_stream \<Rightarrow> 'd dico_stream \<Rightarrow> bool" where
  "appended out x s s' \<longleftrightarrow>
     s_buftype s' = s_buftype s \<and> s_bufsize s' = s_bufsize s \<and> s_drv s' = s_drv s \<and> written out s' = written out s @ x \<and>
     s_bytes_out s' + int (length (out (s_data s))) = s_bytes_out s + int (length (out (s_data s')))"

lemma appended_Nil [simp]: "appended out [] s s' \<longleftrightarrow> moved out s s'"
  by (simp add: appended_def moved_def)

lemma appended_trans: "appended out x s s' \<Longrightarrow> appended out y s' s'' \<Longrightarrow> appended out (x @ y) s s''"
  by (simp add: appended_def)

lemma moved_appended: "moved out s s' \<Longrightarrow> appended out y s' s'' \<Longrightarrow> appended out y s s''"
  by (simp add: appended_def moved_def)

section \<open>The contract of a driver that takes bytes\<close>

locale byte_sink =
  fixes wr :: "'d \<Rightarrow> bytes \<Rightarrow> ('d \<times> (int + nat)) option"
    and ok :: "'d \<Rightarrow> bool"
    and out :: "'d \<Rightarrow> bytes"
  assumes write_some:
    "ok d \<Longrightarrow> b \<noteq> [] \<Longrightarrow>
       \<exists>d' n. wr d b = Some (d', Inr n) \<and> 0 < n \<and> n \<le> length b \<and> ok d' \<and> out d' = out d @ take n b"
begin

lemma unbuf_loop:
  "ok (s_data s) \<Longrightarrow>
   \<exists>d. stream_write_unbuf_loop wr s b = Some (s\<lparr>s_data := d, s_bytes_out := s_bytes_out s + int (length b)\<rparr>, 0) \<and>
     ok d \<and> out d = out (s_data s) @ b"
proof (induction "length b" arbitrary: s b rule: less_induct)
  case less
  show ?case
  proof (cases "b = []")
    case True
    with less.prems show ?thesis
      by (subst stream_write_unbuf_loop.simps) (auto intro!: exI [of _ "s_data s"])
  next
    case False
    obtain d n where w: "wr (s_data s) b = Some (d, Inr n)" "0 < n" "n \<le> length b" "ok d" "out d = out (s_data s) @ take n b"
      using write_some [OF less.prems False] by blast
    let ?s = "s\<lparr>s_data := d, s_bytes_out := s_bytes_out s + int n\<rparr>"
    have "length (drop n b) < length b" "ok (s_data ?s)" using w False by auto
    from less.hyps [OF this] obtain d' where
      "stream_write_unbuf_loop wr ?s (drop n b) =
         Some (?s\<lparr>s_data := d', s_bytes_out := s_bytes_out ?s + int (length (drop n b))\<rparr>, 0)"
      "ok d'" "out d' = out (s_data ?s) @ drop n b" by blast
    with w False show ?thesis
      by (subst stream_write_unbuf_loop.simps) (auto simp: not_less)
  qed
qed

lemma write_unbuffered_ok:
  assumes "d_write (s_drv s) = Some wr" "ok (s_data s)" "DICO_STREAM_WRITE \<in> s_flags s" "STR_ERR \<notin> s_flags s"
  shows "\<exists>d e. dico_stream_write_unbuffered s b False =
      Some (s\<lparr>s_data := d, s_bytes_out := s_bytes_out s + int (length b), s_last_err := e\<rparr>, 0, None) \<and>
    ok d \<and> out d = out (s_data s) @ b"
proof (cases "b = []")
  case True
  with assms show ?thesis
    by (auto simp: dico_stream_write_unbuffered_def intro!: exI [of _ "s_data s"] exI [of _ "s_last_err s"])
next
  case False
  obtain d where "stream_write_unbuf_loop wr s b = Some (s\<lparr>s_data := d, s_bytes_out := s_bytes_out s + int (length b)\<rparr>, 0)"
    "ok d" "out d = out (s_data s) @ b" using unbuf_loop [OF assms(2)] by blast
  with assms False show ?thesis
    by (auto simp: dico_stream_write_unbuffered_def stream_seterror_def intro!: exI [of _ d] exI [of _ 0])
qed

lemma flush_chunk:
  assumes "flushing wr ok s" and "n \<le> s_level s"
  shows "\<exists>s'. dico_stream_write_unbuffered s (take n (pending s)) False = Some (s', 0, None) \<and>
    flushing wr ok (stream_advance_buffer s' n) \<and> pending (stream_advance_buffer s' n) = drop n (pending s) \<and>
    moved out s (stream_advance_buffer s' n) \<and> s_level s' = s_level s \<and> s_cur s' = s_cur s"
proof -
  obtain d e where w: "dico_stream_write_unbuffered s (take n (pending s)) False =
      Some (s\<lparr>s_data := d, s_bytes_out := s_bytes_out s + int (length (take n (pending s))), s_last_err := e\<rparr>, 0, None)"
    "ok d" "out d = out (s_data s) @ take n (pending s)"
    using write_unbuffered_ok [of s "take n (pending s)"] assms(1) by (auto simp: flushing_def)
  let ?s = "s\<lparr>s_data := d, s_bytes_out := s_bytes_out s + int (length (take n (pending s))), s_last_err := e\<rparr>"
  have f: "flushing wr ok ?s" using assms(1) w(2) by (auto simp: flushing_def)
  have p: "pending ?s = pending s" by (rule pending_cong) (simp add: same_buffer_def)
  have a: "flushing wr ok (stream_advance_buffer ?s n)" "pending (stream_advance_buffer ?s n) = drop n (pending s)"
    using flushing_advance [OF f, of n] assms(2) p by simp_all
  then have "moved out s (stream_advance_buffer ?s n)"
    using w(3) by (auto simp: moved_def written_def stream_advance_buffer_def)
  with w(1) a show ?thesis by auto
qed

lemma flush_lines_ok:
  "flushing wr ok s \<Longrightarrow>
   \<exists>s'. stream_flush_lines s = Some (s', 0) \<and> flushing wr ok s' \<and> moved out s s' \<and> 0x0a \<notin> set (pending s') \<and>
     s_cur s' + s_level s' = s_cur s + s_level s \<and> s_level s' \<le> s_level s"
proof (induction "s_level s" arbitrary: s rule: less_induct)
  case less
  note win = flushing_window [OF less.prems]
  show ?case
  proof (cases "index_of 0x0a (pending s)")
    case None
    then have "0x0a \<notin> set (pending s)" "stream_flush_lines s = Some (s, 0)"
      using win by (simp, subst stream_flush_lines.simps) (simp del: index_of_None_iff)
    with less.prems show ?thesis by auto
  next
    case (Some i)
    have i: "Suc i \<le> s_level s" using index_of_SomeD [OF Some] win by simp
    obtain s1 where s1: "dico_stream_write_unbuffered s (take (Suc i) (pending s)) False = Some (s1, 0, None)"
      "flushing wr ok (stream_advance_buffer s1 (Suc i))" "moved out s (stream_advance_buffer s1 (Suc i))"
      "s_level s1 = s_level s" "s_cur s1 = s_cur s"
      using flush_chunk [OF less.prems i] by blast
    have "s_level (stream_advance_buffer s1 (Suc i)) < s_level s" using s1(4) i by (simp add: stream_advance_buffer_def)
    from less.hyps [OF this s1(2)] obtain s' where
      "stream_flush_lines (stream_advance_buffer s1 (Suc i)) = Some (s', 0)" "flushing wr ok s'"
      "moved out (stream_advance_buffer s1 (Suc i)) s'" "0x0a \<notin> set (pending s')"
      "s_cur s' + s_level s' = s_cur s + s_level s" "s_level s' \<le> s_level s - Suc i"
      using s1(4,5) i by (auto simp: stream_advance_buffer_def)
    with s1 Some win show ?thesis
      by (subst stream_flush_lines.simps) (auto intro: moved_trans)
  qed
qed

lemma flush_rest:
  assumes "flushing wr ok s"
  shows "\<exists>s1 s'. dico_stream_write_unbuffered s (pending s) False = Some (s1, 0, None) \<and>
    stream_flush_end (stream_advance_buffer s1 (s_level s1)) = Some (s', 0) \<and>
    write_ready wr ok s' \<and> moved out s s' \<and> pending s' = [] \<and> s_level s' = 0"
proof -
  have l: "length (pending s) = s_level s" using flushing_window [OF assms] by simp
  obtain s1 where s1: "dico_stream_write_unbuffered s (take (s_level s) (pending s)) False = Some (s1, 0, None)"
    "flushing wr ok (stream_advance_buffer s1 (s_level s))" "moved out s (stream_advance_buffer s1 (s_level s))"
    "s_level s1 = s_level s" "pending (stream_advance_buffer s1 (s_level s)) = drop (s_level s) (pending s)"
    using flush_chunk [OF assms order_refl] by blast
  let ?s = "stream_advance_buffer s1 (s_level s)"
  have "s_level ?s = 0" using s1(4) by (simp add: stream_advance_buffer_def)
  from stream_flush_end_clean [OF s1(2) this] obtain s' where
    "stream_flush_end ?s = Some (s', 0)" "write_ready wr ok s'" "pending s' = []" "s_level s' = 0" "s_data s' = s_data ?s"
    "s_bytes_out s' = s_bytes_out ?s" "s_buftype s' = s_buftype ?s" "s_drv s' = s_drv ?s" "s_bufsize s' = s_bufsize ?s"
    by blast
  moreover from this have "moved out ?s s'" using s1(5) l by (simp add: moved_def written_def)
  ultimately show ?thesis using s1 l by (auto intro: moved_trans)
qed

lemma flush_switch_ok:
  assumes "flushing wr ok s"
  shows "\<exists>s'. stream_flush_switch s all = Some (s', 0) \<and> write_ready wr ok s' \<and> moved out s s' \<and>
    (all \<or> BUFFER_FULL_P s \<or> s_buftype s = dico_buffer_full \<longrightarrow> s_level s' = 0) \<and>
    (s_buftype s = dico_buffer_line \<longrightarrow> 0x0a \<notin> set (pending s')) \<and> (s_level s < s_bufsize s \<longrightarrow> s_level s' < s_bufsize s')"
proof (cases "s_buftype s")
  case dico_buffer_none
  with assms show ?thesis by (simp add: flushing_def)
next
  case dico_buffer_full
  from flush_rest [OF assms] obtain s1 s' where
    "dico_stream_write_unbuffered s (pending s) False = Some (s1, 0, None)"
    "stream_flush_end (stream_advance_buffer s1 (s_level s1)) = Some (s', 0)"
    "write_ready wr ok s'" "moved out s s'" "pending s' = []" "s_level s' = 0" by blast
  with dico_buffer_full flushing_window [OF assms] assms show ?thesis
    by (auto simp: stream_flush_switch_def moved_def flushing_def)
next
  case dico_buffer_line
  show ?thesis
  proof (cases "s_level s = 0")
    case True
    from stream_flush_end_clean [OF assms True] obtain s' where
      "stream_flush_end s = Some (s', 0)" "write_ready wr ok s'" "pending s' = []" "s_level s' = 0" "s_data s' = s_data s"
      "s_bytes_out s' = s_bytes_out s" "s_buftype s' = s_buftype s" "s_drv s' = s_drv s" "s_bufsize s' = s_bufsize s"
      by blast
    moreover have "pending s = []" using flushing_window [OF assms] True by simp
    ultimately show ?thesis
      using dico_buffer_line True assms by (auto simp: stream_flush_switch_def moved_def written_def flushing_def)
  next
    case False
    obtain s1 where s1: "stream_flush_lines s = Some (s1, 0)" "flushing wr ok s1" "moved out s s1" "0x0a \<notin> set (pending s1)"
      "s_cur s1 + s_level s1 = s_cur s + s_level s" "s_level s1 \<le> s_level s"
      using flush_lines_ok [OF assms] by blast
    have bt: "s_buftype s1 = s_buftype s" "s_bufsize s1 = s_bufsize s" using s1(3) by (simp_all add: moved_def)
    have full: "BUFFER_FULL_P s1 \<longleftrightarrow> BUFFER_FULL_P s" using s1(5) bt by (simp add: BUFFER_FULL_P_def)
    show ?thesis
    proof (cases "(all \<and> s_level s1 \<noteq> 0) \<or> BUFFER_FULL_P s1")
      case True
      from flush_rest [OF s1(2)] obtain s2 s' where
        "dico_stream_write_unbuffered s1 (pending s1) False = Some (s2, 0, None)"
        "stream_flush_end (stream_advance_buffer s2 (s_level s2)) = Some (s', 0)"
        "write_ready wr ok s'" "moved out s1 s'" "pending s' = []" "s_level s' = 0" by blast
      with True dico_buffer_line False s1(1,3) flushing_window [OF s1(2)] assms show ?thesis
        by (auto simp: stream_flush_switch_def flushing_def moved_def intro: moved_trans)
    next
      case nofull: False
      obtain s' where s': "stream_flush_end s1 = Some (s', 0)" "write_ready wr ok s'" "pending s' = pending s1"
        "s_level s' = s_level s1" "moved out s1 s'"
      proof (cases "s_level s1 = 0")
        case True
        then have "pending s1 = []" using flushing_window [OF s1(2)] by simp
        with stream_flush_end_clean [OF s1(2) True] True show ?thesis
          by (auto simp: moved_def written_def intro: that)
      next
        case False
        from stream_flush_end_rest [OF s1(2) False] show ?thesis
          by (auto simp: moved_def written_def intro: that)
      qed
      have "s_bufsize s' = s_bufsize s" using s'(5) bt by (simp add: moved_def)
      then show ?thesis
        using s' nofull dico_buffer_line False s1(1,3,4,6) full assms
        by (auto simp: stream_flush_switch_def flushing_def intro: moved_trans)
    qed
  qed
qed

lemma flush_buffer_ok:
  assumes "write_ready wr ok s"
  shows "\<exists>s'. stream_flush_buffer s all = Some (s', 0) \<and> write_ready wr ok s' \<and> moved out s s' \<and>
    (all \<or> BUFFER_FULL_P s \<longrightarrow> s_level s' = 0) \<and> (s_buftype s = dico_buffer_line \<longrightarrow> 0x0a \<notin> set (pending s')) \<and>
    (s_level s < s_bufsize s \<longrightarrow> s_level s' < s_bufsize s')"
proof (cases "STR_DIRTY \<in> s_flags s")
  case True
  have "stream_flush_buffer s all = stream_flush_switch s all"
    using assms True by (subst stream_flush_buffer.simps) (auto simp: write_ready_def)
  with flush_switch_ok [OF write_ready_flushing [OF assms True], of all] show ?thesis by auto
next
  case False
  then have l: "s_level s = 0" "pending s = []" using assms write_ready_window [OF assms] by (auto simp: write_ready_def)
  let ?s = "s\<lparr>s_flags := s_flags s - {STR_DIRTY}, s_level := 0, s_cur := 0\<rparr>"
  have "stream_flush_buffer s all = Some (?s, 0)"
    using False l by (subst stream_flush_buffer.simps) (simp add: stream_flush_end_def)
  moreover have r: "write_ready wr ok ?s" using assms by (auto simp: write_ready_def)
  moreover have "pending ?s = []" using write_ready_window [OF r] by simp
  moreover from this have "moved out s ?s" using l by (simp add: moved_def written_def)
  ultimately show ?thesis using l by auto
qed

text \<open>One copy into the buffer.\<close>

lemma write_copy:
  assumes "write_ready wr ok s" and "s_buffer s = Some b" and "s_buftype s \<noteq> dico_buffer_none" and "n \<le> s_bufsize s - s_level s"
    and "n \<le> length buf"
  defines "s' \<equiv> s\<lparr>s_buffer := Some (take (s_level s) b @ take n buf @ drop (s_level s + n) b),
           s_level := s_level s + n, s_flags := insert STR_DIRTY (s_flags s)\<rparr>"
  shows "s_level s + n \<le> length b" and "write_ready wr ok s'" and "appended out (take n buf) s s'"
proof -
  have b: "length b = s_bufsize s" "s_level s \<le> s_bufsize s" "s_cur s = 0" using assms(1-3) by (auto simp: write_ready_def)
  then show A: "s_level s + n \<le> length b" using assms(4) by simp
  then show "write_ready wr ok s'" unfolding s'_def using assms(1,3,5) b by (auto simp: write_ready_def)
  have "pending s = take (s_level s) b" using b assms(2) by (simp add: pending_def stream_window_def)
  moreover have "pending s' = take (s_level s) b @ take n buf"
    using b A assms(5) by (simp add: pending_def stream_window_def s'_def)
  ultimately show "appended out (take n buf) s s'" by (simp add: appended_def written_def s'_def)
qed

lemma write_loop_ok:
  "write_ready wr ok s \<Longrightarrow> s_buftype s \<noteq> dico_buffer_none \<Longrightarrow>
   \<exists>s'. stream_write_loop s buf = Some (s', 0) \<and> write_ready wr ok s' \<and> appended out buf s s' \<and>
     (s_buftype s = dico_buffer_line \<longrightarrow> 0x0a \<notin> set (pending s')) \<and> s_level s' < s_bufsize s'"
proof (induction "length buf" arbitrary: s buf rule: less_induct)
  case less
  note ready = less.prems(1)
  have win: "stream_window s = Some (pending s)" using write_ready_window [OF ready] by simp
  have cur: "s_cur s = 0" "s_level s \<le> s_bufsize s" "0 < s_bufsize s" using less.prems by (auto simp: write_ready_def)
  obtain full where full: "stream_buffer_full_p s = Some full"
    "full \<longleftrightarrow> BUFFER_FULL_P s \<or> s_buftype s = dico_buffer_line \<and> 0x0a \<in> set (pending s)"
    using less.prems(2) win by (cases "s_buftype s") (auto simp: stream_buffer_full_p_def)
  obtain s1 where s1: "(if full then stream_flush_buffer s False else Some (s, 0)) = Some (s1, 0)" "write_ready wr ok s1"
    "moved out s s1" "s_buftype s = dico_buffer_line \<longrightarrow> 0x0a \<notin> set (pending s1)" "s_level s1 < s_bufsize s1"
  proof (cases full)
    case True
    obtain s1 where "stream_flush_buffer s False = Some (s1, 0)" "write_ready wr ok s1" "moved out s s1"
      "BUFFER_FULL_P s \<longrightarrow> s_level s1 = 0" "s_buftype s = dico_buffer_line \<longrightarrow> 0x0a \<notin> set (pending s1)"
      "s_level s < s_bufsize s \<longrightarrow> s_level s1 < s_bufsize s1"
      using flush_buffer_ok [OF ready, of False] by blast
    moreover have "s_bufsize s1 = s_bufsize s" using \<open>moved out s s1\<close> by (simp add: moved_def)
    ultimately show ?thesis using True cur that [of s1] by (cases "BUFFER_FULL_P s") (auto simp: BUFFER_FULL_P_def)
  next
    case False
    with full(2) cur ready show ?thesis by (intro that [of s]) (auto simp: BUFFER_FULL_P_def)
  qed
  have bt: "s_buftype s1 = s_buftype s" using s1(3) by (simp add: moved_def)
  show ?case
  proof (cases "buf = []")
    case True
    have "stream_write_loop s buf = Some (s1, 0)"
      using full(1) s1(1) True by (subst stream_write_loop.simps) simp
    with s1 True show ?thesis by auto
  next
    case False
    obtain b where b: "s_buffer s1 = Some b" using s1(2) less.prems(2) bt by (auto simp: write_ready_def)
    define n where "n = min (s_bufsize s1 - s_level s1) (length buf)"
    have n: "0 < n" "n \<le> s_bufsize s1 - s_level s1" "n \<le> length buf" using s1(5) False by (auto simp: n_def)
    have c1: "s_cur s1 = 0" "s_level s1 \<le> s_bufsize s1" using s1(2,5) by (auto simp: write_ready_def)
    let ?s = "s1\<lparr>s_buffer := Some (take (s_level s1) b @ take n buf @ drop (s_level s1 + n) b),
           s_level := s_level s1 + n, s_flags := insert STR_DIRTY (s_flags s1)\<rparr>"
    have bt1: "s_buftype s1 \<noteq> dico_buffer_none" using less.prems(2) bt by simp
    note copy = write_copy [OF s1(2) b bt1 n(2,3)]
    have step: "stream_write_loop s buf = stream_write_loop ?s (drop n buf)"
      using full(1) s1(1) False b c1 copy(1)
      by (subst stream_write_loop.simps) (simp add: Let_def n_def [symmetric] not_less)
    have "length (drop n buf) < length buf" using n False by simp
    from less.hyps [OF this copy(2)] bt1 obtain s' where
      "stream_write_loop ?s (drop n buf) = Some (s', 0)" "write_ready wr ok s'" "appended out (drop n buf) ?s s'"
      "s_buftype s1 = dico_buffer_line \<longrightarrow> 0x0a \<notin> set (pending s')" "s_level s' < s_bufsize s'" by auto
    then show ?thesis
      using step bt moved_appended [OF s1(3) appended_trans [OF copy(3)], of "drop n buf" s'] by auto
  qed
qed

lemma stream_write_ok:
  assumes "write_ready wr ok s"
  shows "\<exists>s'. dico_stream_write s buf = Some (s', 0) \<and> write_ready wr ok s' \<and> appended out buf s s' \<and>
    (s_buftype s = dico_buffer_line \<longrightarrow> 0x0a \<notin> set (pending s'))"
proof (cases "s_buftype s = dico_buffer_none")
  case True
  obtain d e where w: "dico_stream_write_unbuffered s buf False =
      Some (s\<lparr>s_data := d, s_bytes_out := s_bytes_out s + int (length buf), s_last_err := e\<rparr>, 0, None)"
    "ok d" "out d = out (s_data s) @ buf"
    using write_unbuffered_ok [of s buf] assms by (auto simp: write_ready_def)
  let ?s = "s\<lparr>s_data := d, s_bytes_out := s_bytes_out s + int (length buf), s_last_err := e\<rparr>"
  have r: "write_ready wr ok ?s" using assms w(2) by (auto simp: write_ready_def)
  have "pending s = []" "pending ?s = []"
    using write_ready_window [OF assms] write_ready_window [OF r] assms True by (auto simp: write_ready_def)
  then have "appended out buf s ?s" using w(3) by (simp add: appended_def written_def)
  with r w(1) True show ?thesis by (auto simp: dico_stream_write_def)
next
  case False
  with write_loop_ok [OF assms False, of buf] assms show ?thesis by (auto simp: dico_stream_write_def write_ready_def)
qed

lemma stream_flush_ok:
  assumes "write_ready wr ok s"
  shows "\<exists>s'. stream_flush_buffer s True = Some (s', 0) \<and> write_ready wr ok s' \<and> moved out s s' \<and> pending s' = []"
  using flush_buffer_ok [OF assms, of True] write_ready_window by fastforce

end

text \<open>A driver that also has a flush function, which may move bytes further but loses none.\<close>

locale flushed_sink = byte_sink wr ok out
  for wr :: "'d \<Rightarrow> bytes \<Rightarrow> ('d \<times> (int + nat)) option" and ok :: "'d \<Rightarrow> bool" and out :: "'d \<Rightarrow> bytes" +
  fixes fl :: "('d \<Rightarrow> ('d \<times> int) option) option"
  assumes flush_keeps: "fl = Some f \<Longrightarrow> ok d \<Longrightarrow> \<exists>d'. f d = Some (d', 0) \<and> ok d' \<and> out d' = out d"
begin

lemma dico_stream_flush_ok:
  assumes "write_ready wr ok s" and "d_flush (s_drv s) = fl"
  shows "\<exists>s'. dico_stream_flush s = Some (s', 0) \<and> write_ready wr ok s' \<and> moved out s s' \<and> pending s' = []"
proof -
  obtain s1 where s1: "stream_flush_buffer s True = Some (s1, 0)" "write_ready wr ok s1" "moved out s s1" "pending s1 = []"
    using stream_flush_ok [OF assms(1)] by blast
  have fl1: "d_flush (s_drv s1) = fl" using s1(3) assms(2) by (simp add: moved_def)
  show ?thesis
  proof (cases fl)
    case None
    with s1 fl1 show ?thesis by (auto simp: dico_stream_flush_def stream_call_flush_def)
  next
    case (Some f)
    have "ok (s_data s1)" using s1(2) by (simp add: write_ready_def)
    from flush_keeps [OF Some this] obtain d' where d: "f (s_data s1) = Some (d', 0)" "ok d'" "out d' = out (s_data s1)" by blast
    let ?s = "s1\<lparr>s_data := d'\<rparr>"
    have r: "write_ready wr ok ?s" using s1(2) d(2) by (auto simp: write_ready_def)
    have "pending ?s = []" using pending_cong [of s1 ?s] s1(4) by (simp add: same_buffer_def)
    moreover from this have "moved out s1 ?s" using d(3) s1(4) by (simp add: moved_def written_def)
    ultimately show ?thesis
      using s1 fl1 Some d r by (auto simp: dico_stream_flush_def stream_call_flush_def intro: moved_trans)
  qed
qed

lemma write_then_flush:
  assumes "write_ready wr ok s" and "d_flush (s_drv s) = fl"
  shows "\<exists>s' s''. dico_stream_write s buf = Some (s', 0) \<and> write_ready wr ok s' \<and> written out s' = written out s @ buf \<and>
    (s_buftype s = dico_buffer_line \<longrightarrow> 0x0a \<notin> set (pending s')) \<and>
    dico_stream_flush s' = Some (s'', 0) \<and> write_ready wr ok s'' \<and> out (s_data s'') = written out s @ buf \<and>
    s_bytes_out s'' = s_bytes_out s + int (length (pending s @ buf))"
proof -
  obtain s' where s': "dico_stream_write s buf = Some (s', 0)" "write_ready wr ok s'" "appended out buf s s'"
    "s_buftype s = dico_buffer_line \<longrightarrow> 0x0a \<notin> set (pending s')" using stream_write_ok [OF assms(1)] by blast
  have "d_flush (s_drv s') = fl" using s'(3) assms(2) by (simp add: appended_def)
  from dico_stream_flush_ok [OF s'(2) this] obtain s'' where
    s'': "dico_stream_flush s' = Some (s'', 0)" "write_ready wr ok s''" "moved out s' s''" "pending s'' = []" by blast
  have "out (s_data s'') = written out s @ buf" using s''(3,4) s'(3) by (simp add: moved_def appended_def written_def)
  moreover from this have "s_bytes_out s'' = s_bytes_out s + int (length (pending s @ buf))"
    using s''(3) s'(3) by (simp add: moved_def appended_def written_def)
  moreover have "written out s' = written out s @ buf" using s'(3) by (simp add: appended_def)
  ultimately show ?thesis using s' s'' by blast
qed

end

section \<open>Streams that are read\<close>

definition read_ready ::
  "('d \<Rightarrow> nat \<Rightarrow> ('d \<times> (int + bytes)) option) \<Rightarrow> ('d \<Rightarrow> bool) \<Rightarrow> ('d \<Rightarrow> bytes) \<Rightarrow> 'd dico_stream \<Rightarrow> bool" where
  "read_ready rd ok inp s \<longleftrightarrow>
     d_read (s_drv s) = Some rd \<and> ok (s_data s) \<and> DICO_STREAM_READ \<in> s_flags s \<and> STR_ERR \<notin> s_flags s \<and>
     (STR_EOF \<in> s_flags s \<longrightarrow> inp (s_data s) = []) \<and>
     (s_buftype s \<noteq> dico_buffer_none \<longrightarrow>
        0 < s_bufsize s \<and> s_cur s + s_level s \<le> s_bufsize s \<and> (\<exists>b. s_buffer s = Some b \<and> length b = s_bufsize s)) \<and>
     (s_buftype s = dico_buffer_none \<longrightarrow> s_level s = 0 \<and> s_buffer s = None)"

text \<open>What can still be read: the buffered bytes, then the driver's.\<close>

definition remaining :: "('d \<Rightarrow> bytes) \<Rightarrow> 'd dico_stream \<Rightarrow> bytes" where
  "remaining inp s = pending s @ inp (s_data s)"

lemma read_ready_window:
  "read_ready rd ok inp s \<Longrightarrow> stream_window s = Some (pending s) \<and> length (pending s) = s_level s"
  by (cases "s_buftype s = dico_buffer_none") (auto simp: read_ready_def pending_def stream_window_def)

locale byte_source =
  fixes rd :: "'d \<Rightarrow> nat \<Rightarrow> ('d \<times> (int + bytes)) option"
    and ok :: "'d \<Rightarrow> bool"
    and inp :: "'d \<Rightarrow> bytes"
  assumes read_some:
    "ok d \<Longrightarrow> 0 < n \<Longrightarrow>
       \<exists>d' bs. rd d n = Some (d', Inr bs) \<and> length bs \<le> n \<and> ok d' \<and> inp d = bs @ inp d' \<and> (bs = [] \<longrightarrow> inp d = [])"
begin

lemma read_unbuffered_byte:
  assumes "read_ready rd ok inp s" and "inp (s_data s) = c # r"
  shows "\<exists>d e k. dico_stream_read_unbuffered s 1 False =
      Some (s\<lparr>s_data := d, s_bytes_in := k, s_last_err := e\<rparr>, 0, [c]) \<and> ok d \<and> inp d = r"
proof -
  have s: "d_read (s_drv s) = Some rd" "ok (s_data s)" "DICO_STREAM_READ \<in> s_flags s" "STR_ERR \<notin> s_flags s" "STR_EOF \<notin> s_flags s"
    using assms by (auto simp: read_ready_def)
  obtain d bs where d: "rd (s_data s) 1 = Some (d, Inr bs)" "length bs \<le> 1" "ok d" "inp (s_data s) = bs @ inp d" "bs \<noteq> []"
    using read_some [OF s(2), of 1] assms(2) by auto
  then have bs: "bs = [c]" "inp d = r" using assms(2) by (cases bs; auto)+
  have "stream_read_loop rd s 1 [] = Some (s\<lparr>s_data := d, s_bytes_in := s_bytes_in s + 1\<rparr>, [c], 0)"
    using d bs by (simp add: stream_read_loop.simps)
  with s d(3) bs show ?thesis
    by (auto simp: dico_stream_read_unbuffered_def stream_seterror_def)
qed

text \<open>Filling a line buffer when a newline lies ahead.\<close>

lemma fill_line_ok:
  "read_ready rd ok inp s \<Longrightarrow> s_buffer s = Some b \<Longrightarrow> length b = lim \<Longrightarrow> n \<le> lim \<Longrightarrow> 0x0a \<in> set (inp (s_data s)) \<Longrightarrow>
   \<exists>d e k m. stream_fill_line lim s n =
       Some (s\<lparr>s_data := d, s_bytes_in := m, s_last_err := e,
               s_buffer := Some (take n b @ take k (inp (s_data s)) @ drop (n + k) b)\<rparr>, n + k, 0) \<and>
     ok d \<and> inp d = drop k (inp (s_data s)) \<and> k \<le> length (inp (s_data s)) \<and> n + k \<le> lim \<and> (n < lim \<longrightarrow> 0 < k)"
proof (induction "lim - n" arbitrary: s b n rule: less_induct)
  case less
  show ?case
  proof (cases "n < lim")
    case False
    with less.prems have "stream_fill_line lim s n = Some (s, n, 0)" by (subst stream_fill_line.simps) simp
    moreover have "s = s\<lparr>s_data := s_data s, s_bytes_in := s_bytes_in s, s_last_err := s_last_err s, s_buffer := Some b\<rparr>"
      using less.prems(2) by simp
    moreover have "ok (s_data s)" using less.prems(1) by (simp add: read_ready_def)
    ultimately show ?thesis
      using False less.prems by (intro exI [of _ "s_data s"] exI [of _ "s_last_err s"] exI [of _ 0] exI [of _ "s_bytes_in s"]) simp
  next
    case True
    obtain c r where c: "inp (s_data s) = c # r" using less.prems(5) by (cases "inp (s_data s)") auto
    obtain d e m where rd: "dico_stream_read_unbuffered s 1 False =
        Some (s\<lparr>s_data := d, s_bytes_in := m, s_last_err := e\<rparr>, 0, [c])" "ok d" "inp d = r"
      using read_unbuffered_byte [OF less.prems(1) c] by blast
    let ?s = "s\<lparr>s_data := d, s_bytes_in := m, s_last_err := e, s_buffer := Some (b[n := c])\<rparr>"
    have bn: "n < length b" using True less.prems(3) by simp
    have b1: "b[n := c] = take n b @ [c] @ drop (Suc n) b" using bn by (simp add: upd_conv_take_nth_drop)
    show ?thesis
    proof (cases "c = 0x0a")
      case nl: True
      have "stream_fill_line lim s n = Some (?s, n + 1, 0)"
        using True less.prems(2) rd(1) nl bn by (subst stream_fill_line.simps) (simp add: Let_def)
      with rd c b1 True show ?thesis
        by (intro exI [of _ d] exI [of _ e] exI [of _ 1] exI [of _ m]) auto
    next
      case nnl: False
      have step: "stream_fill_line lim s n = stream_fill_line lim ?s (n + 1)"
        using True less.prems(2) rd(1) nnl bn by (subst stream_fill_line.simps) (simp add: Let_def)
      have ready: "read_ready rd ok inp ?s" using less.prems(1,2) rd(2,3) c by (auto simp: read_ready_def)
      have nl: "0x0a \<in> set (inp (s_data ?s))" using less.prems(5) c nnl rd(3) by auto
      have lt: "lim - (n + 1) < lim - n" "s_buffer ?s = Some (b[n := c])" "length (b[n := c]) = lim" "n + 1 \<le> lim"
        using True less.prems(3) by simp_all
      from less.hyps [OF lt(1) ready lt(2-4) nl] obtain d' e' k m' where
        ih: "stream_fill_line lim ?s (n + 1) =
            Some (?s\<lparr>s_data := d', s_bytes_in := m', s_last_err := e',
              s_buffer := Some (take (n + 1) (b[n := c]) @ take k r @ drop (n + 1 + k) (b[n := c]))\<rparr>, n + 1 + k, 0)"
        "ok d'" "inp d' = drop k r" "k \<le> length r" "n + 1 + k \<le> lim"
        unfolding rd(3) [symmetric] by auto
      have "take (n + 1) (b[n := c]) @ take k r @ drop (n + 1 + k) (b[n := c]) =
          take n b @ take (Suc k) (inp (s_data s)) @ drop (n + Suc k) b"
        using bn c by (simp add: b1 add.commute)
      with step ih c show ?thesis
        by (intro exI [of _ d'] exI [of _ e'] exI [of _ "Suc k"] exI [of _ m']) simp
    qed
  qed
qed

lemma fill_buffer_ok:
  assumes "read_ready rd ok inp s" and "s_level s = 0" and "s_buftype s \<noteq> dico_buffer_none" and "inp (s_data s) \<noteq> []"
    and "s_buftype s = dico_buffer_line \<Longrightarrow> 0x0a \<in> set (inp (s_data s))"
  shows "\<exists>s'. stream_fill_buffer s = Some (s', 0) \<and> read_ready rd ok inp s' \<and> 0 < s_level s' \<and>
    remaining inp s' = remaining inp s \<and> s_buftype s' = s_buftype s"
proof -
  obtain b where b: "s_buffer s = Some b" "length b = s_bufsize s" "0 < s_bufsize s"
    using assms(1,3) by (auto simp: read_ready_def)
  have rem: "remaining inp s = inp (s_data s)"
    using read_ready_window [OF assms(1)] assms(2) by (simp add: remaining_def)
  show ?thesis
  proof (cases "s_buftype s")
    case dico_buffer_none
    with assms(3) show ?thesis by simp
  next
    case dico_buffer_line
    obtain d e k m where f: "stream_fill_line (s_bufsize s) s 0 =
        Some (s\<lparr>s_data := d, s_bytes_in := m, s_last_err := e,
               s_buffer := Some (take k (inp (s_data s)) @ drop k b)\<rparr>, k, 0)"
      "ok d" "inp d = drop k (inp (s_data s))" "k \<le> length (inp (s_data s))" "k \<le> s_bufsize s" "0 < k"
      using fill_line_ok [OF assms(1) b(1,2), of 0] b(3) assms(5) dico_buffer_line by auto
    let ?s = "s\<lparr>s_data := d, s_bytes_in := m, s_last_err := e,
               s_buffer := Some (take k (inp (s_data s)) @ drop k b), s_level := k, s_cur := 0\<rparr>"
    have "stream_fill_buffer s = Some (?s, 0)" using dico_buffer_line f(1) by (simp add: stream_fill_buffer_def)
    moreover have r: "read_ready rd ok inp ?s" using assms(1) f b dico_buffer_line by (auto simp: read_ready_def)
    moreover have "remaining inp ?s = remaining inp s"
      using f rem b by (simp add: remaining_def pending_def stream_window_def)
    ultimately show ?thesis using f(6) by (intro exI [of _ ?s]) simp
  next
    case dico_buffer_full
    have s: "d_read (s_drv s) = Some rd" "ok (s_data s)" "DICO_STREAM_READ \<in> s_flags s" "STR_ERR \<notin> s_flags s" "STR_EOF \<notin> s_flags s"
      using assms(1,4) by (auto simp: read_ready_def)
    obtain d bs where d: "rd (s_data s) (s_bufsize s) = Some (d, Inr bs)" "length bs \<le> s_bufsize s" "ok d"
      "inp (s_data s) = bs @ inp d" "bs \<noteq> []"
      using read_some [OF s(2) b(3)] assms(4) by blast
    let ?s = "s\<lparr>s_data := d, s_bytes_in := s_bytes_in s + int (length bs), s_last_err := 0,
        s_buffer := Some (bs @ drop (length bs) b), s_level := length bs, s_cur := 0\<rparr>"
    have "dico_stream_read_unbuffered s (s_bufsize s) True =
        Some (s\<lparr>s_data := d, s_bytes_in := s_bytes_in s + int (length bs), s_last_err := 0\<rparr>, 0, bs)"
      using s d b(3) by (auto simp: dico_stream_read_unbuffered_def stream_seterror_def)
    then have "stream_fill_buffer s = Some (?s, 0)"
      using dico_buffer_full b d(2) by (simp add: stream_fill_buffer_def)
    moreover have r: "read_ready rd ok inp ?s" using assms(1) d b dico_buffer_full s(5) by (auto simp: read_ready_def)
    moreover have "remaining inp ?s = remaining inp s"
      using d rem b by (simp add: remaining_def pending_def stream_window_def)
    ultimately show ?thesis using d(5) by (intro exI [of _ ?s]) simp
  qed
qed

text \<open>Reading one byte.\<close>

lemma read_byte_ok:
  assumes "read_ready rd ok inp s" and "remaining inp s = c # r"
    and "s_buftype s = dico_buffer_line \<Longrightarrow> 0x0a \<in> set (c # r)"
  shows "\<exists>s'. dico_stream_read s 1 False = Some (s', 0, [c]) \<and> read_ready rd ok inp s' \<and> remaining inp s' = r \<and>
    s_buftype s' = s_buftype s"
proof (cases "s_buftype s = dico_buffer_none")
  case True
  then have p: "s_level s = 0" "pending s = []" using assms(1) read_ready_window [OF assms(1)] by (auto simp: read_ready_def)
  then have "inp (s_data s) = c # r" using assms(2) by (simp add: remaining_def)
  from read_unbuffered_byte [OF assms(1) this] obtain d e k where u: "dico_stream_read_unbuffered s 1 False =
      Some (s\<lparr>s_data := d, s_bytes_in := k, s_last_err := e\<rparr>, 0, [c])" "ok d" "inp d = r" by blast
  let ?s = "s\<lparr>s_data := d, s_bytes_in := k, s_last_err := e\<rparr>"
  have "read_ready rd ok inp ?s" using assms(1) u True \<open>inp (s_data s) = c # r\<close> by (auto simp: read_ready_def)
  moreover have "remaining inp ?s = r"
    using pending_cong [of s ?s] p(2) u(3) by (simp add: remaining_def same_buffer_def)
  ultimately show ?thesis using u(1) True by (auto simp: dico_stream_read_def)
next
  case False
  obtain s1 where s1: "(if s_level s = 0 then stream_fill_buffer s else Some (s, 0)) = Some (s1, 0)"
    "read_ready rd ok inp s1" "0 < s_level s1" "remaining inp s1 = remaining inp s" "s_buftype s1 = s_buftype s"
  proof (cases "s_level s = 0")
    case True
    then have "pending s = []" using read_ready_window [OF assms(1)] by simp
    then have "inp (s_data s) = c # r" using assms(2) by (simp add: remaining_def)
    with fill_buffer_ok [OF assms(1) True False] assms(3) True show ?thesis by (auto intro: that)
  qed (use assms in \<open>auto intro: that\<close>)
  have w: "stream_window s1 = Some (pending s1)" "length (pending s1) = s_level s1" using read_ready_window [OF s1(2)] by simp_all
  then obtain p where p: "pending s1 = c # p" using s1(3,4) assms(2) by (cases "pending s1") (auto simp: remaining_def)
  let ?s = "stream_advance_buffer s1 1"
  have one: "min 1 (s_level s1) = 1" using s1(3) by simp
  have "stream_read_buffered s 1 [] = Some (?s, Inr ([c], 0))"
    using s1(1,3) w(1) p one by (subst stream_read_buffered.simps) (auto simp: Let_def stream_read_buffered.simps [of _ 0])
  then have "dico_stream_read s 1 False = Some (?s, 0, [c])"
    using False assms(1) by (auto simp: dico_stream_read_def read_ready_def)
  moreover have "read_ready rd ok inp ?s" using s1(2,3,5) False by (auto simp: read_ready_def stream_advance_buffer_def)
  moreover have "pending ?s = p"
  proof -
    obtain b where "s_buffer s1 = Some b" using s1(2,5) False by (auto simp: read_ready_def)
    moreover from this have "tl (take (s_level s1) (drop (s_cur s1) b)) = p"
      using w p by (simp add: stream_window_def split: if_splits)
    ultimately show ?thesis
      using w s1(3) by (auto simp: stream_window_def pending_def stream_advance_buffer_def drop_Suc tl_drop tl_take split: if_splits)
  qed
  moreover from this have "remaining inp ?s = r"
    using s1(4) assms(2) p by (auto simp: remaining_def stream_advance_buffer_def)
  ultimately show ?thesis using s1(5) by (auto simp: stream_advance_buffer_def)
qed

lemma getdelim_loop_ok:
  "read_ready rd ok inp s \<Longrightarrow> remaining inp s = l @ delim # r \<Longrightarrow> delim \<notin> set l \<Longrightarrow>
   (s_buftype s = dico_buffer_line \<Longrightarrow> delim = 0x0a) \<Longrightarrow> (\<And>k. alloc k) \<Longrightarrow> length line < n \<Longrightarrow> length line + length l < 2 ^ 62 \<Longrightarrow>
   \<exists>s' n'. stream_getdelim_loop alloc delim s n line = Some (s', 0, line @ l @ [delim], n') \<and>
     read_ready rd ok inp s' \<and> remaining inp s' = r \<and> length (line @ l @ [delim]) < n' \<and> s_buftype s' = s_buftype s"
proof (induction l arbitrary: s n line)
  case Nil
  obtain s1 where s1: "dico_stream_read s 1 False = Some (s1, 0, [delim])" "read_ready rd ok inp s1" "remaining inp s1 = r"
    "s_buftype s1 = s_buftype s" using read_byte_ok [OF Nil.prems(1), of delim r] Nil.prems(2,4) by auto
  have "stream_getdelim_loop alloc delim s n line =
      Some (s1, 0, line @ [delim], if length line + 1 \<ge> n then min (2 ^ 63) (2 * n + 1) else n)"
    using s1(1) Nil.prems(5-7) by (subst stream_getdelim_loop.simps) (auto simp: Let_def)
  with s1 Nil.prems(6,7) show ?case by auto
next
  case (Cons c l)
  have rem: "remaining inp s = c # l @ delim # r" using Cons.prems(2) by simp
  obtain s1 where s1: "dico_stream_read s 1 False = Some (s1, 0, [c])" "read_ready rd ok inp s1"
    "remaining inp s1 = l @ delim # r" "s_buftype s1 = s_buftype s"
    using read_byte_ok [OF Cons.prems(1) rem] Cons.prems(4) by auto
  let ?n = "if length line + 1 \<ge> n then min (2 ^ 63) (2 * n + 1) else n"
  have c: "c \<noteq> delim" "delim \<notin> set l" using Cons.prems(3) by auto
  have step: "stream_getdelim_loop alloc delim s n line = stream_getdelim_loop alloc delim s1 ?n (line @ [c])"
    using s1(1) Cons.prems(5-7) c by (subst stream_getdelim_loop.simps) (auto simp: Let_def)
  have len: "length (line @ [c]) < ?n" using Cons.prems(6,7) by auto
  have "\<exists>s' n'. stream_getdelim_loop alloc delim s1 ?n (line @ [c]) = Some (s', 0, (line @ [c]) @ l @ [delim], n') \<and>
     read_ready rd ok inp s' \<and> remaining inp s' = r \<and> length ((line @ [c]) @ l @ [delim]) < n' \<and> s_buftype s' = s_buftype s1"
    by (rule Cons.IH [OF s1(2,3) c(2)]) (use Cons.prems(4,5,7) s1(4) len in auto)
  with step s1(4) show ?case by (simp only: append_assoc append_Cons append_Nil)
qed

lemma getline_ok:
  assumes "read_ready rd ok inp s" and "remaining inp s = l @ 0x0a # r" and "0x0a \<notin> set l" and "\<And>k. alloc k"
    and "length l < 2 ^ 62"
  shows "\<exists>s' n. dico_stream_getline alloc s psize = Some (s', 0, l @ [0x0a], n) \<and> read_ready rd ok inp s' \<and>
    remaining inp s' = r \<and> length l + 1 < n \<and> s_buftype s' = s_buftype s"
  using getdelim_loop_ok [OF assms(1-3), where line = "[]"] assms(4,5)
  by (auto simp: dico_stream_getline_def dico_stream_getdelim_def Let_def split: option.split)

text \<open>At the end of the input an unbuffered stream fails, and so does reading a line.\<close>

lemma getline_at_end:
  assumes "read_ready rd ok inp s" and "remaining inp s = []" and "\<And>k. alloc k" and "s_buftype s = dico_buffer_none"
  shows "\<exists>s' rc bs n. dico_stream_getline alloc s psize = Some (s', rc, bs, n) \<and> rc \<noteq> 0"
proof -
  have s: "d_read (s_drv s) = Some rd" "ok (s_data s)" "inp (s_data s) = []" "DICO_STREAM_READ \<in> s_flags s" "STR_ERR \<notin> s_flags s"
    using assms(1,2) by (auto simp: read_ready_def remaining_def)
  obtain d where d: "rd (s_data s) 1 = Some (d, Inr [])"
    using read_some [OF s(2), of 1] s(3) by auto
  then have "\<exists>s'. dico_stream_read s 1 False = Some (s', errcode EIO, [])"
    using s assms(4) by (auto simp: dico_stream_read_def dico_stream_read_unbuffered_def stream_read_loop.simps)
  then obtain s' where "dico_stream_read s 1 False = Some (s', errcode EIO, [])" by blast
  then have "stream_getdelim_loop alloc 0x0a s n [] = Some (s', errcode EIO, [], n)" for n
    by (subst stream_getdelim_loop.simps) (simp add: errcode_def)
  with assms(3) show ?thesis
    by (auto simp: errcode_def dico_stream_getline_def dico_stream_getdelim_def Let_def split: option.split)
qed

end

section \<open>Where it goes wrong\<close>

text \<open>
  Flushing a stream that is seekable and has been written to never returns: the flush
  seeks, the seek flushes, and nothing changes in between.
\<close>

theorem flush_of_dirty_seekable_stream_diverges:
  assumes "STR_DIRTY \<in> s_flags s" and "DICO_STREAM_SEEK \<in> s_flags s" and "STR_ERR \<notin> s_flags s"
    and "d_seek (s_drv s) \<noteq> None"
  shows "stream_flush_buffer s all = None \<and> dico_stream_flush s = None"
proof -
  have check: "stream_seek_check s = (s, True)" using assms by (auto simp: stream_seek_check_def)
  have ind: "stream_flush_buffer s' a = Some r \<Longrightarrow> s' \<noteq> s" for s' a r
  proof (induction rule: stream_flush_buffer.raw_induct [rotated, consumes 1])
    case (1 f s' a r)
    show ?case
    proof
      assume "s' = s"
      with 1(2) check assms(1,2) obtain x where "f s True = Some x" by (auto simp: res_iff)
      with 1(1) [of s True x] show False by blast
    qed
  qed
  have "stream_flush_buffer s a = None" for a using ind [of s a] by (cases "stream_flush_buffer s a") auto
  then show ?thesis by (simp add: dico_stream_flush_def)
qed

text \<open>
  After a line of \<open>k\<close> bytes has been read from a buffered stream, its window is empty and
  \<^verbatim>\<open>cur\<close> is \<open>k\<close> bytes into the buffer; a write to the same stream computes its
  room from the level alone and copies to \<^verbatim>\<open>cur\<close>, past the end of the buffer when more
  than \<open>bufsize - k\<close> bytes are written at once.
\<close>

theorem write_after_read_overruns_buffer:
  assumes "s_buffer s = Some b" and "length b = s_bufsize s" and "s_level s = 0" and "0 < s_cur s" and "s_cur s < s_bufsize s"
    and "s_buftype s \<noteq> dico_buffer_none" and "STR_ERR \<notin> s_flags s" and "s_bufsize s - s_cur s < length buf"
  shows "dico_stream_write s buf = None"
proof -
  have "stream_buffer_full_p s = Some False"
    using assms(1-6) by (cases "s_buftype s") (auto simp: stream_buffer_full_p_def BUFFER_FULL_P_def stream_window_def)
  then show ?thesis
    using assms by (subst dico_stream_write_def, subst stream_write_loop.simps) (auto simp: Let_def)
qed

text \<open>
  Seeking does not discard bytes that are already in the buffer, so the next read returns
  bytes from before the seek.
\<close>

theorem seek_keeps_stale_bytes:
  assumes "DICO_STREAM_SEEK \<in> s_flags s" and "STR_ERR \<notin> s_flags s" and "STR_DIRTY \<notin> s_flags s" and "d_seek (s_drv s) = Some f"
    and "d_flush (s_drv s) = None" and "f (s_data s) off DICO_SEEK_SET = Some (d, Inr res)"
    and "s_buffer s = Some b" and "s_cur s + s_level s \<le> length b" and "0 < s_level s"
  shows "\<exists>s'. dico_stream_seek s off DICO_SEEK_SET = Some (s', res) \<and> s_data s' = d \<and> pending s' = pending s \<and> pending s' \<noteq> []"
proof -
  have "stream_seek_check s = (s, True)" using assms by (simp add: stream_seek_check_def)
  with assms show ?thesis
    by (simp add: dico_stream_seek_def dico_stream_flush_def stream_flush_buffer.simps [of s] stream_flush_end_def
        stream_window_def stream_call_flush_def stream_call_seek_def stream_cleareof_def pending_def)
qed

end
