(* ===== verification/Dico_Drivers.thy ===== *)
theory Dico_Drivers
  imports Dico_Stream_Props
begin

text \<open>
  Drivers of streams: file descriptors (\<^verbatim>\<open>lib/fdstream.c\<close>), mapped files
  (\<^verbatim>\<open>lib/mapstream.c\<close>), the pair of an input and an output stream
  (\<^verbatim>\<open>lib/iostr.c\<close>), end-of-line conversion (\<^verbatim>\<open>lib/crlfstr.c\<close>) and transcripts of a
  session (\<^verbatim>\<open>lib/xscript.c\<close>). The system calls are parameters. Drivers that sit on
  another stream hold that stream in their state, so that streams stack as in the program.
\<close>

section \<open>File descriptors\<close>

text \<open>
  The calls of the operating system on its state \<open>'os\<close> and a descriptor; \<open>Inl\<close> is
  the value of \<^verbatim>\<open>errno\<close> after a return of -1.
\<close>

record 'os posix =
  sys_read :: "'os \<Rightarrow> int \<Rightarrow> nat \<Rightarrow> 'os \<times> (int + bytes)"
  sys_write :: "'os \<Rightarrow> int \<Rightarrow> bytes \<Rightarrow> 'os \<times> (int + nat)"
  sys_close :: "'os \<Rightarrow> int \<Rightarrow> 'os \<times> int"
  sys_lseek :: "'os \<Rightarrow> int \<Rightarrow> int \<Rightarrow> whence \<Rightarrow> 'os \<times> (int + int)"

type_synonym 'os fd_data = "'os \<times> int"

definition fd_read :: "'os posix \<Rightarrow> 'os fd_data \<Rightarrow> nat \<Rightarrow> ('os fd_data \<times> (int + bytes)) option" where
  "fd_read px p sz = (case p of (os, fd) \<Rightarrow> case sys_read px os fd sz of (os', r) \<Rightarrow> Some ((os', fd), r))"

definition fd_write :: "'os posix \<Rightarrow> 'os fd_data \<Rightarrow> bytes \<Rightarrow> ('os fd_data \<times> (int + nat)) option" where
  "fd_write px p buf = (case p of (os, fd) \<Rightarrow> case sys_write px os fd buf of (os', r) \<Rightarrow> Some ((os', fd), r))"

definition fd_close :: "'os posix \<Rightarrow> 'os fd_data \<Rightarrow> ('os fd_data \<times> int) option" where
  "fd_close px p = (case p of (os, fd) \<Rightarrow> case sys_close px os fd of (os', rc) \<Rightarrow> Some ((os', fd), rc))"

definition fd_seek :: "'os posix \<Rightarrow> 'os fd_data \<Rightarrow> int \<Rightarrow> whence \<Rightarrow> ('os fd_data \<times> (int + int)) option" where
  "fd_seek px p off whence = (case p of (os, fd) \<Rightarrow> case sys_lseek px os fd off whence of (os', r) \<Rightarrow> Some ((os', fd), r))"

definition fd_size :: "'os posix \<Rightarrow> 'os fd_data \<Rightarrow> ('os fd_data \<times> (int + int)) option" where
  "fd_size px p = fd_seek px p 0 DICO_SEEK_END"

definition fd_destroy :: "'os fd_data \<Rightarrow> ('os fd_data \<times> int) option" where
  "fd_destroy p = Some (p, 0)"

definition dico_fd_stream_create :: "'os posix \<Rightarrow> bool \<times> bool \<Rightarrow> 'os \<Rightarrow> int \<Rightarrow> sflag set \<Rightarrow> bool \<Rightarrow> 'os fd_data dico_stream option" where
  "dico_fd_stream_create px alloc os fd flags noclose =
     (if \<not> fst alloc then None
      else case dico_stream_create (snd alloc) flags (os, fd) of
        Inl _ \<Rightarrow> None
      | Inr s \<Rightarrow>
          let s = dico_stream_set_seek s (Some (fd_seek px));
              s = dico_stream_set_size s (Some (fd_size px));
              s = dico_stream_set_write s (Some (fd_write px));
              s = dico_stream_set_read s (Some (fd_read px));
              s = (if noclose then s else dico_stream_set_close s (Some (fd_close px)))
          in Some (dico_stream_set_destroy s (Some fd_destroy)))"

section \<open>Mapped files\<close>

record mapfile =
  mf_filename :: bytes
  mf_fd :: int
  mf_start :: "bytes option"
  mf_size :: nat
  mf_offset :: int

definition mapfile_close :: "mapfile \<Rightarrow> (mapfile \<times> int) option" where
  "mapfile_close m =
     Some ((if mf_start m \<noteq> None then m\<lparr>mf_start := None, mf_size := 0\<rparr> else m)\<lparr>mf_fd := -1\<rparr>, 0)"

definition mapfile_destroy :: "mapfile \<Rightarrow> (mapfile \<times> int) option" where
  "mapfile_destroy m = Some (m, 0)"

text \<open>
  \<open>fopen\<close> stands for \<^verbatim>\<open>open\<close> and \<^verbatim>\<open>fstat\<close>, \<open>map_ok\<close> for \<^verbatim>\<open>mmap\<close>: the
  error, or the descriptor and the contents of the file.
\<close>

definition mapfile_open ::
  "(bytes \<Rightarrow> sflag set \<Rightarrow> int + int \<times> bytes) \<Rightarrow> (bytes \<Rightarrow> int + unit) \<Rightarrow> mapfile \<Rightarrow> sflag set \<Rightarrow> (mapfile \<times> int) option" where
  "mapfile_open fopen map_ok m flags = do {
     (m, _) \<leftarrow> mapfile_close m;
     (case fopen (mf_filename m) flags of
        Inl err \<Rightarrow> Some (m, err)
      | Inr (fd, contents) \<Rightarrow>
          let m = m\<lparr>mf_fd := fd, mf_size := length contents\<rparr> in
          if contents \<noteq> []
          then (case map_ok contents of
                  Inl err \<Rightarrow> Some (m\<lparr>mf_start := None\<rparr>, err)
                | Inr _ \<Rightarrow> Some (m\<lparr>mf_start := Some contents\<rparr>, 0))
          else Some (m\<lparr>mf_start := None\<rparr>, 0)) }"

definition mapfile_seek :: "mapfile \<Rightarrow> int \<Rightarrow> whence \<Rightarrow> (mapfile \<times> (int + int)) option" where
  "mapfile_seek m needle whence =
     (let finish = (\<lambda>offset. if offset < 0 \<or> offset > int (mf_size m) then (m, Inl (errcode EINVAL))
                             else (m\<lparr>mf_offset := offset\<rparr>, Inr offset)) in
      Some (case whence of
              DICO_SEEK_SET \<Rightarrow> finish needle
            | DICO_SEEK_CUR \<Rightarrow> finish (mf_offset m + needle)
            | DICO_SEEK_END \<Rightarrow> finish (int (mf_size m) + needle)
            | DICO_SEEK_OTHER \<Rightarrow> (m, Inl (errcode EINVAL))))"

definition mapfile_size :: "mapfile \<Rightarrow> (mapfile \<times> (int + int)) option" where
  "mapfile_size m = Some (m, if mf_start m = None then Inl (errcode EINVAL) else Inr (int (mf_size m)))"

text \<open>Copying from an offset outside the mapping is undefined.\<close>

definition mapfile_read :: "mapfile \<Rightarrow> nat \<Rightarrow> (mapfile \<times> (int + bytes)) option" where
  "mapfile_read m sz =
     (case mf_start m of
        None \<Rightarrow> Some (m, Inl (errcode EINVAL))
      | Some start \<Rightarrow>
          let off = nat (mf_offset m);
              n = (if off + sz > mf_size m then mf_size m - off else sz) in
          if 0 \<le> mf_offset m \<and> off \<le> mf_size m \<and> off + n \<le> length start
          then Some (m\<lparr>mf_offset := mf_offset m + int n\<rparr>, Inr (take n (drop off start)))
          else None)"

definition dico_mapfile_stream_create ::
  "(bytes \<Rightarrow> sflag set \<Rightarrow> int + int \<times> bytes) \<Rightarrow> (bytes \<Rightarrow> int + unit) \<Rightarrow> bool \<times> bool \<times> bool \<Rightarrow> bytes \<Rightarrow> sflag set \<Rightarrow> mapfile dico_stream option" where
  "dico_mapfile_stream_create fopen map_ok alloc filename flags =
     (if DICO_STREAM_WRITE \<in> flags then None
      else if \<not> fst alloc \<or> \<not> fst (snd alloc) then None
      else case dico_stream_create (snd (snd alloc)) flags
             \<lparr>mf_filename = filename, mf_fd = -1, mf_start = None, mf_size = 0, mf_offset = 0\<rparr> of
        Inl _ \<Rightarrow> None
      | Inr s \<Rightarrow>
          let s = dico_stream_set_open s (Some (mapfile_open fopen map_ok));
              s = dico_stream_set_seek s (Some mapfile_seek);
              s = dico_stream_set_size s (Some mapfile_size);
              s = dico_stream_set_read s (Some mapfile_read);
              s = dico_stream_set_close s (Some mapfile_close)
          in Some (dico_stream_set_destroy s (Some mapfile_destroy)))"

section \<open>Input and output pairs\<close>

text \<open>\<open>io_last_err\<close> tells which of the two streams had the last error.\<close>

datatype io_side = IO_IN | IO_OUT

record ('a, 'b) iostr =
  io_in :: "'a dico_stream"
  io_out :: "'b dico_stream"
  io_last_err :: "io_side option"

definition io_read :: "('a, 'b) iostr \<Rightarrow> nat \<Rightarrow> (('a, 'b) iostr \<times> (int + bytes)) option" where
  "io_read p sz = do {
     (i, rc, bs) \<leftarrow> dico_stream_read (io_in p) sz True;
     (if rc \<noteq> 0 then Some (p\<lparr>io_in := i, io_last_err := Some IO_IN\<rparr>, Inl (dico_stream_last_error i))
      else Some (p\<lparr>io_in := i\<rparr>, Inr bs)) }"

definition io_write :: "('a, 'b) iostr \<Rightarrow> bytes \<Rightarrow> (('a, 'b) iostr \<times> (int + nat)) option" where
  "io_write p buf = do {
     (out, rc) \<leftarrow> dico_stream_write (io_out p) buf;
     (if rc \<noteq> 0 then Some (p\<lparr>io_out := out, io_last_err := Some IO_OUT\<rparr>, Inl (dico_stream_last_error out))
      else Some (p\<lparr>io_out := out\<rparr>, Inr (length buf))) }"

definition io_flush :: "('a, 'b) iostr \<Rightarrow> (('a, 'b) iostr \<times> int) option" where
  "io_flush p = do {
     (i, rc) \<leftarrow> dico_stream_flush (io_in p);
     (if rc \<noteq> 0 then Some (p\<lparr>io_in := i, io_last_err := Some IO_IN\<rparr>, dico_stream_last_error i)
      else do {
        (out, rc) \<leftarrow> dico_stream_flush (io_out p);
        (if rc \<noteq> 0 then Some (p\<lparr>io_in := i, io_out := out, io_last_err := Some IO_OUT\<rparr>, dico_stream_last_error out)
         else Some (p\<lparr>io_in := i, io_out := out\<rparr>, 0)) }) }"

definition io_close :: "('a, 'b) iostr \<Rightarrow> (('a, 'b) iostr \<times> int) option" where
  "io_close p = do {
     (i, _) \<leftarrow> dico_stream_close (io_in p);
     (out, _) \<leftarrow> dico_stream_close (io_out p);
     Some (p\<lparr>io_in := i, io_out := out\<rparr>, 0) }"

definition io_destroy :: "('a, 'b) iostr \<Rightarrow> (('a, 'b) iostr \<times> int) option" where
  "io_destroy p = do {
     _ \<leftarrow> dico_stream_destroy (io_in p);
     _ \<leftarrow> dico_stream_destroy (io_out p);
     Some (p, 0) }"

definition io_error_string :: "(int \<Rightarrow> bytes) \<Rightarrow> ('a, 'b) iostr \<Rightarrow> int \<Rightarrow> bytes" where
  "io_error_string strerror p code =
     (case io_last_err p of
        None \<Rightarrow> str ''No error''
      | Some IO_IN \<Rightarrow> dico_stream_strerror strerror (io_in p) code
      | Some IO_OUT \<Rightarrow> dico_stream_strerror strerror (io_out p) code)"

definition dico_io_stream ::
  "(int \<Rightarrow> bytes) \<Rightarrow> bool \<times> bool \<Rightarrow> 'a dico_stream \<Rightarrow> 'b dico_stream \<Rightarrow> ('a, 'b) iostr dico_stream option" where
  "dico_io_stream strerror alloc i out =
     (if \<not> fst alloc then None
      else case dico_stream_create (snd alloc) {DICO_STREAM_READ, DICO_STREAM_WRITE} \<lparr>io_in = i, io_out = out, io_last_err = None\<rparr> of
        Inl _ \<Rightarrow> None
      | Inr s \<Rightarrow>
          let s = dico_stream_set_write s (Some io_write);
              s = dico_stream_set_read s (Some io_read);
              s = dico_stream_set_flush s (Some io_flush);
              s = dico_stream_set_close s (Some io_close);
              s = dico_stream_set_destroy s (Some io_destroy)
          in Some (dico_stream_set_error_string s (Some (io_error_string strerror))))"

section \<open>End-of-line conversion\<close>

datatype crlf_state = state_init | state_cr

record 't crlfstr =
  cs_transport :: "'t dico_stream"
  cs_noclose :: bool
  cs_state :: crlf_state
  cs_cb :: byte

text \<open>
  The loop of \<^verbatim>\<open>_crlfstr_write\<close>: \<open>seg\<close> is the text between \<^verbatim>\<open>buf\<close> and
  \<^verbatim>\<open>p\<close>. The results of writing to the transport are not looked at.
\<close>

fun crlf_write_loop :: "'t dico_stream \<Rightarrow> crlf_state \<Rightarrow> bytes \<Rightarrow> bytes \<Rightarrow> ('t dico_stream \<times> crlf_state) option" where
  "crlf_write_loop t st seg [] =
     (if seg \<noteq> [] then map_option (\<lambda>(t, _). (t, st)) (dico_stream_write t seg) else Some (t, st))"
| "crlf_write_loop t st seg (c # p) =
     (if c = 0x0a
      then if st = state_cr then crlf_write_loop t state_init (seg @ [c]) p
        else do {
          t \<leftarrow> (if seg \<noteq> [] then map_option fst (dico_stream_write t seg) else Some t);
          (t, _) \<leftarrow> dico_stream_write t [0x0d, 0x0a];
          crlf_write_loop t st [] p }
      else if c = 0x0d then crlf_write_loop t state_cr (seg @ [c]) p
      else crlf_write_loop t state_init (seg @ [c]) p)"

definition crlfstr_write :: "'t crlfstr \<Rightarrow> bytes \<Rightarrow> ('t crlfstr \<times> (int + nat)) option" where
  "crlfstr_write s buf = do {
     (t, st) \<leftarrow> crlf_write_loop (cs_transport s) (cs_state s) [] buf;
     Some (s\<lparr>cs_transport := t, cs_state := st\<rparr>, Inr (length buf)) }"

text \<open>
  Reading works in place: \<open>buf\<close> is the caller's memory, \<open>tot\<close> the number of
  bytes produced, \<open>cb\<close> the character kept back (0 for none). One character, at index
  \<open>i\<close>; \<open>put\<close> is \<^verbatim>\<open>buf[total++] = c\<close>.
\<close>

definition crlf_put :: "byte \<Rightarrow> bytes \<times> nat \<Rightarrow> (bytes \<times> nat) option" where
  "crlf_put c bt = (case bt of (buf, tot) \<Rightarrow> if tot < length buf then Some (buf[tot := c], tot + 1) else None)"

definition crlf_char :: "nat \<Rightarrow> bytes \<times> nat \<times> byte \<Rightarrow> (bytes \<times> nat \<times> byte) option" where
  "crlf_char i st =
     (case st of (buf, tot, cb) \<Rightarrow>
        if buf ! i = 0x0d then do {
          (buf, tot) \<leftarrow> (if cb \<noteq> 0 then crlf_put cb (buf, tot) else Some (buf, tot));
          Some (buf, tot, 0x0d) }
        else if buf ! i = 0x0a then do {
          (buf, tot) \<leftarrow> crlf_put (buf ! i) (buf, tot);
          Some (buf, tot, 0) }
        else do {
          (buf, tot) \<leftarrow> (if cb \<noteq> 0 then crlf_put cb (buf, tot) else Some (buf, tot));
          (if tot = length buf then Some (buf, tot, buf ! i)
           else do {
             (buf, tot) \<leftarrow> crlf_put (buf ! i) (buf, tot);
             Some (buf, tot, 0) }) })"

fun crlf_chars :: "nat list \<Rightarrow> bytes \<times> nat \<times> byte \<Rightarrow> (bytes \<times> nat \<times> byte) option" where
  "crlf_chars [] st = Some st"
| "crlf_chars (i # is) st = do { st \<leftarrow> crlf_char i st; crlf_chars is st }"

text \<open>
  The outer loop; \<open>sz\<close> bytes lie unprocessed behind \<open>tot\<close>. The result: the
  transport, the error code of a failed read, and the state.
\<close>

partial_function (option) crlf_read_loop ::
  "'t dico_stream \<Rightarrow> nat \<Rightarrow> bytes \<times> nat \<times> byte \<Rightarrow> ('t dico_stream \<times> int \<times> bytes \<times> nat \<times> byte) option" where
  "crlf_read_loop t sz st =
     (case st of (buf, tot, cb) \<Rightarrow>
        if tot < length buf
        then if sz = 0
          then do {
            (t, rc, bs) \<leftarrow> dico_stream_read t (length buf - tot) True;
            (if rc \<noteq> 0 then Some (t, rc, buf, tot, cb)
             else if bs = [] then Some (t, 0, buf, tot, cb)
             else do {
               st \<leftarrow> crlf_chars [tot..<tot + length bs]
                        (take tot buf @ bs @ drop (tot + length bs) buf, tot, cb);
               crlf_read_loop t 0 st }) }
          else do {
            st \<leftarrow> crlf_chars [tot..<tot + sz] (buf, tot, cb);
            crlf_read_loop t 0 st }
        else Some (t, 0, buf, tot, cb))"

text \<open>The caller's memory has \<open>sz\<close> bytes, their contents (here 0) do not matter.\<close>

definition crlfstr_read :: "'t crlfstr \<Rightarrow> nat \<Rightarrow> ('t crlfstr \<times> (int + bytes)) option" where
  "crlfstr_read s sz =
     (let buf = replicate sz 0 in do {
        (t, rc, buf, tot, cb) \<leftarrow>
          (if cs_cb s \<noteq> 0
           then if 0 < sz then crlf_read_loop (cs_transport s) 1 (buf[0 := cs_cb s], 0, 0) else None
           else crlf_read_loop (cs_transport s) 0 (buf, 0, 0));
        (let s = s\<lparr>cs_transport := t, cs_cb := cb\<rparr> in
         if rc \<noteq> 0 then Some (s, Inl rc) else Some (s, Inr (take tot buf))) })"

definition crlfstr_destroy :: "'t crlfstr \<Rightarrow> ('t crlfstr \<times> int) option" where
  "crlfstr_destroy s =
     (if cs_noclose s then Some (s, 0) else do { _ \<leftarrow> dico_stream_destroy (cs_transport s); Some (s, 0) })"

definition crlfstr_flush :: "'t crlfstr \<Rightarrow> ('t crlfstr \<times> int) option" where
  "crlfstr_flush s = do {
     (t, rc) \<leftarrow> dico_stream_flush (cs_transport s);
     Some (s\<lparr>cs_transport := t\<rparr>, rc) }"

definition crlfstr_close :: "'t crlfstr \<Rightarrow> ('t crlfstr \<times> int) option" where
  "crlfstr_close s =
     (if cs_noclose s then Some (s, 0)
      else do {
        (t, rc) \<leftarrow> dico_stream_close (cs_transport s);
        Some (s\<lparr>cs_transport := t\<rparr>, rc) })"

text \<open>Exchanging the transport by \<^verbatim>\<open>DICO_IOCTL_SET_TRANSPORT\<close> is not part of the model.\<close>

definition crlfstr_ioctl :: "'t crlfstr \<Rightarrow> ioctl \<Rightarrow> ('t crlfstr \<times> (int + int)) option" where
  "crlfstr_ioctl s code =
     (case code of
        DICO_IOCTL_BYTES_IN \<Rightarrow> do {
          (t, v) \<leftarrow> dico_stream_bytes_in (cs_transport s); Some (s\<lparr>cs_transport := t\<rparr>, Inr v) }
      | DICO_IOCTL_BYTES_OUT \<Rightarrow> do {
          (t, v) \<leftarrow> dico_stream_bytes_out (cs_transport s); Some (s\<lparr>cs_transport := t\<rparr>, Inr v) }
      | _ \<Rightarrow> Some (s, Inl (-1)))"

text \<open>\<open>alloc\<close>: the state, the stream and the line buffer.\<close>

definition dico_crlf_stream ::
  "bool \<times> bool \<times> bool \<Rightarrow> 't dico_stream \<Rightarrow> sflag set \<Rightarrow> bool \<Rightarrow> 't crlfstr dico_stream option" where
  "dico_crlf_stream alloc transport flags noclose =
     (if \<not> fst alloc then None
      else case dico_stream_create (fst (snd alloc)) (flags \<inter> {DICO_STREAM_READ, DICO_STREAM_WRITE})
             \<lparr>cs_transport = transport, cs_noclose = noclose, cs_state = state_init, cs_cb = 0\<rparr> of
        Inl _ \<Rightarrow> None
      | Inr s \<Rightarrow>
          let s = dico_stream_set_write s (Some crlfstr_write);
              s = dico_stream_set_read s (Some crlfstr_read);
              s = dico_stream_set_flush s (Some crlfstr_flush);
              s = dico_stream_set_close s (Some crlfstr_close);
              s = dico_stream_set_destroy s (Some crlfstr_destroy);
              s = dico_stream_set_ioctl s (Some crlfstr_ioctl)
          in map_option fst (dico_stream_set_buffer (snd (snd alloc)) s dico_buffer_line 1024))"

section \<open>Transcripts\<close>

datatype trans_flag = TRANS_READ | TRANS_WRITE

record ('t, 'l) transcript =
  ts_flags :: "trans_flag set"
  ts_transport :: "'t dico_stream"
  ts_logstr :: "'l dico_stream"
  ts_prefix :: "bytes \<times> bytes"

definition ts_prefix_of :: "('t, 'l) transcript \<Rightarrow> trans_flag \<Rightarrow> bytes" where
  "ts_prefix_of p flag = (case flag of TRANS_READ \<Rightarrow> fst (ts_prefix p) | TRANS_WRITE \<Rightarrow> snd (ts_prefix p))"

definition log_put :: "('t, 'l) transcript \<Rightarrow> bytes \<Rightarrow> ('t, 'l) transcript option" where
  "log_put p buf = map_option (\<lambda>(l, _). p\<lparr>ts_logstr := l\<rparr>) (dico_stream_write (ts_logstr p) buf)"

text \<open>The log gets each line with its prefix, without a carriage return before the newline.\<close>

function print_transcript :: "('t, 'l) transcript \<Rightarrow> trans_flag \<Rightarrow> bytes \<Rightarrow> ('t, 'l) transcript option" where
  "print_transcript p flag buf =
     (if buf = [] then Some p
      else do {
        p \<leftarrow> (if flag \<in> ts_flags p
              then map_option (\<lambda>p. p\<lparr>ts_flags := ts_flags p - {flag}\<rparr>) (log_put p (ts_prefix_of p flag))
              else Some p);
        (case index_of 0x0a buf of
           None \<Rightarrow> log_put p buf
         | Some i \<Rightarrow> do {
             p \<leftarrow> log_put p (take (if i > 0 \<and> buf ! (i - 1) = 0x0d then i - 1 else i) buf);
             p \<leftarrow> log_put p [0x0a];
             print_transcript (p\<lparr>ts_flags := insert flag (ts_flags p)\<rparr>) flag (drop (i + 1) buf) }) })"
  by pat_completeness auto
termination
  by (relation "measure (\<lambda>(_, _, buf). length buf)") (auto simp: neq_Nil_conv)

declare print_transcript.simps [simp del]

definition transcript_read :: "('t, 'l) transcript \<Rightarrow> nat \<Rightarrow> (('t, 'l) transcript \<times> (int + bytes)) option" where
  "transcript_read p sz = do {
     (t, rc, bs) \<leftarrow> dico_stream_read (ts_transport p) sz True;
     (let p = p\<lparr>ts_transport := t\<rparr> in
      if rc = 0 then do { p \<leftarrow> print_transcript p TRANS_READ bs; Some (p, Inr bs) }
      else Some (p, Inl (dico_stream_last_error t))) }"

definition transcript_write :: "('t, 'l) transcript \<Rightarrow> bytes \<Rightarrow> (('t, 'l) transcript \<times> (int + nat)) option" where
  "transcript_write p buf = do {
     (t, rc) \<leftarrow> dico_stream_write (ts_transport p) buf;
     (let p = p\<lparr>ts_transport := t\<rparr> in
      if rc = 0 then do { p \<leftarrow> print_transcript p TRANS_WRITE buf; Some (p, Inr (length buf)) }
      else Some (p, Inl (dico_stream_last_error t))) }"

definition transcript_flush :: "('t, 'l) transcript \<Rightarrow> (('t, 'l) transcript \<times> int) option" where
  "transcript_flush p = do {
     (t, rc) \<leftarrow> dico_stream_flush (ts_transport p);
     Some (p\<lparr>ts_transport := t\<rparr>, rc) }"

definition transcript_close :: "('t, 'l) transcript \<Rightarrow> (('t, 'l) transcript \<times> int) option" where
  "transcript_close p = do {
     (l, _) \<leftarrow> dico_stream_close (ts_logstr p);
     (t, _) \<leftarrow> dico_stream_close (ts_transport p);
     Some (p\<lparr>ts_logstr := l, ts_transport := t\<rparr>, 0) }"

definition transcript_destroy :: "('t, 'l) transcript \<Rightarrow> (('t, 'l) transcript \<times> int) option" where
  "transcript_destroy p = do {
     _ \<leftarrow> dico_stream_destroy (ts_transport p);
     _ \<leftarrow> dico_stream_destroy (ts_logstr p);
     Some (p, 0) }"

definition transcript_strerror :: "(int \<Rightarrow> bytes) \<Rightarrow> ('t, 'l) transcript \<Rightarrow> int \<Rightarrow> bytes" where
  "transcript_strerror strerror p rc = dico_stream_strerror strerror (ts_transport p) rc"

definition transcript_ioctl :: "('t, 'l) transcript \<Rightarrow> ioctl \<Rightarrow> (('t, 'l) transcript \<times> (int + int)) option" where
  "transcript_ioctl p code =
     (case code of
        DICO_IOCTL_BYTES_IN \<Rightarrow> do {
          (t, v) \<leftarrow> dico_stream_bytes_in (ts_transport p); Some (p\<lparr>ts_transport := t\<rparr>, Inr v) }
      | DICO_IOCTL_BYTES_OUT \<Rightarrow> do {
          (t, v) \<leftarrow> dico_stream_bytes_out (ts_transport p); Some (p\<lparr>ts_transport := t\<rparr>, Inr v) }
      | _ \<Rightarrow> Some (p, Inl (-1)))"

definition default_prefix :: "bytes \<times> bytes" where
  "default_prefix = (str ''C: '', str ''S: '')"

text \<open>\<open>prefix\<close>: the argument, \<^verbatim>\<open>NULL\<close> or two strings that may be \<^verbatim>\<open>NULL\<close>; running
  out of memory ends the program, except for the line buffer (\<open>alloc\<close>).\<close>

definition xdico_transcript_stream_create ::
  "(int \<Rightarrow> bytes) \<Rightarrow> bool \<Rightarrow> 't dico_stream \<Rightarrow> 'l dico_stream \<Rightarrow> (bytes option \<times> bytes option) option
   \<Rightarrow> ('t, 'l) transcript dico_stream option" where
  "xdico_transcript_stream_create strerror alloc transport logstr prefix =
     (let pfx = (case prefix of
            None \<Rightarrow> default_prefix
          | Some (c, s) \<Rightarrow> ((case c of None \<Rightarrow> fst default_prefix | Some x \<Rightarrow> x),
                           (case s of None \<Rightarrow> snd default_prefix | Some x \<Rightarrow> x))) in
      case dico_stream_create True {DICO_STREAM_READ, DICO_STREAM_WRITE}
             \<lparr>ts_flags = {TRANS_READ, TRANS_WRITE}, ts_transport = transport, ts_logstr = logstr, ts_prefix = pfx\<rparr> of
        Inl _ \<Rightarrow> None
      | Inr s \<Rightarrow>
          let s = dico_stream_set_read s (Some transcript_read);
              s = dico_stream_set_write s (Some transcript_write);
              s = dico_stream_set_flush s (Some transcript_flush);
              s = dico_stream_set_close s (Some transcript_close);
              s = dico_stream_set_destroy s (Some transcript_destroy);
              s = dico_stream_set_ioctl s (Some transcript_ioctl);
              s = dico_stream_set_error_string s (Some (transcript_strerror strerror))
          in map_option fst (dico_stream_set_buffer alloc s dico_buffer_line 1024))"

end
