(* ===== verification/Dico_Drivers_Props.thy ===== *)
theory Dico_Drivers_Props
  imports Dico_Drivers
begin

text \<open>
  The drivers keep the contracts of \<open>byte_sink\<close> and \<open>byte_source\<close>: file descriptors
  over what POSIX says of \<^verbatim>\<open>read\<close> and \<^verbatim>\<open>write\<close>, mapped files, pairs of streams, and
  end-of-line conversion on well-formed input. So the theorems about buffered streams
  apply to streams stacked on each other.
\<close>

section \<open>File descriptors\<close>

text \<open>
  What the stream library relies on: on an open descriptor a write takes at least one
  byte, a read delivers at least one unless the end of the input is reached.
\<close>

locale posix_file =
  fixes px :: "'os posix"
    and os_ok :: "'os \<Rightarrow> int \<Rightarrow> bool"
    and os_out :: "'os \<Rightarrow> int \<Rightarrow> bytes"
    and os_in :: "'os \<Rightarrow> int \<Rightarrow> bytes"
  assumes posix_write:
    "os_ok os fd \<Longrightarrow> b \<noteq> [] \<Longrightarrow>
       \<exists>os' n. sys_write px os fd b = (os', Inr n) \<and> 0 < n \<and> n \<le> length b \<and> os_ok os' fd \<and> os_out os' fd = os_out os fd @ take n b"
    and posix_read:
    "os_ok os fd \<Longrightarrow> 0 < k \<Longrightarrow>
       \<exists>os' bs. sys_read px os fd k = (os', Inr bs) \<and> length bs \<le> k \<and> os_ok os' fd \<and>
         os_in os fd = bs @ os_in os' fd \<and> (bs = [] \<longrightarrow> os_in os fd = [])"

sublocale posix_file \<subseteq> fd_out: flushed_sink "fd_write px" "\<lambda>p. os_ok (fst p) (snd p)" "\<lambda>p. os_out (fst p) (snd p)" None
proof
  fix d and b :: bytes
  assume "os_ok (fst d) (snd d)" "b \<noteq> []"
  from posix_write [OF this] show "\<exists>d' n. fd_write px d b = Some (d', Inr n) \<and> 0 < n \<and> n \<le> length b \<and>
      os_ok (fst d') (snd d') \<and> os_out (fst d') (snd d') = os_out (fst d) (snd d) @ take n b"
    by (auto simp: fd_write_def split: prod.split)
qed simp

sublocale posix_file \<subseteq> fd_in: byte_source "fd_read px" "\<lambda>p. os_ok (fst p) (snd p)" "\<lambda>p. os_in (fst p) (snd p)"
proof
  fix d and k :: nat
  assume "os_ok (fst d) (snd d)" "0 < k"
  from posix_read [OF this] show "\<exists>d' bs. fd_read px d k = Some (d', Inr bs) \<and> length bs \<le> k \<and> os_ok (fst d') (snd d') \<and>
      os_in (fst d) (snd d) = bs @ os_in (fst d') (snd d') \<and> (bs = [] \<longrightarrow> os_in (fst d) (snd d) = [])"
    by (auto simp: fd_read_def split: prod.split)
qed

text \<open>A system with one input and one output, which moves at most 512 bytes at a time.\<close>

definition pipe_posix :: "(bytes \<times> bytes) posix" where
  "pipe_posix = \<lparr>sys_read = \<lambda>(i, out) fd k. ((drop (min 512 k) i, out), Inr (take (min 512 k) i)),
     sys_write = \<lambda>(i, out) fd b. ((i, out @ take 512 b), Inr (min 512 (length b))),
     sys_close = \<lambda>os fd. (os, 0),
     sys_lseek = \<lambda>os fd off whence. (os, Inl 29)\<rparr>"

interpretation pipe: posix_file pipe_posix "\<lambda>os fd. True" "\<lambda>os fd. snd os" "\<lambda>os fd. fst os"
  by unfold_locales (auto simp: pipe_posix_def min_def split: prod.split)

section \<open>Mapped files\<close>

definition mapfile_ok :: "mapfile \<Rightarrow> bool" where
  "mapfile_ok m \<longleftrightarrow>
     (case mf_start m of None \<Rightarrow> False | Some start \<Rightarrow> length start = mf_size m \<and> 0 \<le> mf_offset m \<and> mf_offset m \<le> int (mf_size m))"

definition mapfile_rest :: "mapfile \<Rightarrow> bytes" where
  "mapfile_rest m = (case mf_start m of None \<Rightarrow> [] | Some start \<Rightarrow> drop (nat (mf_offset m)) start)"

interpretation mapfile: byte_source mapfile_read mapfile_ok mapfile_rest
proof
  fix m n
  assume m: "mapfile_ok m" and n: "0 < (n :: nat)"
  then obtain start where s: "mf_start m = Some start" "length start = mf_size m" "0 \<le> mf_offset m" "mf_offset m \<le> int (mf_size m)"
    by (auto simp: mapfile_ok_def split: option.splits)
  define k where "k = (if nat (mf_offset m) + n > mf_size m then mf_size m - nat (mf_offset m) else n)"
  have o: "nat (mf_offset m) \<le> mf_size m" using s by simp
  have k: "k \<le> n" "nat (mf_offset m) + k \<le> mf_size m" "k = 0 \<Longrightarrow> nat (mf_offset m) = mf_size m"
    using o n by (auto simp: k_def split: if_splits)
  have "mapfile_read m n = Some (m\<lparr>mf_offset := mf_offset m + int k\<rparr>, Inr (take k (drop (nat (mf_offset m)) start)))"
    using s o k by (simp add: mapfile_read_def Let_def k_def [symmetric])
  moreover have "drop (nat (mf_offset m)) start = take k (drop (nat (mf_offset m)) start) @ drop (nat (mf_offset m + int k)) start"
    using s(3) by (simp add: nat_add_distrib add.commute [of _ k] flip: drop_drop)
  ultimately show "\<exists>d' bs. mapfile_read m n = Some (d', Inr bs) \<and> length bs \<le> n \<and> mapfile_ok d' \<and>
      mapfile_rest m = bs @ mapfile_rest d' \<and> (bs = [] \<longrightarrow> mapfile_rest m = [])"
    using s o k by (auto simp: mapfile_ok_def mapfile_rest_def min_def)
qed

section \<open>Input and output pairs\<close>

text \<open>A stream whose flush does nothing visible: nothing to write, no flush function.\<close>

definition idle :: "'d dico_stream \<Rightarrow> bool" where
  "idle s \<longleftrightarrow> STR_DIRTY \<notin> s_flags s \<and> d_flush (s_drv s) = None \<and>
     (s_level s \<noteq> 0 \<longrightarrow> (\<exists>b. s_buffer s = Some b \<and> s_cur s + s_level s \<le> length b))"

lemma idle_flush: "idle s \<Longrightarrow> \<exists>s'. dico_stream_flush s = Some (s', 0) \<and> idle s'"
  by (auto simp: idle_def dico_stream_flush_def stream_flush_buffer.simps [of s] stream_flush_end_def stream_window_def
      stream_call_flush_def)

definition io_ok ::
  "('d \<Rightarrow> bytes \<Rightarrow> ('d \<times> (int + nat)) option) \<Rightarrow> ('d \<Rightarrow> bool) \<Rightarrow> ('d \<Rightarrow> ('d \<times> int) option) option \<Rightarrow> ('a, 'd) iostr \<Rightarrow> bool" where
  "io_ok wr ok fl p \<longleftrightarrow> write_ready wr ok (io_out p) \<and> d_flush (s_drv (io_out p)) = fl \<and> idle (io_in p)"

definition io_written :: "('d \<Rightarrow> bytes) \<Rightarrow> ('a, 'd) iostr \<Rightarrow> bytes" where
  "io_written out p = written out (io_out p)"

text \<open>A pair of streams over drivers that keep their contracts keeps the contract itself.\<close>

locale io_pair = base: flushed_sink wr ok out fl
  for wr :: "'d \<Rightarrow> bytes \<Rightarrow> ('d \<times> (int + nat)) option" and ok :: "'d \<Rightarrow> bool" and out :: "'d \<Rightarrow> bytes"
    and fl :: "('d \<Rightarrow> ('d \<times> int) option) option"
begin

lemma io_write_ok:
  assumes "io_ok wr ok fl p"
  shows "\<exists>p'. io_write p b = Some (p', Inr (length b)) \<and> io_ok wr ok fl p' \<and> io_written out p' = io_written out p @ b"
proof -
  obtain s' where "dico_stream_write (io_out p) b = Some (s', 0)" "write_ready wr ok s'" "appended out b (io_out p) s'"
    using base.stream_write_ok [of "io_out p" b] assms by (auto simp: io_ok_def)
  with assms show ?thesis by (auto simp: io_write_def io_ok_def io_written_def appended_def)
qed

lemma io_flush_ok:
  assumes "io_ok wr ok fl p"
  shows "\<exists>p'. io_flush p = Some (p', 0) \<and> io_ok wr ok fl p' \<and> io_written out p' = io_written out p"
proof -
  obtain s' where "dico_stream_flush (io_out p) = Some (s', 0)" "write_ready wr ok s'" "moved out (io_out p) s'"
    using base.dico_stream_flush_ok [of "io_out p"] assms by (auto simp: io_ok_def)
  moreover obtain i where "dico_stream_flush (io_in p) = Some (i, 0)" "idle i"
    using idle_flush [of "io_in p"] assms by (auto simp: io_ok_def)
  ultimately show ?thesis using assms by (auto simp: io_flush_def io_ok_def io_written_def moved_def)
qed

end

sublocale io_pair \<subseteq> io: flushed_sink io_write "io_ok wr ok fl" "io_written out" "Some io_flush"
proof (unfold_locales, goal_cases)
  case (1 d b)
  then show ?case using io_write_ok [of d b] by fastforce
next
  case (2 f d)
  then show ?case using io_flush_ok [of d] by auto
qed

interpretation pipe_pair: io_pair "fd_write pipe_posix" "\<lambda>p. True" "\<lambda>p. snd (fst p)" None
  by (rule io_pair.intro) (rule pipe.fd_out.flushed_sink_axioms)

section \<open>End-of-line conversion, writing\<close>

text \<open>What the converter should make of a text: every newline not after a carriage return gets one.\<close>

fun crlf_enc :: "crlf_state \<Rightarrow> bytes \<Rightarrow> bytes" where
  "crlf_enc st [] = []"
| "crlf_enc st (c # p) =
     (if c = 0x0a \<and> st \<noteq> state_cr then 0x0d # 0x0a # crlf_enc state_init p
      else c # crlf_enc (if c = 0x0d then state_cr else state_init) p)"

fun crlf_final :: "crlf_state \<Rightarrow> bytes \<Rightarrow> crlf_state" where
  "crlf_final st [] = st"
| "crlf_final st (c # p) = crlf_final (if c = 0x0d then state_cr else state_init) p"

text \<open>A text in which every newline follows a carriage return; \<open>b\<close>: one was just seen.\<close>

fun crlf_clean :: "bool \<Rightarrow> bytes \<Rightarrow> bool" where
  "crlf_clean b [] \<longleftrightarrow> True"
| "crlf_clean b (c # p) \<longleftrightarrow> (c = 0x0a \<longrightarrow> b) \<and> crlf_clean (c = 0x0d) p"

lemma crlf_enc_clean: "crlf_clean (st = state_cr) (crlf_enc st p)"
  by (induction st p rule: crlf_enc.induct) auto

lemma crlf_enc_filter: "filter (\<lambda>c. c \<noteq> 0x0d) (crlf_enc st p) = filter (\<lambda>c. c \<noteq> 0x0d) p"
  by (induction st p rule: crlf_enc.induct) auto

context byte_sink
begin

lemma crlf_write_loop_ok:
  "write_ready wr ok t \<Longrightarrow>
   \<exists>t'. crlf_write_loop t st seg p = Some (t', crlf_final st p) \<and> write_ready wr ok t' \<and> appended out (seg @ crlf_enc st p) t t'"
proof (induction p arbitrary: t st seg)
  case Nil
  show ?case
  proof (cases "seg = []")
    case False
    with stream_write_ok [OF Nil, of seg] show ?thesis by auto
  qed (use Nil in simp)
next
  case (Cons c p)
  show ?case
  proof (cases "c = 0x0a \<and> st \<noteq> state_cr")
    case True
    obtain t1 where t1: "(if seg \<noteq> [] then map_option fst (dico_stream_write t seg) else Some t) = Some t1"
      "write_ready wr ok t1" "appended out seg t t1"
    proof (cases "seg = []")
      case False
      with stream_write_ok [OF Cons.prems, of seg] show ?thesis by (auto intro: that)
    qed (use Cons.prems in \<open>auto intro: that\<close>)
    obtain t2 where t2: "dico_stream_write t1 [0x0d, 0x0a] = Some (t2, 0)" "write_ready wr ok t2"
      "appended out [0x0d, 0x0a] t1 t2" using stream_write_ok [OF t1(2)] by blast
    have st: "st = state_init" using True by (cases st) auto
    obtain t3 where "crlf_write_loop t2 st [] p = Some (t3, crlf_final st p)" "write_ready wr ok t3"
      "appended out ([] @ crlf_enc st p) t2 t3" using Cons.IH [OF t2(2)] by blast
    with t1 t2 True st show ?thesis
      using appended_trans [OF t1(3) appended_trans [OF t2(3)]] by auto
  next
    case False
    let ?st = "if c = 0x0d then state_cr else state_init"
    have "crlf_write_loop t st seg (c # p) = crlf_write_loop t ?st (seg @ [c]) p" using False by auto
    with Cons.IH [OF Cons.prems, of ?st "seg @ [c]"] False show ?thesis by auto
  qed
qed

lemma crlfstr_write_ok:
  assumes "write_ready wr ok (cs_transport s)"
  shows "\<exists>s'. crlfstr_write s buf = Some (s', Inr (length buf)) \<and> write_ready wr ok (cs_transport s') \<and>
    written out (cs_transport s') = written out (cs_transport s) @ crlf_enc (cs_state s) buf \<and>
    cs_state s' = crlf_final (cs_state s) buf"
  using crlf_write_loop_ok [OF assms, of "cs_state s" "[]" buf] by (auto simp: crlfstr_write_def appended_def)

end

section \<open>End-of-line conversion, reading\<close>

text \<open>A text in which every carriage return is followed by a newline.\<close>

fun crs_ok :: "bytes \<Rightarrow> bool" where
  "crs_ok [] \<longleftrightarrow> True"
| "crs_ok (c # p) \<longleftrightarrow> (c = 0x0d \<longrightarrow> p \<noteq> [] \<and> hd p = 0x0a) \<and> crs_ok p"

text \<open>A part of such a text: its last character may be a carriage return.\<close>

fun crs_in :: "bytes \<Rightarrow> bool" where
  "crs_in [] \<longleftrightarrow> True"
| "crs_in (c # p) \<longleftrightarrow> (c = 0x0d \<longrightarrow> p \<noteq> [] \<longrightarrow> hd p = 0x0a) \<and> crs_in p"

lemma crs_ok_append:
  "crs_ok (p @ q) \<Longrightarrow> crs_in p \<and> crs_ok q \<and> (p \<noteq> [] \<longrightarrow> last p = 0x0d \<longrightarrow> q \<noteq> [] \<and> hd q = 0x0a)"
  by (induction p) (auto split: if_splits)

abbreviation no_cr :: "bytes \<Rightarrow> bytes" where
  "no_cr \<equiv> filter (\<lambda>c. c \<noteq> 0x0d)"

lemma list_update_gap: "(pre @ mid @ c # bs)[length pre := c] = (pre @ [c]) @ tl (mid @ [c]) @ bs"
  by (cases mid) (simp_all add: list_update_append)

lemma crlf_chars_ok:
  "crs_in bs \<Longrightarrow> cb = 0 \<or> cb = 0x0d \<and> (bs \<noteq> [] \<longrightarrow> hd bs = 0x0a) \<Longrightarrow>
   \<exists>mid'. crlf_chars [length pre + length mid..<length pre + length mid + length bs] (pre @ mid @ bs @ post, length pre, cb) =
     Some (pre @ no_cr bs @ mid' @ post, length pre + length (no_cr bs),
       if bs = [] then cb else if last bs = 0x0d then 0x0d else 0) \<and>
     length mid' + length (no_cr bs) = length mid + length bs"
proof (induction bs arbitrary: pre mid cb)
  case Nil
  then show ?case by simp
next
  case (Cons c bs)
  let ?i = "length pre + length mid"
  have at: "(pre @ mid @ c # bs @ post) ! ?i = c" by (simp add: nth_append)
  have upt: "[?i..<?i + length (c # bs)] = ?i # [Suc ?i..<Suc ?i + length bs]"
    by (subst upt_conv_Cons) simp_all
  show ?case
  proof (cases "c = 0x0d")
    case True
    then have cb: "cb = 0" using Cons.prems(2) by auto
    have char: "crlf_char ?i (pre @ mid @ c # bs @ post, length pre, cb) = Some (pre @ mid @ c # bs @ post, length pre, 0x0d)"
      using at True cb by (simp add: crlf_char_def)
    have "crs_in bs" "(0x0d :: byte) = 0 \<or> (0x0d :: byte) = 0x0d \<and> (bs \<noteq> [] \<longrightarrow> hd bs = 0x0a)" using Cons.prems True by auto
    from Cons.IH [OF this, of pre "mid @ [c]"] char True show ?thesis unfolding upt by (auto simp del: upt_Suc)
  next
    case False
    let ?pre = "pre @ [c]" and ?mid = "tl (mid @ [c])"
    have lt: "length pre < length (pre @ mid @ c # bs @ post)" by simp
    have ind: "?i + 1 = length ?pre + length ?mid" by (cases mid) auto
    have put: "crlf_put c (pre @ mid @ c # bs @ post, length pre) = Some (?pre @ ?mid @ bs @ post, length ?pre)"
      using list_update_gap [of pre mid c "bs @ post"] by (simp add: crlf_put_def)
    have char: "crlf_char ?i (pre @ mid @ c # bs @ post, length pre, cb) = Some (?pre @ ?mid @ bs @ post, length ?pre, 0)"
    proof (cases "c = 0x0a")
      case True
      with at put show ?thesis by (simp add: crlf_char_def del: append.append_Cons append_assoc)
    next
      case nl: False
      then have "cb = 0" using Cons.prems(2) by auto
      with at put nl False show ?thesis by (simp add: crlf_char_def del: append.append_Cons append_assoc)
    qed
    have "crs_in bs" "(0 :: byte) = 0 \<or> (0 :: byte) = 0x0d \<and> (bs \<noteq> [] \<longrightarrow> hd bs = 0x0a)" using Cons.prems(1) by auto
    from Cons.IH [OF this, of ?pre ?mid] obtain mid' where
      "crlf_chars [Suc ?i..<Suc ?i + length bs] (?pre @ ?mid @ bs @ post, length ?pre, 0) =
        Some (?pre @ no_cr bs @ mid' @ post, length ?pre + length (no_cr bs), if bs = [] then 0 else if last bs = 0x0d then 0x0d else 0)"
      "length mid' + length (no_cr bs) = length ?mid + length bs"
      unfolding ind [symmetric] by auto
    with char False show ?thesis unfolding upt by (auto simp del: upt_Suc)
  qed
qed

text \<open>Reading what there is from a transport without a buffer.\<close>

definition raw_ready ::
  "('d \<Rightarrow> nat \<Rightarrow> ('d \<times> (int + bytes)) option) \<Rightarrow> ('d \<Rightarrow> bool) \<Rightarrow> ('d \<Rightarrow> bytes) \<Rightarrow> 'd dico_stream \<Rightarrow> bool" where
  "raw_ready rd ok inp t \<longleftrightarrow> read_ready rd ok inp t \<and> s_buftype t = dico_buffer_none"

definition crlf_ok ::
  "('d \<Rightarrow> nat \<Rightarrow> ('d \<times> (int + bytes)) option) \<Rightarrow> ('d \<Rightarrow> bool) \<Rightarrow> ('d \<Rightarrow> bytes) \<Rightarrow> 'd crlfstr \<Rightarrow> bool" where
  "crlf_ok rd ok inp s \<longleftrightarrow> raw_ready rd ok inp (cs_transport s) \<and> crs_ok (inp (s_data (cs_transport s))) \<and> cs_cb s = 0"

definition crlf_rest :: "('d \<Rightarrow> bytes) \<Rightarrow> 'd crlfstr \<Rightarrow> bytes" where
  "crlf_rest inp s = no_cr (inp (s_data (cs_transport s)))"

locale crlf_transport = base: byte_source rd ok inp
  for rd :: "'d \<Rightarrow> nat \<Rightarrow> ('d \<times> (int + bytes)) option" and ok :: "'d \<Rightarrow> bool" and inp :: "'d \<Rightarrow> bytes"
begin

lemma raw_read:
  assumes "raw_ready rd ok inp t" and "0 < n"
  shows "\<exists>t' bs. dico_stream_read t n True = Some (t', 0, bs) \<and> raw_ready rd ok inp t' \<and> length bs \<le> n \<and>
    inp (s_data t) = bs @ inp (s_data t') \<and> (bs = [] \<longrightarrow> inp (s_data t) = [])"
proof -
  have t: "d_read (s_drv t) = Some rd" "ok (s_data t)" "DICO_STREAM_READ \<in> s_flags t" "STR_ERR \<notin> s_flags t"
    "s_buftype t = dico_buffer_none" using assms(1) by (auto simp: raw_ready_def read_ready_def)
  show ?thesis
  proof (cases "STR_EOF \<in> s_flags t")
    case True
    then have "inp (s_data t) = []" using assms(1) by (auto simp: raw_ready_def read_ready_def)
    with True t assms show ?thesis by (auto simp: dico_stream_read_def dico_stream_read_unbuffered_def)
  next
    case False
    obtain d bs where d: "rd (s_data t) n = Some (d, Inr bs)" "length bs \<le> n" "ok d" "inp (s_data t) = bs @ inp d"
      "bs = [] \<longrightarrow> inp (s_data t) = []" using base.read_some [OF t(2) assms(2)] by blast
    with t False assms show ?thesis
      by (auto simp: dico_stream_read_def dico_stream_read_unbuffered_def stream_seterror_def raw_ready_def read_ready_def)
  qed
qed

lemma crlf_read_loop_ok:
  "raw_ready rd ok inp t \<Longrightarrow> crs_ok (inp (s_data t)) \<Longrightarrow>
   cb = 0 \<or> cb = 0x0d \<and> inp (s_data t) \<noteq> [] \<and> hd (inp (s_data t)) = 0x0a \<Longrightarrow> tot < length buf \<Longrightarrow>
   \<exists>t' buf' tot' ys. crlf_read_loop t 0 (buf, tot, cb) = Some (t', 0, buf', tot', 0) \<and> raw_ready rd ok inp t' \<and>
     crs_ok (inp (s_data t')) \<and> tot' \<le> length buf \<and> length buf' = length buf \<and> take tot' buf' = take tot buf @ ys \<and>
     no_cr (inp (s_data t)) = ys @ no_cr (inp (s_data t')) \<and> (tot' = length buf \<or> inp (s_data t') = [])"
proof (induction "length (inp (s_data t))" arbitrary: t cb tot buf rule: less_induct)
  case less
  obtain t1 bs where t1: "dico_stream_read t (length buf - tot) True = Some (t1, 0, bs)" "raw_ready rd ok inp t1"
    "length bs \<le> length buf - tot" "inp (s_data t) = bs @ inp (s_data t1)" "bs = [] \<longrightarrow> inp (s_data t) = []"
    using raw_read [OF less.prems(1), of "length buf - tot"] less.prems(4) by auto
  show ?case
  proof (cases "bs = []")
    case True
    then have "inp (s_data t) = []" "cb = 0" using t1(5) less.prems(3) by auto
    moreover have "crlf_read_loop t 0 (buf, tot, cb) = Some (t1, 0, buf, tot, cb)"
      using t1(1) True less.prems(4) by (subst crlf_read_loop.simps) simp
    ultimately show ?thesis using t1(2,4) less.prems(4) by (intro exI [of _ t1] exI [of _ buf] exI [of _ tot] exI [of _ "[]"]) auto
  next
    case False
    note cr = crs_ok_append [OF less.prems(2) [unfolded t1(4)]]
    let ?pre = "take tot buf" and ?post = "drop (tot + length bs) buf"
    let ?cb = "if last bs = 0x0d then 0x0d else 0 :: byte"
    have lp: "length ?pre = tot" using less.prems(4) by simp
    have cb: "cb = 0 \<or> cb = 0x0d \<and> (bs \<noteq> [] \<longrightarrow> hd bs = 0x0a)" using less.prems(3) t1(4) False by auto
    obtain mid where chars: "crlf_chars [tot..<tot + length bs] (?pre @ bs @ ?post, tot, cb) =
        Some (?pre @ no_cr bs @ mid @ ?post, tot + length (no_cr bs), ?cb)" "length mid + length (no_cr bs) = length bs"
      using crlf_chars_ok [OF conjunct1 [OF cr] cb, of ?pre "[]" ?post] False lp by auto
    define buf1 where "buf1 = ?pre @ no_cr bs @ mid @ ?post"
    define tot1 where "tot1 = tot + length (no_cr bs)"
    have len: "length buf1 = length buf" using chars(2) t1(3) lp by (simp add: buf1_def)
    have tk: "take tot1 buf1 = ?pre @ no_cr bs" using lp by (simp add: buf1_def tot1_def)
    have tot1: "tot1 \<le> length buf" using chars(2) t1(3) less.prems(4) by (simp add: tot1_def)
    have step: "crlf_read_loop t 0 (buf, tot, cb) = crlf_read_loop t1 0 (buf1, tot1, ?cb)"
      using t1(1) False less.prems(4) chars(1) by (subst crlf_read_loop.simps) (simp add: buf1_def tot1_def)
    show ?thesis
    proof (cases "tot1 = length buf")
      case True
      then have "length (no_cr bs) = length bs" using chars(2) t1(3) less.prems(4) by (simp add: tot1_def)
      then have "\<forall>c\<in>set bs. c \<noteq> 0x0d" using length_filter_less [of _ bs "\<lambda>c. c \<noteq> 0x0d"] by fastforce
      then have "last bs \<noteq> 0x0d" using False last_in_set [of bs] by auto
      moreover have "crlf_read_loop t1 0 (buf1, tot1, 0) = Some (t1, 0, buf1, tot1, 0)"
        using True len by (subst crlf_read_loop.simps) simp
      ultimately show ?thesis
        using step t1(2,4) cr tk len True less.prems(4)
        by (intro exI [of _ t1] exI [of _ buf1] exI [of _ tot1] exI [of _ "no_cr bs"]) auto
    next
      case nfull: False
      have "length (inp (s_data t1)) < length (inp (s_data t))" using t1(4) False by simp
      moreover have "?cb = 0 \<or> ?cb = 0x0d \<and> inp (s_data t1) \<noteq> [] \<and> hd (inp (s_data t1)) = 0x0a" using cr False by auto
      moreover have "crs_ok (inp (s_data t1))" using cr by simp
      moreover have "tot1 < length buf1" using nfull tot1 len by simp
      ultimately obtain t' buf' tot' ys where r:
        "crlf_read_loop t1 0 (buf1, tot1, ?cb) = Some (t', 0, buf', tot', 0)" "raw_ready rd ok inp t'"
        "crs_ok (inp (s_data t'))" "tot' \<le> length buf1" "length buf' = length buf1" "take tot' buf' = take tot1 buf1 @ ys"
        "no_cr (inp (s_data t1)) = ys @ no_cr (inp (s_data t'))" "tot' = length buf1 \<or> inp (s_data t') = []"
        using less.hyps [of t1 ?cb tot1 buf1] t1(2) by blast
      then show ?thesis
        using step t1(4) tk len
        by (intro exI [of _ t'] exI [of _ buf'] exI [of _ tot'] exI [of _ "no_cr bs @ ys"]) auto
    qed
  qed
qed

lemma crlfstr_read_ok:
  assumes "crlf_ok rd ok inp s" and "0 < n"
  shows "\<exists>s' ys. crlfstr_read s n = Some (s', Inr ys) \<and> length ys \<le> n \<and> crlf_ok rd ok inp s' \<and>
    crlf_rest inp s = ys @ crlf_rest inp s' \<and> (ys = [] \<longrightarrow> crlf_rest inp s = [])"
proof -
  obtain t' buf' tot' ys where r: "crlf_read_loop (cs_transport s) 0 (replicate n 0, 0, 0) = Some (t', 0, buf', tot', 0)"
    "raw_ready rd ok inp t'" "crs_ok (inp (s_data t'))" "tot' \<le> n" "length buf' = n" "take tot' buf' = ys"
    "no_cr (inp (s_data (cs_transport s))) = ys @ no_cr (inp (s_data t'))" "tot' = n \<or> inp (s_data t') = []"
    using crlf_read_loop_ok [of "cs_transport s" 0 0 "replicate n 0"] assms by (auto simp: crlf_ok_def)
  let ?s = "s\<lparr>cs_transport := t', cs_cb := 0\<rparr>"
  have "crlfstr_read s n = Some (?s, Inr ys)" using r(1,6) assms(1) by (simp add: crlfstr_read_def crlf_ok_def Let_def)
  moreover have "length ys = tot'" using r(4-6) by auto
  moreover have "ys = [] \<longrightarrow> crlf_rest inp s = []" using r(7,8) \<open>length ys = tot'\<close> assms(2) by (auto simp: crlf_rest_def)
  ultimately show ?thesis
    using r assms by (intro exI [of _ ?s] exI [of _ ys]) (auto simp: crlf_ok_def crlf_rest_def)
qed

end

sublocale crlf_transport \<subseteq> crlf: byte_source crlfstr_read "crlf_ok rd ok inp" "crlf_rest inp"
  by unfold_locales (rule crlfstr_read_ok)

interpretation pipe_crlf: crlf_transport "fd_read pipe_posix" "\<lambda>p. True" "\<lambda>p. fst (fst p)"
  by (rule crlf_transport.intro) (rule pipe.fd_in.byte_source_axioms)

lemma crs_ok_enc: "0x0d \<notin> set p \<Longrightarrow> crs_ok (crlf_enc state_init p) \<and> no_cr (crlf_enc state_init p) = p"
  by (induction p) (auto simp: crlf_enc_filter)

section \<open>Properties\<close>

text \<open>A stream on descriptor 0 of the pipe system, for use as an example.\<close>

definition pipe_stream :: "bytes \<Rightarrow> sflag set \<Rightarrow> dico_buffer_type \<Rightarrow> nat \<Rightarrow> (bytes \<times> bytes) fd_data dico_stream" where
  "pipe_stream i flags typ sz =
     fst (the (dico_stream_set_buffer True (the (dico_fd_stream_create pipe_posix (True, True) (i, []) 0 flags True)) typ sz))"

lemma pipe_stream_fields:
  "d_read (s_drv (pipe_stream i flags typ sz)) = Some (fd_read pipe_posix)"
  "d_write (s_drv (pipe_stream i flags typ sz)) = Some (fd_write pipe_posix)"
  "d_flush (s_drv (pipe_stream i flags typ sz)) = None" "d_seek (s_drv (pipe_stream i flags typ sz)) = Some (fd_seek pipe_posix)"
  "s_data (pipe_stream i flags typ sz) = ((i, []), 0)" "s_flags (pipe_stream i flags typ sz) = flags"
  "s_buftype (pipe_stream i flags typ sz) = (if sz = 0 then dico_buffer_none else typ)"
  "s_cur (pipe_stream i flags typ sz) = 0" "s_level (pipe_stream i flags typ sz) = 0"
  "typ \<noteq> dico_buffer_none \<Longrightarrow> 0 < sz \<Longrightarrow> s_bufsize (pipe_stream i flags typ sz) = sz"
  "s_buffer (pipe_stream i flags typ sz) =
     (if sz = 0 \<or> typ = dico_buffer_none then None else Some (replicate sz 0))"
  "s_bytes_out (pipe_stream i flags typ sz) = 0" "pending (pipe_stream i flags typ sz) = []"
  by (auto simp: pipe_stream_def dico_fd_stream_create_def dico_stream_create_def no_driver_def dico_stream_set_buffer_def Let_def
        dico_stream_set_write_def dico_stream_set_read_def dico_stream_set_seek_def dico_stream_set_size_def
        dico_stream_set_destroy_def pending_def stream_window_def)

lemma pipe_stream_writes:
  "typ \<noteq> dico_buffer_none \<Longrightarrow> 0 < sz \<Longrightarrow> write_ready (fd_write pipe_posix) (\<lambda>p. True) (pipe_stream i {DICO_STREAM_WRITE} typ sz)"
  by (simp add: write_ready_def pipe_stream_fields)

lemma pipe_stream_reads:
  "typ \<noteq> dico_buffer_none \<Longrightarrow> 0 < sz \<Longrightarrow>
   read_ready (fd_read pipe_posix) (\<lambda>p. True) (\<lambda>p. fst (fst p)) (pipe_stream i {DICO_STREAM_READ} typ sz)"
  "raw_ready (fd_read pipe_posix) (\<lambda>p. True) (\<lambda>p. fst (fst p)) (pipe_stream i {DICO_STREAM_READ} typ 0)"
  by (simp_all add: read_ready_def raw_ready_def pipe_stream_fields)

text \<open>
  C29: On a stream over a driver that keeps the contract of a sink, whatever sizes the
  driver accepts at a time, \<^verbatim>\<open>dico_stream_write\<close> returns and \<^verbatim>\<open>dico_stream_flush\<close> after
  it delivers exactly the bytes written, in the order they were written, and counts them;
  a line-buffered stream has delivered every complete line already when the write returns.
\<close>

theorem stream_write_then_flush:
  assumes "flushed_sink wr ok out (d_flush (s_drv s))" and "write_ready wr ok s"
  shows "\<exists>s' s''. dico_stream_write s buf = Some (s', 0) \<and> write_ready wr ok s' \<and> written out s' = written out s @ buf \<and>
    (s_buftype s = dico_buffer_line \<longrightarrow> 0x0a \<notin> set (pending s')) \<and>
    dico_stream_flush s' = Some (s'', 0) \<and> write_ready wr ok s'' \<and> out (s_data s'') = written out s @ buf \<and>
    s_bytes_out s'' = s_bytes_out s + int (length (pending s @ buf))"
  by (rule flushed_sink.write_then_flush [OF assms refl])

theorem stream_write_then_flush_witness:
  "\<exists>s' s''. dico_stream_write (pipe_stream [] {DICO_STREAM_WRITE} dico_buffer_line 4) [0x61, 0x0a, 0x62] = Some (s', 0) \<and>
    dico_stream_flush s' = Some (s'', 0) \<and> snd (fst (s_data s'')) = [0x61, 0x0a, 0x62] \<and> s_bytes_out s'' = 3"
  using stream_write_then_flush [of "fd_write pipe_posix" "\<lambda>p. True" "\<lambda>p. snd (fst p)"
      "pipe_stream [] {DICO_STREAM_WRITE} dico_buffer_line 4" "[0x61, 0x0a, 0x62]"]
    pipe.fd_out.flushed_sink_axioms pipe_stream_writes [of dico_buffer_line 4 "[]"]
  by (auto simp: pipe_stream_fields written_def)

text \<open>
  C30: \<^verbatim>\<open>dico_stream_getline\<close> on a stream over a driver that keeps the contract of a source
  returns, gives the bytes up to and including the next newline, leaves the rest to be read,
  and its line buffer has room for the terminating NUL; this for every kind of buffering
  and whatever sizes the driver delivers at a time.
\<close>

theorem stream_getline_reads_line:
  assumes "byte_source rd ok inp" and "read_ready rd ok inp s" and "remaining inp s = l @ 0x0a # r"
    and "0x0a \<notin> set l" and "\<forall>k. alloc k" and "length l < 2 ^ 62"
  shows "\<exists>s' n. dico_stream_getline alloc s psize = Some (s', 0, l @ [0x0a], n) \<and> read_ready rd ok inp s' \<and>
    remaining inp s' = r \<and> length l + 1 < n"
  using byte_source.getline_ok [OF assms(1-4), of alloc psize] assms(5,6) by blast

theorem stream_getline_reads_line_witness:
  "\<exists>s' n. dico_stream_getline (\<lambda>_. True) (pipe_stream [0x61, 0x62, 0x0a, 0x63] {DICO_STREAM_READ} dico_buffer_line 2) None =
     Some (s', 0, [0x61, 0x62, 0x0a], n)"
  using stream_getline_reads_line [of "fd_read pipe_posix" "\<lambda>p. True" "\<lambda>p. fst (fst p)"
      "pipe_stream [0x61, 0x62, 0x0a, 0x63] {DICO_STREAM_READ} dico_buffer_line 2" "[0x61, 0x62]" "[0x63]" "\<lambda>_. True" None]
    pipe.fd_in.byte_source_axioms pipe_stream_reads(1) [of dico_buffer_line 2 "[0x61, 0x62, 0x0a, 0x63]"]
  by (auto simp: pipe_stream_fields remaining_def)

text \<open>
  Through a CRLF stream every newline reaches the transport as carriage return and
  newline and nothing else is changed: what is appended to the transport has no newline
  without a carriage return before it, and dropping the carriage returns from it gives what
  dropping them from the text gives; carriage returns at the end of one write and newlines
  at the start of the next are recognised as a pair.
\<close>

theorem crlf_write_converts:
  assumes "byte_sink wr ok out" and "write_ready wr ok (cs_transport s)"
  shows "\<exists>s' x. crlfstr_write s buf = Some (s', Inr (length buf)) \<and> write_ready wr ok (cs_transport s') \<and>
    written out (cs_transport s') = written out (cs_transport s) @ x \<and>
    crlf_clean (cs_state s = state_cr) x \<and> no_cr x = no_cr buf \<and>
    (crlf_clean (cs_state s = state_cr) buf \<longrightarrow> x = buf) \<and>
    (buf \<noteq> [] \<longrightarrow> (cs_state s' = state_cr \<longleftrightarrow> last buf = 0x0d))"
proof -
  have same: "crlf_clean (st = state_cr) b \<Longrightarrow> crlf_enc st b = b" for st b
    by (induction st b rule: crlf_enc.induct) (auto split: if_splits)
  have fin: "b \<noteq> [] \<Longrightarrow> crlf_final st b = state_cr \<longleftrightarrow> last b = 0x0d" for st b
    by (induction st b rule: crlf_final.induct) auto
  show ?thesis
    using byte_sink.crlfstr_write_ok [OF assms, of buf] crlf_enc_clean [of "cs_state s" buf]
      crlf_enc_filter [of "cs_state s" buf] same [of "cs_state s" buf] fin [of buf "cs_state s"] by metis
qed

theorem crlf_write_converts_witness:
  "\<exists>s' x. crlfstr_write \<lparr>cs_transport = pipe_stream [] {DICO_STREAM_WRITE} dico_buffer_line 4, cs_noclose = True,
       cs_state = state_init, cs_cb = 0\<rparr> [0x61, 0x0a] = Some (s', Inr 2) \<and>
    written (\<lambda>p. snd (fst p)) (cs_transport s') = x \<and> crlf_clean False x \<and> no_cr x = [0x61, 0x0a]"
proof -
  have "byte_sink (fd_write pipe_posix) (\<lambda>p. True) (\<lambda>p. snd (fst p))"
    using pipe.fd_out.flushed_sink_axioms by (rule flushed_sink.axioms(1))
  from crlf_write_converts [OF this, of "\<lparr>cs_transport = pipe_stream [] {DICO_STREAM_WRITE} dico_buffer_line 4,
      cs_noclose = True, cs_state = state_init, cs_cb = 0\<rparr>" "[0x61, 0x0a]"] show ?thesis
    using pipe_stream_writes [of dico_buffer_line 4 "[]"] by (auto simp: written_def pipe_stream_fields)
qed



text \<open>
  A carriage return that is not followed by a newline corrupts the text when it is the last
  character a read delivers: it is stored over the next character before that is looked at.
  Reading \<^verbatim>\<open>CR x y\<close> byte by byte gives the carriage return three times.
\<close>

theorem crlf_read_bare_cr_corrupts:
  "let s0 = \<lparr>cs_transport = pipe_stream [0x0d, 0x78, 0x79] {DICO_STREAM_READ} dico_buffer_none 0, cs_noclose = True,
              cs_state = state_init, cs_cb = 0\<rparr> in
   \<exists>s1 s2. crlfstr_read s0 1 = Some (s1, Inr [0x0d]) \<and> crlfstr_read s1 1 = Some (s2, Inr [0x0d])"
  by (simp add: Let_def crlfstr_read_def crlf_read_loop.simps crlf_char_def crlf_put_def dico_stream_read_def
      dico_stream_read_unbuffered_def pipe_stream_fields fd_read_def pipe_posix_def stream_seterror_def upt_rec)

text \<open>
  The last line of the input is lost to a reader that stops at the first error when it has
  no newline: filling the line buffer hits the end of the input, and
  \<^verbatim>\<open>dico_stream_getline\<close> reports an error and an empty line although the buffer holds text.
\<close>

theorem unterminated_line_reported_empty:
  "\<exists>s' rc n. dico_stream_getline (\<lambda>_. True) (pipe_stream [0x61] {DICO_STREAM_READ} dico_buffer_line 4) None = Some (s', rc, [], n) \<and>
    rc \<noteq> 0 \<and> pending s' = [0x61]"
  by (simp add: dico_stream_getline_def dico_stream_getdelim_def stream_getdelim_loop.simps dico_stream_read_def
      stream_read_buffered.simps stream_fill_buffer_def stream_fill_line.simps dico_stream_read_unbuffered_def
      stream_read_loop.simps pipe_stream_fields fd_read_def pipe_posix_def stream_seterror_def Let_def errcode_def
      pending_def stream_window_def) (simp add: numeral_eq_Suc)

end
