(* ===== verification/Dico_Filter.thy ===== *)
theory Dico_Filter
  imports Dico_Codec_Props Dico_Drivers_Props
begin

text \<open>
  Filter streams: \<^verbatim>\<open>lib/fltstream.c\<close>, the streams that encode what is written to them
  in base64 or quoted-printable and wrap the lines. The converter is a field of the state;
  the memory of the buffer is a list of \<open>FILTER_BSIZE\<close> bytes. \<open>None\<close> also stands for
  the endless loop of \<^verbatim>\<open>filter_write0\<close> with a converter that consumes nothing.
\<close>

definition FILTER_BSIZE :: nat where
  "FILTER_BSIZE = 2048"

record 't filter_stream =
  fs_transport :: "'t dico_stream"
  fs_buf :: bytes
  fs_level :: nat
  fs_min_level :: nat
  fs_max_line_length :: nat
  fs_line_length :: nat
  fs_xcode :: xcode
  fs_inbuf :: bytes

text \<open>
  \<^verbatim>\<open>fs_inbuf\<close> holds the \<^verbatim>\<open>inlevel\<close> bytes that wait for more; its memory has
  \<^verbatim>\<open>min_level\<close> bytes.
\<close>

definition fs_inlevel :: "'t filter_stream \<Rightarrow> nat" where
  "fs_inlevel fs = length (fs_inbuf fs)"

definition put_mem :: "bytes \<Rightarrow> nat \<Rightarrow> bytes \<Rightarrow> bytes" where
  "put_mem mem pos bs = take pos mem @ bs @ drop (pos + length bs) mem"

text \<open>
  \<^verbatim>\<open>filter_read\<close>: the level is set to the number of bytes read, not increased by it,
  and after the conversion to the number of bytes consumed.
\<close>

definition filter_read :: "'t filter_stream \<Rightarrow> nat \<Rightarrow> ('t filter_stream \<times> (int + bytes)) option" where
  "filter_read fs sz = do {
     (fs, rc) \<leftarrow>
       (if fs_level fs < fs_min_level fs
        then do {
          (t, rc, bs) \<leftarrow> dico_stream_read (fs_transport fs) (FILTER_BSIZE - fs_level fs) True;
          (let fs = fs\<lparr>fs_transport := t\<rparr> in
           if rc \<noteq> 0 then Some (fs, rc)
           else Some (fs\<lparr>fs_buf := put_mem (fs_buf fs) (fs_level fs) bs, fs_level := length bs\<rparr>, 0)) }
        else Some (fs, 0));
     (if rc \<noteq> 0 then Some (fs, Inl rc)
      else if fs_level fs \<noteq> 0
      then do {
        (consumed, nbytes, out) \<leftarrow> fs_xcode fs (take (fs_level fs) (fs_buf fs)) sz;
        (if consumed \<le> fs_level fs
         then Some (fs\<lparr>fs_buf := put_mem (fs_buf fs) 0 (take (fs_level fs - consumed) (drop consumed (fs_buf fs))),
                       fs_level := consumed\<rparr>, Inr (take (unat nbytes) out))
         else None) }
      else Some (fs, Inr [])) }"

text \<open>The loop of \<^verbatim>\<open>filter_flush\<close> that breaks lines; a newline in the data is dropped.\<close>

partial_function (option) filter_flush_loop :: "'t filter_stream \<Rightarrow> bytes \<Rightarrow> ('t filter_stream \<times> int) option" where
  "filter_flush_loop fs buf =
     (if buf = [] then Some (fs\<lparr>fs_level := 0\<rparr>, 0)
      else
        let rest = min (fs_max_line_length fs - fs_line_length fs) (length buf);
            skip = (case index_of 0x0a buf of None \<Rightarrow> False | Some i \<Rightarrow> i \<le> rest);
            len = (case index_of 0x0a buf of None \<Rightarrow> rest | Some i \<Rightarrow> min i rest) in do {
          (t, rc) \<leftarrow> dico_stream_write (fs_transport fs) (take len buf);
          (if rc \<noteq> 0 then Some (fs\<lparr>fs_transport := t\<rparr>, 1)
           else
             let fs = fs\<lparr>fs_transport := t, fs_line_length := fs_line_length fs + len\<rparr>;
                 len = (if skip then len + 1 else len) in
             if fs_line_length fs = fs_max_line_length fs
             then do {
               (t, rc) \<leftarrow> dico_stream_write (fs_transport fs) [0x0a];
               (let fs = fs\<lparr>fs_transport := t, fs_line_length := 0\<rparr> in
                if rc \<noteq> 0 then Some (fs, 1) else filter_flush_loop fs (drop len buf)) }
             else filter_flush_loop fs (drop len buf)) })"

definition filter_flush :: "'t filter_stream \<Rightarrow> ('t filter_stream \<times> int) option" where
  "filter_flush fs =
     (if fs_level fs = 0 then Some (fs, 0)
      else if fs_max_line_length fs = 0
      then do {
        (t, rc) \<leftarrow> dico_stream_write (fs_transport fs) (take (fs_level fs) (fs_buf fs));
        Some (if rc = 0 then fs\<lparr>fs_transport := t, fs_level := 0\<rparr> else fs\<lparr>fs_transport := t\<rparr>, rc) }
      else filter_flush_loop fs (take (fs_level fs) (fs_buf fs)))"

text \<open>
  \<^verbatim>\<open>filter_write0\<close>; the result is the code and \<^verbatim>\<open>*pret\<close>. The loop converts again after
  a flush as long as the converter consumes nothing.
\<close>

partial_function (option) filter_write0_loop :: "'t filter_stream \<Rightarrow> bytes \<Rightarrow> ('t filter_stream \<times> int \<times> nat) option" where
  "filter_write0_loop fs buf = do {
     (consumed, nbytes, out) \<leftarrow> fs_xcode fs buf (FILTER_BSIZE - fs_level fs);
     (if fs_level fs + length out \<le> FILTER_BSIZE
      then
        let fs = fs\<lparr>fs_buf := put_mem (fs_buf fs) (fs_level fs) out\<rparr> in
        if consumed = 0
        then do {
          (fs, rc) \<leftarrow> filter_flush fs;
          (if rc \<noteq> 0 then Some (fs, rc, 0) else filter_write0_loop (fs\<lparr>fs_level := 0\<rparr>) buf) }
        else Some (fs\<lparr>fs_level := fs_level fs + unat nbytes\<rparr>, 0, consumed)
      else None) }"

definition filter_write0 :: "'t filter_stream \<Rightarrow> bytes \<Rightarrow> ('t filter_stream \<times> int \<times> nat) option" where
  "filter_write0 fs buf =
     (if fs_level fs \<ge> FILTER_BSIZE - fs_min_level fs
      then do {
        (fs, rc) \<leftarrow> filter_flush fs;
        (if rc \<noteq> 0 then Some (fs, rc, 0) else filter_write0_loop (fs\<lparr>fs_level := 0\<rparr>) buf) }
      else filter_write0_loop fs buf)"

definition filter_write :: "'t filter_stream \<Rightarrow> bytes \<Rightarrow> ('t filter_stream \<times> (int + nat)) option" where
  "filter_write fs buf =
     (let finish = (\<lambda>fs buf ret.
            if buf \<noteq> [] then do {
              (fs, rc, wrs) \<leftarrow> filter_write0 fs buf;
              Some (fs, if rc = 0 then Inr (ret + wrs) else Inl rc) }
            else Some (fs, Inr ret)) in
      if length buf < fs_min_level fs \<or> (fs_inlevel fs \<noteq> 0 \<and> fs_inlevel fs < fs_min_level fs)
      then
        let rest = min (fs_min_level fs - fs_inlevel fs) (length buf);
            fs = fs\<lparr>fs_inbuf := fs_inbuf fs @ take rest buf\<rparr> in
        if fs_inlevel fs < fs_min_level fs then Some (fs, Inr rest)
        else do {
          (fs, rc, wrs) \<leftarrow> filter_write0 fs (fs_inbuf fs);
          (if rc \<noteq> 0 then Some (fs, Inl rc)
           else if wrs \<noteq> fs_inlevel fs then Some (fs, Inl 1)
           else finish (fs\<lparr>fs_inbuf := []\<rparr>) (drop rest buf) rest) }
      else finish fs buf 0)"

text \<open>
  \<^verbatim>\<open>filter_wr_flush\<close>: reading \<^verbatim>\<open>buf[level-1]\<close> of an empty buffer is undefined.
\<close>

definition fs_ends_nl :: "'t filter_stream \<Rightarrow> bool option" where
  "fs_ends_nl fs = (if fs_level fs = 0 then None else Some (fs_buf fs ! (fs_level fs - 1) = 0x0a))"

definition filter_wr_flush :: "'t filter_stream \<Rightarrow> ('t filter_stream \<times> int) option" where
  "filter_wr_flush fs =
     (if fs_level fs \<noteq> 0
      then do {
        nl \<leftarrow> fs_ends_nl fs;
        (fs, rc) \<leftarrow> filter_flush fs;
        (if rc = 0
         then do {
           (fs, nl, rc) \<leftarrow>
             (if fs_inlevel fs \<noteq> 0
              then do {
                (fs, _, _) \<leftarrow> filter_write0 fs (fs_inbuf fs);
                nl \<leftarrow> fs_ends_nl fs;
                (fs, rc) \<leftarrow> filter_flush fs;
                Some (fs, nl, rc) }
              else Some (fs, nl, rc));
           (if \<not> nl
            then do {
              (t, rc) \<leftarrow> dico_stream_write (fs_transport fs) [0x0a];
              Some (fs\<lparr>fs_transport := t\<rparr>, rc) }
            else Some (fs, rc)) }
         else Some (fs, rc)) }
      else Some (fs, 0))"

definition filter_stream_destroy :: "'t filter_stream \<Rightarrow> ('t filter_stream \<times> int) option" where
  "filter_stream_destroy fs = Some (fs, 0)"

definition filter_ioctl :: "'t filter_stream \<Rightarrow> ioctl \<Rightarrow> ('t filter_stream \<times> (int + int)) option" where
  "filter_ioctl fs code =
     (case code of
        DICO_IOCTL_BYTES_IN \<Rightarrow> do {
          (t, v) \<leftarrow> dico_stream_bytes_in (fs_transport fs); Some (fs\<lparr>fs_transport := t\<rparr>, Inr v) }
      | DICO_IOCTL_BYTES_OUT \<Rightarrow> do {
          (t, v) \<leftarrow> dico_stream_bytes_out (fs_transport fs); Some (fs\<lparr>fs_transport := t\<rparr>, Inr v) }
      | _ \<Rightarrow> Some (fs, Inl (-1)))"

datatype filter_mode = FILTER_ENCODE | FILTER_DECODE

text \<open>\<open>alloc\<close>: the state, the stream, the input buffer.\<close>

definition filter_stream_create ::
  "bool \<times> bool \<times> bool \<Rightarrow> 't dico_stream \<Rightarrow> nat \<Rightarrow> nat \<Rightarrow> xcode \<Rightarrow> filter_mode \<Rightarrow> 't filter_stream dico_stream option" where
  "filter_stream_create alloc t min_level max_line_length xc mode =
     (if \<not> fst alloc then None
      else case dico_stream_create (fst (snd alloc)) {if mode = FILTER_ENCODE then DICO_STREAM_WRITE else DICO_STREAM_READ}
             \<lparr>fs_transport = t, fs_buf = replicate FILTER_BSIZE 0, fs_level = 0, fs_min_level = min_level,
              fs_max_line_length = max_line_length, fs_line_length = 0, fs_xcode = xc, fs_inbuf = []\<rparr> of
        Inl _ \<Rightarrow> None
      | Inr s \<Rightarrow>
          if mode = FILTER_ENCODE
          then if \<not> snd (snd alloc) then None
            else
              let s = dico_stream_set_write s (Some filter_write);
                  s = dico_stream_set_flush s (Some filter_wr_flush);
                  s = dico_stream_set_destroy s (Some filter_stream_destroy)
              in Some (dico_stream_set_ioctl s (Some filter_ioctl))
          else Some (dico_stream_set_ioctl (dico_stream_set_read s (Some filter_read)) (Some filter_ioctl)))"

definition dico_base64_stream_create ::
  "bool \<times> bool \<times> bool \<Rightarrow> 't dico_stream \<Rightarrow> filter_mode \<Rightarrow> 't filter_stream dico_stream option" where
  "dico_base64_stream_create alloc t mode =
     filter_stream_create alloc t 3 76 (if mode = FILTER_ENCODE then flt_base64_encode else flt_base64_decode) mode"

definition dico_qp_stream_create ::
  "bool \<times> bool \<times> bool \<Rightarrow> 't dico_stream \<Rightarrow> filter_mode \<Rightarrow> 't filter_stream dico_stream option" where
  "dico_qp_stream_create alloc t mode =
     filter_stream_create alloc t 4 0 (if mode = FILTER_ENCODE then dico_qp_encode else dico_qp_decode) mode"

definition dico_codec_stream_create ::
  "bool \<times> bool \<times> bool \<Rightarrow> bytes \<Rightarrow> filter_mode \<Rightarrow> 't dico_stream \<Rightarrow> 't filter_stream dico_stream option" where
  "dico_codec_stream_create alloc encoding mode t =
     (if strcmp encoding (str ''base64'') = 0 then dico_base64_stream_create alloc t mode
      else if strcmp encoding (str ''quoted-printable'') = 0 then dico_qp_stream_create alloc t mode
      else None)"

end
