(* ===== verification/Dico_Filter_Props.thy ===== *)
theory Dico_Filter_Props
  imports Dico_Filter
begin

text \<open>
  What the encoding filter does to a message, from the write to the bytes on the transport,
  and the cases in which it goes wrong.
\<close>

section \<open>Breaking lines\<close>

text \<open>A newline after every \<open>mx\<close> characters; \<open>ll\<close> characters are on the line already.\<close>

fun wrap :: "nat \<Rightarrow> nat \<Rightarrow> bytes \<Rightarrow> bytes" where
  "wrap mx ll [] = []"
| "wrap mx ll (c # s) = (if ll + 1 = mx then c # 0x0a # wrap mx 0 s else c # wrap mx (ll + 1) s)"

lemma wrap_append:
  "ll < mx \<Longrightarrow> wrap mx ll (a @ b) = wrap mx ll a @ wrap mx ((ll + length a) mod mx) b"
proof (induction a arbitrary: ll)
  case (Cons c a)
  show ?case
  proof (cases "ll + 1 = mx")
    case True
    then have "ll + length (c # a) = mx + length a" by simp
    then have "(ll + length (c # a)) mod mx = length a mod mx" by (simp only: mod_add_self1)
    with True Cons.IH [of 0] Cons.prems show ?thesis by simp
  next
    case False
    with Cons.IH [of "ll + 1"] Cons.prems show ?thesis by simp
  qed
qed simp

lemma wrap_short: "length a \<le> mx - ll \<Longrightarrow> ll < mx \<Longrightarrow>
  wrap mx ll a = (if ll + length a = mx \<and> a \<noteq> [] then a @ [0x0a] else a)"
  by (induction a arbitrary: ll) (auto split: if_splits)

lemma wrap_filter: "0x0a \<notin> set s \<Longrightarrow> filter (\<lambda>c. c \<noteq> 0x0a) (wrap mx ll s) = s"
  by (induction mx ll s rule: wrap.induct) auto

lemma b64chr_no_nl: "v < 64 \<Longrightarrow> b64chr v \<noteq> 0x0a"
  using b64_tables(2,3) nth_mem [of "unat v" b64tab] by (auto simp: b64chr_def word_less_nat_alt)

lemmas b64_chars_no_nl = b64chr_no_nl [OF sextets_range(1)] b64chr_no_nl [OF sextets_range(2)] b64chr_no_nl [OF sextets_range(3)]
  b64chr_no_nl [OF sextets_range(4)] b64chr_no_nl [OF sextets_range(5)] b64chr_no_nl [OF sextets_range(6)]

lemma b64_encode_no_nl: "0x0a \<notin> set (b64_encode_loop xs)"
  by (induction xs rule: b64_encode_loop.induct) (simp_all add: b64_chars_no_nl [THEN not_sym])

lemma b64_encode_append:
  "length a mod 3 = 0 \<Longrightarrow> b64_encode_loop (a @ b) = b64_encode_loop a @ b64_encode_loop b"
  by (induction a rule: b64_encode_loop.induct) auto

context byte_sink
begin

lemma filter_flush_loop_ok:
  "write_ready wr ok (fs_transport fs) \<Longrightarrow> fs_line_length fs < fs_max_line_length fs \<Longrightarrow> 0x0a \<notin> set buf \<Longrightarrow>
   \<exists>t. filter_flush_loop fs buf =
       Some (fs\<lparr>fs_transport := t, fs_level := 0, fs_line_length := (fs_line_length fs + length buf) mod fs_max_line_length fs\<rparr>, 0) \<and>
     write_ready wr ok t \<and> written out t = written out (fs_transport fs) @ wrap (fs_max_line_length fs) (fs_line_length fs) buf"
proof (induction "length buf" arbitrary: fs buf rule: less_induct)
  case less
  let ?mx = "fs_max_line_length fs" and ?ll = "fs_line_length fs"
  show ?case
  proof (cases "buf = []")
    case True
    with less.prems have "filter_flush_loop fs buf = Some (fs\<lparr>fs_level := 0\<rparr>, 0)" by (subst filter_flush_loop.simps) simp
    with True less.prems show ?thesis by (intro exI [of _ "fs_transport fs"]) simp
  next
    case False
    define len where "len = min (?mx - ?ll) (length buf)"
    have len: "0 < len" "len \<le> length buf" "len \<le> ?mx - ?ll" using less.prems(2) False by (auto simp: len_def)
    have nl: "index_of 0x0a buf = None" using less.prems(3) by simp
    obtain t1 where t1: "dico_stream_write (fs_transport fs) (take len buf) = Some (t1, 0)" "write_ready wr ok t1"
      "written out t1 = written out (fs_transport fs) @ take len buf"
      using stream_write_ok [OF less.prems(1), of "take len buf"] by (auto simp: appended_def)
    have short: "length (drop len buf) < length buf" "0x0a \<notin> set (drop len buf)"
      using len less.prems(3) by (auto dest: in_set_dropD)
    have wr: "wrap ?mx ?ll buf = wrap ?mx ?ll (take len buf) @ wrap ?mx ((?ll + len) mod ?mx) (drop len buf)"
      using wrap_append [OF less.prems(2), of "take len buf" "drop len buf"] len(2) by simp
    have w1: "wrap ?mx ?ll (take len buf) = (if ?ll + len = ?mx then take len buf @ [0x0a] else take len buf)"
      using wrap_short [of "take len buf" ?mx ?ll] len less.prems(2) False by simp
    have modlen: "(?ll + len + length (drop len buf)) mod ?mx = (?ll + length buf) mod ?mx" using len(2) by simp
    show ?thesis
    proof (cases "?ll + len = ?mx")
      case True
      obtain t2 where t2: "dico_stream_write t1 [0x0a] = Some (t2, 0)" "write_ready wr ok t2" "written out t2 = written out t1 @ [0x0a]"
        using stream_write_ok [OF t1(2), of "[0x0a]"] by (auto simp: appended_def)
      let ?fs = "fs\<lparr>fs_transport := t2, fs_line_length := 0\<rparr>"
      have "filter_flush_loop fs buf = filter_flush_loop ?fs (drop len buf)"
        using False t1(1) t2(1) True nl
        by (subst filter_flush_loop.simps) (simp add: Let_def len_def [symmetric] del: index_of_None_iff)
      moreover have "\<exists>t. filter_flush_loop ?fs (drop len buf) =
          Some (?fs\<lparr>fs_transport := t, fs_level := 0, fs_line_length := (0 + length (drop len buf)) mod ?mx\<rparr>, 0) \<and>
          write_ready wr ok t \<and> written out t = written out t2 @ wrap ?mx 0 (drop len buf)"
        using less.hyps [OF short(1), of ?fs] short(2) t2(2) less.prems(2) by simp
      ultimately show ?thesis
        using t1(3) t2(3) wr w1 True modlen by (auto simp: mod_add_self1)
    next
      case nfull: False
      then have lt: "?ll + len < ?mx" using len(3) less.prems(2) by simp
      let ?fs = "fs\<lparr>fs_transport := t1, fs_line_length := ?ll + len\<rparr>"
      have "filter_flush_loop fs buf = filter_flush_loop ?fs (drop len buf)"
        using False t1(1) nfull nl
        by (subst filter_flush_loop.simps) (simp add: Let_def len_def [symmetric] del: index_of_None_iff)
      moreover have "\<exists>t. filter_flush_loop ?fs (drop len buf) =
          Some (?fs\<lparr>fs_transport := t, fs_level := 0, fs_line_length := (?ll + len + length (drop len buf)) mod ?mx\<rparr>, 0) \<and>
          write_ready wr ok t \<and> written out t = written out t1 @ wrap ?mx (?ll + len) (drop len buf)"
        using less.hyps [OF short(1), of ?fs] short(2) t1(2) lt by simp
      ultimately show ?thesis using t1(3) wr w1 nfull lt modlen by auto
    qed
  qed
qed


text \<open>
  A base64 encoding stream that has encoded \<open>E\<close>: part of it is on the transport, with the
  lines broken, the rest in the buffer.
\<close>

definition encoded :: "bytes \<Rightarrow> bytes \<Rightarrow> 'd filter_stream \<Rightarrow> bool" where
  "encoded w0 E fs \<longleftrightarrow>
     write_ready wr ok (fs_transport fs) \<and> fs_xcode fs = flt_base64_encode \<and> fs_min_level fs = 3 \<and>
     fs_max_line_length fs = 76 \<and> length (fs_buf fs) = FILTER_BSIZE \<and> fs_level fs \<le> FILTER_BSIZE \<and> 0x0a \<notin> set E \<and>
     (\<exists>E1. E = E1 @ take (fs_level fs) (fs_buf fs) \<and> fs_line_length fs = length E1 mod 76 \<and>
        written out (fs_transport fs) = w0 @ wrap 76 0 E1)"

lemma filter_flush_ok:
  assumes "encoded w0 E fs"
  shows "\<exists>fs'. filter_flush fs = Some (fs', 0) \<and> encoded w0 E fs' \<and> fs_level fs' = 0 \<and> fs_inbuf fs' = fs_inbuf fs \<and>
    written out (fs_transport fs') = w0 @ wrap 76 0 E"
proof -
  obtain E1 where E1: "E = E1 @ take (fs_level fs) (fs_buf fs)" "fs_line_length fs = length E1 mod 76"
    "written out (fs_transport fs) = w0 @ wrap 76 0 E1" using assms by (auto simp: encoded_def)
  show ?thesis
  proof (cases "fs_level fs = 0")
    case True
    with assms E1 show ?thesis by (auto simp: filter_flush_def)
  next
    case False
    let ?b = "take (fs_level fs) (fs_buf fs)"
    have "write_ready wr ok (fs_transport fs)" "fs_line_length fs < fs_max_line_length fs" "0x0a \<notin> set ?b"
      using assms E1(1,2) by (auto simp: encoded_def)
    from filter_flush_loop_ok [OF this] obtain t where t:
      "filter_flush_loop fs ?b = Some (fs\<lparr>fs_transport := t, fs_level := 0, fs_line_length := (length E1 mod 76 + length ?b) mod 76\<rparr>, 0)"
      "write_ready wr ok t" "written out t = w0 @ wrap 76 0 E1 @ wrap 76 (length E1 mod 76) ?b"
      using assms E1(2,3) by (auto simp: encoded_def)
    have "wrap 76 0 E = wrap 76 0 E1 @ wrap 76 (length E1 mod 76) ?b"
      using wrap_append [of 0 76 E1 ?b] E1(1) by simp
    moreover have "(length E1 mod 76 + length ?b) mod 76 = length E mod 76" using E1(1) by (simp add: mod_simps)
    ultimately show ?thesis
      using t False assms by (auto simp: filter_flush_def encoded_def)
  qed
qed

lemma filter_write0_ok:
  assumes "encoded w0 E fs" and "buf \<noteq> []"
  shows "\<exists>fs' k. filter_write0 fs buf = Some (fs', 0, k) \<and> 0 < k \<and> k \<le> length buf \<and>
    (k mod 3 = 0 \<or> k = length buf \<and> k < 3) \<and> encoded w0 (E @ b64_encode_loop (take k buf)) fs' \<and>
    0 < fs_level fs' \<and> fs_inbuf fs' = fs_inbuf fs"
proof -
  obtain f where f: "filter_write0 fs buf = filter_write0_loop f buf" "encoded w0 E f" "fs_level f + 4 \<le> FILTER_BSIZE"
    "fs_inbuf f = fs_inbuf fs"
  proof (cases "fs_level fs \<ge> FILTER_BSIZE - fs_min_level fs")
    case True
    obtain f where "filter_flush fs = Some (f, 0)" "encoded w0 E f" "fs_level f = 0" "fs_inbuf f = fs_inbuf fs"
      using filter_flush_ok [OF assms(1)] by blast
    then show ?thesis using True by (intro that [of "f\<lparr>fs_level := 0\<rparr>"]) (simp_all add: filter_write0_def FILTER_BSIZE_def encoded_def)
  next
    case False
    with assms(1) show ?thesis by (intro that [of fs]) (auto simp: filter_write0_def encoded_def FILTER_BSIZE_def)
  qed
  let ?os = "FILTER_BSIZE - fs_level f"
  have os: "4 \<le> ?os" "?os < 2 ^ 63" using f(3) by (auto simp: FILTER_BSIZE_def)
  from flt_encode_progress [OF assms(2) os] obtain k ob where k: "flt_base64_encode buf ?os = Some (k, of_nat (length ob), ob)"
    "0 < k" "k \<le> length buf" "length ob \<le> ?os" "ob = b64_encode_loop (take k buf)" "k mod 3 = 0 \<or> k = length buf \<and> k < 3"
    by (auto simp: dico_base64_encode_ok)
  let ?f = "f\<lparr>fs_buf := put_mem (fs_buf f) (fs_level f) ob, fs_level := fs_level f + length ob\<rparr>"
  have small: "unat (of_nat (length ob) :: 64 word) = length ob"
    using k(4) by (simp add: unsigned_of_nat take_bit_nat_eq_self FILTER_BSIZE_def)
  have "filter_write0_loop f buf = Some (?f, 0, k)"
    using f(2,3) k small by (subst filter_write0_loop.simps) (auto simp: encoded_def Let_def)
  moreover have "encoded w0 (E @ ob) ?f"
  proof -
    have len: "length (fs_buf f) = FILTER_BSIZE" "fs_level f + length ob \<le> FILTER_BSIZE" using f(2,3) k(4) by (auto simp: encoded_def)
    then have "take (fs_level ?f) (fs_buf ?f) = take (fs_level f) (fs_buf f) @ ob" "length (fs_buf ?f) = FILTER_BSIZE"
      by (simp_all add: put_mem_def)
    moreover have "0x0a \<notin> set ob" using k(5) b64_encode_no_nl [of "take k buf"] by simp
    ultimately show ?thesis using f(2) len(2) by (auto simp: encoded_def)
  qed
  moreover have "0 < length ob" using k(2,3,5) by (simp add: b64_encode_length div_greater_zero_iff min_def)
  ultimately show ?thesis using f k by auto
qed

text \<open>
  The loop of \<^verbatim>\<open>dico_stream_write\<close> over the filter: whole groups of three bytes are
  encoded, the one or two bytes left at the end wait in \<^verbatim>\<open>inbuf\<close>.
\<close>

lemma filter_write_step:
  assumes "encoded w0 E fs" and "fs_inbuf fs = []" and "3 \<le> length buf"
  shows "\<exists>fs' k. filter_write fs buf = Some (fs', Inr k) \<and> 0 < k \<and> k \<le> length buf \<and> k mod 3 = 0 \<and>
    encoded w0 (E @ b64_encode_loop (take k buf)) fs' \<and> 0 < fs_level fs' \<and> fs_inbuf fs' = []"
proof -
  have ne: "buf \<noteq> []" using assms(3) by auto
  obtain fs' k where "filter_write0 fs buf = Some (fs', 0, k)" "0 < k" "k \<le> length buf" "k mod 3 = 0 \<or> k = length buf \<and> k < 3"
    "encoded w0 (E @ b64_encode_loop (take k buf)) fs'" "0 < fs_level fs'" "fs_inbuf fs' = []"
    using filter_write0_ok [OF assms(1) ne] assms(2) by auto
  then show ?thesis
    using assms by (auto simp: filter_write_def encoded_def fs_inlevel_def Let_def)
qed

lemma filter_write_all:
  "encoded w0 (E @ b64_encode_loop a) (s_data s) \<Longrightarrow> fs_inbuf (s_data s) = [] \<Longrightarrow>
   0 < fs_level (s_data s) \<or> 3 \<le> length buf \<Longrightarrow> length a mod 3 = 0 \<Longrightarrow>
   \<exists>fs n. stream_write_unbuf_loop filter_write s buf = Some (s\<lparr>s_data := fs, s_bytes_out := n\<rparr>, 0) \<and> 0 < fs_level fs \<and>
     length (fs_inbuf fs) < 3 \<and>
     (\<exists>b. a @ buf = b @ fs_inbuf fs \<and> length b mod 3 = 0 \<and> encoded w0 (E @ b64_encode_loop b) fs)"
proof (induction "length buf" arbitrary: s buf a rule: less_induct)
  case less
  show ?case
  proof (cases "length buf < 3")
    case True
    show ?thesis
    proof (cases "buf = []")
      case True
      with less.prems show ?thesis
        by (subst stream_write_unbuf_loop.simps) (auto intro!: exI [of _ "s_data s"] exI [of _ "s_bytes_out s"])
    next
      case False
      let ?fs = "(s_data s)\<lparr>fs_inbuf := buf\<rparr>"
      have "filter_write (s_data s) buf = Some (?fs, Inr (length buf))"
        using True less.prems by (simp add: filter_write_def encoded_def fs_inlevel_def Let_def)
      then have "stream_write_unbuf_loop filter_write s buf =
          Some (s\<lparr>s_data := ?fs, s_bytes_out := s_bytes_out s + int (length buf)\<rparr>, 0)"
        using False by (subst stream_write_unbuf_loop.simps) (simp add: stream_write_unbuf_loop.simps)
      moreover have "encoded w0 (E @ b64_encode_loop a) ?fs" using less.prems(1) by (simp add: encoded_def)
      ultimately show ?thesis using True less.prems by (auto intro!: exI [of _ a])
    qed
  next
    case False
    then have long: "3 \<le> length buf" by simp
    obtain fs k where k: "filter_write (s_data s) buf = Some (fs, Inr k)" "0 < k" "k \<le> length buf" "k mod 3 = 0"
      "encoded w0 ((E @ b64_encode_loop a) @ b64_encode_loop (take k buf)) fs" "0 < fs_level fs" "fs_inbuf fs = []"
      using filter_write_step [OF less.prems(1,2) long] by (elim exE conjE) (rule that)
    let ?s = "s\<lparr>s_data := fs, s_bytes_out := s_bytes_out s + int k\<rparr>"
    have step: "stream_write_unbuf_loop filter_write s buf = stream_write_unbuf_loop filter_write ?s (drop k buf)"
      using k(1-3) long by (subst stream_write_unbuf_loop.simps) auto
    have "length (drop k buf) < length buf" using k(2) long by simp
    moreover have "encoded w0 (E @ b64_encode_loop (a @ take k buf)) (s_data ?s)"
      using k(5) b64_encode_append [OF less.prems(4), of "take k buf"] by simp
    moreover have "length (a @ take k buf) mod 3 = 0" using less.prems(4) k(3,4) by (simp add: mod_add_eq [symmetric])
    ultimately show ?thesis
      using step less.hyps [of "drop k buf" "a @ take k buf" ?s] k(6,7) by fastforce
  qed
qed

lemma filter_wr_flush_ok:
  assumes "encoded w0 (b64_encode_loop b) fs" and "0 < fs_level fs" and "length (fs_inbuf fs) < 3" and "length b mod 3 = 0"
  shows "\<exists>fs'. filter_wr_flush fs = Some (fs', 0) \<and> write_ready wr ok (fs_transport fs') \<and>
    written out (fs_transport fs') = w0 @ wrap 76 0 (b64_encode_loop (b @ fs_inbuf fs)) @ [0x0a]"
proof -
  have nl: "encoded w0 E f \<Longrightarrow> 0 < fs_level f \<Longrightarrow> fs_ends_nl f = Some False" for E f
    using nth_mem [of "fs_level f - 1" "take (fs_level f) (fs_buf f)"]
    by (auto simp: encoded_def fs_ends_nl_def FILTER_BSIZE_def)
  have fin: "\<exists>t. dico_stream_write (fs_transport f) [0x0a] = Some (t, 0) \<and> write_ready wr ok t \<and>
      written out t = w0 @ wrap 76 0 E @ [0x0a]"
    if "encoded w0 E f" "written out (fs_transport f) = w0 @ wrap 76 0 E" for E f
    using stream_write_ok [of "fs_transport f" "[0x0a]"] that by (auto simp: encoded_def appended_def)
  obtain f1 where f1: "filter_flush fs = Some (f1, 0)" "encoded w0 (b64_encode_loop b) f1" "fs_level f1 = 0"
    "fs_inbuf f1 = fs_inbuf fs" "written out (fs_transport f1) = w0 @ wrap 76 0 (b64_encode_loop b)"
    using filter_flush_ok [OF assms(1)] by blast
  show ?thesis
  proof (cases "fs_inbuf fs = []")
    case True
    with f1 fin [OF f1(2,5)] nl [OF assms(1,2)] assms(2) show ?thesis
      by (auto simp: filter_wr_flush_def fs_inlevel_def)
  next
    case False
    then have "fs_inbuf f1 \<noteq> []" using f1(4) by simp
    from filter_write0_ok [OF f1(2) this] obtain f2 k where f2: "filter_write0 f1 (fs_inbuf f1) = Some (f2, 0, k)"
      "k = length (fs_inbuf f1)" "encoded w0 (b64_encode_loop b @ b64_encode_loop (take k (fs_inbuf f1))) f2" "0 < fs_level f2"
      using assms(3) f1(4) by fastforce
    have e2: "encoded w0 (b64_encode_loop (b @ fs_inbuf fs)) f2"
      using f2(2,3) f1(4) b64_encode_append [OF assms(4), of "fs_inbuf fs"] by simp
    obtain f3 where f3: "filter_flush f2 = Some (f3, 0)" "encoded w0 (b64_encode_loop (b @ fs_inbuf fs)) f3"
      "written out (fs_transport f3) = w0 @ wrap 76 0 (b64_encode_loop (b @ fs_inbuf fs))"
      using filter_flush_ok [OF e2] by blast
    from f1 f2(1,4) f3 fin [OF f3(2,3)] nl [OF assms(1,2)] nl [OF e2 f2(4)] assms(2) False show ?thesis
      by (auto simp: filter_wr_flush_def fs_inlevel_def)
  qed
qed

lemma base64_stream_ok:
  assumes "write_ready wr ok t" and "3 \<le> length msg"
    and "dico_base64_stream_create (True, True, True) t FILTER_ENCODE = Some s"
  shows "\<exists>s' s''. dico_stream_write s msg = Some (s', 0) \<and> dico_stream_flush s' = Some (s'', 0) \<and>
    written out (fs_transport (s_data s'')) = written out t @ wrap 76 0 (b64_encode_loop msg) @ [0x0a]"
proof -
  have s: "d_write (s_drv s) = Some filter_write" "d_flush (s_drv s) = Some filter_wr_flush" "s_flags s = {DICO_STREAM_WRITE}"
    "s_buftype s = dico_buffer_none" "fs_inbuf (s_data s) = []" "s_level s = 0"
    using assms(3)
    by (auto simp: dico_base64_stream_create_def filter_stream_create_def dico_stream_create_def no_driver_def Let_def
        dico_stream_set_write_def dico_stream_set_flush_def dico_stream_set_destroy_def dico_stream_set_ioctl_def)
  have "encoded (written out t) ([] @ b64_encode_loop []) (s_data s)"
    using assms(1,3)
    by (auto simp: dico_base64_stream_create_def filter_stream_create_def dico_stream_create_def no_driver_def Let_def
        dico_stream_set_write_def dico_stream_set_flush_def dico_stream_set_destroy_def dico_stream_set_ioctl_def encoded_def)
  from filter_write_all [OF this s(5), of msg] assms(2) obtain fs n b where w:
    "stream_write_unbuf_loop filter_write s msg = Some (s\<lparr>s_data := fs, s_bytes_out := n\<rparr>, 0)" "0 < fs_level fs"
    "length (fs_inbuf fs) < 3" "msg = b @ fs_inbuf fs" "length b mod 3 = 0" "encoded (written out t) (b64_encode_loop b) fs"
    by auto
  define s' where "s' = stream_seterror (s\<lparr>s_data := fs, s_bytes_out := n\<rparr>) 0 False"
  have "msg \<noteq> []" using assms(2) by auto
  then have "dico_stream_write s msg = Some (s', 0)"
    using s w(1) by (simp add: dico_stream_write_def dico_stream_write_unbuffered_def s'_def)
  moreover obtain fs' where "filter_wr_flush fs = Some (fs', 0)"
    "written out (fs_transport fs') = written out t @ wrap 76 0 (b64_encode_loop msg) @ [0x0a]"
    using filter_wr_flush_ok [OF w(6,2,3,5)] w(4) by auto
  moreover from this s have "\<exists>s''. dico_stream_flush s' = Some (s'', 0) \<and> s_data s'' = fs'"
    unfolding s'_def dico_stream_flush_def
    by (subst stream_flush_buffer.simps) (simp add: stream_flush_end_def stream_call_flush_def stream_seterror_def)
  ultimately show ?thesis by auto
qed

end

section \<open>Properties\<close>

text \<open>
  C36: A text of at least three bytes written to a base64 encoding stream and flushed, over a
  transport whose driver keeps the contract of a sink: both calls return, the transport gets
  the base64 encoding of the whole text in lines of 76 characters and a final newline, and
  decoding it without the newlines gives the text. The bytes of an incomplete group of three
  wait in the stream until the flush.
\<close>

theorem base64_stream_encodes:
  assumes "byte_sink wr ok out" and "write_ready wr ok t" and "3 \<le> length msg" and "length msg < 2 ^ 30"
    and "dico_base64_stream_create (True, True, True) t FILTER_ENCODE = Some s"
  shows "\<exists>s' s'' x. dico_stream_write s msg = Some (s', 0) \<and> dico_stream_flush s' = Some (s'', 0) \<and>
    written out (fs_transport (s_data s'')) = written out t @ wrap 76 0 x @ [0x0a] \<and>
    dico_base64_encode True msg = Some (Inr x) \<and> filter (\<lambda>c. c \<noteq> 0x0a) (wrap 76 0 x) = x \<and>
    dico_base64_decode True x (of_nat (length x)) = Some (Inr msg)"
proof -
  have ne: "msg \<noteq> []" "length (b64_encode_loop msg) < 2 ^ 31" using assms(3,4) by (auto simp: b64_encode_length)
  then have "dico_base64_decode True (b64_encode_loop msg) (of_nat (length (b64_encode_loop msg))) = Some (Inr msg)"
    using b64_decode_encode [of msg "[]" "length (b64_encode_loop msg)" "[]"]
    by (simp add: dico_base64_decode_def Let_def sint_ucast_len)
  then show ?thesis
    using byte_sink.base64_stream_ok [OF assms(1,2,3,5)] wrap_filter [OF b64_encode_no_nl] dico_base64_encode_ok by metis
qed

theorem base64_stream_encodes_witness:
  "\<exists>s s' s'' x. dico_base64_stream_create (True, True, True) (pipe_stream [] {DICO_STREAM_WRITE} dico_buffer_line 4) FILTER_ENCODE = Some s \<and>
    dico_stream_write s [0x66, 0x6f, 0x6f, 0x21] = Some (s', 0) \<and> dico_stream_flush s' = Some (s'', 0) \<and>
    written (\<lambda>p. snd (fst p)) (fs_transport (s_data s'')) = wrap 76 0 x @ [0x0a] \<and>
    dico_base64_decode True x (of_nat (length x)) = Some (Inr [0x66, 0x6f, 0x6f, 0x21])"
proof -
  let ?t = "pipe_stream [] {DICO_STREAM_WRITE} dico_buffer_line 4"
  have sink: "byte_sink (fd_write pipe_posix) (\<lambda>p. True) (\<lambda>p. snd (fst p))"
    using pipe.fd_out.flushed_sink_axioms by (rule flushed_sink.axioms(1))
  obtain s where s: "dico_base64_stream_create (True, True, True) ?t FILTER_ENCODE = Some s"
    by (simp add: dico_base64_stream_create_def filter_stream_create_def dico_stream_create_def Let_def)
  have "written (\<lambda>p. snd (fst p)) ?t = []" by (simp add: written_def pipe_stream_fields)
  with base64_stream_encodes [OF sink pipe_stream_writes [of dico_buffer_line 4 "[]"] _ _ s, of "[0x66, 0x6f, 0x6f, 0x21]"] s
  show ?thesis by simp blast
qed

section \<open>Where the filters go wrong\<close>

text \<open>
  A stream made by \<^verbatim>\<open>dico_base64_stream_create\<close> on a pipe and its state after writes.
\<close>

definition enc_stream :: "(bytes \<times> bytes) fd_data filter_stream" where
  "enc_stream = \<lparr>fs_transport = pipe_stream [] {DICO_STREAM_WRITE} dico_buffer_none 0, fs_buf = replicate FILTER_BSIZE 0, fs_level = 0,
     fs_min_level = 3, fs_max_line_length = 76, fs_line_length = 0, fs_xcode = flt_base64_encode, fs_inbuf = []\<rparr>"

text \<open>A text of fewer than three bytes never leaves the stream: the flush does nothing while the buffer is empty.\<close>

theorem filter_flush_drops_short_text:
  "\<exists>fs. filter_write enc_stream [0x61, 0x62] = Some (fs, Inr 2) \<and> filter_wr_flush fs = Some (fs, 0) \<and> fs_inbuf fs = [0x61, 0x62]"
  by (simp add: filter_write_def enc_stream_def filter_wr_flush_def fs_inlevel_def Let_def)

declare filter_write0_loop.simps [code]

text \<open>
  After \<^verbatim>\<open>a\<close>, \<^verbatim>\<open>bcde\<close> the group of three \<^verbatim>\<open>abc\<close> is encoded and the rest
  \<^verbatim>\<open>de\<close> of the second write with padding, in the middle of the text: the decoded text is
  followed by padding and \<^verbatim>\<open>fgh\<close>.
\<close>

theorem filter_write_pads_mid_stream:
  "do { (fs, _) \<leftarrow> filter_write enc_stream (str ''a''); (fs, _) \<leftarrow> filter_write fs (str ''bcde'');
        (fs, _) \<leftarrow> filter_write fs (str ''fgh''); Some (take (fs_level fs) (fs_buf fs)) } =
   Some (str ''YWJjZGU=Zmdo'')"
  by code_simp

text \<open>
  Reading: after the conversion the level is set to the number of bytes consumed instead of
  the number left, so the second read delivers the first text again.
\<close>

definition dec_stream :: "bytes \<Rightarrow> (bytes \<times> bytes) fd_data filter_stream" where
  "dec_stream i = \<lparr>fs_transport = pipe_stream i {DICO_STREAM_READ} dico_buffer_none 0, fs_buf = replicate FILTER_BSIZE 0, fs_level = 0,
     fs_min_level = 3, fs_max_line_length = 76, fs_line_length = 0, fs_xcode = flt_base64_decode, fs_inbuf = []\<rparr>"

theorem filter_read_repeats:
  "do { (fs, r1) \<leftarrow> filter_read (dec_stream (str ''YWJj'')) 16; (fs, r2) \<leftarrow> filter_read fs 16; Some (r1, r2) } =
   Some (Inr (str ''abc''), Inr (str ''abc''))"
  by code_simp

end
