(* ===== verification/Dico_Tokenize.thy ===== *)
theory Dico_Tokenize
  imports Dico_Utf8
begin

text \<open>
  The tokenizer of command lines: \<^verbatim>\<open>lib/tokenize.c\<close> and its wrapper in
  \<^verbatim>\<open>lib/xtkn.c\<close>. The memory of the token buffer is a list of bytes; the pointers in
  \<^verbatim>\<open>tb_tokv\<close> carry the number of the reallocation they were made after, because a
  reallocation invalidates the pointers into the old block. The character width that
  \<^verbatim>\<open>utf8_iter_first\<close> leaves unset on an invalid first byte is an argument.
\<close>

section \<open>The token buffer\<close>

definition tkn_ISWS :: "byte \<Rightarrow> bool" where
  "tkn_ISWS c \<longleftrightarrow> c = 0x20 \<or> c = 0x09"

definition tkn_ISQUOTE :: "byte \<Rightarrow> bool" where
  "tkn_ISQUOTE c \<longleftrightarrow> c = 0x22 \<or> c = 0x27"

definition quote_transtab :: "(byte \<times> byte) list" where
  "quote_transtab = [(0x5c, 0x5c), (0x22, 0x22), (0x61, 7), (0x62, 8), (0x66, 12), (0x6e, 10), (0x72, 13), (0x74, 9)]"

definition dico_unquote_char :: "byte \<Rightarrow> byte" where
  "dico_unquote_char c = (case find (\<lambda>p. fst p = c) quote_transtab of Some p \<Rightarrow> snd p | None \<Rightarrow> 0)"

definition dico_quote_char :: "byte \<Rightarrow> byte" where
  "dico_quote_char c = (case find (\<lambda>p. snd p = c) quote_transtab of Some p \<Rightarrow> fst p | None \<Rightarrow> 0)"

definition TKNBLOCKSIZ :: nat where
  "TKNBLOCKSIZ = 256"

record dico_tokbuf =
  tb_base :: bytes
  tb_gen :: nat
  tb_size :: nat
  tb_level :: nat
  tb_tokv :: "(nat \<times> nat) option list"
  tb_tokm :: nat
  tb_tokc :: nat

definition dico_tokenize_begin :: dico_tokbuf where
  "dico_tokenize_begin = \<lparr>tb_base = [], tb_gen = 0, tb_size = 0, tb_level = 0, tb_tokv = [], tb_tokm = 0, tb_tokc = 0\<rparr>"

definition dico_tokenize_clear :: "dico_tokbuf \<Rightarrow> dico_tokbuf" where
  "dico_tokenize_clear tb = tb\<lparr>tb_level := 0, tb_tokc := 0\<rparr>"

text \<open>\<^verbatim>\<open>dico_tokenize_end\<close> releases both blocks and leaves the counters as they are.\<close>

definition dico_tokenize_end :: "dico_tokbuf \<Rightarrow> dico_tokbuf" where
  "dico_tokenize_end tb = tb\<lparr>tb_base := [], tb_gen := Suc (tb_gen tb), tb_tokv := []\<rparr>"

text \<open>\<open>alloc\<close> says for which sizes \<^verbatim>\<open>realloc\<close> succeeds; the error code 0 is \<open>None\<close>.\<close>

definition tkn_put :: "dico_tokbuf \<Rightarrow> bytes \<Rightarrow> dico_tokbuf option" where
  "tkn_put tb s =
     (if tb_level tb + length s \<le> length (tb_base tb)
      then Some (tb\<lparr>tb_base := take (tb_level tb) (tb_base tb) @ s @ drop (tb_level tb + length s) (tb_base tb),
                    tb_level := tb_level tb + length s\<rparr>)
      else None)"

definition dico_tkn_grow :: "(nat \<Rightarrow> bool) \<Rightarrow> dico_tokbuf \<Rightarrow> bytes \<Rightarrow> (dico_tokbuf \<times> errno option) option" where
  "dico_tkn_grow alloc tb s =
     (if tb_level tb + length s > tb_size tb
      then
        let newsize = ((tb_level tb + length s + TKNBLOCKSIZ - 1) div TKNBLOCKSIZ) * TKNBLOCKSIZ in
        if \<not> alloc newsize then Some (tb, Some ENOMEM)
        else do {
          tb \<leftarrow> tkn_put (tb\<lparr>tb_base := take newsize (tb_base tb) @ replicate (newsize - length (tb_base tb)) 0,
                           tb_gen := Suc (tb_gen tb), tb_size := newsize\<rparr>) s;
          Some (tb, None) }
      else do { tb \<leftarrow> tkn_put tb s; Some (tb, None) })"

definition dico_tkn_1grow :: "(nat \<Rightarrow> bool) \<Rightarrow> dico_tokbuf \<Rightarrow> byte \<Rightarrow> (dico_tokbuf \<times> errno option) option" where
  "dico_tkn_1grow alloc tb ch = dico_tkn_grow alloc tb [ch]"

section \<open>Splitting a string\<close>

text \<open>The \<^verbatim>\<open>curwidth\<close> bytes at \<^verbatim>\<open>curptr\<close>; at most the terminating NUL may be among them.\<close>

definition iter_bytes :: "utf8_iterator \<Rightarrow> bytes option" where
  "iter_bytes itr =
     (let r = drop (ui_curptr itr) (ui_string itr) @ [0] in
      if ui_curwidth itr \<le> length r then Some (take (ui_curwidth itr) r) else None)"

partial_function (option) tkn_skip_ws :: "utf8_iterator \<Rightarrow> utf8_iterator option" where
  "tkn_skip_ws itr = do {
     e \<leftarrow> utf8_iter_end_p itr;
     (if \<not> e \<and> utf8_iter_isascii itr \<and> tkn_ISWS (iter_byte itr)
      then do { (_, itr) \<leftarrow> utf8_iter_next itr; tkn_skip_ws itr }
      else Some itr) }"

text \<open>
  The loop that collects a token; \<open>quote\<close> is 0 outside quotes. A failed allocation does not
  end the loop, and the code of the last one counts.
\<close>

partial_function (option) tkn_collect ::
  "(nat \<Rightarrow> bool) \<Rightarrow> byte \<Rightarrow> utf8_iterator \<Rightarrow> dico_tokbuf \<Rightarrow> errno option \<Rightarrow> (utf8_iterator \<times> dico_tokbuf \<times> errno option) option" where
  "tkn_collect alloc quote itr tb rc = do {
     e \<leftarrow> utf8_iter_end_p itr;
     (if e \<or> (utf8_iter_isascii itr \<and> quote = 0 \<and> tkn_ISWS (iter_byte itr)) then Some (itr, tb, rc)
      else if utf8_iter_isascii itr \<and> iter_byte itr = quote
      then do { (_, itr) \<leftarrow> utf8_iter_next itr; Some (itr, tb, rc) }
      else do {
        (itr, tb, rc) \<leftarrow>
          (if utf8_iter_isascii itr \<and> iter_byte itr = 0x5c
           then do {
             (_, itr) \<leftarrow> utf8_iter_next itr;
             (tb, rc) \<leftarrow>
               (if utf8_iter_isascii itr then dico_tkn_1grow alloc tb (dico_quote_char (iter_byte itr))
                else do {
                  (tb, rc) \<leftarrow> dico_tkn_1grow alloc tb 0x5c;
                  (if rc = None then do { s \<leftarrow> iter_bytes itr; dico_tkn_grow alloc tb s } else Some (tb, rc)) });
             Some (itr, tb, rc) }
           else do {
             s \<leftarrow> iter_bytes itr;
             (tb, rc) \<leftarrow> dico_tkn_grow alloc tb s;
             Some (itr, tb, rc) });
        (_, itr) \<leftarrow> utf8_iter_next itr;
        tkn_collect alloc quote itr tb rc }) }"

partial_function (option) tkn_loop ::
  "(nat \<Rightarrow> bool) \<Rightarrow> utf8_iterator \<Rightarrow> dico_tokbuf \<Rightarrow> nat \<Rightarrow> (dico_tokbuf \<times> nat \<times> errno option) option" where
  "tkn_loop alloc itr tb argc = do {
     itr \<leftarrow> tkn_skip_ws itr;
     e \<leftarrow> utf8_iter_end_p itr;
     (if e then Some (tb, argc, None)
      else do {
        (itr, quote) \<leftarrow>
          (if utf8_iter_isascii itr \<and> tkn_ISQUOTE (iter_byte itr)
           then do { (_, itr') \<leftarrow> utf8_iter_next itr; Some (itr', iter_byte itr) }
           else Some (itr, 0));
        (itr, tb, rc) \<leftarrow> tkn_collect alloc quote itr tb None;
        (tb, rc) \<leftarrow> (if rc = None then dico_tkn_1grow alloc tb 0 else Some (tb, rc));
        (if rc = None then tkn_loop alloc itr tb (argc + 1) else Some (tb, argc + 1, rc)) }) }"

fun tkn_pointers :: "dico_tokbuf \<Rightarrow> nat \<Rightarrow> nat \<Rightarrow> dico_tokbuf option" where
  "tkn_pointers tb p 0 = Some tb"
| "tkn_pointers tb p (Suc argc) =
     (if tb_tokc tb < length (tb_tokv tb)
      then
        case index_of 0 (drop p (tb_base tb)) of
          None \<Rightarrow> None
        | Some n \<Rightarrow> tkn_pointers (tb\<lparr>tb_tokv := (tb_tokv tb)[tb_tokc tb := Some (tb_gen tb, p)], tb_tokc := Suc (tb_tokc tb)\<rparr>)
            (p + n + 1) argc
      else None)"

text \<open>\<open>valloc\<close>: whether the reallocation of the vector of pointers succeeds.\<close>

definition dico_tokenize_string ::
  "(nat \<Rightarrow> bool) \<Rightarrow> bool \<Rightarrow> nat \<Rightarrow> dico_tokbuf \<Rightarrow> bytes \<Rightarrow> (dico_tokbuf \<times> errno option) option" where
  "dico_tokenize_string alloc valloc unset tb s = do {
     (_, itr) \<leftarrow> utf8_iter_first \<lparr>ui_string = [], ui_curptr = 0, ui_curwidth = unset\<rparr> s;
     (let start_level = tb_level tb in do {
        (tb, argc, rc) \<leftarrow> tkn_loop alloc itr tb 0;
        (if rc \<noteq> None then Some (tb, rc)
         else
           let nmax = tb_tokc tb + argc + 1 in
           if nmax > tb_tokm tb \<and> \<not> valloc then Some (tb, Some ENOMEM)
           else
             let tb = (if nmax > tb_tokm tb
                       then tb\<lparr>tb_tokv := take nmax (tb_tokv tb) @ replicate (nmax - length (tb_tokv tb)) None, tb_tokm := nmax\<rparr>
                       else tb) in do {
             tb \<leftarrow> tkn_pointers tb start_level argc;
             (if tb_tokc tb < length (tb_tokv tb)
              then Some (tb\<lparr>tb_tokv := (tb_tokv tb)[tb_tokc tb := None]\<rparr>, None)
              else None) }) }) }"

text \<open>\<^verbatim>\<open>xdico_tokenize_string\<close>: a failure ends the program.\<close>

datatype exit_status = Returned dico_tokbuf | Xalloc_die

definition xdico_tokenize_string ::
  "(nat \<Rightarrow> bool) \<Rightarrow> bool \<Rightarrow> nat \<Rightarrow> dico_tokbuf \<Rightarrow> bytes \<Rightarrow> exit_status option" where
  "xdico_tokenize_string alloc valloc unset tb s =
     map_option (\<lambda>(tb, rc). if rc \<noteq> None then Xalloc_die else Returned tb)
       (dico_tokenize_string alloc valloc unset (dico_tokenize_clear tb) s)"

text \<open>What a caller reads through \<^verbatim>\<open>tb_tokv[i]\<close>; a pointer into a block that was moved is dangling.\<close>

definition tkn_read :: "dico_tokbuf \<Rightarrow> nat \<Rightarrow> bytes option" where
  "tkn_read tb i =
     (if i < length (tb_tokv tb)
      then case tb_tokv tb ! i of
          None \<Rightarrow> None
        | Some (g, p) \<Rightarrow> if g = tb_gen tb then map_option (\<lambda>n. take n (drop p (tb_base tb))) (index_of 0 (drop p (tb_base tb))) else None
      else None)"

definition tkn_tokens :: "dico_tokbuf \<Rightarrow> bytes list option" where
  "tkn_tokens tb = those (map (tkn_read tb) [0..<tb_tokc tb])"

end
