(* ===== verification/Dico_Tokenize_Props.thy ===== *)
theory Dico_Tokenize_Props
  imports Dico_Tokenize
begin

text \<open>
  The tokenizer recovers the words of a command line that was put together from plain and
  quoted words, and the cases in which it does not do what its callers expect.
\<close>

section \<open>Characters and the iterator\<close>

definition uchar :: "bytes \<Rightarrow> bool" where
  "uchar c \<longleftrightarrow> c \<noteq> [] \<and> 0 \<notin> set c \<and> utf8_char_width c = length c"

lemma char_width_append: "c \<noteq> [] \<Longrightarrow> utf8_char_width (c @ r) = utf8_char_width c"
  by (cases c) (simp_all add: utf8_char_width_def chr_at_def)

lemma uchar_ascii: "uchar [c] \<longleftrightarrow> c \<noteq> 0 \<and> c \<le> 0x7f"
  by (auto simp: uchar_def utf8_char_width_def chr_at_def Let_def split: if_splits)

lemma uchar_hd: "uchar c \<Longrightarrow> hd c \<noteq> 0"
  by (cases c) (auto simp: uchar_def)

text \<open>The iterator stands before the characters \<open>T\<close>.\<close>

definition iter_at :: "utf8_iterator \<Rightarrow> bytes list \<Rightarrow> bool" where
  "iter_at itr T \<longleftrightarrow>
     (\<forall>c\<in>set T. uchar c) \<and> ui_curptr itr \<le> length (ui_string itr) \<and> drop (ui_curptr itr) (ui_string itr) = concat T \<and>
     ui_curwidth itr = (case T of [] \<Rightarrow> 1 | c # _ \<Rightarrow> length c)"

lemma iter_at_end [simp]: "iter_at itr T \<Longrightarrow> utf8_iter_end_p itr = Some (T = [])"
  by (cases T; cases "hd T") (auto simp: iter_at_def utf8_iter_end_p_def chr_at_def uchar_def)

lemma iter_at_byte: "iter_at itr (c # T) \<Longrightarrow> iter_byte itr = hd c"
  by (cases c) (auto simp: iter_at_def iter_byte_def chr_at_def uchar_def)

lemma iter_at_bytes: "iter_at itr (c # T) \<Longrightarrow> iter_bytes itr = Some c"
  by (auto simp: iter_at_def iter_bytes_def)

lemma uchar_isascii: "uchar c \<Longrightarrow> length c = 1 \<longleftrightarrow> hd c \<le> 0x7f"
  by (cases c) (auto simp: uchar_def utf8_char_width_def chr_at_def Let_def split: if_splits)

lemma iter_at_isascii: "iter_at itr (c # T) \<Longrightarrow> utf8_iter_isascii itr \<longleftrightarrow> length c = 1"
  using uchar_isascii [of c] by (auto simp: utf8_iter_isascii_def iter_at_byte) (auto simp: iter_at_def)

lemma iter0_at:
  assumes "\<forall>c\<in>set T. uchar c" and "p \<le> length s" and "drop p s = concat T"
  shows "\<exists>rc itr. utf8_iter0 \<lparr>ui_string = s, ui_curptr = p, ui_curwidth = w\<rparr> = Some (rc, itr) \<and> iter_at itr T"
proof (cases T)
  case Nil
  with assms show ?thesis by (auto simp: utf8_iter0_def iter_at_def utf8_char_width_def chr_at_def Let_def)
next
  case (Cons c T')
  then have "uchar c" using assms(1) by simp
  then have "c \<noteq> []" "utf8_char_width (concat T) = length c" using Cons char_width_append [of c "concat T'"] by (auto simp: uchar_def)
  with assms Cons show ?thesis by (auto simp: utf8_iter0_def iter_at_def Let_def)
qed

lemma iter_at_next:
  assumes "iter_at itr (c # T)"
  shows "\<exists>rc itr'. utf8_iter_next itr = Some (rc, itr') \<and> iter_at itr' T"
proof -
  let ?p = "ui_curptr itr + length c"
  have d: "drop (ui_curptr itr) (ui_string itr) = c @ concat T" "ui_curptr itr \<le> length (ui_string itr)"
    using assms by (auto simp: iter_at_def)
  have "drop ?p (ui_string itr) = drop (length c) (drop (ui_curptr itr) (ui_string itr))" by (simp add: add.commute)
  then have "drop ?p (ui_string itr) = concat T" using d(1) by simp
  moreover have "?p \<le> length (ui_string itr)" using arg_cong [OF d(1), of length] d(2) by simp
  moreover have "\<forall>c\<in>set T. uchar c" "ui_curwidth itr = length c" using assms by (auto simp: iter_at_def)
  ultimately show ?thesis
    using iter0_at [of T ?p "ui_string itr" "ui_curwidth itr"] iter_at_end [OF assms]
    by (cases itr) (auto simp: utf8_iter_next_def)
qed

section \<open>The buffer\<close>

definition tb_ok :: "dico_tokbuf \<Rightarrow> bool" where
  "tb_ok tb \<longleftrightarrow> length (tb_base tb) = tb_size tb \<and> tb_level tb \<le> tb_size tb \<and> length (tb_tokv tb) = tb_tokm tb \<and>
     (tb_tokc tb < tb_tokm tb \<or> tb_tokm tb = 0 \<and> tb_tokc tb = 0)"

definition tb_text :: "dico_tokbuf \<Rightarrow> bytes" where
  "tb_text tb = take (tb_level tb) (tb_base tb)"

definition tb_extends :: "dico_tokbuf \<Rightarrow> bytes \<Rightarrow> dico_tokbuf \<Rightarrow> bool" where
  "tb_extends tb s tb' \<longleftrightarrow>
     tb_ok tb' \<and> tb_text tb' = tb_text tb @ s \<and> tb_tokv tb' = tb_tokv tb \<and> tb_tokm tb' = tb_tokm tb \<and> tb_tokc tb' = tb_tokc tb"

lemma tb_extends_trans: "tb_extends tb s tb' \<Longrightarrow> tb_extends tb' s' tb'' \<Longrightarrow> tb_extends tb (s @ s') tb''"
  by (simp add: tb_extends_def)

lemma blocks_suffice: "n \<le> (n + TKNBLOCKSIZ - 1) div TKNBLOCKSIZ * TKNBLOCKSIZ"
  by (simp add: TKNBLOCKSIZ_def)

lemma tkn_put_ok:
  assumes "tb_level tb + length s \<le> length (tb_base tb)"
  shows "\<exists>tb'. tkn_put tb s = Some tb' \<and> tb_text tb' = tb_text tb @ s \<and> length (tb_base tb') = length (tb_base tb) \<and>
    tb_size tb' = tb_size tb \<and> tb_level tb' = tb_level tb + length s \<and>
    tb_tokv tb' = tb_tokv tb \<and> tb_tokm tb' = tb_tokm tb \<and> tb_tokc tb' = tb_tokc tb"
  using assms by (simp add: tkn_put_def tb_text_def)

lemma tkn_grow_ok:
  assumes "tb_ok tb" and "\<forall>n. alloc n"
  shows "\<exists>tb'. dico_tkn_grow alloc tb s = Some (tb', None) \<and> tb_extends tb s tb'"
proof (cases "tb_level tb + length s > tb_size tb")
  case True
  define n where "n = (tb_level tb + length s + TKNBLOCKSIZ - 1) div TKNBLOCKSIZ * TKNBLOCKSIZ"
  have n: "tb_level tb + length s \<le> n" using blocks_suffice by (simp add: n_def)
  let ?tb = "tb\<lparr>tb_base := take n (tb_base tb) @ replicate (n - length (tb_base tb)) 0,
                           tb_gen := Suc (tb_gen tb), tb_size := n\<rparr>"
  have "length (tb_base ?tb) = n" "tb_text ?tb = tb_text tb" using assms(1) n by (auto simp: tb_ok_def tb_text_def)
  with tkn_put_ok [of ?tb s] n obtain tb' where "tkn_put ?tb s = Some tb'" "tb_text tb' = tb_text tb @ s"
    "length (tb_base tb') = n" "tb_size tb' = n" "tb_level tb' = tb_level tb + length s"
    "tb_tokv tb' = tb_tokv tb" "tb_tokm tb' = tb_tokm tb" "tb_tokc tb' = tb_tokc tb" by auto
  moreover have "dico_tkn_grow alloc tb s = do { tb \<leftarrow> tkn_put ?tb s; Some (tb, None) }"
    unfolding dico_tkn_grow_def Let_def n_def [symmetric] using True assms(2) by simp
  ultimately show ?thesis
    using assms(1) n by (intro exI [of _ tb']) (simp add: tb_extends_def tb_ok_def)
next
  case False
  with tkn_put_ok [of tb s] assms obtain tb' where "tkn_put tb s = Some tb'" "tb_text tb' = tb_text tb @ s"
    "length (tb_base tb') = length (tb_base tb)" "tb_size tb' = tb_size tb" "tb_level tb' = tb_level tb + length s"
    "tb_tokv tb' = tb_tokv tb" "tb_tokm tb' = tb_tokm tb" "tb_tokc tb' = tb_tokc tb" by (auto simp: tb_ok_def)
  with False assms show ?thesis
    by (intro exI [of _ tb']) (simp add: dico_tkn_grow_def tb_extends_def tb_ok_def)
qed

lemmas tkn_1grow_ok = tkn_grow_ok [of _ _ "[c]" for c, folded dico_tkn_1grow_def]

section \<open>Words\<close>

datatype word_form = Plain | Quoted byte

definition escape :: "bytes \<Rightarrow> bytes list" where
  "escape c = (if c = [0x22] \<or> c = [0x5c] then [[0x5c], c] else [c])"

text \<open>The characters that stand for the word with characters \<open>cs\<close> on the command line.\<close>

fun render :: "word_form \<Rightarrow> bytes list \<Rightarrow> bytes list" where
  "render Plain cs = cs"
| "render (Quoted q) cs = [q] # concat (map escape cs) @ [[q]]"

definition blank :: "bytes \<Rightarrow> bool" where
  "blank c \<longleftrightarrow> c = [0x20] \<or> c = [0x09]"

fun word_ok :: "word_form \<Rightarrow> bytes list \<Rightarrow> bool" where
  "word_ok Plain cs \<longleftrightarrow>
     cs \<noteq> [] \<and> hd cs \<notin> {[0x22], [0x27]} \<and> (\<forall>c\<in>set cs. uchar c \<and> \<not> blank c \<and> c \<noteq> [0x5c])"
| "word_ok (Quoted q) cs \<longleftrightarrow> q = 0x22 \<and> (\<forall>c\<in>set cs. uchar c) \<or> q = 0x27 \<and> (\<forall>c\<in>set cs. uchar c \<and> c \<noteq> [0x27])"

lemma quote_char_id: "dico_quote_char 0x22 = 0x22" "dico_quote_char 0x5c = 0x5c"
  by (simp_all add: dico_quote_char_def quote_transtab_def)

lemma hd_blank: "uchar c \<Longrightarrow> length c = 1 \<Longrightarrow> tkn_ISWS (hd c) \<longleftrightarrow> blank c"
  by (cases c) (auto simp: tkn_ISWS_def blank_def)

lemma hd_single: "uchar c \<Longrightarrow> length c = 1 \<and> hd c = b \<longleftrightarrow> c = [b]"
  by (cases c) (auto simp: uchar_def)

lemma skip_ws_ok:
  "iter_at itr (bs @ T) \<Longrightarrow> \<forall>c\<in>set bs. blank c \<Longrightarrow> T = [] \<or> \<not> blank (hd T) \<Longrightarrow>
   \<exists>itr'. tkn_skip_ws itr = Some itr' \<and> iter_at itr' T"
proof (induction bs arbitrary: itr)
  case Nil
  show ?case
  proof (cases T)
    case Nil': (Cons c T')
    have "uchar c" using Nil.prems(1) Nil' by (simp add: iter_at_def)
    with Nil.prems Nil' hd_blank [of c] show ?thesis
      by (subst tkn_skip_ws.simps) (auto simp: iter_at_isascii iter_at_byte)
  qed (use Nil.prems in \<open>subst tkn_skip_ws.simps, simp\<close>)
next
  case (Cons b bs)
  have at: "iter_at itr (b # bs @ T)" using Cons.prems by simp
  have b: "length b = 1" "tkn_ISWS (hd b)" using Cons.prems(2) by (auto simp: blank_def tkn_ISWS_def)
  obtain rc itr' where "utf8_iter_next itr = Some (rc, itr')" "iter_at itr' (bs @ T)" using iter_at_next [OF at] by blast
  with Cons.IH [of itr'] Cons.prems at b show ?case
    by (subst tkn_skip_ws.simps) (simp add: iter_at_isascii [OF at] iter_at_byte [OF at])
qed

lemma collect_char:
  assumes "iter_at itr (c # T)" and "tb_ok tb" and "\<forall>n. alloc n"
    and "quote = 0 \<longrightarrow> \<not> blank c" and "c \<noteq> [quote]" and "c \<noteq> [0x5c]"
  shows "\<exists>itr' tb'. tkn_collect alloc quote itr tb rc = tkn_collect alloc quote itr' tb' None \<and> iter_at itr' T \<and> tb_extends tb c tb'"
proof -
  have u: "uchar c" using assms(1) by (simp add: iter_at_def)
  obtain tb' where g: "dico_tkn_grow alloc tb c = Some (tb', None)" "tb_extends tb c tb'" using tkn_grow_ok [OF assms(2,3)] by blast
  obtain k itr' where n: "utf8_iter_next itr = Some (k, itr')" "iter_at itr' T" using iter_at_next [OF assms(1)] by blast
  show ?thesis
    using assms g n hd_blank [OF u] hd_single [OF u]
    by (intro exI [of _ itr'] exI [of _ tb'], subst tkn_collect.simps)
      (auto simp: iter_at_isascii iter_at_byte iter_at_bytes)
qed

lemma collect_escaped:
  assumes "iter_at itr ([0x5c] # [b] # T)" and "tb_ok tb" and "\<forall>n. alloc n" and "quote \<noteq> 0x5c" and "b = 0x22 \<or> b = 0x5c"
  shows "\<exists>itr' tb'. tkn_collect alloc quote itr tb rc = tkn_collect alloc quote itr' tb' None \<and> iter_at itr' T \<and> tb_extends tb [b] tb'"
proof -
  obtain tb' where g: "dico_tkn_1grow alloc tb b = Some (tb', None)" "tb_extends tb [b] tb'" using tkn_1grow_ok [OF assms(2,3)] by blast
  obtain k1 i1 where n1: "utf8_iter_next itr = Some (k1, i1)" "iter_at i1 ([b] # T)" using iter_at_next [OF assms(1)] by blast
  obtain k2 i2 where n2: "utf8_iter_next i1 = Some (k2, i2)" "iter_at i2 T" using iter_at_next [OF n1(2)] by blast
  show ?thesis
    using assms g n1 n2 quote_char_id
    by (intro exI [of _ i2] exI [of _ tb'], subst tkn_collect.simps)
      (auto simp: iter_at_isascii iter_at_byte tkn_ISWS_def)
qed

lemma collect_plain:
  "iter_at itr (cs @ T) \<Longrightarrow> tb_ok tb \<Longrightarrow> \<forall>n. alloc n \<Longrightarrow> \<forall>c\<in>set cs. uchar c \<and> \<not> blank c \<and> c \<noteq> [0x5c] \<Longrightarrow>
   T = [] \<or> blank (hd T) \<Longrightarrow>
   \<exists>itr' tb'. tkn_collect alloc 0 itr tb None = Some (itr', tb', None) \<and> iter_at itr' T \<and> tb_extends tb (concat cs) tb'"
proof (induction cs arbitrary: itr tb)
  case Nil
  have "tb_extends tb [] tb" using Nil.prems(2) by (simp add: tb_extends_def)
  moreover have "tkn_collect alloc 0 itr tb None = Some (itr, tb, None)"
  proof (cases T)
    case (Cons b T')
    then have "b = [0x20] \<or> b = [0x09]" "iter_at itr (b # T')" using Nil.prems by (auto simp: blank_def)
    then show ?thesis by (subst tkn_collect.simps) (auto simp: iter_at_isascii iter_at_byte tkn_ISWS_def)
  qed (use Nil.prems in \<open>subst tkn_collect.simps, simp\<close>)
  ultimately show ?case using Nil.prems(1) by auto
next
  case (Cons c cs)
  have at: "iter_at itr (c # cs @ T)" "c \<noteq> [0]" using Cons.prems by (auto simp: uchar_def)
  obtain i1 tb1 where s1: "tkn_collect alloc 0 itr tb None = tkn_collect alloc 0 i1 tb1 None" "iter_at i1 (cs @ T)" "tb_extends tb c tb1"
    using collect_char [OF at(1) Cons.prems(2,3), of 0 None] at(2) Cons.prems(4) by auto
  have "tb_ok tb1" using s1(3) by (simp add: tb_extends_def)
  from Cons.IH [OF s1(2) this Cons.prems(3) _ Cons.prems(5)] Cons.prems(4) obtain i2 tb2 where
    "tkn_collect alloc 0 i1 tb1 None = Some (i2, tb2, None)" "iter_at i2 T" "tb_extends tb1 (concat cs) tb2" by auto
  with s1 show ?case using tb_extends_trans by fastforce
qed

lemma collect_quoted:
  "iter_at itr (concat (map escape cs) @ [q] # T) \<Longrightarrow> tb_ok tb \<Longrightarrow> \<forall>n. alloc n \<Longrightarrow> word_ok (Quoted q) cs \<Longrightarrow>
   \<exists>itr' tb'. tkn_collect alloc q itr tb None = Some (itr', tb', None) \<and> iter_at itr' T \<and> tb_extends tb (concat cs) tb'"
proof (induction cs arbitrary: itr tb)
  case Nil
  have at: "iter_at itr ([q] # T)" and q: "q \<noteq> 0" using Nil.prems(1,4) by auto
  obtain k i where "utf8_iter_next itr = Some (k, i)" "iter_at i T" using iter_at_next [OF at] by blast
  moreover from this have "tkn_collect alloc q itr tb None = Some (i, tb, None)"
    using at q by (subst tkn_collect.simps) (simp add: iter_at_isascii [OF at] iter_at_byte [OF at])
  moreover have "tb_extends tb [] tb" using Nil.prems(2) by (simp add: tb_extends_def)
  ultimately show ?case by auto
next
  case (Cons c cs)
  have q: "q \<noteq> 0" "q \<noteq> 0x5c" and w: "word_ok (Quoted q) cs" using Cons.prems(4) by auto
  obtain i1 tb1 where s1: "tkn_collect alloc q itr tb None = tkn_collect alloc q i1 tb1 None"
    "iter_at i1 (concat (map escape cs) @ [q] # T)" "tb_extends tb c tb1"
  proof (cases "c = [0x22] \<or> c = [0x5c]")
    case True
    with collect_escaped [OF _ Cons.prems(2,3) q(2), of itr "hd c" "concat (map escape cs) @ [q] # T" None] Cons.prems(1) show ?thesis
      by (auto simp: escape_def [of c] intro: that)
  next
    case False
    with collect_char [OF _ Cons.prems(2,3), of itr c "concat (map escape cs) @ [q] # T" q None] Cons.prems(1,4) q show ?thesis
      by (auto simp: escape_def [of c] intro: that)
  qed
  have "tb_ok tb1" using s1(3) by (simp add: tb_extends_def)
  from Cons.IH [OF s1(2) this Cons.prems(3) w] obtain i2 tb2 where
    "tkn_collect alloc q i1 tb1 None = Some (i2, tb2, None)" "iter_at i2 T" "tb_extends tb1 (concat cs) tb2" by auto
  with s1 show ?case using tb_extends_trans by fastforce
qed

text \<open>One word: the test for a quote, the collection and the terminating NUL.\<close>

definition tkn_word :: "(nat \<Rightarrow> bool) \<Rightarrow> utf8_iterator \<Rightarrow> dico_tokbuf \<Rightarrow> (utf8_iterator \<times> dico_tokbuf \<times> errno option) option" where
  "tkn_word alloc itr tb = do {
     (itr, quote) \<leftarrow>
       (if utf8_iter_isascii itr \<and> tkn_ISQUOTE (iter_byte itr)
        then do { (_, itr') \<leftarrow> utf8_iter_next itr; Some (itr', iter_byte itr) }
        else Some (itr, 0));
     (itr, tb, rc) \<leftarrow> tkn_collect alloc quote itr tb None;
     (tb, rc) \<leftarrow> (if rc = None then dico_tkn_1grow alloc tb 0 else Some (tb, rc));
     Some (itr, tb, rc) }"

lemma tkn_loop_word:
  "tkn_loop alloc itr tb argc = do {
     itr \<leftarrow> tkn_skip_ws itr;
     e \<leftarrow> utf8_iter_end_p itr;
     (if e then Some (tb, argc, None)
      else do {
        (itr, tb, rc) \<leftarrow> tkn_word alloc itr tb;
        (if rc = None then tkn_loop alloc itr tb (argc + 1) else Some (tb, argc + 1, rc)) }) }"
  by (subst tkn_loop.simps) (simp add: tkn_word_def split_def cong: if_cong)

lemma tkn_word_ok:
  assumes "iter_at itr (render f cs @ T)" and "word_ok f cs" and "T = [] \<or> blank (hd T)" and "tb_ok tb" and "\<forall>n. alloc n"
  shows "\<exists>itr' tb'. tkn_word alloc itr tb = Some (itr', tb', None) \<and> iter_at itr' T \<and> tb_extends tb (concat cs @ [0]) tb'"
proof -
  have fin: ?thesis if c: "tkn_word alloc itr tb = do { (itr, tb, rc) \<leftarrow> tkn_collect alloc q i tb None;
        (tb, rc) \<leftarrow> (if rc = None then dico_tkn_1grow alloc tb 0 else Some (tb, rc)); Some (itr, tb, rc) }"
    "tkn_collect alloc q i tb None = Some (i', tb', None)" "iter_at i' T" "tb_extends tb (concat cs) tb'" for q i i' tb'
  proof -
    have "tb_ok tb'" using c(4) by (simp add: tb_extends_def)
    then obtain tb'' where "dico_tkn_1grow alloc tb' 0 = Some (tb'', None)" "tb_extends tb' [0] tb''"
      using tkn_1grow_ok assms(5) by blast
    with c tb_extends_trans [OF c(4)] show ?thesis by auto
  qed
  show ?thesis
  proof (cases f)
    case Plain
    then obtain c cs' where c: "cs = c # cs'" "c \<notin> {[0x22], [0x27]}" "uchar c" using assms(2) by (cases cs) auto
    then have "\<not> (utf8_iter_isascii itr \<and> tkn_ISQUOTE (iter_byte itr))"
      using assms(1) Plain hd_single [OF c(3)] iter_at_isascii [of itr c "cs' @ T"] iter_at_byte [of itr c "cs' @ T"]
      by (auto simp: tkn_ISQUOTE_def)
    moreover obtain i' tb' where "tkn_collect alloc 0 itr tb None = Some (i', tb', None)" "iter_at i' T" "tb_extends tb (concat cs) tb'"
      using collect_plain [of itr cs T tb alloc] assms Plain by auto
    ultimately show ?thesis by (intro fin [of 0 itr]) (auto simp: tkn_word_def)
  next
    case (Quoted q)
    then have at: "iter_at itr ([q] # concat (map escape cs) @ [q] # T)" using assms(1) by simp
    obtain k i where i: "utf8_iter_next itr = Some (k, i)" "iter_at i (concat (map escape cs) @ [q] # T)" using iter_at_next [OF at] by blast
    moreover obtain i' tb' where "tkn_collect alloc q i tb None = Some (i', tb', None)" "iter_at i' T" "tb_extends tb (concat cs) tb'"
      using collect_quoted [OF i(2) assms(4,5)] assms(2) Quoted by blast
    moreover have "utf8_iter_isascii itr" "iter_byte itr = q" "tkn_ISQUOTE q"
      using at assms(2) Quoted by (auto simp: iter_at_isascii iter_at_byte tkn_ISQUOTE_def)
    ultimately show ?thesis by (intro fin [of q i]) (auto simp: tkn_word_def)
  qed
qed

section \<open>Command lines\<close>

text \<open>A line: words with the blanks before each, and blanks at the end.\<close>

type_synonym line_item = "bytes list \<times> word_form \<times> bytes list"

fun line_chars :: "line_item list \<Rightarrow> bytes list \<Rightarrow> bytes list" where
  "line_chars [] trail = trail"
| "line_chars ((b, f, cs) # items) trail = b @ render f cs @ line_chars items trail"

fun line_ok :: "bool \<Rightarrow> line_item list \<Rightarrow> bool" where
  "line_ok start [] \<longleftrightarrow> True"
| "line_ok start ((b, f, cs) # items) \<longleftrightarrow>
     (start \<or> b \<noteq> []) \<and> (\<forall>c\<in>set b. blank c) \<and> word_ok f cs \<and> line_ok False items"

definition line_words :: "line_item list \<Rightarrow> bytes list" where
  "line_words items = map (\<lambda>(b, f, cs). concat cs) items"

lemma render_hd: "word_ok f cs \<Longrightarrow> render f cs \<noteq> [] \<and> \<not> blank (hd (render f cs))"
  by (cases f) (auto simp: blank_def)

lemma line_hd_blank: "line_ok False items \<Longrightarrow> \<forall>c\<in>set trail. blank c \<Longrightarrow>
  line_chars items trail = [] \<or> blank (hd (line_chars items trail))"
  by (cases items rule: line_ok.cases [of "(False, items)" for items, simplified]; cases trail) auto

lemma tkn_loop_ok:
  "iter_at itr (line_chars items trail) \<Longrightarrow> line_ok start items \<Longrightarrow> \<forall>c\<in>set trail. blank c \<Longrightarrow> tb_ok tb \<Longrightarrow> \<forall>n. alloc n \<Longrightarrow>
   \<exists>tb'. tkn_loop alloc itr tb argc = Some (tb', argc + length items, None) \<and>
     tb_extends tb (concat (map (\<lambda>w. w @ [0]) (line_words items))) tb'"
proof (induction items arbitrary: start itr tb argc)
  case Nil
  obtain itr' where "tkn_skip_ws itr = Some itr'" "iter_at itr' []"
    using skip_ws_ok [of itr trail "[]"] Nil.prems by auto
  with Nil.prems(4) show ?case by (subst tkn_loop_word) (simp add: tb_extends_def line_words_def)
next
  case (Cons it items)
  obtain b f cs where it: "it = (b, f, cs)" by (cases it)
  let ?T = "line_chars items trail"
  have ok: "\<forall>c\<in>set b. blank c" "word_ok f cs" "line_ok False items" using Cons.prems(2) it by auto
  have "iter_at itr (b @ (render f cs @ ?T))" "\<not> blank (hd (render f cs @ ?T))"
    using Cons.prems(1) it render_hd [OF ok(2)] by auto
  from skip_ws_ok [OF this(1) ok(1)] this(2) obtain i1 where i1: "tkn_skip_ws itr = Some i1" "iter_at i1 (render f cs @ ?T)"
    by auto
  obtain i2 tb2 where w: "tkn_word alloc i1 tb = Some (i2, tb2, None)" "iter_at i2 ?T" "tb_extends tb (concat cs @ [0]) tb2"
    using tkn_word_ok [OF i1(2) ok(2) line_hd_blank [OF ok(3) Cons.prems(3)] Cons.prems(4,5)] by blast
  have "tb_ok tb2" using w(3) by (simp add: tb_extends_def)
  from Cons.IH [OF w(2) ok(3) Cons.prems(3) this Cons.prems(5), of "argc + 1"] obtain tb3 where
    "tkn_loop alloc i2 tb2 (argc + 1) = Some (tb3, argc + 1 + length items, None)"
    "tb_extends tb2 (concat (map (\<lambda>w. w @ [0]) (line_words items))) tb3" by blast
  moreover have "render f cs @ ?T \<noteq> []" using render_hd [OF ok(2)] by simp
  ultimately show ?case
    using i1 w tb_extends_trans [OF w(3)] it by (subst tkn_loop_word) (auto simp: line_words_def)
qed

lemma index_of_terminator: "0 \<notin> set w \<Longrightarrow> index_of 0 (w @ 0 # r) = Some (length w)"
  by (simp add: index_of_append index_of_Cons)

lemma pointers_ok:
  "\<forall>w\<in>set ws. 0 \<notin> set w \<Longrightarrow> tb_tokc tb + length ws \<le> length (tb_tokv tb) \<Longrightarrow>
   drop p (tb_base tb) = concat (map (\<lambda>w. w @ [0]) ws) @ junk \<Longrightarrow>
   \<exists>v. tkn_pointers tb p (length ws) = Some (tb\<lparr>tb_tokv := v, tb_tokc := tb_tokc tb + length ws\<rparr>) \<and>
     length v = length (tb_tokv tb) \<and> (\<forall>i<tb_tokc tb. v ! i = tb_tokv tb ! i) \<and>
     (\<forall>i<length ws. \<exists>k. v ! (tb_tokc tb + i) = Some (tb_gen tb, k) \<and> index_of 0 (drop k (tb_base tb)) = Some (length (ws ! i)) \<and>
        take (length (ws ! i)) (drop k (tb_base tb)) = ws ! i)"
proof (induction ws arbitrary: tb p)
  case (Cons w ws)
  let ?tb = "tb\<lparr>tb_tokv := (tb_tokv tb)[tb_tokc tb := Some (tb_gen tb, p)], tb_tokc := Suc (tb_tokc tb)\<rparr>"
  have d: "drop p (tb_base tb) = w @ 0 # (concat (map (\<lambda>w. w @ [0]) ws) @ junk)" using Cons.prems(3) by simp
  have ix: "index_of 0 (drop p (tb_base tb)) = Some (length w)" using d Cons.prems(1) by (simp add: index_of_terminator)
  have "drop (p + length w + 1) (tb_base tb) = drop (length w + 1) (drop p (tb_base tb))" by (simp add: add.commute add.left_commute)
  then have d2: "drop (p + length w + 1) (tb_base ?tb) = concat (map (\<lambda>w. w @ [0]) ws) @ junk" using d by simp
  obtain v where v: "tkn_pointers ?tb (p + length w + 1) (length ws) = Some (?tb\<lparr>tb_tokv := v, tb_tokc := tb_tokc ?tb + length ws\<rparr>)"
    "length v = length (tb_tokv tb)" "\<forall>i<Suc (tb_tokc tb). v ! i = (tb_tokv tb)[tb_tokc tb := Some (tb_gen tb, p)] ! i"
    "\<forall>i<length ws. \<exists>k. v ! (Suc (tb_tokc tb) + i) = Some (tb_gen tb, k) \<and> index_of 0 (drop k (tb_base tb)) = Some (length (ws ! i)) \<and>
        take (length (ws ! i)) (drop k (tb_base tb)) = ws ! i"
    using Cons.IH [of ?tb "p + length w + 1"] Cons.prems(1,2) d2 by auto
  have "\<forall>i<length (w # ws). \<exists>k. v ! (tb_tokc tb + i) = Some (tb_gen tb, k) \<and>
      index_of 0 (drop k (tb_base tb)) = Some (length ((w # ws) ! i)) \<and> take (length ((w # ws) ! i)) (drop k (tb_base tb)) = (w # ws) ! i"
  proof (intro allI impI)
    fix i
    assume "i < length (w # ws)"
    then show "\<exists>k. v ! (tb_tokc tb + i) = Some (tb_gen tb, k) \<and>
      index_of 0 (drop k (tb_base tb)) = Some (length ((w # ws) ! i)) \<and> take (length ((w # ws) ! i)) (drop k (tb_base tb)) = (w # ws) ! i"
      using v(3,4) ix d Cons.prems(2) by (cases i) auto
  qed
  then show ?case using v ix Cons.prems(2) by (intro exI [of _ v]) auto
qed (auto intro!: exI [of _ "tb_tokv tb" for tb :: dico_tokbuf])

lemma those_map_Some: "\<forall>x\<in>set xs. f x = Some (g x) \<Longrightarrow> those (map f xs) = Some (map g xs)"
  by (induction xs) auto

lemma tokenize_string_ok:
  assumes "tb_ok tb" and "tb_tokc tb = 0" and "tb_level tb = 0" and "\<forall>n. alloc n"
    and "line_ok True items" and "\<forall>c\<in>set trail. blank c"
  shows "\<exists>tb'. dico_tokenize_string alloc True unset tb (concat (line_chars items trail)) = Some (tb', None) \<and> tb_ok tb' \<and>
    tkn_tokens tb' = Some (line_words items)"
proof -
  let ?s = "concat (line_chars items trail)" and ?ws = "line_words items"
  have u: "word_ok f cs \<Longrightarrow> \<forall>c\<in>set (render f cs). uchar c" for f cs
    by (cases f) (auto simp: escape_def uchar_ascii)
  have "line_ok b items \<Longrightarrow> \<forall>c\<in>set trail. uchar c \<Longrightarrow> \<forall>c\<in>set (line_chars items trail). uchar c" for b
    using u by (induction b items rule: line_ok.induct) (auto, auto simp: blank_def uchar_ascii)
  moreover have "\<forall>c\<in>set trail. uchar c" using assms(6) by (auto simp: blank_def uchar_ascii)
  ultimately have "\<forall>c\<in>set (line_chars items trail). uchar c" using assms(5) by blast
  from iter0_at [OF this, of 0 ?s unset] obtain rc itr where
    it: "utf8_iter_first \<lparr>ui_string = [], ui_curptr = 0, ui_curwidth = unset\<rparr> ?s = Some (rc, itr)" "iter_at itr (line_chars items trail)"
    by (auto simp: utf8_iter_first_def)
  have wok: "word_ok f cs \<Longrightarrow> 0 \<notin> set (concat cs)" for f cs by (cases f) (auto simp: uchar_def)
  have "line_ok b items \<Longrightarrow> \<forall>w\<in>set ?ws. 0 \<notin> set w" for b
    using wok by (induction b items rule: line_ok.induct) (auto simp: line_words_def)
  then have nz: "\<forall>w\<in>set ?ws. 0 \<notin> set w" using assms(5) by blast
  obtain tb1 where l: "tkn_loop alloc itr tb 0 = Some (tb1, length ?ws, None)" "tb_ok tb1" "tb_tokc tb1 = 0"
    "tb_text tb1 = concat (map (\<lambda>w. w @ [0]) ?ws)"
    using tkn_loop_ok [OF it(2) assms(5,6,1,4), of 0] assms(2,3) by (auto simp: tb_extends_def line_words_def tb_text_def)
  define n where "n = length ?ws + 1"
  define tb2 where "tb2 = (if n > tb_tokm tb1
      then tb1\<lparr>tb_tokv := take n (tb_tokv tb1) @ replicate (n - length (tb_tokv tb1)) None, tb_tokm := n\<rparr> else tb1)"
  have tb2: "tb_base tb2 = tb_base tb1" "tb_gen tb2 = tb_gen tb1" "tb_tokc tb2 = 0" "tb_level tb2 = tb_level tb1" "tb_size tb2 = tb_size tb1"
    "length (tb_tokv tb2) = tb_tokm tb2" "n \<le> tb_tokm tb2"
    using l(2,3) by (auto simp: tb2_def tb_ok_def)
  have "drop 0 (tb_base tb2) = concat (map (\<lambda>w. w @ [0]) ?ws) @ drop (tb_level tb1) (tb_base tb1)"
    using l(4) tb2(1) append_take_drop_id [of "tb_level tb1" "tb_base tb1"] by (simp add: tb_text_def)
  from pointers_ok [OF nz _ this] tb2 obtain v where v:
    "tkn_pointers tb2 0 (length ?ws) = Some (tb2\<lparr>tb_tokv := v, tb_tokc := length ?ws\<rparr>)" "length v = tb_tokm tb2"
    "\<forall>i<length ?ws. \<exists>k. v ! i = Some (tb_gen tb2, k) \<and> index_of 0 (drop k (tb_base tb2)) = Some (length (?ws ! i)) \<and>
        take (length (?ws ! i)) (drop k (tb_base tb2)) = ?ws ! i" by (auto simp: n_def)
  let ?tb = "tb2\<lparr>tb_tokv := v[length ?ws := None], tb_tokc := length ?ws\<rparr>"
  have "dico_tokenize_string alloc True unset tb ?s = Some (?tb, None)"
    using it(1) l(1,3) v(1,2) tb2(7) assms(3)
    by (cases "n > tb_tokm tb1") (simp_all add: dico_tokenize_string_def tb2_def n_def)
  moreover have "tb_ok ?tb" using l(2) tb2 v(2) by (auto simp: tb_ok_def n_def)
  moreover have "\<forall>i\<in>set [0..<length ?ws]. tkn_read ?tb i = Some (?ws ! i)"
    using v(2,3) tb2(7) by (fastforce simp: tkn_read_def n_def)
  then have "tkn_tokens ?tb = Some ?ws"
    using those_map_Some [of "[0..<length ?ws]" "tkn_read ?tb" "(!) ?ws"] by (simp add: tkn_tokens_def map_nth)
  ultimately show ?thesis by blast
qed

section \<open>Properties\<close>

text \<open>
  C37: \<^verbatim>\<open>xdico_tokenize_string\<close> on a command line made of words, each written plainly or
  in single or double quotes with a backslash before every double quote and backslash in
  them, separated by blanks: it ends, without a read or write outside the line and the
  buffers, and the tokens are the words, whatever well-formed buffer it is given and
  whatever its earlier contents; so is the buffer it leaves.
\<close>

theorem xdico_tokenize_string_words:
  assumes "tb_ok tb" and "\<forall>n. alloc n" and "line_ok True items" and "\<forall>c\<in>set trail. blank c"
  shows "\<exists>tb'. xdico_tokenize_string alloc True unset tb (concat (line_chars items trail)) = Some (Returned tb') \<and> tb_ok tb' \<and>
    tkn_tokens tb' = Some (line_words items)"
proof -
  have "tb_ok (dico_tokenize_clear tb)" "tb_tokc (dico_tokenize_clear tb) = 0" "tb_level (dico_tokenize_clear tb) = 0"
    using assms(1) by (auto simp: tb_ok_def dico_tokenize_clear_def)
  from tokenize_string_ok [OF this assms(2-4), of unset] show ?thesis by (auto simp: xdico_tokenize_string_def)
qed

theorem xdico_tokenize_string_words_witness:
  "\<exists>tb'. xdico_tokenize_string (\<lambda>_. True) True 0 dico_tokenize_begin (str ''d '' @ [0x22, 0x5c, 0x22, 0x20, 0xc3, 0xa9, 0x22]) = Some (Returned tb') \<and>
    tkn_tokens tb' = Some [str ''d'', [0x22, 0x20, 0xc3, 0xa9]]"
  using xdico_tokenize_string_words [of dico_tokenize_begin "\<lambda>_. True"
      "[([], Plain, [[0x64]]), ([[0x20]], Quoted 0x22, [[0x22], [0x20], [0xc3, 0xa9]])]" "[]" 0]
  by (simp add: tb_ok_def dico_tokenize_begin_def escape_def blank_def line_words_def uchar_def utf8_char_width_def chr_at_def Let_def) blast

text \<open>
  The escapes of \<^verbatim>\<open>quote_transtab\<close> are looked up in the wrong direction: a letter after a
  backslash becomes a NUL, which ends the token, and every later token is one behind.
\<close>

declare tkn_skip_ws.simps [code] tkn_collect.simps [code] tkn_loop.simps [code]

theorem tokenize_escape_splits_token:
  "do { (tb, rc) \<leftarrow> dico_tokenize_string (\<lambda>_. True) True 0 dico_tokenize_begin (str ''a'' @ [0x5c] @ str ''nb c''); tkn_tokens tb } =
   Some [str ''a'', str ''b'']"
  by code_simp

text \<open>
  Tokens of an earlier call that was not followed by \<^verbatim>\<open>dico_tokenize_clear\<close> dangle when the
  buffer has to be enlarged.
\<close>

theorem tkn_grow_invalidates_tokens:
  assumes "tkn_read tb i = Some w" and "tb_level tb + length s > tb_size tb" and "dico_tkn_grow alloc tb s = Some (tb', None)"
  shows "tkn_read tb' i = None"
proof -
  obtain g p where "tb_tokv tb ! i = Some (g, p)" "g = tb_gen tb"
    using assms(1) by (auto simp: tkn_read_def split: if_split_asm option.split_asm prod.split_asm)
  moreover have "tb_gen tb' = Suc (tb_gen tb)" "tb_tokv tb' = tb_tokv tb"
    using assms(2,3) by (auto simp: dico_tkn_grow_def tkn_put_def Let_def split: if_split_asm)
  ultimately show ?thesis by (simp add: tkn_read_def)
qed

end
