(* ===== verification/Dico_Acl.thy ===== *)
theory Dico_Acl
  imports Dico_Codec
begin

text \<open>
  Access control lists of the server: \<^verbatim>\<open>dicod/acl.c\<close>, the callbacks of
  \<^verbatim>\<open>dicod/main.c\<close> that build them. An access control list
  is an object of a store, its pointer the index, because an entry refers to another list by
  pointer and the list may still be growing. The lists of \<^verbatim>\<open>lib/list.c\<close> are the lists they
  refine; the resolver and the buckets of the hash table are parameters.
\<close>

unbundle bit_operations_syntax

section \<open>Configuration values\<close>

datatype grecs_value = GRECS_STRING bytes | GRECS_LIST "grecs_value list" | GRECS_ARRAY "grecs_value list"

text \<open>\<^verbatim>\<open>dicod_string_list_from_grecs\<close>: stops at the first value that is not a string.\<close>

fun dicod_string_list_from_grecs :: "grecs_value list \<Rightarrow> bytes list" where
  "dicod_string_list_from_grecs (GRECS_STRING s # vs) = s # dicod_string_list_from_grecs vs"
| "dicod_string_list_from_grecs _ = []"

section \<open>Entries\<close>

datatype sockaddr = AF_INET "32 word" | AF_UNIX bytes

record dicod_sockaddr =
  sk_netmask :: "32 word"
  sk_salen :: nat
  sk_sa :: sockaddr

record acl_entry =
  ae_allow :: bool
  ae_authenticated :: bool
  ae_dflt :: bool
  ae_acl :: "nat option"
  ae_groups :: "bytes list option"
  ae_sockaddrs :: "dicod_sockaddr list option"

record dicod_acl =
  acl_name :: bytes
  acl_list :: "acl_entry list"

text \<open>The store, and the pointers that are in the hash table.\<close>

record acl_env =
  acls :: "dicod_acl list"
  acl_table :: "nat list"

text \<open>
  The hash table finds an element only in the bucket of the name looked for; \<open>bucket\<close> is
  \<^verbatim>\<open>acl_hasher\<close>, whose result depends on the case of the letters, other than
  \<^verbatim>\<open>acl_compare\<close>.
\<close>

definition acl_name_at :: "acl_env \<Rightarrow> nat \<Rightarrow> bytes" where
  "acl_name_at env p = acl_name (acls env ! p)"

definition acl_compare :: "bytes \<Rightarrow> bytes \<Rightarrow> bool" where
  "acl_compare a b \<longleftrightarrow> strcasecmp a b = 0"

definition dicod_acl_lookup :: "(bytes \<Rightarrow> nat) \<Rightarrow> acl_env \<Rightarrow> bytes \<Rightarrow> nat option" where
  "dicod_acl_lookup bucket env name =
     find (\<lambda>p. bucket (acl_name_at env p) = bucket name \<and> acl_compare name (acl_name_at env p)) (acl_table env)"

definition dicod_acl_create :: "acl_env \<Rightarrow> bytes \<Rightarrow> acl_env \<times> nat" where
  "dicod_acl_create env name = (env\<lparr>acls := acls env @ [\<lparr>acl_name = name, acl_list = []\<rparr>]\<rparr>, length (acls env))"

definition dicod_acl_install :: "(bytes \<Rightarrow> nat) \<Rightarrow> acl_env \<Rightarrow> nat \<Rightarrow> acl_env \<times> int" where
  "dicod_acl_install bucket env p =
     (case dicod_acl_lookup bucket env (acl_name_at env p) of
        Some _ \<Rightarrow> (env, 1)
      | None \<Rightarrow> (env\<lparr>acl_table := acl_table env @ [p]\<rparr>, 0))"

section \<open>Parsing\<close>

text \<open>
  The resolver: \<^verbatim>\<open>inet_aton\<close> and \<^verbatim>\<open>gethostbyname\<close> give an address in network byte order;
  \<^verbatim>\<open>ntohl\<close> is that of a little-endian machine.
\<close>

record resolver =
  inet_aton :: "bytes \<Rightarrow> 32 word option"
  gethostbyname :: "bytes \<Rightarrow> 32 word option"

definition ntohl :: "32 word \<Rightarrow> 32 word" where
  "ntohl w = push_bit 24 (w AND 0xff) OR push_bit 8 (w AND 0xff00) OR (drop_bit 8 w AND 0xff00) OR drop_bit 24 w"

fun dec_digits :: "nat \<Rightarrow> bytes \<Rightarrow> nat" where
  "dec_digits acc [] = acc"
| "dec_digits acc (c # s) = dec_digits (acc * 10 + (unat c - 0x30)) s"

text \<open>\<^verbatim>\<open>strtoul (p, &q, 10)\<close>: the value and the rest.\<close>

definition strtoul10 :: "bytes \<Rightarrow> 64 word \<times> bytes" where
  "strtoul10 s =
     (let t = dropWhile c_isspace s;
          neg = (t \<noteq> [] \<and> hd t = 0x2d);
          u = (if t \<noteq> [] \<and> (hd t = 0x2d \<or> hd t = 0x2b) then tl t else t);
          ds = takeWhile c_isdigit u;
          n = dec_digits 0 ds in
      if ds = [] then (0, s)
      else (if n \<ge> 2 ^ 64 then -1 else if neg then - of_nat n else of_nat n, dropWhile c_isdigit u))"

text \<open>\<^verbatim>\<open>0xfffffffful >> (32 - netlen)\<close> and back; a shift by more than 63 bits is undefined.\<close>

definition cidr_netmask :: "32 word \<Rightarrow> 32 word option" where
  "cidr_netmask netlen =
     (if netlen = 0 then Some 0
      else
        let sh = unat (32 - netlen) in
        if sh \<ge> 64 then None
        else
          let m = ucast (drop_bit sh (0xffffffff :: 64 word)) :: 32 word in
          if sh \<ge> 32 then None else Some (push_bit sh m))"

text \<open>Room for \<^verbatim>\<open>sun_path\<close> in the \<^verbatim>\<open>struct sockaddr\<close> of an entry, and its size in \<^verbatim>\<open>struct sockaddr_un\<close>.\<close>

definition sa_data_size :: nat where
  "sa_data_size = 14"

definition sun_path_size :: nat where
  "sun_path_size = 108"

definition create_acl_sockaddr :: "sockaddr \<Rightarrow> 32 word \<Rightarrow> dicod_sockaddr" where
  "create_acl_sockaddr sa netmask = \<lparr>sk_netmask = netmask, sk_salen = 8, sk_sa = sa\<rparr>"

definition parse_token :: "acl_entry \<Rightarrow> bytes \<Rightarrow> acl_entry \<times> int" where
  "parse_token e s =
     (if s = str ''all'' \<or> s = str ''any'' then (e, 0)
      else if s = str ''auth'' \<or> s = str ''authenticated'' then (e\<lparr>ae_authenticated := True\<rparr>, 0)
      else (e, 1))"

definition add_sockaddr :: "acl_entry \<Rightarrow> dicod_sockaddr \<Rightarrow> acl_entry option" where
  "add_sockaddr e s = map_option (\<lambda>l. e\<lparr>ae_sockaddrs := Some (l @ [s])\<rparr>) (ae_sockaddrs e)"

definition parse_netmask :: "resolver \<Rightarrow> bytes option \<Rightarrow> (32 word + unit) option" where
  "parse_netmask rs p =
     (case p of
        None \<Rightarrow> Some (Inl 0xffffffff)
      | Some p \<Rightarrow>
          (case strtoul10 p of (v, q) \<Rightarrow>
             if q = [] then map_option Inl (cidr_netmask (ucast v))
             else if hd q = 0x2e
             then Some (case inet_aton rs p of None \<Rightarrow> Inr () | Some a \<Rightarrow> Inl a)
             else Some (Inr ())))"

definition parse_sockaddr :: "resolver \<Rightarrow> acl_entry \<Rightarrow> grecs_value \<Rightarrow> (acl_entry \<times> int) option" where
  "parse_sockaddr rs e v =
     (case v of
        GRECS_STRING s \<Rightarrow>
          if s \<noteq> [] \<and> hd s = 0x2f
          then
            if length s \<ge> sun_path_size then Some (e, 1)
            else if length s + 1 > sa_data_size then None
            else map_option (\<lambda>e. (e, 0)) (add_sockaddr e (create_acl_sockaddr (AF_UNIX s) 0))
          else
            let host = takeWhile (\<lambda>c. c \<noteq> 0x2f) s;
                p = (if 0x2f \<in> set s then Some (tl (dropWhile (\<lambda>c. c \<noteq> 0x2f) s)) else None) in
            (case (case inet_aton rs host of Some a \<Rightarrow> Some a | None \<Rightarrow> gethostbyname rs host) of
               None \<Rightarrow> Some (e, 1)
             | Some a \<Rightarrow> do {
                 m \<leftarrow> parse_netmask rs p;
                 (case m of
                    Inr _ \<Rightarrow> Some (e, 1)
                  | Inl m \<Rightarrow> map_option (\<lambda>e. (e, 0)) (add_sockaddr e (create_acl_sockaddr (AF_INET (ntohl a)) m))) })
      | _ \<Rightarrow> Some (e, 1))"

fun parse_sockaddrs :: "resolver \<Rightarrow> acl_entry \<Rightarrow> grecs_value list \<Rightarrow> (acl_entry \<times> int) option" where
  "parse_sockaddrs rs e [] = Some (e, 0)"
| "parse_sockaddrs rs e (v # vs) = do {
     (e, rc) \<leftarrow> parse_sockaddr rs e v;
     (e, rc') \<leftarrow> parse_sockaddrs rs e vs;
     Some (e, rc + rc') }"

definition parse_from :: "resolver \<Rightarrow> acl_entry \<Rightarrow> grecs_value list \<Rightarrow> (acl_entry \<times> int) option" where
  "parse_from rs e argv =
     (case argv of
        [] \<Rightarrow> Some (e, 0)
      | GRECS_STRING s # argv' \<Rightarrow>
          if s \<noteq> str ''from'' then Some (e, 1)
          else (case argv' of
             [] \<Rightarrow> Some (e, 1)
           | v # rest \<Rightarrow> do {
               (e, rc) \<leftarrow>
                 (case v of
                    GRECS_STRING s \<Rightarrow>
                      if s = str ''any'' then Some (e\<lparr>ae_dflt := True\<rparr>, 0)
                      else parse_sockaddr rs (e\<lparr>ae_sockaddrs := Some []\<rparr>) v
                  | GRECS_LIST vs \<Rightarrow> parse_sockaddrs rs (e\<lparr>ae_sockaddrs := Some []\<rparr>) vs
                  | GRECS_ARRAY _ \<Rightarrow> None);
               Some (e, if rc \<noteq> 0 then rc else if rest \<noteq> [] then 1 else 0) })
      | GRECS_LIST _ # _ \<Rightarrow> Some (e, 1)
      | GRECS_ARRAY _ # _ \<Rightarrow> None)"

definition parse_sub_acl ::
  "(bytes \<Rightarrow> nat option) \<Rightarrow> resolver \<Rightarrow> acl_entry \<Rightarrow> grecs_value list \<Rightarrow> (acl_entry \<times> int) option" where
  "parse_sub_acl lookup rs e argv =
     (case argv of
        [] \<Rightarrow> Some (e, 0)
      | GRECS_STRING s # argv' \<Rightarrow>
          if s = str ''acl''
          then (case argv' of
              [] \<Rightarrow> Some (e, 1)
            | GRECS_STRING name # rest \<Rightarrow>
                (case lookup name of
                   None \<Rightarrow> Some (e, 1)
                 | Some p \<Rightarrow> parse_from rs (e\<lparr>ae_acl := Some p\<rparr>) rest)
            | _ \<Rightarrow> Some (e, 1))
          else parse_from rs e argv
      | _ \<Rightarrow> None)"

definition parse_group ::
  "(bytes \<Rightarrow> nat option) \<Rightarrow> resolver \<Rightarrow> acl_entry \<Rightarrow> grecs_value list \<Rightarrow> (acl_entry \<times> int) option" where
  "parse_group lookup rs e argv =
     (case argv of
        GRECS_STRING s # argv' \<Rightarrow>
          if s = str ''group''
          then (case argv' of
              [] \<Rightarrow> Some (e, 1)
            | GRECS_STRING g # rest \<Rightarrow> parse_sub_acl lookup rs (e\<lparr>ae_groups := Some [g]\<rparr>) rest
            | GRECS_LIST vs # rest \<Rightarrow> parse_sub_acl lookup rs (e\<lparr>ae_groups := Some (dicod_string_list_from_grecs vs)\<rparr>) rest
            | GRECS_ARRAY _ # _ \<Rightarrow> Some (e, 1))
          else parse_sub_acl lookup rs e argv
      | _ \<Rightarrow> None)"

definition parse_acl ::
  "(bytes \<Rightarrow> nat option) \<Rightarrow> resolver \<Rightarrow> acl_entry \<Rightarrow> grecs_value list \<Rightarrow> (acl_entry \<times> int) option" where
  "parse_acl lookup rs e argv =
     (case argv of
        [] \<Rightarrow> None
      | GRECS_STRING s # argv' \<Rightarrow>
          (case parse_token e s of (e, rc) \<Rightarrow>
             if rc = 0 then parse_sub_acl lookup rs e argv' else parse_group lookup rs e argv)
      | _ \<Rightarrow> Some (e, 1))"

definition new_entry :: "bool \<Rightarrow> acl_entry" where
  "new_entry allow = \<lparr>ae_allow = allow, ae_authenticated = False, ae_dflt = False, ae_acl = None, ae_groups = None, ae_sockaddrs = None\<rparr>"

definition acl_append :: "acl_env \<Rightarrow> nat \<Rightarrow> acl_entry \<Rightarrow> acl_env option" where
  "acl_append env p e =
     (if p < length (acls env)
      then Some (env\<lparr>acls := (acls env)[p := (acls env ! p)\<lparr>acl_list := acl_list (acls env ! p) @ [e]\<rparr>]\<rparr>)
      else None)"

definition parse_acl_line ::
  "(bytes \<Rightarrow> nat) \<Rightarrow> resolver \<Rightarrow> acl_env \<Rightarrow> bool \<Rightarrow> nat \<Rightarrow> grecs_value \<Rightarrow> (acl_env \<times> int) option" where
  "parse_acl_line bucket rs env allow p v = do {
     (e, rc) \<leftarrow>
       (case v of
          GRECS_STRING s \<Rightarrow> Some (parse_token (new_entry allow) s)
        | GRECS_ARRAY argv \<Rightarrow> parse_acl (dicod_acl_lookup bucket env) rs (new_entry allow) argv
        | GRECS_LIST _ \<Rightarrow> Some (new_entry allow, 1));
     (if rc \<noteq> 0 then Some (env, 1) else map_option (\<lambda>env. (env, 0)) (acl_append env p e)) }"

text \<open>
  The callbacks: a list is created and installed when its block begins, so its own entries
  can name it.
\<close>

definition acl_cb_begin :: "(bytes \<Rightarrow> nat) \<Rightarrow> acl_env \<Rightarrow> grecs_value \<Rightarrow> acl_env \<times> nat option \<times> int" where
  "acl_cb_begin bucket env v =
     (case v of
        GRECS_STRING s \<Rightarrow>
          (case dicod_acl_create env s of (env, p) \<Rightarrow>
             (case dicod_acl_install bucket env p of (env, rc) \<Rightarrow>
                if rc \<noteq> 0 then (env, None, 1) else (env, Some p, 0)))
      | _ \<Rightarrow> (env, None, 0))"

definition allow_cb where
  "allow_cb bucket rs env p v = map_option fst (parse_acl_line bucket rs env True p v)"

definition deny_cb where
  "deny_cb bucket rs env p v = map_option fst (parse_acl_line bucket rs env False p v)"

section \<open>Checking\<close>

record client =
  user_name :: "bytes option"
  user_groups :: "bytes list"
  client_addr :: sockaddr
  client_addrlen :: nat

definition S_UN_NAME :: "bytes \<Rightarrow> nat \<Rightarrow> bytes" where
  "S_UN_NAME path salen = (if salen < 2 then [] else path)"

definition check_sockaddr :: "client \<Rightarrow> dicod_sockaddr \<Rightarrow> bool" where
  "check_sockaddr c s =
     (case (sk_sa s, client_addr c) of
        (AF_INET item, AF_INET clt) \<Rightarrow> item = (ntohl clt AND sk_netmask s)
      | (AF_UNIX item, AF_UNIX clt) \<Rightarrow>
          S_UN_NAME clt (client_addrlen c) \<noteq> [] \<and> S_UN_NAME item (sk_salen s) \<noteq> [] \<and> strcmp clt item = 0
      | _ \<Rightarrow> False)"

text \<open>The conditions \<^verbatim>\<open>_acl_check\<close> tests before and after it checks the list an entry refers to.\<close>

definition acl_user_ok :: "client \<Rightarrow> acl_entry \<Rightarrow> bool" where
  "acl_user_ok c e \<longleftrightarrow>
     (ae_authenticated e \<longrightarrow> user_name c \<noteq> None) \<and>
     (case ae_groups e of None \<Rightarrow> True | Some gs \<Rightarrow> list_ex (\<lambda>g. list_ex (\<lambda>h. strcmp h g = 0) (user_groups c)) gs)"

definition acl_addr_ok :: "client \<Rightarrow> acl_entry \<Rightarrow> bool" where
  "acl_addr_ok c e \<longleftrightarrow>
     ae_dflt e \<or> (case ae_sockaddrs e of None \<Rightarrow> True | Some l \<Rightarrow> list_ex (check_sockaddr c) l)"

text \<open>
  \<^verbatim>\<open>dicod_acl_check\<close>, \<^verbatim>\<open>_acl_check_cb\<close> and \<^verbatim>\<open>_acl_check\<close>: the entries from one on. The
  recursion through \<^verbatim>\<open>ent->acl\<close> need not end; then the value is \<open>None\<close>.
\<close>

partial_function (option) acl_check_loop :: "acl_env \<Rightarrow> client \<Rightarrow> acl_entry list \<Rightarrow> bool \<Rightarrow> bool option" where
  "acl_check_loop env c es result =
     (case es of
        [] \<Rightarrow> Some result
      | e # es' \<Rightarrow> do {
          m \<leftarrow>
            (if \<not> acl_user_ok c e then Some False
             else do {
               sub \<leftarrow> (case ae_acl e of
                        None \<Rightarrow> Some True
                      | Some p \<Rightarrow> if p < length (acls env) then acl_check_loop env c (acl_list (acls env ! p)) True else None);
               Some (sub \<and> acl_addr_ok c e) });
          (if m then Some (ae_allow e) else acl_check_loop env c es' result) })"

definition dicod_acl_check :: "acl_env \<Rightarrow> client \<Rightarrow> nat option \<Rightarrow> bool \<Rightarrow> bool option" where
  "dicod_acl_check env c acl result =
     (case acl of
        None \<Rightarrow> Some result
      | Some p \<Rightarrow> if p < length (acls env) then acl_check_loop env c (acl_list (acls env ! p)) result else None)"

definition show_sys_info_p :: "acl_env \<Rightarrow> client \<Rightarrow> nat option \<Rightarrow> bool option" where
  "show_sys_info_p env c show_sys_info = (if show_sys_info = None then Some True else dicod_acl_check env c show_sys_info True)"

end
