(* ===== verification/Dico_Dispatch.thy ===== *)
theory Dico_Dispatch
  imports Dico_List_Props
begin

text \<open>
  How the server chooses what to do with a command: aliases (\<^verbatim>\<open>dicod/alias.c\<close>), the table of
  commands (\<^verbatim>\<open>dicod/commands.c\<close>), capabilities (\<^verbatim>\<open>dicod/capa.c\<close>) and the words a strategy is
  not used for (\<^verbatim>\<open>dicod/stratcl.c\<close>). The lists of \<^verbatim>\<open>lib/list.c\<close> are the lists they refine; the
  hash table of aliases, whose hash function agrees with its comparison, is the list of its
  elements.
\<close>

section \<open>Aliases\<close>

record alias_entry =
  al_kw :: bytes
  al_argv :: "bytes list"

definition alias_compare :: "alias_entry \<Rightarrow> alias_entry \<Rightarrow> bool" where
  "alias_compare a b \<longleftrightarrow> strcmp (al_kw a) (al_kw b) = 0"

definition list_alias_cmp :: "alias_entry \<Rightarrow> alias_entry \<Rightarrow> int" where
  "list_alias_cmp a b = strcmp (al_kw a) (al_kw b)"

definition alias_lookup :: "alias_entry list \<Rightarrow> bytes \<Rightarrow> alias_entry option" where
  "alias_lookup table kw = find (\<lambda>a. alias_compare \<lparr>al_kw = kw, al_argv = []\<rparr> a) table"

text \<open>\<^verbatim>\<open>alias_install\<close>: 1 when the keyword has an alias already.\<close>

definition alias_install :: "alias_entry list option \<Rightarrow> bytes \<Rightarrow> bytes list \<Rightarrow> alias_entry list option \<times> int" where
  "alias_install table kw argv =
     (let table = (case table of None \<Rightarrow> [] | Some t \<Rightarrow> t) in
      case alias_lookup table kw of
        Some _ \<Rightarrow> (Some table, 1)
      | None \<Rightarrow> (Some (table @ [\<lparr>al_kw = kw, al_argv = argv\<rparr>]), 0))"

text \<open>The first loop of \<^verbatim>\<open>alias_expand\<close>: it ends because an alias is used once.\<close>

function alias_chain :: "alias_entry list \<Rightarrow> bytes \<Rightarrow> alias_entry list \<Rightarrow> alias_entry list option" where
  "alias_chain table kw alist =
     (case alias_lookup table kw of
        None \<Rightarrow> Some alist
      | Some ap \<Rightarrow>
          if list_ex (\<lambda>a. list_alias_cmp a ap = 0) alist then Some alist
          else (case al_argv ap of [] \<Rightarrow> None | k # _ \<Rightarrow> alias_chain table k (alist @ [ap])))"
  by pat_completeness auto
termination
proof (relation "measure (\<lambda>(table, kw, alist). card (set (map al_kw table) - set (map al_kw alist)))", goal_cases)
  case 1
  show ?case by simp
next
  case (2 table kw alist ap k ks)
  have "ap \<in> set table" using 2(1) by (auto simp: alias_lookup_def find_Some_iff)
  moreover have "al_kw ap \<notin> set (map al_kw alist)" using 2(2) by (auto simp: list_ex_iff list_alias_cmp_def)
  ultimately have "set (map al_kw table) - set (map al_kw (alist @ [ap])) \<subset> set (map al_kw table) - set (map al_kw alist)" by auto
  then show ?case by (auto intro!: psubset_card_mono)
qed

declare alias_chain.simps [simp del]

text \<open>Stores into the new vector, whose last element stays NULL.\<close>

definition vec_put :: "bytes option list \<Rightarrow> int \<Rightarrow> bytes option \<Rightarrow> bytes option list option" where
  "vec_put v i x = (if 0 \<le> i \<and> nat i < length v then Some (v[nat i := x]) else None)"

fun vec_copy :: "bytes option list \<Rightarrow> int \<Rightarrow> bytes option list \<Rightarrow> bytes option list option" where
  "vec_copy v i [] = Some v"
| "vec_copy v i (x # xs) = do { v \<leftarrow> vec_put v i x; vec_copy v (i + 1) xs }"

text \<open>The arguments of one alias from the last to the second, from \<^verbatim>\<open>pos\<close> downwards.\<close>

fun alias_args :: "bytes option list \<Rightarrow> int \<Rightarrow> bytes list \<Rightarrow> (bytes option list \<times> int) option" where
  "alias_args v pos [] = Some (v, pos)"
| "alias_args v pos (x # xs) = do { v \<leftarrow> vec_put v pos (Some x); alias_args v (pos - 1) xs }"

fun alias_fill :: "bytes option list \<Rightarrow> int \<Rightarrow> bytes option \<Rightarrow> alias_entry list \<Rightarrow> (bytes option list \<times> int \<times> bytes option) option" where
  "alias_fill v pos kw [] = Some (v, pos, kw)"
| "alias_fill v pos kw (ap # aps) =
     (case al_argv ap of
        [] \<Rightarrow> None
      | k # args \<Rightarrow> do { (v, pos) \<leftarrow> alias_args v pos (rev args); alias_fill v pos (Some k) aps })"

text \<open>
  \<^verbatim>\<open>alias_expand\<close>: \<open>Some None\<close> is the result 1 (nothing to expand). The vector of arguments
  has a NULL behind its last element, which is copied too.
\<close>

definition alias_expand :: "alias_entry list option \<Rightarrow> bytes list \<Rightarrow> (nat \<times> bytes option list) option option" where
  "alias_expand table argv =
     (case table of
        None \<Rightarrow> Some None
      | Some table \<Rightarrow>
          (case argv of
             [] \<Rightarrow> None
           | kw # args \<Rightarrow> do {
               alist \<leftarrow> alias_chain table kw [];
               (if alist = [] then Some None
                else
                  let pos = 1 + sum_list (map (\<lambda>ap. int (length (al_argv ap)) - 1) alist);
                      nargc = pos + int (length argv) - 1 in do {
                    v \<leftarrow> vec_copy (replicate (nat (nargc + 1)) None) pos (map Some args @ [None]);
                    (v, pos, k) \<leftarrow> alias_fill v (pos - 1) None alist;
                    v \<leftarrow> vec_put v pos k;
                    Some (Some (nat nargc, v)) }) }))"

section \<open>Words a strategy is not used for\<close>

datatype cmp_op = cmp_eq | cmp_ne | cmp_lt | cmp_le | cmp_gt | cmp_ge

datatype stratcl = stratcl_all | stratcl_word bytes | stratcl_length cmp_op nat

definition stratcl_add_word :: "stratcl list \<Rightarrow> bytes \<Rightarrow> stratcl list" where
  "stratcl_add_word l word = l @ [stratcl_word word]"

definition stratcl_add_cmp :: "stratcl list \<Rightarrow> cmp_op \<Rightarrow> nat \<Rightarrow> stratcl list" where
  "stratcl_add_cmp l op len = l @ [stratcl_length op len]"

definition stratcl_add_disable :: "stratcl list \<Rightarrow> stratcl list" where
  "stratcl_add_disable l = l @ [stratcl_all]"

record stratcl_check =
  sc_word :: bytes
  sc_len :: nat
  sc_res :: bool

fun check_op :: "cmp_op \<Rightarrow> nat \<Rightarrow> nat \<Rightarrow> bool" where
  "check_op cmp_eq a b \<longleftrightarrow> a = b"
| "check_op cmp_ne a b \<longleftrightarrow> a \<noteq> b"
| "check_op cmp_lt a b \<longleftrightarrow> a < b"
| "check_op cmp_le a b \<longleftrightarrow> a \<le> b"
| "check_op cmp_gt a b \<longleftrightarrow> a > b"
| "check_op cmp_ge a b \<longleftrightarrow> a \<ge> b"

definition check_word :: "stratcl \<Rightarrow> stratcl_check \<Rightarrow> bool \<times> stratcl_check" where
  "check_word sp cp =
     (let cp = (case sp of
          stratcl_all \<Rightarrow> cp\<lparr>sc_res := True\<rparr>
        | stratcl_word w \<Rightarrow> cp\<lparr>sc_res := strcmp w (sc_word cp) = 0\<rparr>
        | stratcl_length op len \<Rightarrow> cp\<lparr>sc_res := check_op op (sc_len cp) len\<rparr>)
      in (sc_res cp, cp))"

definition stratcl_check_word :: "stratcl list option \<Rightarrow> bytes \<Rightarrow> bool" where
  "stratcl_check_word l word =
     (case l of None \<Rightarrow> False
      | Some l \<Rightarrow> sc_res (l_iterate check_word l \<lparr>sc_word = word, sc_len = length word, sc_res = False\<rparr>))"

section \<open>Commands\<close>

text \<open>The functions a command may point to.\<close>

datatype handler =
    H_define | H_match | H_show_databases | H_show_strategies | H_show_info | H_show_server
  | H_client | H_status | H_help | H_quit | H_lang | H_show_lang_db | H_show_lang_info
  | H_show_lang_pref | H_mime | H_markup | H_xlevdist | H_xidle | H_xversion | H_auth

record dicod_command =
  keyword :: bytes
  minparam :: nat
  maxparam :: "nat option"
  param :: "bytes option"
  cmd_help :: bytes
  cmd_handler :: "handler option"

definition cmd :: "string \<Rightarrow> nat \<Rightarrow> nat option \<Rightarrow> string option \<Rightarrow> string \<Rightarrow> handler \<Rightarrow> dicod_command" where
  "cmd k lo hi p h f = \<lparr>keyword = str k, minparam = lo, maxparam = hi, param = map_option (\<lambda>p. str p) p, cmd_help = str h, cmd_handler = Some f\<rparr>"

definition command_tab :: "dicod_command list" where
  "command_tab =
     [cmd ''DEFINE'' 3 (Some 3) (Some ''database word'') ''look up word in database'' H_define,
      cmd ''MATCH'' 4 (Some 4) (Some ''database strategy word'') ''match word in database using strategy'' H_match,
      cmd ''SHOW DB'' 2 (Some 2) None ''list all accessible databases'' H_show_databases,
      cmd ''SHOW DATABASES'' 2 (Some 2) None ''list all accessible databases'' H_show_databases,
      cmd ''SHOW STRAT'' 2 (Some 2) None ''list available matching strategies'' H_show_strategies,
      cmd ''SHOW STRATEGIES'' 2 (Some 2) None ''list available matching strategies'' H_show_strategies,
      cmd ''SHOW INFO'' 3 (Some 3) (Some ''database'') ''provide information about the database'' H_show_info,
      cmd ''SHOW SERVER'' 2 (Some 2) None ''provide site-specific information'' H_show_server,
      cmd ''CLIENT'' 1 None (Some ''info'') ''identify client to server'' H_client,
      cmd ''STATUS'' 1 (Some 1) None ''display timing information'' H_status,
      cmd ''HELP'' 1 (Some 1) None ''display this help information'' H_help,
      cmd ''QUIT'' 1 (Some 1) None ''terminate connection'' H_quit]"

text \<open>\<^verbatim>\<open>c_strncasecmp\<close>, and \<^verbatim>\<open>_cmd_arg_cmp\<close> from the current offset of the keyword and argument on.\<close>

definition strncasecmp :: "bytes \<Rightarrow> bytes \<Rightarrow> nat \<Rightarrow> int" where
  "strncasecmp a b n = strcasecmp (take n a) (take n b)"

fun cmd_arg_loop :: "bytes \<Rightarrow> bytes list \<Rightarrow> bool" where
  "cmd_arg_loop kw [] = False"
| "cmd_arg_loop kw (a # as) =
     (let len = length a in
      if strncasecmp kw a len = 0
      then (case drop len kw of [] \<Rightarrow> True | c # kw' \<Rightarrow> if c = 0x20 then cmd_arg_loop kw' as else False)
      else False)"

definition cmd_arg_cmp :: "dicod_command \<Rightarrow> bytes list \<Rightarrow> bool" where
  "cmd_arg_cmp p argv = cmd_arg_loop (keyword p) argv"

definition dicod_add_command :: "dicod_command list \<Rightarrow> dicod_command \<Rightarrow> dicod_command list" where
  "dicod_add_command l c = l @ [c]"

definition cmd_comp :: "dicod_command \<Rightarrow> dicod_command \<Rightarrow> int" where
  "cmd_comp a b = strcasecmp (keyword a) (keyword b)"

fun remove_first :: "('a \<Rightarrow> bool) \<Rightarrow> 'a list \<Rightarrow> 'a list" where
  "remove_first P [] = []"
| "remove_first P (x # xs) = (if P x then xs else x # remove_first P xs)"

definition dicod_remove_command :: "dicod_command list \<Rightarrow> bytes \<Rightarrow> dicod_command list" where
  "dicod_remove_command l name =
     remove_first (\<lambda>c. cmd_comp c \<lparr>keyword = name, minparam = 0, maxparam = None, param = None, cmd_help = [], cmd_handler = None\<rparr> = 0) l"

definition dicod_init_command_tab :: "dicod_command list \<Rightarrow> dicod_command list" where
  "dicod_init_command_tab l = foldl dicod_add_command l command_tab"

definition locate_command :: "dicod_command list \<Rightarrow> bytes list \<Rightarrow> dicod_command option" where
  "locate_command l argv = find (\<lambda>p. cmd_arg_cmp p argv) l"

text \<open>What \<^verbatim>\<open>dicod_handle_command\<close> does with the located command.\<close>

datatype dispatch = Unknown_500 | Wrong_args_501 | Not_implemented_502 | Run handler "bytes list"

fun vec_args :: "bytes option list \<Rightarrow> nat \<Rightarrow> bytes list option" where
  "vec_args v 0 = Some []"
| "vec_args [] (Suc n) = None"
| "vec_args (None # v) (Suc n) = None"
| "vec_args (Some a # v) (Suc n) = map_option (Cons a) (vec_args v n)"

definition command_args :: "alias_entry list option \<Rightarrow> bytes list \<Rightarrow> bytes list option" where
  "command_args table argv = do {
     r \<leftarrow> alias_expand table argv;
     (case r of None \<Rightarrow> Some argv | Some (nargc, nargv) \<Rightarrow> vec_args nargv nargc) }"

definition dispatch_command :: "dicod_command list \<Rightarrow> bytes list \<Rightarrow> dispatch" where
  "dispatch_command l argv =
     (case locate_command l argv of
        None \<Rightarrow> Unknown_500
      | Some c \<Rightarrow>
          if length argv < minparam c \<or> (case maxparam c of None \<Rightarrow> False | Some m \<Rightarrow> length argv > m) then Wrong_args_501
          else (case cmd_handler c of None \<Rightarrow> Not_implemented_502 | Some h \<Rightarrow> Run h argv))"

section \<open>Capabilities\<close>

text \<open>The function \<^verbatim>\<open>init\<close> looks at the state \<open>'s\<close> of the server; true is failure.\<close>

record 's dicod_capa =
  capa_name :: bytes
  capa_cmd :: "dicod_command list option"
  capa_init :: "('s \<Rightarrow> bool) option"
  capa_enabled :: bool

definition dicod_capa_register :: "'s dicod_capa list \<Rightarrow> bytes \<Rightarrow> dicod_command list option \<Rightarrow> ('s \<Rightarrow> bool) option \<Rightarrow> 's dicod_capa list" where
  "dicod_capa_register l name c init = l @ [\<lparr>capa_name = name, capa_cmd = c, capa_init = init, capa_enabled = False\<rparr>]"

fun capa_enable :: "bytes \<Rightarrow> 's dicod_capa list \<Rightarrow> 's dicod_capa list option" where
  "capa_enable name [] = None"
| "capa_enable name (c # cs) =
     (if strcmp (capa_name c) name = 0 then Some (c\<lparr>capa_enabled := True\<rparr> # cs)
      else map_option (Cons c) (capa_enable name cs))"

definition dicod_capa_add :: "'s dicod_capa list \<Rightarrow> bytes \<Rightarrow> 's dicod_capa list \<times> int" where
  "dicod_capa_add l name = (case capa_enable name l of None \<Rightarrow> (l, 1) | Some l' \<Rightarrow> (l', 0))"

fun dicod_capa_flush :: "'s \<Rightarrow> 's dicod_capa list \<Rightarrow> dicod_command list \<Rightarrow> dicod_command list \<times> int" where
  "dicod_capa_flush s [] cmds = (cmds, 0)"
| "dicod_capa_flush s (cp # cps) cmds =
     (if capa_enabled cp
      then if (case capa_init cp of None \<Rightarrow> False | Some f \<Rightarrow> f s) then (cmds, 1)
        else dicod_capa_flush s cps (case capa_cmd cp of None \<Rightarrow> cmds | Some cs \<Rightarrow> foldl dicod_add_command cmds cs)
      else dicod_capa_flush s cps cmds)"

definition dicod_capa_iterate :: "(bytes \<Rightarrow> bool \<Rightarrow> 'a \<Rightarrow> bool \<times> 'a) \<Rightarrow> 's dicod_capa list \<Rightarrow> 'a \<Rightarrow> 'a" where
  "dicod_capa_iterate f l x = l_iterate (\<lambda>cp x. f (capa_name cp) (capa_enabled cp) x) l x"

end
