(* ===== verification/Dico_Database.thy ===== *)
theory Dico_Database
  imports Dico_Acl Dico_Dispatch Dico_Strat
begin

text \<open>
  The databases of the server: the module interface of \<^verbatim>\<open>include/dico/types.h\<close>, the functions of
  \<^verbatim>\<open>dicod/loader.c\<close> that open, close and describe a database, the list of databases of
  \<^verbatim>\<open>dicod/main.c\<close> with its visibility, and the language preferences of \<^verbatim>\<open>dicod/lang.c\<close>. A
  module is a record of functions of its handle: what is inside a module is not part of the
  model. A handle that is \<open>None\<close> is the NULL pointer.
\<close>

section \<open>Modules and databases\<close>

type_synonym headers = "(bytes \<times> bytes) list"
type_synonym langs = "bytes list option \<times> bytes list option"

record ('h, 'r, 'f) database_module =
  dico_nodb :: bool
  dico_init_db :: "bytes \<Rightarrow> bytes list \<Rightarrow> 'h option"
  dico_free_db :: "'h option \<Rightarrow> int"
  dico_open :: "('h option \<Rightarrow> int) option"
  dico_close :: "('h option \<Rightarrow> int) option"
  dico_db_info :: "('h option \<Rightarrow> bytes option) option"
  dico_db_descr :: "('h option \<Rightarrow> bytes option) option"
  dico_db_lang :: "('h option \<Rightarrow> langs \<Rightarrow> langs) option"
  dico_match :: "'h option \<Rightarrow> 'f strategy \<Rightarrow> bytes \<Rightarrow> 'r option"
  dico_define :: "'h option \<Rightarrow> bytes \<Rightarrow> 'r option"
  dico_output_result :: "'r \<Rightarrow> nat \<Rightarrow> bytes list"
  dico_result_count :: "'r \<Rightarrow> nat"
  dico_compare_count :: "('r \<Rightarrow> nat) option"
  dico_result_headers :: "('r \<Rightarrow> headers \<Rightarrow> headers) option"

record ('h, 'r, 'f) dicod_database =
  db_lang_known :: bool
  db_name :: bytes
  db_descr :: "bytes option"
  db_info :: "bytes option"
  db_langlist :: langs
  db_acl :: "nat option"
  db_visible :: bool
  db_mod_handle :: "'h option"
  db_mime_headers :: "headers option"
  db_instance :: nat
  db_module :: "('h, 'r, 'f) database_module"
  db_argv :: "bytes list"

definition dicod_init_database :: "('h, 'r, 'f) dicod_database \<Rightarrow> ('h, 'r, 'f) dicod_database \<times> int" where
  "dicod_init_database dp =
     (if dico_nodb (db_module dp) then (dp, 1)
      else
        let dp = dp\<lparr>db_mod_handle := dico_init_db (db_module dp) (db_name dp) (db_argv dp)\<rparr> in
        (dp, if db_mod_handle dp = None then 1 else 0))"

definition dicod_open_database :: "('h, 'r, 'f) dicod_database \<Rightarrow> int" where
  "dicod_open_database dp =
     (case dico_open (db_module dp) of None \<Rightarrow> 0 | Some f \<Rightarrow> if f (db_mod_handle dp) \<noteq> 0 then 1 else 0)"

definition dicod_close_database :: "('h, 'r, 'f) dicod_database \<Rightarrow> int" where
  "dicod_close_database dp =
     (case db_mod_handle dp of
        None \<Rightarrow> 0
      | Some h \<Rightarrow> (case dico_close (db_module dp) of None \<Rightarrow> 0 | Some f \<Rightarrow> f (Some h)))"

definition dicod_free_database :: "('h, 'r, 'f) dicod_database \<Rightarrow> ('h, 'r, 'f) dicod_database \<times> int" where
  "dicod_free_database dp =
     (case db_mod_handle dp of
        None \<Rightarrow> (dp, 0)
      | Some h \<Rightarrow> (dp\<lparr>db_mod_handle := None\<rparr>, dico_free_db (db_module dp) (Some h)))"

definition dicod_get_database_descr :: "('h, 'r, 'f) dicod_database \<Rightarrow> bytes option" where
  "dicod_get_database_descr db =
     (case db_descr db of
        Some d \<Rightarrow> Some d
      | None \<Rightarrow> (case dico_db_descr (db_module db) of None \<Rightarrow> None | Some f \<Rightarrow> f (db_mod_handle db)))"

definition dicod_get_database_info :: "('h, 'r, 'f) dicod_database \<Rightarrow> bytes option" where
  "dicod_get_database_info db =
     (case db_info db of
        Some d \<Rightarrow> Some d
      | None \<Rightarrow> (case dico_db_info (db_module db) of None \<Rightarrow> None | Some f \<Rightarrow> f (db_mod_handle db)))"

section \<open>Languages\<close>

definition dicod_langlist_copy :: "bytes list option \<Rightarrow> bytes list option" where
  "dicod_langlist_copy src = Some (case src of None \<Rightarrow> [] | Some l \<Rightarrow> l)"

definition dicod_any_lang_list_p :: "bytes list option \<Rightarrow> bool" where
  "dicod_any_lang_list_p l =
     (case l of None \<Rightarrow> True | Some l \<Rightarrow> length l = 0 \<or> (length l = 1 \<and> strcmp (l ! 0) (str ''*'') = 0))"

text \<open>\<^verbatim>\<open>dicod_get_database_languages\<close> asks the module once and keeps the answer in the database.\<close>

definition dicod_get_database_languages :: "('h, 'r, 'f) dicod_database \<Rightarrow> ('h, 'r, 'f) dicod_database \<times> langs" where
  "dicod_get_database_languages db =
     (let db =
        (if db_lang_known db then db
         else
           (case dico_db_lang (db_module db) of
              None \<Rightarrow> db
            | Some f \<Rightarrow>
                let l = f (db_mod_handle db) (db_langlist db);
                    l = (case l of
                        (None, None) \<Rightarrow> l
                      | (None, Some d) \<Rightarrow> (dicod_langlist_copy (Some d), Some d)
                      | (Some s, None) \<Rightarrow> (Some s, dicod_langlist_copy (Some s))
                      | (Some s, Some d) \<Rightarrow> l);
                    l = (if dicod_any_lang_list_p (fst l) then None else fst l, if dicod_any_lang_list_p (snd l) then None else snd l)
                in db\<lparr>db_langlist := l\<rparr>)\<lparr>db_lang_known := True\<rparr>)
      in (db, db_langlist db))"

record lang_prefs =
  dicod_lang_lazy_prefs :: "bytes list option"
  dicod_lang_prefs :: langs

definition cmp_string_ci :: "bytes \<Rightarrow> bytes \<Rightarrow> int" where
  "cmp_string_ci a b = strcasecmp a b"

definition langs_intersect_p :: "bytes list \<Rightarrow> bytes list \<Rightarrow> bool" where
  "langs_intersect_p a b = list_ex (\<lambda>x. list_ex (\<lambda>y. cmp_string_ci y x = 0) b) a"

definition dicod_lang_check :: "lang_prefs \<Rightarrow> langs \<Rightarrow> bool" where
  "dicod_lang_check p l =
     (if fst l = None \<and> snd l = None then True
      else (case dicod_lang_lazy_prefs p of
          Some lazy \<Rightarrow>
            (case fst l of None \<Rightarrow> False | Some s \<Rightarrow> langs_intersect_p lazy s) \<or>
            (case snd l of None \<Rightarrow> False | Some d \<Rightarrow> langs_intersect_p lazy d)
        | None \<Rightarrow>
            (case (fst (dicod_lang_prefs p), fst l) of (Some q, Some s) \<Rightarrow> langs_intersect_p q s | _ \<Rightarrow> True) \<and>
            (case (snd (dicod_lang_prefs p), snd l) of (Some q, Some d) \<Rightarrow> langs_intersect_p q d | _ \<Rightarrow> True)))"

text \<open>The loop of \<^verbatim>\<open>dicod_lang\<close> over the arguments; \<open>n\<close> tells whether the colon was seen.\<close>

fun lang_args :: "bytes list \<Rightarrow> bool \<Rightarrow> langs \<Rightarrow> bool \<times> langs" where
  "lang_args [] n l = (n, l)"
| "lang_args (a # as) n l =
     (if \<not> n \<and> strcmp a (str '':'') = 0 then lang_args as True l
      else
        let app = (\<lambda>x. Some ((case x of None \<Rightarrow> [] | Some v \<Rightarrow> v) @ [a])) in
        lang_args as n (if n then (fst l, app (snd l)) else (app (fst l), snd l)))"

definition set_lang_prefs :: "bytes list \<Rightarrow> lang_prefs" where
  "set_lang_prefs argv =
     (if length argv > 2
      then (case lang_args (drop 2 argv) False (None, None) of (n, l) \<Rightarrow>
          if n then \<lparr>dicod_lang_lazy_prefs = None, dicod_lang_prefs = l\<rparr>
          else \<lparr>dicod_lang_lazy_prefs = fst l, dicod_lang_prefs = (None, snd l)\<rparr>)
      else \<lparr>dicod_lang_lazy_prefs = None, dicod_lang_prefs = (None, None)\<rparr>)"

section \<open>The list of databases\<close>

definition cmp_database_name :: "('h, 'r, 'f) dicod_database \<Rightarrow> bytes \<Rightarrow> int" where
  "cmp_database_name db name =
     (let rc = strcmp (db_name db) name in if rc = 0 \<and> \<not> db_visible db then 1 else rc)"

definition find_database :: "('h, 'r, 'f) dicod_database list \<Rightarrow> bytes \<Rightarrow> ('h, 'r, 'f) dicod_database option" where
  "find_database dbs name = find (\<lambda>db. cmp_database_name db name = 0) dbs"

definition count_databases :: "('h, 'r, 'f) dicod_database \<Rightarrow> nat \<Rightarrow> bool \<times> nat" where
  "count_databases db n = (False, if db_visible db then Suc n else n)"

definition database_count :: "('h, 'r, 'f) dicod_database list \<Rightarrow> nat" where
  "database_count dbs = l_iterate count_databases dbs 0"

text \<open>
  \<^verbatim>\<open>database_iterate\<close> with a function that may change the database, adds to an accumulator and
  never stops the iteration.
\<close>

fun database_iterate ::
  "(('h, 'r, 'f) dicod_database \<Rightarrow> 's \<Rightarrow> ('h, 'r, 'f) dicod_database \<times> 's) \<Rightarrow> ('h, 'r, 'f) dicod_database list \<Rightarrow> 's \<Rightarrow>
   ('h, 'r, 'f) dicod_database list \<times> 's" where
  "database_iterate f [] s = ([], s)"
| "database_iterate f (db # dbs) s =
     (case (if db_visible db then f db s else (db, s)) of (db, s) \<Rightarrow>
        (case database_iterate f dbs s of (dbs, s) \<Rightarrow> (db # dbs, s)))"

definition database_remove_dependent :: "nat \<Rightarrow> ('h, 'r, 'f) dicod_database list \<Rightarrow> ('h, 'r, 'f) dicod_database list" where
  "database_remove_dependent inst dbs = filter (\<lambda>dp. db_instance dp \<noteq> inst) dbs"

text \<open>The end of a \<^verbatim>\<open>database\<close> block of the configuration.\<close>

definition set_database :: "('h, 'r, 'f) dicod_database list \<Rightarrow> ('h, 'r, 'f) dicod_database \<Rightarrow> ('h, 'r, 'f) dicod_database list" where
  "set_database dbs dict =
     dbs @ [if fst (db_langlist dict) \<noteq> None \<or> snd (db_langlist dict) \<noteq> None then dict\<lparr>db_lang_known := True\<rparr> else dict]"

fun init_databases :: "('h, 'r, 'f) dicod_database list \<Rightarrow> ('h, 'r, 'f) dicod_database list" where
  "init_databases [] = []"
| "init_databases (dp # dps) =
     (case dicod_init_database dp of (dp, rc) \<Rightarrow> if rc \<noteq> 0 then init_databases dps else dp # init_databases dps)"

fun open_databases :: "('h, 'r, 'f) dicod_database list \<Rightarrow> ('h, 'r, 'f) dicod_database list" where
  "open_databases [] = []"
| "open_databases (dp # dps) = (if dicod_open_database dp \<noteq> 0 then open_databases dps else dp # open_databases dps)"

definition dicod_server_cleanup :: "('h, 'r, 'f) dicod_database list \<Rightarrow> ('h, 'r, 'f) dicod_database list" where
  "dicod_server_cleanup dbs = map (\<lambda>dp. fst (dicod_free_database dp)) dbs"

section \<open>Visibility\<close>

definition reset_db_visibility :: "('h, 'r, 'f) dicod_database list \<Rightarrow> ('h, 'r, 'f) dicod_database list" where
  "reset_db_visibility dbs = map (\<lambda>db. db\<lparr>db_visible := True\<rparr>) dbs"

fun visibility_loop ::
  "acl_env \<Rightarrow> client \<Rightarrow> lang_prefs \<Rightarrow> bool \<Rightarrow> ('h, 'r, 'f) dicod_database list \<Rightarrow> ('h, 'r, 'f) dicod_database list option" where
  "visibility_loop env c prefs global [] = Some []"
| "visibility_loop env c prefs global (db # dbs) = do {
     ok \<leftarrow> dicod_acl_check env c (db_acl db) global;
     rest \<leftarrow> visibility_loop env c prefs global dbs;
     Some ((if \<not> ok then db\<lparr>db_visible := False\<rparr>
            else case dicod_get_database_languages db of (db, l) \<Rightarrow> db\<lparr>db_visible := dicod_lang_check prefs l\<rparr>) # rest) }"

definition check_db_visibility ::
  "acl_env \<Rightarrow> client \<Rightarrow> lang_prefs \<Rightarrow> nat option \<Rightarrow> ('h, 'r, 'f) dicod_database list \<Rightarrow> ('h, 'r, 'f) dicod_database list option" where
  "check_db_visibility env c prefs global_acl dbs = do {
     global \<leftarrow> dicod_acl_check env c global_acl True;
     visibility_loop env c prefs global dbs }"

end
