(* ===== verification/Dico_Lines.thy ===== *)
theory Dico_Lines
  imports Dico_Stream_Props
begin

text \<open>
  How a line-buffered stream cuts the text into the pieces it hands to its driver: a newline
  is always the last byte of a piece. The contract of a driver that relies on this is a
  locale; \<open>rel cs d\<close> says that the driver in state \<open>d\<close> has received the pieces \<open>cs\<close>.
\<close>

definition line_chunk :: "bytes \<Rightarrow> bool" where
  "line_chunk b \<longleftrightarrow> b \<noteq> [] \<and> 0x0a \<notin> set (butlast b)"

definition line_ready :: "('d \<Rightarrow> bytes \<Rightarrow> ('d \<times> (int + nat)) option) \<Rightarrow> ('d \<Rightarrow> bool) \<Rightarrow> 'd dico_stream \<Rightarrow> bool" where
  "line_ready wr ok s \<longleftrightarrow> write_ready wr ok s \<and> s_buftype s = dico_buffer_line"

text \<open>The stream after some pieces have left the buffer, and nothing else has changed.\<close>

definition cut :: "bytes list \<Rightarrow> 'd dico_stream \<Rightarrow> 'd dico_stream \<Rightarrow> bool" where
  "cut cs s s' \<longleftrightarrow>
     s_buftype s' = s_buftype s \<and> s_bufsize s' = s_bufsize s \<and> s_drv s' = s_drv s \<and> (\<forall>c\<in>set cs. line_chunk c) \<and>
     concat cs @ pending s' = pending s"

lemma line_chunk_prefix: "index_of 0x0a w = Some i \<Longrightarrow> line_chunk (take (Suc i) w)"
  using index_of_SomeD [of "0x0a" w i] by (simp add: line_chunk_def take_Suc_conv_app_nth butlast_append)

lemma line_chunk_rest: "w \<noteq> [] \<Longrightarrow> 0x0a \<notin> set w \<Longrightarrow> line_chunk w"
  by (auto simp: line_chunk_def dest: in_set_butlastD)

lemma flushing_cong:
  "flushing wr ok s \<Longrightarrow> ok' d \<Longrightarrow> flushing wr ok' (s\<lparr>s_data := d, s_bytes_out := n, s_last_err := e\<rparr>)"
  by (auto simp: flushing_def)

locale line_sink =
  fixes wr :: "'d \<Rightarrow> bytes \<Rightarrow> ('d \<times> (int + nat)) option"
    and rel :: "bytes list \<Rightarrow> 'd \<Rightarrow> bool"
  assumes write_line: "rel cs d \<Longrightarrow> line_chunk b \<Longrightarrow> \<exists>d'. wr d b = Some (d', Inr (length b)) \<and> rel (cs @ [b]) d'"
begin

lemma write_piece:
  assumes "flushing wr (rel cs) s" and "line_chunk b"
  shows "\<exists>d. dico_stream_write_unbuffered s b False =
      Some (s\<lparr>s_data := d, s_bytes_out := s_bytes_out s + int (length b), s_last_err := 0\<rparr>, 0, None) \<and> rel (cs @ [b]) d"
proof -
  have "rel cs (s_data s)" and f: "d_write (s_drv s) = Some wr" "DICO_STREAM_WRITE \<in> s_flags s" "STR_ERR \<notin> s_flags s"
    using assms(1) by (auto simp: flushing_def)
  from write_line [OF this(1) assms(2)] obtain d where d: "wr (s_data s) b = Some (d, Inr (length b))" "rel (cs @ [b]) d" by blast
  have "b \<noteq> []" using assms(2) by (simp add: line_chunk_def)
  with d f show ?thesis
    by (auto simp: dico_stream_write_unbuffered_def stream_write_unbuf_loop.simps [of wr s b] stream_write_unbuf_loop.simps [of wr _ "[]"] stream_seterror_def)
qed

lemma cut_piece:
  assumes "flushing wr (rel cs) s" and "n \<le> s_level s" and "line_chunk (take n (pending s))"
  shows "\<exists>s'. dico_stream_write_unbuffered s (take n (pending s)) False = Some (s', 0, None) \<and>
    flushing wr (rel (cs @ [take n (pending s)])) (stream_advance_buffer s' n) \<and>
    cut [take n (pending s)] s (stream_advance_buffer s' n) \<and> s_level s' = s_level s \<and> s_cur s' = s_cur s"
proof -
  let ?b = "take n (pending s)"
  obtain d where d: "dico_stream_write_unbuffered s ?b False =
      Some (s\<lparr>s_data := d, s_bytes_out := s_bytes_out s + int (length ?b), s_last_err := 0\<rparr>, 0, None)" "rel (cs @ [?b]) d"
    using write_piece [OF assms(1,3)] by blast
  let ?s = "s\<lparr>s_data := d, s_bytes_out := s_bytes_out s + int (length ?b), s_last_err := 0\<rparr>"
  have f: "flushing wr (rel (cs @ [?b])) ?s" using flushing_cong [OF assms(1)] d(2) by blast
  have p: "pending ?s = pending s" by (rule pending_cong) (simp add: same_buffer_def)
  from flushing_advance [OF f, of n] assms(2) p have
    a: "flushing wr (rel (cs @ [?b])) (stream_advance_buffer ?s n)" "pending (stream_advance_buffer ?s n) = drop n (pending s)" by simp_all
  then have "cut [?b] s (stream_advance_buffer ?s n)" using assms(3) by (simp add: cut_def stream_advance_buffer_def)
  with d(1) a(1) show ?thesis by (intro exI [of _ ?s]) simp
qed

lemma cut_lines:
  "flushing wr (rel cs) s \<Longrightarrow>
   \<exists>s' ls. stream_flush_lines s = Some (s', 0) \<and> flushing wr (rel (cs @ ls)) s' \<and> cut ls s s' \<and> 0x0a \<notin> set (pending s') \<and>
     (\<forall>l\<in>set ls. last l = 0x0a) \<and> s_cur s' + s_level s' = s_cur s + s_level s \<and> s_level s' \<le> s_level s"
proof (induction "s_level s" arbitrary: cs s rule: less_induct)
  case less
  note win = flushing_window [OF less.prems]
  show ?case
  proof (cases "index_of 0x0a (pending s)")
    case None
    then have "0x0a \<notin> set (pending s)" "stream_flush_lines s = Some (s, 0)"
      using win by (simp, subst stream_flush_lines.simps) (simp del: index_of_None_iff)
    with less.prems show ?thesis by (intro exI [of _ s] exI [of _ "[]"]) (simp add: cut_def)
  next
    case (Some i)
    let ?b = "take (Suc i) (pending s)"
    have i: "Suc i \<le> s_level s" "last ?b = 0x0a" using index_of_SomeD [OF Some] win by (simp_all add: take_Suc_conv_app_nth)
    obtain s1 where s1: "dico_stream_write_unbuffered s ?b False = Some (s1, 0, None)"
      "flushing wr (rel (cs @ [?b])) (stream_advance_buffer s1 (Suc i))" "cut [?b] s (stream_advance_buffer s1 (Suc i))"
      "s_level s1 = s_level s" "s_cur s1 = s_cur s"
      using cut_piece [OF less.prems i(1) line_chunk_prefix [OF Some]] by blast
    have "s_level (stream_advance_buffer s1 (Suc i)) < s_level s" using s1(4) i by (simp add: stream_advance_buffer_def)
    from less.hyps [OF this s1(2)] obtain s' ls where s':
      "stream_flush_lines (stream_advance_buffer s1 (Suc i)) = Some (s', 0)" "flushing wr (rel ((cs @ [?b]) @ ls)) s'"
      "cut ls (stream_advance_buffer s1 (Suc i)) s'" "0x0a \<notin> set (pending s')" "\<forall>l\<in>set ls. last l = 0x0a"
      "s_cur s' + s_level s' = s_cur s + s_level s" "s_level s' \<le> s_level s - Suc i"
      using s1(4,5) i by (auto simp: stream_advance_buffer_def)
    have "stream_flush_lines s = Some (s', 0)" using s1(1) s'(1) Some win by (subst stream_flush_lines.simps) simp
    moreover have "cut (?b # ls) s s'" using s1(3) s'(3) by (auto simp: cut_def)
    ultimately show ?thesis
      using s'(2,4-7) i(2) by (intro exI [of _ s'] exI [of _ "?b # ls"]) auto
  qed
qed

lemma cut_rest:
  assumes "flushing wr (rel cs) s" and "0x0a \<notin> set (pending s)"
  shows "\<exists>s1 s' ls. dico_stream_write_unbuffered s (pending s) False = Some (s1, 0, None) \<and>
    stream_flush_end (stream_advance_buffer s1 (s_level s1)) = Some (s', 0) \<and> write_ready wr (rel (cs @ ls)) s' \<and>
    cut ls s s' \<and> pending s' = [] \<and> s_level s' = 0 \<and> length ls \<le> 1"
proof -
  have l: "length (pending s) = s_level s" using flushing_window [OF assms(1)] by simp
  have "\<exists>s1 ls. dico_stream_write_unbuffered s (pending s) False = Some (s1, 0, None) \<and>
      flushing wr (rel (cs @ ls)) (stream_advance_buffer s1 (s_level s)) \<and> s_level s1 = s_level s \<and>
      cut ls s (stream_advance_buffer s1 (s_level s)) \<and> length ls \<le> 1"
  proof (cases "pending s = []")
    case True
    moreover have "dico_stream_write_unbuffered s [] False = Some (s, 0, None)"
      using assms(1) by (auto simp: flushing_def dico_stream_write_unbuffered_def)
    moreover have "stream_advance_buffer s 0 = s" by (simp add: stream_advance_buffer_def)
    ultimately show ?thesis using assms(1) l by (intro exI [of _ s] exI [of _ "[]"]) (simp add: cut_def)
  next
    case False
    have "line_chunk (take (s_level s) (pending s))" using line_chunk_rest [OF False assms(2)] l by simp
    from cut_piece [OF assms(1) order_refl this] l show ?thesis by (auto intro!: exI [of _ "[pending s]"])
  qed
  then obtain s1 ls where s1: "dico_stream_write_unbuffered s (pending s) False = Some (s1, 0, None)"
    "flushing wr (rel (cs @ ls)) (stream_advance_buffer s1 (s_level s))" "s_level s1 = s_level s"
    "cut ls s (stream_advance_buffer s1 (s_level s))" "length ls \<le> 1" by blast
  let ?s = "stream_advance_buffer s1 (s_level s)"
  have z: "s_level ?s = 0" using s1(3) by (simp add: stream_advance_buffer_def)
  then have "pending ?s = []" using flushing_window [OF s1(2)] by simp
  moreover from stream_flush_end_clean [OF s1(2) z] obtain s' where
    "stream_flush_end ?s = Some (s', 0)" "write_ready wr (rel (cs @ ls)) s'" "pending s' = []" "s_level s' = 0"
    "s_buftype s' = s_buftype ?s" "s_drv s' = s_drv ?s" "s_bufsize s' = s_bufsize ?s"
    by blast
  moreover from calculation have "cut ls s s'" using s1(4) by (simp add: cut_def)
  ultimately show ?thesis using s1 by auto
qed

lemma cut_switch:
  assumes "flushing wr (rel cs) s" and "s_buftype s = dico_buffer_line"
  shows "\<exists>s' ls. stream_flush_switch s all = Some (s', 0) \<and> line_ready wr (rel (cs @ ls)) s' \<and> cut ls s s' \<and>
    (all \<or> BUFFER_FULL_P s \<longrightarrow> s_level s' = 0) \<and> 0x0a \<notin> set (pending s') \<and> (s_level s < s_bufsize s \<longrightarrow> s_level s' < s_bufsize s') \<and>
    (\<not> all \<and> \<not> BUFFER_FULL_P s \<longrightarrow> (\<forall>l\<in>set ls. last l = 0x0a)) \<and> (0x0a \<notin> set (pending s) \<longrightarrow> length ls \<le> 1)"
proof (cases "s_level s = 0")
  case True
  then have "pending s = []" using flushing_window [OF assms(1)] by simp
  with stream_flush_end_clean [OF assms(1) True] assms True show ?thesis
    by (auto simp: stream_flush_switch_def line_ready_def cut_def flushing_def intro!: exI [of _ "[]"])
next
  case False
  obtain s1 ls where s1: "stream_flush_lines s = Some (s1, 0)" "flushing wr (rel (cs @ ls)) s1" "cut ls s s1" "0x0a \<notin> set (pending s1)"
    "\<forall>l\<in>set ls. last l = 0x0a" "s_cur s1 + s_level s1 = s_cur s + s_level s" "s_level s1 \<le> s_level s"
    using cut_lines [OF assms(1)] by blast
  have one: "0x0a \<notin> set (pending s) \<Longrightarrow> ls = []"
  proof (rule ccontr)
    assume "0x0a \<notin> set (pending s)" and "ls \<noteq> []"
    then obtain l where "l \<in> set ls" by (cases ls) auto
    moreover from this s1(3) have "l \<noteq> []" "set l \<subseteq> set (pending s)"
      unfolding cut_def line_chunk_def by (blast, metis Un_upper1 UN_upper set_append set_concat subset_trans)
    ultimately show False using \<open>0x0a \<notin> set (pending s)\<close> s1(5) last_in_set [of l] by (metis subsetD)
  qed
  have same: "s_buftype s1 = dico_buffer_line" "s_bufsize s1 = s_bufsize s" using s1(3) assms(2) by (simp_all add: cut_def)
  have full: "BUFFER_FULL_P s1 \<longleftrightarrow> BUFFER_FULL_P s" using s1(6) same by (simp add: BUFFER_FULL_P_def)
  show ?thesis
  proof (cases "(all \<and> s_level s1 \<noteq> 0) \<or> BUFFER_FULL_P s1")
    case True
    obtain s2 s' ls' where s': "dico_stream_write_unbuffered s1 (pending s1) False = Some (s2, 0, None)"
      "stream_flush_end (stream_advance_buffer s2 (s_level s2)) = Some (s', 0)" "write_ready wr (rel ((cs @ ls) @ ls')) s'"
      "cut ls' s1 s'" "pending s' = []" "s_level s' = 0" "length ls' \<le> 1"
      using cut_rest [OF s1(2,4)] by blast
    have "stream_flush_switch s all = Some (s', 0)"
      using assms(2) False s1(1) True s'(1,2) flushing_window [OF s1(2)] by (auto simp: stream_flush_switch_def)
    moreover have "cut (ls @ ls') s s'" using s1(3) s'(4) by (auto simp: cut_def)
    moreover have "0 < s_bufsize s'" using s'(4) same assms(1) by (simp add: cut_def flushing_def)
    ultimately show ?thesis
      using s'(3-7) same full True one by (intro exI [of _ s'] exI [of _ "ls @ ls'"]) (auto simp: line_ready_def cut_def)
  next
    case nofull: False
    obtain s' where s': "stream_flush_end s1 = Some (s', 0)" "write_ready wr (rel (cs @ ls)) s'" "pending s' = pending s1"
      "s_level s' = s_level s1" "s_buftype s' = s_buftype s1" "s_drv s' = s_drv s1" "s_bufsize s' = s_bufsize s1"
    proof (cases "s_level s1 = 0")
      case True
      then have "pending s1 = []" using flushing_window [OF s1(2)] by simp
      with stream_flush_end_clean [OF s1(2) True] True show ?thesis by (auto intro: that)
    next
      case False
      from stream_flush_end_rest [OF s1(2) False] show ?thesis by (auto intro: that)
    qed
    have "stream_flush_switch s all = Some (s', 0)"
      using assms(2) False s1(1) nofull s'(1) by (auto simp: stream_flush_switch_def)
    moreover have "cut ls s s'" using s1(3) s' by (simp add: cut_def)
    ultimately show ?thesis
      using s'(2-7) same full nofull s1(4,5,7) one by (intro exI [of _ s'] exI [of _ ls]) (auto simp: line_ready_def)
  qed
qed

lemma cut_buffer:
  assumes "line_ready wr (rel cs) s"
  shows "\<exists>s' ls. stream_flush_buffer s all = Some (s', 0) \<and> line_ready wr (rel (cs @ ls)) s' \<and> cut ls s s' \<and>
    (all \<or> BUFFER_FULL_P s \<longrightarrow> s_level s' = 0) \<and> 0x0a \<notin> set (pending s') \<and> (s_level s < s_bufsize s \<longrightarrow> s_level s' < s_bufsize s') \<and>
    (\<not> all \<and> \<not> BUFFER_FULL_P s \<longrightarrow> (\<forall>l\<in>set ls. last l = 0x0a)) \<and> (0x0a \<notin> set (pending s) \<longrightarrow> length ls \<le> 1)"
proof (cases "STR_DIRTY \<in> s_flags s")
  case True
  have "stream_flush_buffer s all = stream_flush_switch s all"
    using assms True by (subst stream_flush_buffer.simps) (auto simp: write_ready_def line_ready_def)
  with cut_switch [of cs s all] write_ready_flushing [of wr "rel cs" s] assms True show ?thesis by (auto simp: line_ready_def)
next
  case False
  have r: "write_ready wr (rel cs) s" "s_buftype s = dico_buffer_line" using assms by (auto simp: line_ready_def)
  then have l: "s_level s = 0" "pending s = []" using False write_ready_window [OF r(1)] by (auto simp: write_ready_def)
  let ?s = "s\<lparr>s_flags := s_flags s - {STR_DIRTY}, s_level := 0, s_cur := 0\<rparr>"
  have "stream_flush_buffer s all = Some (?s, 0)"
    using False l by (subst stream_flush_buffer.simps) (simp add: stream_flush_end_def)
  moreover have r': "line_ready wr (rel cs) ?s" using assms by (auto simp: write_ready_def line_ready_def)
  moreover have "pending ?s = []" using write_ready_window [of wr "rel cs" ?s] r' by (simp add: line_ready_def)
  ultimately show ?thesis using l by (intro exI [of _ ?s] exI [of _ "[]"]) (auto simp: cut_def)
qed

lemma copy_line:
  assumes "line_ready wr (rel cs) s" and "s_buffer s = Some b" and "n \<le> s_bufsize s - s_level s" and "n \<le> length buf"
  defines "s' \<equiv> s\<lparr>s_buffer := Some (take (s_level s) b @ take n buf @ drop (s_level s + n) b),
           s_level := s_level s + n, s_flags := insert STR_DIRTY (s_flags s)\<rparr>"
  shows "s_level s + n \<le> length b" and "line_ready wr (rel cs) s'" and "pending s' = pending s @ take n buf"
proof -
  have b: "length b = s_bufsize s" "s_level s \<le> s_bufsize s" "s_cur s = 0" using assms(1,2) by (auto simp: line_ready_def write_ready_def)
  then show A: "s_level s + n \<le> length b" using assms(3) by simp
  then show "line_ready wr (rel cs) s'" unfolding s'_def using assms(1,4) b by (auto simp: line_ready_def write_ready_def)
  show "pending s' = pending s @ take n buf"
    using b A assms(2,4) by (simp add: pending_def stream_window_def s'_def)
qed

text \<open>
  The loop of \<^verbatim>\<open>dico_stream_write\<close>: as long as the buffer does not fill up, every piece is
  a complete line.
\<close>

lemma cut_write_loop:
  "line_ready wr (rel cs) s \<Longrightarrow>
   \<exists>s' ls. stream_write_loop s buf = Some (s', 0) \<and> line_ready wr (rel (cs @ ls)) s' \<and> (\<forall>l\<in>set ls. line_chunk l) \<and>
     concat ls @ pending s' = pending s @ buf \<and> 0x0a \<notin> set (pending s') \<and> s_level s' < s_bufsize s' \<and>
     s_drv s' = s_drv s \<and> s_bufsize s' = s_bufsize s \<and>
     (s_level s + length buf < s_bufsize s \<longrightarrow> (\<forall>l\<in>set ls. last l = 0x0a))"
proof (induction "length buf" arbitrary: s buf cs rule: less_induct)
  case less
  have ready: "write_ready wr (rel cs) s" "s_buftype s = dico_buffer_line" using less.prems by (auto simp: line_ready_def)
  have win: "stream_window s = Some (pending s)" using write_ready_window [OF ready(1)] by simp
  have cur: "s_cur s = 0" "s_level s \<le> s_bufsize s" "0 < s_bufsize s" using ready by (auto simp: write_ready_def)
  obtain full where full: "stream_buffer_full_p s = Some full" "full \<longleftrightarrow> BUFFER_FULL_P s \<or> 0x0a \<in> set (pending s)"
    using ready(2) win by (auto simp: stream_buffer_full_p_def)
  have "\<exists>s1 ls. (if full then stream_flush_buffer s False else Some (s, 0)) = Some (s1, 0) \<and> line_ready wr (rel (cs @ ls)) s1 \<and>
      cut ls s s1 \<and> 0x0a \<notin> set (pending s1) \<and> s_level s1 < s_bufsize s1 \<and> (\<not> BUFFER_FULL_P s \<longrightarrow> (\<forall>l\<in>set ls. last l = 0x0a))"
  proof (cases full)
    case True
    obtain s1 ls where "stream_flush_buffer s False = Some (s1, 0)" "line_ready wr (rel (cs @ ls)) s1" "cut ls s s1"
      "BUFFER_FULL_P s \<longrightarrow> s_level s1 = 0" "0x0a \<notin> set (pending s1)" "s_level s < s_bufsize s \<longrightarrow> s_level s1 < s_bufsize s1"
      "\<not> BUFFER_FULL_P s \<longrightarrow> (\<forall>l\<in>set ls. last l = 0x0a)"
      using cut_buffer [OF less.prems, of False] by blast
    moreover have "s_bufsize s1 = s_bufsize s" using \<open>cut ls s s1\<close> by (simp add: cut_def)
    moreover have "BUFFER_FULL_P s \<longleftrightarrow> s_level s = s_bufsize s" using cur by (simp add: BUFFER_FULL_P_def)
    ultimately show ?thesis
      using True cur by (intro exI [of _ s1] exI [of _ ls]) (cases "BUFFER_FULL_P s"; simp)
  next
    case False
    with full(2) less.prems cur show ?thesis by (intro exI [of _ s] exI [of _ "[]"]) (auto simp: cut_def BUFFER_FULL_P_def)
  qed
  then obtain s1 ls where s1: "(if full then stream_flush_buffer s False else Some (s, 0)) = Some (s1, 0)"
    "line_ready wr (rel (cs @ ls)) s1" "cut ls s s1" "0x0a \<notin> set (pending s1)" "s_level s1 < s_bufsize s1"
    "\<not> BUFFER_FULL_P s \<longrightarrow> (\<forall>l\<in>set ls. last l = 0x0a)" by blast
  have c1: "s_cur s1 = 0" "s_bufsize s1 = s_bufsize s" "s_drv s1 = s_drv s"
    using s1(2,3) by (auto simp: line_ready_def write_ready_def cut_def)
  have lv: "s_level s1 \<le> s_level s"
    using arg_cong [OF s1(3) [unfolded cut_def, THEN conjunct2, THEN conjunct2, THEN conjunct2, THEN conjunct2], of length]
      write_ready_window [of wr "rel (cs @ ls)" s1] write_ready_window [OF ready(1)] s1(2) by (simp add: line_ready_def)
  have nf: "s_level s + length buf < s_bufsize s \<Longrightarrow> \<not> BUFFER_FULL_P s" using cur by (simp add: BUFFER_FULL_P_def)
  show ?case
  proof (cases "buf = []")
    case True
    have "stream_write_loop s buf = Some (s1, 0)" using full(1) s1(1) True by (subst stream_write_loop.simps) simp
    with s1 c1 True nf show ?thesis by (intro exI [of _ s1] exI [of _ ls]) (auto simp: cut_def)
  next
    case False
    obtain b where b: "s_buffer s1 = Some b" using s1(2) by (auto simp: line_ready_def write_ready_def)
    define n where "n = min (s_bufsize s1 - s_level s1) (length buf)"
    have n: "0 < n" "n \<le> s_bufsize s1 - s_level s1" "n \<le> length buf" using s1(5) False by (auto simp: n_def)
    let ?s = "s1\<lparr>s_buffer := Some (take (s_level s1) b @ take n buf @ drop (s_level s1 + n) b),
           s_level := s_level s1 + n, s_flags := insert STR_DIRTY (s_flags s1)\<rparr>"
    note copy = copy_line [OF s1(2) b n(2,3)]
    have step: "stream_write_loop s buf = stream_write_loop ?s (drop n buf)"
      using full(1) s1(1,5) False b c1(1) copy(1)
      by (subst stream_write_loop.simps) (simp add: Let_def n_def [symmetric] not_less)
    have "length (drop n buf) < length buf" using n False by simp
    from less.hyps [OF this copy(2)] obtain s' ls' where s':
      "stream_write_loop ?s (drop n buf) = Some (s', 0)" "line_ready wr (rel ((cs @ ls) @ ls')) s'" "\<forall>l\<in>set ls'. line_chunk l"
      "concat ls' @ pending s' = pending ?s @ drop n buf" "0x0a \<notin> set (pending s')" "s_level s' < s_bufsize s'" "s_drv s' = s_drv ?s"
      "s_bufsize s' = s_bufsize ?s" "s_level ?s + length (drop n buf) < s_bufsize ?s \<longrightarrow> (\<forall>l\<in>set ls'. last l = 0x0a)" by blast
    have "s_level s + length buf < s_bufsize s \<Longrightarrow> s_level ?s + length (drop n buf) < s_bufsize ?s"
      using c1(2) lv n(3) by simp
    moreover have "concat (ls @ ls') @ pending s' = pending s @ buf"
      using s'(4) copy(3) s1(3) by (simp add: cut_def)
    ultimately show ?thesis
      using step s' s1(3,6) c1(2,3) nf by (intro exI [of _ s'] exI [of _ "ls @ ls'"]) (auto simp: cut_def)
  qed
qed

lemma cut_flush:
  assumes "line_ready wr (rel cs) s" and "0x0a \<notin> set (pending s)"
  shows "\<exists>s' ls. stream_flush_buffer s True = Some (s', 0) \<and> line_ready wr (rel (cs @ ls)) s' \<and> (\<forall>l\<in>set ls. line_chunk l) \<and>
    concat ls = pending s \<and> pending s' = [] \<and> s_drv s' = s_drv s \<and> length ls \<le> 1"
proof -
  obtain s' ls where s': "stream_flush_buffer s True = Some (s', 0)" "line_ready wr (rel (cs @ ls)) s'" "cut ls s s'"
    "s_level s' = 0" "length ls \<le> 1" using cut_buffer [OF assms(1), of True] assms(2) by blast
  moreover have "pending s' = []" using write_ready_window [of wr "rel (cs @ ls)" s'] s'(2,4) by (simp add: line_ready_def)
  ultimately show ?thesis by (auto simp: cut_def)
qed

lemma cut_write:
  assumes "line_ready wr (rel cs) s"
  shows "\<exists>s' ls. dico_stream_write s buf = Some (s', 0) \<and> line_ready wr (rel (cs @ ls)) s' \<and> (\<forall>l\<in>set ls. line_chunk l) \<and>
     concat ls @ pending s' = pending s @ buf \<and> 0x0a \<notin> set (pending s') \<and>
     s_drv s' = s_drv s \<and> s_bufsize s' = s_bufsize s \<and>
     (s_level s + length buf < s_bufsize s \<longrightarrow> (\<forall>l\<in>set ls. last l = 0x0a))"
proof -
  have "dico_stream_write s buf = stream_write_loop s buf"
    using assms by (auto simp: dico_stream_write_def line_ready_def write_ready_def)
  moreover obtain s' ls where "stream_write_loop s buf = Some (s', 0)" "line_ready wr (rel (cs @ ls)) s'" "\<forall>l\<in>set ls. line_chunk l"
     "concat ls @ pending s' = pending s @ buf" "0x0a \<notin> set (pending s')" "s_drv s' = s_drv s" "s_bufsize s' = s_bufsize s"
     "s_level s + length buf < s_bufsize s \<longrightarrow> (\<forall>l\<in>set ls. last l = 0x0a)"
    using cut_write_loop [OF assms, of buf] by (elim exE conjE) (rule that)
  ultimately show ?thesis by (intro exI [of _ s'] exI [of _ ls]) simp
qed

end

end
