(* ===== verification/Dico_Output.thy ===== *)
theory Dico_Output
  imports Dico_Filter Dico_Utf8 Dico_Lines
begin

text \<open>
  The streams replies are written through: \<^verbatim>\<open>lib/linetrimstr.c\<close>, which breaks long
  lines, and \<^verbatim>\<open>dicod/ostream.c\<close>, which doubles the dot at the beginning of a line and
  writes the MIME headers; also \<^verbatim>\<open>lib/xstream.c\<close>.
\<close>

section \<open>Breaking long lines\<close>

record 't linetrimstr =
  lt_transport :: "'t dico_stream"
  lt_noclose :: bool
  lt_maxlen :: nat
  lt_linelen :: nat

definition lt_ISWS :: "byte \<Rightarrow> bool" where
  "lt_ISWS c \<longleftrightarrow> c = 0x20 \<or> c = 0x09 \<or> c = 0x0a"

text \<open>\<^verbatim>\<open>utf8_iter_next\<close> at position \<open>pos\<close> of the data: the new position and width.\<close>

definition lt_next :: "bytes \<Rightarrow> nat \<Rightarrow> nat \<Rightarrow> nat \<times> nat" where
  "lt_next buf pos width =
     (if buf ! pos = 0 then (pos, width)
      else let p = pos + width; w = utf8_char_width (drop p buf) in (p, if p < length buf \<and> w \<noteq> 0 then w else width))"

text \<open>
  \<^verbatim>\<open>_linetrimstr_find_end\<close>: the two inner loops are the phases \<open>False\<close> (between words) and
  \<open>True\<close> (in a word). At the end of the data the byte behind it is looked at before the
  position, but the outcome is the same whatever it is. The result is the length, whether to
  break the line, and the new line length.
\<close>

partial_function (option) linetrimstr_scan ::
  "nat \<Rightarrow> bytes \<Rightarrow> bool \<Rightarrow> nat \<Rightarrow> nat \<Rightarrow> nat \<Rightarrow> nat \<Rightarrow> (nat \<times> bool \<times> nat) option" where
  "linetrimstr_scan maxlen buf inword pos width wordstart linelen =
     (if pos \<ge> length buf then Some (pos, False, linelen)
      else
        let ws = (width = 1 \<and> buf ! pos \<le> 0x7f \<and> lt_ISWS (buf ! pos)) in
        if \<not> inword
        then
          if \<not> ws then linetrimstr_scan maxlen buf True pos width pos linelen
          else if buf ! pos = 0x0a
          then (case lt_next buf pos width of (p, w) \<Rightarrow> linetrimstr_scan maxlen buf False p w wordstart 0)
          else if linelen + 1 \<ge> maxlen
          then Some (if wordstart > 0 then wordstart else pos, True, 0)
          else (case lt_next buf pos width of (p, w) \<Rightarrow> linetrimstr_scan maxlen buf False p w wordstart (linelen + 1))
        else
          if ws then linetrimstr_scan maxlen buf False pos width wordstart linelen
          else if linelen + 1 \<ge> maxlen
          then
            let n = (if wordstart = 0 then pos else wordstart) in
            if n > 0 then Some (n, True, 0)
            else (case lt_next buf pos width of (p, w) \<Rightarrow> linetrimstr_scan maxlen buf True p w wordstart 0)
          else (case lt_next buf pos width of (p, w) \<Rightarrow> linetrimstr_scan maxlen buf True p w wordstart (linelen + 1)))"

definition linetrimstr_find_end :: "nat \<Rightarrow> 't linetrimstr \<Rightarrow> bytes \<Rightarrow> (nat \<times> bool \<times> nat) option" where
  "linetrimstr_find_end unset s buf =
     (let w = utf8_char_width buf in
      linetrimstr_scan (lt_maxlen s) buf False 0 (if w = 0 then unset else w) 0 (lt_linelen s))"

text \<open>The results of the writes to the transport are not looked at.\<close>

definition linetrimstr_write :: "nat \<Rightarrow> 't linetrimstr \<Rightarrow> bytes \<Rightarrow> ('t linetrimstr \<times> (int + nat)) option" where
  "linetrimstr_write unset s buf = do {
     (len, nl, linelen) \<leftarrow> linetrimstr_find_end unset s buf;
     (if len > length buf then None
      else do {
        (t, _) \<leftarrow> dico_stream_write (lt_transport s) (take len buf);
        t \<leftarrow> (if nl then map_option fst (dico_stream_write t [0x0a]) else Some t);
        Some (s\<lparr>lt_transport := t, lt_linelen := linelen\<rparr>, Inr len) }) }"

definition linetrimstr_destroy :: "'t linetrimstr \<Rightarrow> ('t linetrimstr \<times> int) option" where
  "linetrimstr_destroy s =
     (if lt_noclose s then Some (s, 0) else do { _ \<leftarrow> dico_stream_destroy (lt_transport s); Some (s, 0) })"

definition linetrimstr_flush :: "'t linetrimstr \<Rightarrow> ('t linetrimstr \<times> int) option" where
  "linetrimstr_flush s = do {
     (t, rc) \<leftarrow> dico_stream_flush (lt_transport s);
     Some (s\<lparr>lt_transport := t\<rparr>, rc) }"

definition linetrimstr_close :: "'t linetrimstr \<Rightarrow> ('t linetrimstr \<times> int) option" where
  "linetrimstr_close s =
     (if lt_noclose s then Some (s, 0)
      else do {
        (t, rc) \<leftarrow> dico_stream_close (lt_transport s);
        Some (s\<lparr>lt_transport := t\<rparr>, rc) })"

definition linetrimstr_ioctl :: "'t linetrimstr \<Rightarrow> ioctl \<Rightarrow> ('t linetrimstr \<times> (int + int)) option" where
  "linetrimstr_ioctl s code =
     (case code of
        DICO_IOCTL_BYTES_IN \<Rightarrow> do {
          (t, v) \<leftarrow> dico_stream_bytes_in (lt_transport s); Some (s\<lparr>lt_transport := t\<rparr>, Inr v) }
      | DICO_IOCTL_BYTES_OUT \<Rightarrow> do {
          (t, v) \<leftarrow> dico_stream_bytes_out (lt_transport s); Some (s\<lparr>lt_transport := t\<rparr>, Inr v) }
      | DICO_IOCTL_SET_LINELEN n \<Rightarrow> Some (s\<lparr>lt_maxlen := n\<rparr>, Inr 0)
      | DICO_IOCTL_GET_LINELEN \<Rightarrow> Some (s, Inr (int (lt_maxlen s)))
      | _ \<Rightarrow> Some (s, Inl (-1)))"

text \<open>\<open>alloc\<close>: the state, the stream and the line buffer.\<close>

definition dico_linetrim_stream ::
  "bool \<times> bool \<times> bool \<Rightarrow> nat \<Rightarrow> 't dico_stream \<Rightarrow> nat \<Rightarrow> bool \<Rightarrow> 't linetrimstr dico_stream option" where
  "dico_linetrim_stream alloc unset transport maxlen noclose =
     (if \<not> fst alloc then None
      else case dico_stream_create (fst (snd alloc)) {DICO_STREAM_WRITE}
             \<lparr>lt_transport = transport, lt_noclose = noclose, lt_maxlen = maxlen, lt_linelen = 0\<rparr> of
        Inl _ \<Rightarrow> None
      | Inr s \<Rightarrow>
          let s = dico_stream_set_write s (Some (linetrimstr_write unset));
              s = dico_stream_set_flush s (Some linetrimstr_flush);
              s = dico_stream_set_close s (Some linetrimstr_close);
              s = dico_stream_set_destroy s (Some linetrimstr_destroy);
              s = dico_stream_set_ioctl s (Some linetrimstr_ioctl)
          in map_option fst (dico_stream_set_buffer (snd (snd alloc)) s dico_buffer_line 1024))"

section \<open>Reply streams\<close>

text \<open>The transport of a reply stream: the client's stream, or what \<^verbatim>\<open>print_headers\<close> put over it.\<close>

datatype 't otransport =
    OT_plain "'t dico_stream"
  | OT_codec "'t filter_stream dico_stream"
  | OT_trim "'t linetrimstr dico_stream"

definition ot_write :: "'t otransport \<Rightarrow> bytes \<Rightarrow> ('t otransport \<times> int) option" where
  "ot_write t b =
     (case t of
        OT_plain s \<Rightarrow> map_option (map_prod OT_plain id) (dico_stream_write s b)
      | OT_codec s \<Rightarrow> map_option (map_prod OT_codec id) (dico_stream_write s b)
      | OT_trim s \<Rightarrow> map_option (map_prod OT_trim id) (dico_stream_write s b))"

definition ot_flush :: "'t otransport \<Rightarrow> ('t otransport \<times> int) option" where
  "ot_flush t =
     (case t of
        OT_plain s \<Rightarrow> map_option (map_prod OT_plain id) (dico_stream_flush s)
      | OT_codec s \<Rightarrow> map_option (map_prod OT_codec id) (dico_stream_flush s)
      | OT_trim s \<Rightarrow> map_option (map_prod OT_trim id) (dico_stream_flush s))"

definition ot_bytes_out :: "'t otransport \<Rightarrow> ('t otransport \<times> int) option" where
  "ot_bytes_out t =
     (case t of
        OT_plain s \<Rightarrow> map_option (map_prod OT_plain id) (dico_stream_bytes_out s)
      | OT_codec s \<Rightarrow> map_option (map_prod OT_codec id) (dico_stream_bytes_out s)
      | OT_trim s \<Rightarrow> map_option (map_prod OT_trim id) (dico_stream_bytes_out s))"

definition ot_last_error :: "'t otransport \<Rightarrow> int" where
  "ot_last_error t =
     (case t of OT_plain s \<Rightarrow> dico_stream_last_error s | OT_codec s \<Rightarrow> dico_stream_last_error s | OT_trim s \<Rightarrow> dico_stream_last_error s)"

text \<open>Destroying the transport leaves the stream under it.\<close>

definition ot_destroy :: "'t otransport \<Rightarrow> 't dico_stream option" where
  "ot_destroy t =
     (case t of
        OT_plain s \<Rightarrow> None
      | OT_codec s \<Rightarrow> map_option fs_transport (dico_stream_destroy s)
      | OT_trim s \<Rightarrow> map_option lt_transport (dico_stream_destroy s))"

datatype ostream_flag = OSTREAM_INITIALIZED | OSTREAM_DESTROY_TRANSPORT

text \<open>The headers are the pairs of an association list made with \<^verbatim>\<open>DICO_ASSOC_CI\<close>.\<close>

record 't ostream =
  os_transport :: "'t otransport"
  os_nout :: int
  os_flags :: "ostream_flag set"
  os_headers :: "(bytes \<times> bytes) list option"

definition headers_find :: "(bytes \<times> bytes) list option \<Rightarrow> bytes \<Rightarrow> bytes option" where
  "headers_find h key = map_option snd (Option.bind h (find (\<lambda>(k, v). strcasecmp k key = 0)))"

fun print_header_lines :: "'t otransport \<Rightarrow> (bytes \<times> bytes) list \<Rightarrow> 't otransport option" where
  "print_header_lines t [] = Some t"
| "print_header_lines t ((key, val) # hs) = do {
     (t, _) \<leftarrow> ot_write t key;
     (t, _) \<leftarrow> ot_write t (str '': '');
     (t, _) \<leftarrow> ot_write t val;
     (t, _) \<leftarrow> ot_write t [0x0a];
     print_header_lines t hs }"

text \<open>
  \<^verbatim>\<open>print_headers\<close>. The new stream takes the place of the transport; it is called once, on
  the client's stream.
\<close>

definition print_headers :: "bool \<times> bool \<times> bool \<Rightarrow> nat \<Rightarrow> 't ostream \<Rightarrow> ('t ostream \<times> int) option" where
  "print_headers alloc unset os = do {
     t \<leftarrow> (case os_headers os of None \<Rightarrow> Some (os_transport os) | Some h \<Rightarrow> print_header_lines (os_transport os) h);
     (t, rc) \<leftarrow> ot_write t [0x0a];
     (let os = os\<lparr>os_transport := t\<rparr> in
      if rc \<noteq> 0 then Some (os, rc)
      else
        (case t of
           OT_plain s \<Rightarrow>
             let new =
               (case headers_find (os_headers os) (str ''Content-transfer-encoding'') of
                  Some enc \<Rightarrow>
                    if strcmp enc (str ''8bit'') \<noteq> 0 then map_option OT_codec (dico_codec_stream_create alloc enc FILTER_ENCODE s)
                    else map_option OT_trim (dico_linetrim_stream alloc unset s 1024 True)
                | None \<Rightarrow> map_option OT_trim (dico_linetrim_stream alloc unset s 1024 True)) in
             Some (case new of
                 None \<Rightarrow> (os, 0)
               | Some t' \<Rightarrow> (os\<lparr>os_transport := t', os_flags := insert OSTREAM_DESTROY_TRANSPORT (os_flags os)\<rparr>, 0))
         | _ \<Rightarrow> None)) }"

text \<open>
  \<^verbatim>\<open>ostream_write\<close>; \<open>mime\<close> is \<^verbatim>\<open>option_mime\<close>. An error return without an error code
  would be taken for success with an unset count.
\<close>

definition ostream_fail :: "'t ostream \<Rightarrow> ('t ostream \<times> (int + nat)) option" where
  "ostream_fail os = (let e = ot_last_error (os_transport os) in if e = 0 then None else Some (os, Inl e))"

definition ostream_write ::
  "bool \<Rightarrow> bool \<times> bool \<times> bool \<Rightarrow> nat \<Rightarrow> 't ostream \<Rightarrow> bytes \<Rightarrow> ('t ostream \<times> (int + nat)) option" where
  "ostream_write mime alloc unset os buf = do {
     (os, rc) \<leftarrow>
       (if OSTREAM_INITIALIZED \<notin> os_flags os
        then do {
          (os, rc) \<leftarrow> (if mime then print_headers alloc unset os else Some (os, 0));
          Some (if rc \<noteq> 0 then os else os\<lparr>os_flags := insert OSTREAM_INITIALIZED (os_flags os)\<rparr>, rc) }
        else Some (os, 0));
     (if rc \<noteq> 0 then ostream_fail os
      else do {
        (os, rc) \<leftarrow>
          (if buf \<noteq> [] \<and> hd buf = 0x2e
           then do { (t, rc) \<leftarrow> ot_write (os_transport os) [0x2e]; Some (os\<lparr>os_transport := t\<rparr>, rc) }
           else Some (os, 0));
        (if rc \<noteq> 0 then ostream_fail os
         else do {
           (t, rc) \<leftarrow> ot_write (os_transport os) buf;
           Some (os\<lparr>os_transport := t\<rparr>, if rc \<noteq> 0 then Inl rc else Inr (length buf)) }) }) }"

definition ostream_flush :: "'t ostream \<Rightarrow> ('t ostream \<times> int) option" where
  "ostream_flush os = do { (t, rc) \<leftarrow> ot_flush (os_transport os); Some (os\<lparr>os_transport := t\<rparr>, rc) }"

definition ostream_destroy :: "'t ostream \<Rightarrow> ('t ostream \<times> int) option" where
  "ostream_destroy os =
     (if OSTREAM_DESTROY_TRANSPORT \<in> os_flags os
      then do { s \<leftarrow> ot_destroy (os_transport os); Some (os\<lparr>os_transport := OT_plain s\<rparr>, 0) }
      else Some (os, 0))"

definition ostream_ioctl :: "'t ostream \<Rightarrow> ioctl \<Rightarrow> ('t ostream \<times> (int + int)) option" where
  "ostream_ioctl os code =
     (case code of
        DICO_IOCTL_BYTES_OUT \<Rightarrow> do {
          (t, _) \<leftarrow> ot_flush (os_transport os);
          (t, v) \<leftarrow> ot_bytes_out t;
          Some (os\<lparr>os_transport := t\<rparr>, Inr (v - os_nout os)) }
      | _ \<Rightarrow> Some (os, Inl (-1)))"

text \<open>The program ends when the stream cannot be allocated; the buffer may not be.\<close>

definition dicod_ostream_create ::
  "bool \<Rightarrow> bool \<Rightarrow> bool \<times> bool \<times> bool \<Rightarrow> nat \<Rightarrow> 't dico_stream \<Rightarrow> (bytes \<times> bytes) list option \<Rightarrow> 't ostream dico_stream option" where
  "dicod_ostream_create mime balloc alloc unset s headers = do {
     (s, n) \<leftarrow> dico_stream_bytes_out s;
     (case dico_stream_create True {DICO_STREAM_WRITE}
             \<lparr>os_transport = OT_plain s, os_nout = n, os_flags = {}, os_headers = headers\<rparr> of
        Inl _ \<Rightarrow> None
      | Inr os \<Rightarrow>
          let os = dico_stream_set_write os (Some (ostream_write mime alloc unset));
              os = dico_stream_set_flush os (Some ostream_flush);
              os = dico_stream_set_destroy os (Some ostream_destroy);
              os = dico_stream_set_ioctl os (Some ostream_ioctl)
          in map_option fst (dico_stream_set_buffer balloc os dico_buffer_line 1024)) }"

section \<open>Writing texts\<close>

text \<open>\<^verbatim>\<open>stream_writez\<close>, and \<^verbatim>\<open>stream_write_multiline\<close>: \<open>len\<close> bytes before the iterator are not written yet.\<close>

definition stream_writez :: "'d dico_stream \<Rightarrow> bytes \<Rightarrow> ('d dico_stream \<times> int) option" where
  "stream_writez s buf = dico_stream_write s buf"

partial_function (option) multiline_loop :: "'d dico_stream \<Rightarrow> utf8_iterator \<Rightarrow> nat \<Rightarrow> ('d dico_stream \<times> utf8_iterator \<times> nat) option" where
  "multiline_loop s itr len = do {
     e \<leftarrow> utf8_iter_end_p itr;
     (if e then Some (s, itr, len)
      else do {
        (s, len) \<leftarrow>
          (if ui_curwidth itr = 1 \<and> chr_at (drop (ui_curptr itr) (ui_string itr)) = 0x0a
           then if len > ui_curptr itr then None
             else do {
               (s, _) \<leftarrow> dico_stream_writeln s (take len (drop (ui_curptr itr - len) (ui_string itr)));
               Some (s, 0) }
           else Some (s, len + ui_curwidth itr));
        (_, itr) \<leftarrow> utf8_iter_next itr;
        multiline_loop s itr len }) }"

definition stream_write_multiline :: "nat \<Rightarrow> 'd dico_stream \<Rightarrow> bytes \<Rightarrow> 'd dico_stream option" where
  "stream_write_multiline unset s buf = do {
     (_, itr) \<leftarrow> utf8_iter_first \<lparr>ui_string = [], ui_curptr = 0, ui_curwidth = unset\<rparr> buf;
     (s, itr, len) \<leftarrow> multiline_loop s itr 0;
     (if len = 0 then Some s
      else if len > ui_curptr itr then None
      else map_option fst (dico_stream_writeln s (take len (drop (ui_curptr itr - len) (ui_string itr))))) }"

end
