(* ===== verification/Dico_Argcv.thy ===== *)
theory Dico_Argcv
  imports Dico_Codec
begin

text \<open>
  Splitting a command into arguments and putting arguments together: \<^verbatim>\<open>lib/argcv.c\<close>.
  A command is the list of its bytes before the terminating NUL; reading behind the NUL and
  writing behind the end of an allocated block give \<open>None\<close>.
\<close>

definition isws :: "byte \<Rightarrow> bool" where
  "isws c \<longleftrightarrow> c = 0x20 \<or> c = 0x09 \<or> c = 0x0a"

text \<open>\<^verbatim>\<open>strchr\<close> also finds the terminating NUL.\<close>

definition isdelim :: "byte \<Rightarrow> bytes \<Rightarrow> bool" where
  "isdelim c delim \<longleftrightarrow> c \<in> set delim \<or> c = 0"

definition c_isprint :: "byte \<Rightarrow> bool" where
  "c_isprint c \<longleftrightarrow> 0x20 \<le> c \<and> c \<le> 0x7e"

text \<open>The byte at a position of the command; the terminator may be read.\<close>

definition cmd_at :: "bytes \<Rightarrow> nat \<Rightarrow> byte option" where
  "cmd_at s i = (if i < length s then Some (s ! i) else if i = length s then Some 0 else None)"

section \<open>Scanning\<close>

record argcv_info =
  ai_len :: nat
  ai_command :: bytes
  ai_delim :: bytes
  ai_comment :: bytes
  ai_return_delims :: bool
  ai_start :: nat
  ai_end :: int
  ai_save :: nat
  ai_finish_pos :: nat

definition init_argcv_info :: "bool \<Rightarrow> nat \<Rightarrow> bytes \<Rightarrow> bytes \<Rightarrow> bytes \<Rightarrow> argcv_info" where
  "init_argcv_info flags len command delim comment =
     \<lparr>ai_len = len, ai_command = command, ai_delim = delim, ai_comment = comment, ai_return_delims = flags,
      ai_start = 0, ai_end = 0, ai_save = 0, ai_finish_pos = 0\<rparr>"

function skip_while :: "(byte \<Rightarrow> bool) \<Rightarrow> bytes \<Rightarrow> nat \<Rightarrow> nat \<Rightarrow> nat option" where
  "skip_while P s len i =
     (if i < len then (case cmd_at s i of None \<Rightarrow> None | Some c \<Rightarrow> if P c then skip_while P s len (i + 1) else Some i) else Some i)"
  by pat_completeness auto
termination
  by (relation "measure (\<lambda>(_, _, len, i). len - i)") auto

declare skip_while.simps [simp del]

text \<open>The search for the closing quote; the result is \<open>len\<close> or more when there is none.\<close>

function close_quote :: "bytes \<Rightarrow> nat \<Rightarrow> byte \<Rightarrow> nat \<Rightarrow> nat option" where
  "close_quote s len q j =
     (if j < len
      then (case cmd_at s j of
              None \<Rightarrow> None
            | Some c \<Rightarrow> if c = q then Some j else close_quote s len q (if c = 0x5c then j + 2 else j + 1))
      else Some j)"
  by pat_completeness auto
termination
  by (relation "measure (\<lambda>(_, len, _, j). len - j)") auto

declare close_quote.simps [simp del]

lemma close_quote_ge: "close_quote s len q j = Some k \<Longrightarrow> j \<le> k"
proof (induction s len q j rule: close_quote.induct)
  case (1 s len q j)
  show ?case
  proof (cases "j < len")
    case True
    then obtain c where c: "cmd_at s j = Some c" using "1.prems" by (subst (asm) close_quote.simps) (auto split: option.split_asm)
    show ?thesis
    proof (cases "c = q")
      case True
      with \<open>j < len\<close> c "1.prems" show ?thesis by (subst (asm) close_quote.simps) simp
    next
      case False
      have "close_quote s len q (if c = 0x5c then j + 2 else j + 1) = Some k"
        using \<open>j < len\<close> c False "1.prems" by (subst (asm) close_quote.simps) simp
      from "1.IH" [OF \<open>j < len\<close> c False this] show ?thesis by (simp split: if_split_asm)
    qed
  next
    case False
    with "1.prems" show ?thesis by (subst (asm) close_quote.simps) simp
  qed
qed

text \<open>The loop over the characters of a token.\<close>

function scan_token :: "bytes \<Rightarrow> nat \<Rightarrow> bytes \<Rightarrow> nat \<Rightarrow> nat option" where
  "scan_token s len delim i =
     (if i < len
      then (case cmd_at s i of
              None \<Rightarrow> None
            | Some c \<Rightarrow>
                if c = 0x5c then (if i + 1 = len then Some (i + 1) else scan_token s len delim (i + 2))
                else if c = 0x27 \<or> c = 0x22
                then (case close_quote s len c (i + 1) of
                        None \<Rightarrow> None
                      | Some j \<Rightarrow> scan_token s len delim (if j < len then j + 1 else i + 1))
                else if isws c \<or> isdelim c delim then Some i
                else scan_token s len delim (i + 1))
      else Some i)"
  by pat_completeness auto
termination
  by (relation "measure (\<lambda>(_, len, _, i). len - i)") (auto dest: close_quote_ge)

declare scan_token.simps [simp del]

text \<open>\<^verbatim>\<open>argcv_scan\<close>: the result is \<^verbatim>\<open>ap->save\<close> or, at the end of the command, more than \<^verbatim>\<open>len\<close>.\<close>

partial_function (option) argcv_scan :: "argcv_info \<Rightarrow> (argcv_info \<times> nat) option" where
  "argcv_scan ap =
     (if ai_save ap \<ge> ai_len ap then Some (ap, ai_save ap + 1)
      else do {
        i \<leftarrow> skip_while isws (ai_command ap) (ai_len ap) (ai_save ap);
        c \<leftarrow> cmd_at (ai_command ap) i;
        (if isdelim c (ai_delim ap) \<and> \<not> ai_return_delims ap
         then do {
           i \<leftarrow> skip_while (\<lambda>c. isdelim c (ai_delim ap)) (ai_command ap) (ai_len ap) i;
           argcv_scan (ap\<lparr>ai_start := i, ai_save := i\<rparr>) }
         else do {
           e \<leftarrow> (if isdelim c (ai_delim ap) then Some (int i)
                 else map_option (\<lambda>j. int j - 1) (scan_token (ai_command ap) (ai_len ap) (ai_delim ap) i));
           (let save = nat (e + 1); ap = ap\<lparr>ai_start := i, ai_end := e, ai_save := save, ai_finish_pos := save\<rparr> in
            if save \<le> ai_len ap \<and> isdelim c (ai_comment ap)
            then do {
              j \<leftarrow> skip_while (\<lambda>c. c \<noteq> 0x0a) (ai_command ap) (ai_len ap) save;
              argcv_scan (ap\<lparr>ai_finish_pos := i, ai_save := j\<rparr>) }
            else Some (ap, save)) }) })"

section \<open>Quoting\<close>

definition argcv_transtab :: "(byte \<times> byte) list" where
  "argcv_transtab = [(0x5c, 0x5c), (0x61, 7), (0x62, 8), (0x66, 12), (0x6e, 10), (0x72, 13), (0x74, 9)]"

definition argcv_unquote_char :: "byte \<Rightarrow> byte" where
  "argcv_unquote_char c = (case find (\<lambda>p. fst p = c) argcv_transtab of Some p \<Rightarrow> snd p | None \<Rightarrow> c)"

definition argcv_quote_char :: "byte \<Rightarrow> byte option" where
  "argcv_quote_char c = map_option fst (find (\<lambda>p. snd p = c) (rev argcv_transtab))"

definition to_num :: "byte \<Rightarrow> nat" where
  "to_num c =
     (if c_isdigit c then unat c - 0x30
      else if 0x41 \<le> c \<and> c \<le> 0x46 then unat c - 0x41 + 10
      else if 0x61 \<le> c \<and> c \<le> 0x66 then unat c - 0x61 + 10
      else 255)"

text \<open>The number of digits and their value.\<close>

fun xtonum :: "bytes \<Rightarrow> nat \<Rightarrow> nat \<Rightarrow> nat \<Rightarrow> nat \<times> nat" where
  "xtonum src base 0 val = (0, val)"
| "xtonum [] base (Suc cnt) val = (0, val)"
| "xtonum (c # src) base (Suc cnt) val =
     (if c > 127 \<or> to_num c \<ge> base then (0, val)
      else case xtonum src base cnt (val * base + to_num c) of (n, v) \<Rightarrow> (Suc n, v))"

datatype argcv_quoting_style = argcv_quoting_octal | argcv_quoting_hex

definition plain_char :: "byte \<Rightarrow> bool" where
  "plain_char c \<longleftrightarrow> c \<noteq> 0x09 \<and> c \<noteq> 0x5c \<and> c_isprint c"

fun quoted_length_loop :: "argcv_quoting_style \<Rightarrow> bytes \<Rightarrow> nat \<Rightarrow> bool \<Rightarrow> nat \<times> bool" where
  "quoted_length_loop style [] len quote = (len, quote)"
| "quoted_length_loop style (c # s) len quote =
     (if c = 0x20 then quoted_length_loop style s (len + 1) True
      else if c = 0x22 then quoted_length_loop style s (len + 2) True
      else if plain_char c then quoted_length_loop style s (len + 1) quote
      else quoted_length_loop style s
             (case style of argcv_quoting_octal \<Rightarrow> len + (if argcv_quote_char c \<noteq> None then 2 else 4) | argcv_quoting_hex \<Rightarrow> len + 3) quote)"

definition argcv_quoted_length :: "argcv_quoting_style \<Rightarrow> bytes \<Rightarrow> nat \<times> bool" where
  "argcv_quoted_length style s = (if s = [] then (0, True) else quoted_length_loop style s 0 False)"

definition oct_digit :: "nat \<Rightarrow> byte" where
  "oct_digit n = of_nat (0x30 + n mod 8)"

definition hex_digit :: "nat \<Rightarrow> byte" where
  "hex_digit n = (if n mod 16 < 10 then of_nat (0x30 + n mod 16) else of_nat (0x41 + n mod 16 - 10))"

definition quote_byte :: "argcv_quoting_style \<Rightarrow> byte \<Rightarrow> bytes" where
  "quote_byte style c =
     (if c = 0x22 then [0x5c, c]
      else if plain_char c then [c]
      else case style of
          argcv_quoting_octal \<Rightarrow>
            (case argcv_quote_char c of
               Some q \<Rightarrow> [0x5c, q]
             | None \<Rightarrow> [0x5c, oct_digit (unat c div 64), oct_digit (unat c div 8), oct_digit (unat c)])
        | argcv_quoting_hex \<Rightarrow> [0x25, hex_digit (unat c div 16), hex_digit (unat c)])"

definition argcv_quote_copy :: "argcv_quoting_style \<Rightarrow> bytes \<Rightarrow> bytes" where
  "argcv_quote_copy style src = concat (map (quote_byte style) src)"

text \<open>
  \<^verbatim>\<open>argcv_unquote_copy\<close>: \<open>src\<close> is the command from the start of the token on, of which
  \<open>n\<close> bytes are the token; the destination has room for \<open>n + 1\<close> bytes.
\<close>

fun closing_ahead :: "bytes \<Rightarrow> byte \<Rightarrow> bool option" where
  "closing_ahead [] q = Some False"
| "closing_ahead (c # s) q =
     (if c = q then Some True
      else if c = 0x5c then (case s of [] \<Rightarrow> None | _ # s' \<Rightarrow> closing_ahead s' q)
      else closing_ahead s q)"

function unquote_loop :: "bytes \<Rightarrow> nat \<Rightarrow> nat \<Rightarrow> byte \<Rightarrow> bytes \<Rightarrow> bytes option" where
  "unquote_loop src n i expect dst =
     (if i < n
      then
        case cmd_at src i of
          None \<Rightarrow> None
        | Some c \<Rightarrow>
            if c = 0x27 \<or> c = 0x22
            then
              if expect = 0
              then (case closing_ahead (drop (i + 1) src) c of
                      None \<Rightarrow> None
                    | Some True \<Rightarrow> unquote_loop src n (i + 1) c dst
                    | Some False \<Rightarrow> unquote_loop src n (i + 1) expect (dst @ [c]))
              else if expect = c then unquote_loop src n (i + 1) expect dst
              else unquote_loop src n (i + 1) expect (dst @ [c])
            else if c = 0x5c
            then (case cmd_at src (i + 1) of
                    None \<Rightarrow> None
                  | Some d \<Rightarrow>
                      if d = 0x78 \<or> d = 0x58
                      then
                        if n - (i + 1) < 2 then unquote_loop src n (i + 2) expect (dst @ [0x5c, d])
                        else (case xtonum (drop (i + 2) src) 16 2 0 of (off, v) \<Rightarrow>
                               if off = 0 then unquote_loop src n (i + 2) expect (dst @ [0x5c, d])
                               else unquote_loop src n (i + 2 + off) expect (dst @ [of_nat v]))
                      else if c_isdigit d
                      then
                        if n - (i + 1) < 1 then unquote_loop src n (i + 2) expect (dst @ [0x5c, d])
                        else (case xtonum (drop (i + 1) src) 8 3 0 of (off, v) \<Rightarrow>
                               if off = 0 then unquote_loop src n (i + 2) expect (dst @ [0x5c, d])
                               else unquote_loop src n (i + 1 + off) expect (dst @ [of_nat v]))
                      else unquote_loop src n (i + 2) expect (dst @ [argcv_unquote_char d]))
            else unquote_loop src n (i + 1) expect (dst @ [c])
      else if length dst \<le> n then Some dst else None)"
  by pat_completeness auto
termination
  by (relation "measure (\<lambda>(_, n, i, _). n - i)") auto

declare unquote_loop.simps [simp del]

definition argcv_unquote_copy :: "bytes \<Rightarrow> nat \<Rightarrow> bytes option" where
  "argcv_unquote_copy src n = unquote_loop src n 0 0 []"

section \<open>Splitting\<close>

text \<open>The loop that counts the arguments.\<close>

partial_function (option) argcv_count :: "argcv_info \<Rightarrow> nat \<Rightarrow> (argcv_info \<times> nat) option" where
  "argcv_count info argc = do {
     (info, r) \<leftarrow> argcv_scan info;
     (if r \<le> ai_len info then argcv_count info (argc + 1) else Some (info, argc)) }"

text \<open>One argument; a string of bytes ends at its first NUL. The second test is on the end, not on the start.\<close>

definition argcv_arg :: "argcv_info \<Rightarrow> bytes option" where
  "argcv_arg info =
     (if ai_end info < 0 then None
      else do {
        cs \<leftarrow> cmd_at (ai_command info) (ai_start info);
        ce \<leftarrow> cmd_at (ai_command info) (nat (ai_end info));
        (if (cs = 0x22 \<or> ce = 0x27) \<and> ce = cs
         then
           let (st, en) = (if int (ai_start info) < ai_end info then (ai_start info + 1, ai_end info - 1) else (ai_start info, ai_end info));
               n = nat (en - int st + 1) in
           if st + n \<le> length (ai_command info) then Some (take n (drop st (ai_command info))) else None
         else
           let n = ai_end info - int (ai_start info) + 1 in
           if n < 0 then None else argcv_unquote_copy (drop (ai_start info) (ai_command info)) (nat n)) })"

fun argcv_fill :: "argcv_info \<Rightarrow> nat \<Rightarrow> (argcv_info \<times> bytes list) option" where
  "argcv_fill info 0 = Some (info, [])"
| "argcv_fill info (Suc k) = do {
     (info, _) \<leftarrow> argcv_scan info;
     a \<leftarrow> argcv_arg info;
     (info, as) \<leftarrow> argcv_fill info k;
     Some (info, a # as) }"

text \<open>
  \<^verbatim>\<open>argcv_get_np\<close>; \<open>alloc n\<close> tells whether the allocation of the vector (0) and of
  the argument number \<open>n\<close> succeeds. The result is the arguments and \<^verbatim>\<open>*endp\<close>.
\<close>

definition argcv_get_np ::
  "(nat \<Rightarrow> bool) \<Rightarrow> bytes \<Rightarrow> nat \<Rightarrow> bytes option \<Rightarrow> bytes option \<Rightarrow> bool \<Rightarrow> (bytes list \<times> nat) res" where
  "argcv_get_np alloc command len delim cmnt flags =
     (let info = init_argcv_info flags len command (case delim of None \<Rightarrow> [] | Some d \<Rightarrow> d) (case cmnt of None \<Rightarrow> [] | Some d \<Rightarrow> d) in do {
        (info, argc) \<leftarrow> argcv_count info 0;
        (if \<not> alloc 0 then Some (Inl ENOMEM)
         else do {
           (info, argv) \<leftarrow> argcv_fill (info\<lparr>ai_save := 0\<rparr>) argc;
           Some (if \<forall>i\<in>{1..argc}. alloc i then Inr (argv, ai_finish_pos info) else Inl ENOMEM) }) })"

definition argcv_get_n where
  "argcv_get_n alloc command len delim cmnt = map_option (map_sum id fst) (argcv_get_np alloc command len delim cmnt True)"

definition argcv_get where
  "argcv_get alloc command delim cmnt = argcv_get_n alloc command (length command) delim cmnt"

section \<open>Joining\<close>

text \<open>
  The loop of \<^verbatim>\<open>argcv_string\<close>: \<open>buf\<close> holds the \<^verbatim>\<open>j\<close> bytes written, \<open>len\<close> is the
  size of the block; the copy of an argument must fit in the block.
\<close>

fun argcv_string_loop :: "argcv_quoting_style \<Rightarrow> (nat \<Rightarrow> bool) \<Rightarrow> bytes list \<Rightarrow> nat \<Rightarrow> nat \<Rightarrow> bytes \<Rightarrow> (nat \<times> bytes) res" where
  "argcv_string_loop style alloc [] i len buf = Some (Inr (len, buf))"
| "argcv_string_loop style alloc (a # as) i len buf =
     (case argcv_quoted_length style a of (toklen, quote) \<Rightarrow>
        let len = len + toklen + 2 + (if quote then 2 else 0);
            buf' = buf @ (if i \<noteq> 0 then [0x20] else []) @ (if quote then [0x22] else []) @ argcv_quote_copy style a;
            j = length buf + (if i \<noteq> 0 then 1 else 0) + (if quote then 1 else 0) + toklen in
        if \<not> alloc len then Some (Inl ENOMEM)
        else if length buf' > len \<or> length buf' \<noteq> j \<or> j + (if quote then 1 else 0) > len then None
        else argcv_string_loop style alloc as (i + 1) len (buf' @ (if quote then [0x22] else [])))"

definition argcv_string :: "argcv_quoting_style \<Rightarrow> (nat \<Rightarrow> bool) \<Rightarrow> bytes list \<Rightarrow> bytes res" where
  "argcv_string style alloc argv =
     (if \<not> alloc 1 then Some (Inl ENOMEM)
      else do {
        r \<leftarrow> argcv_string_loop style alloc argv 0 0 [];
        (case r of
           Inl e \<Rightarrow> Some (Inl e)
         | Inr (len, buf) \<Rightarrow>
             let s = rev (dropWhile c_isspace (rev buf)) in
             if length s < max len 1 then Some (Inr s) else None) })"

text \<open>\<^verbatim>\<open>dico_argcv_remove\<close>: the arguments the selector does not pick.\<close>

fun argcv_remove :: "(bytes \<Rightarrow> bool) \<Rightarrow> bytes list \<Rightarrow> bytes list" where
  "argcv_remove sel [] = []"
| "argcv_remove sel (a # as) = (if sel a then argcv_remove sel as else a # argcv_remove sel as)"

end
