(* ===== verification/Dico_Server.thy ===== *)
theory Dico_Server
  imports Dico_Database Dico_Output Dico_Argcv
begin

text \<open>
  The commands of the server: searches (\<^verbatim>\<open>dicod/loader.c\<close>), statistics (\<^verbatim>\<open>dicod/stat.c\<close>) and the
  handlers of \<^verbatim>\<open>dicod/commands.c\<close>, \<^verbatim>\<open>lang.c\<close>, \<^verbatim>\<open>mime.c\<close>, \<^verbatim>\<open>markup.c\<close>, \<^verbatim>\<open>lev.c\<close>, \<^verbatim>\<open>xidle.c\<close>,
  \<^verbatim>\<open>xversion.c\<close> and \<^verbatim>\<open>auth.c\<close>. No handler looks at the result of a write, so a handler is a
  function from the state of the session to the new state and the sequence of its writes; the
  section on connections performs such a sequence on the streams. \<open>None\<close> is undefined behaviour
  or the end of the program.
\<close>

section \<open>Writes\<close>

text \<open>
  A write to the client's stream; the creation of a reply stream over it, a write and a
  multi-line text to the reply stream, the addition of its counter to \<^verbatim>\<open>total_bytes_out\<close>, and
  closing and destroying it.
\<close>

datatype act =
    Put bytes
  | Begin "headers option"
  | Text bytes
  | Lines bytes
  | Tally
  | Finish

text \<open>\<^verbatim>\<open>%lu\<close>\<close>

fun dec :: "nat \<Rightarrow> bytes" where
  "dec n = (if n < 10 then [of_nat (0x30 + n)] else dec (n div 10) @ [of_nat (0x30 + n mod 10)])"

declare dec.simps [simp del]

section \<open>State\<close>

record dico_stat =
  n_defines :: "64 word"
  n_matches :: "64 word"
  n_compares :: "64 word"

text \<open>The memory of \<^verbatim>\<open>client_id\<close>, which a handler frees without assigning a new value.\<close>

datatype c_string = Null | Live bytes | Freed

record user_db =
  udb_open :: int
  udb_password :: "bytes \<Rightarrow> int \<times> bytes option"
  udb_groups :: "bytes \<Rightarrow> bytes list"

record ('h, 'r, 'f) dicod =
  database_list :: "('h, 'r, 'f) dicod_database list"
  strategy_list :: "'f strategy list"
  default_strategy :: "'f strategy option"
  stratcls :: "nat \<Rightarrow> stratcl list"
  command_list :: "dicod_command list"
  alias_table :: "alias_entry list option"
  capa_list :: "bool dicod_capa list"
  lang_preferences :: lang_prefs
  acl_lists :: acl_env
  global_acl :: "nat option"
  show_sys_info :: "nat option"
  clnt :: client
  client_id :: c_string
  userdb :: "user_db option"
  option_mime :: bool
  got_quit :: bool
  timing_option :: bool
  current_stat :: dico_stat
  total_stat :: dico_stat
  levenshtein_distance :: nat
  dico_markup_type :: bytes
  dico_markup_list :: "bytes list"
  help_text :: "bytes option"
  server_info :: "bytes option"
  hostname :: bytes
  program_version :: bytes
  initial_banner_text :: "bytes option"
  inactivity_timeout :: nat
  daemon_forks :: bool
  msg_id :: bytes

text \<open>
  What a handler gets from outside: the texts of the real, user and system time of a timer, the
  name of the package, the texts of \<^verbatim>\<open>uname\<close> and of the forks since the start, the quoting of
  \<^verbatim>\<open>quotearg\<close>, the digest of \<^verbatim>\<open>auth.c\<close> as hexadecimal text, and whether memory is available.
\<close>

record world =
  w_times :: "bytes \<Rightarrow> bytes \<times> bytes \<times> bytes"
  w_package :: bytes
  w_sysname :: bytes
  w_release :: bytes
  w_forks :: bytes
  w_quotearg :: "bytes \<Rightarrow> bytes"
  w_md5 :: "bytes \<Rightarrow> bytes"
  w_alloc :: "nat \<Rightarrow> bool"

type_synonym ('h, 'r, 'f) step = "(('h, 'r, 'f) dicod \<times> act list) option"

section \<open>Statistics\<close>

definition clear_stats :: "('h, 'r, 'f) dicod \<Rightarrow> ('h, 'r, 'f) dicod" where
  "clear_stats s =
     s\<lparr>total_stat := \<lparr>n_defines = n_defines (total_stat s) + n_defines (current_stat s),
                      n_matches = n_matches (total_stat s) + n_matches (current_stat s),
                      n_compares = n_compares (total_stat s) + n_compares (current_stat s)\<rparr>,
       current_stat := \<lparr>n_defines = 0, n_matches = 0, n_compares = 0\<rparr>\<rparr>"

definition begin_timing :: "('h, 'r, 'f) dicod \<Rightarrow> ('h, 'r, 'f) dicod" where
  "begin_timing s = (if timing_option s then clear_stats s else s)"

definition report_timing :: "world \<Rightarrow> bytes \<Rightarrow> dico_stat \<Rightarrow> act list" where
  "report_timing w name sp =
     (case w_times w name of (r, u, t) \<Rightarrow>
        [Put (str '' [''),
         Put (str ''d/m/c = '' @ dec (unat (n_defines sp)) @ str ''/'' @ dec (unat (n_matches sp)) @ str ''/'' @ dec (unat (n_compares sp)) @ str '' ''),
         Put r, Put (str ''r ''), Put u, Put (str ''u ''), Put t, Put (str ''s]'')])"

definition report_current_timing :: "world \<Rightarrow> bytes \<Rightarrow> ('h, 'r, 'f) dicod \<Rightarrow> ('h, 'r, 'f) dicod \<times> act list" where
  "report_current_timing w name s =
     (if timing_option s then (clear_stats s, report_timing w name (current_stat s)) else (s, []))"

section \<open>Searches\<close>

definition nomatch :: "act list" where
  "nomatch = [Put (str ''552 No match''), Put [0x0a]]"

definition strategy_find :: "('h, 'r, 'f) dicod \<Rightarrow> bytes \<Rightarrow> 'f strategy option" where
  "strategy_find s name =
     (if DEFSTRATNAME name then default_strategy s else find (\<lambda>st. strcmp (s_name st) name = 0) (strategy_list s))"

definition strat_denied :: "('h, 'r, 'f) dicod \<Rightarrow> 'f strategy option \<Rightarrow> bytes \<Rightarrow> bool" where
  "strat_denied s strat word =
     (case strat of None \<Rightarrow> False | Some st \<Rightarrow> stratcl_check_word (map_option (stratcls s) (s_stratcl st)) word)"

definition db_search :: "('h, 'r, 'f) dicod_database \<Rightarrow> 'f strategy option \<Rightarrow> bytes \<Rightarrow> 'r option" where
  "db_search db strat word =
     (case strat of
        Some st \<Rightarrow> dico_match (db_module db) (db_mod_handle db) st word
      | None \<Rightarrow> dico_define (db_module db) (db_mod_handle db) word)"

definition count_stat :: "'f strategy option \<Rightarrow> nat \<Rightarrow> dico_stat \<Rightarrow> dico_stat" where
  "count_stat strat n st = (if strat \<noteq> None then st\<lparr>n_matches := of_nat n\<rparr> else st\<lparr>n_defines := of_nat n\<rparr>)"

definition set_compares :: "('h, 'r, 'f) dicod_database \<Rightarrow> 'r \<Rightarrow> dico_stat \<Rightarrow> dico_stat" where
  "set_compares db res st =
     (case dico_compare_count (db_module db) of None \<Rightarrow> st | Some f \<Rightarrow> st\<lparr>n_compares := of_nat (f res)\<rparr>)"

definition add_compares :: "('h, 'r, 'f) dicod_database \<Rightarrow> 'r \<Rightarrow> dico_stat \<Rightarrow> dico_stat" where
  "add_compares db res st =
     (case dico_compare_count (db_module db) of None \<Rightarrow> st | Some f \<Rightarrow> st\<lparr>n_compares := n_compares st + of_nat (f res)\<rparr>)"

text \<open>The loop of \<^verbatim>\<open>dicod_word_first\<close>: the first visible database with a result.\<close>

fun first_result :: "('h, 'r, 'f) dicod_database list \<Rightarrow> 'f strategy option \<Rightarrow> bytes \<Rightarrow> (('h, 'r, 'f) dicod_database \<times> 'r \<times> nat) option" where
  "first_result [] strat word = None"
| "first_result (db # dbs) strat word =
     (if db_visible db
      then case db_search db strat word of
          None \<Rightarrow> first_result dbs strat word
        | Some res \<Rightarrow>
            let n = dico_result_count (db_module db) res in
            if n \<noteq> 0 then Some (db, res, n) else first_result dbs strat word
      else first_result dbs strat word)"

type_synonym ('h, 'r, 'f) outproc = "('h, 'r, 'f) dicod_database \<Rightarrow> 'r \<Rightarrow> bytes \<Rightarrow> nat \<Rightarrow> act list"

definition dicod_word_first ::
  "world \<Rightarrow> ('h, 'r, 'f) dicod \<Rightarrow> bytes \<Rightarrow> 'f strategy option \<Rightarrow> bytes \<times> bytes \<Rightarrow> bytes \<Rightarrow> ('h, 'r, 'f) outproc \<Rightarrow> bytes \<Rightarrow>
   ('h, 'r, 'f) dicod \<times> act list" where
  "dicod_word_first w s word strat begfmt endmsg proc tid =
     (let s = begin_timing s in
      if strat_denied s strat word then (s, nomatch)
      else case first_result (database_list s) strat word of
          None \<Rightarrow> (s, nomatch)
        | Some (db, res, n) \<Rightarrow>
            let s = s\<lparr>current_stat := set_compares db res (count_stat strat n (current_stat s))\<rparr> in
            (case report_current_timing w tid s of (s, t) \<Rightarrow>
               (s, [Put (fst begfmt @ dec n @ snd begfmt)] @ proc db res word n @ [Put endmsg] @ t @ [Put [0x0a]])))"

text \<open>The first loop of \<^verbatim>\<open>dicod_word_all\<close>: all results, their number and the statistics.\<close>

fun all_results ::
  "('h, 'r, 'f) dicod_database list \<Rightarrow> 'f strategy option \<Rightarrow> bytes \<Rightarrow> dico_stat \<Rightarrow>
   (('h, 'r, 'f) dicod_database \<times> 'r \<times> nat) list \<times> dico_stat" where
  "all_results [] strat word st = ([], st)"
| "all_results (db # dbs) strat word st =
     (if db_visible db
      then case db_search db strat word of
          None \<Rightarrow> all_results dbs strat word st
        | Some res \<Rightarrow>
            let n = dico_result_count (db_module db) res in
            if n = 0 then all_results dbs strat word st
            else case all_results dbs strat word (add_compares db res st) of (rs, st) \<Rightarrow> ((db, res, n) # rs, st)
      else all_results dbs strat word st)"

definition dicod_word_all ::
  "world \<Rightarrow> ('h, 'r, 'f) dicod \<Rightarrow> bytes \<Rightarrow> 'f strategy option \<Rightarrow> bytes \<times> bytes \<Rightarrow> bytes \<Rightarrow> ('h, 'r, 'f) outproc \<Rightarrow> bytes \<Rightarrow>
   ('h, 'r, 'f) dicod \<times> act list" where
  "dicod_word_all w s word strat begfmt endmsg proc tid =
     (let s = begin_timing s in
      if strat_denied s strat word then (s, nomatch)
      else case all_results (database_list s) strat word (current_stat s) of (rs, st) \<Rightarrow>
        let ntotal = sum_list (map (\<lambda>(db, res, n). n) rs); s = s\<lparr>current_stat := st\<rparr> in
        if ntotal = 0 then (s, nomatch)
        else
          let s = s\<lparr>current_stat := count_stat strat ntotal (current_stat s)\<rparr> in
          (case report_current_timing w tid s of (s, t) \<Rightarrow>
             (s, [Put (fst begfmt @ dec ntotal @ snd begfmt)] @ concat (map (\<lambda>(db, res, n). proc db res word n) rs) @
                 [Put endmsg] @ t @ [Put [0x0a]])))"

definition print_matches :: "('h, 'r, 'f) outproc" where
  "print_matches db res word n =
     concat (map (\<lambda>i. [Text (db_name db), Text (str '' \"'')] @ map Text (dico_output_result (db_module db) res i) @ [Text (str ''\"'' @ [0x0a])])
       [0..<n])"

definition match_begfmt :: "bytes \<times> bytes" where
  "match_begfmt = (str ''152 '', str '' matches found: list follows'' @ [0x0a])"

definition define_begfmt :: "bytes \<times> bytes" where
  "define_begfmt = (str ''150 '', str '' definitions found: list follows'' @ [0x0a])"

definition dicod_match_word_db ::
  "world \<Rightarrow> ('h, 'r, 'f) dicod \<Rightarrow> ('h, 'r, 'f) dicod_database \<Rightarrow> 'f strategy \<Rightarrow> bytes \<Rightarrow> ('h, 'r, 'f) dicod \<times> act list" where
  "dicod_match_word_db w s db strat word =
     (let s = begin_timing s in
      case dico_match (db_module db) (db_mod_handle db) strat word of
        None \<Rightarrow> (s, nomatch)
      | Some res \<Rightarrow>
          let n = dico_result_count (db_module db) res in
          if n = 0 then (s, nomatch)
          else
            let s = s\<lparr>current_stat := set_compares db res ((current_stat s)\<lparr>n_matches := of_nat n\<rparr>)\<rparr> in
            (case report_current_timing w (str ''match'') s of (s, t) \<Rightarrow>
               (s, [Put (fst match_begfmt @ dec n @ snd match_begfmt), Begin None] @ print_matches db res word n @
                   [Tally, Finish, Put (str ''.'' @ [0x0a]), Put (str ''250 Command complete'')] @ t @ [Put [0x0a]])))"

definition dicod_match_word_first ::
  "world \<Rightarrow> ('h, 'r, 'f) dicod \<Rightarrow> 'f strategy \<Rightarrow> bytes \<Rightarrow> ('h, 'r, 'f) dicod \<times> act list" where
  "dicod_match_word_first w s strat word =
     (case dicod_word_first w s word (Some strat) match_begfmt (str ''.'' @ [0x0a] @ str ''250 Command complete'') print_matches (str ''match'') of
        (s, out) \<Rightarrow> (s, [Begin None] @ out @ [Tally, Finish]))"

definition dicod_match_word_all ::
  "world \<Rightarrow> ('h, 'r, 'f) dicod \<Rightarrow> 'f strategy \<Rightarrow> bytes \<Rightarrow> ('h, 'r, 'f) dicod \<times> act list" where
  "dicod_match_word_all w s strat word =
     (case dicod_word_all w s word (Some strat) match_begfmt (str ''.'' @ [0x0a] @ str ''250 Command complete'') print_matches (str ''match'') of
        (s, out) \<Rightarrow> (s, [Begin None] @ out @ [Tally, Finish]))"

text \<open>The headers of a definition: those of the database, with what the module adds.\<close>

definition definition_headers :: "('h, 'r, 'f) dicod_database \<Rightarrow> 'r \<Rightarrow> headers option" where
  "definition_headers db res =
     (case dico_result_headers (db_module db) of
        Some f \<Rightarrow> Some (f res (case db_mime_headers db of Some h \<Rightarrow> h | None \<Rightarrow> []))
      | None \<Rightarrow> db_mime_headers db)"

definition print_defs :: "('h, 'r, 'f) outproc" where
  "print_defs db res word n =
     (let ds = (case dicod_get_database_descr db of None \<Rightarrow> [] | Some d \<Rightarrow> d) in
      concat (map (\<lambda>i.
          [Put (str ''151 \"'' @ word @ str ''\" '' @ db_name db @ str '' \"'' @ ds @ str ''\"'' @ [0x0a]),
           Begin (definition_headers db res)] @
          map Text (dico_output_result (db_module db) res i) @
          [Tally, Finish, Put ([0x0a] @ str ''.'' @ [0x0a])]) [0..<n]))"

definition dicod_define_word_db ::
  "world \<Rightarrow> ('h, 'r, 'f) dicod \<Rightarrow> ('h, 'r, 'f) dicod_database \<Rightarrow> bytes \<Rightarrow> ('h, 'r, 'f) dicod \<times> act list" where
  "dicod_define_word_db w s db word =
     (let s = begin_timing s in
      case dico_define (db_module db) (db_mod_handle db) word of
        None \<Rightarrow> (s, nomatch)
      | Some res \<Rightarrow>
          let n = dico_result_count (db_module db) res in
          if n = 0 then (s, nomatch)
          else
            let s = s\<lparr>current_stat := set_compares db res ((current_stat s)\<lparr>n_defines := of_nat n\<rparr>)\<rparr> in
            (case report_current_timing w (str ''define'') s of (s, t) \<Rightarrow>
               (s, [Put (fst define_begfmt @ dec n @ snd define_begfmt)] @ print_defs db res word n @
                   [Put (str ''250 Command complete'')] @ t @ [Put [0x0a]])))"

definition dicod_define_word_first ::
  "world \<Rightarrow> ('h, 'r, 'f) dicod \<Rightarrow> bytes \<Rightarrow> ('h, 'r, 'f) dicod \<times> act list" where
  "dicod_define_word_first w s word =
     dicod_word_first w s word None define_begfmt (str ''250 Command complete'') print_defs (str ''define'')"

definition dicod_define_word_all ::
  "world \<Rightarrow> ('h, 'r, 'f) dicod \<Rightarrow> bytes \<Rightarrow> ('h, 'r, 'f) dicod \<times> act list" where
  "dicod_define_word_all w s word =
     dicod_word_all w s word None define_begfmt (str ''250 Command complete'') print_defs (str ''define'')"

section \<open>Handlers\<close>

definition bad_database :: "act list" where
  "bad_database = [Put (str ''550 invalid database, use SHOW DB for a list'' @ [0x0a])]"

definition end_of_text :: "act list" where
  "end_of_text = [Put (str ''.'' @ [0x0a]), Put (str ''250 ok'' @ [0x0a])]"

text \<open>The handlers get at least the number of arguments their entry in the command table asks for.\<close>

definition dicod_quit :: "world \<Rightarrow> ('h, 'r, 'f) dicod \<Rightarrow> bytes list \<Rightarrow> ('h, 'r, 'f) step" where
  "dicod_quit w s argv =
     (case report_current_timing w (str ''dicod'') (s\<lparr>got_quit := True\<rparr>) of (s, t) \<Rightarrow>
        Some (s, [Put (str ''221 bye'')] @ t @ [Put [0x0a]]))"

definition print_help :: "dicod_command \<Rightarrow> act list" where
  "print_help p =
     (let len = length (keyword p) + (case param p of None \<Rightarrow> 0 | Some a \<Rightarrow> length a + 1); pad = 31 - len in
      [Text (keyword p)] @ (case param p of None \<Rightarrow> [] | Some a \<Rightarrow> [Text (str '' '' @ a)]) @
      [Text (replicate pad 0x20 @ str '' -- '' @ cmd_help p @ [0x0a])])"

definition dicod_show_std_help :: "('h, 'r, 'f) dicod \<Rightarrow> act list" where
  "dicod_show_std_help s = concat (map print_help (command_list s))"

definition dicod_help :: "world \<Rightarrow> ('h, 'r, 'f) dicod \<Rightarrow> bytes list \<Rightarrow> ('h, 'r, 'f) step" where
  "dicod_help w s argv =
     Some (s, [Put (str ''113 help text follows'' @ [0x0a]), Begin None] @
       (case help_text s of
          None \<Rightarrow> dicod_show_std_help s
        | Some t \<Rightarrow> if t \<noteq> [] \<and> hd t = 0x2b then dicod_show_std_help s @ [Lines (List.tl t)] else [Lines t]) @
       [Text [0x0a], Finish] @ end_of_text)"

definition dicod_show_info :: "world \<Rightarrow> ('h, 'r, 'f) dicod \<Rightarrow> bytes list \<Rightarrow> ('h, 'r, 'f) step" where
  "dicod_show_info w s argv =
     (case find_database (database_list s) (argv ! 2) of
        None \<Rightarrow> Some (s, bad_database)
      | Some dict \<Rightarrow>
          Some (s, [Put (str ''112 information for '' @ argv ! 2 @ [0x0a]), Begin None] @
            (case dicod_get_database_info dict of
               Some info \<Rightarrow> [Lines info]
             | None \<Rightarrow> [Text (str ''No information available.'' @ [0x0a])]) @
            [Text [0x0a], Finish] @ end_of_text))"

text \<open>A description that is not valid UTF-8 makes \<^verbatim>\<open>utf8_quote\<close> fail, which ends the program.\<close>

definition show_database :: "('h, 'r, 'f) dicod_database \<Rightarrow> act list option \<Rightarrow> ('h, 'r, 'f) dicod_database \<times> act list option" where
  "show_database dict out =
     (dict, do {
        out \<leftarrow> out;
        r \<leftarrow> utf8_quote True True True (case dicod_get_database_descr dict of None \<Rightarrow> [] | Some d \<Rightarrow> d);
        (case r of
           Inl _ \<Rightarrow> None
         | Inr q \<Rightarrow> Some (out @ [Text (db_name dict @ str '' \"'' @ q @ str ''\"'' @ [0x0a])])) })"

definition dicod_show_databases :: "world \<Rightarrow> ('h, 'r, 'f) dicod \<Rightarrow> bytes list \<Rightarrow> ('h, 'r, 'f) step" where
  "dicod_show_databases w s argv =
     (let n = database_count (database_list s) in
      if n = 0 then Some (s, [Put (str ''554 No databases present'' @ [0x0a])])
      else
        (case database_iterate show_database (database_list s) (Some []) of (dbs, out) \<Rightarrow> do {
           out \<leftarrow> out;
           Some (s\<lparr>database_list := dbs\<rparr>,
             [Put (str ''110 '' @ dec n @ str '' databases present'' @ [0x0a]), Begin None] @ out @ [Finish] @ end_of_text) }))"

definition show_strategy :: "world \<Rightarrow> 'f strategy \<Rightarrow> act" where
  "show_strategy w sp = Text (s_name sp @ str '' \"'' @ w_quotearg w (s_descr sp) @ str ''\"'' @ [0x0a])"

definition dicod_show_strategies :: "world \<Rightarrow> ('h, 'r, 'f) dicod \<Rightarrow> bytes list \<Rightarrow> ('h, 'r, 'f) step" where
  "dicod_show_strategies w s argv =
     (let n = length (strategy_list s) in
      if n = 0 then Some (s, [Put (str ''555 No strategies available'' @ [0x0a])])
      else Some (s, [Put (str ''111 '' @ dec n @ str '' strategies present: list follows'' @ [0x0a]), Begin None] @
             map (show_strategy w) (strategy_list s) @ [Finish] @ end_of_text))"

definition dicod_show_server :: "world \<Rightarrow> ('h, 'r, 'f) dicod \<Rightarrow> bytes list \<Rightarrow> ('h, 'r, 'f) step" where
  "dicod_show_server w s argv = do {
     sys \<leftarrow> show_sys_info_p (acl_lists s) (clnt s) (show_sys_info s);
     Some (s, [Put (str ''114 server information'' @ [0x0a]), Begin None, Put (str ''dicod '')] @
       [if sys then Put (str ''('' @ w_package w @ str '') on '' @ w_sysname w @ str '' '' @ w_release w @ str '', '') else Put (str ''server on '')] @ [Put (hostname s)] @
       (if timing_option s \<and> sys
        then [Put (str '' up ''), Put (fst (w_times w (str ''server'')))] @ (if daemon_forks s then [Put (str '', '' @ w_forks w)] else [])
        else []) @
       [Put [0x0a]] @ (case server_info s of None \<Rightarrow> [] | Some t \<Rightarrow> [Lines t, Text [0x0a]]) @ [Finish] @ end_of_text) }"

definition dicod_status :: "world \<Rightarrow> ('h, 'r, 'f) dicod \<Rightarrow> bytes list \<Rightarrow> ('h, 'r, 'f) step" where
  "dicod_status w s argv =
     Some (s, [Put (str ''210'')] @
       (if timing_option s then report_timing w (str ''dicod'') (total_stat s) else [Put (str '' No timing data available'')]) @ [Put [0x0a]])"

text \<open>\<^verbatim>\<open>dicod_client\<close> frees \<^verbatim>\<open>client_id\<close> and assigns it only when there are arguments and memory.\<close>

definition c_free :: "c_string \<Rightarrow> c_string option" where
  "c_free p = (case p of Null \<Rightarrow> Some Null | Live _ \<Rightarrow> Some Freed | Freed \<Rightarrow> None)"

definition dicod_client :: "world \<Rightarrow> ('h, 'r, 'f) dicod \<Rightarrow> bytes list \<Rightarrow> ('h, 'r, 'f) step" where
  "dicod_client w s argv = do {
     p \<leftarrow> c_free (client_id s);
     p \<leftarrow> (if length argv > 1
          then do {
            r \<leftarrow> argcv_string argcv_quoting_octal (w_alloc w) (List.tl argv);
            Some (case r of Inl _ \<Rightarrow> p | Inr t \<Rightarrow> Live t) }
          else Some p);
     Some (s\<lparr>client_id := p\<rparr>, [Put (str ''250 ok'' @ [0x0a])]) }"

definition dicod_match :: "world \<Rightarrow> ('h, 'r, 'f) dicod \<Rightarrow> bytes list \<Rightarrow> ('h, 'r, 'f) step" where
  "dicod_match w s argv =
     (let dbname = argv ! 1; word = argv ! 3 in
      case strategy_find s (argv ! 2) of
        None \<Rightarrow> Some (s, [Put (str ''551 Invalid strategy, use SHOW STRAT for a list'' @ [0x0a])])
      | Some strat \<Rightarrow>
          if strcmp dbname (str ''!'') = 0 then Some (dicod_match_word_first w s strat word)
          else if strcmp dbname (str ''*'') = 0 then Some (dicod_match_word_all w s strat word)
          else (case find_database (database_list s) dbname of
              None \<Rightarrow> Some (s, bad_database)
            | Some db \<Rightarrow> Some (dicod_match_word_db w s db strat word)))"

definition dicod_define :: "world \<Rightarrow> ('h, 'r, 'f) dicod \<Rightarrow> bytes list \<Rightarrow> ('h, 'r, 'f) step" where
  "dicod_define w s argv =
     (let dbname = argv ! 1; word = argv ! 2 in
      if strcmp dbname (str ''!'') = 0 then Some (dicod_define_word_first w s word)
      else if strcmp dbname (str ''*'') = 0 then Some (dicod_define_word_all w s word)
      else (case find_database (database_list s) dbname of
          None \<Rightarrow> Some (s, bad_database)
        | Some db \<Rightarrow> Some (dicod_define_word_db w s db word)))"

definition recheck_visibility :: "('h, 'r, 'f) dicod \<Rightarrow> ('h, 'r, 'f) dicod option" where
  "recheck_visibility s =
     map_option (\<lambda>dbs. s\<lparr>database_list := dbs\<rparr>)
       (check_db_visibility (acl_lists s) (clnt s) (lang_preferences s) (global_acl s) (database_list s))"

definition dicod_lang :: "world \<Rightarrow> ('h, 'r, 'f) dicod \<Rightarrow> bytes list \<Rightarrow> ('h, 'r, 'f) step" where
  "dicod_lang w s argv = do {
     s \<leftarrow> recheck_visibility (s\<lparr>lang_preferences := set_lang_prefs argv\<rparr>);
     Some (s, [Put (str ''250 ok - set language preferences'' @ [0x0a])]) }"

definition display_prefs :: "bytes list option \<Rightarrow> bytes list" where
  "display_prefs l = (case l of None \<Rightarrow> [] | Some l \<Rightarrow> concat (map (\<lambda>x. [str '' '', x]) l))"

definition show_lang_lists :: "langs \<Rightarrow> bytes list" where
  "show_lang_lists l = display_prefs (fst l) @ [str '' :''] @ display_prefs (snd l) @ [[0x0a]]"

definition dicod_show_lang_pref :: "world \<Rightarrow> ('h, 'r, 'f) dicod \<Rightarrow> bytes list \<Rightarrow> ('h, 'r, 'f) step" where
  "dicod_show_lang_pref w s argv =
     Some (s, [Put (str ''280'')] @ map Put
       (case dicod_lang_lazy_prefs (lang_preferences s) of
          Some l \<Rightarrow> display_prefs (Some l) @ [[0x0a]]
        | None \<Rightarrow> show_lang_lists (dicod_lang_prefs (lang_preferences s))))"

text \<open>The database found is the first one of its name that is visible, the one whose languages are asked for.\<close>

fun update_first :: "('a \<Rightarrow> bool) \<Rightarrow> ('a \<Rightarrow> 'a) \<Rightarrow> 'a list \<Rightarrow> 'a list" where
  "update_first P f [] = []"
| "update_first P f (x # xs) = (if P x then f x # xs else x # update_first P f xs)"

definition dicod_show_lang_info :: "world \<Rightarrow> ('h, 'r, 'f) dicod \<Rightarrow> bytes list \<Rightarrow> ('h, 'r, 'f) step" where
  "dicod_show_lang_info w s argv =
     (case find_database (database_list s) (argv ! 3) of
        None \<Rightarrow> Some (s, bad_database)
      | Some db \<Rightarrow>
          Some (s\<lparr>database_list := update_first (\<lambda>db. cmp_database_name db (argv ! 3) = 0) (\<lambda>db. fst (dicod_get_database_languages db)) (database_list s)\<rparr>,
            [Put (str ''280'')] @ map Put (show_lang_lists (snd (dicod_get_database_languages db)))))"

definition show_database_lang :: "('h, 'r, 'f) dicod_database \<Rightarrow> act list \<Rightarrow> ('h, 'r, 'f) dicod_database \<times> act list" where
  "show_database_lang db out =
     (case dicod_get_database_languages db of (db, l) \<Rightarrow> (db, out @ [Text (db_name db)] @ map Text (show_lang_lists l)))"

definition dicod_show_lang_db :: "world \<Rightarrow> ('h, 'r, 'f) dicod \<Rightarrow> bytes list \<Rightarrow> ('h, 'r, 'f) step" where
  "dicod_show_lang_db w s argv =
     (let n = database_count (database_list s) in
      if n = 0 then Some (s, [Put (str ''554 No databases present'' @ [0x0a])])
      else
        (case database_iterate show_database_lang (database_list s) [] of (dbs, out) \<Rightarrow>
           Some (s\<lparr>database_list := dbs\<rparr>,
             [Put (str ''110 '' @ dec n @ str '' databases present'' @ [0x0a]), Begin None] @ out @ [Finish] @ end_of_text)))"

definition dicod_mime :: "world \<Rightarrow> ('h, 'r, 'f) dicod \<Rightarrow> bytes list \<Rightarrow> ('h, 'r, 'f) step" where
  "dicod_mime w s argv = Some (s\<lparr>option_mime := True\<rparr>, [Put (str ''250 ok - using MIME headers'' @ [0x0a])])"

definition dicod_markup :: "world \<Rightarrow> ('h, 'r, 'f) dicod \<Rightarrow> bytes list \<Rightarrow> ('h, 'r, 'f) step" where
  "dicod_markup w s argv =
     (if length argv = 2 then Some (s, [Put (str ''280 '' @ dico_markup_type s @ str '' is current markup type'' @ [0x0a])])
      else (case find (\<lambda>m. strcasecmp m (argv ! 2) = 0) (dico_markup_list s) of
          Some p \<Rightarrow> Some (s\<lparr>dico_markup_type := p\<rparr>, [Put (str ''250 markup type set to '' @ p @ [0x0a])])
        | None \<Rightarrow> Some (s, [Put (str ''500 invalid argument'' @ [0x0a])])))"

definition dicod_xlevdist :: "world \<Rightarrow> ('h, 'r, 'f) dicod \<Rightarrow> bytes list \<Rightarrow> ('h, 'r, 'f) step" where
  "dicod_xlevdist w s argv =
     (let a = argv ! 1 in
      if strcasecmp a (str ''tell'') = 0 then Some (s, [Put (str ''280 '' @ dec (levenshtein_distance s) @ [0x0a])])
      else if length a = 1 \<and> c_isdigit (hd a) \<and> hd a \<noteq> 0x30
      then let n = unat (hd a) - 0x30 in
        Some (s\<lparr>levenshtein_distance := n\<rparr>, [Put (str ''250 ok - Levenshtein threshold set to '' @ dec n @ [0x0a])])
      else Some (s, [Put (str ''500 invalid argument'' @ [0x0a])]))"

definition dicod_xidle :: "world \<Rightarrow> ('h, 'r, 'f) dicod \<Rightarrow> bytes list \<Rightarrow> ('h, 'r, 'f) step" where
  "dicod_xidle w s argv = Some (s, [Put (str ''110 '' @ dec (inactivity_timeout s) @ str '' second(s)'' @ [0x0a])])"

definition dicod_xversion :: "world \<Rightarrow> ('h, 'r, 'f) dicod \<Rightarrow> bytes list \<Rightarrow> ('h, 'r, 'f) step" where
  "dicod_xversion w s argv = Some (s, [Put (str ''110 ''), Put (program_version s), Put [0x0a]])"

definition verify_apop :: "world \<Rightarrow> ('h, 'r, 'f) dicod \<Rightarrow> bytes \<Rightarrow> bytes \<Rightarrow> int" where
  "verify_apop w s password user_digest = strcmp user_digest (w_md5 w (msg_id s @ password))"

text \<open>\<^verbatim>\<open>auth\<close>: an unset user database counts as one that cannot be opened.\<close>

definition auth :: "world \<Rightarrow> ('h, 'r, 'f) dicod \<Rightarrow> bytes \<Rightarrow> bytes \<Rightarrow> ('h, 'r, 'f) dicod \<times> int" where
  "auth w s username authstr =
     (case userdb s of
        None \<Rightarrow> (s, 1)
      | Some u \<Rightarrow>
          if udb_open u \<noteq> 0 then (s, 1)
          else (case udb_password u username of (rc, password) \<Rightarrow>
              if rc \<noteq> 0 then (s, 1)
              else (case password of
                  None \<Rightarrow> (s, 1)
                | Some p \<Rightarrow>
                    let rc = verify_apop w s p authstr in
                    if rc \<noteq> 0 then (s, rc)
                    else (s\<lparr>clnt := (clnt s)\<lparr>user_name := Some username, user_groups := udb_groups u username\<rparr>\<rparr>, 0))))"

definition dicod_auth :: "world \<Rightarrow> ('h, 'r, 'f) dicod \<Rightarrow> bytes list \<Rightarrow> ('h, 'r, 'f) step" where
  "dicod_auth w s argv =
     (case auth w s (argv ! 1) (argv ! 2) of (s, rc) \<Rightarrow>
        if rc = 0
        then do {
          s \<leftarrow> recheck_visibility s;
          Some (s, [Put (str ''230 Authentication successful''), Put [0x0a]]) }
        else Some (s, [Put (str ''531 Access denied, use \"SHOW INFO\" for server information''), Put [0x0a]]))"

definition init_auth_data :: "('h, 'r, 'f) dicod \<Rightarrow> ('h, 'r, 'f) dicod option" where
  "init_auth_data s = do {
     _ \<leftarrow> c_free (client_id s);
     Some (s\<lparr>clnt := (clnt s)\<lparr>user_name := None, user_groups := []\<rparr>, client_id := Null, database_list := reset_db_visibility (database_list s)\<rparr>) }"

section \<open>Commands\<close>

definition run_handler :: "handler \<Rightarrow> world \<Rightarrow> ('h, 'r, 'f) dicod \<Rightarrow> bytes list \<Rightarrow> ('h, 'r, 'f) step" where
  "run_handler h =
     (case h of
        H_define \<Rightarrow> dicod_define | H_match \<Rightarrow> dicod_match | H_show_databases \<Rightarrow> dicod_show_databases
      | H_show_strategies \<Rightarrow> dicod_show_strategies | H_show_info \<Rightarrow> dicod_show_info | H_show_server \<Rightarrow> dicod_show_server
      | H_client \<Rightarrow> dicod_client | H_status \<Rightarrow> dicod_status | H_help \<Rightarrow> dicod_help | H_quit \<Rightarrow> dicod_quit | H_lang \<Rightarrow> dicod_lang
      | H_show_lang_db \<Rightarrow> dicod_show_lang_db | H_show_lang_info \<Rightarrow> dicod_show_lang_info | H_show_lang_pref \<Rightarrow> dicod_show_lang_pref
      | H_mime \<Rightarrow> dicod_mime | H_markup \<Rightarrow> dicod_markup | H_xlevdist \<Rightarrow> dicod_xlevdist | H_xidle \<Rightarrow> dicod_xidle
      | H_xversion \<Rightarrow> dicod_xversion | H_auth \<Rightarrow> dicod_auth)"

definition dicod_handle_command :: "world \<Rightarrow> ('h, 'r, 'f) dicod \<Rightarrow> bytes list \<Rightarrow> ('h, 'r, 'f) step" where
  "dicod_handle_command w s argv = do {
     argv \<leftarrow> command_args (alias_table s) argv;
     (case dispatch_command (command_list s) argv of
        Unknown_500 \<Rightarrow> Some (s, [Put (str ''500 unknown command'' @ [0x0a])])
      | Wrong_args_501 \<Rightarrow> Some (s, [Put (str ''501 wrong number of arguments'' @ [0x0a])])
      | Not_implemented_502 \<Rightarrow> Some (s, [Put (str ''502 command is not yet implemented, sorry'' @ [0x0a])])
      | Run h argv \<Rightarrow> run_handler h w s argv) }"

definition print_capa :: "bytes \<Rightarrow> bool \<Rightarrow> nat \<times> act list \<Rightarrow> bool \<times> nat \<times> act list" where
  "print_capa name enabled cp =
     (if enabled then (False, Suc (fst cp), snd cp @ (if fst cp \<noteq> 0 then [Put (str ''.'')] else []) @ [Put name]) else (False, cp))"

definition output_capabilities :: "('h, 'r, 'f) dicod \<Rightarrow> act list" where
  "output_capabilities s = [Put (str ''<'')] @ snd (dicod_capa_iterate print_capa (capa_list s) (0, [])) @ [Put (str ''>'')]"

text \<open>The identifier of the message is made of the process number, the time and the name of the host.\<close>

definition initial_banner :: "bytes \<Rightarrow> ('h, 'r, 'f) dicod \<Rightarrow> ('h, 'r, 'f) dicod \<times> act list" where
  "initial_banner mid s =
     (s\<lparr>msg_id := mid\<rparr>,
      [Put (str ''220 ''), Put (hostname s), Put (str '' ''),
       Put (case initial_banner_text s of Some t \<Rightarrow> t | None \<Rightarrow> program_version s), Put (str '' '')] @
      output_capabilities s @ [Put (str '' ''), Put mid, Put [0x0a]])"

end
