(* ===== verification/Dico_Session.thy ===== *)
theory Dico_Session
  imports Dico_Server Dico_Tokenize
begin

text \<open>
  The session with a client: performing the writes of a handler on the streams, and the loop of
  \<^verbatim>\<open>dicod/dicod.c\<close> that reads, splits and executes commands.
\<close>

section \<open>Connections\<close>

text \<open>
  The client's stream, or the reply stream that stands on it while it is open; \<open>Put\<close> writes to
  the client's stream in both cases.
\<close>

datatype 't conn = Idle "'t dico_stream" | Replying "'t ostream dico_stream"

definition under_write :: "'t otransport \<Rightarrow> bytes \<Rightarrow> 't otransport option" where
  "under_write t b =
     (case t of
        OT_plain s \<Rightarrow> map_option (\<lambda>(s, _). OT_plain s) (dico_stream_write s b)
      | OT_codec f \<Rightarrow>
          map_option (\<lambda>(s, _). OT_codec (f\<lparr>s_data := (s_data f)\<lparr>fs_transport := s\<rparr>\<rparr>)) (dico_stream_write (fs_transport (s_data f)) b)
      | OT_trim f \<Rightarrow>
          map_option (\<lambda>(s, _). OT_trim (f\<lparr>s_data := (s_data f)\<lparr>lt_transport := s\<rparr>\<rparr>)) (dico_stream_write (lt_transport (s_data f)) b))"

text \<open>Allocation of the buffer and of the streams that \<^verbatim>\<open>print_headers\<close> creates, and an unset variable.\<close>

record ostream_env =
  oe_mime :: bool
  oe_buffer :: bool
  oe_alloc :: "bool \<times> bool \<times> bool"
  oe_unset :: nat

definition run_act :: "ostream_env \<Rightarrow> act \<Rightarrow> 't conn \<times> int \<Rightarrow> ('t conn \<times> int) option" where
  "run_act e a ct =
     (case ct of (c, n) \<Rightarrow>
       (case (a, c) of
          (Put b, Idle s) \<Rightarrow> map_option (\<lambda>(s, _). (Idle s, n)) (dico_stream_write s b)
        | (Put b, Replying r) \<Rightarrow>
            map_option (\<lambda>t. (Replying (r\<lparr>s_data := (s_data r)\<lparr>os_transport := t\<rparr>\<rparr>), n)) (under_write (os_transport (s_data r)) b)
        | (Begin h, Idle s) \<Rightarrow>
            map_option (\<lambda>r. (Replying r, n)) (dicod_ostream_create (oe_mime e) (oe_buffer e) (oe_alloc e) (oe_unset e) s h)
        | (Text b, Replying r) \<Rightarrow> map_option (\<lambda>(r, _). (Replying r, n)) (dico_stream_write r b)
        | (Lines b, Replying r) \<Rightarrow> map_option (\<lambda>r. (Replying r, n)) (stream_write_multiline (oe_unset e) r b)
        | (Tally, Replying r) \<Rightarrow> map_option (\<lambda>(r, k). (Replying r, n + k)) (dico_stream_bytes_out r)
        | (Finish, Replying r) \<Rightarrow> do {
            (r, _) \<leftarrow> dico_stream_close r;
            os \<leftarrow> dico_stream_destroy r;
            (case os_transport os of OT_plain s \<Rightarrow> Some (Idle s, n) | _ \<Rightarrow> None) }
        | _ \<Rightarrow> None))"

fun run_acts :: "ostream_env \<Rightarrow> act list \<Rightarrow> 't conn \<times> int \<Rightarrow> ('t conn \<times> int) option" where
  "run_acts e [] c = Some c"
| "run_acts e (a # as) c = do { c \<leftarrow> run_act e a c; run_acts e as c }"

text \<open>A command executed on the client's stream; \<^verbatim>\<open>total_bytes_out\<close> starts at 0.\<close>

definition serve :: "ostream_env \<Rightarrow> act list \<Rightarrow> 't dico_stream \<Rightarrow> ('t dico_stream \<times> int) option" where
  "serve e as io = do {
     (c, n) \<leftarrow> run_acts e as (Idle io, 0);
     (case c of Idle io \<Rightarrow> Some (io, n) | Replying _ \<Rightarrow> None) }"

section \<open>The loop\<close>

text \<open>\<^verbatim>\<open>trimnl\<close>\<close>

definition trimnl :: "bytes \<Rightarrow> bytes" where
  "trimnl buf =
     (let len = length buf in
      if len > 1 \<and> buf ! (len - 1) = 0x0a
      then if len - 1 > 1 \<and> buf ! (len - 2) = 0x0d then take (len - 2) buf else take (len - 1) buf
      else buf)"

fun tkn_argv :: "dico_tokbuf \<Rightarrow> nat list \<Rightarrow> bytes list option" where
  "tkn_argv tb [] = Some []"
| "tkn_argv tb (i # is) = do { a \<leftarrow> tkn_read tb i; as \<leftarrow> tkn_argv tb is; Some (a # as) }"

text \<open>
  What changes while the loop runs: the session, the client's stream, the size of the line
  buffer and the token buffer.
\<close>

record ('h, 'r, 'f, 't) session =
  ss_dicod :: "('h, 'r, 'f) dicod"
  ss_stream :: "'t dico_stream"
  ss_size :: "nat option"
  ss_tokens :: dico_tokbuf

text \<open>
  One round of the loop of \<^verbatim>\<open>dicod_loop\<close>: \<open>Inl\<close> when the loop ends. A line is a C string: it
  ends at the first NUL the client sends. \<open>alloc\<close> and \<open>valloc\<close> stand for the allocations of the line buffer and the token
  buffer; a failed allocation of the latter ends the program.
\<close>

definition loop_step ::
  "(nat \<Rightarrow> bool) \<Rightarrow> bool \<Rightarrow> ostream_env \<Rightarrow> world \<Rightarrow> ('h, 'r, 'f, 't) session \<Rightarrow>
   (('h, 'r, 'f, 't) session + ('h, 'r, 'f, 't) session) option" where
  "loop_step alloc valloc e w ss =
     (if got_quit (ss_dicod ss) then Some (Inl ss)
      else do {
        (io, rc, line, n) \<leftarrow> dico_stream_getline alloc (ss_stream ss) (ss_size ss);
        (let ss = ss\<lparr>ss_stream := io, ss_size := Some n\<rparr> in
         if rc \<noteq> 0 then Some (Inl ss)
         else do {
           st \<leftarrow> xdico_tokenize_string alloc valloc (oe_unset e) (ss_tokens ss) (takeWhile (\<lambda>c. c \<noteq> 0) (trimnl line));
           (case st of
              Xalloc_die \<Rightarrow> None
            | Returned tb \<Rightarrow>
                let ss = ss\<lparr>ss_tokens := tb\<rparr> in
                if tb_tokc tb = 0 then Some (Inr ss)
                else do {
                  argv \<leftarrow> tkn_argv tb [0..<tb_tokc tb];
                  (d, as) \<leftarrow> dicod_handle_command w (ss_dicod ss) argv;
                  (io, _) \<leftarrow> serve (e\<lparr>oe_mime := option_mime (ss_dicod ss)\<rparr>) as (ss_stream ss);
                  Some (Inr (ss\<lparr>ss_dicod := d, ss_stream := io\<rparr>)) }) }) })"

partial_function (option) session_loop ::
  "(nat \<Rightarrow> bool) \<Rightarrow> bool \<Rightarrow> ostream_env \<Rightarrow> world \<Rightarrow> ('h, 'r, 'f, 't) session \<Rightarrow> ('h, 'r, 'f, 't) session option" where
  "session_loop alloc valloc e w ss = do {
     r \<leftarrow> loop_step alloc valloc e w ss;
     (case r of Inl ss \<Rightarrow> Some ss | Inr ss \<Rightarrow> session_loop alloc valloc e w ss) }"

text \<open>
  \<^verbatim>\<open>dicod_loop\<close> without transcript and identity check; \<open>mid\<close> is the identifier of the message
  of the banner.
\<close>

definition dicod_loop ::
  "(nat \<Rightarrow> bool) \<Rightarrow> bool \<Rightarrow> ostream_env \<Rightarrow> world \<Rightarrow> bytes \<Rightarrow> ('h, 'r, 'f) dicod \<Rightarrow> 't dico_stream \<Rightarrow>
   (('h, 'r, 'f) dicod \<times> 't dico_stream) option" where
  "dicod_loop alloc valloc e w mid d io = do {
     d \<leftarrow> Some ((begin_timing d)\<lparr>got_quit := False\<rparr>);
     d \<leftarrow> recheck_visibility (d\<lparr>database_list := open_databases (database_list d)\<rparr>);
     (d, as) \<leftarrow> Some (initial_banner mid d);
     (io, _) \<leftarrow> serve e as io;
     ss \<leftarrow> session_loop alloc valloc e w \<lparr>ss_dicod = d, ss_stream = io, ss_size = None, ss_tokens = dico_tokenize_begin\<rparr>;
     d \<leftarrow> init_auth_data (ss_dicod ss);
     Some (d, ss_stream ss) }"

end
