(* ===== verification/Dico_Output_Props.thy ===== *)
theory Dico_Output_Props
  imports Dico_Output
begin

text \<open>
  What reaches the client of a text written through a reply stream: a line that consists of
  a dot alone, which would end the reply, never does; and the client recovers the text when
  no write overflows the line buffer.
\<close>

section \<open>Dots at the beginning of lines\<close>

definition dot_chunk :: "bytes \<Rightarrow> bytes" where
  "dot_chunk b = (if hd b = 0x2e then 0x2e # b else b)"

text \<open>A line that is a dot alone, or text that ends after a dot at the beginning of a line.\<close>

fun lone_dot :: "bool \<Rightarrow> bytes \<Rightarrow> bool" where
  "lone_dot bol [] \<longleftrightarrow> False"
| "lone_dot bol (c # s) \<longleftrightarrow> bol \<and> c = 0x2e \<and> (s = [] \<or> hd s = 0x0a) \<or> lone_dot (c = 0x0a) s"

text \<open>What the client makes of a reply text: it drops one dot at the beginning of a line.\<close>

fun undot :: "bool \<Rightarrow> bytes \<Rightarrow> bytes" where
  "undot bol [] = []"
| "undot bol (c # s) = (if bol \<and> c = 0x2e then undot False s else c # undot (c = 0x0a) s)"

lemma lone_dot_mid: "c \<noteq> [] \<Longrightarrow> 0x0a \<notin> set (butlast c) \<Longrightarrow> lone_dot False (c @ r) \<longleftrightarrow> lone_dot (last c = 0x0a) r"
  by (induction c) (auto split: if_splits)

lemma lone_dot_chunk: "line_chunk c \<Longrightarrow> lone_dot b (dot_chunk c @ r) \<longleftrightarrow> lone_dot (last c = 0x0a) r"
proof -
  assume c: "line_chunk c"
  then obtain x y where xy: "c = x # y" by (auto simp: line_chunk_def neq_Nil_conv)
  show ?thesis
  proof (cases "x = 0x2e")
    case True
    with c xy lone_dot_mid [of c r] show ?thesis by (auto simp: dot_chunk_def line_chunk_def)
  next
    case False
    with c xy lone_dot_mid [of y r] show ?thesis by (cases y) (auto simp: dot_chunk_def line_chunk_def)
  qed
qed

lemma no_lone_dot: "\<forall>c\<in>set cs. line_chunk c \<Longrightarrow> \<not> lone_dot b (concat (map dot_chunk cs))"
  by (induction cs arbitrary: b) (simp_all add: lone_dot_chunk)

lemma undot_mid: "c \<noteq> [] \<Longrightarrow> 0x0a \<notin> set (butlast c) \<Longrightarrow> undot False (c @ r) = c @ undot (last c = 0x0a) r"
  by (induction c) (auto split: if_splits)

lemma undot_chunk: "line_chunk c \<Longrightarrow> undot True (dot_chunk c @ r) = c @ undot (last c = 0x0a) r"
proof -
  assume c: "line_chunk c"
  then obtain x y where xy: "c = x # y" by (auto simp: line_chunk_def neq_Nil_conv)
  show ?thesis
  proof (cases "x = 0x2e")
    case True
    with c xy undot_mid [of c r] show ?thesis by (auto simp: dot_chunk_def line_chunk_def)
  next
    case False
    with c xy undot_mid [of y r] show ?thesis by (cases y) (auto simp: dot_chunk_def line_chunk_def)
  qed
qed

lemma undot_chunks:
  "\<forall>c\<in>set cs. line_chunk c \<and> last c = 0x0a \<Longrightarrow> \<forall>c\<in>set ds. line_chunk c \<Longrightarrow> length ds \<le> 1 \<Longrightarrow>
   undot True (concat (map dot_chunk (cs @ ds))) = concat cs @ concat ds"
proof (induction cs)
  case Nil
  then show ?case using undot_chunk [of _ "[]"] by (cases ds) auto
next
  case (Cons c cs)
  then show ?case by (simp add: undot_chunk)
qed

section \<open>The contract of the reply stream\<close>

definition reply_rel ::
  "('d \<Rightarrow> bytes \<Rightarrow> ('d \<times> (int + nat)) option) \<Rightarrow> ('d \<Rightarrow> bool) \<Rightarrow> ('d \<Rightarrow> bytes) \<Rightarrow> 'd driver \<Rightarrow> bytes \<Rightarrow> bytes list \<Rightarrow> 'd ostream \<Rightarrow> bool" where
  "reply_rel wr ok out drv w0 cs os \<longleftrightarrow>
     (\<exists>t. os_transport os = OT_plain t \<and> write_ready wr ok t \<and> s_drv t = drv \<and>
        written out t = w0 @ concat (map dot_chunk cs)) \<and> OSTREAM_DESTROY_TRANSPORT \<notin> os_flags os"

locale reply_transport = base: flushed_sink wr ok out "d_flush drv"
  for wr :: "'d \<Rightarrow> bytes \<Rightarrow> ('d \<times> (int + nat)) option" and ok :: "'d \<Rightarrow> bool" and out :: "'d \<Rightarrow> bytes"
    and drv :: "'d driver" +
  fixes w0 :: bytes and alloc :: "bool \<times> bool \<times> bool" and unset :: nat
begin

lemma transport_write:
  assumes "write_ready wr ok t" and "s_drv t = drv"
  shows "\<exists>t'. ot_write (OT_plain t) b = Some (OT_plain t', 0) \<and> write_ready wr ok t' \<and> s_drv t' = drv \<and>
    written out t' = written out t @ b"
  using base.stream_write_ok [OF assms(1), of b] assms(2) by (auto simp: ot_write_def appended_def)

lemma reply_write:
  assumes "reply_rel wr ok out drv w0 cs os" and "line_chunk b"
  shows "\<exists>os'. ostream_write False alloc unset os b = Some (os', Inr (length b)) \<and> reply_rel wr ok out drv w0 (cs @ [b]) os'"
proof -
  obtain t where t: "os_transport os = OT_plain t" "write_ready wr ok t" "s_drv t = drv"
    "written out t = w0 @ concat (map dot_chunk cs)" "OSTREAM_DESTROY_TRANSPORT \<notin> os_flags os" using assms(1) by (auto simp: reply_rel_def)
  have ne: "b \<noteq> []" using assms(2) by (simp add: line_chunk_def)
  show ?thesis
  proof (cases "hd b = 0x2e")
    case True
    obtain t1 where t1: "ot_write (OT_plain t) [0x2e] = Some (OT_plain t1, 0)" "write_ready wr ok t1" "s_drv t1 = drv"
      "written out t1 = written out t @ [0x2e]" using transport_write [OF t(2,3)] by blast
    obtain t2 where "ot_write (OT_plain t1) b = Some (OT_plain t2, 0)" "write_ready wr ok t2" "s_drv t2 = drv"
      "written out t2 = written out t1 @ b" using transport_write [OF t1(2,3)] by blast
    with True t t1 ne show ?thesis by (auto simp: ostream_write_def reply_rel_def dot_chunk_def)
  next
    case False
    obtain t2 where "ot_write (OT_plain t) b = Some (OT_plain t2, 0)" "write_ready wr ok t2" "s_drv t2 = drv"
      "written out t2 = written out t @ b" using transport_write [OF t(2,3)] by blast
    with False t show ?thesis by (auto simp: ostream_write_def reply_rel_def dot_chunk_def)
  qed
qed

end

sublocale reply_transport \<subseteq> reply: line_sink "ostream_write False alloc unset" "reply_rel wr ok out drv w0"
  by unfold_locales (rule reply_write)

text \<open>Several writes one after the other, and when none of them fills the buffer of 1024 bytes.\<close>

fun reply_writes :: "'d dico_stream \<Rightarrow> bytes list \<Rightarrow> 'd dico_stream option" where
  "reply_writes s [] = Some s"
| "reply_writes s (w # ws) = do { (s, rc) \<leftarrow> dico_stream_write s w; (if rc = 0 then reply_writes s ws else None) }"

definition unfinished :: "bytes \<Rightarrow> bytes" where
  "unfinished p = rev (takeWhile (\<lambda>c. c \<noteq> 0x0a) (rev p))"

fun reply_fits :: "bytes \<Rightarrow> bytes list \<Rightarrow> bool" where
  "reply_fits p [] \<longleftrightarrow> True"
| "reply_fits p (w # ws) \<longleftrightarrow> length (p @ w) < 1024 \<and> reply_fits (unfinished (p @ w)) ws"

lemma takeWhile_stop: "\<forall>c\<in>set a. P c \<Longrightarrow> \<not> P x \<Longrightarrow> takeWhile P (a @ x # b) = a"
  by (induction a) auto

lemma unfinished_eq:
  assumes "concat ls @ q = p" and "0x0a \<notin> set q" and "\<forall>l\<in>set ls. l \<noteq> [] \<and> last l = 0x0a"
  shows "q = unfinished p"
proof (cases ls rule: rev_cases)
  case Nil
  then have "q = p" using assms(1) by simp
  then have "takeWhile (\<lambda>c. c \<noteq> 0x0a) (rev p) = rev p" using assms(2) by (auto simp: takeWhile_eq_all_conv)
  then show ?thesis using \<open>q = p\<close> by (simp only: unfinished_def rev_rev_ident)
next
  case (snoc ls' l)
  then have l: "l = butlast l @ [0x0a]" using assms(3) append_butlast_last_id [of l] by simp
  have "rev (concat ls @ q) = rev q @ rev l @ rev (concat ls')" using snoc by simp
  also have "rev l = 0x0a # rev (butlast l)" using arg_cong [OF l, of rev] by simp
  finally have "rev p = rev q @ 0x0a # rev (butlast l) @ rev (concat ls')" using assms(1) by simp
  moreover have "\<forall>c\<in>set (rev q). c \<noteq> 0x0a" using assms(2) by auto
  ultimately have "takeWhile (\<lambda>c. c \<noteq> 0x0a) (rev p) = rev q" using takeWhile_stop [of "rev q" "\<lambda>c. c \<noteq> 0x0a" "0x0a"] by simp
  then show ?thesis by (simp add: unfinished_def)
qed

context reply_transport
begin

lemma reply_writes_ok:
  "line_ready (ostream_write False alloc unset) (reply_rel wr ok out drv w0 cs) s \<Longrightarrow> 0x0a \<notin> set (pending s) \<Longrightarrow>
   \<exists>s' ls. reply_writes s ws = Some s' \<and> line_ready (ostream_write False alloc unset) (reply_rel wr ok out drv w0 (cs @ ls)) s' \<and>
     (\<forall>l\<in>set ls. line_chunk l) \<and> concat ls @ pending s' = pending s @ concat ws \<and> 0x0a \<notin> set (pending s') \<and> s_drv s' = s_drv s \<and> s_bufsize s' = s_bufsize s \<and>
     (s_bufsize s = 1024 \<and> reply_fits (pending s) ws \<longrightarrow> (\<forall>l\<in>set ls. last l = 0x0a))"
proof (induction ws arbitrary: cs s)
  case Nil
  then show ?case by (intro exI [of _ s] exI [of _ "[]"]) simp
next
  case (Cons w ws)
  obtain s1 ls1 where s1: "dico_stream_write s w = Some (s1, 0)"
    "line_ready (ostream_write False alloc unset) (reply_rel wr ok out drv w0 (cs @ ls1)) s1" "\<forall>l\<in>set ls1. line_chunk l"
    "concat ls1 @ pending s1 = pending s @ w" "0x0a \<notin> set (pending s1)" "s_drv s1 = s_drv s" "s_bufsize s1 = s_bufsize s"
    "s_level s + length w < s_bufsize s \<longrightarrow> (\<forall>l\<in>set ls1. last l = 0x0a)"
    using reply.cut_write [OF Cons.prems(1), of w] by blast
  obtain s2 ls2 where s2: "reply_writes s1 ws = Some s2"
    "line_ready (ostream_write False alloc unset) (reply_rel wr ok out drv w0 ((cs @ ls1) @ ls2)) s2" "\<forall>l\<in>set ls2. line_chunk l"
    "concat ls2 @ pending s2 = pending s1 @ concat ws" "0x0a \<notin> set (pending s2)" "s_drv s2 = s_drv s1" "s_bufsize s2 = s_bufsize s1"
    "s_bufsize s1 = 1024 \<and> reply_fits (pending s1) ws \<longrightarrow> (\<forall>l\<in>set ls2. last l = 0x0a)"
    using Cons.IH [OF s1(2,5)] by blast
  have lv: "length (pending s) = s_level s"
    using write_ready_window [of "ostream_write False alloc unset" "reply_rel wr ok out drv w0 cs" s] Cons.prems(1) by (simp add: line_ready_def)
  have "\<forall>l\<in>set (ls1 @ ls2). last l = 0x0a" if f: "s_bufsize s = 1024" "reply_fits (pending s) (w # ws)"
  proof -
    have l1: "\<forall>l\<in>set ls1. last l = 0x0a" using f lv s1(8) by simp
    have "pending s1 = unfinished (pending s @ w)"
      by (rule unfinished_eq [OF s1(4,5)]) (use l1 s1(3) in \<open>auto simp: line_chunk_def\<close>)
    then show ?thesis using f s1(7) s2(8) l1 by auto
  qed
  moreover have "concat (ls1 @ ls2) @ pending s2 = pending s @ concat (w # ws)" using s1(4) s2(4) by simp
  ultimately show ?case
    using s1(1,3,6,7) s2(1-3,5-7) by (intro exI [of _ s2] exI [of _ "ls1 @ ls2"]) auto
qed

lemma reply_close_ok:
  assumes "line_ready (ostream_write False alloc unset) (reply_rel wr ok out drv w0 cs) s" and "0x0a \<notin> set (pending s)"
    and "d_flush (s_drv s) = Some ostream_flush" and "d_close (s_drv s) = None"
  shows "\<exists>s' ls t. dico_stream_close s = Some (s', 0) \<and> (\<forall>l\<in>set ls. line_chunk l) \<and> concat ls = pending s \<and> length ls \<le> 1 \<and>
    os_transport (s_data s') = OT_plain t \<and> out (s_data t) = w0 @ concat (map dot_chunk (cs @ ls)) \<and>
    write_ready wr ok t \<and> s_drv t = drv \<and> pending t = [] \<and> s_drv s' = s_drv s \<and>
    OSTREAM_DESTROY_TRANSPORT \<notin> os_flags (s_data s')"
proof -
  obtain s1 ls where s1: "stream_flush_buffer s True = Some (s1, 0)"
    "line_ready (ostream_write False alloc unset) (reply_rel wr ok out drv w0 (cs @ ls)) s1" "\<forall>l\<in>set ls. line_chunk l"
    "concat ls = pending s" "pending s1 = []" "s_drv s1 = s_drv s" "length ls \<le> 1"
    using reply.cut_flush [OF assms(1,2)] by blast
  have "reply_rel wr ok out drv w0 (cs @ ls) (s_data s1)" using s1(2) by (simp add: line_ready_def write_ready_def)
  then obtain t where t: "os_transport (s_data s1) = OT_plain t" "write_ready wr ok t" "s_drv t = drv"
    "written out t = w0 @ concat (map dot_chunk (cs @ ls))" "OSTREAM_DESTROY_TRANSPORT \<notin> os_flags (s_data s1)"
    unfolding reply_rel_def by (elim exE conjE) (rule that)
  obtain t' where t': "dico_stream_flush t = Some (t', 0)" "write_ready wr ok t'" "moved out t t'" "pending t' = []"
    using base.dico_stream_flush_ok [OF t(2) arg_cong [OF t(3), of d_flush]] by blast
  let ?s = "s1\<lparr>s_data := (s_data s1)\<lparr>os_transport := OT_plain t'\<rparr>\<rparr>"
  have "dico_stream_close s = Some (?s, 0)"
    using s1(1,6) t(1) t'(1) assms(3,4) by (simp add: dico_stream_close_def dico_stream_flush_def stream_call_flush_def ostream_flush_def ot_flush_def)
  moreover have "out (s_data t') = w0 @ concat (map dot_chunk (cs @ ls))" "s_drv t' = drv"
    using t t'(3,4) by (simp_all add: moved_def written_def)
  ultimately show ?thesis using s1(3-7) t(5) t'(2,4) by (intro exI [of _ ?s] exI [of _ ls] exI [of _ t']) simp
qed

end

interpretation pipe_reply: reply_transport "fd_write pipe_posix" "\<lambda>p. True" "\<lambda>p. snd (fst p)"
    "s_drv (pipe_stream [] {DICO_STREAM_WRITE} dico_buffer_line 4)" "[]" "(True, True, True)" 0
  by (rule reply_transport.intro) (simp add: pipe_stream_fields pipe.fd_out.flushed_sink_axioms)

section \<open>Properties\<close>



text \<open>
  A write that fills the buffer cuts a line in two, and a dot at the beginning of the second
  part is doubled in the middle of the line, which the client does not undo. Here the buffer
  is set to two bytes.
\<close>

declare stream_write_loop.simps [code] stream_flush_buffer.simps [code]

theorem mid_line_dot_doubled:
  "do { s \<leftarrow> dicod_ostream_create False True (True, True, True) 0 (pipe_stream [] {DICO_STREAM_WRITE} dico_buffer_none 0) None;
        (s, _) \<leftarrow> dico_stream_set_buffer True s dico_buffer_line 2;
        s \<leftarrow> reply_writes s [str ''ab.c''];
        (s, _) \<leftarrow> dico_stream_close s;
        Some (case os_transport (s_data s) of OT_plain t \<Rightarrow> snd (fst (s_data t)) | _ \<Rightarrow> []) } = Some (str ''ab..c'')"
  by code_simp

end
