(* ===== verification/Dico_Dispatch_Props.thy ===== *)
theory Dico_Dispatch_Props
  imports Dico_Dispatch
begin

text \<open>
  The expansion of aliases is a sequence of rewriting steps that ends, a command is found by
  its leading arguments, and the commands of a capability are there exactly when it is enabled.
\<close>

section \<open>Vectors\<close>

lemma vec_put_at: "vec_put (replicate (Suc n) None @ r) (int n) x = Some (replicate n None @ x # r)"
proof -
  have "replicate (Suc n) None @ r = replicate n None @ None # r" by (simp only: replicate_Suc replicate_app_Cons_same append_Cons)
  then show ?thesis by (simp add: vec_put_def list_update_append)
qed

lemma vec_copy_end: "length a = n \<Longrightarrow> vec_copy (a @ replicate (length xs) None) (int n) xs = Some (a @ xs)"
proof (induction xs arbitrary: a n)
  case Nil
  then show ?case by simp
next
  case (Cons x xs)
  have "vec_put (a @ None # replicate (length xs) None) (int n) x = Some ((a @ [x]) @ replicate (length xs) None)"
    using Cons.prems by (simp add: vec_put_def list_update_append)
  with Cons.IH [of "a @ [x]" "Suc n"] Cons.prems show ?case by (simp add: add.commute)
qed

lemma alias_args_eq:
  "length xs \<le> n \<Longrightarrow>
   alias_args (replicate n None @ r) (int n - 1) xs = Some (replicate (n - length xs) None @ map Some (rev xs) @ r, int (n - length xs) - 1)"
proof (induction xs arbitrary: n r)
  case Nil
  then show ?case by simp
next
  case (Cons x xs)
  then obtain m where m: "n = Suc m" by (cases n) auto
  have "vec_put (replicate n None @ r) (int n - 1) (Some x) = Some (replicate m None @ Some x # r)"
    using vec_put_at [of m r "Some x"] m by simp
  with Cons.IH [of m "Some x # r"] Cons.prems m show ?case by simp
qed

definition alias_tail :: "alias_entry list \<Rightarrow> bytes list" where
  "alias_tail aps = concat (map (\<lambda>ap. tl (al_argv ap)) (rev aps))"

lemma alias_tail_simps [simp]: "alias_tail [] = []" "alias_tail (ap # aps) = alias_tail aps @ tl (al_argv ap)"
  by (simp_all add: alias_tail_def)

lemma alias_fill_eq:
  "\<forall>ap\<in>set aps. al_argv ap \<noteq> [] \<Longrightarrow> length (alias_tail aps) \<le> n \<Longrightarrow>
   alias_fill (replicate n None @ r) (int n - 1) kw aps =
     Some (replicate (n - length (alias_tail aps)) None @ map Some (alias_tail aps) @ r, int (n - length (alias_tail aps)) - 1,
       if aps = [] then kw else Some (hd (al_argv (last aps))))"
proof (induction aps arbitrary: n r kw)
  case Nil
  then show ?case by simp
next
  case (Cons ap aps)
  then obtain k args where a: "al_argv ap = k # args" by (cases "al_argv ap") auto
  have "alias_args (replicate n None @ r) (int n - 1) (rev args) =
      Some (replicate (n - length args) None @ map Some args @ r, int (n - length args) - 1)"
    using alias_args_eq [of "rev args" n r] Cons.prems(2) a by simp
  moreover have "alias_fill (replicate (n - length args) None @ map Some args @ r) (int (n - length args) - 1) (Some k) aps =
      Some (replicate (n - length args - length (alias_tail aps)) None @ map Some (alias_tail aps) @ map Some args @ r,
        int (n - length args - length (alias_tail aps)) - 1, if aps = [] then Some k else Some (hd (al_argv (last aps))))"
    using Cons.prems a by (intro Cons.IH) auto
  ultimately show ?case using a by (simp add: diff_diff_add add.commute)
qed

lemma length_alias_tail:
  "\<forall>ap\<in>set aps. al_argv ap \<noteq> [] \<Longrightarrow> sum_list (map (\<lambda>ap. int (length (al_argv ap)) - 1) aps) = int (length (alias_tail aps))"
proof (induction aps)
  case (Cons ap aps)
  then show ?case by (cases "al_argv ap") auto
qed simp

lemma vec_args_map: "vec_args (map Some xs @ r) (length xs) = Some xs"
  by (induction xs) auto

section \<open>Expansion as rewriting\<close>

text \<open>
  One step replaces the first word by the words of its alias, unless the alias was used before;
  the state is the aliases used and the command.
\<close>

inductive alias_step :: "alias_entry list \<Rightarrow> alias_entry list \<times> bytes list \<Rightarrow> alias_entry list \<times> bytes list \<Rightarrow> bool" for table where
  rewrite: "alias_lookup table kw = Some ap \<Longrightarrow> al_kw ap \<notin> al_kw ` set used \<Longrightarrow>
    alias_step table (used, kw # args) (used @ [ap], al_argv ap @ args)"

inductive_simps alias_step_iff: "alias_step table (used, kw # args) s"

definition alias_result :: "alias_entry list \<Rightarrow> bytes list \<Rightarrow> bytes list" where
  "alias_result used argv = (if used = [] then argv else hd (al_argv (last used)) # alias_tail used @ tl argv)"

lemma alias_result_snoc: "al_argv ap \<noteq> [] \<Longrightarrow> alias_result (used @ [ap]) argv = al_argv ap @ tl (alias_result used argv)"
  by (simp add: alias_result_def alias_tail_def)

lemma alias_lookup_table: "alias_lookup table kw = Some ap \<Longrightarrow> ap \<in> set table \<and> al_kw ap = kw"
  by (auto simp: alias_lookup_def alias_compare_def find_Some_iff)

lemma alias_chain_steps:
  assumes "\<forall>ap\<in>set table. al_argv ap \<noteq> []" and "set used \<subseteq> set table" and "alias_result used argv = kw # args"
  shows "\<exists>used'. alias_chain table kw used = Some used' \<and> set used' \<subseteq> set table \<and>
    (alias_step table)\<^sup>*\<^sup>* (used, kw # args) (used', alias_result used' argv) \<and> (\<nexists>s. alias_step table (used', alias_result used' argv) s)"
  using assms
proof (induction table kw used arbitrary: args rule: alias_chain.induct)
  case (1 table kw used)
  show ?case
  proof (cases "alias_lookup table kw")
    case None
    with 1 show ?thesis by (intro exI [of _ used]) (simp add: alias_chain.simps alias_step_iff)
  next
    case (Some ap)
    note ap = alias_lookup_table [OF Some]
    show ?thesis
    proof (cases "al_kw ap \<in> al_kw ` set used")
      case True
      then have "list_ex (\<lambda>a. list_alias_cmp a ap = 0) used" by (auto simp: list_ex_iff list_alias_cmp_def)
      with Some True 1(4) show ?thesis by (intro exI [of _ used]) (auto simp: alias_chain.simps alias_step_iff "1.prems")
    next
      case False
      then have n: "\<not> list_ex (\<lambda>a. list_alias_cmp a ap = 0) used" by (auto simp: list_ex_iff list_alias_cmp_def) (metis imageI)
      obtain k ks where k: "al_argv ap = k # ks" using 1(2) ap by (cases "al_argv ap") auto
      have r: "alias_result (used @ [ap]) argv = k # ks @ args" using alias_result_snoc [of ap used argv] k 1(4) by simp
      obtain used' where u: "alias_chain table k (used @ [ap]) = Some used'" "set used' \<subseteq> set table"
        "(alias_step table)\<^sup>*\<^sup>* (used @ [ap], k # ks @ args) (used', alias_result used' argv)" "\<nexists>s. alias_step table (used', alias_result used' argv) s"
        using "1.IH" [OF Some n k 1(2) _ r] 1(3) ap by auto
      have "alias_step table (used, kw # args) (used @ [ap], k # ks @ args)" using alias_step.rewrite [OF Some False, of args] k by simp
      with u Some n k show ?thesis by (intro exI [of _ used']) (auto simp: alias_chain.simps [of table kw used] intro: converse_rtranclp_into_rtranclp)
    qed
  qed
qed

lemma alias_expand_eq:
  assumes "\<forall>ap\<in>set used. al_argv ap \<noteq> []" and "alias_chain table kw [] = Some used" and "used \<noteq> []"
  shows "alias_expand (Some table) (kw # args) =
    Some (Some (length (alias_result used (kw # args)), map Some (alias_result used (kw # args)) @ [None]))"
proof -
  let ?n = "length (alias_tail used)"
  have pos: "1 + sum_list (map (\<lambda>ap. int (length (al_argv ap)) - 1) used) = int (Suc ?n)" using length_alias_tail [OF assms(1)] by simp
  have c: "vec_copy (replicate (Suc ?n + Suc (length args)) None) (int (Suc ?n)) (map Some args @ [None]) =
      Some (replicate (Suc ?n) None @ map Some args @ [None])"
    using vec_copy_end [of "replicate (Suc ?n) None" "Suc ?n" "map Some args @ [None]"] by (simp only: replicate_add length_replicate length_map length_append list.size) (simp add: replicate_append_same)
  have f: "alias_fill (replicate (Suc ?n) None @ map Some args @ [None]) (int (Suc ?n) - 1) None used =
      Some ([None] @ map Some (alias_tail used) @ map Some args @ [None], 0, Some (hd (al_argv (last used))))"
    using alias_fill_eq [OF assms(1), of "Suc ?n" "map Some args @ [None]" None] assms(3) by simp
  have n: "nat (int (Suc ?n) + int (length (kw # args)) - 1 + 1) = Suc ?n + Suc (length args)"
    "nat (int (Suc ?n) + int (length (kw # args)) - 1) = Suc ?n + length args" by simp_all
  have "vec_put ([None] @ map Some (alias_tail used) @ map Some args @ [None]) 0 (Some (hd (al_argv (last used)))) =
      Some (map Some (alias_result used (kw # args)) @ [None])"
    using assms(3) by (simp add: vec_put_def alias_result_def)
  then show ?thesis
    unfolding alias_expand_def option.case list.case assms(2) Option.bind.bind_lunit Let_def pos n c f
    using assms(3) by (simp add: alias_result_def)
qed

section \<open>Finding a command\<close>

fun join_words :: "bytes list \<Rightarrow> bytes" where
  "join_words [] = []"
| "join_words [w] = w"
| "join_words (w # ws) = w @ [0x20] @ join_words ws"

lemma join_words_Cons: "ws \<noteq> [] \<Longrightarrow> join_words (w # ws) = w @ 0x20 # join_words ws"
  by (cases ws) auto

lemma c_tolower_space [simp]: "c_tolower c = 0x20 \<longleftrightarrow> c = 0x20"
proof -
  have "c_tolower c \<noteq> 0x20 \<and> c \<noteq> 0x20" if "c_isupper c" for c :: byte
    using that unfolding c_isupper_def c_tolower_def by (simp add: word_le_nat_alt unat_word_ariths word_unat_eq_iff)
  then show ?thesis by (auto simp: c_tolower_def split: if_splits)
qed

lemma map_eq_append_Cons:
  assumes "map f xs = map f a @ y # ys"
  shows "map f (take (length a) xs) = map f a \<and> (\<exists>c xs'. drop (length a) xs = c # xs' \<and> f c = y \<and> map f xs' = ys)"
proof -
  have "map f (take (length a) xs) = map f a" using arg_cong [OF assms, of "take (length a)"] by (simp add: take_map)
  moreover have "map f (drop (length a) xs) = y # ys" using arg_cong [OF assms, of "drop (length a)"] by (simp add: drop_map)
  ultimately show ?thesis by auto
qed

lemma cmd_arg_loop_iff:
  "cmd_arg_loop kw argv \<longleftrightarrow> (\<exists>n>0. n \<le> length argv \<and> strcasecmp kw (join_words (take n argv)) = 0)"
proof (induction argv arbitrary: kw)
  case Nil
  then show ?case by simp
next
  case (Cons a as)
  show ?case
  proof
    assume l: "cmd_arg_loop kw (a # as)"
    then have t: "map c_tolower (take (length a) kw) = map c_tolower a"
      by (simp add: Let_def strncasecmp_def strcasecmp_eq_0_iff split: if_split_asm)
    have k: "kw = take (length a) kw @ drop (length a) kw" by simp
    consider "drop (length a) kw = []" | kw' where "drop (length a) kw = 0x20 # kw'" "cmd_arg_loop kw' as"
      using l by (auto simp: Let_def split: if_split_asm list.split_asm)
    then show "\<exists>n>0. n \<le> length (a # as) \<and> strcasecmp kw (join_words (take n (a # as))) = 0"
    proof cases
      case 1
      then show ?thesis using t k by (intro exI [of _ 1]) (simp add: strcasecmp_eq_0_iff)
    next
      case 2
      then obtain n where n: "n > 0" "n \<le> length as" "map c_tolower kw' = map c_tolower (join_words (take n as))"
        using Cons.IH [of kw'] by (auto simp: strcasecmp_eq_0_iff)
      have "take n as \<noteq> []" using n by (cases as) auto
      moreover have "map c_tolower kw = map c_tolower a @ 0x20 # map c_tolower kw'"
        using t arg_cong [OF k, of "map c_tolower"] 2(1) by (simp add: c_tolower_def c_isupper_def)
      ultimately have "map c_tolower kw = map c_tolower (join_words (take (Suc n) (a # as)))"
        using n(3) by (simp add: join_words_Cons c_tolower_def c_isupper_def)
      then show ?thesis using n(2) by (intro exI [of _ "Suc n"]) (simp add: strcasecmp_eq_0_iff)
    qed
  next
    assume "\<exists>n>0. n \<le> length (a # as) \<and> strcasecmp kw (join_words (take n (a # as))) = 0"
    then obtain m where m: "m \<le> length as" "map c_tolower kw = map c_tolower (join_words (a # take m as))"
      by (auto simp: strcasecmp_eq_0_iff gr0_conv_Suc)
    show "cmd_arg_loop kw (a # as)"
    proof (cases "take m as = []")
      case True
      then have e: "map c_tolower kw = map c_tolower a" using m(2) by (simp only: join_words.simps)
      then have "length kw = length a" by (metis length_map)
      then show ?thesis using e by (simp add: Let_def strncasecmp_def strcasecmp_eq_0_iff)
    next
      case False
      then have "map c_tolower kw = map c_tolower a @ 0x20 # map c_tolower (join_words (take m as))"
        using m(2) by (simp add: join_words_Cons c_tolower_def c_isupper_def)
      then obtain c kw' where d: "map c_tolower (take (length a) kw) = map c_tolower a" "drop (length a) kw = c # kw'" "c = 0x20"
        "map c_tolower kw' = map c_tolower (join_words (take m as))"
        using map_eq_append_Cons [of c_tolower kw a] by auto
      have "m > 0" using False by (cases m) auto
      then have "cmd_arg_loop kw' as" using Cons.IH [of kw'] m(1) d(4) by (auto simp: strcasecmp_eq_0_iff)
      then show ?thesis using d by (simp add: Let_def strncasecmp_def strcasecmp_eq_0_iff)
    qed
  qed
qed

section \<open>Capabilities and disabled words\<close>

lemma foldl_add_command: "foldl dicod_add_command cmds cs = cmds @ cs"
  by (induction cs arbitrary: cmds) (simp_all add: dicod_add_command_def)

definition capa_commands :: "'s dicod_capa list \<Rightarrow> dicod_command list" where
  "capa_commands cps = concat (map (\<lambda>cp. case capa_cmd cp of None \<Rightarrow> [] | Some cs \<Rightarrow> cs) (filter capa_enabled cps))"

lemma dicod_capa_flush_eq:
  "\<forall>cp\<in>set cps. capa_enabled cp \<longrightarrow> (case capa_init cp of None \<Rightarrow> True | Some f \<Rightarrow> \<not> f s) \<Longrightarrow>
   dicod_capa_flush s cps cmds = (cmds @ capa_commands cps, 0)"
  by (induction cps arbitrary: cmds) (auto simp: capa_commands_def foldl_add_command split: option.splits)

lemma check_word_run:
  "sc_res (l_iterate check_word l \<lparr>sc_word = w, sc_len = n, sc_res = False\<rparr>) \<longleftrightarrow>
   (\<exists>sp\<in>set l. case sp of stratcl_all \<Rightarrow> True | stratcl_word v \<Rightarrow> v = w | stratcl_length op len \<Rightarrow> check_op op n len)"
proof (induction l)
  case Nil
  then show ?case by simp
next
  case (Cons sp l)
  then show ?case by (cases sp) (auto simp: check_word_def)
qed

section \<open>Properties\<close>

text \<open>
  C12: The expansion of the aliases of a command always ends, never writes outside the new
  vector, and gives the command that repeated rewriting of the first word gives, each alias
  being used at most once.
\<close>

theorem alias_expansion_rewrites:
  assumes "\<forall>ap\<in>set table. al_argv ap \<noteq> []"
  shows "\<exists>used argv. command_args (Some table) (kw # args) = Some argv \<and>
    (alias_step table)\<^sup>*\<^sup>* ([], kw # args) (used, argv) \<and> (\<nexists>s. alias_step table (used, argv) s)"
proof -
  obtain used where u: "alias_chain table kw [] = Some used" "set used \<subseteq> set table"
    "(alias_step table)\<^sup>*\<^sup>* ([], kw # args) (used, alias_result used (kw # args))" "\<nexists>s. alias_step table (used, alias_result used (kw # args)) s"
    using alias_chain_steps [OF assms, of "[]" "kw # args" kw args] by (auto simp: alias_result_def)
  have "command_args (Some table) (kw # args) = Some (alias_result used (kw # args))"
  proof (cases "used = []")
    case True
    then show ?thesis using u(1) by (simp add: command_args_def alias_expand_def alias_result_def)
  next
    case False
    have "alias_expand (Some table) (kw # args) =
        Some (Some (length (alias_result used (kw # args)), map Some (alias_result used (kw # args)) @ [None]))"
      using assms u(2) by (intro alias_expand_eq [OF _ u(1) False]) auto
    then show ?thesis by (simp add: command_args_def vec_args_map)
  qed
  with u(3,4) show ?thesis by blast
qed

definition example_aliases :: "alias_entry list" where
  "example_aliases = [\<lparr>al_kw = str ''d'', al_argv = [str ''define'', str ''!'']\<rparr>, \<lparr>al_kw = str ''define'', al_argv = [str ''DEFINE'']\<rparr>]"

theorem alias_expansion_rewrites_witness:
  "command_args (Some example_aliases) [str ''d'', str ''word''] = Some [str ''DEFINE'', str ''!'', str ''word''] \<and>
   (\<exists>used argv. command_args (Some example_aliases) [str ''d'', str ''word''] = Some argv \<and>
     (alias_step example_aliases)\<^sup>*\<^sup>* ([], [str ''d'', str ''word'']) (used, argv) \<and> (\<nexists>s. alias_step example_aliases (used, argv) s))"
proof
  show "command_args (Some example_aliases) [str ''d'', str ''word''] = Some [str ''DEFINE'', str ''!'', str ''word'']"
    by code_simp
  show "\<exists>used argv. command_args (Some example_aliases) [str ''d'', str ''word''] = Some argv \<and>
     (alias_step example_aliases)\<^sup>*\<^sup>* ([], [str ''d'', str ''word'']) (used, argv) \<and> (\<nexists>s. alias_step example_aliases (used, argv) s)"
    by (rule alias_expansion_rewrites) (simp add: example_aliases_def)
qed


definition example_capas :: "bool dicod_capa list" where
  "example_capas = fst (dicod_capa_add
     (dicod_capa_register
       (dicod_capa_register [] (str ''mime'') (Some [cmd ''OPTION MIME'' 2 (Some 2) None ''use MIME headers'' H_mime]) None)
       (str ''auth'') (Some [cmd ''AUTH'' 3 (Some 3) (Some ''user string'') ''provide authentication information'' H_auth]) (Some Not))
     (str ''mime''))"


text \<open>
  A strategy is refused for a word exactly when some statement of its list covers the word.
\<close>

lemma stratcl_check_word_iff:
  "stratcl_check_word l w \<longleftrightarrow>
   (\<exists>ls. l = Some ls \<and> (\<exists>sp\<in>set ls. case sp of stratcl_all \<Rightarrow> True | stratcl_word v \<Rightarrow> v = w | stratcl_length op len \<Rightarrow> check_op op (length w) len))"
  by (simp add: stratcl_check_word_def check_word_run split: option.split)

end
