(* ===== verification/Dico_Acl_Props.thy ===== *)
theory Dico_Acl_Props
  imports Dico_Acl
begin

text \<open>
  What access control lists decide, when the decision is reached, and that configuration
  keeps the store well formed.
\<close>

section \<open>Well-formed stores\<close>

definition acl_refs_ok :: "nat \<Rightarrow> acl_entry \<Rightarrow> bool" where
  "acl_refs_ok n e \<longleftrightarrow> (case ae_acl e of None \<Rightarrow> True | Some p \<Rightarrow> p < n)"

definition acl_key :: "(bytes \<Rightarrow> nat) \<Rightarrow> acl_env \<Rightarrow> nat \<Rightarrow> nat \<times> bytes" where
  "acl_key bucket env p = (bucket (acl_name_at env p), map c_tolower (acl_name_at env p))"

definition acl_wf :: "(bytes \<Rightarrow> nat) \<Rightarrow> acl_env \<Rightarrow> bool" where
  "acl_wf bucket env \<longleftrightarrow>
     (\<forall>p\<in>set (acl_table env). p < length (acls env)) \<and>
     (\<forall>a\<in>set (acls env). \<forall>e\<in>set (acl_list a). acl_refs_ok (length (acls env)) e) \<and>
     distinct (map (acl_key bucket env) (acl_table env))"

lemma lookup_in_table: "dicod_acl_lookup bucket env name = Some p \<Longrightarrow> p \<in> set (acl_table env)"
  by (auto simp: dicod_acl_lookup_def find_Some_iff)

lemma parse_sockaddr_acl: "parse_sockaddr rs e v = Some (e', rc) \<Longrightarrow> ae_acl e' = ae_acl e"
  by (auto simp: parse_sockaddr_def add_sockaddr_def Let_def res_iff
      split: grecs_value.split_asm if_split_asm option.split_asm sum.split_asm)

lemma parse_sockaddrs_acl: "parse_sockaddrs rs e vs = Some (e', rc) \<Longrightarrow> ae_acl e' = ae_acl e"
  by (induction vs arbitrary: e e' rc) (auto simp: res_iff dest!: parse_sockaddr_acl)

lemma parse_from_acl: "parse_from rs e argv = Some (e', rc) \<Longrightarrow> ae_acl e' = ae_acl e"
  by (auto simp: parse_from_def res_iff dest!: parse_sockaddr_acl parse_sockaddrs_acl
      split: list.split_asm grecs_value.split_asm if_split_asm)

lemma parse_sub_acl_acl:
  "parse_sub_acl lookup rs e argv = Some (e', rc) \<Longrightarrow> ae_acl e' = ae_acl e \<or> (\<exists>name. ae_acl e' = lookup name)"
  by (auto simp: parse_sub_acl_def dest!: parse_from_acl split: list.split_asm grecs_value.split_asm if_split_asm option.split_asm) metis

lemma parse_group_acl:
  "parse_group lookup rs e argv = Some (e', rc) \<Longrightarrow> ae_acl e' = ae_acl e \<or> (\<exists>name. ae_acl e' = lookup name)"
  by (auto simp: parse_group_def dest!: parse_sub_acl_acl split: list.split_asm grecs_value.split_asm if_split_asm)

lemma parse_token_acl: "parse_token e s = (e', rc) \<Longrightarrow> ae_acl e' = ae_acl e"
  by (auto simp: parse_token_def split: if_split_asm)

lemma parse_acl_acl:
  "parse_acl lookup rs e argv = Some (e', rc) \<Longrightarrow> ae_acl e' = ae_acl e \<or> (\<exists>name. ae_acl e' = lookup name)"
  by (fastforce simp: parse_acl_def dest!: parse_sub_acl_acl parse_group_acl parse_token_acl
      split: list.split_asm grecs_value.split_asm if_split_asm prod.split_asm)

lemma acl_append_wf:
  assumes "acl_wf bucket env" and "acl_append env p e = Some env'" and "acl_refs_ok (length (acls env)) e"
  shows "acl_wf bucket env'"
proof -
  have p: "p < length (acls env)" and env': "env' = env\<lparr>acls := (acls env)[p := (acls env ! p)\<lparr>acl_list := acl_list (acls env ! p) @ [e]\<rparr>]\<rparr>"
    using assms(2) by (auto simp: acl_append_def split: if_split_asm)
  have "acl_name_at env' q = acl_name_at env q" for q
    by (cases "q = p"; cases "q < length (acls env)") (auto simp: acl_name_at_def env' list_update_beyond nth_list_update)
  moreover have "\<forall>a\<in>set (acls env'). \<forall>e\<in>set (acl_list a). acl_refs_ok (length (acls env)) e"
  proof (intro ballI)
    fix a x
    assume "a \<in> set (acls env')" and x: "x \<in> set (acl_list a)"
    then have "a = (acls env ! p)\<lparr>acl_list := acl_list (acls env ! p) @ [e]\<rparr> \<or> a \<in> set (acls env)"
      using set_update_subset_insert [of "acls env" p] by (auto simp: env')
    then show "acl_refs_ok (length (acls env)) x"
      using assms(1,3) x nth_mem [OF p] by (auto simp: acl_wf_def)
  qed
  ultimately show ?thesis using assms(1) by (simp add: acl_wf_def acl_key_def [abs_def] env')
qed

lemma parse_acl_line_wf:
  assumes "acl_wf bucket env" and "parse_acl_line bucket rs env allow p v = Some (env', rc)"
  shows "acl_wf bucket env'"
proof -
  obtain e rc1 where e: "(case v of GRECS_STRING s \<Rightarrow> Some (parse_token (new_entry allow) s)
        | GRECS_ARRAY argv \<Rightarrow> parse_acl (dicod_acl_lookup bucket env) rs (new_entry allow) argv
        | GRECS_LIST _ \<Rightarrow> Some (new_entry allow, 1)) = Some (e, rc1)"
    "if rc1 \<noteq> 0 then env' = env else acl_append env p e = Some env'"
    using assms(2) by (auto simp: parse_acl_line_def res_iff split: if_split_asm)
  have "ae_acl e = None \<or> (\<exists>name. ae_acl e = dicod_acl_lookup bucket env name)"
  proof (cases v)
    case (GRECS_STRING s)
    then have "parse_token (new_entry allow) s = (e, rc1)" using e(1) by simp
    from parse_token_acl [OF this] show ?thesis by (simp add: new_entry_def)
  next
    case (GRECS_ARRAY argv)
    then have "parse_acl (dicod_acl_lookup bucket env) rs (new_entry allow) argv = Some (e, rc1)" using e(1) by simp
    from parse_acl_acl [OF this] show ?thesis by (simp add: new_entry_def)
  qed (use e(1) in \<open>auto simp: new_entry_def\<close>)
  then have "acl_refs_ok (length (acls env)) e"
    using assms(1) lookup_in_table [of bucket env] by (auto simp: acl_refs_ok_def acl_wf_def split: option.split)
  with e(2) acl_append_wf [OF assms(1)] assms(1) show ?thesis by (auto split: if_split_asm)
qed

lemma acl_create_wf:
  assumes "acl_wf bucket env"
  shows "acl_wf bucket (fst (dicod_acl_create env name))"
proof -
  have "p \<in> set (acl_table env) \<Longrightarrow> acl_key bucket (fst (dicod_acl_create env name)) p = acl_key bucket env p" for p
    using assms by (auto simp: acl_key_def acl_name_at_def dicod_acl_create_def acl_wf_def nth_append)
  then have "map (acl_key bucket (fst (dicod_acl_create env name))) (acl_table env) = map (acl_key bucket env) (acl_table env)"
    by simp
  then have "distinct (map (acl_key bucket (fst (dicod_acl_create env name))) (acl_table env))"
    using assms by (simp only: acl_wf_def)
  moreover have "acl_refs_ok (length (acls env)) e \<Longrightarrow> acl_refs_ok (Suc (length (acls env))) e" for e
    by (auto simp: acl_refs_ok_def split: option.split)
  ultimately show ?thesis
    using assms unfolding acl_wf_def by (auto simp: dicod_acl_create_def less_Suc_eq)
qed

lemma acl_install_wf:
  assumes "acl_wf bucket env" and "p < length (acls env)"
  shows "acl_wf bucket (fst (dicod_acl_install bucket env p))"
proof (cases "dicod_acl_lookup bucket env (acl_name_at env p)")
  case None
  then have "acl_key bucket env p \<notin> acl_key bucket env ` set (acl_table env)"
    by (auto simp: acl_key_def dicod_acl_lookup_def find_None_iff acl_compare_def strcasecmp_eq_0_iff)
  moreover have "acl_key bucket (env\<lparr>acl_table := t\<rparr>) = acl_key bucket env" for t by (auto simp: acl_key_def acl_name_at_def)
  ultimately show ?thesis using None assms by (auto simp: acl_wf_def dicod_acl_install_def)
next
  case (Some q)
  with assms(1) show ?thesis by (simp add: dicod_acl_install_def)
qed

lemma acl_begin_wf: "acl_wf bucket env \<Longrightarrow> acl_wf bucket (fst (acl_cb_begin bucket env v))"
proof (cases v)
  case (GRECS_STRING s)
  assume "acl_wf bucket env"
  from acl_install_wf [OF acl_create_wf [OF this, of s], of "length (acls env)"] show ?thesis
    using GRECS_STRING by (auto simp: acl_cb_begin_def dicod_acl_create_def split: prod.split)
qed (simp_all add: acl_cb_begin_def)

text \<open>The stores the configuration file can build.\<close>

inductive acl_reach :: "(bytes \<Rightarrow> nat) \<Rightarrow> resolver \<Rightarrow> acl_env \<Rightarrow> bool" for bucket rs where
  acl_init: "acl_reach bucket rs \<lparr>acls = [], acl_table = []\<rparr>"
| acl_begin: "acl_reach bucket rs env \<Longrightarrow> acl_reach bucket rs (fst (acl_cb_begin bucket env v))"
| acl_allow: "acl_reach bucket rs env \<Longrightarrow> allow_cb bucket rs env p v = Some env' \<Longrightarrow> acl_reach bucket rs env'"
| acl_deny: "acl_reach bucket rs env \<Longrightarrow> deny_cb bucket rs env p v = Some env' \<Longrightarrow> acl_reach bucket rs env'"

lemma acl_reach_wf: "acl_reach bucket rs env \<Longrightarrow> acl_wf bucket env"
proof (induction rule: acl_reach.induct)
  case acl_init
  show ?case by (simp add: acl_wf_def)
qed (auto simp: allow_cb_def deny_cb_def res_iff intro: acl_begin_wf parse_acl_line_wf)

section \<open>Decisions\<close>

text \<open>No list refers to itself, directly or through others.\<close>

definition acl_ranked :: "(nat \<Rightarrow> nat) \<Rightarrow> acl_env \<Rightarrow> bool" where
  "acl_ranked rank env \<longleftrightarrow>
     (\<forall>p<length (acls env). \<forall>e\<in>set (acl_list (acls env ! p)).
        case ae_acl e of None \<Rightarrow> True | Some q \<Rightarrow> q < length (acls env) \<and> rank q < rank p)"

text \<open>The reference: an entry matches, and the first entry that does decides.\<close>

definition acl_matches :: "acl_env \<Rightarrow> client \<Rightarrow> acl_entry \<Rightarrow> bool" where
  "acl_matches env c e \<longleftrightarrow>
     acl_user_ok c e \<and> (ae_acl e = None \<or> dicod_acl_check env c (ae_acl e) True = Some True) \<and> acl_addr_ok c e"

definition acl_decision :: "acl_env \<Rightarrow> client \<Rightarrow> acl_entry list \<Rightarrow> bool \<Rightarrow> bool" where
  "acl_decision env c es result = (case find (acl_matches env c) es of Some e \<Rightarrow> ae_allow e | None \<Rightarrow> result)"

lemma acl_check_loop_simps:
  "acl_check_loop env c [] r = Some r"
  "acl_check_loop env c (e # es) r = do {
     m \<leftarrow> (if \<not> acl_user_ok c e then Some False
          else do { sub \<leftarrow> dicod_acl_check env c (ae_acl e) True; Some (sub \<and> acl_addr_ok c e) });
     (if m then Some (ae_allow e) else acl_check_loop env c es r) }"
  by (simp_all add: acl_check_loop.simps [of env c "_ # _"] acl_check_loop.simps [of env c "[]"] dicod_acl_check_def split: option.split)

lemma acl_loop_decides:
  "(\<And>e. e \<in> set es \<Longrightarrow> \<exists>b. dicod_acl_check env c (ae_acl e) True = Some b) \<Longrightarrow>
   acl_check_loop env c es r = Some (acl_decision env c es r)"
proof (induction es)
  case Nil
  show ?case by (simp add: acl_check_loop_simps acl_decision_def)
next
  case (Cons e es)
  obtain b where b: "dicod_acl_check env c (ae_acl e) True = Some b" using Cons.prems [of e] by auto
  have IH: "acl_check_loop env c es r = Some (acl_decision env c es r)" using Cons.IH Cons.prems by simp
  have "ae_acl e = None \<longrightarrow> b" using b by (auto simp: dicod_acl_check_def)
  with b IH show ?case by (auto simp: acl_check_loop_simps acl_decision_def acl_matches_def)
qed

lemma acl_check_decides:
  assumes "acl_ranked rank env"
  shows "p < length (acls env) \<Longrightarrow>
    dicod_acl_check env c (Some p) r = Some (acl_decision env c (acl_list (acls env ! p)) r)"
proof (induction "rank p" arbitrary: p r rule: less_induct)
  case less
  have "\<exists>b. dicod_acl_check env c (ae_acl e) True = Some b" if e: "e \<in> set (acl_list (acls env ! p))" for e
  proof (cases "ae_acl e")
    case None
    then show ?thesis by (auto simp: dicod_acl_check_def)
  next
    case (Some q)
    then have "q < length (acls env)" "rank q < rank p"
      using assms e less.prems by (auto simp: acl_ranked_def split: option.split_asm)
    from less.hyps [OF this(2,1), of True] Some show ?thesis by simp
  qed
  from acl_loop_decides [of "acl_list (acls env ! p)" env c r, OF this] less.prems show ?case by (simp add: dicod_acl_check_def)
qed

lemma acl_self_reference_diverges:
  assumes "p < length (acls env)" and "acl_list (acls env ! p) = e # es" and "ae_acl e = Some p" and "acl_user_ok c e"
  shows "acl_check_loop env c (e # es) r = None"
proof -
  have "acl_check_loop env' c' es' r = Some y \<Longrightarrow> \<not> (env' = env \<and> c' = c \<and> es' = e # es)" for env' c' es' r y
  proof (induction rule: acl_check_loop.raw_induct [rotated, consumes 1])
    case (1 f env' c' es' r y)
    show ?case
    proof
      assume "env' = env \<and> c' = c \<and> es' = e # es"
      with 1(2) assms obtain x where "f env c (e # es) True = Some x" by (auto simp: res_iff)
      with 1(1) [of env c "e # es" True x] show False by blast
    qed
  qed
  from this [of env c "e # es" r] show ?thesis by (cases "acl_check_loop env c (e # es) r") blast+
qed

section \<open>Network masks\<close>

lemma cidr_netmask_table:
  "\<forall>n\<in>set [0..<33]. \<exists>m\<in>set_option (cidr_netmask (of_nat n)). \<forall>i\<in>set [0..<32]. bit m i \<longleftrightarrow> 32 - n \<le> i"
  by code_simp

lemma cidr_netmask_bits:
  assumes "n \<le> 32"
  shows "\<exists>m. cidr_netmask (of_nat n) = Some m \<and> (\<forall>i. bit m i \<longleftrightarrow> 32 - n \<le> i \<and> i < 32)"
proof -
  have "n \<in> set [0..<33]" using assms by simp
  from bspec [OF cidr_netmask_table this] obtain m where
    "cidr_netmask (of_nat n) = Some m" "\<forall>i\<in>set [0..<32]. bit m i \<longleftrightarrow> 32 - n \<le> i" by auto
  moreover have "bit m i \<Longrightarrow> i < 32" for i using bit_imp_le_length [of m i] by simp
  ultimately show ?thesis by auto
qed

section \<open>Properties\<close>



text \<open>
  C39: When no list refers to itself through the lists its entries name,
  \<^verbatim>\<open>dicod_acl_check\<close> returns, and the first entry whose conditions on the user, the groups,
  the list it names and the address all hold decides; the default counts when there is none.
\<close>

theorem dicod_acl_check_first_match:
  assumes "acl_ranked rank env" and "p < length (acls env)"
  shows "dicod_acl_check env c (Some p) r = Some (acl_decision env c (acl_list (acls env ! p)) r)"
  by (rule acl_check_decides [OF assms])

definition example_acls :: acl_env where
  "example_acls = the (allow_cb (\<lambda>_. 0) \<lparr>inet_aton = (\<lambda>_. None), gethostbyname = (\<lambda>_. None)\<rparr>
     (fst (acl_cb_begin (\<lambda>_. 0) \<lparr>acls = [], acl_table = []\<rparr> (GRECS_STRING (str ''lan'')))) 0 (GRECS_STRING (str ''auth'')))"

theorem dicod_acl_check_first_match_witness:
  "dicod_acl_check example_acls \<lparr>user_name = None, user_groups = [], client_addr = AF_INET 0, client_addrlen = 16\<rparr> (Some 0) False = Some False \<and>
   dicod_acl_check example_acls \<lparr>user_name = Some (str ''u''), user_groups = [], client_addr = AF_INET 0, client_addrlen = 16\<rparr> (Some 0) False = Some True"
proof -
  let ?rs = "\<lparr>inet_aton = (\<lambda>_. None), gethostbyname = (\<lambda>_. None)\<rparr>"
  let ?e0 = "fst (acl_cb_begin (\<lambda>_. 0) \<lparr>acls = [], acl_table = []\<rparr> (GRECS_STRING (str ''lan'')))"
  have ex: "allow_cb (\<lambda>_. 0) ?rs ?e0 0 (GRECS_STRING (str ''auth'')) = Some example_acls"
    by (simp add: example_acls_def allow_cb_def parse_acl_line_def acl_append_def parse_token_def acl_cb_begin_def dicod_acl_create_def
        dicod_acl_install_def dicod_acl_lookup_def)
  have v: "acls example_acls = [\<lparr>acl_name = str ''lan'', acl_list = [\<lparr>ae_allow = True, ae_authenticated = True, ae_dflt = False,
      ae_acl = None, ae_groups = None, ae_sockaddrs = None\<rparr>]\<rparr>]"
    by (simp add: example_acls_def allow_cb_def parse_acl_line_def acl_append_def parse_token_def acl_cb_begin_def dicod_acl_create_def
        dicod_acl_install_def dicod_acl_lookup_def new_entry_def)
  from v dicod_acl_check_first_match [of "\<lambda>_. 0" example_acls 0 _ False] show ?thesis
    by (simp add: acl_ranked_def acl_decision_def acl_matches_def acl_user_ok_def acl_addr_ok_def)
qed

text \<open>
  The length of a network prefix in an address gives the mask of that many leading ones;
  an entry with an address that has bits outside its mask matches no client at all.
\<close>

theorem netmask_matches:
  assumes "n \<le> 32"
  shows "\<exists>m. cidr_netmask (of_nat n) = Some m \<and> (\<forall>i. bit m i \<longleftrightarrow> 32 - n \<le> i \<and> i < 32) \<and>
    (\<forall>c a k. client_addr c = AF_INET k \<longrightarrow>
       (check_sockaddr c (create_acl_sockaddr (AF_INET a) m) \<longleftrightarrow>
          (\<forall>i<32. bit a i \<longleftrightarrow> 32 - n \<le> i \<and> bit (ntohl k) i)))"
proof -
  obtain m where m: "cidr_netmask (of_nat n) = Some m" "\<forall>i. bit m i \<longleftrightarrow> 32 - n \<le> i \<and> i < 32" using cidr_netmask_bits [OF assms] by blast
  have "a = (x AND m) \<longleftrightarrow> (\<forall>i<32. bit a i \<longleftrightarrow> 32 - n \<le> i \<and> bit x i)" for a x :: "32 word"
  proof -
    have "a = (x AND m) \<longleftrightarrow> (\<forall>i<32. bit a i \<longleftrightarrow> bit (x AND m) i)" by (auto intro: bit_word_eqI)
    with m(2) show ?thesis by (auto simp: bit_and_iff)
  qed
  with m show ?thesis by (auto simp: check_sockaddr_def create_acl_sockaddr_def)
qed

theorem netmask_matches_witness:
  "\<exists>m. cidr_netmask 8 = Some m \<and>
    (\<forall>c. client_addr c = AF_INET (ntohl 0x0a000001) \<longrightarrow> \<not> check_sockaddr c (create_acl_sockaddr (AF_INET 0x0a000001) m))"
proof -
  have "bit (0x0a000001 :: 32 word) 0" by simp
  with netmask_matches [of 8] show ?thesis by fastforce
qed

text \<open>
  A list that names itself, which the configuration accepts because a list is installed when
  its block begins, makes every check of it recurse without end.
\<close>

theorem acl_naming_itself_diverges:
  "\<exists>env. allow_cb (\<lambda>_. 0) rs (fst (acl_cb_begin (\<lambda>_. 0) \<lparr>acls = [], acl_table = []\<rparr> (GRECS_STRING (str ''lan'')))) 0
      (GRECS_ARRAY [GRECS_STRING (str ''all''), GRECS_STRING (str ''acl''), GRECS_STRING (str ''lan'')]) = Some env \<and>
    (\<forall>c. dicod_acl_check env c (Some 0) True = None)"
proof -
  let ?e = "(new_entry True)\<lparr>ae_acl := Some 0\<rparr>"
  let ?env = "\<lparr>acls = [\<lparr>acl_name = str ''lan'', acl_list = [?e]\<rparr>], acl_table = [0]\<rparr>"
  have "allow_cb (\<lambda>_. 0) rs (fst (acl_cb_begin (\<lambda>_. 0) \<lparr>acls = [], acl_table = []\<rparr> (GRECS_STRING (str ''lan'')))) 0
      (GRECS_ARRAY [GRECS_STRING (str ''all''), GRECS_STRING (str ''acl''), GRECS_STRING (str ''lan'')]) = Some ?env"
    by (simp add: allow_cb_def parse_acl_line_def acl_append_def parse_acl_def parse_token_def parse_sub_acl_def parse_from_def
        acl_cb_begin_def dicod_acl_create_def dicod_acl_install_def dicod_acl_lookup_def acl_compare_def acl_name_at_def)
  moreover have "dicod_acl_check ?env c (Some 0) True = None" for c
    using acl_self_reference_diverges [of 0 ?env ?e "[]" c True]
    by (simp add: dicod_acl_check_def acl_user_ok_def new_entry_def)
  ultimately show ?thesis by blast
qed

end
