(* ===== verification/Dico_Server_Props.thy ===== *)
theory Dico_Server_Props
  imports Dico_Server Dico_Dispatch_Props Dico_Acl_Props
begin

text \<open>
  Which databases a client can see, and that it learns nothing about the others; what the
  handlers do to the state of the session.
\<close>

section \<open>Visibility\<close>

lemma languages_keep [simp]:
  "db_name (fst (dicod_get_database_languages db)) = db_name db"
  "db_acl (fst (dicod_get_database_languages db)) = db_acl db"
  "db_visible (fst (dicod_get_database_languages db)) = db_visible db"
  "db_lang_known (fst (dicod_get_database_languages db))"
  "db_langlist (fst (dicod_get_database_languages db)) = snd (dicod_get_database_languages db)"
  by (auto simp: dicod_get_database_languages_def Let_def split: option.split prod.split)

lemma languages_idem [simp]:
  "dicod_get_database_languages (fst (dicod_get_database_languages db)) = dicod_get_database_languages db"
proof -
  have "dicod_get_database_languages d = (d, db_langlist d)" if "db_lang_known d" for d :: "('a, 'b, 'c) dicod_database"
    using that by (simp add: dicod_get_database_languages_def)
  from this [OF languages_keep(4), of db] show ?thesis by (simp add: prod_eq_iff)
qed

text \<open>The languages of a database do not change once the server has asked for them.\<close>

definition lang_visible :: "lang_prefs \<Rightarrow> ('h, 'r, 'f) dicod_database \<Rightarrow> bool" where
  "lang_visible prefs db = dicod_lang_check prefs (snd (dicod_get_database_languages db))"

definition db_checked :: "bool \<Rightarrow> lang_prefs \<Rightarrow> ('h, 'r, 'f) dicod_database \<Rightarrow> ('h, 'r, 'f) dicod_database" where
  "db_checked ok prefs db =
     (if ok then (fst (dicod_get_database_languages db))\<lparr>db_visible := lang_visible prefs db\<rparr> else db\<lparr>db_visible := False\<rparr>)"

lemma visibility_loop_ok:
  assumes "\<And>db. db \<in> set dbs \<Longrightarrow> dicod_acl_check env c (db_acl db) global = Some (f db)"
  shows "visibility_loop env c prefs global dbs = Some (map (\<lambda>db. db_checked (f db) prefs db) dbs)"
  using assms by (induction dbs) (auto simp: db_checked_def lang_visible_def split: prod.split)

lemma visibility_loop_None:
  "visibility_loop env c prefs global dbs = Some dbs' \<Longrightarrow> db \<in> set dbs \<Longrightarrow> dicod_acl_check env c (db_acl db) global \<noteq> None"
  by (induction dbs arbitrary: dbs') (auto simp: res_iff)

lemma visibility_loop_filter:
  assumes "visibility_loop env c prefs global dbs = Some dbs'"
  shows "\<exists>dbs''. visibility_loop env c prefs global (filter P dbs) = Some dbs''"
proof -
  have "dicod_acl_check env c (db_acl db) global = Some (the (dicod_acl_check env c (db_acl db) global))" if "db \<in> set dbs" for db
    using visibility_loop_None [OF assms that] by auto
  then show ?thesis using visibility_loop_ok [of "filter P dbs" env c global "\<lambda>db. the (dicod_acl_check env c (db_acl db) global)" prefs] by auto
qed

section \<open>Hidden databases\<close>

definition hide :: "('h, 'r, 'f) dicod \<Rightarrow> ('h, 'r, 'f) dicod" where
  "hide s = s\<lparr>database_list := filter db_visible (database_list s)\<rparr>"

lemma hide_fields [simp]:
  "database_list (hide s) = filter db_visible (database_list s)"
  "strategy_list (hide s) = strategy_list s" "default_strategy (hide s) = default_strategy s" "stratcls (hide s) = stratcls s"
  "command_list (hide s) = command_list s" "alias_table (hide s) = alias_table s" "lang_preferences (hide s) = lang_preferences s"
  "acl_lists (hide s) = acl_lists s" "global_acl (hide s) = global_acl s" "show_sys_info (hide s) = show_sys_info s"
  "clnt (hide s) = clnt s" "client_id (hide s) = client_id s" "userdb (hide s) = userdb s" "timing_option (hide s) = timing_option s"
  "current_stat (hide s) = current_stat s" "total_stat (hide s) = total_stat s" "levenshtein_distance (hide s) = levenshtein_distance s"
  "dico_markup_type (hide s) = dico_markup_type s" "dico_markup_list (hide s) = dico_markup_list s" "help_text (hide s) = help_text s"
  "server_info (hide s) = server_info s" "hostname (hide s) = hostname s" "program_version (hide s) = program_version s"
  "inactivity_timeout (hide s) = inactivity_timeout s" "daemon_forks (hide s) = daemon_forks s" "msg_id (hide s) = msg_id s"
  by (simp_all add: hide_def)

lemma hide_update [simp]:
  "(hide s)\<lparr>current_stat := x\<rparr> = hide (s\<lparr>current_stat := x\<rparr>)"
  "(hide s)\<lparr>got_quit := b\<rparr> = hide (s\<lparr>got_quit := b\<rparr>)"
  "(hide s)\<lparr>client_id := i\<rparr> = hide (s\<lparr>client_id := i\<rparr>)"
  "(hide s)\<lparr>option_mime := b\<rparr> = hide (s\<lparr>option_mime := b\<rparr>)"
  "(hide s)\<lparr>dico_markup_type := t\<rparr> = hide (s\<lparr>dico_markup_type := t\<rparr>)"
  "(hide s)\<lparr>levenshtein_distance := n\<rparr> = hide (s\<lparr>levenshtein_distance := n\<rparr>)"
  "(hide s)\<lparr>lang_preferences := p\<rparr> = hide (s\<lparr>lang_preferences := p\<rparr>)"
  "(hide s)\<lparr>clnt := c\<rparr> = hide (s\<lparr>clnt := c\<rparr>)"
  by (simp_all add: hide_def)

lemma hide_stats [simp]: "clear_stats (hide s) = hide (clear_stats s)" "begin_timing (hide s) = hide (begin_timing s)"
  by (simp_all add: clear_stats_def begin_timing_def hide_def)

lemma clear_stats_fields [simp]:
  "database_list (clear_stats s) = database_list s" "database_list (begin_timing s) = database_list s"
  by (simp_all add: clear_stats_def begin_timing_def)

lemma hide_timing [simp]: "report_current_timing w name (hide s) = map_prod hide id (report_current_timing w name s)"
  by (simp add: report_current_timing_def)

lemma find_database_visible [simp]: "find_database (filter db_visible dbs) name = find_database dbs name"
  by (induction dbs) (auto simp: find_database_def cmp_database_name_def Let_def)

lemma database_count_eq: "database_count dbs = length (filter db_visible dbs)"
proof -
  have "l_iterate count_databases dbs n = n + length (filter db_visible dbs)" for n
    by (induction dbs arbitrary: n) (auto simp: count_databases_def)
  then show ?thesis by (simp add: database_count_def)
qed

lemma database_count_visible [simp]: "database_count (filter db_visible dbs) = database_count dbs"
  by (simp add: database_count_eq)

lemma database_iterate_visible:
  assumes "\<And>db s. db_visible (fst (f db s)) = db_visible db"
  shows "database_iterate f (filter db_visible dbs) s = map_prod (filter db_visible) id (database_iterate f dbs s)"
proof (induction dbs arbitrary: s)
  case Nil
  then show ?case by simp
next
  case (Cons db dbs)
  show ?case
  proof (cases "db_visible db")
    case True
    obtain db' s' where f: "f db s = (db', s')" by fastforce
    then have "db_visible db'" using assms [of db s] True by simp
    with f True Cons.IH [of s'] show ?thesis by (auto split: prod.split)
  next
    case False
    then show ?thesis using Cons.IH [of s] by (auto split: prod.split)
  qed
qed

lemma first_result_visible [simp]: "first_result (filter db_visible dbs) strat word = first_result dbs strat word"
  by (induction dbs) (auto split: option.split simp: Let_def)

lemma all_results_visible [simp]: "all_results (filter db_visible dbs) strat word st = all_results dbs strat word st"
  by (induction dbs arbitrary: st) (auto split: option.split simp: Let_def)

lemma strat_denied_hide [simp]: "strat_denied (hide s) = strat_denied s"
  by (rule ext)+ (simp add: strat_denied_def split: option.split)

lemma strategy_find_hide [simp]: "strategy_find (hide s) = strategy_find s"
  by (rule ext) (simp add: strategy_find_def)

lemma word_first_hide [simp]:
  "dicod_word_first w (hide s) word strat bf em proc tid = map_prod hide id (dicod_word_first w s word strat bf em proc tid)"
  by (simp add: dicod_word_first_def Let_def split: option.split prod.split)

lemma word_all_hide [simp]:
  "dicod_word_all w (hide s) word strat bf em proc tid = map_prod hide id (dicod_word_all w s word strat bf em proc tid)"
  by (simp add: dicod_word_all_def Let_def split: prod.split del: sum_list_eq_0_iff)

lemma match_word_hide [simp]:
  "dicod_match_word_db w (hide s) db strat word = map_prod hide id (dicod_match_word_db w s db strat word)"
  "dicod_match_word_first w (hide s) strat word = map_prod hide id (dicod_match_word_first w s strat word)"
  "dicod_match_word_all w (hide s) strat word = map_prod hide id (dicod_match_word_all w s strat word)"
  by (simp_all add: dicod_match_word_db_def dicod_match_word_first_def dicod_match_word_all_def Let_def split: option.split prod.split)

lemma define_word_hide [simp]:
  "dicod_define_word_db w (hide s) db word = map_prod hide id (dicod_define_word_db w s db word)"
  "dicod_define_word_first w (hide s) word = map_prod hide id (dicod_define_word_first w s word)"
  "dicod_define_word_all w (hide s) word = map_prod hide id (dicod_define_word_all w s word)"
  by (simp_all add: dicod_define_word_db_def dicod_define_word_first_def dicod_define_word_all_def Let_def split: option.split prod.split)

lemma update_first_visible:
  assumes "\<And>db. db_visible (f db) = db_visible db" and "\<And>db. P db \<Longrightarrow> db_visible db"
  shows "update_first P f (filter db_visible dbs) = filter db_visible (update_first P f dbs)"
  using assms by (induction dbs) auto

lemma recheck_hide:
  assumes "recheck_visibility s = Some s'"
  shows "\<exists>s''. recheck_visibility (hide s) = Some s''"
proof -
  obtain g dbs where "dicod_acl_check (acl_lists s) (clnt s) (global_acl s) True = Some g"
    "visibility_loop (acl_lists s) (clnt s) (lang_preferences s) g (database_list s) = Some dbs"
    using assms by (auto simp: recheck_visibility_def check_db_visibility_def res_iff)
  with visibility_loop_filter [OF this(2), of db_visible] show ?thesis
    by (auto simp: recheck_visibility_def check_db_visibility_def)
qed

text \<open>
  The handlers other than those that check the visibility again do the same on the visible
  part; those two write the same.
\<close>

definition rechecks :: "handler \<Rightarrow> bool" where
  "rechecks h \<longleftrightarrow> h = H_lang \<or> h = H_auth"

lemma map_option_into_bind: "map_option f (Option.bind m g) = Option.bind m (\<lambda>x. map_option f (g x))"
  by (cases m) auto

lemma search_handlers_hide:
  "dicod_match w (hide s) argv = map_option (map_prod hide id) (dicod_match w s argv)"
  "dicod_define w (hide s) argv = map_option (map_prod hide id) (dicod_define w s argv)"
  by (simp_all add: dicod_match_def dicod_define_def Let_def split: option.split)

lemma show_handlers_hide:
  "dicod_show_databases w (hide s) argv = map_option (map_prod hide id) (dicod_show_databases w s argv)"
  "dicod_show_info w (hide s) argv = map_option (map_prod hide id) (dicod_show_info w s argv)"
  "dicod_show_strategies w (hide s) argv = map_option (map_prod hide id) (dicod_show_strategies w s argv)"
  "dicod_show_server w (hide s) argv = map_option (map_prod hide id) (dicod_show_server w s argv)"
proof -
  have "database_iterate show_database (filter db_visible (database_list s)) x =
      map_prod (filter db_visible) id (database_iterate show_database (database_list s) x)" for x
    by (rule database_iterate_visible) (simp add: show_database_def)
  then show "dicod_show_databases w (hide s) argv = map_option (map_prod hide id) (dicod_show_databases w s argv)"
    by (auto simp: dicod_show_databases_def Let_def hide_def map_option_into_bind split: prod.split option.split)
  show "dicod_show_info w (hide s) argv = map_option (map_prod hide id) (dicod_show_info w s argv)"
    by (simp add: dicod_show_info_def split: option.split)
  show "dicod_show_strategies w (hide s) argv = map_option (map_prod hide id) (dicod_show_strategies w s argv)"
    by (simp add: dicod_show_strategies_def Let_def)
  show "dicod_show_server w (hide s) argv = map_option (map_prod hide id) (dicod_show_server w s argv)"
    by (cases "show_sys_info_p (acl_lists s) (clnt s) (show_sys_info s)") (simp_all add: dicod_show_server_def)
qed

lemma lang_handlers_hide:
  "dicod_show_lang_db w (hide s) argv = map_option (map_prod hide id) (dicod_show_lang_db w s argv)"
  "dicod_show_lang_info w (hide s) argv = map_option (map_prod hide id) (dicod_show_lang_info w s argv)"
  "dicod_show_lang_pref w (hide s) argv = map_option (map_prod hide id) (dicod_show_lang_pref w s argv)"
proof -
  have "database_iterate show_database_lang (filter db_visible (database_list s)) x =
      map_prod (filter db_visible) id (database_iterate show_database_lang (database_list s) x)" for x
    by (rule database_iterate_visible) (simp add: show_database_lang_def case_prod_beta)
  then show "dicod_show_lang_db w (hide s) argv = map_option (map_prod hide id) (dicod_show_lang_db w s argv)"
    by (auto simp: dicod_show_lang_db_def Let_def hide_def split: prod.split)
  have "update_first (\<lambda>db. cmp_database_name db n = 0) (\<lambda>db. fst (dicod_get_database_languages db)) (filter db_visible (database_list s)) =
      filter db_visible (update_first (\<lambda>db. cmp_database_name db n = 0) (\<lambda>db. fst (dicod_get_database_languages db)) (database_list s))" for n
    by (rule update_first_visible) (auto simp: cmp_database_name_def Let_def split: if_split_asm)
  then show "dicod_show_lang_info w (hide s) argv = map_option (map_prod hide id) (dicod_show_lang_info w s argv)"
    by (auto simp: dicod_show_lang_info_def hide_def split: option.split)
  show "dicod_show_lang_pref w (hide s) argv = map_option (map_prod hide id) (dicod_show_lang_pref w s argv)"
    by (simp add: dicod_show_lang_pref_def split: option.split)
qed

lemma other_handlers_hide:
  "dicod_client w (hide s) argv = map_option (map_prod hide id) (dicod_client w s argv)"
  "dicod_status w (hide s) argv = map_option (map_prod hide id) (dicod_status w s argv)"
  "dicod_help w (hide s) argv = map_option (map_prod hide id) (dicod_help w s argv)"
  "dicod_quit w (hide s) argv = map_option (map_prod hide id) (dicod_quit w s argv)"
  "dicod_mime w (hide s) argv = map_option (map_prod hide id) (dicod_mime w s argv)"
  "dicod_markup w (hide s) argv = map_option (map_prod hide id) (dicod_markup w s argv)"
  "dicod_xlevdist w (hide s) argv = map_option (map_prod hide id) (dicod_xlevdist w s argv)"
  "dicod_xidle w (hide s) argv = map_option (map_prod hide id) (dicod_xidle w s argv)"
  "dicod_xversion w (hide s) argv = map_option (map_prod hide id) (dicod_xversion w s argv)"
  by (simp_all add: dicod_client_def map_option_into_bind dicod_status_def dicod_help_def dicod_show_std_help_def dicod_quit_def dicod_mime_def dicod_markup_def
    dicod_xlevdist_def dicod_xidle_def dicod_xversion_def Let_def split: option.split prod.split)

lemma run_handler_hide: "\<not> rechecks h \<Longrightarrow> run_handler h w (hide s) argv = map_option (map_prod hide id) (run_handler h w s argv)"
  by (cases h) (simp_all add: run_handler_def rechecks_def search_handlers_hide show_handlers_hide lang_handlers_hide other_handlers_hide)

lemma auth_hide: "auth w (hide s) u p = map_prod hide id (auth w s u p)"
  by (simp add: auth_def verify_apop_def Let_def split: option.split prod.split)

lemma recheck_handlers_hide:
  "dicod_lang w s argv = Some (s', as) \<Longrightarrow> \<exists>t. dicod_lang w (hide s) argv = Some (t, as)"
  "dicod_auth w s argv = Some (s', as) \<Longrightarrow> \<exists>t. dicod_auth w (hide s) argv = Some (t, as)"
proof -
  assume "dicod_lang w s argv = Some (s', as)"
  then show "\<exists>t. dicod_lang w (hide s) argv = Some (t, as)"
    using recheck_hide [of "s\<lparr>lang_preferences := set_lang_prefs argv\<rparr>"] by (auto simp: dicod_lang_def res_iff)
next
  assume a: "dicod_auth w s argv = Some (s', as)"
  obtain s1 rc where s1: "auth w s (argv ! 1) (argv ! 2) = (s1, rc)" by fastforce
  show "\<exists>t. dicod_auth w (hide s) argv = Some (t, as)"
  proof (cases "rc = 0")
    case True
    with a s1 recheck_hide [of s1] show ?thesis by (auto simp: dicod_auth_def auth_hide res_iff)
  next
    case False
    with a s1 show ?thesis by (simp add: dicod_auth_def auth_hide)
  qed
qed

lemma handle_command_hide:
  assumes "dicod_handle_command w s argv = Some (s', as)"
  shows "\<exists>t. dicod_handle_command w (hide s) argv = Some (t, as)"
proof -
  obtain v where v: "command_args (alias_table s) argv = Some v" using assms by (auto simp: dicod_handle_command_def res_iff)
  show ?thesis
  proof (cases "dispatch_command (command_list s) v")
    case (Run h v')
    then have r: "run_handler h w s v' = Some (s', as)" using assms v by (simp add: dicod_handle_command_def)
    have "\<exists>t. run_handler h w (hide s) v' = Some (t, as)"
    proof (cases "rechecks h")
      case True
      with r recheck_handlers_hide show ?thesis by (auto simp: rechecks_def run_handler_def)
    next
      case False
      from run_handler_hide [OF this, of w s v'] r show ?thesis by simp
    qed
    with Run v show ?thesis by (simp add: dicod_handle_command_def)
  qed (use assms v in \<open>simp_all add: dicod_handle_command_def\<close>)
qed

section \<open>Checking again\<close>

lemma db_checked_fields [simp]:
  "db_name (db_checked b prefs db) = db_name db" "db_acl (db_checked b prefs db) = db_acl db"
  "db_visible (db_checked b prefs db) \<longleftrightarrow> b \<and> lang_visible prefs db"
  by (simp_all add: db_checked_def)

lemma languages_visible_upd:
  "dicod_get_database_languages (db\<lparr>db_visible := v\<rparr>) =
     map_prod (\<lambda>db. db\<lparr>db_visible := v\<rparr>) id (dicod_get_database_languages db)"
  by (simp add: dicod_get_database_languages_def Let_def split: option.split prod.split)

lemma db_checked_idem [simp]: "db_checked b prefs (db_checked b prefs db) = db_checked b prefs db"
  by (simp add: db_checked_def lang_visible_def languages_visible_upd)

text \<open>The decision on one database: its own list with the decision of the global list as default.\<close>

definition db_allowed :: "acl_env \<Rightarrow> client \<Rightarrow> nat \<Rightarrow> ('h, 'r, 'f) dicod_database \<Rightarrow> bool" where
  "db_allowed env c p db =
     (let global = acl_decision env c (acl_list (acls env ! p)) True in
      case db_acl db of None \<Rightarrow> global | Some q \<Rightarrow> acl_decision env c (acl_list (acls env ! q)) global)"

lemma db_allowed_checked [simp]: "db_allowed env c p (db_checked b prefs db) = db_allowed env c p db"
  by (simp add: db_allowed_def)

lemma check_db_visibility_eq:
  assumes "acl_ranked rank env" and "p < length (acls env)" and "\<forall>db\<in>set dbs. \<forall>q. db_acl db = Some q \<longrightarrow> q < length (acls env)"
  shows "check_db_visibility env c prefs (Some p) dbs = Some (map (\<lambda>db. db_checked (db_allowed env c p db) prefs db) dbs)"
proof -
  note dec = acl_check_decides [OF assms(1)]
  have "dicod_acl_check env c (db_acl db) (acl_decision env c (acl_list (acls env ! p)) True) = Some (db_allowed env c p db)" if "db \<in> set dbs" for db
    using assms(3) that dec by (cases "db_acl db") (auto simp: dicod_acl_check_def db_allowed_def)
  from visibility_loop_ok [of dbs env c _ "db_allowed env c p", OF this] dec [OF assms(2), of c True] show ?thesis
    by (simp add: check_db_visibility_def)
qed

section \<open>Properties\<close>

text \<open>
  C2: Hidden databases cannot be observed: two servers that agree on everything but the
  databases that are not visible write the same replies to a command, and unless the command
  checks the visibility again (\<^verbatim>\<open>OPTION LANG\<close>, \<^verbatim>\<open>AUTH\<close>) they agree afterwards too.
\<close>

definition rechecking :: "('h, 'r, 'f) dicod \<Rightarrow> bytes list \<Rightarrow> bool" where
  "rechecking s argv \<longleftrightarrow> (\<exists>v h v'. command_args (alias_table s) argv = Some v \<and> dispatch_command (command_list s) v = Run h v' \<and> rechecks h)"

lemma handle_command_hide_state:
  assumes "dicod_handle_command w s argv = Some (s', as)" and "\<not> rechecking s argv"
  shows "dicod_handle_command w (hide s) argv = Some (hide s', as)"
proof -
  obtain v where v: "command_args (alias_table s) argv = Some v" using assms by (auto simp: dicod_handle_command_def res_iff)
  show ?thesis
  proof (cases "dispatch_command (command_list s) v")
    case (Run h v')
    then have "\<not> rechecks h" using assms(2) v by (auto simp: rechecking_def)
    from run_handler_hide [OF this, of w s v'] show ?thesis using Run v assms(1) by (simp add: dicod_handle_command_def)
  qed (use assms(1) v in \<open>simp_all add: dicod_handle_command_def\<close>)
qed

theorem hidden_databases_unobservable:
  assumes "hide s = hide t" and "dicod_handle_command w s argv = Some (s', xs)" and "dicod_handle_command w t argv = Some (t', ys)"
  shows "xs = ys \<and> (\<not> rechecking s argv \<longrightarrow> hide s' = hide t')"
proof -
  have "xs = ys" using handle_command_hide [OF assms(2)] handle_command_hide [OF assms(3)] assms(1) by auto
  moreover have "hide s' = hide t'" if "\<not> rechecking s argv"
  proof -
    have "alias_table s = alias_table t" "command_list s = command_list t"
      using arg_cong [OF assms(1), of alias_table] arg_cong [OF assms(1), of command_list] by simp_all
    then have "\<not> rechecking t argv" using that by (simp add: rechecking_def)
    from handle_command_hide_state [OF assms(2) that] handle_command_hide_state [OF assms(3) this] assms(1) show ?thesis by simp
  qed
  ultimately show ?thesis by blast
qed

text \<open>An example: databases that find every word once.\<close>

definition echo_module :: "(nat, bytes, nat) database_module" where
  "echo_module = \<lparr>dico_nodb = False, dico_init_db = (\<lambda>_ _. Some 0), dico_free_db = (\<lambda>_. 0), dico_open = None, dico_close = None,
     dico_db_info = None, dico_db_descr = None, dico_db_lang = None, dico_match = (\<lambda>_ _ w. Some w), dico_define = (\<lambda>_ w. Some w),
     dico_output_result = (\<lambda>r _. [r]), dico_result_count = (\<lambda>_. 1), dico_compare_count = None, dico_result_headers = None\<rparr>"

definition echo_db :: "string \<Rightarrow> nat option \<Rightarrow> bool \<Rightarrow> (nat, bytes, nat) dicod_database" where
  "echo_db name a v = \<lparr>db_lang_known = True, db_name = str name, db_descr = None, db_info = None, db_langlist = (None, None), db_acl = a,
     db_visible = v, db_mod_handle = Some 0, db_mime_headers = None, db_instance = 0, db_module = echo_module, db_argv = []\<rparr>"

definition exact_strategy :: "nat strategy" where
  "exact_strategy = \<lparr>s_name = str ''exact'', s_descr = [], s_sel = None, s_closure = 0, s_is_default = True, s_stratcl = None\<rparr>"

definition example_server :: "(nat, bytes, nat) dicod_database list \<Rightarrow> (nat, bytes, nat) dicod" where
  "example_server dbs =
     \<lparr>database_list = dbs, strategy_list = [exact_strategy], default_strategy = Some exact_strategy, stratcls = (\<lambda>_. []),
      command_list = command_tab, alias_table = None, capa_list = [],
      lang_preferences = \<lparr>dicod_lang_lazy_prefs = None, dicod_lang_prefs = (None, None)\<rparr>,
      acl_lists = \<lparr>acls = [], acl_table = []\<rparr>, global_acl = None, show_sys_info = None,
      clnt = \<lparr>user_name = None, user_groups = [], client_addr = AF_INET 0, client_addrlen = 16\<rparr>,
      client_id = Null, userdb = None, option_mime = False, got_quit = False, timing_option = False,
      current_stat = \<lparr>n_defines = 0, n_matches = 0, n_compares = 0\<rparr>, total_stat = \<lparr>n_defines = 0, n_matches = 0, n_compares = 0\<rparr>,
      levenshtein_distance = 1, dico_markup_type = str ''none'', dico_markup_list = [str ''none''], help_text = None, server_info = None,
      hostname = str ''h'', program_version = str ''v'', initial_banner_text = None, inactivity_timeout = 0, daemon_forks = False, msg_id = []\<rparr>"

definition example_world :: world where
  "example_world = \<lparr>w_times = (\<lambda>_. ([], [], [])), w_package = [], w_sysname = [], w_release = [], w_forks = [], w_quotearg = id,
     w_md5 = id, w_alloc = (\<lambda>_. True)\<rparr>"

definition match_request :: "bytes list" where
  "match_request = [str ''match'', str ''*'', str ''.'', str ''word'']"

theorem hidden_databases_unobservable_witness:
  "\<exists>s' as. dicod_handle_command example_world (example_server [echo_db ''en'' None True, echo_db ''secret'' None False]) match_request = Some (s', as) \<and>
     as = snd (the (dicod_handle_command example_world (example_server [echo_db ''en'' None True]) match_request)) \<and>
     as ! 1 = Put (str ''152 1 matches found: list follows'' @ [0x0a])"
proof -
  let ?s = "example_server [echo_db ''en'' None True, echo_db ''secret'' None False]"
  let ?t = "example_server [echo_db ''en'' None True]"
  have h: "hide ?s = hide ?t" by (simp add: hide_def example_server_def echo_db_def)
  have "dicod_handle_command example_world ?s match_request \<noteq> None" by code_simp
  then obtain s' xs where s: "dicod_handle_command example_world ?s match_request = Some (s', xs)" by auto
  have o: "map_option (\<lambda>(_, as). as ! 1) (dicod_handle_command example_world ?t match_request) =
      Some (Put (str ''152 1 matches found: list follows'' @ [0x0a]))" by code_simp
  then obtain t' ys where t: "dicod_handle_command example_world ?t match_request = Some (t', ys)" by auto
  have "xs = ys" using hidden_databases_unobservable [OF h s t] by simp
  with s t o show ?thesis by auto
qed



text \<open>
  C13: A client that has identified itself and then sends \<^verbatim>\<open>CLIENT\<close> without an argument leaves a
  dangling \<^verbatim>\<open>client_id\<close>: the next \<^verbatim>\<open>CLIENT\<close> command, whatever its arguments, and the end of the
  session free it a second time.
\<close>

theorem client_without_arguments_double_free:
  assumes "client_id s = Live x"
  shows "\<exists>s'. dicod_client w s [str ''CLIENT''] = Some (s', [Put (str ''250 ok'' @ [0x0a])]) \<and>
    dicod_client w s' argv = None \<and> init_auth_data s' = None"
  using assms by (simp add: dicod_client_def c_free_def init_auth_data_def)

theorem client_without_arguments_double_free_witness:
  "\<exists>s s' s''. dicod_handle_command example_world (example_server []) [str ''CLIENT'', str ''x''] = Some (s, [Put (str ''250 ok'' @ [0x0a])]) \<and>
     dicod_client example_world s [str ''CLIENT''] = Some (s', s'') \<and> init_auth_data s' = None"
proof -
  let ?s = "(example_server [])\<lparr>client_id := Live (str ''x'')\<rparr>"
  have "map_option (\<lambda>(s, as). (client_id s, as)) (dicod_handle_command example_world (example_server []) [str ''CLIENT'', str ''x'']) =
      Some (Live (str ''x''), [Put (str ''250 ok'' @ [0x0a])])" by code_simp
  then obtain s where s: "dicod_handle_command example_world (example_server []) [str ''CLIENT'', str ''x''] = Some (s, [Put (str ''250 ok'' @ [0x0a])])"
    "client_id s = Live (str ''x'')" by auto
  with client_without_arguments_double_free [OF s(2), of example_world "[]"] show ?thesis by blast
qed

end
