(* ===== verification/Dico_Session_Props.thy ===== *)
theory Dico_Session_Props
  imports Dico_Session Dico_Output_Props Dico_Server_Props
begin

text \<open>
  What the client receives: the writes of a handler, performed on the stack of streams, append
  to the connection exactly the bytes that a simple function of the writes gives. From this
  follows what a client that reads the reply line by line gets from a search.
\<close>

section \<open>Texts with dots doubled\<close>

fun dot_text :: "bool \<Rightarrow> bytes \<Rightarrow> bytes" where
  "dot_text bol [] = []"
| "dot_text bol (c # s) = (if bol \<and> c = 0x2e then [c] else []) @ c # dot_text (c = 0x0a) s"

lemma undot_dot_text [simp]: "undot bol (dot_text bol s) = s"
  by (induction s arbitrary: bol) auto

lemma dot_text_mid: "0x0a \<notin> set (butlast c) \<Longrightarrow> c \<noteq> [] \<Longrightarrow> dot_text False (c @ r) = c @ dot_text (last c = 0x0a) r"
  by (induction c) (auto split: if_splits)

lemma dot_text_chunk:
  assumes "line_chunk c"
  shows "dot_text True (c @ r) = dot_chunk c @ dot_text (last c = 0x0a) r"
proof -
  obtain x y where xy: "c = x # y" using assms by (auto simp: line_chunk_def neq_Nil_conv)
  show ?thesis
  proof (cases y)
    case Nil
    then show ?thesis using xy by (simp add: dot_chunk_def)
  next
    case (Cons z zs)
    then have "x \<noteq> 0x0a" "0x0a \<notin> set (butlast y)" using assms xy by (auto simp: line_chunk_def)
    with dot_text_mid [of y r] xy Cons show ?thesis by (simp add: dot_chunk_def)
  qed
qed

lemma dot_text_chunks: "\<forall>c\<in>set cs. line_chunk c \<and> last c = 0x0a \<Longrightarrow> concat (map dot_chunk cs) = dot_text True (concat cs)"
  by (induction cs) (simp_all add: dot_text_chunk)

lemma dot_text_rest: "\<forall>c\<in>set cs. line_chunk c \<Longrightarrow> length cs \<le> 1 \<Longrightarrow> concat (map dot_chunk cs) = dot_text True (concat cs)"
  using dot_text_chunk [of _ "[]"] by (cases cs) auto

text \<open>The complete lines of a text.\<close>

definition complete :: "bytes \<Rightarrow> bytes" where
  "complete x = take (length x - length (unfinished x)) x"

lemma complete_unfinished: "complete x @ unfinished x = x"
proof -
  have "rev x = takeWhile (\<lambda>c. c \<noteq> 0x0a) (rev x) @ dropWhile (\<lambda>c. c \<noteq> 0x0a) (rev x)" by simp
  then have x: "x = rev (dropWhile (\<lambda>c. c \<noteq> 0x0a) (rev x)) @ unfinished x" unfolding unfinished_def by (metis rev_append rev_rev_ident)
  then have "complete x = rev (dropWhile (\<lambda>c. c \<noteq> 0x0a) (rev x))" unfolding complete_def by (metis append_eq_conv_conj length_append diff_add_inverse2)
  with x show ?thesis by simp
qed

section \<open>What the writes put on the wire\<close>

text \<open>
  The state is the unfinished line of the reply stream, or \<open>None\<close> when there is none. Long
  writes, which the buffer may cut at any place, are not covered.
\<close>

fun wire_act :: "act \<Rightarrow> bytes option \<Rightarrow> (bytes option \<times> bytes) option" where
  "wire_act (Put b) p = Some (p, b)"
| "wire_act (Begin h) None = Some (Some [], [])"
| "wire_act (Text b) (Some p) =
     (if length (p @ b) < 1024 then Some (Some (unfinished (p @ b)), dot_text True (complete (p @ b))) else None)"
| "wire_act Tally (Some p) = Some (Some p, [])"
| "wire_act Finish (Some p) = Some (None, dot_text True p)"
| "wire_act _ _ = None"

fun wire :: "act list \<Rightarrow> bytes option \<Rightarrow> (bytes option \<times> bytes) option" where
  "wire [] p = Some (p, [])"
| "wire (a # as) p = do { (p, x) \<leftarrow> wire_act a p; (p, y) \<leftarrow> wire as p; Some (p, x @ y) }"

lemma wire_append: "wire (as @ bs) p = do { (p, x) \<leftarrow> wire as p; (p, y) \<leftarrow> wire bs p; Some (p, x @ y) }"
proof (induction as arbitrary: p)
  case Nil
  then show ?case by (cases "wire bs p") auto
next
  case (Cons a as)
  then show ?case by (cases "wire_act a p") (auto simp: Option.bind_assoc case_prod_beta intro!: arg_cong [of _ _ "Option.bind _"])
qed

section \<open>The contract of the client's stream\<close>

definition reply_driver :: "'t ostream driver \<Rightarrow> bool" where
  "reply_driver d \<longleftrightarrow> d_flush d = Some ostream_flush \<and> d_close d = None \<and> d_destroy d = Some ostream_destroy \<and> d_ctl d = Some ostream_ioctl"

definition conn_rel ::
  "('d \<Rightarrow> bytes \<Rightarrow> ('d \<times> (int + nat)) option) \<Rightarrow> ('d \<Rightarrow> bool) \<Rightarrow> ('d \<Rightarrow> bytes) \<Rightarrow> 'd driver \<Rightarrow> ostream_env \<Rightarrow>
   bytes \<Rightarrow> bytes option \<Rightarrow> 'd conn \<Rightarrow> bool" where
  "conn_rel wr ok out drv e w p c \<longleftrightarrow>
     (case p of
        None \<Rightarrow> (\<exists>t. c = Idle t \<and> write_ready wr ok t \<and> s_drv t = drv \<and> written out t = w)
      | Some q \<Rightarrow>
          (\<exists>r. c = Replying r \<and> line_ready (ostream_write False (oe_alloc e) (oe_unset e)) (reply_rel wr ok out drv w []) r \<and>
             pending r = q \<and> 0x0a \<notin> set q \<and> s_bufsize r = 1024 \<and> reply_driver (s_drv r)))"

lemma reply_rel_rebase: "reply_rel wr ok out drv w cs = reply_rel wr ok out drv (w @ concat (map dot_chunk cs)) []"
  by (rule ext) (simp add: reply_rel_def)

lemma pending_data [simp]: "pending (s\<lparr>s_data := d\<rparr>) = pending s"
  by (rule pending_cong) (simp add: same_buffer_def)

locale client_transport = flushed_sink wr ok out "d_flush drv"
  for wr :: "'d \<Rightarrow> bytes \<Rightarrow> ('d \<times> (int + nat)) option" and ok :: "'d \<Rightarrow> bool" and out :: "'d \<Rightarrow> bytes" and drv :: "'d driver" +
  assumes ctl_keeps:
    "d_ctl drv = Some f \<Longrightarrow> ok d \<Longrightarrow> \<exists>d' r. f d DICO_IOCTL_BYTES_OUT = Some (d', r) \<and> ok d' \<and> out d' = out d"
begin

lemma transport: "reply_transport wr ok out drv"
  by (rule reply_transport.intro) (rule flushed_sink_axioms)

lemma bytes_out_ok:
  assumes "write_ready wr ok t" and "s_drv t = drv"
  shows "\<exists>t' n. dico_stream_bytes_out t = Some (t', n) \<and> write_ready wr ok t' \<and> s_drv t' = drv \<and> written out t' = written out t"
proof (cases "d_ctl drv")
  case None
  then show ?thesis using assms by (simp add: dico_stream_bytes_out_def dico_stream_ioctl_def)
next
  case (Some f)
  have "ok (s_data t)" using assms(1) by (simp add: write_ready_def)
  from ctl_keeps [OF Some this] obtain d' r where f: "f (s_data t) DICO_IOCTL_BYTES_OUT = Some (d', r)" "ok d'" "out d' = out (s_data t)" by blast
  show ?thesis using f Some assms
    by (auto simp: dico_stream_bytes_out_def dico_stream_ioctl_def write_ready_def written_def)
qed

lemma put_ok:
  assumes "conn_rel wr ok out drv e w p c"
  shows "\<exists>c' n'. run_act e (Put b) (c, n) = Some (c', n') \<and> conn_rel wr ok out drv e (w @ b) p c'"
proof (cases p)
  case None
  then obtain t where t: "c = Idle t" "write_ready wr ok t" "s_drv t = drv" "written out t = w" using assms by (auto simp: conn_rel_def)
  from stream_write_ok [OF t(2), of b] obtain t' where "dico_stream_write t b = Some (t', 0)" "write_ready wr ok t'" "appended out b t t'" by blast
  with t None show ?thesis by (auto simp: run_act_def conn_rel_def appended_def)
next
  case (Some q)
  then obtain r where r: "c = Replying r" "line_ready (ostream_write False (oe_alloc e) (oe_unset e)) (reply_rel wr ok out drv w []) r"
    "pending r = q" "0x0a \<notin> set q" "s_bufsize r = 1024" "reply_driver (s_drv r)" using assms by (auto simp: conn_rel_def)
  have "reply_rel wr ok out drv w [] (s_data r)" using r(2) by (simp add: line_ready_def write_ready_def)
  then obtain t where t: "os_transport (s_data r) = OT_plain t" "write_ready wr ok t" "s_drv t = drv" "written out t = w"
    "OSTREAM_DESTROY_TRANSPORT \<notin> os_flags (s_data r)" by (auto simp: reply_rel_def)
  from stream_write_ok [OF t(2), of b] obtain t' where t': "dico_stream_write t b = Some (t', 0)" "write_ready wr ok t'" "appended out b t t'" by blast
  let ?r = "r\<lparr>s_data := (s_data r)\<lparr>os_transport := OT_plain t'\<rparr>\<rparr>"
  have "run_act e (Put b) (c, n) = Some (Replying ?r, n)" using r(1) t(1) t'(1) by (simp add: run_act_def under_write_def)
  moreover have "reply_rel wr ok out drv (w @ b) [] (s_data ?r)" using t t' by (simp add: reply_rel_def appended_def)
  then have "line_ready (ostream_write False (oe_alloc e) (oe_unset e)) (reply_rel wr ok out drv (w @ b) []) ?r"
    using r(2) by (simp add: line_ready_def write_ready_def)
  moreover have "pending ?r = q" using r(3) by simp
  ultimately show ?thesis using Some r by (simp add: conn_rel_def)
qed

lemma begin_ok:
  assumes "conn_rel wr ok out drv e w None c" and "\<not> oe_mime e" and "oe_buffer e"
  shows "\<exists>c' n'. run_act e (Begin h) (c, n) = Some (c', n') \<and> conn_rel wr ok out drv e w (Some []) c'"
proof -
  obtain t where t: "c = Idle t" "write_ready wr ok t" "s_drv t = drv" "written out t = w" using assms(1) by (auto simp: conn_rel_def)
  obtain t' k where t': "dico_stream_bytes_out t = Some (t', k)" "write_ready wr ok t'" "s_drv t' = drv" "written out t' = w"
    using bytes_out_ok [OF t(2,3)] t(4) by auto
  obtain r where c: "dicod_ostream_create (oe_mime e) (oe_buffer e) (oe_alloc e) (oe_unset e) t h = Some r"
    and r: "d_write (s_drv r) = Some (ostream_write False (oe_alloc e) (oe_unset e))" "reply_driver (s_drv r)"
    "s_data r = \<lparr>os_transport = OT_plain t', os_nout = k, os_flags = {}, os_headers = h\<rparr>" "s_flags r = {DICO_STREAM_WRITE}"
    "s_buftype r = dico_buffer_line" "s_bufsize r = 1024" "s_buffer r = Some (replicate 1024 0)" "s_cur r = 0" "s_level r = 0"
    using t'(1) assms(2,3)
    by (simp add: dicod_ostream_create_def dico_stream_create_def no_driver_def dico_stream_set_buffer_def Let_def reply_driver_def
        dico_stream_set_write_def dico_stream_set_flush_def dico_stream_set_destroy_def dico_stream_set_ioctl_def)
  have "reply_rel wr ok out drv w [] (s_data r)" using t' r(3) by (simp add: reply_rel_def)
  then have "line_ready (ostream_write False (oe_alloc e) (oe_unset e)) (reply_rel wr ok out drv w []) r"
    using r by (simp add: line_ready_def write_ready_def)
  moreover have "pending r = []" using r by (simp add: pending_def stream_window_def)
  ultimately show ?thesis using t(1) c r(2,6) by (simp add: run_act_def conn_rel_def)
qed

lemma text_ok:
  assumes "conn_rel wr ok out drv e w (Some q) c" and "length (q @ b) < 1024"
  shows "\<exists>c' n'. run_act e (Text b) (c, n) = Some (c', n') \<and>
    conn_rel wr ok out drv e (w @ dot_text True (complete (q @ b))) (Some (unfinished (q @ b))) c'"
proof -
  obtain r where r: "c = Replying r" "line_ready (ostream_write False (oe_alloc e) (oe_unset e)) (reply_rel wr ok out drv w []) r"
    "pending r = q" "0x0a \<notin> set q" "s_bufsize r = 1024" "reply_driver (s_drv r)" using assms(1) by (auto simp: conn_rel_def)
  obtain r' ls where r': "reply_writes r [b] = Some r'"
    "line_ready (ostream_write False (oe_alloc e) (oe_unset e)) (reply_rel wr ok out drv w ls) r'" "\<forall>l\<in>set ls. line_chunk l"
    "concat ls @ pending r' = q @ b" "0x0a \<notin> set (pending r')" "s_drv r' = s_drv r" "s_bufsize r' = s_bufsize r" "\<forall>l\<in>set ls. last l = 0x0a"
    using reply_transport.reply_writes_ok [OF transport r(2), of "[b]"] r(3-5) assms(2) by auto
  have u: "pending r' = unfinished (q @ b)" by (rule unfinished_eq [OF r'(4,5)]) (use r'(3,8) in \<open>auto simp: line_chunk_def\<close>)
  then have "concat ls = complete (q @ b)" using r'(4) complete_unfinished [of "q @ b"] by (metis append_same_eq)
  then have "concat (map dot_chunk ls) = dot_text True (complete (q @ b))" using dot_text_chunks [of ls] r'(3,8) by simp
  then have l: "line_ready (ostream_write False (oe_alloc e) (oe_unset e)) (reply_rel wr ok out drv (w @ dot_text True (complete (q @ b))) []) r'"
    using r'(2) reply_rel_rebase [of wr ok out drv w ls] by simp
  have "dico_stream_write r b = Some (r', 0)" using r'(1) by (auto simp: res_iff split: if_split_asm)
  then show ?thesis using r r' u l by (auto simp: run_act_def conn_rel_def)
qed

lemma tally_ok:
  assumes "conn_rel wr ok out drv e w (Some q) c"
  shows "\<exists>c' n'. run_act e Tally (c, n) = Some (c', n') \<and> conn_rel wr ok out drv e w (Some q) c'"
proof -
  obtain r where r: "c = Replying r" "line_ready (ostream_write False (oe_alloc e) (oe_unset e)) (reply_rel wr ok out drv w []) r"
    "pending r = q" "0x0a \<notin> set q" "s_bufsize r = 1024" "reply_driver (s_drv r)" using assms by (auto simp: conn_rel_def)
  have "reply_rel wr ok out drv w [] (s_data r)" using r(2) by (simp add: line_ready_def write_ready_def)
  then obtain t where t: "os_transport (s_data r) = OT_plain t" "write_ready wr ok t" "s_drv t = drv" "written out t = w"
    "OSTREAM_DESTROY_TRANSPORT \<notin> os_flags (s_data r)" by (auto simp: reply_rel_def)
  obtain t1 where t1: "dico_stream_flush t = Some (t1, 0)" "write_ready wr ok t1" "moved out t t1"
    using dico_stream_flush_ok [OF t(2) arg_cong [OF t(3), of d_flush]] by blast
  then have d1: "s_drv t1 = drv" "written out t1 = w" using t by (simp_all add: moved_def)
  obtain t2 k where t2: "dico_stream_bytes_out t1 = Some (t2, k)" "write_ready wr ok t2" "s_drv t2 = drv" "written out t2 = w"
    using bytes_out_ok [OF t1(2) d1(1)] d1(2) by auto
  let ?r = "r\<lparr>s_data := (s_data r)\<lparr>os_transport := OT_plain t2\<rparr>\<rparr>"
  have "run_act e Tally (c, n) = Some (Replying ?r, n + (k - os_nout (s_data r)))"
    using r(1,6) t(1) t1(1) t2(1)
    by (simp add: run_act_def dico_stream_bytes_out_def [of r] dico_stream_ioctl_def reply_driver_def ostream_ioctl_def ot_flush_def ot_bytes_out_def)
  moreover have "reply_rel wr ok out drv w [] (s_data ?r)" using t t2 by (simp add: reply_rel_def)
  then have "line_ready (ostream_write False (oe_alloc e) (oe_unset e)) (reply_rel wr ok out drv w []) ?r"
    using r(2) by (simp add: line_ready_def write_ready_def)
  moreover have "pending ?r = q" using r(3) by simp
  ultimately show ?thesis using r by (simp add: conn_rel_def)
qed

lemma finish_ok:
  assumes "conn_rel wr ok out drv e w (Some q) c"
  shows "\<exists>c' n'. run_act e Finish (c, n) = Some (c', n') \<and> conn_rel wr ok out drv e (w @ dot_text True q) None c'"
proof -
  obtain r where r: "c = Replying r" "line_ready (ostream_write False (oe_alloc e) (oe_unset e)) (reply_rel wr ok out drv w []) r"
    "pending r = q" "0x0a \<notin> set (pending r)" "s_bufsize r = 1024" "reply_driver (s_drv r)" using assms by (auto simp: conn_rel_def)
  have d: "d_flush (s_drv r) = Some ostream_flush" "d_close (s_drv r) = None" using r(6) by (simp_all add: reply_driver_def)
  obtain r' ls t where r': "dico_stream_close r = Some (r', 0)" "\<forall>l\<in>set ls. line_chunk l" "concat ls = pending r" "length ls \<le> 1"
    "os_transport (s_data r') = OT_plain t" "out (s_data t) = w @ concat (map dot_chunk ls)" "write_ready wr ok t" "s_drv t = drv"
    "pending t = []" "s_drv r' = s_drv r" "OSTREAM_DESTROY_TRANSPORT \<notin> os_flags (s_data r')"
    using reply_transport.reply_close_ok [OF transport r(2,4) d] by auto
  have "written out t = w @ dot_text True q" using r'(2-4,6,9) dot_text_rest [of ls] r(3) by (simp add: written_def)
  moreover have "run_act e Finish (c, n) = Some (Idle t, n)"
    using r(1,6) r'(1,5,10,11) by (simp add: run_act_def dico_stream_destroy_def reply_driver_def ostream_destroy_def)
  ultimately show ?thesis using r'(7,8) by (simp add: conn_rel_def)
qed

lemma wire_ok:
  assumes "conn_rel wr ok out drv e w p c" and "\<not> oe_mime e" and "oe_buffer e" and "wire as p = Some (p', x)"
  shows "\<exists>c' n'. run_acts e as (c, n) = Some (c', n') \<and> conn_rel wr ok out drv e (w @ x) p' c'"
  using assms(1,4)
proof (induction as arbitrary: w p c n x)
  case Nil
  then show ?case by auto
next
  case (Cons a as)
  obtain p1 x1 x2 where x: "wire_act a p = Some (p1, x1)" "wire as p1 = Some (p', x2)" "x = x1 @ x2"
    using Cons.prems(2) by (auto simp: res_iff)
  have "\<exists>c1 n1. run_act e a (c, n) = Some (c1, n1) \<and> conn_rel wr ok out drv e (w @ x1) p1 c1"
  proof (cases a)
    case (Put b)
    then show ?thesis using x(1) put_ok [OF Cons.prems(1)] by auto
  next
    case (Begin h)
    with x(1) have "p = None" "p1 = Some []" "x1 = []" by (cases p; simp)+
    with Begin begin_ok [OF _ assms(2,3), of w c h n] Cons.prems(1) show ?thesis by simp
  next
    case (Text b)
    with x(1) obtain q where "p = Some q" "length (q @ b) < 1024" "p1 = Some (unfinished (q @ b))" "x1 = dot_text True (complete (q @ b))"
      by (cases p) (auto split: if_split_asm)
    with Text text_ok [of e w q c b n] Cons.prems(1) show ?thesis by simp
  next
    case Tally
    with x(1) obtain q where "p = Some q" "p1 = Some q" "x1 = []" by (cases p) auto
    with Tally tally_ok [of e w q c n] Cons.prems(1) show ?thesis by simp
  next
    case Finish
    with x(1) obtain q where "p = Some q" "p1 = None" "x1 = dot_text True q" by (cases p) auto
    with Finish finish_ok [of e w q c n] Cons.prems(1) show ?thesis by simp
  next
    case (Lines b)
    with x(1) show ?thesis by (cases p) auto
  qed
  then obtain c1 n1 where c1: "run_act e a (c, n) = Some (c1, n1)" "conn_rel wr ok out drv e (w @ x1) p1 c1" by blast
  from Cons.IH [OF c1(2) x(2), of n1] c1(1) x(3) show ?case by simp
qed

lemma serve_ok:
  assumes "write_ready wr ok t" and "s_drv t = drv" and "\<not> oe_mime e" and "oe_buffer e" and "wire as None = Some (None, x)"
  shows "\<exists>t' n. serve e as t = Some (t', n) \<and> write_ready wr ok t' \<and> s_drv t' = drv \<and> written out t' = written out t @ x"
proof -
  have "conn_rel wr ok out drv e (written out t) None (Idle t)" using assms(1,2) by (simp add: conn_rel_def)
  from wire_ok [OF this assms(3-5), of 0] obtain c n where "run_acts e as (Idle t, 0) = Some (c, n)"
    "conn_rel wr ok out drv e (written out t @ x) None c" by blast
  then show ?thesis by (auto simp: serve_def conn_rel_def)
qed

end

section \<open>Replies to searches\<close>

lemma wire_puts: "wire (map Put bs) p = Some (p, concat bs)"
  by (induction bs) auto

lemma report_puts: "\<exists>bs. snd (report_current_timing w tid s) = map Put bs"
proof (cases "timing_option s")
  case True
  obtain r u y where "w_times w tid = (r, u, y)" by (rule prod_cases3)
  with True show ?thesis
    by (intro exI [of _ "[str '' ['', str ''d/m/c = '' @ dec (unat (n_defines (current_stat s))) @ str ''/'' @
          dec (unat (n_matches (current_stat s))) @ str ''/'' @ dec (unat (n_compares (current_stat s))) @ str '' '', r, str ''r '', u, str ''u '', y, str ''s]'']"])
      (simp add: report_current_timing_def report_timing_def)
next
  case False
  then show ?thesis by (intro exI [of _ "[]"]) (simp add: report_current_timing_def)
qed

lemma unfinished_none: "0x0a \<notin> set x \<Longrightarrow> unfinished x = x \<and> complete x = []"
  using unfinished_eq [of "[]" x x] by (simp add: complete_def)

lemma unfinished_line: "unfinished (x @ [0x0a]) = [] \<and> complete (x @ [0x0a]) = x @ [0x0a]"
  by (simp add: unfinished_def complete_def)

lemma wire_texts: "0x0a \<notin> set (p @ concat bs) \<Longrightarrow> length (p @ concat bs) < 1024 \<Longrightarrow> wire (map Text bs) (Some p) = Some (Some (p @ concat bs), [])"
proof (induction bs arbitrary: p)
  case Nil
  then show ?case by simp
next
  case (Cons b bs)
  have "unfinished (p @ b) = p @ b \<and> complete (p @ b) = []" using Cons.prems(1) by (intro unfinished_none) auto
  with Cons.IH [of "p @ b"] Cons.prems show ?case by simp
qed

lemma wire_line:
  assumes "0x0a \<notin> set (concat bs)" and "length (concat bs) < 1022" and "0x0a \<notin> set e" and "length e \<le> 1"
  shows "wire (map Text bs @ [Text (e @ [0x0a])]) (Some []) = Some (Some [], dot_text True (concat bs @ e @ [0x0a]))"
proof -
  have "unfinished (concat bs @ e @ [0x0a]) = [] \<and> complete (concat bs @ e @ [0x0a]) = concat bs @ e @ [0x0a]"
    using unfinished_line [of "concat bs @ e"] by simp
  with wire_texts [of "[]" bs] assms show ?thesis by (simp add: wire_append)
qed

lemma dot_text_lines: "dot_text b (x @ 0x0a # y) = dot_text b (x @ [0x0a]) @ dot_text True y"
  by (induction x arbitrary: b) auto

definition match_line :: "('h, 'r, 'f) dicod_database \<Rightarrow> 'r \<Rightarrow> nat \<Rightarrow> bytes" where
  "match_line db res i = db_name db @ str '' \"'' @ concat (dico_output_result (db_module db) res i) @ str ''\"''"

definition match_lines :: "('h, 'r, 'f) dicod_database \<times> 'r \<times> nat \<Rightarrow> bytes list" where
  "match_lines = (\<lambda>(db, res, n). map (match_line db res) [0..<n])"

definition text_of :: "bytes list \<Rightarrow> bytes" where
  "text_of ls = concat (map (\<lambda>l. l @ [0x0a]) ls)"

lemma text_of_simps [simp]: "text_of [] = []" "text_of (l # ls) = l @ 0x0a # text_of ls" "text_of (a @ b) = text_of a @ text_of b"
  by (simp_all add: text_of_def)

definition sendable :: "bytes \<Rightarrow> bool" where
  "sendable l \<longleftrightarrow> 0x0a \<notin> set l \<and> length l < 1023"

lemma wire_match:
  assumes "sendable (match_line db res i)"
  shows "wire ([Text (db_name db), Text (str '' \"'')] @ map Text (dico_output_result (db_module db) res i) @ [Text (str ''\"'' @ [0x0a])]) (Some []) =
    Some (Some [], dot_text True (match_line db res i @ [0x0a]))"
  using wire_line [of "db_name db # str '' \"'' # dico_output_result (db_module db) res i" "str ''\"''"] assms
  by (simp add: match_line_def sendable_def)

lemma dot_text_text_of: "dot_text True (text_of ls @ x) = dot_text True (text_of ls) @ dot_text True x"
proof (induction ls)
  case (Cons l ls)
  show ?case using Cons.IH dot_text_lines [of True l "text_of ls @ x"] dot_text_lines [of True l "text_of ls"] by simp
qed simp

lemma wire_blocks:
  "\<forall>i\<in>set is. wire (f i) (Some []) = Some (Some [], dot_text True (text_of (g i))) \<Longrightarrow>
   wire (concat (map f is)) (Some []) = Some (Some [], dot_text True (text_of (concat (map g is))))"
  by (induction "is") (simp_all add: wire_append dot_text_text_of)

lemma wire_print_matches:
  assumes "\<forall>l\<in>set (match_lines (db, res, n)). sendable l"
  shows "wire (print_matches db res word n) (Some []) = Some (Some [], dot_text True (text_of (match_lines (db, res, n))))"
proof -
  have "\<forall>i\<in>set [0..<n]. sendable (match_line db res i)" using assms by (simp add: match_lines_def)
  then have "wire ([Text (db_name db), Text (str '' \"'')] @ map Text (dico_output_result (db_module db) res i) @ [Text (str ''\"'' @ [0x0a])]) (Some []) =
      Some (Some [], dot_text True (text_of [match_line db res i]))" if "i \<in> set [0..<n]" for i
    using wire_match [of db res i] that by (simp del: wire.simps)
  then have "\<forall>i\<in>set [0..<n]. wire ([Text (db_name db), Text (str '' \"'')] @ map Text (dico_output_result (db_module db) res i) @
      [Text (str ''\"'' @ [0x0a])]) (Some []) = Some (Some [], dot_text True (text_of [match_line db res i]))" by blast
  from wire_blocks [OF this] show ?thesis
    unfolding print_matches_def match_lines_def by (simp add: concat_map_singleton del: wire.simps)
qed

lemma wire_all_matches:
  "\<forall>l\<in>set (concat (map match_lines rs)). sendable l \<Longrightarrow>
   wire (concat (map (\<lambda>(db, res, n). print_matches db res word n) rs)) (Some []) = Some (Some [], dot_text True (text_of (concat (map match_lines rs))))"
  by (rule wire_blocks) (auto intro!: wire_print_matches)

section \<open>The client's side\<close>

text \<open>A client reads lines up to one that is a dot alone and drops the dot at the beginning of the others.\<close>

function read_text :: "bytes \<Rightarrow> (bytes list \<times> bytes) option" where
  "read_text x =
     (case index_of 0x0a x of
        None \<Rightarrow> None
      | Some i \<Rightarrow>
          if take i x = [0x2e] then Some ([], drop (Suc i) x)
          else map_option (\<lambda>(ls, r). (undot True (take i x) # ls, r)) (read_text (drop (Suc i) x)))"
  by pat_completeness auto
termination
  by (relation "measure length") (auto dest: index_of_SomeD)

declare read_text.simps [simp del]

lemma dot_text_no_nl: "0x0a \<notin> set l \<Longrightarrow> dot_text b (l @ x) = dot_text b l @ dot_text (b \<and> l = []) x"
  by (induction l arbitrary: b) auto

lemma dot_text_keeps_nl: "0x0a \<in> set (dot_text b l) \<longleftrightarrow> 0x0a \<in> set l"
  by (induction l arbitrary: b) auto

lemma dot_text_not_dot: "dot_text True l \<noteq> [0x2e]"
  by (cases l) auto

lemma index_of_end: "0x0a \<notin> set l \<Longrightarrow> index_of 0x0a (l @ 0x0a # x) = Some (length l)"
  by (simp add: index_of_append index_of_Cons)

lemma read_text_of:
  "\<forall>l\<in>set ls. 0x0a \<notin> set l \<Longrightarrow> read_text (dot_text True (text_of ls) @ [0x2e, 0x0a] @ rest) = Some (ls, rest)"
proof (induction ls)
  case Nil
  show ?case by (simp add: read_text.simps [of "0x2e # _"] index_of_Cons)
next
  case (Cons l ls)
  have l: "0x0a \<notin> set (dot_text True l)" using Cons.prems by (simp add: dot_text_keeps_nl)
  have "dot_text True (text_of (l # ls)) = dot_text True l @ 0x0a # dot_text True (text_of ls)"
    using dot_text_lines [of True l "text_of ls"] dot_text_no_nl [of l True "[0x0a]"] Cons.prems by simp
  with Cons l index_of_end [OF l] show ?case
    by (simp add: read_text.simps [of "dot_text True l @ _"] dot_text_not_dot)
qed

section \<open>Properties\<close>

text \<open>What a \<^verbatim>\<open>MATCH\<close> command finds.\<close>

definition found_matches :: "('h, 'r, 'f) dicod \<Rightarrow> bytes \<Rightarrow> 'f strategy \<Rightarrow> bytes \<Rightarrow> (('h, 'r, 'f) dicod_database \<times> 'r \<times> nat) list" where
  "found_matches s dbname strat word =
     (if dbname = str ''!''
      then if strat_denied s (Some strat) word then []
        else (case first_result (database_list s) (Some strat) word of None \<Rightarrow> [] | Some r \<Rightarrow> [r])
      else if dbname = str ''*''
      then if strat_denied s (Some strat) word then [] else fst (all_results (database_list s) (Some strat) word (current_stat s))
      else (case find_database (database_list s) dbname of
          None \<Rightarrow> []
        | Some db \<Rightarrow>
            (case dico_match (db_module db) (db_mod_handle db) strat word of
               None \<Rightarrow> []
             | Some res \<Rightarrow> let n = dico_result_count (db_module db) res in if n = 0 then [] else [(db, res, n)])))"

definition visible_result :: "'f strategy option \<Rightarrow> bytes \<Rightarrow> ('h, 'r, 'f) dicod_database \<Rightarrow> (('h, 'r, 'f) dicod_database \<times> 'r \<times> nat) list" where
  "visible_result strat word db =
     (if db_visible db
      then case db_search db strat word of
          None \<Rightarrow> []
        | Some res \<Rightarrow> let n = dico_result_count (db_module db) res in if n = 0 then [] else [(db, res, n)]
      else [])"

lemma visible_result_found: "(db, res, n) \<in> set (visible_result strat word d) \<Longrightarrow> db = d \<and> db_visible db \<and> n \<noteq> 0"
  by (cases "db_visible d"; cases "db_search d strat word") (auto simp: visible_result_def Let_def split: if_split_asm)

lemma all_results_eq: "fst (all_results dbs strat word st) = concat (map (visible_result strat word) dbs)"
  by (induction dbs arbitrary: st) (simp_all add: visible_result_def Let_def case_prod_beta split: option.split)

lemma first_result_eq:
  "(case first_result dbs strat word of None \<Rightarrow> [] | Some r \<Rightarrow> [r]) = take 1 (concat (map (visible_result strat word) dbs))"
  by (induction dbs) (auto simp: visible_result_def Let_def split: option.split)

lemma find_database_found: "find_database dbs name = Some db \<Longrightarrow> db \<in> set dbs \<and> db_visible db \<and> db_name db = name"
  by (auto simp: find_database_def find_Some_iff cmp_database_name_def Let_def split: if_split_asm)

lemma found_matches_alt:
  "found_matches s dbname strat word =
     (let rs = concat (map (visible_result (Some strat) word) (database_list s)) in
      if dbname = str ''!'' then if strat_denied s (Some strat) word then [] else take 1 rs
      else if dbname = str ''*'' then if strat_denied s (Some strat) word then [] else rs
      else case find_database (database_list s) dbname of None \<Rightarrow> [] | Some db \<Rightarrow> visible_result (Some strat) word db)"
  by (auto simp: found_matches_def all_results_eq first_result_eq Let_def visible_result_def db_search_def
      split: option.split dest: find_database_found)

lemma found_matches_visible:
  assumes "(db, res, n) \<in> set (found_matches s dbname strat word)"
  shows "db \<in> set (database_list s) \<and> db_visible db \<and> n \<noteq> 0"
proof -
  obtain d where "d \<in> set (database_list s)" and v: "(db, res, n) \<in> set (visible_result (Some strat) word d)"
    using assms by (auto simp: found_matches_alt Let_def split: if_split_asm option.split_asm dest!: in_set_takeD find_database_found [OF sym])
  with visible_result_found [OF v] show ?thesis by auto
qed

lemma length_match_lines: "length (concat (map match_lines rs)) = sum_list (map (\<lambda>(db, res, n). n) rs)"
  by (induction rs) (auto simp: match_lines_def)

lemma begin_timing_fields [simp]:
  "strat_denied (begin_timing s) = strat_denied s"
  by (rule ext)+ (simp add: strat_denied_def begin_timing_def clear_stats_def split: option.split)

definition match_reply :: "bytes list \<Rightarrow> bytes \<Rightarrow> bytes" where
  "match_reply ls fin =
     str ''152 '' @ dec (length ls) @ str '' matches found: list follows'' @ [0x0a] @
     dot_text True (text_of ls) @ str ''.'' @ [0x0a] @ str ''250 Command complete'' @ fin @ [0x0a]"

lemma wire_report: "\<exists>fin. \<forall>p. wire (snd (report_current_timing w tid s)) p = Some (p, fin)"
  using report_puts [of w tid s] wire_puts by auto

lemma match_all_wire:
  assumes "found_matches s (str ''*'') strat word = rs" and "rs \<noteq> []" and "\<forall>l\<in>set (concat (map match_lines rs)). sendable l"
  shows "\<exists>fin. wire (snd (dicod_match_word_all w s strat word)) None = Some (None, match_reply (concat (map match_lines rs)) fin)"
proof -
  let ?s = "begin_timing s"
  obtain st where r: "all_results (database_list ?s) (Some strat) word (current_stat ?s) = (rs, st)" and d: "\<not> strat_denied ?s (Some strat) word"
    using assms(1,2) by (cases "all_results (database_list s) (Some strat) word (current_stat ?s)")
      (auto simp: found_matches_alt Let_def all_results_eq [symmetric, where st = "current_stat (begin_timing s)"] split: if_split_asm)
  have n: "sum_list (map (\<lambda>(db, res, n). n) rs) \<noteq> 0"
  proof -
    obtain db res n rs' where "rs = (db, res, n) # rs'" using assms(2) by (cases rs) auto
    then have "n \<noteq> 0" using found_matches_visible [of db res n s "str ''*''" strat word] assms(1) by simp
    with \<open>rs = _\<close> show ?thesis by simp
  qed
  let ?s' = "?s\<lparr>current_stat := count_stat (Some strat) (sum_list (map (\<lambda>(db, res, n). n) rs)) st\<rparr>"
  obtain fin where f: "\<And>p. wire (snd (report_current_timing w (str ''match'') ?s')) p = Some (p, fin)" using wire_report by blast
  have "snd (dicod_match_word_all w s strat word) =
      [Begin None, Put (fst match_begfmt @ dec (length (concat (map match_lines rs))) @ snd match_begfmt)] @
      concat (map (\<lambda>(db, res, n). print_matches db res word n) rs) @
      [Put (str ''.'' @ [0x0a] @ str ''250 Command complete'')] @ snd (report_current_timing w (str ''match'') ?s') @ [Put [0x0a], Tally, Finish]"
    unfolding dicod_match_word_all_def dicod_word_all_def Let_def length_match_lines using r d n by (simp add: case_prod_beta del: sum_list_eq_0_iff)
  then show ?thesis
    using wire_all_matches [OF assms(3), of word] f by (auto simp: wire_append match_reply_def match_begfmt_def)
qed

lemma single_wire:
  assumes "\<forall>l\<in>set (match_lines (db, res, n)). sendable l"
  shows "length (match_lines (db, res, n)) = n"
    "wire (print_matches db res word n) (Some []) = Some (Some [], dot_text True (text_of (match_lines (db, res, n))))"
  using wire_print_matches [OF assms] by (simp_all add: match_lines_def)

lemma match_first_wire:
  assumes "found_matches s (str ''!'') strat word = rs" and "rs \<noteq> []" and "\<forall>l\<in>set (concat (map match_lines rs)). sendable l"
  shows "\<exists>fin. wire (snd (dicod_match_word_first w s strat word)) None = Some (None, match_reply (concat (map match_lines rs)) fin)"
proof -
  let ?s = "begin_timing s"
  obtain db res n where r: "first_result (database_list ?s) (Some strat) word = Some (db, res, n)" "rs = [(db, res, n)]"
    and d: "\<not> strat_denied ?s (Some strat) word"
    using assms(1,2) by (cases "first_result (database_list s) (Some strat) word") (auto simp: found_matches_def split: if_split_asm)
  let ?s' = "?s\<lparr>current_stat := set_compares db res (count_stat (Some strat) n (current_stat ?s))\<rparr>"
  obtain fin where f: "\<And>p. wire (snd (report_current_timing w (str ''match'') ?s')) p = Some (p, fin)" using wire_report by blast
  have s: "\<forall>l\<in>set (match_lines (db, res, n)). sendable l" using assms(3) r(2) by simp
  have "snd (dicod_match_word_first w s strat word) =
      [Begin None, Put (fst match_begfmt @ dec n @ snd match_begfmt)] @ print_matches db res word n @
      [Put (str ''.'' @ [0x0a] @ str ''250 Command complete'')] @ snd (report_current_timing w (str ''match'') ?s') @ [Put [0x0a], Tally, Finish]"
    unfolding dicod_match_word_first_def dicod_word_first_def Let_def using r(1) d by (simp add: case_prod_beta)
  then show ?thesis
    using single_wire [OF s] f r(2) by (auto simp: wire_append match_reply_def match_begfmt_def)
qed

lemma match_db_wire:
  assumes "dico_match (db_module db) (db_mod_handle db) strat word = Some res" and "dico_result_count (db_module db) res = n" and "n \<noteq> 0"
    and "\<forall>l\<in>set (match_lines (db, res, n)). sendable l"
  shows "\<exists>fin. wire (snd (dicod_match_word_db w s db strat word)) None = Some (None, match_reply (match_lines (db, res, n)) fin)"
proof -
  let ?s = "begin_timing s"
  let ?s' = "?s\<lparr>current_stat := set_compares db res ((current_stat ?s)\<lparr>n_matches := of_nat n\<rparr>)\<rparr>"
  obtain fin where f: "\<And>p. wire (snd (report_current_timing w (str ''match'') ?s')) p = Some (p, fin)" using wire_report by blast
  have "snd (dicod_match_word_db w s db strat word) =
      [Put (fst match_begfmt @ dec n @ snd match_begfmt), Begin None] @ print_matches db res word n @
      [Tally, Finish, Put (str ''.'' @ [0x0a]), Put (str ''250 Command complete'')] @ snd (report_current_timing w (str ''match'') ?s') @ [Put [0x0a]]"
    unfolding dicod_match_word_db_def Let_def using assms(1-3) by (simp add: case_prod_beta)
  then show ?thesis
    using single_wire [OF assms(4)] f by (auto simp: wire_append match_reply_def match_begfmt_def)
qed

lemma dicod_match_wire:
  assumes "strategy_find s name = Some strat" and "found_matches s dbname strat word = rs" and "rs \<noteq> []"
    and "\<forall>l\<in>set (concat (map match_lines rs)). sendable l"
  shows "\<exists>s' as fin. dicod_match w s [kw, dbname, name, word] = Some (s', as) \<and>
    wire as None = Some (None, match_reply (concat (map match_lines rs)) fin)"
proof -
  consider "dbname = str ''!''" | "dbname = str ''*''" | "dbname \<noteq> str ''!''" "dbname \<noteq> str ''*''" by blast
  then show ?thesis
  proof cases
    case 1
    with assms match_first_wire [of s strat word rs w] show ?thesis
      by (cases "dicod_match_word_first w s strat word") (auto simp: dicod_match_def)
  next
    case 2
    with assms match_all_wire [of s strat word rs w] show ?thesis
      by (cases "dicod_match_word_all w s strat word") (auto simp: dicod_match_def)
  next
    case 3
    obtain db res n where f: "find_database (database_list s) dbname = Some db"
      "dico_match (db_module db) (db_mod_handle db) strat word = Some res" "dico_result_count (db_module db) res = n" "n \<noteq> 0" "rs = [(db, res, n)]"
      using assms(2,3) 3 by (auto simp: found_matches_def Let_def split: option.split_asm if_split_asm)
    have "\<forall>l\<in>set (match_lines (db, res, n)). sendable l" using assms(4) f(5) by simp
    from match_db_wire [OF f(2-4) this, of w s] f 3 assms(1) show ?thesis
      by (cases "dicod_match_word_db w s db strat word") (auto simp: dicod_match_def)
  qed
qed


lemma pipe_no_ctl: "d_ctl (s_drv (pipe_stream i f typ sz)) = None"
  by (simp add: pipe_stream_def dico_fd_stream_create_def dico_stream_create_def no_driver_def
      dico_stream_set_buffer_def Let_def dico_stream_set_write_def dico_stream_set_read_def dico_stream_set_seek_def dico_stream_set_size_def
      dico_stream_set_destroy_def dico_stream_set_close_def)

interpretation pipe_client: client_transport "fd_write pipe_posix" "\<lambda>p. True" "\<lambda>p. snd (fst p)"
    "s_drv (pipe_stream [] {DICO_STREAM_WRITE} dico_buffer_line 512)"
  by unfold_locales (simp_all add: pipe_stream_fields pipe_no_ctl pipe.fd_out.write_some)


end
