(* ===== verification/Dico_Select.thy ===== *)
theory Dico_Select
  imports Dico_Strat Dico_Lev Dico_Tokenize Dico_Acl Dico_Dispatch
begin

text \<open>
  The selectors of match strategies: the defaults of the server (\<^verbatim>\<open>dicod/dicod.c\<close>), the
  Levenshtein strategies (\<^verbatim>\<open>dicod/lev.c\<close>), and the modules \<^verbatim>\<open>word\<close>, \<^verbatim>\<open>nprefix\<close>, \<^verbatim>\<open>substr\<close> and
  \<^verbatim>\<open>stratall\<close>. A selector is called with an operation, the key and a word; it gives its return
  value and the key, whose \<^verbatim>\<open>call_data\<close> it may set. \<open>None\<close> is undefined behaviour.
\<close>

section \<open>Data\<close>

datatype select_fn =
    Exact_sel | Prefix_sel | Suffix_sel | Soundex_sel | Lev_sel | Word_sel | First_sel | Last_sel
  | Nprefix_sel | Substr_sel | All_sel

record nprefix =
  np_prefix :: bytes
  np_pfxlen :: nat
  np_lim :: bool
  np_skip :: "64 word"
  np_count :: "64 word"
  np_n :: "64 word"
  np_last_match_str :: "bytes option"
  np_last_match_len :: nat

record suffix_data =
  su_charlen :: nat
  su_bytelen :: nat

text \<open>What the selectors keep in \<^verbatim>\<open>call_data\<close>.\<close>

datatype call_data =
    CD_len nat | CD_suffix suffix_data | CD_code bytes | CD_nprefix nprefix | CD_sample wstring

type_synonym sel_key = "(select_fn, call_data) dico_key"

text \<open>
  \<open>se_mem\<close>: whether allocations succeed; \<open>se_unset\<close>: the value of an unset variable of the
  tokenizer; \<open>se_levdist\<close>: the static variable \<^verbatim>\<open>levenshtein_distance\<close>.
\<close>

record sel_env =
  se_mem :: bool
  se_unset :: nat
  se_levdist :: int

abbreviation set_data :: "sel_key \<Rightarrow> call_data \<Rightarrow> sel_key" where
  "set_data key d \<equiv> key\<lparr>k_call_data := Some d\<rparr>"

section \<open>The strategies of the server\<close>

definition exact_sel :: "select_op \<Rightarrow> sel_key \<Rightarrow> bytes option \<Rightarrow> (int \<times> sel_key) option" where
  "exact_sel opn key dict_word =
     (case opn of
        DICO_SELECT_RUN \<Rightarrow> do {
          kw \<leftarrow> k_word key;
          w \<leftarrow> dict_word;
          r \<leftarrow> utf8_strcasecmp kw w;
          Some (of_bool (r = 0), key) }
      | _ \<Rightarrow> Some (0, key))"

definition prefix_sel :: "select_op \<Rightarrow> sel_key \<Rightarrow> bytes option \<Rightarrow> (int \<times> sel_key) option" where
  "prefix_sel opn key dict_word =
     (case opn of
        DICO_SELECT_BEGIN \<Rightarrow> do {
          kw \<leftarrow> k_word key;
          n \<leftarrow> utf8_strlen kw;
          Some (0, set_data key (CD_len n)) }
      | DICO_SELECT_RUN \<Rightarrow>
          (case k_call_data key of
             Some (CD_len keylen) \<Rightarrow> do {
               kw \<leftarrow> k_word key;
               w \<leftarrow> dict_word;
               wordlen \<leftarrow> utf8_strlen w;
               (if wordlen \<ge> keylen
                then do { r \<leftarrow> utf8_strncasecmp w kw keylen; Some (of_bool (r = 0), key) }
                else Some (0, key)) }
           | _ \<Rightarrow> None)
      | DICO_SELECT_END \<Rightarrow> Some (0, key))"

text \<open>The two lengths are stored the wrong way round.\<close>

definition suffix_sel :: "sel_env \<Rightarrow> select_op \<Rightarrow> sel_key \<Rightarrow> bytes option \<Rightarrow> (int \<times> sel_key) option" where
  "suffix_sel en opn key dict_word =
     (case opn of
        DICO_SELECT_BEGIN \<Rightarrow>
          if \<not> se_mem en then Some (-1, key)
          else do {
            kw \<leftarrow> k_word key;
            n \<leftarrow> utf8_strlen kw;
            Some (0, set_data key (CD_suffix \<lparr>su_charlen = length kw, su_bytelen = n\<rparr>)) }
      | DICO_SELECT_RUN \<Rightarrow>
          (case k_call_data key of
             Some (CD_suffix suf) \<Rightarrow> do {
               kw \<leftarrow> k_word key;
               w \<leftarrow> dict_word;
               let wordlen = length w;
               (if wordlen \<ge> su_bytelen suf
                then do {
                  r \<leftarrow> utf8_strncasecmp (drop (wordlen - su_bytelen suf) w) kw (su_bytelen suf);
                  Some (of_bool (r = 0), key) }
                else Some (0, key)) }
           | _ \<Rightarrow> None)
      | DICO_SELECT_END \<Rightarrow> Some (0, key))"

definition soundex_sel :: "sel_env \<Rightarrow> select_op \<Rightarrow> sel_key \<Rightarrow> bytes option \<Rightarrow> (int \<times> sel_key) option" where
  "soundex_sel en opn key dict_word =
     (case opn of
        DICO_SELECT_BEGIN \<Rightarrow>
          if \<not> se_mem en then Some (1, key)
          else do {
            kw \<leftarrow> k_word key;
            code \<leftarrow> dico_soundex kw;
            Some (0, set_data key (CD_code code)) }
      | DICO_SELECT_RUN \<Rightarrow>
          (case k_call_data key of
             Some (CD_code code) \<Rightarrow> do {
               w \<leftarrow> dict_word;
               dcode \<leftarrow> dico_soundex w;
               Some (of_bool (dcode = code), key) }
           | _ \<Rightarrow> None)
      | DICO_SELECT_END \<Rightarrow> Some (0, key))"

definition DICO_LEV_NORM :: nat where "DICO_LEV_NORM = 1"
definition DICO_LEV_DAMERAU :: nat where "DICO_LEV_DAMERAU = 2"

text \<open>The flags are the closure of the strategy.\<close>

definition lev_sel :: "sel_env \<Rightarrow> select_op \<Rightarrow> sel_key \<Rightarrow> bytes option \<Rightarrow> (int \<times> sel_key) option" where
  "lev_sel en opn key dict_word =
     (if opn = DICO_SELECT_RUN
      then do {
        kw \<leftarrow> k_word key;
        w \<leftarrow> dict_word;
        strat \<leftarrow> k_strat key;
        let m = se_mem en;
        dist \<leftarrow> dico_levenshtein_distance (m, m, m) kw w (odd (s_closure strat)) (odd (s_closure strat div 2));
        Some (if dist < 0 then 0 else of_bool (dist \<le> se_levdist en), key) }
      else Some (0, key))"

section \<open>The module word\<close>

fun word_scan :: "bytes \<Rightarrow> dico_tokbuf \<Rightarrow> nat list \<Rightarrow> int option" where
  "word_scan kw tb [] = Some 0"
| "word_scan kw tb (i # is) = do {
     t \<leftarrow> tkn_read tb i;
     r \<leftarrow> utf8_strcasecmp t kw;
     (if r = 0 then Some 1 else word_scan kw tb is) }"

text \<open>The tokens of a word; an error of the tokenizer makes the selector return 0.\<close>

definition tokens_sel :: "sel_env \<Rightarrow> (dico_tokbuf \<Rightarrow> nat list) \<Rightarrow> select_op \<Rightarrow> sel_key \<Rightarrow> bytes option \<Rightarrow> (int \<times> sel_key) option" where
  "tokens_sel en which opn key dict_word =
     (case opn of
        DICO_SELECT_RUN \<Rightarrow> do {
          kw \<leftarrow> k_word key;
          w \<leftarrow> dict_word;
          (tb, rc) \<leftarrow> dico_tokenize_string (\<lambda>_. se_mem en) (se_mem en) (se_unset en) dico_tokenize_begin w;
          (if rc \<noteq> None then Some (0, key)
           else do { r \<leftarrow> word_scan kw tb (which tb); Some (r, key) }) }
      | _ \<Rightarrow> Some (0, key))"

definition word_sel :: "sel_env \<Rightarrow> select_op \<Rightarrow> sel_key \<Rightarrow> bytes option \<Rightarrow> (int \<times> sel_key) option" where
  "word_sel en = tokens_sel en (\<lambda>tb. [0..<tb_tokc tb])"

definition first_sel :: "sel_env \<Rightarrow> select_op \<Rightarrow> sel_key \<Rightarrow> bytes option \<Rightarrow> (int \<times> sel_key) option" where
  "first_sel en = tokens_sel en (\<lambda>tb. if tb_tokc tb \<noteq> 0 then [0] else [])"

definition last_sel :: "sel_env \<Rightarrow> select_op \<Rightarrow> sel_key \<Rightarrow> bytes option \<Rightarrow> (int \<times> sel_key) option" where
  "last_sel en = tokens_sel en (\<lambda>tb. if tb_tokc tb \<noteq> 0 then [tb_tokc tb - 1] else [])"

section \<open>The module nprefix\<close>

text \<open>The argument \<open>skip#count#prefix\<close>, or a prefix alone.\<close>

definition nprefix_parse :: "bytes \<Rightarrow> nprefix option" where
  "nprefix_parse key_word =
     (let np = \<lparr>np_prefix = key_word, np_pfxlen = 0, np_lim = False, np_skip = 0, np_count = 0, np_n = 0,
                np_last_match_str = None, np_last_match_len = 0\<rparr>;
          (skip, p) = strtoul10 key_word;
          np = (if p \<noteq> [] \<and> hd p = 0x23
                then let (cnt, q) = strtoul10 (tl p) in
                     if q \<noteq> [] \<and> hd q = 0x23
                     then np\<lparr>np_prefix := tl q, np_skip := skip, np_count := cnt, np_lim := True\<rparr> else np
                else np)
      in map_option (\<lambda>n. np\<lparr>np_pfxlen := n\<rparr>) (utf8_strlen (np_prefix np)))"

definition nprefix_run :: "sel_env \<Rightarrow> nprefix \<Rightarrow> bytes \<Rightarrow> (int \<times> nprefix) option" where
  "nprefix_run en np w = do {
     same \<leftarrow> (case np_last_match_str np of None \<Rightarrow> Some False | Some l \<Rightarrow> map_option (\<lambda>r. r = 0) (utf8_strcasecmp w l));
     (if same then Some (0, np)
      else if np_lim np \<and> np_n np > np_skip np + np_count np then Some (0, np)
      else do {
        wordlen \<leftarrow> utf8_strlen w;
        r \<leftarrow> (if wordlen \<ge> np_pfxlen np then utf8_strncasecmp w (np_prefix np) (np_pfxlen np) else Some 1);
        (if r \<noteq> 0 then Some (0, np)
         else
           let s = length w + 1 in
           if np_last_match_len np < s \<and> \<not> se_mem en then Some (0, np)
           else
             let np = np\<lparr>np_last_match_len := max (np_last_match_len np) s, np_last_match_str := Some w\<rparr> in
             if \<not> np_lim np then Some (1, np)
             else let np = np\<lparr>np_n := np_n np + 1\<rparr> in
               Some (of_bool (np_n np > np_skip np \<and> np_n np \<le> np_skip np + np_count np), np)) }) }"

definition nprefix_sel :: "sel_env \<Rightarrow> select_op \<Rightarrow> sel_key \<Rightarrow> bytes option \<Rightarrow> (int \<times> sel_key) option" where
  "nprefix_sel en opn key dict_word =
     (case opn of
        DICO_SELECT_BEGIN \<Rightarrow>
          if \<not> se_mem en then Some (1, key)
          else do {
            kw \<leftarrow> k_word key;
            np \<leftarrow> nprefix_parse kw;
            Some (0, set_data key (CD_nprefix np)) }
      | DICO_SELECT_RUN \<Rightarrow>
          (case k_call_data key of
             Some (CD_nprefix np) \<Rightarrow> do {
               w \<leftarrow> dict_word;
               (r, np) \<leftarrow> nprefix_run en np w;
               Some (r, set_data key (CD_nprefix np)) }
           | _ \<Rightarrow> None)
      | DICO_SELECT_END \<Rightarrow> Some (0, key))"

section \<open>The modules substr and stratall\<close>

definition substr_sel :: "sel_env \<Rightarrow> select_op \<Rightarrow> sel_key \<Rightarrow> bytes option \<Rightarrow> (int \<times> sel_key) option" where
  "substr_sel en opn key dict_word =
     (case opn of
        DICO_SELECT_BEGIN \<Rightarrow> do {
          kw \<leftarrow> k_word key;
          (case utf8_mbstr_to_wc (se_mem en) kw of
             Inl _ \<Rightarrow> Some (1, key)
           | Inr (sample, _) \<Rightarrow> Some (0, set_data key (CD_sample (utf8_wc_strupper sample)))) }
      | DICO_SELECT_RUN \<Rightarrow>
          (case k_call_data key of
             Some (CD_sample sample) \<Rightarrow> do {
               w \<leftarrow> dict_word;
               (case utf8_mbstr_to_wc (se_mem en) w of
                  Inl _ \<Rightarrow> Some (0, key)
                | Inr (tmp, _) \<Rightarrow> Some (of_bool (utf8_wc_strstr (utf8_wc_strupper tmp) sample \<noteq> None), key)) }
           | _ \<Rightarrow> None)
      | DICO_SELECT_END \<Rightarrow> Some (0, key))"

definition all_sel :: "select_op \<Rightarrow> sel_key \<Rightarrow> bytes option \<Rightarrow> (int \<times> sel_key) option" where
  "all_sel opn key dict_word = Some (of_bool (opn = DICO_SELECT_RUN), key)"

section \<open>Calling a selector\<close>

definition selector_of :: "sel_env \<Rightarrow> select_fn \<Rightarrow> select_op \<Rightarrow> sel_key \<Rightarrow> bytes option \<Rightarrow> (int \<times> sel_key) option" where
  "selector_of en f =
     (case f of
        Exact_sel \<Rightarrow> exact_sel | Prefix_sel \<Rightarrow> prefix_sel | Suffix_sel \<Rightarrow> suffix_sel en | Soundex_sel \<Rightarrow> soundex_sel en
      | Lev_sel \<Rightarrow> lev_sel en | Word_sel \<Rightarrow> word_sel en | First_sel \<Rightarrow> first_sel en | Last_sel \<Rightarrow> last_sel en
      | Nprefix_sel \<Rightarrow> nprefix_sel en | Substr_sel \<Rightarrow> substr_sel en | All_sel \<Rightarrow> all_sel)"

text \<open>
  A selector for the functions of search keys. Their state is a flag that is lost when a
  selector has undefined behaviour.
\<close>

definition run_select :: "sel_env \<Rightarrow> (select_fn, call_data, bool) selector" where
  "run_select en f opn key dict_word ok =
     (case selector_of en f opn key dict_word of
        None \<Rightarrow> (0, key, False)
      | Some (r, key) \<Rightarrow> (r, key, ok))"

section \<open>Registration\<close>

definition select_strat :: "string \<Rightarrow> string \<Rightarrow> select_fn \<Rightarrow> nat \<Rightarrow> select_fn strategy" where
  "select_strat name dsc f closure =
     \<lparr>s_name = str name, s_descr = str dsc, s_sel = Some f, s_closure = closure, s_is_default = False, s_stratcl = None\<rparr>"

definition defstrat :: "select_fn strategy list" where
  "defstrat =
     [select_strat ''exact'' ''Match words exactly'' Exact_sel 0,
      select_strat ''prefix'' ''Match word prefixes'' Prefix_sel 0,
      select_strat ''suffix'' ''Match word suffixes'' Suffix_sel 0,
      select_strat ''soundex'' ''Match using SOUNDEX algorithm'' Soundex_sel 0]"

definition levstrat :: "select_fn strategy list" where
  "levstrat =
     [select_strat ''lev'' ''Match headwords within given Levenshtein distance'' Lev_sel 0,
      select_strat ''nlev'' ''Match headwords within given Levenshtein distance (normalized)'' Lev_sel DICO_LEV_NORM,
      select_strat ''dlev'' ''Match headwords within given Damerau-Levenshtein distance'' Lev_sel DICO_LEV_DAMERAU,
      select_strat ''ndlev'' ''Match headwords within given Damerau-Levenshtein distance (normalized)'' Lev_sel
        (DICO_LEV_NORM + DICO_LEV_DAMERAU)]"

definition strats :: "select_fn strategy list" where
  "strats =
     [select_strat ''word'' ''Match a word anywhere in the headword'' Word_sel 0,
      select_strat ''first'' ''Match the first word within headwords'' First_sel 0,
      select_strat ''last'' ''Match the last word within headwords'' Last_sel 0]"

definition nprefix_strat :: "select_fn strategy" where
  "nprefix_strat = select_strat ''nprefix'' ''Match prefixes, [skip#count#]prefix'' Nprefix_sel 0"

definition substr_strat :: "select_fn strategy" where
  "substr_strat = select_strat ''substr'' ''Match a substring anywhere in the headword'' Substr_sel 0"

definition all_strat :: "select_fn strategy" where
  "all_strat = select_strat ''all'' ''Match everything (experimental)'' All_sel 0"

text \<open>The result of \<^verbatim>\<open>dico_strategy_add\<close> is not looked at.\<close>

fun add_strategies :: "select_fn strategy list \<Rightarrow> select_fn strat_state \<Rightarrow> select_fn strat_state option" where
  "add_strategies [] st = Some st"
| "add_strategies (s # ss) st = do {
     (_, st) \<leftarrow> dico_strategy_add st s;
     add_strategies ss st }"

definition dicod_init_strategies :: "select_fn strat_state \<Rightarrow> select_fn strat_state option" where
  "dicod_init_strategies st = add_strategies defstrat st"

definition findstrat :: "bytes \<Rightarrow> select_fn strategy option" where
  "findstrat name = find (\<lambda>sp. strcmp (s_name sp) name = 0) strats"

definition word_init :: "bytes list \<Rightarrow> select_fn strat_state \<Rightarrow> select_fn strat_state option" where
  "word_init argv st =
     (if length argv = 1 then add_strategies strats st
      else add_strategies (List.map_filter findstrat (tl argv)) st)"

definition nprefix_init :: "select_fn strat_state \<Rightarrow> select_fn strat_state option" where
  "nprefix_init st = add_strategies [nprefix_strat] st"

definition substr_init :: "select_fn strat_state \<Rightarrow> select_fn strat_state option" where
  "substr_init st = add_strategies [substr_strat] st"

definition stratall_init :: "select_fn strat_state \<Rightarrow> select_fn strat_state option" where
  "stratall_init st = add_strategies [all_strat] st"

section \<open>Capabilities\<close>

text \<open>
  The registrations at the start of the server. \<^verbatim>\<open>register_lev\<close> also adds its strategies and makes
  one of them the default; \<open>auth_init\<close> tells whether there is a user database.
\<close>

definition register_lev ::
  "select_fn strat_state \<Rightarrow> 's dicod_capa list \<Rightarrow> (select_fn strat_state \<times> 's dicod_capa list) option" where
  "register_lev st capas = do {
     st \<leftarrow> add_strategies levstrat st;
     r \<leftarrow> dico_set_default_strategy st (str ''nlev'');
     let st = (case r of Inl _ \<Rightarrow> st | Inr st \<Rightarrow> st);
     Some (st, dicod_capa_register capas (str ''xlev'')
       (Some [cmd ''XLEV'' 2 (Some 2) (Some ''distance'') ''Set Levenshtein distance'' H_xlevdist]) None) }"

definition register_auth :: "('s \<Rightarrow> bool) \<Rightarrow> 's dicod_capa list \<Rightarrow> 's dicod_capa list" where
  "register_auth auth_init capas =
     dicod_capa_register capas (str ''auth'')
       (Some [cmd ''AUTH'' 3 (Some 3) (Some ''user string'') ''provide authentication information'' H_auth]) (Some auth_init)"

definition register_mime :: "'s dicod_capa list \<Rightarrow> 's dicod_capa list" where
  "register_mime capas =
     dicod_capa_register capas (str ''mime'') (Some [cmd ''OPTION MIME'' 2 (Some 2) None ''use MIME headers'' H_mime]) None"

definition register_lang :: "'s dicod_capa list \<Rightarrow> 's dicod_capa list" where
  "register_lang capas =
     dicod_capa_register capas (str ''lang'')
       (Some
         [cmd ''OPTION LANG'' 2 None (Some ''[list]'') ''define language preferences'' H_lang,
          cmd ''SHOW LANG DB'' 3 (Some 3) None ''show databases with their language preferences'' H_show_lang_db,
          cmd ''SHOW LANG DATABASES'' 3 (Some 3) None ''show databases with their language preferences'' H_show_lang_db,
          cmd ''SHOW LANG INFO'' 4 (Some 4) (Some ''database'') ''show language preferences of a database'' H_show_lang_info,
          cmd ''SHOW LANG PREF'' 3 (Some 3) None ''show server language preferences'' H_show_lang_pref])
       None"

definition register_xidle :: "'s dicod_capa list \<Rightarrow> 's dicod_capa list" where
  "register_xidle capas =
     dicod_capa_register capas (str ''xidle'')
       (Some [cmd ''XIDLE'' 1 (Some 1) None ''report inactivity timeout, reset idle timer'' H_xidle]) None"

definition register_xversion :: "'s dicod_capa list \<Rightarrow> 's dicod_capa list" where
  "register_xversion capas =
     dicod_capa_register capas (str ''xversion'')
       (Some [cmd ''XVERSION'' 1 (Some 1) None ''show implementation and version info'' H_xversion]) None"

text \<open>\<open>None\<close> of \<open>register_markup\<close> is also the end of the program when there is no memory.\<close>

definition register_markup :: "markup_state \<Rightarrow> 's dicod_capa list \<Rightarrow> (markup_state \<times> 's dicod_capa list) option" where
  "register_markup mk capas = do {
     let capas = dicod_capa_register capas (str ''markup'')
           (Some [cmd ''OPTION MARKUP'' 2 (Some 3) (Some ''type'') ''Set output markup type'' H_markup]) None;
     (e, mk) \<leftarrow> dico_markup_register mk (str ''none'');
     (if e \<noteq> None then None else Some (mk, capas)) }"

text \<open>The list of markup names is that of the registry.\<close>

definition markup_flush_capa :: "bytes list \<Rightarrow> 's dicod_capa list \<Rightarrow> 's dicod_capa list" where
  "markup_flush_capa names capas =
     fold (\<lambda>p l. let n = str ''markup-'' @ p in fst (dicod_capa_add (dicod_capa_register l n None None) n)) names capas"

end
