(* ===== verification/Dico_Dictstr.thy ===== *)
theory Dico_Dictstr
  imports Dico_Drivers
begin

text \<open>
  The dictionary streams of the module \<^verbatim>\<open>dictorg\<close> (\<^verbatim>\<open>modules/dict.org/dictstr.c\<close>): a plain
  text, or a \<^verbatim>\<open>dictzip\<close> file, a gzip file whose header has a table of chunks that can be
  inflated one by one. The stream keeps a cache of inflated chunks, ordered by how often they
  were asked for. It sits on a mapped file, which is the stream of \<^verbatim>\<open>lib/mapstream.c\<close>.

  The decompressor \<^verbatim>\<open>zlib\<close> is a parameter (\<open>zlib\<close>): its states are the type \<open>'z\<close>, and a
  call of \<^verbatim>\<open>inflate\<close> gets the input and the room for the output and gives the next state,
  the return code (0 is \<^verbatim>\<open>Z_OK\<close>), the number of input bytes left over and the output.
  Allocations succeed; \<open>None\<close> is undefined behaviour: an access outside of an array or a buffer, a
  division by zero, or a variable that is read before it is set.
\<close>

unbundle bit_operations_syntax

section \<open>Data\<close>

datatype dict_type = DICTORG_UNKNOWN | DICTORG_TEXT | DICTORG_GZIP | DICTORG_DZIP

definition DE_UNKNOWN_FORMAT :: int where "DE_UNKNOWN_FORMAT = -1"
definition DE_UNSUPPORTED_FORMAT :: int where "DE_UNSUPPORTED_FORMAT = -2"
definition DE_UNSUPPORTED_VERSION :: int where "DE_UNSUPPORTED_VERSION = -3"
definition DE_BAD_HEADER :: int where "DE_BAD_HEADER = -4"
definition DE_GZIP_SEEK :: int where "DE_GZIP_SEEK = -5"
definition DE_INFLATE :: int where "DE_INFLATE = -6"

definition GZ_MAGIC1 :: byte where "GZ_MAGIC1 = 0x1f"
definition GZ_MAGIC2 :: byte where "GZ_MAGIC2 = 0x8b"
definition GZ_FHCRC :: byte where "GZ_FHCRC = 0x02"
definition GZ_FEXTRA :: byte where "GZ_FEXTRA = 0x04"
definition GZ_FNAME :: byte where "GZ_FNAME = 0x08"
definition GZ_COMMENT :: byte where "GZ_COMMENT = 0x10"
definition GZ_RND_S1 :: byte where "GZ_RND_S1 = of_char (CHR ''R'')"
definition GZ_RND_S2 :: byte where "GZ_RND_S2 = of_char (CHR ''A'')"
definition GZ_XLEN :: nat where "GZ_XLEN = 10"

lemmas gz_defs = GZ_MAGIC1_def GZ_MAGIC2_def GZ_FHCRC_def GZ_FEXTRA_def GZ_FNAME_def GZ_COMMENT_def
  GZ_RND_S1_def GZ_RND_S2_def GZ_XLEN_def

lemmas de_defs = DE_UNKNOWN_FORMAT_def DE_UNSUPPORTED_FORMAT_def DE_UNSUPPORTED_VERSION_def DE_BAD_HEADER_def
  DE_GZIP_SEEK_def DE_INFLATE_def

record 'z zlib =
  zl_init :: "'z option"
  zl_inflate :: "'z \<Rightarrow> bytes \<Rightarrow> nat \<Rightarrow> 'z \<times> int \<times> nat \<times> bytes"

record dict_chunk =
  ch_length :: nat
  ch_offset :: nat

record chunk_cache =
  cc_num :: int
  cc_buffer :: bytes
  cc_size :: nat
  cc_refcount :: "32 word"

text \<open>
  \<open>ds_zstream\<close> is \<open>None\<close> until the engine is initialised (\<^verbatim>\<open>zstr_ready\<close>). Of the
  decompression buffer only the size matters, and of a buffer in the cache the bytes that were
  written into it.
\<close>

record 'z dict_stream =
  ds_type :: dict_type
  ds_transport :: "mapfile dico_stream"
  ds_transport_error :: int
  ds_header_length :: nat
  ds_method :: byte
  ds_gzflags :: byte
  ds_mtime :: "32 word"
  ds_extra_flags :: byte
  ds_os :: byte
  ds_version :: nat
  ds_chunk_size :: nat
  ds_chunk_count :: nat
  ds_chunk :: "dict_chunk list"
  ds_orig_name :: "bytes option"
  ds_comment :: "bytes option"
  ds_crc :: "32 word"
  ds_size :: nat
  ds_compressed_size :: int
  ds_offset :: nat
  ds_zstream :: "'z option"
  ds_cache_size :: nat
  ds_cache :: "chunk_cache list"

section \<open>The cache of chunks\<close>

definition cache_create_chunk :: chunk_cache where
  "cache_create_chunk = \<lparr>cc_num = -1, cc_buffer = [], cc_size = 0, cc_refcount = 0\<rparr>"

text \<open>\<^verbatim>\<open>cache_alloc\<close>: a new slot while there is room, and the last one afterwards.\<close>

definition cache_alloc :: "'z dict_stream \<Rightarrow> 'z dict_stream \<times> nat" where
  "cache_alloc d =
     (if length (ds_cache d) < ds_cache_size d
      then (d\<lparr>ds_cache := ds_cache d @ [cache_create_chunk]\<rparr>, length (ds_cache d))
      else let n = length (ds_cache d) - 1 in
        (d\<lparr>ds_cache := (ds_cache d)[n := (ds_cache d ! n)\<lparr>cc_refcount := 0, cc_num := -1\<rparr>]\<rparr>, n))"

definition cache_destroy :: "'z dict_stream \<Rightarrow> 'z dict_stream" where
  "cache_destroy d = d\<lparr>ds_cache := []\<rparr>"

text \<open>The place a slot with this count moves up to, from below position \<open>n\<close>.\<close>

fun promote_to :: "chunk_cache list \<Rightarrow> 32 word \<Rightarrow> nat \<Rightarrow> nat" where
  "promote_to cache refcount 0 = 0"
| "promote_to cache refcount (Suc i) =
     (if cc_refcount (cache ! i) \<ge> refcount then Suc i else promote_to cache refcount i)"

text \<open>The result of \<^verbatim>\<open>cache_promote\<close> is where the slot is now.\<close>

definition cache_promote :: "chunk_cache list \<Rightarrow> nat \<Rightarrow> chunk_cache list \<times> nat" where
  "cache_promote cache n =
     (let refcount = cc_refcount (cache ! n) + 1;
          cache = cache[n := (cache ! n)\<lparr>cc_refcount := refcount\<rparr>];
          i = promote_to cache refcount n
      in (if i \<noteq> n then cache[n := cache ! i, i := cache ! n] else cache, i))"

definition cache_find :: "chunk_cache list \<Rightarrow> nat \<Rightarrow> nat option" where
  "cache_find cache chunk_num =
     (let i = length (takeWhile (\<lambda>c. cc_num c \<noteq> int chunk_num) cache) in if i < length cache then Some i else None)"

definition inflate_init :: "'z zlib \<Rightarrow> 'z dict_stream \<Rightarrow> 'z option" where
  "inflate_init zl d = (case ds_zstream d of Some z \<Rightarrow> Some z | None \<Rightarrow> zl_init zl)"

text \<open>
  The part of \<^verbatim>\<open>cache_get\<close> that fills the slot \<open>i\<close>. A failed read is not noticed
  (\<^verbatim>\<open>dico_stream_read\<close> returns positive codes), and then \<^verbatim>\<open>rdbytes\<close> is not set. The chunk is
  read into a buffer of \<open>chunk_size\<close> bytes.
\<close>

definition cache_fill :: "'z zlib \<Rightarrow> 'z dict_stream \<Rightarrow> nat \<Rightarrow> nat \<Rightarrow> ('z dict_stream \<times> int) option" where
  "cache_fill zl d chunk_num i =
     (if chunk_num < length (ds_chunk d)
      then do {
        (t, pos) \<leftarrow> dico_stream_seek (ds_transport d) (int (ch_offset (ds_chunk d ! chunk_num))) DICO_SEEK_SET;
        let d = d\<lparr>ds_transport := t\<rparr>;
        (if pos < 0 then Some (d\<lparr>ds_transport_error := dico_stream_last_error t\<rparr>, dico_stream_last_error t)
         else case inflate_init zl d of
           None \<Rightarrow> Some (d, DE_INFLATE)
         | Some z \<Rightarrow> do {
             (t, rc, bs) \<leftarrow> dico_stream_read t (ch_length (ds_chunk d ! chunk_num)) True;
             let d = d\<lparr>ds_transport := t, ds_zstream := Some z\<rparr>;
             (if rc < 0 then Some (d\<lparr>ds_transport_error := dico_stream_last_error t\<rparr>, dico_stream_last_error t)
              else if rc \<noteq> 0 \<or> length bs > ds_chunk_size d then None
              else case zl_inflate zl z bs (ds_chunk_size d) of (z, ret, avail_in, out) \<Rightarrow>
                if length out > ds_chunk_size d then None
                else
                  let c = ds_cache d ! i;
                      c = c\<lparr>cc_buffer := out @ drop (length out) (cc_buffer c)\<rparr>;
                      d = d\<lparr>ds_zstream := Some z\<rparr>
                  in if ret \<noteq> 0 \<or> avail_in \<noteq> 0
                     then Some (d\<lparr>ds_cache := (ds_cache d)[i := c]\<rparr>, DE_INFLATE)
                     else Some (d\<lparr>ds_cache := (ds_cache d)[i := c\<lparr>cc_size := length out\<rparr>]\<rparr>, 0)) }) }
      else None)"

text \<open>\<^verbatim>\<open>cache_get\<close>: the result is the return code and the slot.\<close>

definition cache_get :: "'z zlib \<Rightarrow> 'z dict_stream \<Rightarrow> nat \<Rightarrow> ('z dict_stream \<times> int \<times> nat) option" where
  "cache_get zl d chunk_num =
     (case cache_find (ds_cache d) chunk_num of
        Some i \<Rightarrow> (case cache_promote (ds_cache d) i of (cache, i) \<Rightarrow> Some (d\<lparr>ds_cache := cache\<rparr>, 0, i))
      | None \<Rightarrow>
          (case cache_alloc d of (d, i) \<Rightarrow>
             let cache = (ds_cache d)[i := (ds_cache d ! i)\<lparr>cc_num := int chunk_num\<rparr>] in
             case cache_promote cache i of (cache, i) \<Rightarrow>
               map_option (\<lambda>(d, rc). (d, rc, i)) (cache_fill zl (d\<lparr>ds_cache := cache\<rparr>) chunk_num i)))"

section \<open>Reading and positioning\<close>

partial_function (option) read_dzip_loop ::
  "'z zlib \<Rightarrow> 'z dict_stream \<Rightarrow> nat \<Rightarrow> nat \<Rightarrow> nat \<Rightarrow> bytes \<Rightarrow> ('z dict_stream \<times> int \<times> bytes) option" where
  "read_dzip_loop zl d sz chunk_num chunk_off acc =
     (if sz = 0 then Some (d, 0, acc)
      else do {
        (d, rc, i) \<leftarrow> cache_get zl d chunk_num;
        (if rc \<noteq> 0 then Some (d, rc, acc)
         else
           let cp = ds_cache d ! i;
               n = min sz (nat ((int (cc_size cp) - int chunk_off) mod 2 ^ 64))
           in if chunk_off + n > length (cc_buffer cp) then None
              else read_dzip_loop zl (d\<lparr>ds_offset := ds_offset d + n\<rparr>) (sz - n) (Suc chunk_num) 0
                     (acc @ take n (drop chunk_off (cc_buffer cp)))) })"

definition dict_read_dzip :: "'z zlib \<Rightarrow> 'z dict_stream \<Rightarrow> nat \<Rightarrow> ('z dict_stream \<times> (int + bytes)) option" where
  "dict_read_dzip zl d sz =
     (if ds_chunk_size d = 0 \<or> sz = 0 then None
      else do {
        let chunk_num = ds_offset d div ds_chunk_size d;
        (d, rc, bs) \<leftarrow> read_dzip_loop zl d sz chunk_num (ds_offset d - chunk_num * ds_chunk_size d) [];
        Some (d, if rc \<noteq> 0 then Inl rc else Inr bs) })"

definition dict_seek_dzip :: "'z dict_stream \<Rightarrow> int \<Rightarrow> whence \<Rightarrow> 'z dict_stream \<times> (int + int)" where
  "dict_seek_dzip d needle whence =
     (let finish = (\<lambda>offset. if offset < 0 \<or> offset > int (ds_size d) then (d, Inl (errcode EINVAL))
                             else (d\<lparr>ds_offset := nat offset\<rparr>, Inr offset)) in
      case whence of
        DICO_SEEK_SET \<Rightarrow> finish needle
      | DICO_SEEK_CUR \<Rightarrow> finish (int (ds_offset d) + needle)
      | DICO_SEEK_END \<Rightarrow> finish (int (ds_size d) + needle)
      | DICO_SEEK_OTHER \<Rightarrow> (d, Inl (errcode EINVAL)))"

definition dict_read_text :: "'z dict_stream \<Rightarrow> nat \<Rightarrow> ('z dict_stream \<times> (int + bytes)) option" where
  "dict_read_text d sz = do {
     (t, rc, bs) \<leftarrow> dico_stream_read (ds_transport d) sz True;
     (let d = d\<lparr>ds_transport := t\<rparr>; err = dico_stream_last_error t in
      Some (if rc \<noteq> 0 then (d\<lparr>ds_transport_error := err\<rparr>, Inl err) else (d, Inr bs))) }"

definition dict_read :: "'z zlib \<Rightarrow> 'z dict_stream \<Rightarrow> nat \<Rightarrow> ('z dict_stream \<times> (int + bytes)) option" where
  "dict_read zl d sz =
     (case ds_type d of
        DICTORG_UNKNOWN \<Rightarrow> Some (d, Inl DE_UNKNOWN_FORMAT)
      | DICTORG_TEXT \<Rightarrow> dict_read_text d sz
      | DICTORG_GZIP \<Rightarrow> Some (d, Inl DE_GZIP_SEEK)
      | DICTORG_DZIP \<Rightarrow> dict_read_dzip zl d sz)"

definition dict_seek_text :: "'z dict_stream \<Rightarrow> int \<Rightarrow> whence \<Rightarrow> ('z dict_stream \<times> (int + int)) option" where
  "dict_seek_text d needle whence = do {
     (t, off) \<leftarrow> dico_stream_seek (ds_transport d) needle whence;
     (let d = d\<lparr>ds_transport := t\<rparr>; err = dico_stream_last_error t in
      Some (if off < 0 then (d\<lparr>ds_transport_error := err\<rparr>, Inl err) else (d, Inr off))) }"

definition dict_seek :: "'z dict_stream \<Rightarrow> int \<Rightarrow> whence \<Rightarrow> ('z dict_stream \<times> (int + int)) option" where
  "dict_seek d needle whence =
     (case ds_type d of
        DICTORG_UNKNOWN \<Rightarrow> Some (d, Inl DE_UNKNOWN_FORMAT)
      | DICTORG_TEXT \<Rightarrow> dict_seek_text d needle whence
      | DICTORG_GZIP \<Rightarrow> Some (d, Inl DE_GZIP_SEEK)
      | DICTORG_DZIP \<Rightarrow> Some (dict_seek_dzip d needle whence))"

definition dict_close :: "'z dict_stream \<Rightarrow> ('z dict_stream \<times> int) option" where
  "dict_close d = do { (t, rc) \<leftarrow> dico_stream_close (ds_transport d); Some (d\<lparr>ds_transport := t\<rparr>, rc) }"

definition dict_destroy :: "'z dict_stream \<Rightarrow> ('z dict_stream \<times> int) option" where
  "dict_destroy d = do { _ \<leftarrow> dico_stream_destroy (ds_transport d); Some (cache_destroy d, 0) }"

text \<open>The transport's error is reported once.\<close>

definition dict_strerror :: "(int \<Rightarrow> bytes) \<Rightarrow> 'z dict_stream \<Rightarrow> int \<Rightarrow> 'z dict_stream \<times> bytes" where
  "dict_strerror strerror d rc =
     (if ds_transport_error d \<noteq> 0
      then (d\<lparr>ds_transport_error := 0\<rparr>, dico_stream_strerror strerror (ds_transport d) rc)
      else (d,
        if rc = DE_UNKNOWN_FORMAT then str ''unknown dictionary format''
        else if rc = DE_UNSUPPORTED_FORMAT then str ''unsupported dictionary format''
        else if rc = DE_UNSUPPORTED_VERSION then str ''unsupported dictionary version''
        else if rc = DE_BAD_HEADER then str ''malformed header''
        else if rc = DE_GZIP_SEEK then str ''cannot seek on pure gzip format files''
        else if rc = DE_INFLATE then str ''error decompressing stream''
        else strerror rc))"

section \<open>Opening\<close>

text \<open>
  The functions that read a number leave the variable of the caller as it is when the read
  fails, and \<^verbatim>\<open>_dict_open\<close> does not look at their results. A variable that is not set yet is
  \<open>None\<close>.
\<close>

definition stream_get8 :: "mapfile dico_stream \<Rightarrow> byte option \<Rightarrow> (mapfile dico_stream \<times> byte option) option" where
  "stream_get8 t var = do {
     (t, rc, bs) \<leftarrow> dico_stream_read t 1 False;
     Some (t, if rc = 0 then Some (bs ! 0) else var) }"

definition stream_get16 :: "mapfile dico_stream \<Rightarrow> nat option \<Rightarrow> (mapfile dico_stream \<times> nat option) option" where
  "stream_get16 t var = do {
     (t, rc, bs) \<leftarrow> dico_stream_read t 2 False;
     Some (t, if rc = 0 then Some (unat (bs ! 0) + unat (bs ! 1) * 2 ^ 8) else var) }"

definition stream_get32 :: "mapfile dico_stream \<Rightarrow> 32 word option \<Rightarrow> (mapfile dico_stream \<times> 32 word option) option" where
  "stream_get32 t var = do {
     (t, rc, bs) \<leftarrow> dico_stream_read t 4 False;
     Some (t, if rc = 0
              then Some (push_bit 24 (ucast (bs ! 3)) + push_bit 16 (ucast (bs ! 2)) + push_bit 8 (ucast (bs ! 1)) + ucast (bs ! 0))
              else var) }"

text \<open>The lengths in the table of chunks.\<close>

fun get_chunk_lengths :: "nat \<Rightarrow> mapfile dico_stream \<Rightarrow> nat option \<Rightarrow> (mapfile dico_stream \<times> nat option \<times> nat list) option" where
  "get_chunk_lengths 0 t var = Some (t, var, [])"
| "get_chunk_lengths (Suc i) t var = do {
     (t, var) \<leftarrow> stream_get16 t var;
     len \<leftarrow> var;
     (t, var, lens) \<leftarrow> get_chunk_lengths i t var;
     Some (t, var, len # lens) }"

fun set_chunk_offsets :: "nat \<Rightarrow> dict_chunk list \<Rightarrow> dict_chunk list" where
  "set_chunk_offsets offset [] = []"
| "set_chunk_offsets offset (c # cs) = c\<lparr>ch_offset := offset\<rparr> # set_chunk_offsets ((offset + ch_length c) mod 2 ^ 32) cs"

text \<open>
  The field of random access data; the sum is the error \<^verbatim>\<open>_dict_open\<close> returns at once, or the
  stream and \<^verbatim>\<open>buf16\<close>.
\<close>

definition open_extra ::
  "'z dict_stream \<Rightarrow> bytes \<Rightarrow> ('z dict_stream \<times> int) option" where
  "open_extra d magic = do {
     (t, buf16) \<leftarrow> stream_get16 (ds_transport d) None;
     xlen \<leftarrow> buf16;
     let d = d\<lparr>ds_header_length := ds_header_length d + xlen + 2\<rparr>;
     (t, rc, bs) \<leftarrow> dico_stream_read t 2 False;
     let magic = bs @ drop (length bs) magic;
     (if magic ! 0 = GZ_RND_S1 \<and> magic ! 1 = GZ_RND_S2
      then do {
        (t, _) \<leftarrow> dico_stream_seek t 2 DICO_SEEK_CUR;
        (t, buf16) \<leftarrow> stream_get16 t buf16;
        version \<leftarrow> buf16;
        let d = d\<lparr>ds_version := version\<rparr>;
        (if version \<noteq> 1 then Some (d\<lparr>ds_transport := t\<rparr>, DE_UNSUPPORTED_VERSION)
         else do {
           (t, buf16) \<leftarrow> stream_get16 t buf16;
           chunk_size \<leftarrow> buf16;
           (t, buf16) \<leftarrow> stream_get16 t buf16;
           chunk_count \<leftarrow> buf16;
           let d = d\<lparr>ds_chunk_size := chunk_size, ds_chunk_count := chunk_count\<rparr>;
           (if chunk_count = 0 then Some (d\<lparr>ds_transport := t\<rparr>, DE_BAD_HEADER)
            else do {
              (t, _, lens) \<leftarrow> get_chunk_lengths chunk_count t buf16;
              Some (d\<lparr>ds_transport := t, ds_chunk := map (\<lambda>len. \<lparr>ch_length = len, ch_offset = 0\<rparr>) lens,
                      ds_type := DICTORG_DZIP\<rparr>, 0) }) }) }
      else do {
        (t, _) \<leftarrow> dico_stream_seek t (int (ds_header_length d)) DICO_SEEK_SET;
        Some (d\<lparr>ds_transport := t\<rparr>, 0) }) }"

text \<open>A field that ends with a NUL: the name or the comment, without it, when it is there.\<close>

definition open_string ::
  "(nat \<Rightarrow> bool) \<Rightarrow> byte \<Rightarrow> 'z dict_stream \<Rightarrow> ('z dict_stream \<times> bytes option) option" where
  "open_string alloc flag d =
     (if ds_gzflags d AND flag \<noteq> 0
      then do {
        (t, _, line, _) \<leftarrow> dico_stream_getdelim alloc 0 (ds_transport d) None;
        Some (d\<lparr>ds_transport := t, ds_header_length := ds_header_length d + length line\<rparr>,
              Some (takeWhile (\<lambda>c. c \<noteq> 0) line)) }
      else Some (d, None))"

text \<open>The last part: the position is checked, the offsets are computed and the trailer is read.\<close>

definition open_finish :: "'z dict_stream \<Rightarrow> 32 word \<Rightarrow> ('z dict_stream \<times> int) option" where
  "open_finish d buf32 = do {
     (t, pos) \<leftarrow> dico_stream_seek (ds_transport d) 0 DICO_SEEK_CUR;
     let d = d\<lparr>ds_transport := t\<rparr>;
     (if pos mod 2 ^ 64 \<noteq> int (ds_header_length d + 1) then Some (d, DE_BAD_HEADER)
      else do {
        let d = d\<lparr>ds_chunk := set_chunk_offsets ((ds_header_length d + 1) mod 2 ^ 32) (ds_chunk d)\<rparr>;
        (t, _) \<leftarrow> dico_stream_seek t (-8) DICO_SEEK_END;
        (t, crc) \<leftarrow> stream_get32 t (Some buf32);
        (t, size32) \<leftarrow> stream_get32 t crc;
        (t, pos) \<leftarrow> dico_stream_seek t 0 DICO_SEEK_CUR;
        Some (d\<lparr>ds_transport := t, ds_crc := the crc, ds_size := unat (the size32), ds_compressed_size := pos\<rparr>,
              if dico_stream_last_error t \<noteq> 0 then DE_BAD_HEADER else 0) }) }"

text \<open>A gzip header after the magic numbers.\<close>

definition open_gzip :: "(nat \<Rightarrow> bool) \<Rightarrow> 'z dict_stream \<Rightarrow> bytes \<Rightarrow> ('z dict_stream \<times> int) option" where
  "open_gzip alloc d magic = do {
     (t, buf8) \<leftarrow> stream_get8 (ds_transport d) None;
     method \<leftarrow> buf8;
     (t, buf8) \<leftarrow> stream_get8 t buf8;
     gzflags \<leftarrow> buf8;
     (t, buf32) \<leftarrow> stream_get32 t None;
     mtime \<leftarrow> buf32;
     (t, buf8) \<leftarrow> stream_get8 t buf8;
     extra_flags \<leftarrow> buf8;
     (t, buf8) \<leftarrow> stream_get8 t buf8;
     os \<leftarrow> buf8;
     let d = d\<lparr>ds_transport := t, ds_method := method, ds_gzflags := gzflags, ds_mtime := mtime,
               ds_extra_flags := extra_flags, ds_os := os\<rparr>;
     (d, rc) \<leftarrow> (if gzflags AND GZ_FEXTRA \<noteq> 0 then open_extra d magic else Some (d, 0));
     (if rc \<noteq> 0 then Some (d, rc)
      else do {
        (d, name) \<leftarrow> open_string alloc GZ_FNAME d;
        (d, comment) \<leftarrow> open_string alloc GZ_COMMENT d;
        let d = d\<lparr>ds_orig_name := name, ds_comment := comment\<rparr>;
        d \<leftarrow> (if gzflags AND GZ_FHCRC \<noteq> 0
              then do {
                (t, _) \<leftarrow> dico_stream_seek (ds_transport d) 2 DICO_SEEK_CUR;
                Some (d\<lparr>ds_transport := t, ds_header_length := ds_header_length d + 2\<rparr>) }
              else Some d);
        open_finish d mtime }) }"

definition dict_open :: "(nat \<Rightarrow> bool) \<Rightarrow> 'z dict_stream \<Rightarrow> sflag set \<Rightarrow> ('z dict_stream \<times> int) option" where
  "dict_open alloc d flags = do {
     (t, rc) \<leftarrow> dico_stream_open (ds_transport d);
     let d = d\<lparr>ds_transport := t\<rparr>;
     (if rc \<noteq> 0 then Some (d\<lparr>ds_transport_error := dico_stream_last_error t\<rparr>, dico_stream_last_error t)
      else do {
        let d = d\<lparr>ds_header_length := GZ_XLEN - 1, ds_type := DICTORG_UNKNOWN\<rparr>;
        (t, rc, magic) \<leftarrow> dico_stream_read t 2 False;
        (if rc \<noteq> 0
         then do {
           (t, _) \<leftarrow> dico_stream_close t;
           Some (d\<lparr>ds_transport := t, ds_transport_error := dico_stream_last_error t\<rparr>, dico_stream_last_error t) }
         else if magic ! 0 \<noteq> GZ_MAGIC1 \<or> magic ! 1 \<noteq> GZ_MAGIC2
         then do {
           (t, r) \<leftarrow> dico_stream_size t;
           (case r of
              Inl _ \<Rightarrow> None
            | Inr pos \<Rightarrow> Some (d\<lparr>ds_transport := t, ds_type := DICTORG_TEXT, ds_size := nat pos, ds_compressed_size := pos\<rparr>, 0)) }
         else open_gzip alloc (d\<lparr>ds_transport := t, ds_type := DICTORG_GZIP\<rparr>) magic) }) }"

section \<open>The stream\<close>

definition zero_dict :: "nat \<Rightarrow> mapfile dico_stream \<Rightarrow> 'z dict_stream" where
  "zero_dict cache_size t =
     \<lparr>ds_type = DICTORG_UNKNOWN, ds_transport = t, ds_transport_error = 0, ds_header_length = 0, ds_method = 0,
      ds_gzflags = 0, ds_mtime = 0, ds_extra_flags = 0, ds_os = 0, ds_version = 0, ds_chunk_size = 0,
      ds_chunk_count = 0, ds_chunk = [], ds_orig_name = None, ds_comment = None, ds_crc = 0, ds_size = 0,
      ds_compressed_size = 0, ds_offset = 0, ds_zstream = None, ds_cache_size = cache_size, ds_cache = []\<rparr>"

text \<open>
  \<open>fopen\<close> and \<open>map_ok\<close> are the system calls of the mapped file. When the mapped file cannot be
  created the transport is a NULL pointer, which \<^verbatim>\<open>dict_stream_create\<close> does not check for; with
  these flags that needs a failed allocation.
\<close>

definition dict_stream_create ::
  "'z zlib \<Rightarrow> (int \<Rightarrow> bytes) \<Rightarrow> (nat \<Rightarrow> bool) \<Rightarrow> (bytes \<Rightarrow> sflag set \<Rightarrow> int + int \<times> bytes) \<Rightarrow> (bytes \<Rightarrow> int + unit) \<Rightarrow>
   bytes \<Rightarrow> nat \<Rightarrow> 'z dict_stream dico_stream option" where
  "dict_stream_create zl strerror alloc fopen map_ok filename cache_size = do {
     t \<leftarrow> dico_mapfile_stream_create fopen map_ok (True, True, True) filename {DICO_STREAM_READ, DICO_STREAM_SEEK};
     (case dico_stream_create True {DICO_STREAM_READ, DICO_STREAM_SEEK} (zero_dict (if cache_size \<noteq> 0 then cache_size else 10) t) of
        Inl _ \<Rightarrow> None
      | Inr s \<Rightarrow>
          let s = dico_stream_set_open s (Some (dict_open alloc));
              s = dico_stream_set_read s (Some (dict_read zl));
              s = dico_stream_set_seek s (Some dict_seek);
              s = dico_stream_set_close s (Some dict_close);
              s = dico_stream_set_destroy s (Some dict_destroy)
          in Some (dico_stream_set_error_string s (Some (\<lambda>d rc. snd (dict_strerror strerror d rc))))) }"

end
