(* ===== verification/Dico_Search.thy ===== *)
theory Dico_Search
  imports Dico_Prelude "HOL-Library.Multiset"
begin

text \<open>
  The functions \<^verbatim>\<open>bsearch\<close> and \<^verbatim>\<open>qsort\<close> of the C library, which the modules use on their indices.
  \<^verbatim>\<open>qsort\<close> is the merge sort of the GNU C library. A comparison whose result is not defined is
  \<open>None\<close>; both functions count the comparisons, which the modules report.

  The locale \<open>sign_sorted\<close> states what a binary search needs of the array and the key: the signs
  of the comparisons decrease. It gives where the search hits and what the scans around the hit
  find.
\<close>

section \<open>Binary search\<close>

function bsearch_loop :: "('a \<Rightarrow> int option) \<Rightarrow> 'a list \<Rightarrow> nat \<Rightarrow> nat \<Rightarrow> nat \<Rightarrow> (nat option \<times> nat) option" where
  "bsearch_loop cmp xs l u n =
     (if l < u
      then (let i = (l + u) div 2 in
            case cmp (xs ! i) of
              None \<Rightarrow> None
            | Some r \<Rightarrow>
                (if r < 0 then bsearch_loop cmp xs l i (Suc n)
                 else if r > 0 then bsearch_loop cmp xs (Suc i) u (Suc n)
                 else Some (Some i, Suc n)))
      else Some (None, n))"
  by pat_completeness auto
termination
  by (relation "measure (\<lambda>(cmp, xs, l, u, n). u - l)") auto

declare bsearch_loop.simps [simp del]

definition c_bsearch :: "('a \<Rightarrow> int option) \<Rightarrow> 'a list \<Rightarrow> (nat option \<times> nat) option" where
  "c_bsearch cmp xs = bsearch_loop cmp xs 0 (length xs) 0"

section \<open>Sorting\<close>

fun c_merge :: "('a \<Rightarrow> 'a \<Rightarrow> int option) \<Rightarrow> 'a list \<Rightarrow> 'a list \<Rightarrow> nat \<Rightarrow> ('a list \<times> nat) option" where
  "c_merge cmp (b1 # b1s) (b2 # b2s) n = do {
     r \<leftarrow> cmp b1 b2;
     (if r \<le> 0
      then map_option (\<lambda>(bs, n). (b1 # bs, n)) (c_merge cmp b1s (b2 # b2s) (Suc n))
      else map_option (\<lambda>(bs, n). (b2 # bs, n)) (c_merge cmp (b1 # b1s) b2s (Suc n))) }"
| "c_merge cmp b1s b2s n = Some (b1s @ b2s, n)"

function c_qsort :: "('a \<Rightarrow> 'a \<Rightarrow> int option) \<Rightarrow> 'a list \<Rightarrow> ('a list \<times> nat) option" where
  "c_qsort cmp b =
     (if length b \<le> 1 then Some (b, 0)
      else do {
        let n1 = length b div 2;
        (b1, k1) \<leftarrow> c_qsort cmp (take n1 b);
        (b2, k2) \<leftarrow> c_qsort cmp (drop n1 b);
        c_merge cmp b1 b2 (k1 + k2) })"
  by pat_completeness auto
termination
  by (relation "measure (\<lambda>(cmp, b). length b)") auto

declare c_qsort.simps [simp del]

section \<open>The range of the matches\<close>

text \<open>
  The scans around the hit of a binary search, with the number of comparisons. The scan to the
  left looks at the position \<open>p\<close> and stops at position 0 without comparing it.
\<close>

fun scan_back :: "('a \<Rightarrow> int option) \<Rightarrow> 'a list \<Rightarrow> nat \<Rightarrow> nat \<Rightarrow> (nat \<times> nat) option" where
  "scan_back cmp xs 0 n = Some (0, n)"
| "scan_back cmp xs (Suc p) n = do {
     r \<leftarrow> cmp (xs ! Suc p);
     (if r = 0 then scan_back cmp xs p (Suc n) else Some (Suc p, Suc n)) }"

function scan_forward :: "('a \<Rightarrow> int option) \<Rightarrow> 'a list \<Rightarrow> nat \<Rightarrow> nat \<Rightarrow> (nat \<times> nat) option" where
  "scan_forward cmp xs ep n =
     (if ep < length xs
      then do {
        r \<leftarrow> cmp (xs ! ep);
        (if r = 0 then scan_forward cmp xs (Suc ep) (Suc n) else Some (ep, Suc n)) }
      else Some (ep, n))"
  by pat_completeness auto
termination
  by (relation "measure (\<lambda>(cmp, xs, ep, n). length xs - ep)") auto

declare scan_forward.simps [simp del]

text \<open>
  Search and scans: the first and the last position plus one. For a hit at position 0 the scan to
  the left starts before the array and stops at once.
\<close>

definition match_range :: "('a \<Rightarrow> int option) \<Rightarrow> 'a list \<Rightarrow> ((nat \<times> nat) option \<times> nat) option" where
  "match_range cmp xs = do {
     (hit, n) \<leftarrow> c_bsearch cmp xs;
     (case hit of
        None \<Rightarrow> Some (None, n)
      | Some ep \<Rightarrow> do {
          (lo, n) \<leftarrow> (if ep = 0 then Some (0, n) else map_option (\<lambda>(p, n). (Suc p, n)) (scan_back cmp xs (ep - 1) n));
          (hi, n) \<leftarrow> scan_forward cmp xs (Suc ep) n;
          Some (Some (lo, hi), n) }) }"

section \<open>Comparison by keys\<close>

text \<open>A comparison that orders by a key in a linear order: the sign of comparing the keys.\<close>

definition key_cmp :: "('a \<Rightarrow> 'k :: linorder) \<Rightarrow> 'a \<Rightarrow> 'a \<Rightarrow> int" where
  "key_cmp key a b = (if key a < key b then -1 else if key b < key a then 1 else 0)"

locale keyed_order =
  fixes cmp :: "'a \<Rightarrow> 'a \<Rightarrow> int option" and key :: "'a \<Rightarrow> 'k :: linorder" and ok :: "'a \<Rightarrow> bool"
  assumes cmp_key: "ok a \<Longrightarrow> ok b \<Longrightarrow> cmp a b = Some (key_cmp key a b)"
begin

lemma cmp_le: "ok a \<Longrightarrow> ok b \<Longrightarrow> \<exists>r. cmp a b = Some r \<and> (r \<le> 0 \<longleftrightarrow> key a \<le> key b)"
  by (auto simp: cmp_key key_cmp_def)

lemma sorted_Cons_merge:
  "mset zs = mset xs + mset ys \<Longrightarrow> sorted (map key zs) \<Longrightarrow> (\<And>z. z \<in> set xs \<union> set ys \<Longrightarrow> key x \<le> key z) \<Longrightarrow>
   sorted (map key (x # zs))"
  by (drule arg_cong [where f = set_mset]) simp

lemma merge_spec:
  "list_all ok xs \<Longrightarrow> list_all ok ys \<Longrightarrow> sorted (map key xs) \<Longrightarrow> sorted (map key ys) \<Longrightarrow>
   \<exists>zs k. c_merge cmp xs ys n = Some (zs, k) \<and> mset zs = mset xs + mset ys \<and> sorted (map key zs)"
proof (induction "length xs + length ys" arbitrary: xs ys n rule: less_induct)
  case less
  show ?case
  proof (cases "xs = [] \<or> ys = []")
    case True
    with less.prems show ?thesis by (cases xs; cases ys) auto
  next
    case False
    then obtain x xs' y ys' where e: "xs = x # xs'" "ys = y # ys'" by (meson neq_Nil_conv)
    obtain r where r: "cmp x y = Some r" "r \<le> 0 \<longleftrightarrow> key x \<le> key y"
      using cmp_le [of x y] less.prems e by auto
    show ?thesis
    proof (cases "r \<le> 0")
      case True
      obtain zs k where z: "c_merge cmp xs' ys (Suc n) = Some (zs, k)" "mset zs = mset xs' + mset ys" "sorted (map key zs)"
        using less.hyps [of xs' ys "Suc n"] less.prems e by auto
      have "sorted (map key (x # zs))"
        using less.prems e True r(2) by (intro sorted_Cons_merge [OF z(2,3)]) auto
      with z True r(1) e show ?thesis by auto
    next
      case False
      obtain zs k where z: "c_merge cmp xs ys' (Suc n) = Some (zs, k)" "mset zs = mset xs + mset ys'" "sorted (map key zs)"
        using less.hyps [of xs ys' "Suc n"] less.prems e by auto
      have "sorted (map key (y # zs))"
        using less.prems e False r(2) by (intro sorted_Cons_merge [OF z(2,3)]) auto
      with z False r(1) e show ?thesis by auto
    qed
  qed
qed

theorem qsort_spec:
  "list_all ok xs \<Longrightarrow> \<exists>ys n. c_qsort cmp xs = Some (ys, n) \<and> mset ys = mset xs \<and> sorted (map key ys)"
proof (induction "length xs" arbitrary: xs rule: less_induct)
  case less
  show ?case
  proof (cases "length xs \<le> 1")
    case True
    then have "sorted (map key xs)" by (cases xs) auto
    with True show ?thesis by (simp add: c_qsort.simps)
  next
    case False
    let ?h = "length xs div 2"
    have lt: "length (take ?h xs) < length xs" "length (drop ?h xs) < length xs"
      using False by auto
    have all: "list_all ok (take ?h xs)" "list_all ok (drop ?h xs)"
      using less.prems by (auto simp: list_all_iff dest: in_set_takeD in_set_dropD)
    obtain ys n where y: "c_qsort cmp (take ?h xs) = Some (ys, n)" "mset ys = mset (take ?h xs)" "sorted (map key ys)"
      using less.hyps [OF lt(1) all(1)] by blast
    obtain zs m where z: "c_qsort cmp (drop ?h xs) = Some (zs, m)" "mset zs = mset (drop ?h xs)" "sorted (map key zs)"
      using less.hyps [OF lt(2) all(2)] by blast
    have "list_all ok ys" "list_all ok zs"
      using all y(2) z(2) by (metis list_all_iff set_mset_mset)+
    from merge_spec [OF this y(3) z(3), of "n + m"] obtain ws k where
      w: "c_merge cmp ys zs (n + m) = Some (ws, k)" "mset ws = mset ys + mset zs" "sorted (map key ws)" by blast
    have "mset ws = mset xs"
      using w(2) y(2) z(2) by (metis append_take_drop_id mset_append)
    with False y(1) z(1) w show ?thesis by (subst c_qsort.simps) (simp add: Let_def)
  qed
qed

end

section \<open>Searching\<close>

text \<open>
  \<open>g\<close> compares the key that is searched with an element. Positive results come first, then the
  matches, then the negative results.
\<close>

locale sign_sorted =
  fixes g :: "'a \<Rightarrow> int" and xs :: "'a list"
  assumes signs: "i \<le> j \<Longrightarrow> j < length xs \<Longrightarrow> sgn (g (xs ! j)) \<le> sgn (g (xs ! i))"
begin

lemma later_negative: "g (xs ! i) < 0 \<Longrightarrow> i \<le> j \<Longrightarrow> j < length xs \<Longrightarrow> g (xs ! j) < 0"
  using signs [of i j] by (simp add: sgn_if split: if_splits)

lemma earlier_positive: "g (xs ! j) > 0 \<Longrightarrow> i \<le> j \<Longrightarrow> j < length xs \<Longrightarrow> g (xs ! i) > 0"
  using signs [of i j] by (simp add: sgn_if split: if_splits)

lemma bsearch_loop_spec:
  assumes "u \<le> length xs" "\<And>i. i < l \<Longrightarrow> i < length xs \<Longrightarrow> g (xs ! i) > 0" "\<And>i. u \<le> i \<Longrightarrow> i < length xs \<Longrightarrow> g (xs ! i) < 0"
  shows "\<exists>k. (\<exists>i < length xs. g (xs ! i) = 0 \<and> bsearch_loop (\<lambda>x. Some (g x)) xs l u n = Some (Some i, k)) \<or>
    ((\<forall>i < length xs. g (xs ! i) \<noteq> 0) \<and> bsearch_loop (\<lambda>x. Some (g x)) xs l u n = Some (None, k))"
  using assms
proof (induction "u - l" arbitrary: l u n rule: less_induct)
  case less
  show ?case
  proof (cases "l < u")
    case False
    have "g (xs ! i) \<noteq> 0" if "i < length xs" for i
      using less.prems(2,3) [of i] that False by (cases "i < l") auto
    with False show ?thesis by (simp add: bsearch_loop.simps)
  next
    case True
    let ?i = "(l + u) div 2"
    have i: "?i < u" "l \<le> ?i" "?i < length xs" using True less.prems(1) by auto
    consider "g (xs ! ?i) < 0" | "g (xs ! ?i) > 0" | "g (xs ! ?i) = 0" by linarith
    then show ?thesis
    proof cases
      case 1
      have step: "bsearch_loop (\<lambda>x. Some (g x)) xs l u n = bsearch_loop (\<lambda>x. Some (g x)) xs l ?i (Suc n)"
        using 1 True by (subst bsearch_loop.simps) (simp add: Let_def)
      from 1 have "g (xs ! j) < 0" if "?i \<le> j" "j < length xs" for j using later_negative that by blast
      then show ?thesis
        using less.hyps [of ?i l "Suc n"] i less.prems(2) by (simp add: step)
    next
      case 2
      have step: "bsearch_loop (\<lambda>x. Some (g x)) xs l u n = bsearch_loop (\<lambda>x. Some (g x)) xs (Suc ?i) u (Suc n)"
        using 2 True by (subst bsearch_loop.simps) (simp add: Let_def)
      from 2 have "g (xs ! j) > 0" if "j < Suc ?i" "j < length xs" for j using earlier_positive [of ?i j] that i by simp
      then show ?thesis
        using less.hyps [of u "Suc ?i" "Suc n"] i less.prems(1,3) by (simp add: step)
    next
      case 3
      then show ?thesis using i(3) True by (subst (1 2) bsearch_loop.simps) (auto simp: Let_def)
    qed
  qed
qed

lemma bsearch_spec:
  "\<exists>k. (\<exists>i < length xs. g (xs ! i) = 0 \<and> c_bsearch (\<lambda>x. Some (g x)) xs = Some (Some i, k)) \<or>
    ((\<forall>i < length xs. g (xs ! i) \<noteq> 0) \<and> c_bsearch (\<lambda>x. Some (g x)) xs = Some (None, k))"
  unfolding c_bsearch_def by (rule bsearch_loop_spec) auto

end

text \<open>Every list that is sorted by a key is one that the search works on, for every element.\<close>

interpretation keyed_search: sign_sorted "key_cmp key x" "sort_key key es" for key :: "'a \<Rightarrow> 'k :: linorder" and x es
proof
  fix i j
  assume "i \<le> j" "j < length (sort_key key es)"
  then have "key (sort_key key es ! i) \<le> key (sort_key key es ! j)"
    using sorted_sort_key [of key es] by (auto simp: sorted_iff_nth_mono)
  then show "sgn (key_cmp key x (sort_key key es ! j)) \<le> sgn (key_cmp key x (sort_key key es ! i))"
    by (auto simp: key_cmp_def sgn_if)
qed

lemma key_cmp_0_iff [simp]: "key_cmp key a b = 0 \<longleftrightarrow> key a = key b"
  by (auto simp: key_cmp_def)

lemma sort_key_sorted: "sorted (map key es) \<Longrightarrow> sort_key key es = es"
  by (rule sort_key_id_if_sorted)

section \<open>What the range contains\<close>

text \<open>The search looks only at elements of the array.\<close>

lemma bsearch_loop_cong:
  "u \<le> length xs \<Longrightarrow> (\<And>x. x \<in> set xs \<Longrightarrow> c x = c' x) \<Longrightarrow> bsearch_loop c xs l u n = bsearch_loop c' xs l u n"
proof (induction "u - l" arbitrary: l u n rule: less_induct)
  case less
  show ?case
  proof (cases "l < u")
    case True
    let ?i = "(l + u) div 2"
    have "xs ! ?i \<in> set xs" using True less.prems(1) by simp
    then have "c (xs ! ?i) = c' (xs ! ?i)" by (rule less.prems(2))
    moreover have "bsearch_loop c xs l ?i (Suc n) = bsearch_loop c' xs l ?i (Suc n)"
      "bsearch_loop c xs (Suc ?i) u (Suc n) = bsearch_loop c' xs (Suc ?i) u (Suc n)"
      using True less.prems by (intro less.hyps; simp)+
    ultimately show ?thesis using True by (subst (1 2) bsearch_loop.simps) (simp add: Let_def split: option.splits)
  qed (simp add: bsearch_loop.simps)
qed

lemma scan_back_cong:
  "p < length xs \<Longrightarrow> (\<And>x. x \<in> set xs \<Longrightarrow> c x = c' x) \<Longrightarrow> scan_back c xs p n = scan_back c' xs p n"
  by (induction p arbitrary: n) (auto intro!: bind_option_cong)

lemma scan_forward_cong:
  "(\<And>x. x \<in> set xs \<Longrightarrow> c x = c' x) \<Longrightarrow> scan_forward c xs p n = scan_forward c' xs p n"
proof (induction "length xs - p" arbitrary: p n rule: less_induct)
  case less
  have "scan_forward c xs (Suc p) (Suc n) = scan_forward c' xs (Suc p) (Suc n)" if "p < length xs"
    using that less.prems by (intro less.hyps) auto
  with less.prems show ?case by (subst (1 2) scan_forward.simps) (auto intro!: bind_option_cong)
qed

lemma bsearch_index:
  "u \<le> length xs \<Longrightarrow> bsearch_loop c xs l u n = Some (Some i, k) \<Longrightarrow> i < length xs"
proof (induction "u - l" arbitrary: l u n rule: less_induct)
  case less
  show ?case
  proof (cases "l < u")
    case True
    let ?i = "(l + u) div 2"
    from True less.prems obtain r where r: "c (xs ! ?i) = Some r"
      by (subst (asm) bsearch_loop.simps) (auto simp: Let_def split: option.splits)
    consider "r < 0" | "r > 0" | "r = 0" by linarith
    then show ?thesis
    proof cases
      case 1
      with True r less.prems(2) have "bsearch_loop c xs l ?i (Suc n) = Some (Some i, k)"
        by (subst (asm) bsearch_loop.simps) (simp add: Let_def)
      with less.hyps [of ?i l "Suc n"] True less.prems(1) show ?thesis by simp
    next
      case 2
      with True r less.prems(2) have "bsearch_loop c xs (Suc ?i) u (Suc n) = Some (Some i, k)"
        by (subst (asm) bsearch_loop.simps) (simp add: Let_def)
      with less.hyps [of u "Suc ?i" "Suc n"] True less.prems(1) show ?thesis by simp
    next
      case 3
      with True r less.prems(2) have "i = ?i"
        by (subst (asm) bsearch_loop.simps) (simp add: Let_def)
      with True less.prems(1) show ?thesis by simp
    qed
  next
    case False
    with less.prems(2) show ?thesis by (simp add: bsearch_loop.simps)
  qed
qed

lemma match_range_cong:
  assumes "\<And>x. x \<in> set xs \<Longrightarrow> c x = c' x"
  shows "match_range c xs = match_range c' xs"
proof -
  have b: "c_bsearch c xs = c_bsearch c' xs"
    unfolding c_bsearch_def by (rule bsearch_loop_cong [OF order_refl assms])
  have f: "scan_forward c xs ep n = scan_forward c' xs ep n" for ep n
    using assms by (rule scan_forward_cong)
  have s: "scan_back c xs (ep - 1) n = scan_back c' xs (ep - 1) n" if "c_bsearch c xs = Some (Some ep, n)" for ep n
    using that bsearch_index [OF order_refl, of c xs 0 0 ep n] assms by (intro scan_back_cong) (auto simp: c_bsearch_def)
  show ?thesis
  proof (cases "c_bsearch c xs")
    case (Some r)
    then obtain hit n where r: "c_bsearch c xs = Some (hit, n)" by (cases r) auto
    then have r': "c_bsearch c' xs = Some (hit, n)" using b by simp
    show ?thesis
      using s [of _ n] f r by (cases hit) (simp_all add: match_range_def r r')
  qed (simp add: match_range_def b [symmetric])
qed

context sign_sorted
begin

abbreviation sgc where "sgc x \<equiv> Some (g x)"

lemma scan_back_spec:
  "p < length xs \<Longrightarrow> \<exists>q k. scan_back sgc xs p n = Some (q, k) \<and> q \<le> p \<and> (\<forall>i. q < i \<and> i \<le> p \<longrightarrow> g (xs ! i) = 0) \<and>
     (q = 0 \<or> g (xs ! q) \<noteq> 0)"
proof (induction p arbitrary: n)
  case (Suc p)
  show ?case
  proof (cases "g (xs ! Suc p) = 0")
    case True
    obtain q k where q: "scan_back sgc xs p (Suc n) = Some (q, k)" "q \<le> p" "\<forall>i. q < i \<and> i \<le> p \<longrightarrow> g (xs ! i) = 0"
        "q = 0 \<or> g (xs ! q) \<noteq> 0"
      using Suc.IH [of "Suc n"] Suc.prems by auto
    with True show ?thesis by (auto simp: le_Suc_eq)
  qed auto
qed simp

lemma scan_forward_spec:
  "p \<le> length xs \<Longrightarrow> \<exists>h k. scan_forward sgc xs p n = Some (h, k) \<and> p \<le> h \<and> h \<le> length xs \<and>
     (\<forall>i. p \<le> i \<and> i < h \<longrightarrow> g (xs ! i) = 0) \<and> (h = length xs \<or> g (xs ! h) \<noteq> 0)"
proof (induction "length xs - p" arbitrary: p n rule: less_induct)
  case less
  show ?case
  proof (cases "p < length xs \<and> g (xs ! p) = 0")
    case True
    then have lt: "length xs - Suc p < length xs - p" by linarith
    obtain h k where h: "scan_forward sgc xs (Suc p) (Suc n) = Some (h, k)" "Suc p \<le> h" "h \<le> length xs"
        "\<forall>i. Suc p \<le> i \<and> i < h \<longrightarrow> g (xs ! i) = 0" "h = length xs \<or> g (xs ! h) \<noteq> 0"
      using less.hyps [OF lt, of "Suc n"] True by auto
    have "g (xs ! i) = 0" if "p \<le> i" "i < h" for i
      using that h(4) True by (cases "i = p") auto
    with True h show ?thesis by (subst scan_forward.simps) auto
  next
    case False
    with less.prems show ?thesis by (subst scan_forward.simps) auto
  qed
qed

lemma zero_between: "g (xs ! i) = 0 \<Longrightarrow> g (xs ! j) = 0 \<Longrightarrow> i \<le> k \<Longrightarrow> k \<le> j \<Longrightarrow> j < length xs \<Longrightarrow> g (xs ! k) = 0"
  using signs [of i k] signs [of k j] by (simp add: sgn_if split: if_splits)

text \<open>
  The range that is found: all matches, but the element at position 0 may be missing.
\<close>

lemma match_range_spec:
  "\<exists>n. ((\<forall>i < length xs. g (xs ! i) \<noteq> 0) \<and> match_range sgc xs = Some (None, n)) \<or>
     (\<exists>lo hi. match_range sgc xs = Some (Some (lo, hi), n) \<and> lo < hi \<and> hi \<le> length xs \<and>
       (\<forall>i < length xs. lo \<le> i \<and> i < hi \<longleftrightarrow> g (xs ! i) = 0 \<and> (lo = 0 \<or> i \<noteq> 0)))"
proof -
  from bsearch_spec consider (none) n where "\<forall>i < length xs. g (xs ! i) \<noteq> 0" "c_bsearch sgc xs = Some (None, n)"
    | (hit) i n where "i < length xs" "g (xs ! i) = 0" "c_bsearch sgc xs = Some (Some i, n)" by blast
  then show ?thesis
  proof cases
    case none
    then show ?thesis by (auto simp: match_range_def)
  next
    case hit
    obtain lo m where lo: "(if i = 0 then Some (0, n) else map_option (\<lambda>(p, n). (Suc p, n)) (scan_back sgc xs (i - 1) n)) = Some (lo, m)"
        "lo \<le> i" "\<forall>j. lo \<le> j \<and> j \<le> i \<longrightarrow> g (xs ! j) = 0" "lo \<le> 1 \<or> g (xs ! (lo - 1)) \<noteq> 0"
    proof (cases i)
      case 0
      with hit(2) show ?thesis by (intro that [of 0 n]) auto
    next
      case (Suc p)
      obtain q k where q: "scan_back sgc xs p n = Some (q, k)" "q \<le> p" "\<forall>i. q < i \<and> i \<le> p \<longrightarrow> g (xs ! i) = 0"
          "q = 0 \<or> g (xs ! q) \<noteq> 0"
        using scan_back_spec [of p n] Suc hit(1) by auto
      have "g (xs ! j) = 0" if "Suc q \<le> j" "j \<le> i" for j
        using that q(3) Suc hit(2) by (cases "j = i") auto
      with q Suc show ?thesis by (intro that [of "Suc q" k]) auto
    qed
    obtain hi k where hi: "scan_forward sgc xs (Suc i) m = Some (hi, k)" "Suc i \<le> hi" "hi \<le> length xs"
        "\<forall>j. Suc i \<le> j \<and> j < hi \<longrightarrow> g (xs ! j) = 0" "hi = length xs \<or> g (xs ! hi) \<noteq> 0"
      using scan_forward_spec [of "Suc i" m] hit(1) by auto
    have "match_range sgc xs = Some (Some (lo, hi), k)"
      using hit(3) lo(1) hi(1) by (auto simp: match_range_def split: if_splits)
    moreover have "lo \<le> j \<and> j < hi \<longleftrightarrow> g (xs ! j) = 0 \<and> (lo = 0 \<or> j \<noteq> 0)" if j: "j < length xs" for j
    proof
      assume "lo \<le> j \<and> j < hi"
      with lo(3) hi(4) show "g (xs ! j) = 0 \<and> (lo = 0 \<or> j \<noteq> 0)" by (cases "j \<le> i") auto
    next
      assume z: "g (xs ! j) = 0 \<and> (lo = 0 \<or> j \<noteq> 0)"
      have "lo \<le> j"
      proof (rule ccontr)
        assume "\<not> lo \<le> j"
        with z lo(2,4) have "g (xs ! (lo - 1)) \<noteq> 0" "j \<le> lo - 1" by auto
        with zero_between [of j i "lo - 1"] z hit lo(2) show False by auto
      qed
      moreover have "j < hi"
      proof (rule ccontr)
        assume "\<not> j < hi"
        with hi(5) j have "g (xs ! hi) \<noteq> 0" "hi \<le> j" by auto
        with zero_between [of i j hi] z hit hi(2) j show False by auto
      qed
      ultimately show "lo \<le> j \<and> j < hi" by simp
    qed
    ultimately show ?thesis using lo(2) hi(2,3) by (intro exI [of _ k]) auto
  qed
qed

end

lemma filter_upt: "hi \<le> n \<Longrightarrow> filter (\<lambda>i. lo \<le> i \<and> i < hi) [0..<n] = [lo..<hi]"
  by (rule sorted_distinct_set_unique) (auto simp: sorted_wrt_filter)

lemma filter_range:
  assumes "hi \<le> length xs" "\<And>i. i < length xs \<Longrightarrow> P (xs ! i) \<longleftrightarrow> lo \<le> i \<and> i < hi"
  shows "map ((!) xs) [lo..<hi] = filter P xs"
proof -
  have "filter P xs = filter P (map ((!) xs) [0..<length xs])" by (simp add: map_nth)
  also have "\<dots> = map ((!) xs) (filter (\<lambda>i. P (xs ! i)) [0..<length xs])" by (simp add: filter_map o_def)
  also have "filter (\<lambda>i. P (xs ! i)) [0..<length xs] = filter (\<lambda>i. lo \<le> i \<and> i < hi) [0..<length xs]"
    using assms(2) by (intro filter_cong) auto
  also have "\<dots> = [lo..<hi]" by (rule filter_upt [OF assms(1)])
  finally show ?thesis ..
qed

text \<open>The elements of the range, for elements sorted by a key.\<close>

lemma match_range_sorted:
  assumes "sorted (map key xs)"
  shows "\<exists>n. ((\<forall>e \<in> set xs. key e \<noteq> key x) \<and> match_range (\<lambda>e. Some (key_cmp key x e)) xs = Some (None, n)) \<or>
     (\<exists>lo hi. match_range (\<lambda>e. Some (key_cmp key x e)) xs = Some (Some (lo, hi), n) \<and> (\<exists>e \<in> set xs. key e = key x) \<and>
       map ((!) xs) [lo..<hi] = filter (\<lambda>e. key e = key x) (if lo = 0 then xs else tl xs))"
proof -
  note ranges = keyed_search.match_range_spec [where key = key and x = x and es = xs, unfolded sort_key_sorted [OF assms]]
  have set: "(\<forall>e \<in> set xs. key e \<noteq> key x) \<longleftrightarrow> (\<forall>i < length xs. key_cmp key x (xs ! i) \<noteq> 0)"
    by (auto simp: all_set_conv_all_nth)
  from ranges show ?thesis
  proof (elim exE disjE conjE)
    fix n lo hi
    assume r: "match_range (\<lambda>e. Some (key_cmp key x e)) xs = Some (Some (lo, hi), n)" "lo < hi" "hi \<le> length xs"
      "\<forall>i < length xs. (lo \<le> i \<and> i < hi) = (key_cmp key x (xs ! i) = 0 \<and> (lo = 0 \<or> i \<noteq> 0))"
    have "key_cmp key x (xs ! lo) = 0" using r(2-4) by (metis le_refl less_le_trans)
    then have ex: "\<exists>e \<in> set xs. key e = key x"
      using r(2,3) by (intro bexI [of _ "xs ! lo"]) auto
    have "map ((!) xs) [lo..<hi] = filter (\<lambda>e. key e = key x) (if lo = 0 then xs else tl xs)"
    proof (cases "lo = 0")
      case True
      with r show ?thesis by (simp, intro filter_range) auto
    next
      case False
      then have "map ((!) xs) [lo..<hi] = map ((!) (tl xs)) [lo - 1..<hi - 1]"
        using r(2,3) by (intro nth_equalityI) (auto simp: nth_tl)
      also have "\<dots> = filter (\<lambda>e. key e = key x) (tl xs)"
      proof (rule filter_range)
        fix i
        assume "i < length (tl xs)"
        with r(4) False show "key (tl xs ! i) = key x \<longleftrightarrow> lo - 1 \<le> i \<and> i < hi - 1"
          by (auto simp: nth_tl dest!: spec [of _ "Suc i"])
      qed (use r(3) in simp)
      finally show ?thesis using False by simp
    qed
    with r(1) ex show ?thesis by (intro exI [of _ n]) auto
  qed (use set in auto)
qed

end
