(* ===== verification/Dico_Parseopt.thy ===== *)
theory Dico_Parseopt
  imports Dico_Prelude "HOL-Library.Sublist"
begin

text \<open>
  The options of modules and databases (\<^verbatim>\<open>lib/parseopt.c\<close>): arguments of the form
  \<open>name=value\<close>, \<open>name\<close> or \<open>noname\<close>, and a table that says where the values go. A pointer to a
  variable is a number; the variables are the record \<open>opt_vars\<close>. The comparison of an argument
  that is shorter than the name of an option ends at its NUL.
\<close>

unbundle bit_operations_syntax

section \<open>Tables\<close>

datatype opt_type =
    dico_opt_null | dico_opt_bool | dico_opt_bitmask | dico_opt_bitmask_rev | dico_opt_long
  | dico_opt_string | dico_opt_enum | dico_opt_const | dico_opt_const_string

record opt_vars =
  ov_num :: "nat \<Rightarrow> int"
  ov_str :: "nat \<Rightarrow> bytes option"

text \<open>The name of an option has the length that the table gives (\<^verbatim>\<open>DICO_OPTSTR\<close>).\<close>

record dico_option =
  op_name :: bytes
  op_type :: opt_type
  op_data :: nat
  op_value :: int
  op_enumstr :: "bytes list"
  op_func :: "(opt_vars \<Rightarrow> bytes option \<Rightarrow> opt_vars \<times> int) option"

text \<open>Rows of a table for a flag and for a string.\<close>

definition bool_option :: "bytes \<Rightarrow> nat \<Rightarrow> dico_option" where
  "bool_option name data = \<lparr>op_name = name, op_type = dico_opt_bool, op_data = data, op_value = 0, op_enumstr = [], op_func = None\<rparr>"

definition string_option :: "bytes \<Rightarrow> nat \<Rightarrow> dico_option" where
  "string_option name data = \<lparr>op_name = name, op_type = dico_opt_string, op_data = data, op_value = 0, op_enumstr = [], op_func = None\<rparr>"

definition set_num :: "opt_vars \<Rightarrow> nat \<Rightarrow> int \<Rightarrow> opt_vars" where
  "set_num v p n = v\<lparr>ov_num := (ov_num v)(p := n)\<rparr>"

definition set_str :: "opt_vars \<Rightarrow> nat \<Rightarrow> bytes option \<Rightarrow> opt_vars" where
  "set_str v p s = v\<lparr>ov_str := (ov_str v)(p := s)\<rparr>"

section \<open>The C library's strtol\<close>

text \<open>\<^verbatim>\<open>strtol (s, &end, 0)\<close>: the number and what is left of the string.\<close>

definition digit_value :: "byte \<Rightarrow> nat option" where
  "digit_value c =
     (if c_isdigit c then Some (unat c - 0x30)
      else if c_islower c then Some (unat c - 0x61 + 10)
      else if c_isupper c then Some (unat c - 0x41 + 10) else None)"

definition is_digit :: "nat \<Rightarrow> byte \<Rightarrow> bool" where
  "is_digit base c = (case digit_value c of None \<Rightarrow> False | Some d \<Rightarrow> d < base)"

definition digits_value :: "nat \<Rightarrow> bytes \<Rightarrow> int" where
  "digits_value base ds = foldl (\<lambda>a c. a * int base + int (the (digit_value c))) 0 ds"

definition c_strtol :: "bytes \<Rightarrow> int \<times> bytes" where
  "c_strtol s =
     (let t = dropWhile (\<lambda>c. c = 0x20 \<or> (0x09 \<le> c \<and> c \<le> 0x0d)) s;
          neg = (t \<noteq> [] \<and> hd t = 0x2d);
          t = (if t \<noteq> [] \<and> (hd t = 0x2d \<or> hd t = 0x2b) then drop 1 t else t);
          hex = (length t > 2 \<and> t ! 0 = 0x30 \<and> (t ! 1 = 0x78 \<or> t ! 1 = 0x58) \<and> is_digit 16 (t ! 2));
          base = (if hex then 16 else if t \<noteq> [] \<and> hd t = 0x30 then 8 else 10);
          t = (if hex then drop 2 t else t);
          ds = takeWhile (is_digit base) t;
          n = digits_value base ds
      in if ds = [] then (0, s)
         else (max (- (2 ^ 63)) (min (2 ^ 63 - 1) (if neg then - n else n)), drop (length ds) t))"

section \<open>Parsing\<close>

text \<open>
  \<^verbatim>\<open>find_opt\<close>: the option and the value. The length that is compared with that of an option is
  the length of the whole argument, also when \<^verbatim>\<open>no\<close> was skipped.
\<close>

fun find_opt_loop :: "dico_option list \<Rightarrow> nat \<Rightarrow> bool \<Rightarrow> bytes \<Rightarrow> (dico_option \<times> bytes option) option" where
  "find_opt_loop [] len isbool s = None"
| "find_opt_loop (p # ps) len isbool s =
     (if len \<ge> length (op_name p) \<and> prefix (op_name p) s \<and> (\<not> isbool \<or> op_type p = dico_opt_bool)
      then
        let rest = drop (length (op_name p)) s;
            eq = (rest \<noteq> [] \<and> hd rest = 0x3d);
            value = (if isbool then None else Some s)
        in
          if op_type p \<in> {dico_opt_long, dico_opt_string, dico_opt_const_string, dico_opt_enum}
          then if eq then Some (p, Some (drop 1 rest)) else find_opt_loop ps len isbool s
          else if op_type p = dico_opt_null then Some (p, if eq then Some (drop 1 rest) else None)
          else if eq then find_opt_loop ps len isbool s
          else Some (p, value)
      else find_opt_loop ps len isbool s)"

definition find_opt :: "dico_option list \<Rightarrow> bytes \<Rightarrow> (dico_option \<times> bytes option) option" where
  "find_opt opts s =
     (if length s > 2 \<and> take 2 s = str ''no''
      then find_opt_loop opts (length s) True (drop 2 s)
      else find_opt_loop opts (length s) False s)"

definition find_value :: "bytes list \<Rightarrow> bytes \<Rightarrow> int" where
  "find_value enumstr value = (case index_of value enumstr of None \<Rightarrow> -1 | Some i \<Rightarrow> int i)"

text \<open>
  The switch on the type of an option; \<open>None\<close> is an invalid value. Options that need a value have
  one when \<^verbatim>\<open>find_opt\<close> returns them.
\<close>

definition store_option :: "dico_option \<Rightarrow> bytes option \<Rightarrow> opt_vars \<Rightarrow> opt_vars option" where
  "store_option p value v =
     (let w = (case value of None \<Rightarrow> [] | Some w \<Rightarrow> w); cast = signed_take_bit 31; var = ov_num v (op_data p) in
      case op_type p of
        dico_opt_long \<Rightarrow> (case c_strtol w of (n, s) \<Rightarrow> if s \<noteq> [] then None else Some (set_num v (op_data p) n))
      | dico_opt_const \<Rightarrow> Some (set_num v (op_data p) (op_value p))
      | dico_opt_const_string \<Rightarrow> Some (set_str v (op_data p) value)
      | dico_opt_string \<Rightarrow> Some (set_str v (op_data p) value)
      | dico_opt_bool \<Rightarrow>
          Some (set_num v (op_data p)
            (if op_value p \<noteq> 0
             then if value \<noteq> None then cast (var OR op_value p) else cast (var AND NOT (op_value p))
             else if value \<noteq> None then 1 else 0))
      | dico_opt_bitmask \<Rightarrow> Some (set_num v (op_data p) (cast (var OR op_value p)))
      | dico_opt_bitmask_rev \<Rightarrow> Some (set_num v (op_data p) (cast (var AND NOT (op_value p))))
      | dico_opt_enum \<Rightarrow>
          let n = find_value (op_enumstr p) w in
          if n = -1 then None else Some (set_num v (op_data p) n)
      | dico_opt_null \<Rightarrow> Some v)"

text \<open>The search for an option behind position \<open>i\<close> when arguments may be permuted.\<close>

fun permute_find :: "dico_option list \<Rightarrow> nat \<Rightarrow> bytes list \<Rightarrow> (nat \<times> dico_option \<times> bytes option) option" where
  "permute_find opts j [] = None"
| "permute_find opts j (a # as) =
     (case find_opt opts a of
        Some (p, value) \<Rightarrow> Some (j, p, value)
      | None \<Rightarrow> permute_find opts (Suc j) as)"

definition swap_args :: "bytes list \<Rightarrow> nat \<Rightarrow> nat \<Rightarrow> bytes list" where
  "swap_args argv i j = argv[j := argv ! i, i := argv ! j]"

lemma length_swap_args [simp]: "length (swap_args argv i j) = length argv"
  by (simp add: swap_args_def)

lemma Some_map_option_iff: "Some y = map_option f x \<longleftrightarrow> (\<exists>z. x = Some z \<and> y = f z)"
  by (cases x) auto

text \<open>
  The loop over the arguments from \<open>i\<close> on: \<open>has_index\<close> tells whether the caller asks for the index
  of the first argument that is not an option. The result is the return code, the arguments, the
  variables and that index.
\<close>

function parseopt_loop ::
  "dico_option list \<Rightarrow> bool \<Rightarrow> bool \<Rightarrow> nat \<Rightarrow> bytes list \<Rightarrow> opt_vars \<Rightarrow> int \<Rightarrow> int \<times> bytes list \<times> opt_vars \<times> nat" where
  "parseopt_loop opts has_index permute i argv v rc =
     (if i < length argv
      then
        let found = (case find_opt opts (argv ! i) of
                Some (p, value) \<Rightarrow> Some (argv, p, value)
              | None \<Rightarrow>
                  if has_index \<and> permute
                  then map_option (\<lambda>(j, p, value). (swap_args argv i j, p, value)) (permute_find opts (Suc i) (drop (Suc i) argv))
                  else None)
        in case found of
             None \<Rightarrow> if has_index then (rc, argv, v, i) else parseopt_loop opts has_index permute (Suc i) argv v 1
           | Some (argv', p, value) \<Rightarrow>
                 (case store_option p value v of
                    None \<Rightarrow> parseopt_loop opts has_index permute (Suc i) argv' v 1
                  | Some v \<Rightarrow>
                      (case op_func p of
                         None \<Rightarrow> parseopt_loop opts has_index permute (Suc i) argv' v rc
                       | Some f \<Rightarrow>
                           (case f v value of (v, r) \<Rightarrow>
                              parseopt_loop opts has_index permute (Suc i) argv' v (if r \<noteq> 0 then 1 else rc))))
      else (rc, argv, v, i))"
  by pat_completeness auto
termination
  by (relation "measure (\<lambda>(opts, h, p, i, argv, v, rc). length argv - i)") (auto simp: Some_map_option_iff split: option.splits if_splits)

declare parseopt_loop.simps [simp del]

definition dico_parseopt ::
  "dico_option list \<Rightarrow> bytes list \<Rightarrow> bool \<Rightarrow> bool \<Rightarrow> bool \<Rightarrow> opt_vars \<Rightarrow> int \<times> bytes list \<times> opt_vars \<times> nat" where
  "dico_parseopt opts argv argv0 permute has_index v =
     parseopt_loop opts has_index permute (if argv0 then 0 else 1) argv v 0"

section \<open>What is parsed\<close>

text \<open>
  A table is proper when no name is a prefix of another, and names are not empty, have no equals
  sign and do not begin with \<^verbatim>\<open>no\<close>.
\<close>

definition proper_name :: "bytes \<Rightarrow> bool" where
  "proper_name n \<longleftrightarrow> n \<noteq> [] \<and> 0x3d \<notin> set n \<and> take 2 n \<noteq> str ''no''"

definition proper_table :: "dico_option list \<Rightarrow> bool" where
  "proper_table opts \<longleftrightarrow>
     (\<forall>p \<in> set opts. proper_name (op_name p) \<and> op_func p = None \<and> op_value p = 0 \<and>
        op_type p \<in> {dico_opt_bool, dico_opt_string, dico_opt_const_string}) \<and>
     (\<forall>p \<in> set opts. \<forall>q \<in> set opts. prefix (op_name p) (op_name q) \<longrightarrow> p = q)"

text \<open>A setting: a flag that is set or not, or a string.\<close>

datatype setting = Flag bool | Value bytes

definition setting_ok :: "dico_option \<Rightarrow> setting \<Rightarrow> bool" where
  "setting_ok p x = (case x of Flag _ \<Rightarrow> op_type p = dico_opt_bool | Value _ \<Rightarrow> op_type p \<in> {dico_opt_string, dico_opt_const_string})"

definition render_setting :: "dico_option \<Rightarrow> setting \<Rightarrow> bytes" where
  "render_setting p x = (case x of Flag True \<Rightarrow> op_name p | Flag False \<Rightarrow> str ''no'' @ op_name p | Value w \<Rightarrow> op_name p @ [0x3d] @ w)"

definition assign :: "dico_option \<times> setting \<Rightarrow> opt_vars \<Rightarrow> opt_vars" where
  "assign s v = (case s of (p, Flag b) \<Rightarrow> set_num v (op_data p) (if b then 1 else 0) | (p, Value w) \<Rightarrow> set_str v (op_data p) (Some w))"

lemma prefix_before_eq:
  assumes "prefix a (b @ 0x3d # w)" "(0x3d :: byte) \<notin> set a"
  shows "prefix a b"
proof -
  have "length a \<le> length b"
  proof (rule ccontr)
    assume "\<not> length a \<le> length b"
    then have "length b < length a" by simp
    then have "a ! length b = (b @ 0x3d # w) ! length b"
      using assms(1) by (metis nth_append prefixE)
    with assms(2) \<open>length b < length a\<close> show False by (metis nth_append_length nth_mem)
  qed
  then show ?thesis using assms(1) by (auto simp: prefix_def append_eq_append_conv2)
qed

lemma find_opt_loop_found:
  assumes tab: "proper_table (qs @ ps)" "p \<in> set ps" and x: "setting_ok p x"
    and len: "length s \<le> len" "isbool \<longleftrightarrow> x = Flag False"
    and s: "s = (case x of Flag _ \<Rightarrow> op_name p | Value w \<Rightarrow> op_name p @ [0x3d] @ w)"
  shows "find_opt_loop ps len isbool s = Some (p, case x of Flag b \<Rightarrow> if b then Some s else None | Value w \<Rightarrow> Some w)"
  using tab
proof (induction ps arbitrary: qs)
  case (Cons q ps)
  show ?case
  proof (cases "q = p")
    case True
    with x len s Cons.prems(1) show ?thesis
      by (auto simp: setting_ok_def proper_table_def split: setting.splits)
  next
    case False
    then have "p \<in> set ps" using Cons.prems(2) by simp
    have pq: "q \<in> set (qs @ q # ps)" "p \<in> set (qs @ q # ps)" using Cons.prems(2) by auto
    then have "0x3d \<notin> set (op_name q)" using Cons.prems(1) by (auto simp: proper_table_def proper_name_def)
    then have "prefix (op_name q) s \<Longrightarrow> prefix (op_name q) (op_name p)"
      using s prefix_before_eq [of "op_name q" "op_name p"] by (auto split: setting.splits)
    with False pq Cons.prems(1) have "\<not> prefix (op_name q) s"
      unfolding proper_table_def by blast
    with Cons.IH [of "qs @ [q]"] Cons.prems \<open>p \<in> set ps\<close> show ?thesis by simp
  qed
qed simp

lemma find_opt_render:
  assumes tab: "proper_table opts" "p \<in> set opts" and x: "setting_ok p x"
  shows "find_opt opts (render_setting p x) = Some (p, case x of Flag b \<Rightarrow> if b then Some (op_name p) else None | Value w \<Rightarrow> Some w)"
proof -
  have n: "proper_name (op_name p)" using tab by (simp add: proper_table_def)
  have no: "take 2 (op_name p @ 0x3d # w) \<noteq> str ''no''" for w
    using n by (cases "op_name p" rule: remdups_adj.cases) (auto simp: proper_name_def)
  show ?thesis
  proof (cases "x = Flag False")
    case True
    with n find_opt_loop_found [of "[]" opts p x "op_name p" "2 + length (op_name p)" True] tab x show ?thesis
      by (auto simp: find_opt_def render_setting_def proper_name_def)
  next
    case False
    with n no have "\<not> (length (render_setting p x) > 2 \<and> take 2 (render_setting p x) = str ''no'')"
      by (auto simp: render_setting_def proper_name_def split: setting.splits bool.splits)
    with False find_opt_loop_found [of "[]" opts p x "render_setting p x" "length (render_setting p x)" False] tab x show ?thesis
      by (auto simp: find_opt_def render_setting_def split: setting.splits bool.splits)
  qed
qed

lemma parseopt_loop_settings:
  assumes "proper_table opts" "\<forall>(p, x) \<in> set xs. p \<in> set opts \<and> setting_ok p x" "argv = pre @ map (\<lambda>(p, x). render_setting p x) xs"
  shows "parseopt_loop opts h pm (length pre) argv v 0 = (0, argv, fold assign xs v, length argv)"
  using assms(2,3)
proof (induction xs arbitrary: pre v)
  case Nil
  then show ?case by (simp add: parseopt_loop.simps)
next
  case (Cons a xs)
  obtain p x where a: "a = (p, x)" by fastforce
  have p: "p \<in> set opts" "setting_ok p x" using Cons.prems(1) a by auto
  have o: "op_func p = None" "op_value p = 0" using assms(1) p(1) by (auto simp: proper_table_def)
  have len: "length pre < length argv" using Cons.prems(2) by simp
  have f: "find_opt opts (argv ! length pre) = Some (p, case x of Flag b \<Rightarrow> if b then Some (op_name p) else None | Value w \<Rightarrow> Some w)"
    using find_opt_render [OF assms(1) p] Cons.prems(2) a by (simp add: nth_append)
  have s: "store_option p (case x of Flag b \<Rightarrow> if b then Some (op_name p) else None | Value w \<Rightarrow> Some w) v = Some (assign a v)"
    using p(2) o(2) a by (auto simp: store_option_def setting_ok_def assign_def Let_def split: setting.splits)
  have "parseopt_loop opts h pm (length pre) argv v 0 = parseopt_loop opts h pm (Suc (length pre)) argv (assign a v) 0"
    using len by (subst parseopt_loop.simps) (simp add: f s o Let_def)
  also have "\<dots> = (0, argv, fold assign xs (assign a v), length argv)"
    using Cons.IH [of "pre @ [render_setting p x]" "assign a v"] Cons.prems a by simp
  finally show ?case by simp
qed



end
