(* ===== verification/Dico_Dictorg.thy ===== *)
theory Dico_Dictorg
  imports Dico_Dictstr Dico_Utf8 Dico_Codec Dico_Strat Dico_Search Dico_Parseopt
begin

text \<open>
  The module \<^verbatim>\<open>dictorg\<close> (\<^verbatim>\<open>modules/dict.org/dictorg.c\<close>), which serves dictionaries in the format of
  dict.org: a text and an index whose lines give a word and the place of its article, the numbers
  in base 64. Exact and prefix matches search the index, suffix matches an index of the reversed
  words that is built when it is first needed, and other strategies look at every word.

  An entry of the index never changes after it was read, so that a pointer to one is the entry.
  Allocations succeed. \<open>None\<close> is undefined behaviour: a variable that is used before it is set,
  a pointer that leaves a string, or a loop that does not end. Comparisons are counted as in the
  static variable \<^verbatim>\<open>compare_count\<close>.
\<close>

unbundle bit_operations_syntax

section \<open>Data\<close>

record index_entry =
  ie_word :: bytes
  ie_length :: nat
  ie_wordlen :: nat
  ie_offset :: int
  ie_size :: nat

record rev_entry =
  rv_word :: bytes
  rv_ptr :: index_entry

record 'z dictdb =
  dd_dbname :: bytes
  dd_basename :: bytes
  dd_index :: "index_entry list"
  dd_suf_index :: "rev_entry list option"
  dd_show_dictorg_entries :: bool
  dd_stream :: "'z dict_stream dico_stream option"

datatype result_type = result_match | result_define

text \<open>A result without the pointer to its database, which is passed beside it.\<close>

record dict_result =
  dr_type :: result_type
  dr_compare_count :: nat
  dr_list :: "index_entry list"

definition DICTORG_ENTRY_PREFIX :: bytes where "DICTORG_ENTRY_PREFIX = str ''00-database''"
definition DICTORG_SHORT_ENTRY_NAME :: bytes where "DICTORG_SHORT_ENTRY_NAME = DICTORG_ENTRY_PREFIX @ str ''-short''"
definition DICTORG_INFO_ENTRY_NAME :: bytes where "DICTORG_INFO_ENTRY_NAME = DICTORG_ENTRY_PREFIX @ str ''-info''"

text \<open>The string in a buffer: the bytes before the first NUL.\<close>

definition string_in :: "bytes \<Rightarrow> bytes" where
  "string_in buf = takeWhile (\<lambda>c. c \<noteq> 0) buf"

section \<open>Trimming (lib/util.c)\<close>

definition dico_string_trim :: "(byte \<Rightarrow> bool) \<Rightarrow> bytes \<Rightarrow> bytes" where
  "dico_string_trim prd buf = rev (dropWhile prd (rev buf))"

definition is_nl :: "byte \<Rightarrow> bool" where
  "is_nl c \<longleftrightarrow> c = 0x0d \<or> c = 0x0a"

definition dico_trim_nl :: "bytes \<Rightarrow> bytes" where
  "dico_trim_nl buf = dico_string_trim is_nl buf"

definition is_ws :: "byte \<Rightarrow> bool" where
  "is_ws c \<longleftrightarrow> c_isspace c"

definition dico_trim_ws :: "bytes \<Rightarrow> bytes" where
  "dico_trim_ws buf = dico_string_trim is_ws buf"

text \<open>The name of a file in a directory: one slash between the two.\<close>

definition dico_full_file_name :: "bytes \<Rightarrow> bytes \<Rightarrow> bytes" where
  "dico_full_file_name dir name =
     (let base = (if dir \<noteq> [] \<and> last dir = 0x2f then dico_string_trim (\<lambda>c. c = 0x2f) dir else dir) in
      base @ [0x2f] @ dropWhile (\<lambda>c. c = 0x2f) name)"

section \<open>Reading the index\<close>

definition dict_isws :: "byte \<Rightarrow> bool" where
  "dict_isws c \<longleftrightarrow> c = 0x20 \<or> c = 0x09"

text \<open>
  The characters are passed to \<^verbatim>\<open>dico_base64_input\<close> as \<^verbatim>\<open>unsigned\<close>, from a signed \<^verbatim>\<open>char\<close>.
\<close>

fun b64_digits :: "bytes \<Rightarrow> 64 word \<Rightarrow> 64 word option" where
  "b64_digits [] v = Some v"
| "b64_digits (c # cs) v =
     (let x = dico_base64_input (scast c) in
      if x = -1 then None else b64_digits cs (push_bit 6 v OR word_of_int x))"

text \<open>\<^verbatim>\<open>b64_decode\<close>: \<open>None\<close> is the return value 1.\<close>

definition b64_decode :: "bytes \<Rightarrow> 64 word option" where
  "b64_decode val = b64_digits val 0"

partial_function (option) iter_while :: "(utf8_iterator \<Rightarrow> bool) \<Rightarrow> utf8_iterator \<Rightarrow> utf8_iterator option" where
  "iter_while p itr = do {
     e \<leftarrow> utf8_iter_end_p itr;
     (if \<not> e \<and> p itr
      then do { (_, itr) \<leftarrow> utf8_iter_next itr; iter_while p itr }
      else Some itr) }"

definition iter_skip_ws :: "utf8_iterator \<Rightarrow> utf8_iterator option" where
  "iter_skip_ws itr = iter_while (\<lambda>i. utf8_iter_isascii i \<and> dict_isws (iter_byte i)) itr"

definition iter_field :: "utf8_iterator \<Rightarrow> utf8_iterator option" where
  "iter_field itr = iter_while (\<lambda>i. \<not> (utf8_iter_isascii i \<and> iter_byte i = 0x09)) itr"

text \<open>The variable \<^verbatim>\<open>idx\<close> while the fields are read: what is not set yet is \<open>None\<close>.\<close>

record partial_entry =
  pe_word :: "(bytes \<times> nat) option"
  pe_offset :: "64 word option"
  pe_size :: "64 word option"

text \<open>
  The loop over the fields from number \<open>nfield\<close> on; the sum is \<open>Inl\<close> for a number that is not
  valid, and otherwise where the iterator stands and what was set.
\<close>

function parse_fields :: "bool \<Rightarrow> nat \<Rightarrow> utf8_iterator \<Rightarrow> partial_entry \<Rightarrow> (unit + utf8_iterator \<times> partial_entry) option" where
  "parse_fields tws nfield itr idx =
     (if nfield < 3
      then do {
        itr \<leftarrow> iter_skip_ws itr;
        e \<leftarrow> utf8_iter_end_p itr;
        (if e then Some (Inr (itr, idx))
         else do {
           let start = ui_curptr itr;
           itr \<leftarrow> iter_field itr;
           let field = take (ui_curptr itr - start) (drop start (ui_string itr));
           (if nfield = 0
            then do {
              let word = (if tws then dico_string_trim (\<lambda>c. c = 0x20) field else field);
              wordlen \<leftarrow> utf8_strlen word;
              parse_fields tws 1 itr (idx\<lparr>pe_word := Some (word, wordlen)\<rparr>) }
            else
              (case b64_decode field of
                 None \<Rightarrow> Some (Inl ())
               | Some n \<Rightarrow>
                   parse_fields tws (Suc nfield) itr
                     (if nfield = 1 then idx\<lparr>pe_offset := Some n\<rparr> else idx\<lparr>pe_size := Some n\<rparr>))) }) }
      else Some (Inr (itr, idx)))"
  by pat_completeness auto
termination
  by (relation "measure (\<lambda>(tws, nfield, itr, idx). 3 - nfield)") auto

declare parse_fields.simps [simp del]

text \<open>
  \<^verbatim>\<open>parse_index_entry\<close>: \<open>Inl ()\<close> is the return value 1. A line that ends before the third field
  is accepted, with fields of \<^verbatim>\<open>idx\<close> that were never set.
\<close>

definition parse_index_entry :: "bytes \<Rightarrow> bool \<Rightarrow> (unit + index_entry) option" where
  "parse_index_entry buf tws = do {
     (_, itr) \<leftarrow> utf8_iter_first \<lparr>ui_string = [], ui_curptr = 0, ui_curwidth = 0\<rparr> buf;
     r \<leftarrow> parse_fields tws 0 itr \<lparr>pe_word = None, pe_offset = None, pe_size = None\<rparr>;
     (case r of
        Inl _ \<Rightarrow> Some (Inl ())
      | Inr (itr, idx) \<Rightarrow> do {
          e \<leftarrow> utf8_iter_end_p itr;
          (if \<not> e then Some (Inl ())
           else do {
             (word, wordlen) \<leftarrow> pe_word idx;
             offset \<leftarrow> pe_offset idx;
             sz \<leftarrow> pe_size idx;
             Some (Inr \<lparr>ie_word = word, ie_length = length word, ie_wordlen = wordlen,
                        ie_offset = sint offset, ie_size = unat sz\<rparr>) }) }) }"

text \<open>The loop of \<^verbatim>\<open>read_index\<close> over the lines, with the size of the line buffer.\<close>

partial_function (option) read_index_loop ::
  "(nat \<Rightarrow> bool) \<Rightarrow> bool \<Rightarrow> mapfile dico_stream \<Rightarrow> nat option \<Rightarrow> index_entry list \<Rightarrow> (unit + index_entry list) option" where
  "read_index_loop alloc tws s bufsize acc = do {
     (s, rc, line, bufsize) \<leftarrow> dico_stream_getline alloc s bufsize;
     (if rc \<noteq> 0 then Some (Inr acc)
      else do {
        r \<leftarrow> parse_index_entry (dico_trim_nl (string_in line)) tws;
        (case r of
           Inl _ \<Rightarrow> Some (Inl ())
         | Inr ep \<Rightarrow> read_index_loop alloc tws s (Some bufsize) (acc @ [ep])) }) }"

text \<open>
  What the module sees of the file system: \<open>en_stat\<close> tells whether a file is regular (\<open>None\<close>: there
  is none), \<open>en_access\<close> whether it can be read; \<open>en_open\<close> and \<open>en_map\<close> are the system calls of mapped
  files; \<open>en_dir\<close> tells whether a file is a directory and can be read. \<open>en_alloc\<close> tells which line buffers can be had.
\<close>

record 'z dict_env =
  en_stat :: "bytes \<Rightarrow> bool option"
  en_dir :: "bytes \<Rightarrow> (bool \<times> bool) option"
  en_access :: "bytes \<Rightarrow> bool"
  en_open :: "bytes \<Rightarrow> sflag set \<Rightarrow> int + int \<times> bytes"
  en_map :: "bytes \<Rightarrow> int + unit"
  en_alloc :: "nat \<Rightarrow> bool"
  en_strerror :: "int \<Rightarrow> bytes"
  en_zlib :: "'z zlib"

text \<open>When the stream cannot be opened it is destroyed, and used nevertheless.\<close>

definition read_index :: "'z dict_env \<Rightarrow> bytes \<Rightarrow> bool \<Rightarrow> (unit + index_entry list) option" where
  "read_index en idxname tws =
     (if en_stat en idxname \<noteq> Some True then Some (Inl ())
      else case dico_mapfile_stream_create (en_open en) (en_map en) (True, True, True) idxname {DICO_STREAM_READ} of
        None \<Rightarrow> Some (Inl ())
      | Some s \<Rightarrow> do {
          (s, rc) \<leftarrow> dico_stream_open s;
          (if rc \<noteq> 0 then None else read_index_loop (en_alloc en) tws s None []) })"

definition mkname :: "bytes \<Rightarrow> bytes \<Rightarrow> bytes" where
  "mkname fname suf = fname @ [0x2e] @ suf"

definition open_index :: "'z dict_env \<Rightarrow> 'z dictdb \<Rightarrow> bool \<Rightarrow> (unit + 'z dictdb) option" where
  "open_index en db tws =
     map_option (map_sum id (\<lambda>index. db\<lparr>dd_index := index\<rparr>)) (read_index en (mkname (dd_basename db) (str ''index'')) tws)"

text \<open>\<^verbatim>\<open>open_stream\<close>: the first of the two files that can be read and opened.\<close>

fun open_stream_loop :: "'z dict_env \<Rightarrow> 'z dictdb \<Rightarrow> bytes list \<Rightarrow> (unit + 'z dictdb) option" where
  "open_stream_loop en db [] = Some (Inl ())"
| "open_stream_loop en db (suff # suffs) =
     (let name = mkname (dd_basename db) suff in
      if en_access en name
      then (case dict_stream_create (en_zlib en) (en_strerror en) (en_alloc en) (en_open en) (en_map en) name 0 of
              None \<Rightarrow> open_stream_loop en db suffs
            | Some s \<Rightarrow> do {
                (s, rc) \<leftarrow> dico_stream_open s;
                (if rc \<noteq> 0 then open_stream_loop en db suffs else Some (Inr (db\<lparr>dd_stream := Some s\<rparr>))) })
      else open_stream_loop en db suffs)"

definition open_stream :: "'z dict_env \<Rightarrow> 'z dictdb \<Rightarrow> (unit + 'z dictdb) option" where
  "open_stream en db = open_stream_loop en db [str ''dict.dz'', str ''dict'']"

section \<open>Comparing entries\<close>

definition compare_entry :: "index_entry \<Rightarrow> index_entry \<Rightarrow> int option" where
  "compare_entry a b = utf8_strcasecmp (ie_word a) (ie_word b)"

definition compare_prefix :: "index_entry \<Rightarrow> index_entry \<Rightarrow> int option" where
  "compare_prefix pkey pelt =
     (if ie_wordlen pelt < ie_wordlen pkey then Some (-1)
      else utf8_strncasecmp (ie_word pkey) (ie_word pelt) (ie_wordlen pkey))"

definition compare_rev_entry :: "rev_entry \<Rightarrow> rev_entry \<Rightarrow> int option" where
  "compare_rev_entry a b = utf8_strcasecmp (rv_word a) (rv_word b)"

definition compare_rev_prefix :: "rev_entry \<Rightarrow> rev_entry \<Rightarrow> int option" where
  "compare_rev_prefix pkey pelt =
     utf8_strncasecmp (rv_word pkey) (rv_word pelt) (min (ie_wordlen (rv_ptr pkey)) (ie_wordlen (rv_ptr pelt)))"

definition RESERVED_WORD :: "'z dictdb \<Rightarrow> bytes \<Rightarrow> bool" where
  "RESERVED_WORD db word \<longleftrightarrow>
     \<not> dd_show_dictorg_entries db \<and> length word \<ge> length DICTORG_ENTRY_PREFIX \<and>
     take (length DICTORG_ENTRY_PREFIX) word = DICTORG_ENTRY_PREFIX"

section \<open>Opening a database\<close>

text \<open>
  The variables of the module with their options; those of a database have copies of the flags and
  the name of the database. The numbers are the places of the variables.
\<close>

record dictorg =
  dm_dbdir :: "bytes option"
  dm_sort_index :: int
  dm_trim_ws :: int
  dm_show_dictorg_entries :: int

definition init_option :: "dico_option list" where
  "init_option =
     [string_option (str ''dbdir'') 0, bool_option (str ''sort'') 1, bool_option (str ''trim-ws'') 2,
      bool_option (str ''show-dictorg-entries'') 3]"

definition db_option :: "dico_option list" where
  "db_option =
     [bool_option (str ''sort'') 1, (string_option (str ''database'') 4)\<lparr>op_type := dico_opt_const_string\<rparr>,
      bool_option (str ''trim-ws'') 2, bool_option (str ''show-dictorg-entries'') 3]"

definition module_vars :: "dictorg \<Rightarrow> opt_vars" where
  "module_vars m =
     \<lparr>ov_num = (\<lambda>_. 0)(1 := dm_sort_index m, 2 := dm_trim_ws m, 3 := dm_show_dictorg_entries m),
      ov_str = (\<lambda>_. None)(0 := dm_dbdir m)\<rparr>"

text \<open>The strategies of the module; each has a search of its own.\<close>

datatype entry_match = M_exact | M_prefix | M_suffix

definition strat_tab :: "(bytes \<times> bytes \<times> entry_match) list" where
  "strat_tab =
     [(str ''exact'', str ''Match words exactly'', M_exact),
      (str ''prefix'', str ''Match word prefixes'', M_prefix),
      (str ''suffix'', str ''Match word suffixes'', M_suffix)]"

text \<open>The result of \<^verbatim>\<open>dico_strategy_add\<close> is not looked at.\<close>

definition register_strategies :: "'f strat_state \<Rightarrow> 'f strat_state option" where
  "register_strategies st =
     fold (\<lambda>(name, dsc, _) r. do {
         st \<leftarrow> r;
         (_, st) \<leftarrow> dico_strategy_add st \<lparr>s_name = name, s_descr = dsc, s_sel = None, s_closure = 0, s_is_default = False, s_stratcl = None\<rparr>;
         Some st })
       strat_tab (Some st)"

definition mod_init ::
  "'z dict_env \<Rightarrow> dictorg \<Rightarrow> 'f strat_state \<Rightarrow> bytes list \<Rightarrow> (dictorg \<times> 'f strat_state \<times> int) option" where
  "mod_init en m st argv =
     (case dico_parseopt init_option argv False False False (module_vars m) of (rc, _, v, _) \<Rightarrow>
        let m = \<lparr>dm_dbdir = ov_str v 0, dm_sort_index = ov_num v 1, dm_trim_ws = ov_num v 2, dm_show_dictorg_entries = ov_num v 3\<rparr>
        in if rc \<noteq> 0 then Some (m, st, 1)
           else if (case dm_dbdir m of None \<Rightarrow> True | Some dir \<Rightarrow> en_dir en dir = Some (True, True))
           then map_option (\<lambda>st. (m, st, 0)) (register_strategies st)
           else Some (m, st, 1))"

text \<open>\<^verbatim>\<open>mod_init_db\<close>: \<open>Inl ()\<close> is the NULL pointer.\<close>

definition mod_init_db :: "'z dict_env \<Rightarrow> dictorg \<Rightarrow> bytes \<Rightarrow> bytes list \<Rightarrow> (unit + 'z dictdb) option" where
  "mod_init_db en m dbname argv =
     (case dico_parseopt db_option argv False False False (module_vars m) of (rc, _, v, _) \<Rightarrow>
        if rc \<noteq> 0 then Some (Inl ())
        else case ov_str v 4 of
          None \<Rightarrow> Some (Inl ())
        | Some filename \<Rightarrow>
          (case (if chr_at filename = 0x2f then Some filename else map_option (\<lambda>dir. dico_full_file_name dir filename) (dm_dbdir m)) of
             None \<Rightarrow> Some (Inl ())
           | Some filename \<Rightarrow> do {
               r \<leftarrow> open_index en \<lparr>dd_dbname = dbname, dd_basename = filename, dd_index = [], dd_suf_index = None,
                      dd_show_dictorg_entries = (ov_num v 3 \<noteq> 0), dd_stream = None\<rparr> (ov_num v 2 \<noteq> 0);
               (case r of
                  Inl _ \<Rightarrow> Some (Inl ())
                | Inr db \<Rightarrow> do {
                    db \<leftarrow> (if ov_num v 1 \<noteq> 0
                           then map_option (\<lambda>(index, _). db\<lparr>dd_index := index\<rparr>) (c_qsort compare_entry (dd_index db))
                           else Some db);
                    open_stream en db }) }))"

section \<open>Matching\<close>

text \<open>
  Appending to a list with the flag \<^verbatim>\<open>DICO_LIST_COMPARE_TAIL\<close> and the comparator \<^verbatim>\<open>compare_entry\<close>:
  an entry equal to the last one is left out.
\<close>

fun append_entries :: "bool \<Rightarrow> index_entry list \<Rightarrow> index_entry list \<Rightarrow> nat \<Rightarrow> (index_entry list \<times> nat) option" where
  "append_entries unique l [] n = Some (l, n)"
| "append_entries unique l (p # ps) n =
     (if unique \<and> l \<noteq> []
      then do {
        r \<leftarrow> compare_entry (last l) p;
        append_entries unique (if r = 0 then l else l @ [p]) ps (Suc n) }
      else append_entries unique (l @ [p]) ps n)"

definition search_entry :: "bytes \<Rightarrow> index_entry option" where
  "search_entry word =
     map_option (\<lambda>n. \<lparr>ie_word = word, ie_length = length word, ie_wordlen = n, ie_offset = 0, ie_size = 0\<rparr>) (utf8_strlen word)"

text \<open>\<^verbatim>\<open>common_match\<close>: the inner \<open>None\<close> is the return value 1.\<close>

definition common_match ::
  "'z dictdb \<Rightarrow> bytes \<Rightarrow> (index_entry \<Rightarrow> index_entry \<Rightarrow> int option) \<Rightarrow> bool \<Rightarrow> dict_result option option" where
  "common_match db word compare unique = do {
     x \<leftarrow> search_entry word;
     (r, n) \<leftarrow> match_range (compare x) (dd_index db);
     (case r of
        None \<Rightarrow> Some None
      | Some (lo, hi) \<Rightarrow> do {
          (l, n) \<leftarrow> append_entries unique []
                      (filter (\<lambda>p. \<not> RESERVED_WORD db (ie_word p)) (map ((!) (dd_index db)) [lo..<hi])) n;
          Some (Some \<lparr>dr_type = result_match, dr_compare_count = n, dr_list = l\<rparr>) }) }"

definition exact_match :: "'z dictdb \<Rightarrow> bytes \<Rightarrow> dict_result option option" where
  "exact_match db word = common_match db word compare_entry True"

definition prefix_match :: "'z dictdb \<Rightarrow> bytes \<Rightarrow> dict_result option option" where
  "prefix_match db word = common_match db word compare_prefix True"

text \<open>
  \<^verbatim>\<open>revert_word\<close> writes the characters from the end of the buffer of \<open>len\<close> bytes to its
  beginning; \<open>acc\<close> is what was written. The iterator is not initialised, so that its width is
  unset when the first byte does not begin a character. The result is undefined when a byte of
  the buffer was not written.
\<close>

partial_function (option) revert_loop :: "nat \<Rightarrow> utf8_iterator \<Rightarrow> bytes \<Rightarrow> bytes option" where
  "revert_loop len itr acc = do {
     e \<leftarrow> utf8_iter_end_p itr;
     (if e \<or> len < length acc + ui_curwidth itr
      then (if length acc = len then Some acc else None)
      else do {
        let ch = take (ui_curwidth itr) (drop (ui_curptr itr) (ui_string itr));
        (if length ch = ui_curwidth itr
         then do {
           (_, itr) \<leftarrow> utf8_iter_next itr;
           revert_loop len itr (ch @ acc) }
         else None) }) }"

definition revert_word :: "bytes \<Rightarrow> nat \<Rightarrow> bytes option" where
  "revert_word src len = do {
     (rc, itr) \<leftarrow> utf8_iter_first \<lparr>ui_string = [], ui_curptr = 0, ui_curwidth = 0\<rparr> src;
     (if rc \<noteq> 0 \<and> src \<noteq> [] then None else revert_loop len itr []) }"

fun revert_entries :: "index_entry list \<Rightarrow> rev_entry list option" where
  "revert_entries [] = Some []"
| "revert_entries (e # es) = do {
     w \<leftarrow> revert_word (ie_word e) (ie_length e);
     rs \<leftarrow> revert_entries es;
     Some (\<lparr>rv_word = w, rv_ptr = e\<rparr> # rs) }"

definition init_suffix_index :: "'z dictdb \<Rightarrow> ('z dictdb \<times> rev_entry list) option" where
  "init_suffix_index db =
     (case dd_suf_index db of
        Some ix \<Rightarrow> Some (db, ix)
      | None \<Rightarrow> do {
          rs \<leftarrow> revert_entries (dd_index db);
          (ix, _) \<leftarrow> c_qsort compare_rev_entry rs;
          Some (db\<lparr>dd_suf_index := Some ix\<rparr>, ix) })"

definition compare_entry_ptr :: "index_entry \<Rightarrow> index_entry \<Rightarrow> int option" where
  "compare_entry_ptr a b = compare_entry a b"

text \<open>\<^verbatim>\<open>suffix_match\<close> may build the index of the database.\<close>

definition suffix_match :: "'z dictdb \<Rightarrow> bytes \<Rightarrow> ('z dictdb \<times> dict_result option) option" where
  "suffix_match db word = do {
     (db, ix) \<leftarrow> init_suffix_index db;
     ent \<leftarrow> search_entry word;
     w \<leftarrow> revert_word word (length word);
     (r, n) \<leftarrow> match_range (compare_rev_prefix \<lparr>rv_word = w, rv_ptr = ent\<rparr>) ix;
     (case r of
        None \<Rightarrow> Some (db, None)
      | Some (lo, hi) \<Rightarrow> do {
          let tmp = filter (\<lambda>p. \<not> RESERVED_WORD db (ie_word p)) (map (\<lambda>i. rv_ptr (ix ! i)) [lo..<hi]);
          (tmp, k) \<leftarrow> c_qsort compare_entry_ptr tmp;
          (l, n) \<leftarrow> append_entries True [] tmp (n + k);
          Some (db, Some \<lparr>dr_type = result_match, dr_compare_count = n, dr_list = l\<rparr>) }) }"

definition find_matcher :: "bytes \<Rightarrow> entry_match option" where
  "find_matcher strat = map_option (\<lambda>(_, _, m). m) (find (\<lambda>(name, _, _). strcmp strat name = 0) strat_tab)"

definition run_matcher :: "entry_match \<Rightarrow> 'z dictdb \<Rightarrow> bytes \<Rightarrow> ('z dictdb \<times> dict_result option) option" where
  "run_matcher m db word =
     (case m of
        M_exact \<Rightarrow> map_option (Pair db) (exact_match db word)
      | M_prefix \<Rightarrow> map_option (Pair db) (prefix_match db word)
      | M_suffix \<Rightarrow> suffix_match db word)"

definition match_simple :: "'z dictdb \<Rightarrow> entry_match \<Rightarrow> bytes \<Rightarrow> ('z dictdb \<times> dict_result option) option" where
  "match_simple db match word = run_matcher match db word"

text \<open>The loop of \<^verbatim>\<open>_match_all\<close> over the index; \<open>run\<close> calls the selectors.\<close>

fun match_all_loop ::
  "('f, 'd, 's) selector \<Rightarrow> 'z dictdb \<Rightarrow> ('f, 'd) dico_key \<Rightarrow> 's \<Rightarrow> index_entry list \<Rightarrow> index_entry list \<Rightarrow>
   (('f, 'd) dico_key \<times> 's \<times> index_entry list) option" where
  "match_all_loop run db key s l [] = Some (key, s, l)"
| "match_all_loop run db key s l (e # es) =
     (if RESERVED_WORD db (ie_word e) then match_all_loop run db key s l es
      else do {
        r \<leftarrow> dico_key_match run (Some key) (Some (ie_word e)) s;
        (case r of
           Inl _ \<Rightarrow> None
         | Inr (res, keyp, s) \<Rightarrow> do {
             key \<leftarrow> keyp;
             (l, _) \<leftarrow> (if res \<noteq> 0 then append_entries True l [e] 0 else Some (l, 0));
             match_all_loop run db key s l es }) })"

definition match_all ::
  "('f, 'd, 's) selector \<Rightarrow> 'z dictdb \<Rightarrow> 'f strategy \<Rightarrow> bytes \<Rightarrow> 's \<Rightarrow> ('s \<times> dict_result option) option" where
  "match_all run db strat word s =
     (case dico_key_init run strat word s of (rc, key, s) \<Rightarrow>
        if rc \<noteq> 0 then Some (s, None)
        else do {
          (key, s, l) \<leftarrow> match_all_loop run db key s [] (dd_index db);
          (_, s) \<leftarrow> dico_key_deinit run key s;
          Some (s, if l = [] then None
                   else Some \<lparr>dr_type = result_match, dr_compare_count = length (dd_index db), dr_list = l\<rparr>) })"

definition mod_match ::
  "('f, 'd, 's) selector \<Rightarrow> 'z dictdb \<Rightarrow> 'f strategy \<Rightarrow> bytes \<Rightarrow> 's \<Rightarrow> ('z dictdb \<times> 's \<times> dict_result option) option" where
  "mod_match run db strat word s =
     (if RESERVED_WORD db word then Some (db, s, None)
      else case find_matcher (s_name strat) of
        Some m \<Rightarrow> map_option (\<lambda>(db, r). (db, s, r)) (match_simple db m word)
      | None \<Rightarrow>
          (if s_sel strat \<noteq> None then map_option (Pair db) (match_all run db strat word s) else Some (db, s, None)))"

definition mod_define :: "'z dictdb \<Rightarrow> bytes \<Rightarrow> dict_result option option" where
  "mod_define db word =
     (if RESERVED_WORD db word then Some None
      else map_option (map_option (\<lambda>r. r\<lparr>dr_type := result_define\<rparr>)) (common_match db word compare_entry False))"

section \<open>Articles\<close>

text \<open>The stream of an open database is not NULL.\<close>

definition find_db_entry :: "'z dictdb \<Rightarrow> bytes \<Rightarrow> ('z dictdb \<times> bytes option) option" where
  "find_db_entry db name = do {
     x \<leftarrow> search_entry name;
     (hit, _) \<leftarrow> c_bsearch (compare_entry x) (dd_index db);
     (case hit of
        None \<Rightarrow> Some (db, None)
      | Some i \<Rightarrow> do {
          let ep = dd_index db ! i;
          s \<leftarrow> dd_stream db;
          (s, _) \<leftarrow> dico_stream_seek s (ie_offset ep) DICO_SEEK_SET;
          (s, rc, bs) \<leftarrow> dico_stream_read s (ie_size ep) False;
          Some (db\<lparr>dd_stream := Some s\<rparr>, if rc \<noteq> 0 then None else Some (string_in bs)) }) }"

definition mod_info :: "'z dictdb \<Rightarrow> ('z dictdb \<times> bytes option) option" where
  "mod_info db = find_db_entry db DICTORG_INFO_ENTRY_NAME"

definition mod_descr :: "'z dictdb \<Rightarrow> ('z dictdb \<times> bytes option) option" where
  "mod_descr db =
     map_option (\<lambda>(db, r). (db, map_option (\<lambda>p.
         let ptr = dico_trim_nl p; head = DICTORG_SHORT_ENTRY_NAME @ [0x0a] in
         if length ptr \<ge> length head \<and> take (length head) ptr = head
         then dropWhile c_isspace (drop (length head) ptr) else ptr) r))
       (find_db_entry db DICTORG_SHORT_ENTRY_NAME)"

text \<open>The loop of \<^verbatim>\<open>printdef\<close>: the pieces that are written to the reply.\<close>

function printdef_loop :: "'s dico_stream \<Rightarrow> nat \<Rightarrow> ('s dico_stream \<times> bytes list) option" where
  "printdef_loop s sz =
     (if sz = 0 then Some (s, [])
      else (let rdsize = min sz 128 in
        case dico_stream_read s rdsize False of
          None \<Rightarrow> None
        | Some (s, rc, bs) \<Rightarrow>
            (if rc \<noteq> 0 then Some (s, [])
             else map_option (\<lambda>(s, out). (s, bs # out)) (printdef_loop s (sz - rdsize)))))"
  by pat_completeness auto
termination
  by (relation "measure (\<lambda>(s, sz). sz)") auto

declare printdef_loop.simps [simp del]

definition printdef :: "'z dictdb \<Rightarrow> index_entry \<Rightarrow> ('z dictdb \<times> bytes list) option" where
  "printdef db ep = do {
     s \<leftarrow> dd_stream db;
     (s, off) \<leftarrow> dico_stream_seek s (ie_offset ep) DICO_SEEK_SET;
     (if off < 0 then Some (db\<lparr>dd_stream := Some s\<rparr>, [])
      else do {
        (s, out) \<leftarrow> printdef_loop s (ie_size ep);
        Some (db\<lparr>dd_stream := Some s\<rparr>, out) }) }"

text \<open>A number that is not below the count gives a NULL pointer, which is used.\<close>

definition mod_output_result :: "'z dictdb \<Rightarrow> dict_result \<Rightarrow> nat \<Rightarrow> ('z dictdb \<times> bytes list) option" where
  "mod_output_result db res n =
     (if n < length (dr_list res)
      then (case dr_type res of
              result_match \<Rightarrow> Some (db, [ie_word (dr_list res ! n)])
            | result_define \<Rightarrow> printdef db (dr_list res ! n))
      else None)"

definition mod_result_count :: "dict_result \<Rightarrow> nat" where
  "mod_result_count res = length (dr_list res)"

definition mod_compare_count :: "dict_result \<Rightarrow> nat" where
  "mod_compare_count res = dr_compare_count res"

text \<open>Closing the stream, which may be NULL, is what remains of freeing a database.\<close>

definition free_db :: "'z dictdb \<Rightarrow> int option" where
  "free_db db =
     (case dd_stream db of
        None \<Rightarrow> Some 0
      | Some s \<Rightarrow> do { (s, _) \<leftarrow> dico_stream_close s; _ \<leftarrow> dico_stream_destroy s; Some 0 })"

definition mod_free_db :: "'z dictdb \<Rightarrow> int option" where
  "mod_free_db db = free_db db"

end
