(* ===== verification/Dico_Dictstr_Props.thy ===== *)
theory Dico_Dictstr_Props
  imports Dico_Dictstr
begin

text \<open>
  What a dictionary stream promises: whatever was read before, a read at a position gives the bytes
  of the text that are there. The contract is the locale \<open>dict_source\<close>, which holds for plain
  texts and for \<^verbatim>\<open>dictzip\<close> files; for these the invariant is that every slot of the cache that
  has a number holds that chunk of the text.
\<close>

unbundle bit_operations_syntax

section \<open>The mapped file below\<close>

definition mapped :: "bytes \<Rightarrow> mapfile dico_stream \<Rightarrow> nat \<Rightarrow> bool" where
  "mapped img t pos \<longleftrightarrow>
     s_buftype t = dico_buffer_none \<and> s_level t = 0 \<and> s_cur t = 0 \<and> s_last_err t = 0 \<and>
     s_flags t = {DICO_STREAM_READ, DICO_STREAM_SEEK} \<and>
     d_read (s_drv t) = Some mapfile_read \<and> d_seek (s_drv t) = Some mapfile_seek \<and> d_flush (s_drv t) = None \<and>
     d_size (s_drv t) = Some mapfile_size \<and>
     mf_start (s_data t) = Some img \<and> mf_size (s_data t) = length img \<and> mf_offset (s_data t) = int pos \<and>
     pos \<le> length img"

lemma mapfile_read_at:
  assumes "mf_start m = Some img" "mf_size m = length img" "mf_offset m = int pos" "pos + n \<le> length img"
  shows "mapfile_read m n = Some (m\<lparr>mf_offset := int (pos + n)\<rparr>, Inr (take n (drop pos img)))"
  using assms by (auto simp: mapfile_read_def Let_def)

lemma mapped_read:
  assumes m: "mapped img t pos" and n: "0 < n" "pos + n \<le> length img"
  shows "\<exists>t'. dico_stream_read t n part = Some (t', 0, take n (drop pos img)) \<and> mapped img t' (pos + n)"
proof -
  have r: "mapfile_read (s_data t) n = Some ((s_data t)\<lparr>mf_offset := int (pos + n)\<rparr>, Inr (take n (drop pos img)))"
    using m n by (intro mapfile_read_at) (auto simp: mapped_def)
  have ne: "take n (drop pos img) \<noteq> []" "length (take n (drop pos img)) = n"
    using n by auto
  show ?thesis
    using m n r ne
    by (cases part)
      (auto simp: dico_stream_read_def dico_stream_read_unbuffered_def stream_read_loop.simps [of _ _ n]
        stream_read_loop.simps [of _ _ 0] mapped_def stream_seterror_def)
qed

lemma mapped_read_none: "mapped img t pos \<Longrightarrow> dico_stream_read t 0 True = Some (t, 0, [])"
  by (simp add: dico_stream_read_def dico_stream_read_unbuffered_def mapped_def)

lemma mapped_flush: "mapped img t pos \<Longrightarrow> dico_stream_flush t = Some (t, 0)"
  by (simp add: dico_stream_flush_def stream_flush_buffer.simps stream_flush_end_def stream_call_flush_def mapped_def)

definition seek_target :: "bytes \<Rightarrow> nat \<Rightarrow> whence \<Rightarrow> int \<Rightarrow> int" where
  "seek_target img pos whence needle =
     (case whence of DICO_SEEK_CUR \<Rightarrow> int pos | DICO_SEEK_END \<Rightarrow> int (length img) | _ \<Rightarrow> 0) + needle"

lemma mapped_seek_call:
  assumes m: "mapped img t pos" and w: "whence \<noteq> DICO_SEEK_OTHER"
  shows "dico_stream_seek t needle whence = stream_call_seek t needle whence"
proof -
  have c: "stream_seek_check t = (t, True)" "stream_orig_level t = 0"
    using m by (simp_all add: mapped_def stream_seek_check_def stream_orig_level_def)
  have n: "\<not> (x :: int) mod 18446744073709551616 < 0" for x
    by (simp add: not_less)
  show ?thesis
    by (simp add: dico_stream_seek_def c w n mapped_flush [OF m] Let_def)
qed

lemma mapfile_seek_at:
  assumes "mf_size m = length img" "mf_offset m = int pos" "whence \<noteq> DICO_SEEK_OTHER"
    and "seek_target img pos whence needle = int q" "q \<le> length img"
  shows "mapfile_seek m needle whence = Some (m\<lparr>mf_offset := int q\<rparr>, Inr (int q))"
  using assms by (cases whence) (simp_all add: mapfile_seek_def seek_target_def)

lemma mapped_seek:
  assumes m: "mapped img t pos" and w: "whence \<noteq> DICO_SEEK_OTHER" "seek_target img pos whence needle = int q" "q \<le> length img"
  shows "\<exists>t'. dico_stream_seek t needle whence = Some (t', int q) \<and> mapped img t' q"
proof -
  have "mapfile_seek (s_data t) needle whence = Some ((s_data t)\<lparr>mf_offset := int q\<rparr>, Inr (int q))"
    using m w by (intro mapfile_seek_at) (auto simp: mapped_def)
  with m w(3) show ?thesis
    by (simp add: mapped_seek_call [OF m w(1)] stream_call_seek_def stream_cleareof_def mapped_def)
qed

section \<open>The contract\<close>

text \<open>The stream the module reads from: unbuffered, with the functions of the driver.\<close>

definition source_at :: "'z zlib \<Rightarrow> ('z dict_stream \<Rightarrow> nat \<Rightarrow> bool) \<Rightarrow> 'z dict_stream dico_stream \<Rightarrow> nat \<Rightarrow> bool" where
  "source_at zl at s p \<longleftrightarrow>
     s_buftype s = dico_buffer_none \<and> s_level s = 0 \<and> s_cur s = 0 \<and>
     s_flags s = {DICO_STREAM_READ, DICO_STREAM_SEEK} \<and>
     d_read (s_drv s) = Some (dict_read zl) \<and> d_seek (s_drv s) = Some dict_seek \<and> d_flush (s_drv s) = None \<and>
     at (s_data s) p"

text \<open>\<open>at d p\<close>: the stream is ready to read at the position \<open>p\<close> of the text.\<close>

locale dict_source =
  fixes zl :: "'z zlib" and body :: bytes and at :: "'z dict_stream \<Rightarrow> nat \<Rightarrow> bool"
  assumes seek_to: "at d p \<Longrightarrow> q \<le> length body \<Longrightarrow>
      \<exists>d'. dict_seek d (int q) DICO_SEEK_SET = Some (d', Inr (int q)) \<and> at d' q"
    and read_at: "at d p \<Longrightarrow> 0 < n \<Longrightarrow> p + n \<le> length body \<Longrightarrow>
      \<exists>d'. dict_read zl d n = Some (d', Inr (take n (drop p body))) \<and> at d' (p + n)"
begin

lemma stream_seek:
  assumes "source_at zl at s p" "q \<le> length body"
  shows "\<exists>s'. dico_stream_seek s (int q) DICO_SEEK_SET = Some (s', int q) \<and> source_at zl at s' q"
proof -
  obtain d' where "dict_seek (s_data s) (int q) DICO_SEEK_SET = Some (d', Inr (int q))" "at d' q"
    using seek_to [of "s_data s" p q] assms by (auto simp: source_at_def)
  with assms(1) show ?thesis
    by (auto simp: dico_stream_seek_def stream_seek_check_def stream_call_seek_def dico_stream_flush_def
        stream_flush_buffer.simps stream_flush_end_def stream_call_flush_def stream_cleareof_def source_at_def Let_def)
qed

lemma stream_read:
  assumes "source_at zl at s p" "0 < n" "p + n \<le> length body"
  shows "\<exists>s'. dico_stream_read s n False = Some (s', 0, take n (drop p body)) \<and> source_at zl at s' (p + n)"
proof -
  obtain d' where d': "dict_read zl (s_data s) n = Some (d', Inr (take n (drop p body)))" "at d' (p + n)"
    using read_at [of "s_data s" p n] assms by (auto simp: source_at_def)
  have ne: "take n (drop p body) \<noteq> []" "length (take n (drop p body)) = n"
    using assms by auto
  show ?thesis
    using assms(1,2) d' ne
    by (auto simp: dico_stream_read_def dico_stream_read_unbuffered_def stream_read_loop.simps [of _ _ n]
        stream_read_loop.simps [of _ _ 0] source_at_def stream_seterror_def)
qed

end

section \<open>Plain texts\<close>

definition text_at :: "bytes \<Rightarrow> 'z dict_stream \<Rightarrow> nat \<Rightarrow> bool" where
  "text_at img d p \<longleftrightarrow> ds_type d = DICTORG_TEXT \<and> mapped img (ds_transport d) p"

interpretation plain: dict_source zl img "text_at img" for zl img
proof
  fix d :: "'a dict_stream" and p q
  assume "text_at img d p" "q \<le> length img"
  then show "\<exists>d'. dict_seek d (int q) DICO_SEEK_SET = Some (d', Inr (int q)) \<and> text_at img d' q"
    using mapped_seek [of img "ds_transport d" p DICO_SEEK_SET "int q" q]
    by (auto simp: text_at_def dict_seek_def dict_seek_text_def seek_target_def Let_def)
next
  fix d :: "'a dict_stream" and p n
  assume "text_at img d p" "0 < n" "p + n \<le> length img"
  then show "\<exists>d'. dict_read zl d n = Some (d', Inr (take n (drop p img))) \<and> text_at img d' (p + n)"
    using mapped_read [of img "ds_transport d" p n True]
    by (auto simp: text_at_def dict_read_def dict_read_text_def Let_def)
qed

section \<open>Dictzip files\<close>

text \<open>
  The chunk \<open>k\<close> of a text, and what the table of chunks has to say of the file: the compressed
  chunk is in the file, it fits into the decompression buffer, and the decompressor gives the
  chunk of the text for it in every state, since chunks are compressed independently.
\<close>

definition chunk_of :: "nat \<Rightarrow> bytes \<Rightarrow> nat \<Rightarrow> bytes" where
  "chunk_of csize body k = take csize (drop (k * csize) body)"

definition inflates :: "'z zlib \<Rightarrow> nat \<Rightarrow> bytes \<Rightarrow> bytes \<Rightarrow> bool" where
  "inflates zl csize packed plain \<longleftrightarrow> (\<forall>z. \<exists>z'. zl_inflate zl z packed csize = (z', 0, 0, plain))"

definition compressed :: "bytes \<Rightarrow> dict_chunk \<Rightarrow> bytes" where
  "compressed img c = take (ch_length c) (drop (ch_offset c) img)"

definition dz_table :: "'z zlib \<Rightarrow> bytes \<Rightarrow> bytes \<Rightarrow> nat \<Rightarrow> dict_chunk list \<Rightarrow> bool" where
  "dz_table zl img body csize table \<longleftrightarrow>
     0 < csize \<and> csize < 2 ^ 16 \<and> zl_init zl \<noteq> None \<and>
     (\<forall>k. k * csize < length body \<longrightarrow>
        k < length table \<and> ch_offset (table ! k) + ch_length (table ! k) \<le> length img \<and>
        ch_length (table ! k) \<le> csize \<and> inflates zl csize (compressed img (table ! k)) (chunk_of csize body k))"

definition slot_ok :: "nat \<Rightarrow> bytes \<Rightarrow> chunk_cache \<Rightarrow> bool" where
  "slot_ok csize body c \<longleftrightarrow>
     (\<forall>k. cc_num c = int k \<longrightarrow> k * csize < length body \<and>
        cc_size c = length (chunk_of csize body k) \<and> take (cc_size c) (cc_buffer c) = chunk_of csize body k)"

definition dz_ok :: "'z zlib \<Rightarrow> bytes \<Rightarrow> bytes \<Rightarrow> 'z dict_stream \<Rightarrow> bool" where
  "dz_ok zl img body d \<longleftrightarrow>
     ds_type d = DICTORG_DZIP \<and> (\<exists>pos. mapped img (ds_transport d) pos) \<and>
     dz_table zl img body (ds_chunk_size d) (ds_chunk d) \<and> 0 < ds_cache_size d \<and>
     ds_size d = length body \<and> list_all (slot_ok (ds_chunk_size d) body) (ds_cache d)"

lemma promote_to_le: "promote_to cache rc n \<le> n"
  by (induction n) (auto intro: le_SucI)

lemma cache_promote_set:
  assumes "n < length cache" "cache_promote cache n = (cache', i)"
  shows "i < length cache' \<and> length cache' = length cache \<and>
    cache' ! i = (cache ! n)\<lparr>cc_refcount := cc_refcount (cache ! n) + 1\<rparr> \<and>
    (\<forall>j < length cache'. j \<noteq> i \<longrightarrow> (\<exists>k < length cache. k \<noteq> n \<and> cache' ! j = cache ! k))"
proof -
  define c where "c = (cache ! n)\<lparr>cc_refcount := cc_refcount (cache ! n) + 1\<rparr>"
  define ca where "ca = cache[n := c]"
  have i: "i = promote_to ca (cc_refcount (cache ! n) + 1) n" "cache' = (if i \<noteq> n then ca[n := ca ! i, i := ca ! n] else ca)"
    using assms(2) by (auto simp: cache_promote_def Let_def ca_def c_def)
  have "i \<le> n" using i(1) promote_to_le by simp
  then show ?thesis
    using assms(1) i(2) by (auto simp: ca_def c_def nth_list_update intro: exI [of _ i])
qed

lemma cache_promote_all:
  assumes "n < length cache" "cache_promote cache n = (cache', i)" "\<And>j. j < length cache \<Longrightarrow> j \<noteq> n \<Longrightarrow> P (cache ! j)"
  shows "\<forall>j < length cache'. j \<noteq> i \<longrightarrow> P (cache' ! j)"
  using cache_promote_set [OF assms(1,2)] assms(3) by fastforce

lemma slot_ok_refcount [simp]: "slot_ok csize body (c\<lparr>cc_refcount := r\<rparr>) = slot_ok csize body c"
  by (simp add: slot_ok_def)

lemma cache_find_Some:
  "cache_find cache k = Some i \<Longrightarrow> i < length cache \<and> cc_num (cache ! i) = int k"
  using nth_length_takeWhile [of "\<lambda>c. cc_num c \<noteq> int k" cache]
  by (auto simp: cache_find_def Let_def split: if_splits)

lemma length_chunk_of: "length (chunk_of csize body k) = min csize (length body - k * csize)"
  by (simp add: chunk_of_def)

lemma compressed_read:
  assumes m: "mapped img t pos" and c: "ch_offset c + ch_length c \<le> length img"
  shows "\<exists>t1 t2 pos'. dico_stream_seek t (int (ch_offset c)) DICO_SEEK_SET = Some (t1, int (ch_offset c)) \<and>
    dico_stream_read t1 (ch_length c) True = Some (t2, 0, compressed img c) \<and> mapped img t2 pos'"
proof -
  obtain t1 where t1: "dico_stream_seek t (int (ch_offset c)) DICO_SEEK_SET = Some (t1, int (ch_offset c))"
      "mapped img t1 (ch_offset c)"
    using mapped_seek [OF m, of DICO_SEEK_SET "int (ch_offset c)" "ch_offset c"] c by (auto simp: seek_target_def)
  show ?thesis
  proof (cases "ch_length c = 0")
    case True
    with t1 mapped_read_none [OF t1(2)] show ?thesis by (auto simp: compressed_def)
  next
    case False
    with mapped_read [OF t1(2), of "ch_length c" True] c t1 show ?thesis by (auto simp: compressed_def)
  qed
qed

lemma cache_fill_ok:
  assumes m: "mapped img (ds_transport d) pos" and tab: "dz_table zl img body (ds_chunk_size d) (ds_chunk d)"
    and k: "k * ds_chunk_size d < length body"
  shows "\<exists>t' z' buf pos'. cache_fill zl d k i =
      Some (d\<lparr>ds_transport := t', ds_zstream := Some z', ds_cache := (ds_cache d)[i := (ds_cache d ! i)
        \<lparr>cc_buffer := buf, cc_size := length (chunk_of (ds_chunk_size d) body k)\<rparr>]\<rparr>, 0) \<and>
      mapped img t' pos' \<and> take (length (chunk_of (ds_chunk_size d) body k)) buf = chunk_of (ds_chunk_size d) body k"
proof -
  let ?c = "ds_chunk d ! k" and ?p = "chunk_of (ds_chunk_size d) body k"
  have c: "k < length (ds_chunk d)" "ch_offset ?c + ch_length ?c \<le> length img" "ch_length ?c \<le> ds_chunk_size d"
      "inflates zl (ds_chunk_size d) (compressed img ?c) ?p"
    using tab k by (auto simp: dz_table_def)
  obtain t1 t2 pos' where t: "dico_stream_seek (ds_transport d) (int (ch_offset ?c)) DICO_SEEK_SET = Some (t1, int (ch_offset ?c))"
      "dico_stream_read t1 (ch_length ?c) True = Some (t2, 0, compressed img ?c)" "mapped img t2 pos'"
    using compressed_read [OF m c(2)] by blast
  obtain z where z: "inflate_init zl d = Some z"
    using tab by (cases "ds_zstream d") (auto simp: inflate_init_def dz_table_def)
  have z': "inflate_init zl (d\<lparr>ds_transport := t1\<rparr>) = Some z"
    using z by (simp add: inflate_init_def)
  obtain z2 where z2: "zl_inflate zl z (compressed img ?c) (ds_chunk_size d) = (z2, 0, 0, ?p)"
    using c(4) by (auto simp: inflates_def)
  have l: "length (compressed img ?c) \<le> ds_chunk_size d" "length ?p \<le> ds_chunk_size d"
    using c(3) by (auto simp: compressed_def chunk_of_def)
  have "cache_fill zl d k i =
      Some (d\<lparr>ds_transport := t2, ds_zstream := Some z2, ds_cache := (ds_cache d)[i := (ds_cache d ! i)
        \<lparr>cc_buffer := ?p @ drop (length ?p) (cc_buffer (ds_cache d ! i)), cc_size := length ?p\<rparr>]\<rparr>, 0)"
    using l by (simp add: cache_fill_def c(1) t(1,2) z' z2 Let_def not_less)
  moreover have "take (length ?p) (?p @ drop (length ?p) (cc_buffer (ds_cache d ! i))) = ?p"
    by simp
  ultimately show ?thesis using t(3) by blast
qed

definition holds :: "nat \<Rightarrow> bytes \<Rightarrow> nat \<Rightarrow> chunk_cache \<Rightarrow> bool" where
  "holds csize body k c \<longleftrightarrow> cc_size c = length (chunk_of csize body k) \<and> take (cc_size c) (cc_buffer c) = chunk_of csize body k"

lemma list_all_update_slot:
  "(\<And>j. j < length cs \<Longrightarrow> j \<noteq> i \<Longrightarrow> P (cs ! j)) \<Longrightarrow> P c \<Longrightarrow> list_all P (cs[i := c])"
  by (simp add: list_all_length) (metis nth_list_update nth_list_update_neq)

lemma cache_alloc_ok:
  assumes "list_all P (ds_cache d)" "0 < ds_cache_size d" "cache_alloc d = (d', i)"
  shows "i < length (ds_cache d') \<and> (\<forall>j < length (ds_cache d'). j \<noteq> i \<longrightarrow> P (ds_cache d' ! j)) \<and> d' = d\<lparr>ds_cache := ds_cache d'\<rparr>"
proof (cases "length (ds_cache d) < ds_cache_size d")
  case True
  with assms show ?thesis by (auto simp: cache_alloc_def list_all_length nth_append)
next
  case False
  with assms(2) have "ds_cache d \<noteq> []" by auto
  with False assms show ?thesis by (auto simp: cache_alloc_def Let_def list_all_length)
qed

lemma cache_get_ok:
  assumes ok: "dz_ok zl img body d" and k: "k * ds_chunk_size d < length body"
  shows "\<exists>d' i. cache_get zl d k = Some (d', 0, i) \<and> dz_ok zl img body d' \<and> ds_offset d' = ds_offset d \<and>
    ds_chunk_size d' = ds_chunk_size d \<and> i < length (ds_cache d') \<and> holds (ds_chunk_size d) body k (ds_cache d' ! i)"
proof (cases "cache_find (ds_cache d) k")
  case (Some i)
  obtain cache' i' where p: "cache_promote (ds_cache d) i = (cache', i')" by fastforce
  note f = cache_find_Some [OF Some] cache_promote_set [OF _ p]
  have s: "slot_ok (ds_chunk_size d) body (ds_cache d ! j)" if "j < length (ds_cache d)" for j
    using ok that by (auto simp: dz_ok_def list_all_length)
  have o: "\<forall>j < length cache'. j \<noteq> i' \<longrightarrow> slot_ok (ds_chunk_size d) body (cache' ! j)"
    using f(1) s by (intro cache_promote_all [OF _ p]) auto
  have i: "slot_ok (ds_chunk_size d) body (cache' ! i')"
    using f s by auto
  have "list_all (slot_ok (ds_chunk_size d) body) cache'"
    unfolding list_all_length using o i by blast
  moreover have "cc_num (cache' ! i') = int k"
    using f by simp
  then have "holds (ds_chunk_size d) body k (cache' ! i')"
    using i unfolding holds_def slot_ok_def by blast
  ultimately show ?thesis
    using ok f by (auto simp: cache_get_def Some p dz_ok_def)
next
  case None
  obtain d1 i where a: "cache_alloc d = (d1, i)" by fastforce
  define c1 where "c1 = (ds_cache d1)[i := (ds_cache d1 ! i)\<lparr>cc_num := int k\<rparr>]"
  obtain c2 i2 where p: "cache_promote c1 i = (c2, i2)" by fastforce
  have d1: "i < length (ds_cache d1)" "\<forall>j < length (ds_cache d1). j \<noteq> i \<longrightarrow> slot_ok (ds_chunk_size d) body (ds_cache d1 ! j)"
      "d1 = d\<lparr>ds_cache := ds_cache d1\<rparr>"
    using cache_alloc_ok [OF _ _ a, of "slot_ok (ds_chunk_size d) body"] ok by (auto simp: dz_ok_def)
  have i: "i < length c1" using d1(1) by (simp add: c1_def)
  have c2: "i2 < length c2" "cc_num (c2 ! i2) = int k"
    using cache_promote_set [OF i p] d1(1) by (auto simp: c1_def)
  have c2o: "\<forall>j < length c2. j \<noteq> i2 \<longrightarrow> slot_ok (ds_chunk_size d) body (c2 ! j)"
    using d1(2) by (intro cache_promote_all [OF i p]) (auto simp: c1_def)
  define d2 where "d2 = d\<lparr>ds_cache := c2\<rparr>"
  have d2: "d1\<lparr>ds_cache := c2\<rparr> = d2" by (subst d1(3)) (simp add: d2_def)
  obtain pos where m: "mapped img (ds_transport d2) pos"
    using ok by (auto simp: dz_ok_def d2_def)
  have tab: "dz_table zl img body (ds_chunk_size d2) (ds_chunk d2)" "k * ds_chunk_size d2 < length body"
    using ok k by (auto simp: dz_ok_def d2_def)
  obtain t' z' buf pos' where f: "cache_fill zl d2 k i2 =
      Some (d2\<lparr>ds_transport := t', ds_zstream := Some z', ds_cache := (ds_cache d2)[i2 := (ds_cache d2 ! i2)
        \<lparr>cc_buffer := buf, cc_size := length (chunk_of (ds_chunk_size d2) body k)\<rparr>]\<rparr>, 0)"
      "mapped img t' pos'" "take (length (chunk_of (ds_chunk_size d2) body k)) buf = chunk_of (ds_chunk_size d2) body k"
    using cache_fill_ok [OF m tab] by blast
  have "slot_ok (ds_chunk_size d) body ((c2 ! i2)\<lparr>cc_buffer := buf, cc_size := length (chunk_of (ds_chunk_size d) body k)\<rparr>)"
    using c2(2) f(3) k by (simp add: slot_ok_def d2_def)
  with c2o have "list_all (slot_ok (ds_chunk_size d) body) (c2[i2 := (c2 ! i2)
      \<lparr>cc_buffer := buf, cc_size := length (chunk_of (ds_chunk_size d) body k)\<rparr>])"
    by (intro list_all_update_slot) auto
  then show ?thesis
    using ok f c2(1) by (auto simp: cache_get_def None a p c1_def [symmetric] d2 dz_ok_def d2_def holds_def)
qed

lemma read_dzip_loop_ok:
  assumes "dz_ok zl img body d" "chunk_off < ds_chunk_size d" "k * ds_chunk_size d + chunk_off + sz \<le> length body"
  shows "\<exists>d'. read_dzip_loop zl d sz k chunk_off acc = Some (d', 0, acc @ take sz (drop (k * ds_chunk_size d + chunk_off) body)) \<and>
    dz_ok zl img body d' \<and> ds_offset d' = ds_offset d + sz"
  using assms
proof (induction sz arbitrary: d k chunk_off acc rule: less_induct)
  case (less sz)
  show ?case
  proof (cases "sz = 0")
    case True
    with less.prems show ?thesis by (simp add: read_dzip_loop.simps)
  next
    case False
    let ?cs = "ds_chunk_size d" and ?ch = "chunk_of (ds_chunk_size d) body k"
    have k: "k * ?cs < length body" using False less.prems(3) by simp
    obtain d1 i where g: "cache_get zl d k = Some (d1, 0, i)" "dz_ok zl img body d1" "ds_offset d1 = ds_offset d"
        "ds_chunk_size d1 = ?cs" "holds ?cs body k (ds_cache d1 ! i)"
      using cache_get_ok [OF less.prems(1) k] by blast
    let ?cp = "ds_cache d1 ! i"
    have h: "cc_size ?cp = length ?ch" "take (length ?ch) (cc_buffer ?cp) = ?ch"
      using g(5) by (auto simp: holds_def)
    have cs: "?cs < 2 ^ 16" using less.prems(1) by (simp add: dz_ok_def dz_table_def)
    define n where "n = min sz (length ?ch - chunk_off)"
    have off: "chunk_off < length ?ch"
      using less.prems(2,3) False by (simp add: length_chunk_of)
    have "nat ((int (cc_size ?cp) - int chunk_off) mod 2 ^ 64) = length ?ch - chunk_off"
      using off cs by (subst mod_pos_pos_trivial) (auto simp: h(1) length_chunk_of)
    then have n: "min sz (nat ((int (cc_size ?cp) - int chunk_off) mod 18446744073709551616)) = n"
      by (simp add: n_def)
    have "length ?ch \<le> length (cc_buffer ?cp)"
      using arg_cong [OF h(2), of length] by simp
    then have buf: "chunk_off + n \<le> length (cc_buffer ?cp)"
      using off by (simp add: n_def)
    have slice: "take n (drop chunk_off (cc_buffer ?cp)) = take n (drop (k * ?cs + chunk_off) body)"
    proof -
      have "take n (drop chunk_off (cc_buffer ?cp)) = take n (drop chunk_off ?ch)"
        using off by (subst h(2) [symmetric]) (simp add: n_def drop_take min_def)
      also have "\<dots> = take n (drop (k * ?cs + chunk_off) body)"
        by (simp add: chunk_of_def drop_take n_def min_def add.commute)
      finally show ?thesis .
    qed
    let ?d2 = "d1\<lparr>ds_offset := ds_offset d1 + n\<rparr>"
    have ok2: "dz_ok zl img body ?d2" using g(2) by (simp add: dz_ok_def)
    have step: "read_dzip_loop zl d sz k chunk_off acc =
        read_dzip_loop zl ?d2 (sz - n) (Suc k) 0 (acc @ take n (drop (k * ?cs + chunk_off) body))"
      using False buf by (subst read_dzip_loop.simps) (simp add: g(1) n Let_def slice)
    have pos: "k * ?cs + chunk_off + n = Suc k * ?cs \<or> n = sz"
      using less.prems(2,3) by (auto simp: n_def length_chunk_of min_def)
    have "\<exists>d'. read_dzip_loop zl ?d2 (sz - n) (Suc k) 0 (acc @ take n (drop (k * ?cs + chunk_off) body)) =
        Some (d', 0, acc @ take n (drop (k * ?cs + chunk_off) body) @ take (sz - n) (drop (k * ?cs + chunk_off + n) body)) \<and>
        dz_ok zl img body d' \<and> ds_offset d' = ds_offset ?d2 + (sz - n)"
    proof (cases "n = sz")
      case True
      with ok2 show ?thesis by (simp add: read_dzip_loop.simps)
    next
      case ne: False
      then have p: "Suc k * ?cs = k * ?cs + chunk_off + n" using pos by simp
      have lt: "sz - n < sz" using off False by (simp add: n_def)
      have a: "0 < ds_chunk_size ?d2" using less.prems(2) g(4) by simp
      have "n \<le> sz" by (simp add: n_def)
      then have b: "Suc k * ds_chunk_size ?d2 + 0 + (sz - n) \<le> length body"
        using p less.prems(3) g(4) by simp
      from less.IH [OF lt ok2 a b, of "acc @ take n (drop (k * ?cs + chunk_off) body)"] p g(4) show ?thesis
        by (simp del: mult_Suc)
    qed
    moreover have "n \<le> sz" by (simp add: n_def)
    ultimately show ?thesis
      using step g(3) take_add [of n "sz - n" "drop (k * ?cs + chunk_off) body"] by (auto simp: add.commute)
  qed
qed

definition dzip_at :: "'z zlib \<Rightarrow> bytes \<Rightarrow> bytes \<Rightarrow> 'z dict_stream \<Rightarrow> nat \<Rightarrow> bool" where
  "dzip_at zl img body d p \<longleftrightarrow> dz_ok zl img body d \<and> ds_offset d = p"

lemma dict_read_dzip_ok:
  assumes ok: "dz_ok zl img body d" and n: "0 < n" "ds_offset d + n \<le> length body"
  shows "\<exists>d'. dict_read_dzip zl d n = Some (d', Inr (take n (drop (ds_offset d) body))) \<and>
    dz_ok zl img body d' \<and> ds_offset d' = ds_offset d + n"
proof -
  let ?cs = "ds_chunk_size d"
  have cs: "0 < ?cs" using ok by (simp add: dz_ok_def dz_table_def)
  have e: "ds_offset d div ?cs * ?cs + (ds_offset d - ds_offset d div ?cs * ?cs) = ds_offset d"
    by (simp add: div_times_less_eq_dividend)
  have "ds_offset d - ds_offset d div ?cs * ?cs < ?cs"
    using cs by (simp add: minus_div_mult_eq_mod)
  then show ?thesis
    using read_dzip_loop_ok [OF ok, of "ds_offset d - ds_offset d div ?cs * ?cs" "ds_offset d div ?cs" n "[]"] cs n
    unfolding e by (auto simp: dict_read_dzip_def)
qed

interpretation dzip: dict_source zl body "dzip_at zl img body" for zl body img
proof
  fix d :: "'a dict_stream" and p q
  assume "dzip_at zl img body d p" "q \<le> length body"
  then show "\<exists>d'. dict_seek d (int q) DICO_SEEK_SET = Some (d', Inr (int q)) \<and> dzip_at zl img body d' q"
    by (auto simp: dzip_at_def dz_ok_def dict_seek_def dict_seek_dzip_def)
next
  fix d :: "'a dict_stream" and p n
  assume "dzip_at zl img body d p" "0 < n" "p + n \<le> length body"
  then show "\<exists>d'. dict_read zl d n = Some (d', Inr (take n (drop p body))) \<and> dzip_at zl img body d' (p + n)"
    using dict_read_dzip_ok [of zl img body d n] by (auto simp: dzip_at_def dict_read_def dz_ok_def)
qed

section \<open>A request after an error\<close>

lemma length_takeWhile_less_iff: "length (takeWhile P xs) < length xs \<longleftrightarrow> (\<exists>x \<in> set xs. \<not> P x)"
  by (induction xs) auto

lemma cache_find_None_iff: "cache_find cache k = None \<longleftrightarrow> (\<forall>c \<in> set cache. cc_num c \<noteq> int k)"
  by (simp add: cache_find_def Let_def length_takeWhile_less_iff)

lemma num_update: "cc_num c = cc_num (cs ! i) \<Longrightarrow> j < length cs \<Longrightarrow> cc_num (cs[i := c] ! j) = cc_num (cs ! j)"
  by (cases "i = j") auto

lemma cache_fill_keeps_num:
  assumes "cache_fill zl d k i = Some (d', rc)"
  shows "length (ds_cache d') = length (ds_cache d) \<and> (\<forall>j < length (ds_cache d). cc_num (ds_cache d' ! j) = cc_num (ds_cache d ! j))"
  using assms
  by (auto simp: cache_fill_def Let_def res_iff num_update split: if_splits option.splits prod.splits)

lemma cache_get_registers:
  assumes g: "cache_get zl d k = Some (d', rc, i)" and c: "0 < ds_cache_size d"
  shows "\<exists>c \<in> set (ds_cache d'). cc_num c = int k"
proof (cases "cache_find (ds_cache d) k")
  case (Some j)
  obtain cache' i' where p: "cache_promote (ds_cache d) j = (cache', i')" by fastforce
  note f = cache_find_Some [OF Some]
  with cache_promote_set [OF _ p] have "i' < length cache'" "cc_num (cache' ! i') = int k" by auto
  with g Some p show ?thesis by (auto simp: cache_get_def dest: nth_mem)
next
  case None
  obtain d1 i1 where a: "cache_alloc d = (d1, i1)" by fastforce
  define c1 where "c1 = (ds_cache d1)[i1 := (ds_cache d1 ! i1)\<lparr>cc_num := int k\<rparr>]"
  obtain c2 i2 where p: "cache_promote c1 i1 = (c2, i2)" by fastforce
  have "i1 < length c1"
    using cache_alloc_ok [OF _ c a, of "\<lambda>_. True"] by (simp add: c1_def list_all_length)
  then have c2: "i2 < length c2" "cc_num (c2 ! i2) = int k"
    using cache_promote_set [OF _ p] by (auto simp: c1_def)
  have "cache_fill zl (d1\<lparr>ds_cache := c2\<rparr>) k i2 = Some (d', rc)"
    using g by (auto simp: cache_get_def None a c1_def [symmetric] p)
  from cache_fill_keeps_num [OF this] c2 have "i2 < length (ds_cache d')" "cc_num (ds_cache d' ! i2) = int k" by auto
  then show ?thesis by (meson nth_mem)
qed

text \<open>
  Reading beyond the end of the text: the loop goes on to a chunk that is not in the table.
\<close>

lemma cache_alloc_chunk: "cache_alloc d = (d1, j) \<Longrightarrow> ds_chunk d1 = ds_chunk d"
  by (auto simp: cache_alloc_def Let_def split: if_splits)

lemma cache_get_outside:
  assumes ok: "dz_ok zl img body d" and k: "length body \<le> k * ds_chunk_size d" "length (ds_chunk d) \<le> k"
  shows "cache_get zl d k = None"
proof -
  have "cache_find (ds_cache d) k = None"
    using ok k(1) by (auto simp: cache_find_None_iff dz_ok_def slot_ok_def list_all_iff)
  moreover have "cache_fill zl (d1\<lparr>ds_cache := c\<rparr>) k i = None" if "cache_alloc d = (d1, j)" for d1 c i j
    using cache_alloc_chunk [OF that] k(2) by (simp add: cache_fill_def)
  ultimately show ?thesis
    by (auto simp: cache_get_def Let_def split: prod.splits)
qed

lemma cache_get_table:
  assumes "cache_get zl d k = Some (d', rc, i)"
  shows "ds_chunk d' = ds_chunk d"
  using assms
  by (auto simp: cache_get_def cache_fill_def cache_alloc_def Let_def res_iff split: if_splits option.splits prod.splits)

lemma read_dzip_loop_outside:
  assumes "dz_ok zl img body d" "\<And>j. j < length (ds_chunk d) \<Longrightarrow> j * ds_chunk_size d < length body"
    and "length body - k * ds_chunk_size d - chunk_off < sz" "chunk_off \<le> length (chunk_of (ds_chunk_size d) body k)"
  shows "read_dzip_loop zl d sz k chunk_off acc = None"
  using assms
proof (induction "length (ds_chunk d) - k" arbitrary: d sz k chunk_off acc rule: less_induct)
  case less
  let ?cs = "ds_chunk_size d" and ?ch = "chunk_of (ds_chunk_size d) body k"
  show ?case
  proof (cases "k * ?cs < length body")
    case False
    then have "length (ds_chunk d) \<le> k" using less.prems(2) by (meson not_le)
    with False less.prems(3) cache_get_outside [OF less.prems(1), of k] show ?thesis
      by (subst read_dzip_loop.simps) (simp add: not_less)
  next
    case True
    obtain d1 i where g: "cache_get zl d k = Some (d1, 0, i)" "dz_ok zl img body d1"
        "ds_chunk_size d1 = ?cs" "holds ?cs body k (ds_cache d1 ! i)"
      using cache_get_ok [OF less.prems(1) True] by blast
    let ?cp = "ds_cache d1 ! i"
    have h: "cc_size ?cp = length ?ch" using g(4) by (simp add: holds_def)
    have tab: "k < length (ds_chunk d)" "?cs < 2 ^ 16"
      using less.prems(1) True by (auto simp: dz_ok_def dz_table_def)
    define n where "n = length ?ch - chunk_off"
    have sz: "n < sz" using less.prems(3) by (auto simp: n_def length_chunk_of)
    have "nat ((int (cc_size ?cp) - int chunk_off) mod 2 ^ 64) = n"
      using less.prems(4) tab(2) by (subst mod_pos_pos_trivial) (auto simp: h n_def length_chunk_of)
    then have n: "min sz (nat ((int (cc_size ?cp) - int chunk_off) mod 18446744073709551616)) = n"
      using sz by simp
    have "read_dzip_loop zl (d1\<lparr>ds_offset := ds_offset d1 + n\<rparr>) (sz - n) (Suc k) 0
        (acc @ take n (drop chunk_off (cc_buffer ?cp))) = None"
      using g(2,3) tab(1) less.prems(2-4) sz
      by (intro less.hyps) (auto simp: cache_get_table [OF g(1)] dz_ok_def n_def length_chunk_of)
    with sz g(1) n show ?thesis
      by (subst read_dzip_loop.simps) (simp add: Let_def)
  qed
qed

section \<open>Properties\<close>

text \<open>A small file for the witnesses: the chunks are stored as they are.\<close>

definition stored :: "unit zlib" where
  "stored = \<lparr>zl_init = Some (), zl_inflate = (\<lambda>z bs room. (z, 0, 0, bs))\<rparr>"

definition broken :: "unit zlib" where
  "broken = \<lparr>zl_init = Some (), zl_inflate = (\<lambda>z bs room. (z, -3, 0, []))\<rparr>"

definition map_stream :: "bytes \<Rightarrow> nat \<Rightarrow> mapfile dico_stream" where
  "map_stream img pos =
     \<lparr>s_buftype = dico_buffer_none, s_bufsize = 0, s_buffer = None, s_level = 0, s_cur = 0,
      s_flags = {DICO_STREAM_READ, DICO_STREAM_SEEK}, s_bytes_in = 0, s_bytes_out = 0, s_last_err = 0,
      s_drv = no_driver\<lparr>d_read := Some mapfile_read, d_seek := Some mapfile_seek, d_size := Some mapfile_size\<rparr>,
      s_data = \<lparr>mf_filename = [], mf_fd = 3, mf_start = Some img, mf_size = length img, mf_offset = int pos\<rparr>\<rparr>"

definition two_chunks :: "unit dict_stream" where
  "two_chunks = (zero_dict 10 (map_stream (str ''xxabc'') 0))
     \<lparr>ds_type := DICTORG_DZIP, ds_chunk_size := 2, ds_size := 3,
      ds_chunk := [\<lparr>ch_length = 2, ch_offset = 2\<rparr>, \<lparr>ch_length = 1, ch_offset = 4\<rparr>]\<rparr>"

lemma mapped_map_stream: "pos \<le> length img \<Longrightarrow> mapped img (map_stream img pos) pos"
  by (simp add: mapped_def map_stream_def no_driver_def)

lemma two_chunks_ok: "dz_ok stored (str ''xxabc'') (str ''abc'') two_chunks"
proof -
  have k: "k = 0 \<or> k = Suc 0" if "k * 2 < Suc (Suc (Suc 0))" for k using that by auto
  have "mapped (str ''xxabc'') (ds_transport two_chunks) 0"
    unfolding two_chunks_def zero_dict_def by (simp add: mapped_map_stream)
  then show ?thesis
    by (auto simp: dz_ok_def dz_table_def two_chunks_def zero_dict_def stored_def inflates_def compressed_def chunk_of_def dest!: k)
qed

text \<open>
  C14: On a \<^verbatim>\<open>dictzip\<close> stream whose table describes the file, a read gives the bytes of the
  uncompressed text at the position of the stream, whatever chunks are in the cache, and keeps the
  cache consistent, so that the next read does so too.
\<close>

theorem dict_read_dzip_slice:
  assumes "dz_ok zl img body d" "0 < n" "ds_offset d + n \<le> length body"
  shows "\<exists>d'. dict_read_dzip zl d n = Some (d', Inr (take n (drop (ds_offset d) body))) \<and>
    dz_ok zl img body d' \<and> ds_offset d' = ds_offset d + n"
  by (rule dict_read_dzip_ok [OF assms])

theorem dict_read_dzip_slice_witness:
  "\<exists>d'. dict_read_dzip stored two_chunks 3 = Some (d', Inr (str ''abc'')) \<and> ds_offset d' = 3"
  using dict_read_dzip_slice [OF two_chunks_ok, of 3] by (auto simp: two_chunks_def zero_dict_def)

text \<open>
  A request for a chunk that fails leaves its slot in the cache, marked with the number
  of the chunk; the next request for the chunk finds it there and succeeds.
\<close>

theorem cache_get_error_forgotten:
  assumes "cache_get zl d k = Some (d', rc, i)" "rc \<noteq> 0" "0 < ds_cache_size d"
  shows "\<exists>d'' j. cache_get zl d' k = Some (d'', 0, j)"
proof -
  obtain j where j: "cache_find (ds_cache d') k = Some j"
    using cache_get_registers [OF assms(1,3)] cache_find_None_iff [of "ds_cache d'" k] by auto
  obtain cache' i' where "cache_promote (ds_cache d') j = (cache', i')" by fastforce
  with j show ?thesis by (simp add: cache_get_def)
qed

theorem cache_get_error_forgotten_witness:
  "\<exists>d' i d'' j. cache_get broken two_chunks 0 = Some (d', DE_INFLATE, i) \<and> cache_get broken d' 0 = Some (d'', 0, j)"
proof -
  have m: "mapped (str ''xxabc'') (map_stream (str ''xxabc'') 0) 0"
    by (simp add: mapped_map_stream)
  obtain t1 t2 where t: "dico_stream_seek (map_stream (str ''xxabc'') 0) 2 DICO_SEEK_SET = Some (t1, 2)"
      "dico_stream_read t1 2 True = Some (t2, 0, str ''ab'')"
    using compressed_read [OF m, of "\<lparr>ch_length = 2, ch_offset = 2\<rparr>"] by (auto simp: compressed_def)
  have "\<exists>d'. cache_get broken two_chunks 0 = Some (d', DE_INFLATE, 0)"
    using t by (simp add: cache_get_def cache_find_def cache_alloc_def cache_promote_def cache_fill_def inflate_init_def
        broken_def two_chunks_def zero_dict_def Let_def)
  then obtain d' where d': "cache_get broken two_chunks 0 = Some (d', DE_INFLATE, 0)" by blast
  with cache_get_error_forgotten [OF d'] show ?thesis
    by (auto simp: de_defs two_chunks_def zero_dict_def)
qed

text \<open>
  C15: A read that asks for more than the rest of the text is undefined: after the last chunk
  the loop takes the length and the offset of a chunk that is not in the table.
\<close>

theorem dict_read_dzip_past_end:
  assumes ok: "dz_ok zl img body d" and tab: "\<And>j. j < length (ds_chunk d) \<Longrightarrow> j * ds_chunk_size d < length body"
    and off: "ds_offset d \<le> length body" "length body < ds_offset d + n"
  shows "dict_read_dzip zl d n = None"
proof -
  let ?k = "ds_offset d div ds_chunk_size d"
  let ?o = "ds_offset d - ?k * ds_chunk_size d"
  have le: "?k * ds_chunk_size d \<le> ds_offset d" by (simp add: div_times_less_eq_dividend)
  have "?o \<le> ds_chunk_size d"
    using ok by (simp add: minus_div_mult_eq_mod dz_ok_def dz_table_def less_imp_le)
  then have "read_dzip_loop zl d n ?k ?o [] = None"
    using off le by (intro read_dzip_loop_outside [OF ok tab]) (auto simp: length_chunk_of)
  then show ?thesis by (simp add: dict_read_dzip_def Let_def)
qed

theorem dict_read_dzip_past_end_witness: "dict_read_dzip stored two_chunks 4 = None"
  by (rule dict_read_dzip_past_end [OF two_chunks_ok]) (auto simp: two_chunks_def zero_dict_def less_Suc_eq)

end
