(* ===== verification/Dico_Dictorg_Props.thy ===== *)
theory Dico_Dictorg_Props
  imports Dico_Dictorg Dico_Dictstr_Props Dico_Utf8_Props "HOL-Library.List_Lexorder"
begin

text \<open>
  Properties of the module \<^verbatim>\<open>dictorg\<close>: what a search in a sorted index finds and what it misses,
  how the lines of the index are read, and what the reply to a definition contains.
\<close>

section \<open>The order of the index\<close>

text \<open>
  A word is valid when it encodes a wide string; its key is that string in upper case. Keys are
  compared in lexicographic order.
\<close>

definition encodes :: "wstring \<Rightarrow> bytes \<Rightarrow> bool" where
  "encodes ws s \<longleftrightarrow> wide_ok ws \<and> mbstr_loop ws = Some (Inr s)"

definition wide_of :: "bytes \<Rightarrow> wstring" where
  "wide_of s = (case mbstr_to_wc_loop s of Inl _ \<Rightarrow> [] | Inr ws \<Rightarrow> ws)"

definition fold_word :: "bytes \<Rightarrow> wstring" where
  "fold_word s = utf8_wc_strupper (wide_of s)"

definition fold_key :: "index_entry \<Rightarrow> wstring" where
  "fold_key e = fold_word (ie_word e)"

definition entry_ok :: "index_entry \<Rightarrow> bool" where
  "entry_ok e \<longleftrightarrow> encodes (wide_of (ie_word e)) (ie_word e) \<and> ie_length e = length (ie_word e) \<and>
     ie_wordlen e = length (wide_of (ie_word e))"

lemma encodes_wide_of: "encodes ws s \<Longrightarrow> wide_of s = ws"
  using decode_encode_string [OF wide_ok_wc_ok] by (auto simp: encodes_def wide_of_def)

lemma strcasecmp_key: "utf8_wc_strcasecmp a b = key_cmp utf8_wc_strupper a b"
proof (induction a b rule: utf8_wc_strcasecmp.induct)
  case (1 bs)
  then show ?case by (cases bs) (auto simp: key_cmp_def utf8_wc_strupper_def)
qed (auto simp: key_cmp_def utf8_wc_strupper_def Let_def wc_casecmp1_def wcmp_def)

lemma strcasecmp_words:
  assumes "encodes wa a" "encodes wb b"
  shows "utf8_strcasecmp a b = Some (key_cmp fold_word a b)"
  using assms utf8_strcasecmp_encoded [of wa wb a b] encodes_wide_of [OF assms(1)] encodes_wide_of [OF assms(2)]
  by (simp add: encodes_def strcasecmp_key key_cmp_def fold_word_def)

interpretation index_order: keyed_order compare_entry fold_key entry_ok
  by unfold_locales
    (auto simp: entry_ok_def compare_entry_def strcasecmp_words key_cmp_def fold_key_def)

text \<open>The entry that is searched for.\<close>

lemma search_entry_ok:
  assumes "encodes ws w"
  shows "\<exists>x. search_entry w = Some x \<and> entry_ok x \<and> ie_word x = w \<and> ie_wordlen x = length ws"
  using assms utf8_strlen_encoded [of ws w] encodes_wide_of [OF assms]
  by (auto simp: search_entry_def entry_ok_def encodes_def)

lemma append_entries_all: "append_entries False l ps n = Some (l @ ps, n)"
  by (induction ps arbitrary: l) auto

text \<open>Leaving out entries equal to the last one: what remains, by its keys.\<close>

lemma append_entries_unique:
  "list_all entry_ok (l @ ps) \<Longrightarrow>
   \<exists>ks k. append_entries True l ps n = Some (l @ ks, k) \<and> set ks \<subseteq> set ps \<and>
     (l \<noteq> [] \<longrightarrow> fold_key (last l) # map fold_key ks = remdups_adj (fold_key (last l) # map fold_key ps)) \<and>
     (l = [] \<longrightarrow> map fold_key ks = remdups_adj (map fold_key ps))"
proof (induction ps arbitrary: l n)
  case (Cons p ps)
  show ?case
  proof (cases "l = []")
    case True
    with Cons.IH [of "[p]" n] Cons.prems show ?thesis by (fastforce simp: subset_iff)
  next
    case False
    then have ok: "entry_ok (last l)" "entry_ok p" using Cons.prems by (auto simp: list_all_iff)
    show ?thesis
    proof (cases "fold_key (last l) = fold_key p")
      case True
      with False ok Cons.IH [of l "Suc n"] Cons.prems show ?thesis
        by (fastforce simp: index_order.cmp_key key_cmp_def subset_iff)
    next
      case ne: False
      with False ok Cons.IH [of "l @ [p]" "Suc n"] Cons.prems show ?thesis
        by (fastforce simp: index_order.cmp_key key_cmp_def subset_iff)
    qed
  qed
qed auto

section \<open>Exact search\<close>

text \<open>A database whose index has valid words in order.\<close>

definition index_ok :: "'z dictdb \<Rightarrow> bool" where
  "index_ok db \<longleftrightarrow> list_all entry_ok (dd_index db) \<and> sorted (map fold_key (dd_index db))"

definition matching :: "'z dictdb \<Rightarrow> bytes \<Rightarrow> index_entry list \<Rightarrow> index_entry list" where
  "matching db w es = filter (\<lambda>e. fold_key e = fold_word w \<and> \<not> RESERVED_WORD db (ie_word e)) es"

lemma in_set_tl: "x \<in> set (tl xs) \<Longrightarrow> x \<in> set xs"
  by (cases xs) auto

lemma common_match_exact:
  assumes ok: "index_ok db" and w: "encodes ws w"
  shows "((\<forall>e \<in> set (dd_index db). fold_key e \<noteq> fold_word w) \<and> common_match db w compare_entry unique = Some None) \<or>
    (\<exists>tail k l. (\<exists>e \<in> set (dd_index db). fold_key e = fold_word w) \<and> tail \<in> {dd_index db, tl (dd_index db)} \<and>
       append_entries unique [] (matching db w tail) k = Some l \<and>
       common_match db w compare_entry unique = Some (Some \<lparr>dr_type = result_match, dr_compare_count = snd l, dr_list = fst l\<rparr>))"
proof -
  obtain x where x: "search_entry w = Some x" "entry_ok x" "ie_word x = w" using search_entry_ok [OF w] by blast
  have key: "fold_key x = fold_word w" using x(3) by (simp add: fold_key_def)
  have all: "entry_ok e" if "e \<in> set (dd_index db)" for e using ok that by (simp add: index_ok_def list_all_iff)
  have r: "match_range (compare_entry x) (dd_index db) = match_range (\<lambda>e. Some (key_cmp fold_key x e)) (dd_index db)"
    by (intro match_range_cong index_order.cmp_key x(2) all)
  have srt: "sorted (map fold_key (dd_index db))" using ok by (simp add: index_ok_def)
  from match_range_sorted [OF srt, of x] show ?thesis
  proof (elim exE disjE conjE)
    fix n lo hi
    assume m: "match_range (\<lambda>e. Some (key_cmp fold_key x e)) (dd_index db) = Some (Some (lo, hi), n)"
      "\<exists>e \<in> set (dd_index db). fold_key e = fold_key x"
      "map ((!) (dd_index db)) [lo..<hi] = filter (\<lambda>e. fold_key e = fold_key x) (if lo = 0 then dd_index db else tl (dd_index db))"
    define tail where "tail = (if lo = 0 then dd_index db else tl (dd_index db))"
    have f: "filter (\<lambda>p. \<not> RESERVED_WORD db (ie_word p)) (map ((!) (dd_index db)) [lo..<hi]) = matching db w tail"
      using m(3) key by (simp add: matching_def tail_def conj_commute)
    have "list_all entry_ok (matching db w tail)"
      using all by (auto simp: list_all_iff matching_def tail_def dest: in_set_tl split: if_splits)
    then obtain l where l: "append_entries unique [] (matching db w tail) n = Some l"
      using append_entries_unique [of "[]" "matching db w tail" n] append_entries_all [of "[]" "matching db w tail" n]
      by (cases unique) auto
    have "common_match db w compare_entry unique = Some (Some \<lparr>dr_type = result_match, dr_compare_count = snd l, dr_list = fst l\<rparr>)"
      using l by (cases l) (simp add: common_match_def x(1) r m(1) f)
    moreover have "tail \<in> {dd_index db, tl (dd_index db)}" by (simp add: tail_def)
    moreover have "\<exists>e \<in> set (dd_index db). fold_key e = fold_word w" using m(2) key by simp
    ultimately show ?thesis using l by blast
  qed (auto simp: common_match_def x(1) r key)
qed

lemma append_entries_same:
  "l \<noteq> [] \<Longrightarrow> entry_ok (last l) \<Longrightarrow> list_all entry_ok ps \<Longrightarrow> \<forall>p \<in> set ps. fold_key p = fold_key (last l) \<Longrightarrow>
   append_entries True l ps n = Some (l, n + length ps)"
  by (induction ps arbitrary: n) (auto simp: index_order.cmp_key key_cmp_def)

lemma append_matching:
  assumes "list_all entry_ok es"
  shows "\<exists>k. append_entries True [] (matching db w es) n = Some (take 1 (matching db w es), k)"
proof (cases "matching db w es")
  case (Cons p ps)
  have k: "fold_key e = fold_word w \<and> entry_ok e" if "e \<in> set (p # ps)" for e
    using that Cons assms by (metis (mono_tags, lifting) filter_is_subset list_all_iff matching_def mem_Collect_eq set_filter subset_iff)
  then have "append_entries True [p] ps n = Some ([p], n + length ps)"
    by (intro append_entries_same) (auto simp: list_all_iff)
  with Cons show ?thesis by simp
qed simp

lemma matching_tl: "es = [] \<or> fold_key (hd es) \<noteq> fold_word w \<Longrightarrow> matching db w (tl es) = matching db w es"
  by (cases es) (auto simp: matching_def)

lemma define_exact:
  assumes ok: "index_ok db" and w: "encodes ws w" "\<not> RESERVED_WORD db w"
    and first: "dd_index db = [] \<or> fold_key (hd (dd_index db)) \<noteq> fold_word w"
  shows "\<exists>r. mod_define db w = Some r \<and> (r = None \<longleftrightarrow> (\<forall>e \<in> set (dd_index db). fold_key e \<noteq> fold_word w)) \<and>
      (\<forall>res. r = Some res \<longrightarrow> dr_type res = result_define \<and> dr_list res = matching db w (dd_index db))"
proof -
  have "matching db w (tl (dd_index db)) = matching db w (dd_index db)" by (rule matching_tl [OF first])
  with common_match_exact [OF ok w(1), of False] w(2) show ?thesis
    by (auto simp: mod_define_def append_entries_all)
qed

text \<open>A small database for the witnesses, with the text \<open>abc\<close> in two chunks.\<close>

definition letter :: "byte \<Rightarrow> int \<Rightarrow> nat \<Rightarrow> index_entry" where
  "letter c off sz = \<lparr>ie_word = [c], ie_length = 1, ie_wordlen = 1, ie_offset = off, ie_size = sz\<rparr>"

definition letters :: "unit dictdb" where
  "letters = \<lparr>dd_dbname = [], dd_basename = str ''x'', dd_index = [letter 0x41 0 1, letter 0x42 1 1, letter 0x62 2 1],
     dd_suf_index = None, dd_show_dictorg_entries = True,
     dd_stream = Some \<lparr>s_buftype = dico_buffer_none, s_bufsize = 0, s_buffer = None, s_level = 0, s_cur = 0,
       s_flags = {DICO_STREAM_READ, DICO_STREAM_SEEK}, s_bytes_in = 0, s_bytes_out = 0, s_last_err = 0,
       s_drv = no_driver\<lparr>d_read := Some (dict_read stored), d_seek := Some dict_seek\<rparr>, s_data = two_chunks\<rparr>\<rparr>"

lemma encodes_letter: "c = 0x41 \<or> c = 0x42 \<or> c = 0x62 \<Longrightarrow> encodes [ucast c] [c]"
  by (auto simp: encodes_def wide_ok_def wctomb_1)

lemma upper_letters: "utf8_wc_toupper 0x41 = 0x41" "utf8_wc_toupper 0x42 = 0x42" "utf8_wc_toupper 0x62 = 0x42"
  by code_simp+

lemma fold_letters: "fold_word [0x41] = [0x41]" "fold_word [0x42] = [0x42]" "fold_word [0x62] = [0x42]"
  using encodes_wide_of [OF encodes_letter [of "0x41"]] encodes_wide_of [OF encodes_letter [of "0x42"]]
    encodes_wide_of [OF encodes_letter [of "0x62"]]
  by (simp_all add: fold_word_def utf8_wc_strupper_def upper_letters)

lemma letter_ok: "c = 0x41 \<or> c = 0x42 \<or> c = 0x62 \<Longrightarrow> entry_ok (letter c off sz)"
  using encodes_letter [of c] encodes_wide_of [OF encodes_letter [of c]] by (simp add: entry_ok_def letter_def)

lemma letters_ok: "index_ok letters" "\<not> RESERVED_WORD letters w" "encodes [0x62] [0x62]"
  "dd_index letters = [letter 0x41 0 1, letter 0x42 1 1, letter 0x62 2 1]" "fold_key (letter 0x41 x y) = [0x41]"
  "fold_key (letter 0x42 x y) = [0x42]" "fold_key (letter 0x62 x y) = [0x42]" "ie_wordlen (letter c x y) = 1"
  using letter_ok encodes_letter [of "0x62"]
  by (simp_all add: letters_def index_ok_def RESERVED_WORD_def fold_key_def letter_def fold_letters)

lemma letters_define:
  "\<exists>res. mod_define letters [0x62] = Some (Some res) \<and> dr_list res = [letter 0x42 1 1, letter 0x62 2 1]"
  using define_exact [OF letters_ok(1,3,2)] by (auto simp: letters_ok matching_def fold_letters)

text \<open>
  C4: In an index of valid words in order whose first entry does not match, \<^verbatim>\<open>mod_define\<close> finds
  exactly the entries that are equal to the word up to case, in order and without the reserved
  ones, and NULL when there are none; a match with the strategy \<^verbatim>\<open>exact\<close> gives the first of them.
\<close>

theorem dictorg_exact_search:
  assumes ok: "index_ok db" and w: "encodes ws w" "\<not> RESERVED_WORD db w"
    and first: "dd_index db = [] \<or> fold_key (hd (dd_index db)) \<noteq> fold_word w"
  shows "(\<exists>r. mod_define db w = Some r \<and> (r = None \<longleftrightarrow> (\<forall>e \<in> set (dd_index db). fold_key e \<noteq> fold_word w)) \<and>
      (\<forall>res. r = Some res \<longrightarrow> dr_type res = result_define \<and> dr_list res = matching db w (dd_index db))) \<and>
    (\<exists>r. exact_match db w = Some r \<and> (r = None \<longleftrightarrow> (\<forall>e \<in> set (dd_index db). fold_key e \<noteq> fold_word w)) \<and>
      (\<forall>res. r = Some res \<longrightarrow> dr_type res = result_match \<and> dr_list res = take 1 (matching db w (dd_index db))))"
proof -
  have tl: "matching db w (tl (dd_index db)) = matching db w (dd_index db)" by (rule matching_tl [OF first])
  have all: "list_all entry_ok (dd_index db)" using ok by (simp add: index_ok_def)
  have "\<exists>r. exact_match db w = Some r \<and> (r = None \<longleftrightarrow> (\<forall>e \<in> set (dd_index db). fold_key e \<noteq> fold_word w)) \<and>
      (\<forall>res. r = Some res \<longrightarrow> dr_type res = result_match \<and> dr_list res = take 1 (matching db w (dd_index db)))"
  proof (cases "common_match db w compare_entry True = Some None")
    case True
    with common_match_exact [OF ok w(1), of True] show ?thesis by (auto simp: exact_match_def)
  next
    case False
    then obtain k l where l: "\<exists>e \<in> set (dd_index db). fold_key e = fold_word w"
        "append_entries True [] (matching db w (dd_index db)) k = Some l"
        "common_match db w compare_entry True = Some (Some \<lparr>dr_type = result_match, dr_compare_count = snd l, dr_list = fst l\<rparr>)"
      using common_match_exact [OF ok w(1), of True] tl by auto
    with append_matching [OF all, of db w k] show ?thesis by (auto simp: exact_match_def)
  qed
  with define_exact [OF assms] show ?thesis by blast
qed

theorem dictorg_exact_search_witness:
  "\<exists>res res'. mod_define letters [0x62] = Some (Some res) \<and> dr_list res = [letter 0x42 1 1, letter 0x62 2 1] \<and>
    exact_match letters [0x62] = Some (Some res') \<and> dr_list res' = [letter 0x42 1 1]"
  using dictorg_exact_search [OF letters_ok(1,3,2)] by (auto simp: letters_ok matching_def fold_letters)

text \<open>
  The first entry of the index is lost when the search hits another entry with the same word:
  of two equal entries at the beginning of an index of three, only the second is found.
\<close>

theorem dictorg_first_entry_lost:
  assumes ok: "index_ok db" "dd_index db = [e0, e1, e2]" and w: "encodes ws w" "\<not> RESERVED_WORD db w"
    and m: "fold_key e0 = fold_word w" "fold_key e1 = fold_word w" "fold_key e2 \<noteq> fold_word w" "\<not> RESERVED_WORD db (ie_word e1)"
  shows "\<exists>res. mod_define db w = Some (Some res) \<and> dr_list res = [e1]"
proof -
  obtain x where x: "search_entry w = Some x" "entry_ok x" "ie_word x = w" using search_entry_ok [OF w(1)] by blast
  have key: "fold_key x = fold_word w" using x(3) by (simp add: fold_key_def)
  have c: "compare_entry x e1 = Some 0" "\<exists>r. compare_entry x e2 = Some r \<and> r \<noteq> 0"
    using ok x(2) m key by (auto simp: index_ok_def index_order.cmp_key key_cmp_def)
  have "c_bsearch (compare_entry x) [e0, e1, e2] = Some (Some 1, 1)"
    unfolding c_bsearch_def using c(1) by (subst bsearch_loop.simps) simp
  moreover have "scan_forward (compare_entry x) [e0, e1, e2] 2 1 = Some (2, 2)"
    using c(2) by (subst scan_forward.simps) auto
  ultimately have "match_range (compare_entry x) [e0, e1, e2] = Some (Some (1, 2), 2)"
    by (simp add: match_range_def numeral_2_eq_2)
  moreover have "[1..<2] = [1 :: nat]" by (simp add: upt_conv_Cons)
  ultimately show ?thesis
    using x(1) ok(2) w(2) m(4) by (simp add: mod_define_def common_match_def append_entries_all)
qed

section \<open>Search for a prefix\<close>

lemma strncasecmp_encoded:
  "wide_ok wa \<Longrightarrow> wide_ok wb \<Longrightarrow> mbstr_loop wa = Some (Inr a) \<Longrightarrow> mbstr_loop wb = Some (Inr b) \<Longrightarrow>
   utf8_strncasecmp a b n = Some (utf8_wc_strcasecmp (take n wa) (take n wb))"
proof (induction n arbitrary: wa wb a b)
  case (Suc n)
  show ?case
  proof (cases "wa = [] \<or> wb = []")
    case True
    moreover have "a = [] \<longleftrightarrow> wa = []" using Suc.prems mbstr_loop_Cons [of "hd wa" "tl wa" a] by (cases wa) auto
    moreover have "b = [] \<longleftrightarrow> wb = []" using Suc.prems mbstr_loop_Cons [of "hd wb" "tl wb" b] by (cases wb) auto
    ultimately show ?thesis by (cases wa; cases wb) auto
  next
    case False
    then obtain w ws v vs where e: "wa = w # ws" "wb = v # vs" by (meson neq_Nil_conv)
    obtain r t where r: "mbstr_loop ws = Some (Inr t)" "a = r @ t" "0 < length r"
        "utf8_char_width a = length r" "decoded a (length r) = Some w" "wide_ok ws"
      using mbstr_loop_Cons [of w ws a] Suc.prems e by blast
    obtain q u where q: "mbstr_loop vs = Some (Inr u)" "b = q @ u" "0 < length q"
        "utf8_char_width b = length q" "decoded b (length q) = Some v" "wide_ok vs"
      using mbstr_loop_Cons [of v vs b] Suc.prems e by blast
    have ne: "a \<noteq> []" "b \<noteq> []" using r(2,3) q(2,3) by auto
    have st: "casecmp_step a b = Some (if wc_casecmp1 w v \<noteq> 0 then Inl (wc_casecmp1 w v) else Inr (length r, length q))"
      using r q by (auto simp: casecmp_step_def Let_def wc_casecmp1_def wcmp_def)
    have "utf8_strncasecmp t u n = Some (utf8_wc_strcasecmp (take n ws) (take n vs))"
      by (rule Suc.IH [OF r(6) q(6) r(1) q(1)])
    moreover have "drop (length r) a = t" "drop (length q) b = u" "length r \<le> length a" "length q \<le> length b"
      using r(2) q(2) by simp_all
    ultimately show ?thesis using ne st by (simp add: e Let_def)
  qed
qed simp

lemma take_mono_lex: "a \<le> b \<Longrightarrow> take n a \<le> take n (b :: wchar list)"
proof (induction n arbitrary: a b)
  case (Suc n)
  then show ?case by (cases a; cases b) auto
qed simp

definition prefix_key :: "nat \<Rightarrow> index_entry \<Rightarrow> wstring" where
  "prefix_key n e = take n (fold_key e)"

lemma compare_prefix_key:
  assumes "entry_ok x" "entry_ok e" "ie_wordlen x \<le> ie_wordlen e" "ie_wordlen x = n"
  shows "compare_prefix x e = Some (key_cmp (prefix_key n) x e)"
  using assms strncasecmp_encoded [of "wide_of (ie_word x)" "wide_of (ie_word e)" "ie_word x" "ie_word e" n]
  by (simp add: compare_prefix_def entry_ok_def encodes_def strcasecmp_key key_cmp_def prefix_key_def fold_key_def fold_word_def
      utf8_wc_strupper_def take_map)

text \<open>The entries that begin with the word up to case, without the reserved ones.\<close>

definition beginning :: "'z dictdb \<Rightarrow> bytes \<Rightarrow> index_entry list" where
  "beginning db w = filter (\<lambda>e. prefix_key (length (wide_of w)) e = fold_word w \<and> \<not> RESERVED_WORD db (ie_word e)) (dd_index db)"

text \<open>
  C7: In an index of valid words in order, none of them shorter than the word and the first not
  beginning with it, the strategy \<^verbatim>\<open>prefix\<close> finds the words that begin with the given one up to case, each
  once, in order; and NULL only when there are none.
\<close>

theorem dictorg_prefix_search:
  assumes ok: "index_ok db" and w: "encodes ws w" and len: "\<forall>e \<in> set (dd_index db). length ws \<le> ie_wordlen e"
    and first: "dd_index db = [] \<or> prefix_key (length ws) (hd (dd_index db)) \<noteq> fold_word w"
  shows "\<exists>r. prefix_match db w = Some r \<and> (r = None \<longleftrightarrow> (\<forall>e \<in> set (dd_index db). prefix_key (length ws) e \<noteq> fold_word w)) \<and>
    (\<forall>res. r = Some res \<longrightarrow> set (dr_list res) \<subseteq> set (beginning db w) \<and>
       map fold_key (dr_list res) = remdups_adj (map fold_key (beginning db w)))"
proof -
  let ?k = "prefix_key (length ws)"
  obtain x where x: "search_entry w = Some x" "entry_ok x" "ie_word x = w" "ie_wordlen x = length ws"
    using search_entry_ok [OF w] by blast
  have ww: "wide_of w = ws" by (rule encodes_wide_of [OF w])
  have key: "?k x = fold_word w" using x(3) ww by (simp add: prefix_key_def fold_key_def fold_word_def utf8_wc_strupper_def)
  have all: "entry_ok e" if "e \<in> set (dd_index db)" for e using ok that by (simp add: index_ok_def list_all_iff)
  have r: "match_range (compare_prefix x) (dd_index db) = match_range (\<lambda>e. Some (key_cmp ?k x e)) (dd_index db)"
    using len x(4) by (intro match_range_cong compare_prefix_key x(2) all) auto
  have srt: "sorted (map ?k (dd_index db))"
    using ok by (auto simp: index_ok_def sorted_map prefix_key_def elim!: sorted_wrt_mono_rel [rotated] intro: take_mono_lex)
  have tl: "filter (\<lambda>e. ?k e = ?k x) (tl (dd_index db)) = filter (\<lambda>e. ?k e = ?k x) (dd_index db)"
    using first key by (cases "dd_index db") auto
  from match_range_sorted [OF srt, of x] show ?thesis
  proof (elim exE disjE conjE)
    fix n lo hi
    assume m: "match_range (\<lambda>e. Some (key_cmp ?k x e)) (dd_index db) = Some (Some (lo, hi), n)"
      "\<exists>e \<in> set (dd_index db). ?k e = ?k x"
      "map ((!) (dd_index db)) [lo..<hi] = filter (\<lambda>e. ?k e = ?k x) (if lo = 0 then dd_index db else tl (dd_index db))"
    have "map ((!) (dd_index db)) [lo..<hi] = filter (\<lambda>e. ?k e = fold_word w) (dd_index db)"
      using m(3) tl key by (cases "lo = 0") auto
    then have f: "filter (\<lambda>p. \<not> RESERVED_WORD db (ie_word p)) (map ((!) (dd_index db)) [lo..<hi]) = beginning db w"
      using ww by (simp add: beginning_def conj_commute)
    have "list_all entry_ok (beginning db w)"
      using all by (auto simp: list_all_iff beginning_def)
    then obtain ks k where a: "append_entries True [] (beginning db w) n = Some (ks, k)" "set ks \<subseteq> set (beginning db w)"
        "map fold_key ks = remdups_adj (map fold_key (beginning db w))"
      using append_entries_unique [of "[]" "beginning db w" n] by auto
    then have "prefix_match db w = Some (Some \<lparr>dr_type = result_match, dr_compare_count = k, dr_list = ks\<rparr>)"
      by (simp add: prefix_match_def common_match_def x(1) r m(1) f)
    with a m(2) key show ?thesis by auto
  qed (auto simp: prefix_match_def common_match_def x(1) r key)
qed

theorem dictorg_prefix_search_witness:
  "\<exists>res. prefix_match letters [0x62] = Some (Some res) \<and> map fold_key (dr_list res) = [[0x42]]"
  using dictorg_prefix_search [OF letters_ok(1,3)]
  by (auto simp: letters_ok prefix_key_def beginning_def fold_letters encodes_wide_of [OF letters_ok(3)])

text \<open>
  A word that is shorter than the prefix counts as greater, so that the search goes to its
  left: in an index of three words the last one is not found when the other two are shorter than
  the prefix.
\<close>

theorem dictorg_prefix_misses:
  assumes "dd_index db = [e0, e1, e2]" "encodes ws w" "ie_wordlen e0 < length ws" "ie_wordlen e1 < length ws"
  shows "prefix_match db w = Some None"
proof -
  obtain x where x: "search_entry w = Some x" "ie_wordlen x = length ws"
    using search_entry_ok [OF assms(2)] by blast
  have c: "compare_prefix x e0 = Some (-1)" "compare_prefix x e1 = Some (-1)"
    using assms(3,4) x(2) by (simp_all add: compare_prefix_def)
  have "bsearch_loop (compare_prefix x) [e0, e1, e2] 0 1 1 = Some (None, 2)"
    using c(1) by (subst bsearch_loop.simps) (simp add: bsearch_loop.simps [of _ _ 0 0])
  then have "c_bsearch (compare_prefix x) [e0, e1, e2] = Some (None, 2)"
    unfolding c_bsearch_def using c(2) by (subst bsearch_loop.simps) simp
  with x(1) assms(1) show ?thesis
    by (simp add: prefix_match_def common_match_def match_range_def)
qed

section \<open>Articles\<close>

definition article :: "bytes \<Rightarrow> index_entry \<Rightarrow> bytes" where
  "article body e = take (ie_size e) (drop (nat (ie_offset e)) body)"

definition in_text :: "bytes \<Rightarrow> index_entry \<Rightarrow> bool" where
  "in_text body e \<longleftrightarrow> 0 \<le> ie_offset e \<and> nat (ie_offset e) + ie_size e \<le> length body"

context dict_source
begin

lemma printdef_loop_ok:
  assumes "source_at zl at s p" "p + sz \<le> length body"
  shows "\<exists>s' out. printdef_loop s sz = Some (s', out) \<and> concat out = take sz (drop p body) \<and>
    list_all (\<lambda>b. length b \<le> 128) out \<and> source_at zl at s' (p + sz)"
  using assms
proof (induction sz arbitrary: s p rule: less_induct)
  case (less sz)
  show ?case
  proof (cases "sz = 0")
    case True
    with less.prems show ?thesis by (simp add: printdef_loop.simps)
  next
    case False
    let ?n = "min sz 128"
    have n: "p + ?n \<le> length body" "p + ?n + (sz - ?n) \<le> length body"
      using less.prems(2) by (auto simp: min_def)
    obtain s1 where s1: "dico_stream_read s ?n False = Some (s1, 0, take ?n (drop p body))" "source_at zl at s1 (p + ?n)"
      using stream_read [OF less.prems(1), of ?n] n False by auto
    obtain s2 out where s2: "printdef_loop s1 (sz - ?n) = Some (s2, out)" "concat out = take (sz - ?n) (drop (p + ?n) body)"
        "list_all (\<lambda>b. length b \<le> 128) out" "source_at zl at s2 (p + ?n + (sz - ?n))"
      using less.IH [OF _ s1(2), of "sz - ?n"] n False by auto
    have "take sz (drop p body) = take ?n (drop p body) @ take (sz - ?n) (drop (p + ?n) body)"
      using take_add [of ?n "sz - ?n" "drop p body"] by (simp add: add.commute)
    with False s1(1) s2 show ?thesis
      by (subst printdef_loop.simps) (auto simp: Let_def)
  qed
qed

lemma printdef_ok:
  assumes s: "dd_stream db = Some s" "source_at zl at s p" and e: "in_text body e"
  shows "\<exists>s' q out. printdef db e = Some (db\<lparr>dd_stream := Some s'\<rparr>, out) \<and> concat out = article body e \<and> source_at zl at s' q"
proof -
  have off: "int (nat (ie_offset e)) = ie_offset e" using e by (simp add: in_text_def)
  obtain s1 where s1: "dico_stream_seek s (ie_offset e) DICO_SEEK_SET = Some (s1, ie_offset e)" "source_at zl at s1 (nat (ie_offset e))"
    using stream_seek [OF s(2), of "nat (ie_offset e)"] e off by (auto simp: in_text_def)
  obtain s2 out where "printdef_loop s1 (ie_size e) = Some (s2, out)" "concat out = article body e"
      "source_at zl at s2 (nat (ie_offset e) + ie_size e)"
    using printdef_loop_ok [OF s1(2), of "ie_size e"] e by (auto simp: in_text_def article_def)
  with s(1) s1(1) e show ?thesis by (auto simp: printdef_def in_text_def)
qed

text \<open>
  The whole reply to a definition: every result is the article of an entry that matches, and the
  stream can be used for the next one.
\<close>

lemma define_output_ok:
  assumes ok: "index_ok db" and w: "encodes ws w" "\<not> RESERVED_WORD db w"
    and s: "dd_stream db = Some s" "source_at zl at s p" and inside: "list_all (in_text body) (dd_index db)"
    and r: "mod_define db w = Some (Some res)" "n < mod_result_count res"
  shows "\<exists>s' q out. mod_output_result db res n = Some (db\<lparr>dd_stream := Some s'\<rparr>, out) \<and> source_at zl at s' q \<and>
    dr_list res ! n \<in> set (matching db w (dd_index db)) \<and> concat out = article body (dr_list res ! n)"
proof -
  have d: "dr_type res = result_define" "dr_list res \<in> matching db w ` {dd_index db, tl (dd_index db)}"
    using common_match_exact [OF ok w(1), of False] w(2) r(1)
    by (auto simp: mod_define_def append_entries_all)
  have "set (dr_list res) \<subseteq> set (matching db w (dd_index db))"
    using d(2) by (auto simp: matching_def dest: in_set_tl)
  then have e: "dr_list res ! n \<in> set (matching db w (dd_index db))"
    using r(2) nth_mem by (fastforce simp: mod_result_count_def)
  then have "in_text body (dr_list res ! n)" using inside by (auto simp: matching_def list_all_iff)
  from printdef_ok [OF s this] e d(1) r(2) show ?thesis
    by (auto simp: mod_output_result_def mod_result_count_def)
qed

end

text \<open>
  C6: For a dictionary in a \<^verbatim>\<open>dictzip\<close> file whose index describes articles inside the text: each
  result of \<^verbatim>\<open>mod_define\<close> is output as the article of an entry that matches the word, read through the
  cache of chunks, and the database can be used for the next result.
\<close>

theorem dictorg_definition_output:
  assumes "index_ok db" "encodes ws w" "\<not> RESERVED_WORD db w"
    and "dd_stream db = Some s" "source_at zl (dzip_at zl img body) s p" "list_all (in_text body) (dd_index db)"
    and "mod_define db w = Some (Some res)" "n < mod_result_count res"
  shows "\<exists>s' q out. mod_output_result db res n = Some (db\<lparr>dd_stream := Some s'\<rparr>, out) \<and>
    source_at zl (dzip_at zl img body) s' q \<and> dr_list res ! n \<in> set (matching db w (dd_index db)) \<and>
    concat out = article body (dr_list res ! n)"
  by (rule dzip.define_output_ok [OF assms])

theorem dictorg_definition_output_witness:
  "\<exists>res db' out. mod_define letters [0x62] = Some (Some res) \<and> mod_output_result letters res 1 = Some (db', out) \<and>
    concat out = str ''c''"
proof -
  obtain res where res: "mod_define letters [0x62] = Some (Some res)" "dr_list res = [letter 0x42 1 1, letter 0x62 2 1]"
    using letters_define by blast
  obtain s where s: "dd_stream letters = Some s" "source_at stored (dzip_at stored (str ''xxabc'') (str ''abc'')) s 0"
    using two_chunks_ok by (auto simp: letters_def source_at_def no_driver_def dzip_at_def two_chunks_def zero_dict_def)
  have "list_all (in_text (str ''abc'')) (dd_index letters)" by (simp add: letters_ok in_text_def letter_def)
  from dictorg_definition_output [OF letters_ok(1,3,2) s this res(1), of 1] res show ?thesis
    by (auto simp: mod_result_count_def article_def letter_def)
qed

lemma dictorg_definition_output_text:
  assumes "index_ok db" "encodes ws w" "\<not> RESERVED_WORD db w"
    and "dd_stream db = Some s" "source_at zl (text_at body) s p" "list_all (in_text body) (dd_index db)"
    and "mod_define db w = Some (Some res)" "n < mod_result_count res"
  shows "\<exists>s' q out. mod_output_result db res n = Some (db\<lparr>dd_stream := Some s'\<rparr>, out) \<and>
    source_at zl (text_at body) s' q \<and> dr_list res ! n \<in> set (matching db w (dd_index db)) \<and>
    concat out = article body (dr_list res ! n)"
  by (rule plain.define_output_ok [OF assms])

section \<open>The index of suffixes\<close>

text \<open>
  A search for a suffix may build the index of reversed words; the results of later searches
  do not depend on whether it was built before.
\<close>

theorem suffix_index_transparent:
  assumes "dd_suf_index db = None" "suffix_match db w = Some (db1, r)"
  shows "suffix_match db1 w2 = suffix_match db w2 \<and> dd_index db1 = dd_index db"
proof -
  obtain rs ix n where b: "revert_entries (dd_index db) = Some rs" "c_qsort compare_rev_entry rs = Some (ix, n)"
      "db1 = db\<lparr>dd_suf_index := Some ix\<rparr>"
    using assms by (auto simp: suffix_match_def init_suffix_index_def res_iff split: option.splits)
  have i: "init_suffix_index db = Some (db1, ix)" "init_suffix_index db1 = Some (db1, ix)"
    using assms(1) b by (simp_all add: init_suffix_index_def)
  have "dd_index db1 = dd_index db" using b(3) by simp
  moreover have "suffix_match db1 w2 = suffix_match db w2" by (simp add: suffix_match_def i)
  ultimately show ?thesis by simp
qed

end
