(* ===== verification/Dico_Index_Props.thy ===== *)
theory Dico_Index_Props
  imports Dico_Dictorg_Props Dico_Codec_Props Dico_Drivers_Props
begin

text \<open>
  The lines of an index of the module \<^verbatim>\<open>dictorg\<close>: a line that was written for a word and two
  numbers is read back, and a line that does not begin with a character makes the module hang.
\<close>

unbundle bit_operations_syntax

section \<open>Numbers in base 64\<close>

fun b64_number :: "nat \<Rightarrow> bytes" where
  "b64_number n = (if n < 64 then [b64tab ! n] else b64_number (n div 64) @ [b64tab ! (n mod 64)])"

declare b64_number.simps [simp del]

lemma b64_digits_append: "b64_digits (xs @ ys) v = Option.bind (b64_digits xs v) (b64_digits ys)"
  by (induction xs v rule: b64_digits.induct) (auto simp: Let_def)

lemma unat_of_byte: "unat (ucast (b :: byte) :: wchar) = unat b"
  by (simp add: unsigned_ucast_eq take_bit_nat_eq_self unsigned_less [THEN order_less_trans])

lemma b64tab_digit:
  assumes "n < 64"
  shows "dico_base64_input (scast (b64tab ! n)) = int n" "0 < b64tab ! n" "b64tab ! n < 0x80" "b64tab ! n \<noteq> 0x20" "b64tab ! n \<noteq> 0x09"
proof -
  have c: "b64tab ! n \<in> set b64tab" using assms by (simp add: b64_tables(3))
  have all: "\<forall>c \<in> set b64tab. 0 < c \<and> c < 0x80 \<and> c \<noteq> 0x20 \<and> c \<noteq> 0x09" by (simp add: b64tab_def)
  then show "0 < b64tab ! n" "b64tab ! n < 0x80" "b64tab ! n \<noteq> 0x20" "b64tab ! n \<noteq> 0x09" using c by blast+
  have scast: "unat (scast b :: 32 word) = unat b" if "b < 0x80" for b :: byte
  proof -
    have "- (2 ^ 7) \<le> uint b" by (rule order_trans [OF _ uint_ge_0]) simp
    moreover have "uint b < 2 ^ 7" using that by (simp add: word_less_def)
    ultimately have "sint b = uint b" by (simp add: sint_uint signed_take_bit_int_eq_self)
    then show ?thesis by (simp add: scast_eq unat_of_byte)
  qed
  have "map (\<lambda>c. b64val ! unat c) b64tab ! n = map int [0..<64] ! n" by (simp add: b64_tables(1))
  then have "b64val ! unat (b64tab ! n) = int n" using assms by (simp add: b64_tables(3))
  moreover have "unat (b64tab ! n) < 128" using all c by (auto simp: word_less_nat_alt)
  ultimately show "dico_base64_input (scast (b64tab ! n)) = int n"
    using all c by (simp add: dico_base64_input_def scast b64val_def)
qed

lemma small_bits: "x < 64 \<Longrightarrow> bit (of_nat x :: 64 word) k \<Longrightarrow> k < 6"
proof (rule ccontr)
  assume x: "x < 64" "bit (of_nat x :: 64 word) k" and "\<not> k < 6"
  then have "(2 :: nat) ^ 6 \<le> 2 ^ k" by (intro power_increasing) auto
  then have "x div 2 ^ k = 0" using x(1) by simp
  moreover have "bit x k" using x(2) by (simp add: bit_of_nat_iff)
  ultimately show False by (simp add: bit_iff_odd)
qed

lemma shift_or: "x < 64 \<Longrightarrow> push_bit 6 v OR (of_nat x :: 64 word) = v * 64 + of_nat x"
proof -
  assume x: "x < 64"
  have "push_bit 6 v AND (of_nat x :: 64 word) = 0"
    by (rule bit_word_eqI) (auto simp: bit_and_iff bit_push_bit_iff dest: small_bits [OF x])
  then have "push_bit 6 v OR of_nat x = push_bit 6 v + (of_nat x :: 64 word)"
    by (rule disjunctive_add_eq_or [symmetric])
  then show ?thesis by (simp add: push_bit_eq_mult)
qed

lemma b64_digit_step: "n < 64 \<Longrightarrow> b64_digits [b64tab ! n] v = Some (v * 64 + of_nat n)"
  by (simp add: b64tab_digit(1) Let_def shift_or)

lemma b64_decode_number: "b64_decode (b64_number n) = Some (of_nat n)"
  unfolding b64_decode_def
proof (induction n rule: b64_number.induct)
  case (1 n)
  show ?case
  proof (cases "n < 64")
    case True
    then have "b64_number n = [b64tab ! n]" by (subst b64_number.simps) simp
    with b64_digit_step [OF True, of 0] show ?thesis by (simp del: b64_digits.simps)
  next
    case False
    then have "b64_digits (b64_number n) 0 = Some (of_nat (n div 64) * 64 + of_nat (n mod 64))"
      using 1 by (subst b64_number.simps) (simp add: b64_digits_append b64_digit_step del: b64_digits.simps(2))
    also have "of_nat (n div 64) * 64 + of_nat (n mod 64) = (of_nat (n div 64 * 64 + n mod 64) :: 64 word)"
      by (simp only: of_nat_add of_nat_mult of_nat_numeral)
    finally show ?thesis by simp
  qed
qed

section \<open>Characters and the iterator\<close>

definition ascii :: "bytes \<Rightarrow> bool" where
  "ascii s \<longleftrightarrow> list_all (\<lambda>c. 0 < c \<and> c < 0x80) s"

lemma ascii_encodes: "ascii s \<Longrightarrow> encodes (map ucast s) s"
proof (induction s)
  case Nil
  then show ?case by (simp add: encodes_def wide_ok_def)
next
  case (Cons c s)
  then have c: "0 < c" "c < 0x80" and e: "encodes (map ucast s) s" by (simp_all add: ascii_def)
  have w: "(ucast c :: wchar) < 0x80" "0 < (ucast c :: wchar)" using c by (simp_all add: word_less_nat_alt unat_of_byte)
  have "(ucast c :: wchar) < 0x140000" using w(1) by (simp add: word_less_nat_alt)
  with e w show ?case by (simp add: encodes_def wide_ok_def wctomb_1 byte_cast)
qed

lemma b64_number_chars: "c \<in> set (b64_number n) \<Longrightarrow> 0 < c \<and> c < 0x80 \<and> c \<noteq> 0x20 \<and> c \<noteq> 0x09"
proof (induction n rule: b64_number.induct)
  case (1 n)
  then show ?case
    by (subst (asm) (2) b64_number.simps) (auto simp: b64tab_digit split: if_splits)
qed

lemma b64_number_ne: "b64_number n \<noteq> []"
  by (subst b64_number.simps) simp

text \<open>The iterator stands at position \<open>k\<close> of the string.\<close>

definition stands_at :: "bytes \<Rightarrow> nat \<Rightarrow> utf8_iterator \<Rightarrow> bool" where
  "stands_at s k itr \<longleftrightarrow> ui_string itr = s \<and> ui_curptr itr = k \<and> k \<le> length s \<and> ui_curwidth itr = utf8_char_width (drop k s)"

lemma iter_end_at: "stands_at s k itr \<Longrightarrow> 0 \<notin> set s \<Longrightarrow> utf8_iter_end_p itr = Some (k = length s)"
  by (auto simp: stands_at_def utf8_iter_end_p_def chr_at_def split: list.splits)
    (metis in_set_dropD list.set_intros(1))

lemma iter_next_at:
  assumes "stands_at s k itr" "0 \<notin> set s" "k < length s" "k + utf8_char_width (drop k s) \<le> length s"
    and "utf8_char_width (drop (k + utf8_char_width (drop k s)) s) \<noteq> 0"
  shows "\<exists>itr'. utf8_iter_next itr = Some (0, itr') \<and> stands_at s (k + utf8_char_width (drop k s)) itr'"
  using assms iter_end_at [OF assms(1,2)] by (auto simp: utf8_iter_next_def utf8_iter0_def stands_at_def Let_def)

text \<open>A valid text has a character at every boundary, and no NUL inside.\<close>

lemma encodes_Cons:
  assumes "encodes (w # ws) s"
  shows "\<exists>r t. utf8_wctomb w = Some r \<and> s = r @ t \<and> 0 < length r \<and> encodes ws t \<and> (\<forall>u. utf8_char_width (r @ u) = length r)"
proof -
  have o: "wide_ok (w # ws)" "mbstr_loop (w # ws) = Some (Inr s)" using assms by (auto simp: encodes_def)
  obtain r t where r: "utf8_wctomb w = Some r" "mbstr_loop ws = Some (Inr t)" "s = r @ t" "0 < length r" "wide_ok ws"
    using mbstr_loop_Cons [OF o] by blast
  have "0 < w" "w < 0x140000" using o(1) by (auto simp: wide_ok_def)
  from char_width_encoded [OF this r(1)] r show ?thesis by (auto simp: encodes_def)
qed

lemma encodes_width: "encodes ws s \<Longrightarrow> utf8_char_width s \<noteq> 0"
  using encodes_Cons [of "hd ws" "tl ws" s]
  by (cases ws) (auto simp: encodes_def utf8_char_width_def chr_at_def)

lemma encodes_append: "encodes ws s \<Longrightarrow> encodes vs t \<Longrightarrow> encodes (ws @ vs) (s @ t)"
proof (induction ws arbitrary: s)
  case (Cons w ws)
  obtain r u where r: "utf8_wctomb w = Some r" "s = r @ u" "encodes ws u" using encodes_Cons [OF Cons.prems(1)] by blast
  have "encodes (ws @ vs) (u @ t)" by (rule Cons.IH [OF r(3) Cons.prems(2)])
  moreover have "length r \<le> 4" "0 < w \<and> w < 0x140000"
    using Cons.prems(1) r(1) by (auto simp: encodes_def wide_ok_def split: if_splits)
  ultimately show ?case using r by (auto simp: encodes_def wide_ok_def)
qed (simp add: encodes_def)

lemma marked_byte: "bit m 7 \<Longrightarrow> (ucast (x OR m :: wchar) :: byte) \<noteq> 0"
proof
  assume m: "bit m 7" and "(ucast (x OR m) :: byte) = 0"
  then have "\<not> bit (ucast (x OR m) :: byte) 7" by simp
  with m show False by (simp add: bit_ucast_iff bit_or_iff)
qed

lemma wctomb_no_nul:
  assumes "0 < w" "w < 0x140000" "utf8_wctomb w = Some r"
  shows "0 \<notin> set r"
proof -
  have m: "(ucast (x OR 0xc0) :: byte) \<noteq> 0" "(ucast (x OR 0xe0) :: byte) \<noteq> 0" "(ucast (x OR 0xf0) :: byte) \<noteq> 0"
      "(ucast (cont x) :: byte) \<noteq> 0" for x :: wchar
    by (auto simp: cont_def or.commute [of _ "x AND 0x3f"] intro!: marked_byte)
  consider "w < 0x80" | "0x80 \<le> w" "w < 0x800" | "0x800 \<le> w" "w < 0x10000" | "0x10000 \<le> w" by fastforce
  then show ?thesis
  proof cases
    case 1
    have "unat w < 128" "0 < unat w" using 1 assms(1) by (simp_all add: word_less_nat_alt)
    then have "unat (ucast w :: byte) \<noteq> 0" by (simp add: unsigned_ucast_eq take_bit_nat_eq_self)
    then have "(ucast w :: byte) \<noteq> 0" by (metis unsigned_0)
    with 1 assms(3) show ?thesis by (auto simp: wctomb_1 dest: sym)
  next
    case 2
    from wctomb_2 [OF this] assms(3) m show ?thesis by (auto dest: sym)
  next
    case 3
    from wctomb_3 [OF this] assms(3) m show ?thesis by (auto dest: sym)
  next
    case 4
    have "w < 0x200000" using assms(2) by (rule order_less_trans) simp
    from wctomb_4 [OF 4 this] assms(3) m show ?thesis by (auto dest: sym)
  qed
qed

lemma encodes_no_nul: "encodes ws s \<Longrightarrow> 0 \<notin> set s"
proof (induction ws arbitrary: s)
  case (Cons w ws)
  obtain r t where r: "utf8_wctomb w = Some r" "s = r @ t" "encodes ws t" using encodes_Cons [OF Cons.prems] by blast
  have "0 < w" "w < 0x140000" using Cons.prems by (auto simp: encodes_def wide_ok_def)
  from wctomb_no_nul [OF this r(1)] Cons.IH [OF r(3)] r(2) show ?case by simp
qed (simp add: encodes_def)

text \<open>Moving over the characters of a part of the text.\<close>

lemma iter_while_over:
  assumes "encodes ws s" "encodes us post" "full = pre @ s @ post" "0 \<notin> set full"
    and "stands_at full (length pre) itr"
    and p: "\<And>i k. stands_at full k i \<Longrightarrow> length pre \<le> k \<Longrightarrow> k < length pre + length s \<Longrightarrow> P i"
    and stop: "\<And>i. stands_at full (length pre + length s) i \<Longrightarrow> post = [] \<or> \<not> P i"
  shows "\<exists>itr'. iter_while P itr = Some itr' \<and> stands_at full (length pre + length s) itr'"
  using assms
proof (induction ws arbitrary: s pre itr)
  case Nil
  then have s: "s = []" by (simp add: encodes_def)
  have e: "utf8_iter_end_p itr = Some (post = [])" using iter_end_at [OF Nil.prems(5,4)] s Nil.prems(3) by simp
  have "post = [] \<or> \<not> P itr" using Nil.prems(7) [of itr] Nil.prems(5) s by simp
  with e s Nil.prems(5) show ?case by (subst iter_while.simps) auto
next
  case (Cons w ws)
  obtain r t where r: "s = r @ t" "0 < length r" "encodes ws t" "\<forall>u. utf8_char_width (r @ u) = length r"
    using encodes_Cons [OF Cons.prems(1)] by blast
  have d: "drop (length pre) full = r @ t @ post" "drop (length pre + length r) full = t @ post"
    using Cons.prems(3) r(1) by simp_all
  have "encodes (ws @ us) (t @ post)" by (rule encodes_append [OF r(3) Cons.prems(2)])
  then have "utf8_char_width (t @ post) \<noteq> 0" by (rule encodes_width)
  then obtain itr1 where n: "utf8_iter_next itr = Some (0, itr1)" "stands_at full (length (pre @ r)) itr1"
    using iter_next_at [OF Cons.prems(5,4)] d r(1,2,4) Cons.prems(3) by auto
  have P: "P itr" using Cons.prems(6) [OF Cons.prems(5)] r(1,2) by simp
  have "\<exists>itr'. iter_while P itr1 = Some itr' \<and> stands_at full (length (pre @ r) + length t) itr'"
  proof (rule Cons.IH [OF r(3) Cons.prems(2) _ Cons.prems(4) n(2)])
    show "full = (pre @ r) @ t @ post" using Cons.prems(3) r(1) by simp
    show "P i" if "stands_at full k i" "length (pre @ r) \<le> k" "k < length (pre @ r) + length t" for i k
      by (rule Cons.prems(6) [OF that(1)]) (use that r(1) in auto)
    show "post = [] \<or> \<not> P i" if "stands_at full (length (pre @ r) + length t) i" for i
      using Cons.prems(7) [of i] that r(1) by (simp add: add.assoc)
  qed
  moreover have "iter_while P itr = iter_while P itr1"
    using iter_end_at [OF Cons.prems(5,4)] P n(1) r(1,2) Cons.prems(3) by (subst iter_while.simps) auto
  ultimately show ?case using r(1) by (simp add: add.assoc)
qed

lemma iter_byte_at: "stands_at full k i \<Longrightarrow> k < length full \<Longrightarrow> iter_byte i = full ! k"
  by (simp add: stands_at_def iter_byte_def chr_at_def hd_drop_conv_nth split: list.split)
    (metis hd_drop_conv_nth list.sel(1) drop_eq_Nil2 not_le list.distinct(1))

lemma iter_ascii_at: "stands_at full k i \<Longrightarrow> k < length full \<Longrightarrow> utf8_iter_isascii i \<longleftrightarrow> full ! k \<le> 0x7f"
  using iter_byte_at [of full k i]
  by (auto simp: utf8_iter_isascii_def stands_at_def iter_byte_def utf8_char_width_def Let_def word_le_nat_alt word_less_nat_alt)

section \<open>A line of the index\<close>

text \<open>White space and a field: the iterator stops at the next tab or at the end.\<close>

lemma field_step:
  assumes enc: "encodes es sep" "encodes ws s" "encodes us post"
    and sep: "set sep \<subseteq> {0x09, 0x20}" and s: "s \<noteq> []" "hd s \<noteq> 0x20" "0x09 \<notin> set s" and post: "post = [] \<or> hd post = 0x09"
    and full: "full = pre @ sep @ s @ post" "0 \<notin> set full" and i: "stands_at full (length pre) itr"
  shows "\<exists>i1 i2. iter_skip_ws itr = Some i1 \<and> stands_at full (length (pre @ sep)) i1 \<and> utf8_iter_end_p i1 = Some False \<and>
    iter_field i1 = Some i2 \<and> stands_at full (length (pre @ sep @ s)) i2"
proof -
  let ?ws = "\<lambda>i. utf8_iter_isascii i \<and> dict_isws (iter_byte i)" and ?f = "\<lambda>i. \<not> (utf8_iter_isascii i \<and> iter_byte i = 0x09)"
  have at: "full ! (length pre + k) = (sep @ s @ post) ! k" if "k < length (sep @ s @ post)" for k
    using full(1) that by (simp add: nth_append)
  have "\<exists>i1. iter_while ?ws itr = Some i1 \<and> stands_at full (length pre + length sep) i1"
  proof (rule iter_while_over [OF enc(1) encodes_append [OF enc(2,3)] _ full(2) i])
    show "?ws j" if "stands_at full k j" "length pre \<le> k" "k < length pre + length sep" for j k
    proof -
      have "k - length pre < length sep" using that by linarith
      then have "full ! k \<in> set sep" using at [of "k - length pre"] that by (simp add: nth_append)
      then have "full ! k \<in> {0x09, 0x20}" using sep by blast
      then show ?thesis using iter_byte_at [OF that(1)] iter_ascii_at [OF that(1)] that(3) full(1)
        by (auto simp: dict_isws_def)
    qed
    show "s @ post = [] \<or> \<not> ?ws j" if "stands_at full (length pre + length sep) j" for j
    proof -
      have "full ! (length pre + length sep) = hd s" using at [of "length sep"] s(1) by (simp add: nth_append hd_conv_nth)
      moreover have "hd s \<noteq> 0x09" using s(1,3) by (cases s) auto
      ultimately show ?thesis using iter_byte_at [OF that] full(1) s(1,2) by (auto simp: dict_isws_def)
    qed
  qed (use full(1) in simp)
  then obtain i1 where i1: "iter_skip_ws itr = Some i1" "stands_at full (length (pre @ sep)) i1"
    by (auto simp: iter_skip_ws_def)
  have "\<exists>i2. iter_while ?f i1 = Some i2 \<and> stands_at full (length (pre @ sep) + length s) i2"
  proof (rule iter_while_over [OF enc(2,3) _ full(2) i1(2)])
    show "?f j" if "stands_at full k j" "length (pre @ sep) \<le> k" "k < length (pre @ sep) + length s" for j k
    proof -
      have l: "\<not> k - length pre < length sep" "k - length pre - length sep < length s" "k - length pre < length (sep @ s @ post)"
        "length pre + (k - length pre) = k" using that by auto
      then have "full ! k \<in> set s" using at [OF l(3)] by (simp add: nth_append)
      then show ?thesis using iter_byte_at [OF that(1)] s(3) that(3) full(1) by auto
    qed
    show "post = [] \<or> \<not> ?f j" if "stands_at full (length (pre @ sep) + length s) j" for j
    proof (cases "post = []")
      case False
      then have "full ! (length (pre @ sep) + length s) = 0x09"
        using at [of "length sep + length s"] post by (simp add: nth_append hd_conv_nth add.assoc)
      then show ?thesis using iter_byte_at [OF that] iter_ascii_at [OF that] full(1) False by simp
    qed simp
  qed (use full(1) in simp)
  moreover have "utf8_iter_end_p i1 = Some False" using iter_end_at [OF i1(2) full(2)] full(1) s(1) by simp
  ultimately show ?thesis using i1 by (auto simp: iter_field_def add.assoc)
qed

lemma field_bytes: "stands_at (pre @ s @ post) (length pre) i1 \<Longrightarrow> stands_at (pre @ s @ post) (length (pre @ s)) i2 \<Longrightarrow>
  take (ui_curptr i2 - ui_curptr i1) (drop (ui_curptr i1) (ui_string i2)) = s"
  by (simp add: stands_at_def)

lemma encodes_number: "encodes (map ucast (b64_number n)) (b64_number n)"
  using b64_number_chars by (intro ascii_encodes) (auto simp: ascii_def list_all_iff)

lemma encodes_tab: "encodes [9] [9]"
  using ascii_encodes [of "[9]"] by (simp add: ascii_def)

text \<open>A field with a number.\<close>

lemma parse_number:
  assumes full: "full = pre @ [0x09] @ b64_number v @ post" "0 \<notin> set full" and i: "stands_at full (length pre) itr"
    and post: "encodes us post" "post = [] \<or> hd post = 0x09" and n: "nfield \<in> {1, 2}"
  shows "\<exists>i2. stands_at full (length (pre @ [0x09] @ b64_number v)) i2 \<and>
    parse_fields tws nfield itr idx = parse_fields tws (Suc nfield) i2
      (if nfield = 1 then idx\<lparr>pe_offset := Some (of_nat v)\<rparr> else idx\<lparr>pe_size := Some (of_nat v)\<rparr>)"
proof -
  have b: "hd (b64_number v) \<noteq> 0x20" "0x09 \<notin> set (b64_number v)"
    using b64_number_chars hd_in_set [OF b64_number_ne] by blast+
  obtain i1 i2 where s: "iter_skip_ws itr = Some i1" "stands_at full (length (pre @ [0x09])) i1" "utf8_iter_end_p i1 = Some False"
      "iter_field i1 = Some i2" "stands_at full (length (pre @ [0x09] @ b64_number v)) i2"
    using field_step [OF encodes_tab encodes_number post(1) _ b64_number_ne b post(2) full i] by auto
  have "take (ui_curptr i2 - ui_curptr i1) (drop (ui_curptr i1) (ui_string i2)) = b64_number v"
    by (rule field_bytes [of "pre @ [0x09]" _ post]) (use s(2,5) full(1) in simp_all)
  with s n show ?thesis
    by (subst parse_fields.simps) (auto simp: Let_def b64_decode_number)
qed

lemma trim_nothing: "w = [] \<or> \<not> prd (last w) \<Longrightarrow> dico_string_trim prd w = w"
  by (cases w rule: rev_cases) (auto simp: dico_string_trim_def)

text \<open>What is written for an entry, and the condition that it can be read back.\<close>

definition index_line :: "index_entry \<Rightarrow> bytes" where
  "index_line e = ie_word e @ [0x09] @ b64_number (nat (ie_offset e)) @ [0x09] @ b64_number (ie_size e)"

definition plain_entry :: "index_entry \<Rightarrow> bool" where
  "plain_entry e \<longleftrightarrow> entry_ok e \<and> ie_word e \<noteq> [] \<and> hd (ie_word e) \<noteq> 0x20 \<and> last (ie_word e) \<noteq> 0x20 \<and>
     list_all (\<lambda>c. c \<notin> {0x09, 0x0a, 0x0d}) (ie_word e) \<and> 0 \<le> ie_offset e \<and> ie_offset e < 2 ^ 63 \<and> ie_size e < 2 ^ 64 \<and>
     length (index_line e) < 2 ^ 62"

lemma parse_line:
  assumes "plain_entry e"
  shows "parse_index_entry (index_line e) tws = Some (Inr e)"
proof -
  define w where "w = ie_word e"
  define off sz where "off = nat (ie_offset e)" and "sz = ie_size e"
  define full where "full = w @ [0x09] @ b64_number off @ [0x09] @ b64_number sz"
  let ?ws = "wide_of w"
  have w: "encodes ?ws w" "w \<noteq> []" "hd w \<noteq> 0x20" "last w \<noteq> 0x20" "0x09 \<notin> set w"
    using assms by (auto simp: plain_entry_def entry_ok_def w_def list_all_iff)
  note tail = encodes_append [OF encodes_tab encodes_number]
  have enc: "encodes (?ws @ [9] @ map ucast (b64_number off) @ [9] @ map ucast (b64_number sz)) full"
    unfolding full_def using encodes_append [OF w(1) encodes_append [OF encodes_tab encodes_append [OF encodes_number tail]]] by simp
  have nul: "0 \<notin> set full" by (rule encodes_no_nul [OF enc])
  define i0 where "i0 = \<lparr>ui_string = full, ui_curptr = 0, ui_curwidth = utf8_char_width full\<rparr>"
  have i0: "utf8_iter_first \<lparr>ui_string = [], ui_curptr = 0, ui_curwidth = 0\<rparr> full = Some (0, i0)" "stands_at full 0 i0"
    using encodes_width [OF enc] by (auto simp: i0_def utf8_iter_first_def utf8_iter0_def stands_at_def Let_def)
  let ?post = "[0x09] @ b64_number off @ [0x09] @ b64_number sz" and ?idx = "\<lparr>pe_word = None, pe_offset = None, pe_size = None\<rparr>"
  have e0: "encodes [] []" by (simp add: encodes_def wide_ok_def)
  have ep: "encodes ([9] @ map ucast (b64_number off) @ [9] @ map ucast (b64_number sz)) ?post"
    using encodes_append [OF encodes_tab encodes_append [OF encodes_number tail]] by simp
  obtain i1 i2 where s1: "iter_skip_ws i0 = Some i1" "stands_at full 0 i1" "utf8_iter_end_p i1 = Some False"
      "iter_field i1 = Some i2" "stands_at full (length w) i2"
    using field_step [OF e0 w(1) ep _ w(2,3,5) _ _ nul, of "[]" i0] i0(2) by (auto simp: full_def)
  have f1: "take (ui_curptr i2 - ui_curptr i1) (drop (ui_curptr i1) (ui_string i2)) = w"
    by (rule field_bytes [of "[]" _ ?post]) (use s1(2,5) in \<open>simp_all add: full_def\<close>)
  have len: "utf8_strlen w = Some (length ?ws)" using utf8_strlen_encoded w(1) by (simp add: encodes_def)
  have p0: "parse_fields tws 0 i0 ?idx = parse_fields tws 1 i2 (?idx\<lparr>pe_word := Some (w, length ?ws)\<rparr>)"
    using s1 f1 len trim_nothing [of w "\<lambda>c. c = 0x20"] w(4) by (subst parse_fields.simps) (auto simp: Let_def)
  obtain i3 where p1: "stands_at full (length (w @ [0x09] @ b64_number off)) i3"
      "parse_fields tws 1 i2 (?idx\<lparr>pe_word := Some (w, length ?ws)\<rparr>) =
       parse_fields tws 2 i3 (?idx\<lparr>pe_word := Some (w, length ?ws), pe_offset := Some (of_nat off)\<rparr>)"
    using parse_number [OF full_def nul s1(5) tail _ , of 1 tws "?idx\<lparr>pe_word := Some (w, length ?ws)\<rparr>"]
    by (auto simp: numeral_2_eq_2)
  obtain i4 where p2: "stands_at full (length full) i4"
      "parse_fields tws 2 i3 (?idx\<lparr>pe_word := Some (w, length ?ws), pe_offset := Some (of_nat off)\<rparr>) =
       parse_fields tws 3 i4 (?idx\<lparr>pe_word := Some (w, length ?ws), pe_offset := Some (of_nat off), pe_size := Some (of_nat sz)\<rparr>)"
    using parse_number [of full "w @ [0x09] @ b64_number off" sz "[]" i3 "[]" 2 tws
        "?idx\<lparr>pe_word := Some (w, length ?ws), pe_offset := Some (of_nat off)\<rparr>"] nul p1(1) e0
    by (auto simp: full_def)
  have "parse_fields tws 0 i0 ?idx =
      Some (Inr (i4, ?idx\<lparr>pe_word := Some (w, length ?ws), pe_offset := Some (of_nat off), pe_size := Some (of_nat sz)\<rparr>))"
    using p0 p1(2) p2(2) by (simp add: parse_fields.simps [of _ 3])
  moreover have "utf8_iter_end_p i4 = Some True" using iter_end_at [OF p2(1) nul] by simp
  moreover have "sint (of_nat off :: 64 word) = ie_offset e" "unat (of_nat sz :: 64 word) = sz"
    using assms by (auto simp: plain_entry_def off_def sz_def signed_of_int signed_take_bit_int_eq_self unsigned_of_nat take_bit_nat_eq_self)
  moreover have "index_line e = full" by (simp add: index_line_def full_def w_def off_def sz_def)
  ultimately show ?thesis
    using assms i0(1) by (auto simp: parse_index_entry_def plain_entry_def entry_ok_def w_def sz_def)
qed

section \<open>The whole index\<close>

lemma index_line_chars: "plain_entry e \<Longrightarrow> c \<in> set (index_line e) \<Longrightarrow> c \<noteq> 0x0a \<and> c \<noteq> 0x0d \<and> c \<noteq> 0"
proof -
  assume e: "plain_entry e" and c: "c \<in> set (index_line e)"
  have w: "0 \<notin> set (ie_word e)" using e encodes_no_nul by (auto simp: plain_entry_def entry_ok_def)
  have b: "b64tab ! n \<noteq> 0x0a \<and> b64tab ! n \<noteq> 0x0d" if "n < 64" for n
  proof -
    have "\<forall>c \<in> set b64tab. c \<noteq> 0x0a \<and> c \<noteq> 0x0d" by (simp add: b64tab_def)
    then show ?thesis using that by (simp add: b64_tables(3))
  qed
  have "c \<noteq> 0x0a \<and> c \<noteq> 0x0d" if "c \<in> set (b64_number n)" for n
    using that
  proof (induction n rule: b64_number.induct)
    case (1 n)
    then show ?case by (subst (asm) (2) b64_number.simps) (auto simp: b split: if_splits)
  qed
  then show ?thesis using e c w b64_number_chars by (fastforce simp: index_line_def plain_entry_def list_all_iff)
qed

lemma index_line_string: "plain_entry e \<Longrightarrow> dico_trim_nl (string_in (index_line e @ [0x0a])) = index_line e"
proof -
  assume e: "plain_entry e"
  have "string_in (index_line e @ [0x0a]) = index_line e @ [0x0a]"
    unfolding string_in_def by (subst takeWhile_eq_all_conv) (use index_line_chars [OF e] in auto)
  moreover have "\<not> is_nl (last (index_line e))"
    using index_line_chars [OF e] last_in_set [of "index_line e"] by (auto simp: is_nl_def index_line_def b64_number_ne)
  ultimately show ?thesis
    using trim_nothing [of "index_line e" is_nl] by (simp add: dico_trim_nl_def dico_string_trim_def is_nl_def)
qed

definition index_text :: "index_entry list \<Rightarrow> bytes" where
  "index_text es = concat (map (\<lambda>e. index_line e @ [0x0a]) es)"

lemma read_index_loop_ok:
  "list_all plain_entry es \<Longrightarrow> read_ready mapfile_read mapfile_ok mapfile_rest s \<Longrightarrow> remaining mapfile_rest s = index_text es \<Longrightarrow>
   s_buftype s = dico_buffer_none \<Longrightarrow> (\<And>k. alloc k) \<Longrightarrow> read_index_loop alloc tws s n acc = Some (Inr (acc @ es))"
proof (induction es arbitrary: s n acc)
  case Nil
  then obtain s' rc bs m where "dico_stream_getline alloc s n = Some (s', rc, bs, m)" "rc \<noteq> 0"
    using mapfile.getline_at_end [OF Nil.prems(2)] by (metis concat.simps(1) index_text_def list.simps(8))
  then show ?case by (subst read_index_loop.simps) simp
next
  case (Cons e es)
  have e: "plain_entry e" "list_all plain_entry es" using Cons.prems(1) by simp_all
  have rem: "remaining mapfile_rest s = index_line e @ 0x0a # index_text es" using Cons.prems(3) by (simp add: index_text_def)
  have "0x0a \<notin> set (index_line e)" "length (index_line e) < 2 ^ 62" using index_line_chars [OF e(1)] e(1) by (auto simp: plain_entry_def)
  then obtain s' m where g: "dico_stream_getline alloc s n = Some (s', 0, index_line e @ [0x0a], m)"
      "read_ready mapfile_read mapfile_ok mapfile_rest s'" "remaining mapfile_rest s' = index_text es" "s_buftype s' = s_buftype s"
    using mapfile.getline_ok [OF Cons.prems(2) rem, of alloc n] Cons.prems(5) by blast
  have "read_index_loop alloc tws s' (Some m) (acc @ [e]) = Some (Inr ((acc @ [e]) @ es))"
    by (rule Cons.IH [OF e(2) g(2,3) _ Cons.prems(5)]) (use g(4) Cons.prems(4) in simp)
  with g(1) index_line_string [OF e(1)] parse_line [OF e(1)] show ?case
    by (subst read_index_loop.simps) simp
qed

lemma map_stream_ready:
  assumes "fopen name {DICO_STREAM_READ} = Inr (fd, body)" "body \<noteq> []" "map_ok body = Inr u"
  shows "\<exists>s0 s. dico_mapfile_stream_create fopen map_ok (True, True, True) name {DICO_STREAM_READ} = Some s0 \<and>
    dico_stream_open s0 = Some (s, 0) \<and> read_ready mapfile_read mapfile_ok mapfile_rest s \<and> remaining mapfile_rest s = body \<and>
    s_buftype s = dico_buffer_none"
  using assms
  by (auto simp: dico_mapfile_stream_create_def dico_stream_create_def dico_stream_open_def mapfile_open_def mapfile_close_def
      dico_stream_set_open_def dico_stream_set_seek_def dico_stream_set_size_def dico_stream_set_read_def
      dico_stream_set_close_def dico_stream_set_destroy_def no_driver_def Let_def read_ready_def remaining_def pending_def
      stream_window_def mapfile_ok_def mapfile_rest_def)

text \<open>
  C5: Opening the index of a database reads back, in order, the entries an index file was written
  for: a line per entry with the word, the offset and the size in base 64 between tabs. The words may hold
  any characters but tabs and newlines, do not begin or end with a space, and the numbers fit
  their types.
\<close>

theorem open_index_roundtrip:
  assumes "list_all plain_entry es" "es \<noteq> []"
    and "en_stat en (mkname (dd_basename db) (str ''index'')) = Some True"
    and "en_open en (mkname (dd_basename db) (str ''index'')) {DICO_STREAM_READ} = Inr (fd, index_text es)"
    and "en_map en (index_text es) = Inr u" "\<And>k. en_alloc en k"
  shows "open_index en db tws = Some (Inr (db\<lparr>dd_index := es\<rparr>))"
proof -
  have "index_text es \<noteq> []" using assms(2) by (cases es) (auto simp: index_text_def)
  from map_stream_ready [where fopen = "en_open en" and map_ok = "en_map en", OF assms(4) this assms(5)]
  obtain s0 s where s: "dico_mapfile_stream_create (en_open en) (en_map en) (True, True, True)
        (mkname (dd_basename db) (str ''index'')) {DICO_STREAM_READ} = Some s0"
      "dico_stream_open s0 = Some (s, 0)" "read_ready mapfile_read mapfile_ok mapfile_rest s"
      "remaining mapfile_rest s = index_text es" "s_buftype s = dico_buffer_none" by blast
  with read_index_loop_ok [OF assms(1) s(3-5) assms(6)] assms(3) show ?thesis
    by (simp add: open_index_def read_index_def)
qed

definition letters_env :: "unit dict_env" where
  "letters_env = \<lparr>en_stat = (\<lambda>_. Some True), en_dir = (\<lambda>_. None), en_access = (\<lambda>_. True),
     en_open = (\<lambda>_ _. Inr (3, index_text (dd_index letters))), en_map = (\<lambda>_. Inr ()), en_alloc = (\<lambda>_. True),
     en_strerror = (\<lambda>_. []), en_zlib = stored\<rparr>"

theorem open_index_roundtrip_witness:
  "open_index letters_env (letters\<lparr>dd_index := []\<rparr>) True = Some (Inr letters)"
proof -
  have "plain_entry (letter c off 1)" if "c = 0x41 \<or> c = 0x42 \<or> c = 0x62" "off \<in> {0, 1, 2}" for c off
  proof -
    have "length (b64_number n) = 1" if "n < 64" for n using that by (simp add: b64_number.simps)
    with that letter_ok [OF that(1), of off 1] show ?thesis
      by (auto simp: plain_entry_def letter_def index_line_def)
  qed
  then have "list_all plain_entry (dd_index letters)" by (simp add: letters_ok)
  from open_index_roundtrip [OF this, of letters_env "letters\<lparr>dd_index := []\<rparr>" 3 "()" True] show ?thesis
    by (simp add: letters_env_def letters_def)
qed

section \<open>A line that does not begin with a character\<close>

lemma iter_stuck:
  assumes "ui_curwidth i = 0" "utf8_char_width (drop (ui_curptr i) (ui_string i)) = 0" "utf8_iter_end_p i = Some False" "P i"
  shows "iter_while P i = None"
proof -
  have n: "utf8_iter_next i = Some (1, i)"
    using assms by (auto simp: utf8_iter_next_def utf8_iter0_def utf8_iter_end_p_def Let_def split: if_splits)
  have "iter_while P' j = Some r \<Longrightarrow> P' = P \<Longrightarrow> j \<noteq> i" for P' j r
  proof (induction rule: iter_while.raw_induct [rotated, consumes 1])
    case (1 f P' j r)
    show ?case
    proof
      assume "j = i"
      with 1(2,3) assms(3,4) n have "f P i = Some r" by simp
      with 1(1) [of P i r] show False by blast
    qed
  qed
  then show ?thesis by (cases "iter_while P i") auto
qed

text \<open>
  A line that begins with a byte no character begins with is never left: the iterator does not
  move, and neither do the loops over it end.
\<close>

theorem parse_index_entry_hangs:
  assumes "utf8_char_width (c # cs) = 0"
  shows "parse_index_entry (c # cs) tws = None"
proof -
  let ?i = "\<lparr>ui_string = c # cs, ui_curptr = 0, ui_curwidth = 0\<rparr>"
  have c: "c \<noteq> 0" using assms by (auto simp: utf8_char_width_def chr_at_def)
  then have e: "utf8_iter_end_p ?i = Some False" by (simp add: utf8_iter_end_p_def chr_at_def)
  have "iter_skip_ws ?i = Some ?i"
    unfolding iter_skip_ws_def using e by (subst iter_while.simps) (simp add: utf8_iter_isascii_def)
  moreover have "iter_field ?i = None"
    unfolding iter_field_def by (rule iter_stuck) (use assms e in \<open>simp_all add: utf8_iter_isascii_def\<close>)
  ultimately have "parse_fields tws 0 ?i idx = None" for idx
    using e by (subst parse_fields.simps) simp
  moreover have "utf8_iter_first \<lparr>ui_string = [], ui_curptr = 0, ui_curwidth = 0\<rparr> (c # cs) = Some (1, ?i)"
    using assms by (simp add: utf8_iter_first_def utf8_iter0_def)
  ultimately show ?thesis by (simp add: parse_index_entry_def)
qed

end
