(* ===== verification/Dico_Select_Props.thy ===== *)
theory Dico_Select_Props
  imports Dico_Select Dico_Index_Props Dico_Tokenize_Props "HOL-Library.Sublist"
begin

text \<open>
  What the strategies mean: the words a selector accepts, and the headwords that a search through
  a whole index of the module \<^verbatim>\<open>dictorg\<close> returns for it. The locale \<open>deciding_selector\<close> is the
  contract of a selector that decides a property of each word; the selectors are interpretations of it.
\<close>

section \<open>Selectors that decide\<close>

definition start_key :: "select_fn strategy \<Rightarrow> bytes \<Rightarrow> sel_key" where
  "start_key strat kw = zero_key\<lparr>k_word := Some kw, k_strat := Some strat\<rparr>"

definition valid_word :: "bytes \<Rightarrow> bool" where
  "valid_word w \<longleftrightarrow> encodes (wide_of w) w"

text \<open>The entries of an index that a property of words selects.\<close>

definition selected :: "'z dictdb \<Rightarrow> (bytes \<Rightarrow> bool) \<Rightarrow> index_entry list" where
  "selected db Q = filter (\<lambda>e. \<not> RESERVED_WORD db (ie_word e) \<and> Q (ie_word e)) (dd_index db)"

text \<open>The number of comparisons does not change what is appended.\<close>

lemma append_entries_count:
  "append_entries u l ps n = map_option (\<lambda>(l', k). (l', n + k)) (append_entries u l ps 0)"
proof (induction ps arbitrary: l n)
  case (Cons p ps)
  show ?case
  proof (cases "u \<and> l \<noteq> []")
    case True
    then show ?thesis
      using Cons.IH [of l "Suc n"] Cons.IH [of l 1] Cons.IH [of "l @ [p]" "Suc n"] Cons.IH [of "l @ [p]" 1]
      by (cases "compare_entry (last l) p") (auto simp: option.map_comp comp_def split_def)
  next
    case False
    then show ?thesis using Cons.IH [of "l @ [p]" n] by auto
  qed
qed simp

lemma append_entries_step:
  "append_entries True l (e # es) 0 =
   Option.bind (append_entries True l [e] 0) (\<lambda>(l', k). map_option (\<lambda>(l'', m). (l'', k + m)) (append_entries True l' es 0))"
  using append_entries_count [of True l es 1] append_entries_count [of True "l @ [e]" es 1]
  by (cases "l = []"; cases "compare_entry (last l) e") (auto simp: option.map_id [unfolded id_def] split_def)

locale deciding_selector =
  fixes en :: sel_env and f :: select_fn and ok_key :: "select_fn strategy \<Rightarrow> bytes \<Rightarrow> bool"
    and valid :: "bytes \<Rightarrow> bool" and means :: "select_fn strategy \<Rightarrow> bytes \<Rightarrow> bytes \<Rightarrow> bool"
  assumes decides: "ok_key strat kw \<Longrightarrow> \<exists>d. let key = (start_key strat kw)\<lparr>k_call_data := d\<rparr>; ikey = key\<lparr>k_init := True\<rparr> in
    selector_of en f DICO_SELECT_BEGIN (start_key strat kw) (Some kw) = Some (0, key) \<and>
    (\<forall>w. valid w \<longrightarrow> selector_of en f DICO_SELECT_RUN ikey (Some w) = Some (of_bool (means strat kw w), ikey)) \<and>
    selector_of en f DICO_SELECT_END ikey None = Some (0, ikey)"
begin

lemma match_all_loop_decides:
  assumes "k_init key" "k_strat key = Some strat" "s_sel strat = Some f"
    and run: "\<And>w. valid w \<Longrightarrow> selector_of en f DICO_SELECT_RUN key (Some w) = Some (of_bool (Q w), key)"
  shows "list_all (\<lambda>e. valid (ie_word e)) es \<Longrightarrow>
    append_entries True l (filter (\<lambda>e. \<not> RESERVED_WORD db (ie_word e) \<and> Q (ie_word e)) es) 0 = Some (l', n) \<Longrightarrow>
    match_all_loop (run_select en) db key True l es = Some (key, True, l')"
proof (induction es arbitrary: l n)
  case (Cons e es)
  have v: "valid (ie_word e)" "list_all (\<lambda>e. valid (ie_word e)) es" using Cons.prems(1) by simp_all
  show ?case
  proof (cases "RESERVED_WORD db (ie_word e)")
    case True
    with Cons.IH [OF v(2)] Cons.prems(2) show ?thesis by simp
  next
    case False
    have m: "dico_key_match (run_select en) (Some key) (Some (ie_word e)) True =
        Some (Inr (of_bool (Q (ie_word e)), Some key, True))"
      using assms(1-3) run [OF v(1)] by (simp add: dico_key_match_def run_select_def)
    show ?thesis
    proof (cases "Q (ie_word e)")
      case True
      with Cons.prems(2) False obtain l1 k m' where a: "append_entries True l [e] 0 = Some (l1, k)"
          "append_entries True l1 (filter (\<lambda>e. \<not> RESERVED_WORD db (ie_word e) \<and> Q (ie_word e)) es) 0 = Some (l', m')"
        using append_entries_step [of l e "filter (\<lambda>e. \<not> RESERVED_WORD db (ie_word e) \<and> Q (ie_word e)) es"]
        by (auto simp: bind_eq_Some_conv simp del: append_entries.simps)
      with Cons.IH [OF v(2) a(2)] m True False show ?thesis by (simp del: append_entries.simps)
    next
      case no: False
      with Cons.IH [OF v(2)] Cons.prems(2) m False show ?thesis by simp
    qed
  qed
qed simp

lemma match_all_decides:
  assumes "list_all (\<lambda>e. entry_ok e \<and> valid (ie_word e)) (dd_index db)" "s_sel strat = Some f" "ok_key strat kw"
  shows "\<exists>l. match_all (run_select en) db strat kw True =
      Some (True, if l = [] then None
        else Some \<lparr>dr_type = result_match, dr_compare_count = length (dd_index db), dr_list = l\<rparr>) \<and>
    set l \<subseteq> set (selected db (means strat kw)) \<and>
    map fold_key l = remdups_adj (map fold_key (selected db (means strat kw)))"
proof -
  obtain d where d: "selector_of en f DICO_SELECT_BEGIN (start_key strat kw) (Some kw) = Some (0, (start_key strat kw)\<lparr>k_call_data := d\<rparr>)"
      "\<And>w. valid w \<Longrightarrow> selector_of en f DICO_SELECT_RUN ((start_key strat kw)\<lparr>k_call_data := d, k_init := True\<rparr>) (Some w) =
        Some (of_bool (means strat kw w), (start_key strat kw)\<lparr>k_call_data := d, k_init := True\<rparr>)"
      "selector_of en f DICO_SELECT_END ((start_key strat kw)\<lparr>k_call_data := d, k_init := True\<rparr>) None =
        Some (0, (start_key strat kw)\<lparr>k_call_data := d, k_init := True\<rparr>)"
    using decides [OF assms(3)] by (auto simp: Let_def)
  let ?key = "(start_key strat kw)\<lparr>k_call_data := d, k_init := True\<rparr>"
  have "list_all entry_ok (selected db (means strat kw))" using assms(1) by (auto simp: list_all_iff selected_def)
  then obtain l n where l: "append_entries True [] (selected db (means strat kw)) 0 = Some (l, n)"
      "set l \<subseteq> set (selected db (means strat kw))" "map fold_key l = remdups_adj (map fold_key (selected db (means strat kw)))"
    using append_entries_unique [of "[]" "selected db (means strat kw)" 0] by auto
  have "match_all_loop (run_select en) db ?key True [] (dd_index db) = Some (?key, True, l)"
    by (rule match_all_loop_decides [OF _ _ assms(2) d(2) _ l(1) [unfolded selected_def]])
      (use assms(1) in \<open>auto simp: start_key_def list_all_iff\<close>)
  moreover have "dico_key_init (run_select en) strat kw True = (0, ?key, True)"
    using d(1) assms(2) by (simp add: dico_key_init_def run_select_def start_key_def)
  moreover have "dico_key_deinit (run_select en) ?key True = Some (zero_key, True)"
    using d(3) assms(2) by (simp add: dico_key_deinit_def run_select_def start_key_def)
  ultimately show ?thesis using l(2,3) by (auto simp: match_all_def)
qed

end

section \<open>The selectors as interpretations\<close>

lemma key_simps: "k_word (start_key strat kw) = Some kw" "k_strat (start_key strat kw) = Some strat"
  "start_key strat kw\<lparr>k_call_data := None\<rparr> = start_key strat kw"
  by (simp_all add: start_key_def zero_key_def)

lemma valid_facts:
  assumes "valid_word w"
  shows "wide_ok (wide_of w)" "mbstr_loop (wide_of w) = Some (Inr w)" "utf8_strlen w = Some (length (wide_of w))"
    "mbstr_to_wc_loop w = Inr (wide_of w)"
proof -
  show e: "wide_ok (wide_of w)" "mbstr_loop (wide_of w) = Some (Inr w)"
    using assms by (simp_all add: valid_word_def encodes_def)
  show "utf8_strlen w = Some (length (wide_of w))" by (rule utf8_strlen_encoded [OF e])
  show "mbstr_to_wc_loop w = Inr (wide_of w)" by (rule decode_encode_string [OF wide_ok_wc_ok [OF e(1)] e(2)])
qed

lemma compare_words: "valid_word a \<Longrightarrow> valid_word b \<Longrightarrow> \<exists>r. utf8_strcasecmp a b = Some r \<and> (r = 0 \<longleftrightarrow> fold_word a = fold_word b)"
  using strcasecmp_words [of "wide_of a" a "wide_of b" b] by (auto simp: valid_word_def key_cmp_def)

lemma compare_beginnings:
  assumes "valid_word a" "valid_word b"
  shows "\<exists>r. utf8_strncasecmp a b n = Some r \<and> (r = 0 \<longleftrightarrow> take n (fold_word a) = take n (fold_word b))"
proof -
  have "utf8_strncasecmp a b n = Some (utf8_wc_strcasecmp (take n (wide_of a)) (take n (wide_of b)))"
    by (rule strncasecmp_encoded [OF valid_facts(1) [OF assms(1)] valid_facts(1) [OF assms(2)] valid_facts(2) [OF assms(1)] valid_facts(2) [OF assms(2)]])
  moreover have "utf8_wc_strcasecmp x y = 0 \<longleftrightarrow> utf8_wc_strupper x = utf8_wc_strupper y" for x y
    by (auto simp: strcasecmp_key key_cmp_def)
  ultimately show ?thesis by (auto simp: fold_word_def utf8_wc_strupper_def take_map)
qed

lemma fold_word_length: "length (fold_word w) = length (wide_of w)"
  by (simp add: fold_word_def utf8_wc_strupper_def)

lemma take_prefix: "n = length a \<Longrightarrow> (length a \<le> length b \<and> take n b = take n a) \<longleftrightarrow> prefix a b"
proof
  assume "n = length a" "length a \<le> length b \<and> take n b = take n a"
  then have "b = a @ drop n b" using append_take_drop_id [of n b] by simp
  then show "prefix a b" by (rule prefixI)
qed (auto simp: prefix_def)

lemma beginning_test:
  assumes "valid_word w" "valid_word kw"
  shows "\<exists>r. (if length (wide_of w) \<ge> length (wide_of kw) then utf8_strncasecmp w kw (length (wide_of kw)) else Some 1) = Some r \<and>
    (r = 0 \<longleftrightarrow> prefix (fold_word kw) (fold_word w))"
  using compare_beginnings [OF assms, of "length (wide_of kw)"] take_prefix [of "length (wide_of kw)" "fold_word kw" "fold_word w"]
  by (auto simp: fold_word_length dest: prefix_length_le)

interpretation exact: deciding_selector en Exact_sel "\<lambda>_. valid_word" valid_word "\<lambda>_ kw w. fold_word w = fold_word kw" for en
proof
  fix strat :: "select_fn strategy" and kw
  assume kw: "valid_word kw"
  have "exact_sel DICO_SELECT_RUN ((start_key strat kw)\<lparr>k_init := True\<rparr>) (Some w) =
      Some (of_bool (fold_word w = fold_word kw), (start_key strat kw)\<lparr>k_init := True\<rparr>)" if "valid_word w" for w
    using compare_words [OF kw that] by (auto simp: exact_sel_def key_simps)
  then show "\<exists>d. let key = (start_key strat kw)\<lparr>k_call_data := d\<rparr>; ikey = key\<lparr>k_init := True\<rparr> in
    selector_of en Exact_sel DICO_SELECT_BEGIN (start_key strat kw) (Some kw) = Some (0, key) \<and>
    (\<forall>w. valid_word w \<longrightarrow> selector_of en Exact_sel DICO_SELECT_RUN ikey (Some w) = Some (of_bool (fold_word w = fold_word kw), ikey)) \<and>
    selector_of en Exact_sel DICO_SELECT_END ikey None = Some (0, ikey)"
    by (intro exI [of _ None]) (simp add: key_simps selector_of_def exact_sel_def)
qed

interpretation pfx: deciding_selector en Prefix_sel "\<lambda>_. valid_word" valid_word "\<lambda>_ kw w. prefix (fold_word kw) (fold_word w)" for en
proof
  fix strat :: "select_fn strategy" and kw
  assume kw: "valid_word kw"
  let ?d = "Some (CD_len (length (wide_of kw)))"
  have "prefix_sel DICO_SELECT_RUN ((start_key strat kw)\<lparr>k_call_data := ?d, k_init := True\<rparr>) (Some w) =
      Some (of_bool (prefix (fold_word kw) (fold_word w)), (start_key strat kw)\<lparr>k_call_data := ?d, k_init := True\<rparr>)" if "valid_word w" for w
    using beginning_test [OF that kw] valid_facts(3) [OF that]
    by (cases "length (wide_of kw) \<le> length (wide_of w)") (auto simp: prefix_sel_def key_simps)
  then show "\<exists>d. let key = (start_key strat kw)\<lparr>k_call_data := d\<rparr>; ikey = key\<lparr>k_init := True\<rparr> in
    selector_of en Prefix_sel DICO_SELECT_BEGIN (start_key strat kw) (Some kw) = Some (0, key) \<and>
    (\<forall>w. valid_word w \<longrightarrow> selector_of en Prefix_sel DICO_SELECT_RUN ikey (Some w) = Some (of_bool (prefix (fold_word kw) (fold_word w)), ikey)) \<and>
    selector_of en Prefix_sel DICO_SELECT_END ikey None = Some (0, ikey)"
    using valid_facts(3) [OF kw] by (intro exI [of _ ?d]) (simp add: key_simps selector_of_def prefix_sel_def)
qed

lemma strstr_sublist: "utf8_wc_strstr h n \<noteq> None \<longleftrightarrow> sublist n h"
proof -
  have "case utf8_wc_strstr h n of None \<Rightarrow> \<not> sublist n h
     | Some i \<Rightarrow> i \<le> length h \<and> prefix n (drop i h) \<and> (\<forall>j<i. \<not> prefix n (drop j h))"
    by (rule utf8_wc_strstr_first_occurrence)
  moreover have "sublist n h" if p: "prefix n (drop i h)" for i
  proof -
    obtain zs where "drop i h = n @ zs" using p by (auto simp: prefix_def)
    then have "h = take i h @ n @ zs" using append_take_drop_id [of i h] by simp
    then show ?thesis by (auto simp: sublist_def)
  qed
  ultimately show ?thesis by (auto split: option.splits)
qed

interpretation substring: deciding_selector en Substr_sel "\<lambda>_ kw. se_mem en \<and> valid_word kw" valid_word
  "\<lambda>_ kw w. sublist (fold_word kw) (fold_word w)" for en
proof
  fix strat :: "select_fn strategy" and kw
  assume kw: "se_mem en \<and> valid_word kw"
  let ?d = "Some (CD_sample (fold_word kw))"
  have "substr_sel en DICO_SELECT_RUN ((start_key strat kw)\<lparr>k_call_data := ?d, k_init := True\<rparr>) (Some w) =
      Some (of_bool (sublist (fold_word kw) (fold_word w)), (start_key strat kw)\<lparr>k_call_data := ?d, k_init := True\<rparr>)" if "valid_word w" for w
    using kw valid_facts(4) [OF that] strstr_sublist [of "fold_word w" "fold_word kw"]
    by (simp add: substr_sel_def key_simps utf8_mbstr_to_wc_def fold_word_def)
  then show "\<exists>d. let key = (start_key strat kw)\<lparr>k_call_data := d\<rparr>; ikey = key\<lparr>k_init := True\<rparr> in
    selector_of en Substr_sel DICO_SELECT_BEGIN (start_key strat kw) (Some kw) = Some (0, key) \<and>
    (\<forall>w. valid_word w \<longrightarrow> selector_of en Substr_sel DICO_SELECT_RUN ikey (Some w) = Some (of_bool (sublist (fold_word kw) (fold_word w)), ikey)) \<and>
    selector_of en Substr_sel DICO_SELECT_END ikey None = Some (0, ikey)"
    using kw valid_facts(4) [of kw] by (intro exI [of _ ?d]) (simp add: key_simps selector_of_def substr_sel_def utf8_mbstr_to_wc_def fold_word_def)
qed

interpretation everything: deciding_selector en All_sel "\<lambda>_ _. True" "\<lambda>_. True" "\<lambda>_ _ _. True" for en
  by unfold_locales (intro exI [of _ None], simp add: key_simps selector_of_def all_sel_def)

text \<open>Soundex is defined for words of letters.\<close>

definition soundable :: "bytes \<Rightarrow> bool" where
  "soundable w \<longleftrightarrow> dico_soundex w \<noteq> None"

interpretation sound: deciding_selector en Soundex_sel "\<lambda>_ kw. se_mem en \<and> soundable kw" soundable
  "\<lambda>_ kw w. dico_soundex w = dico_soundex kw" for en
proof
  fix strat :: "select_fn strategy" and kw
  assume kw: "se_mem en \<and> soundable kw"
  then obtain code where code: "dico_soundex kw = Some code" by (auto simp: soundable_def)
  let ?d = "Some (CD_code code)"
  have "soundex_sel en DICO_SELECT_RUN ((start_key strat kw)\<lparr>k_call_data := ?d, k_init := True\<rparr>) (Some w) =
      Some (of_bool (dico_soundex w = dico_soundex kw), (start_key strat kw)\<lparr>k_call_data := ?d, k_init := True\<rparr>)" if "soundable w" for w
    using that code by (auto simp: soundex_sel_def key_simps soundable_def)
  then show "\<exists>d. let key = (start_key strat kw)\<lparr>k_call_data := d\<rparr>; ikey = key\<lparr>k_init := True\<rparr> in
    selector_of en Soundex_sel DICO_SELECT_BEGIN (start_key strat kw) (Some kw) = Some (0, key) \<and>
    (\<forall>w. soundable w \<longrightarrow> selector_of en Soundex_sel DICO_SELECT_RUN ikey (Some w) = Some (of_bool (dico_soundex w = dico_soundex kw), ikey)) \<and>
    selector_of en Soundex_sel DICO_SELECT_END ikey None = Some (0, ikey)"
    using kw code by (intro exI [of _ ?d]) (simp add: key_simps selector_of_def soundex_sel_def)
qed

text \<open>The characters the Levenshtein strategies compare, by the flags in the closure.\<close>

definition lev_chars :: "select_fn strategy \<Rightarrow> bytes \<Rightarrow> wstring" where
  "lev_chars strat w = (if odd (s_closure strat) then ws_norm False (wide_of w) else wide_of w)"

definition within_distance :: "sel_env \<Rightarrow> select_fn strategy \<Rightarrow> bytes \<Rightarrow> bytes \<Rightarrow> bool" where
  "within_distance en strat kw w \<longleftrightarrow>
     (\<exists>n. edits (odd (s_closure strat div 2)) (lev_chars strat kw) (lev_chars strat w) n \<and> int n \<le> se_levdist en)"

lemma lev_conversion:
  "valid_word w \<Longrightarrow> \<exists>n. (if odd (s_closure strat) then utf8_mbstr_to_norm_wc else utf8_mbstr_to_wc) True w = Inr (lev_chars strat w, n)"
  using valid_facts(4) [of w] by (simp add: lev_chars_def utf8_mbstr_to_norm_wc_def utf8_mbstr_to_wc_def norm_wc_loop_decodes)

interpretation lev: deciding_selector en Lev_sel "\<lambda>strat kw. se_mem en \<and> valid_word kw \<and> lev_chars strat kw \<noteq> []" valid_word
  "within_distance en" for en
proof
  fix strat :: "select_fn strategy" and kw
  assume kw: "se_mem en \<and> valid_word kw \<and> lev_chars strat kw \<noteq> []"
  let ?ikey = "(start_key strat kw)\<lparr>k_init := True\<rparr>" and ?dam = "odd (s_closure strat div 2)"
  have "lev_sel en DICO_SELECT_RUN ?ikey (Some w) = Some (of_bool (within_distance en strat kw w), ?ikey)" if w: "valid_word w" for w
  proof -
    obtain n where n: "lev_wide ?dam (lev_chars strat kw) (lev_chars strat w) = Some n"
        "edits ?dam (lev_chars strat kw) (lev_chars strat w) n" "\<And>m. edits ?dam (lev_chars strat kw) (lev_chars strat w) m \<Longrightarrow> n \<le> m"
      using lev_wide_least kw by blast
    have "dico_levenshtein_distance (True, True, True) kw w (odd (s_closure strat)) ?dam = Some (int n)"
      using lev_conversion [of kw strat] lev_conversion [OF w, of strat] kw n(1) by (auto simp: dico_levenshtein_distance_def)
    moreover have "within_distance en strat kw w \<longleftrightarrow> int n \<le> se_levdist en"
      using n(2,3) by (fastforce simp: within_distance_def)
    ultimately show ?thesis using kw by (simp add: lev_sel_def key_simps)
  qed
  then show "\<exists>d. let key = (start_key strat kw)\<lparr>k_call_data := d\<rparr>; ikey = key\<lparr>k_init := True\<rparr> in
    selector_of en Lev_sel DICO_SELECT_BEGIN (start_key strat kw) (Some kw) = Some (0, key) \<and>
    (\<forall>w. valid_word w \<longrightarrow> selector_of en Lev_sel DICO_SELECT_RUN ikey (Some w) = Some (of_bool (within_distance en strat kw w), ikey)) \<and>
    selector_of en Lev_sel DICO_SELECT_END ikey None = Some (0, ikey)"
    by (intro exI [of _ None]) (simp add: key_simps selector_of_def lev_sel_def)
qed

text \<open>The selector of suffixes mixes up bytes and characters; on ASCII they are the same.\<close>

lemma ascii_wide: "ascii w \<Longrightarrow> valid_word w \<and> wide_of w = map ucast w"
  using ascii_encodes [of w] encodes_wide_of [of "map ucast w" w] by (simp add: valid_word_def)

lemma ascii_drop: "ascii w \<Longrightarrow> ascii (drop n w)"
  by (auto simp: ascii_def list_all_iff dest: in_set_dropD)

lemma drop_suffix: "n = length a \<Longrightarrow> (length a \<le> length b \<and> drop (length b - n) b = a) \<longleftrightarrow> suffix a b"
proof
  assume "n = length a" "length a \<le> length b \<and> drop (length b - n) b = a"
  then have "b = take (length b - n) b @ a" using append_take_drop_id [of "length b - n" b] by simp
  then show "suffix a b" by (metis suffix_def)
qed (auto simp: suffix_def)

interpretation sfx: deciding_selector en Suffix_sel "\<lambda>_ kw. se_mem en \<and> ascii kw" ascii "\<lambda>_ kw w. suffix (fold_word kw) (fold_word w)" for en
proof
  fix strat :: "select_fn strategy" and kw
  assume kw: "se_mem en \<and> ascii kw"
  let ?n = "length kw" and ?d = "Some (CD_suffix \<lparr>su_charlen = length kw, su_bytelen = length kw\<rparr>)"
  have k: "valid_word kw" "wide_of kw = map ucast kw" using ascii_wide [of kw] kw by auto
  have "suffix_sel en DICO_SELECT_RUN ((start_key strat kw)\<lparr>k_call_data := ?d, k_init := True\<rparr>) (Some w) =
      Some (of_bool (suffix (fold_word kw) (fold_word w)), (start_key strat kw)\<lparr>k_call_data := ?d, k_init := True\<rparr>)" if w: "ascii w" for w
  proof -
    let ?t = "drop (length w - ?n) w"
    have t: "valid_word ?t" "wide_of ?t = map ucast ?t" "wide_of w = map ucast w"
      using ascii_wide [OF ascii_drop [OF w]] ascii_wide [OF w] by auto
    have f: "fold_word ?t = drop (length (fold_word w) - ?n) (fold_word w)" "length (fold_word kw) = ?n" "length (fold_word w) = length w"
      using t k(2) by (simp_all add: fold_word_def utf8_wc_strupper_def drop_map)
    show ?thesis
      using compare_beginnings [OF t(1) k(1), of ?n] drop_suffix [of ?n "fold_word kw" "fold_word w"] f
      by (cases "?n \<le> length w") (auto simp: suffix_sel_def key_simps Let_def)
  qed
  then show "\<exists>d. let key = (start_key strat kw)\<lparr>k_call_data := d\<rparr>; ikey = key\<lparr>k_init := True\<rparr> in
    selector_of en Suffix_sel DICO_SELECT_BEGIN (start_key strat kw) (Some kw) = Some (0, key) \<and>
    (\<forall>w. ascii w \<longrightarrow> selector_of en Suffix_sel DICO_SELECT_RUN ikey (Some w) = Some (of_bool (suffix (fold_word kw) (fold_word w)), ikey)) \<and>
    selector_of en Suffix_sel DICO_SELECT_END ikey None = Some (0, ikey)"
    using kw valid_facts(3) [OF k(1)] k(2) by (intro exI [of _ ?d]) (simp add: key_simps selector_of_def suffix_sel_def)
qed

section \<open>What the strategies find\<close>

definition key_fit :: "select_fn strategy \<Rightarrow> select_fn \<Rightarrow> bytes \<Rightarrow> bool" where
  "key_fit strat f kw =
     (case f of
        Exact_sel \<Rightarrow> valid_word kw | Prefix_sel \<Rightarrow> valid_word kw | Substr_sel \<Rightarrow> valid_word kw | Suffix_sel \<Rightarrow> ascii kw
      | Soundex_sel \<Rightarrow> soundable kw | Lev_sel \<Rightarrow> valid_word kw \<and> lev_chars strat kw \<noteq> [] | All_sel \<Rightarrow> True | _ \<Rightarrow> False)"

definition word_fit :: "select_fn \<Rightarrow> bytes \<Rightarrow> bool" where
  "word_fit f w = (case f of Suffix_sel \<Rightarrow> ascii w | Soundex_sel \<Rightarrow> soundable w | _ \<Rightarrow> True)"

definition meaning :: "sel_env \<Rightarrow> select_fn strategy \<Rightarrow> select_fn \<Rightarrow> bytes \<Rightarrow> bytes \<Rightarrow> bool" where
  "meaning en strat f kw w =
     (case f of
        Exact_sel \<Rightarrow> fold_word w = fold_word kw | Prefix_sel \<Rightarrow> prefix (fold_word kw) (fold_word w)
      | Suffix_sel \<Rightarrow> suffix (fold_word kw) (fold_word w) | Substr_sel \<Rightarrow> sublist (fold_word kw) (fold_word w)
      | Soundex_sel \<Rightarrow> dico_soundex w = dico_soundex kw | Lev_sel \<Rightarrow> within_distance en strat kw w | _ \<Rightarrow> True)"

lemma selector_contract:
  assumes "se_mem en" "key_fit strat f kw"
  shows "\<exists>ok valid means. deciding_selector en f ok valid means \<and> ok strat kw \<and>
    (\<forall>w. valid_word w \<longrightarrow> word_fit f w \<longrightarrow> valid w) \<and> means strat kw = meaning en strat f kw"
proof (cases f)
  case Exact_sel
  with assms exact.deciding_selector_axioms [of en] show ?thesis
    by (intro exI [of _ "\<lambda>_. valid_word"] exI [of _ valid_word] exI) (auto simp: key_fit_def meaning_def)
next
  case Prefix_sel
  with assms pfx.deciding_selector_axioms [of en] show ?thesis
    by (intro exI [of _ "\<lambda>_. valid_word"] exI [of _ valid_word] exI) (auto simp: key_fit_def meaning_def)
next
  case Suffix_sel
  with assms sfx.deciding_selector_axioms [of en] show ?thesis
    by (intro exI [of _ "\<lambda>_ kw. se_mem en \<and> ascii kw"] exI [of _ ascii] exI) (auto simp: key_fit_def word_fit_def meaning_def)
next
  case Soundex_sel
  with assms sound.deciding_selector_axioms [of en] show ?thesis
    by (intro exI [of _ "\<lambda>_ kw. se_mem en \<and> soundable kw"] exI [of _ soundable] exI) (auto simp: key_fit_def word_fit_def meaning_def)
next
  case Lev_sel
  with assms lev.deciding_selector_axioms [of en] show ?thesis
    by (intro exI [of _ "\<lambda>strat kw. se_mem en \<and> valid_word kw \<and> lev_chars strat kw \<noteq> []"] exI [of _ valid_word] exI)
      (auto simp: key_fit_def meaning_def)
next
  case Substr_sel
  with assms substring.deciding_selector_axioms [of en] show ?thesis
    by (intro exI [of _ "\<lambda>_ kw. se_mem en \<and> valid_word kw"] exI [of _ valid_word] exI) (auto simp: key_fit_def meaning_def)
next
  case All_sel
  with everything.deciding_selector_axioms [of en] show ?thesis
    by (intro exI [of _ "\<lambda>_ _. True"] exI [of _ "\<lambda>_. True"] exI) (auto simp: meaning_def)
qed (use assms in \<open>simp_all add: key_fit_def\<close>)


definition sample_env :: sel_env where
  "sample_env = \<lparr>se_mem = True, se_unset = 0, se_levdist = 1\<rparr>"


text \<open>A headword with a character of two bytes is not found by its own suffix.\<close>

theorem suffix_of_multibyte_missed:
  assumes "se_mem en"
  shows "\<exists>key. suffix_sel en DICO_SELECT_BEGIN (start_key strat [0xc3, 0xa9]) (Some [0xc3, 0xa9]) = Some (0, key) \<and>
    suffix_sel en DICO_SELECT_RUN key (Some [0xc3, 0xa9]) = Some (0, key)"
proof -
  have "utf8_strlen [0xc3, 0xa9] = Some 1"
    by (simp add: utf8_strlen.simps utf8_char_width_def chr_at_def Let_def)
  then show ?thesis
    using assms by (simp add: suffix_sel_def key_simps casecmp_step_def utf8_char_width_def chr_at_def Let_def)
qed

section \<open>Pages of prefix matches\<close>

text \<open>The answers of the selector \<^verbatim>\<open>nprefix\<close> to a sequence of words.\<close>

fun nprefix_scan :: "sel_env \<Rightarrow> nprefix \<Rightarrow> bytes list \<Rightarrow> (bool list \<times> nprefix) option" where
  "nprefix_scan en np [] = Some ([], np)"
| "nprefix_scan en np (w # ws) = do {
     (r, np) \<leftarrow> nprefix_run en np w;
     (rs, np) \<leftarrow> nprefix_scan en np ws;
     Some ((r \<noteq> 0) # rs, np) }"

definition chosen :: "'a list \<Rightarrow> bool list \<Rightarrow> 'a list" where
  "chosen xs rs = map fst (filter snd (zip xs rs))"

lemma chosen_simps [simp]: "chosen [] rs = []" "chosen (x # xs) (r # rs) = (if r then x # chosen xs rs else chosen xs rs)"
  by (simp_all add: chosen_def)

lemma map_chosen: "map g (chosen xs rs) = chosen (map g xs) rs"
proof (induction xs arbitrary: rs)
  case (Cons x xs)
  then show ?case by (cases rs) (auto simp: chosen_def)
qed simp

text \<open>The keys of the matches that are still to come, equal neighbours counted once.\<close>

definition upcoming :: "nprefix \<Rightarrow> bytes list \<Rightarrow> wstring list" where
  "upcoming np ws =
     (let ks = map fold_word (filter (\<lambda>w. prefix (fold_word (np_prefix np)) (fold_word w)) ws) in
      case np_last_match_str np of None \<Rightarrow> remdups_adj ks | Some l \<Rightarrow> tl (remdups_adj (fold_word l # ks)))"

definition np_ok :: "nprefix \<Rightarrow> bool" where
  "np_ok np \<longleftrightarrow> np_lim np \<and> valid_word (np_prefix np) \<and> np_pfxlen np = length (wide_of (np_prefix np)) \<and>
     pred_option valid_word (np_last_match_str np) \<and> unat (np_skip np) + unat (np_count np) < 2 ^ 64 - 1 \<and>
     unat (np_n np) \<le> unat (np_skip np) + unat (np_count np) + 1"

lemma np_limits:
  assumes "np_ok np"
  shows "np_n np > np_skip np + np_count np \<longleftrightarrow> unat (np_n np) > unat (np_skip np) + unat (np_count np)"
    "unat (np_n np) \<le> unat (np_skip np) + unat (np_count np) \<Longrightarrow> unat (np_n np + 1) = unat (np_n np) + 1"
    "unat (np_skip np + np_count np) = unat (np_skip np) + unat (np_count np)"
proof -
  have "unat (np_skip np) + unat (np_count np) < 2 ^ LENGTH(64)" using assms by (simp add: np_ok_def)
  then show s: "unat (np_skip np + np_count np) = unat (np_skip np) + unat (np_count np)" by (rule unat_add_lem [THEN iffD1])
  then show "np_n np > np_skip np + np_count np \<longleftrightarrow> unat (np_n np) > unat (np_skip np) + unat (np_count np)"
    by (simp add: word_less_nat_alt)
  assume "unat (np_n np) \<le> unat (np_skip np) + unat (np_count np)"
  then have "unat (np_n np) + unat (1 :: 64 word) < 2 ^ LENGTH(64)" using assms by (simp add: np_ok_def)
  then have "unat (np_n np + 1) = unat (np_n np) + unat (1 :: 64 word)" by (rule unat_add_lem [THEN iffD1])
  then show "unat (np_n np + 1) = unat (np_n np) + 1" by simp
qed

text \<open>One word: it is a repetition, past the page, no match, or the next match.\<close>

lemma nprefix_run_cases:
  assumes ok: "np_ok np" and w: "valid_word w" and mem: "se_mem en"
  shows "(nprefix_run en np w = Some (0, np) \<and>
      (unat (np_n np) > unat (np_skip np) + unat (np_count np) \<or> upcoming np (w # ws) = upcoming np ws)) \<or>
    (\<exists>np'. unat (np_n np) \<le> unat (np_skip np) + unat (np_count np) \<and>
      nprefix_run en np w = Some (of_bool (unat (np_n np) \<ge> unat (np_skip np) \<and> unat (np_n np) < unat (np_skip np) + unat (np_count np)), np') \<and>
      np_ok np' \<and> np_skip np' = np_skip np \<and> np_count np' = np_count np \<and> unat (np_n np') = Suc (unat (np_n np)) \<and>
      upcoming np (w # ws) = fold_word w # upcoming np' ws)"
proof -
  let ?same = "case np_last_match_str np of None \<Rightarrow> False | Some l \<Rightarrow> fold_word w = fold_word l"
  have p: "valid_word (np_prefix np)" "np_pfxlen np = length (wide_of (np_prefix np))" "np_lim np" using ok by (simp_all add: np_ok_def)
  have same: "(case np_last_match_str np of None \<Rightarrow> Some False | Some l \<Rightarrow> map_option (\<lambda>r. r = 0) (utf8_strcasecmp w l)) = Some ?same"
    using ok compare_words [OF w] by (fastforce simp: np_ok_def split: option.splits)
  obtain r where r: "(if length (wide_of w) \<ge> np_pfxlen np then utf8_strncasecmp w (np_prefix np) (np_pfxlen np) else Some 1) = Some r"
      "r = 0 \<longleftrightarrow> prefix (fold_word (np_prefix np)) (fold_word w)"
    using beginning_test [OF w p(1)] unfolding p(2) by blast
  consider "?same" | "unat (np_n np) > unat (np_skip np) + unat (np_count np)" | "r \<noteq> 0"
    | "\<not> ?same" "unat (np_n np) \<le> unat (np_skip np) + unat (np_count np)" "r = 0" by linarith
  then show ?thesis
  proof cases
    case 1
    then have "upcoming np (w # ws) = upcoming np ws" by (auto simp: upcoming_def Let_def split: option.splits)
    moreover have "nprefix_run en np w = Some (0, np)" using 1 same by (simp add: nprefix_run_def)
    ultimately show ?thesis by blast
  next
    case 2
    then have "nprefix_run en np w = Some (0, np)" using same np_limits(1) [OF ok] p(3) by (simp add: nprefix_run_def)
    with 2 show ?thesis by blast
  next
    case 3
    then have "upcoming np (w # ws) = upcoming np ws" using r(2) by (simp add: upcoming_def)
    moreover have "nprefix_run en np w = Some (0, np)" using 3 same r(1) valid_facts(3) [OF w] by (simp add: nprefix_run_def)
    ultimately show ?thesis by blast
  next
    case 4
    let ?np = "np\<lparr>np_last_match_len := max (np_last_match_len np) (length w + 1), np_last_match_str := Some w, np_n := np_n np + 1\<rparr>"
    have n: "unat (np_n ?np) = Suc (unat (np_n np))" using np_limits(2) [OF ok 4(2)] by simp
    have "upcoming np (w # ws) = fold_word w # upcoming ?np ws"
      using 4(1,3) r(2) by (auto simp: upcoming_def Let_def remdups_adj_Cons split: option.splits list.splits)
    moreover have "np_ok ?np" using ok n 4(2) w by (simp add: np_ok_def)
    moreover have "nprefix_run en np w = Some (of_bool (unat (np_n np) \<ge> unat (np_skip np) \<and> unat (np_n np) < unat (np_skip np) + unat (np_count np)), ?np)"
      using 4 same r(1) valid_facts(3) [OF w] mem np_limits(1) [OF ok] p(3) n np_limits(3) [OF ok]
      by (simp add: nprefix_run_def Let_def word_less_nat_alt word_le_nat_alt less_Suc_eq_le Suc_le_eq)
    ultimately show ?thesis using 4(2) n by auto
  qed
qed

lemma nprefix_scan_page:
  "np_ok np \<Longrightarrow> list_all valid_word ws \<Longrightarrow> se_mem en \<Longrightarrow>
   \<exists>rs np'. nprefix_scan en np ws = Some (rs, np') \<and> length rs = length ws \<and>
     map fold_word (chosen ws rs) =
       drop (unat (np_skip np) - unat (np_n np)) (take (unat (np_skip np) + unat (np_count np) - unat (np_n np)) (upcoming np ws))"
proof (induction ws arbitrary: np)
  case Nil
  then show ?case by (simp add: upcoming_def split: option.split)
next
  case (Cons w ws)
  have w: "valid_word w" "list_all valid_word ws" using Cons.prems(2) by simp_all
  let ?s = "unat (np_skip np)" and ?c = "unat (np_count np)" and ?n = "unat (np_n np)"
  from nprefix_run_cases [OF Cons.prems(1) w(1) Cons.prems(3), of ws] show ?case
  proof (elim disjE exE conjE)
    assume r: "nprefix_run en np w = Some (0, np)" and u: "?n > ?s + ?c"
    with Cons.IH [OF Cons.prems(1) w(2) Cons.prems(3)] show ?thesis by auto
  next
    assume r: "nprefix_run en np w = Some (0, np)" and u: "upcoming np (w # ws) = upcoming np ws"
    with Cons.IH [OF Cons.prems(1) w(2) Cons.prems(3)] show ?thesis by auto
  next
    fix np'
    assume n: "?n \<le> ?s + ?c" and r: "nprefix_run en np w = Some (of_bool (?n \<ge> ?s \<and> ?n < ?s + ?c), np')"
      and ok: "np_ok np'" "np_skip np' = np_skip np" "np_count np' = np_count np" "unat (np_n np') = Suc ?n"
      and u: "upcoming np (w # ws) = fold_word w # upcoming np' ws"
    obtain rs np'' where s: "nprefix_scan en np' ws = Some (rs, np'')" "length rs = length ws"
        "map fold_word (chosen ws rs) = drop (?s - Suc ?n) (take (?s + ?c - Suc ?n) (upcoming np' ws))"
      using Cons.IH [OF ok(1) w(2) Cons.prems(3)] ok by auto
    have "drop (?s - ?n) (take (?s + ?c - ?n) (fold_word w # upcoming np' ws)) =
        (if ?n \<ge> ?s \<and> ?n < ?s + ?c then [fold_word w] else []) @ drop (?s - Suc ?n) (take (?s + ?c - Suc ?n) (upcoming np' ws))"
    proof (cases "?n < ?s")
      case True
      then have "?s - ?n = Suc (?s - Suc ?n)" "?s + ?c - ?n = Suc (?s + ?c - Suc ?n)" by simp_all
      with True show ?thesis by simp
    next
      case False
      then show ?thesis by (cases "?n < ?s + ?c") (simp_all add: Suc_diff_Suc [symmetric])
    qed
    with r s u show ?thesis by auto
  qed
qed

text \<open>The argument of the strategy, and the loop of the search.\<close>

lemma strtoul10_digits:
  assumes "ds \<noteq> []" "list_all c_isdigit ds" "dec_digits 0 ds < 2 ^ 64" "\<not> c_isdigit c"
  shows "strtoul10 (ds @ c # r) = (of_nat (dec_digits 0 ds), c # r)"
proof -
  obtain d ds' where d: "ds = d # ds'" "c_isdigit d" using assms(1,2) by (cases ds) auto
  have "\<not> c_isspace d \<and> d \<noteq> 0x2d \<and> d \<noteq> 0x2b"
    using d(2) by (auto simp: c_isdigit_def c_isspace_def word_le_nat_alt)
  then have "dropWhile c_isspace (ds @ c # r) = ds @ c # r" "hd (ds @ c # r) \<noteq> 0x2d" "hd (ds @ c # r) \<noteq> 0x2b" using d(1) by simp_all
  moreover have "takeWhile c_isdigit (ds @ c # r) = ds" "dropWhile c_isdigit (ds @ c # r) = c # r"
    using assms(2,4) by (auto simp: list_all_iff takeWhile_append2 dropWhile_append2)
  ultimately show ?thesis using assms(1,3) by (simp add: strtoul10_def Let_def)
qed

definition page_key :: "bytes \<Rightarrow> bytes \<Rightarrow> bytes \<Rightarrow> bytes" where
  "page_key skip cnt pfx = skip @ 0x23 # cnt @ 0x23 # pfx"

definition page_number :: "bytes \<Rightarrow> bool" where
  "page_number ds \<longleftrightarrow> ds \<noteq> [] \<and> list_all c_isdigit ds"

lemma nprefix_parse_page:
  assumes "page_number skip" "page_number cnt" "valid_word pfx" "dec_digits 0 skip + dec_digits 0 cnt < 2 ^ 64 - 1"
  shows "\<exists>np. nprefix_parse (page_key skip cnt pfx) = Some np \<and> np_ok np \<and> np_prefix np = pfx \<and> np_n np = 0 \<and>
    np_last_match_str np = None \<and> unat (np_skip np) = dec_digits 0 skip \<and> unat (np_count np) = dec_digits 0 cnt"
proof -
  have h: "\<not> c_isdigit 0x23" by (simp add: c_isdigit_def)
  have "strtoul10 (page_key skip cnt pfx) = (of_nat (dec_digits 0 skip), 0x23 # cnt @ 0x23 # pfx)"
    "strtoul10 (cnt @ 0x23 # pfx) = (of_nat (dec_digits 0 cnt), 0x23 # pfx)"
    using assms(1,2,4) h by (auto simp: page_number_def page_key_def intro!: strtoul10_digits)
  moreover have "unat (of_nat (dec_digits 0 skip) :: 64 word) = dec_digits 0 skip" "unat (of_nat (dec_digits 0 cnt) :: 64 word) = dec_digits 0 cnt"
    using assms(4) by (auto simp: unsigned_of_nat take_bit_nat_eq_self)
  ultimately show ?thesis
    using assms(3,4) valid_facts(3) [OF assms(3)] by (auto simp: nprefix_parse_def Let_def np_ok_def)
qed

lemma nprefix_loop:
  "list_all (\<lambda>e. valid_word (ie_word e)) es \<Longrightarrow> k_init key \<Longrightarrow> k_strat key = Some strat \<Longrightarrow> s_sel strat = Some Nprefix_sel \<Longrightarrow>
   k_call_data key = Some (CD_nprefix np) \<Longrightarrow>
   nprefix_scan en np (map ie_word (filter (\<lambda>e. \<not> RESERVED_WORD db (ie_word e)) es)) = Some (rs, np') \<Longrightarrow>
   append_entries True l (chosen (filter (\<lambda>e. \<not> RESERVED_WORD db (ie_word e)) es) rs) 0 = Some (l', n) \<Longrightarrow>
   match_all_loop (run_select en) db key True l es = Some (set_data key (CD_nprefix np'), True, l')"
proof (induction es arbitrary: key np l n rs)
  case Nil
  then have "set_data key (CD_nprefix np) = key" by simp
  with Nil show ?case by simp
next
  case (Cons e es)
  show ?case
  proof (cases "RESERVED_WORD db (ie_word e)")
    case True
    with Cons show ?thesis by simp
  next
    case False
    with Cons.prems(6) obtain r np1 rs1 where r: "nprefix_run en np (ie_word e) = Some (r, np1)"
        "nprefix_scan en np1 (map ie_word (filter (\<lambda>e. \<not> RESERVED_WORD db (ie_word e)) es)) = Some (rs1, np')" "rs = (r \<noteq> 0) # rs1"
      by (auto simp: bind_eq_Some_conv)
    let ?key = "set_data key (CD_nprefix np1)"
    have m: "dico_key_match (run_select en) (Some key) (Some (ie_word e)) True = Some (Inr (r, Some ?key, True))"
      using Cons.prems(2-5) r(1) by (simp add: dico_key_match_def run_select_def selector_of_def nprefix_sel_def)
    have ih: "match_all_loop (run_select en) db ?key True l1 es = Some (set_data key (CD_nprefix np'), True, l')"
      if "append_entries True l1 (chosen (filter (\<lambda>e. \<not> RESERVED_WORD db (ie_word e)) es) rs1) 0 = Some (l', n1)" for l1 n1
      using Cons.IH [of ?key np1 rs1 l1 n1] Cons.prems(1-4) r(2) that by simp
    show ?thesis
    proof (cases "r = 0")
      case True
      with ih [of l n] Cons.prems(7) r(3) m False show ?thesis by simp
    next
      case ne: False
      with Cons.prems(7) r(3) False obtain l1 k n1 where a: "append_entries True l [e] 0 = Some (l1, k)"
          "append_entries True l1 (chosen (filter (\<lambda>e. \<not> RESERVED_WORD db (ie_word e)) es) rs1) 0 = Some (l', n1)"
        using append_entries_step [of l e "chosen (filter (\<lambda>e. \<not> RESERVED_WORD db (ie_word e)) es) rs1"]
        by (auto simp: bind_eq_Some_conv simp del: append_entries.simps)
      with ih [OF a(2)] m ne False show ?thesis by (simp del: append_entries.simps)
    qed
  qed
qed

lemma remdups_adj_slice: "remdups_adj (take c (drop s (remdups_adj xs))) = take c (drop s (remdups_adj xs))"
proof -
  have "successively (\<noteq>) (take c (drop s (remdups_adj xs)))"
    using distinct_adj_remdups_adj [of xs] by (metis distinct_adj_def successively_append_iff append_take_drop_id)
  then show ?thesis by (metis distinct_adj_altdef distinct_adj_def)
qed

text \<open>
  C9: A search with the strategy \<^verbatim>\<open>nprefix\<close> and the argument \<open>skip#count#prefix\<close> returns a page of the
  headwords that begin with the prefix: of these headwords, equal neighbours counted once, the
  first \<open>skip\<close> are left out and at most \<open>count\<close> follow.
\<close>

theorem nprefix_page:
  assumes strat: "s_sel strat = Some Nprefix_sel" and mem: "se_mem en" and index: "list_all entry_ok (dd_index db)"
    and key: "page_number skip" "page_number cnt" "valid_word pfx" "dec_digits 0 skip + dec_digits 0 cnt < 2 ^ 64 - 1"
  shows "\<exists>l. match_all (run_select en) db strat (page_key skip cnt pfx) True =
      Some (True, if l = [] then None
        else Some \<lparr>dr_type = result_match, dr_compare_count = length (dd_index db), dr_list = l\<rparr>) \<and>
    set l \<subseteq> set (dd_index db) \<and>
    map fold_key l = take (dec_digits 0 cnt) (drop (dec_digits 0 skip)
      (remdups_adj (map fold_key (selected db (\<lambda>w. prefix (fold_word pfx) (fold_word w))))))"
proof -
  obtain np where np: "nprefix_parse (page_key skip cnt pfx) = Some np" "np_ok np" "np_prefix np = pfx" "np_n np = 0"
      "np_last_match_str np = None" "unat (np_skip np) = dec_digits 0 skip" "unat (np_count np) = dec_digits 0 cnt"
    using nprefix_parse_page [OF key] by blast
  let ?es = "filter (\<lambda>e. \<not> RESERVED_WORD db (ie_word e)) (dd_index db)"
  let ?page = "take (dec_digits 0 cnt) (drop (dec_digits 0 skip)
      (remdups_adj (map fold_key (selected db (\<lambda>w. prefix (fold_word pfx) (fold_word w))))))"
  have v: "list_all (\<lambda>e. valid_word (ie_word e)) (dd_index db)" "list_all valid_word (map ie_word ?es)"
    using index by (auto simp: list_all_iff entry_ok_def valid_word_def)
  obtain rs np' where rs: "nprefix_scan en np (map ie_word ?es) = Some (rs, np')" "length rs = length ?es"
      "map fold_word (chosen (map ie_word ?es) rs) =
       drop (dec_digits 0 skip) (take (dec_digits 0 skip + dec_digits 0 cnt) (upcoming np (map ie_word ?es)))"
    using nprefix_scan_page [OF np(2) v(2) mem] np(4,6,7) by auto
  have "upcoming np (map ie_word ?es) = remdups_adj (map fold_key (selected db (\<lambda>w. prefix (fold_word pfx) (fold_word w))))"
    using np(3,5) by (simp add: upcoming_def selected_def filter_map comp_def fold_key_def [abs_def] conj_commute)
  then have page: "map fold_key (chosen ?es rs) = ?page"
    using rs(3) by (simp add: map_chosen comp_def fold_key_def [abs_def] drop_take)
  have "set (chosen ?es rs) \<subseteq> set ?es" by (auto simp: chosen_def dest: set_zip_leftD)
  then have c: "set (chosen ?es rs) \<subseteq> set (dd_index db)" "list_all entry_ok (chosen ?es rs)"
    using index by (auto simp: list_all_iff)
  obtain l n where l: "append_entries True [] (chosen ?es rs) 0 = Some (l, n)" "set l \<subseteq> set (chosen ?es rs)"
      "map fold_key l = remdups_adj (map fold_key (chosen ?es rs))"
    using append_entries_unique [of "[]" "chosen ?es rs" 0] c(2) by auto
  have "map fold_key l = ?page" unfolding l(3) page by (rule remdups_adj_slice)
  note l = l(1,2) this
  let ?key = "set_data (start_key strat (page_key skip cnt pfx)) (CD_nprefix np)\<lparr>k_init := True\<rparr>"
  have "dico_key_init (run_select en) strat (page_key skip cnt pfx) True = (0, ?key, True)"
    using strat np(1) mem by (simp add: dico_key_init_def run_select_def selector_of_def nprefix_sel_def start_key_def)
  moreover have "match_all_loop (run_select en) db ?key True [] (dd_index db) = Some (set_data ?key (CD_nprefix np'), True, l)"
    by (rule nprefix_loop [OF v(1) _ _ strat _ rs(1) l(1)]) (simp_all add: start_key_def)
  moreover have "dico_key_deinit (run_select en) (set_data ?key (CD_nprefix np')) True = Some (zero_key, True)"
    using strat by (simp add: dico_key_deinit_def run_select_def selector_of_def nprefix_sel_def start_key_def)
  ultimately show ?thesis using l(2,3) c(1) by (auto simp: match_all_def)
qed

theorem nprefix_page_witness:
  "\<exists>l. match_all (run_select sample_env) letters nprefix_strat (str ''1#1#'') True =
     Some (True, Some \<lparr>dr_type = result_match, dr_compare_count = 3, dr_list = l\<rparr>) \<and> map fold_key l = [[0x42]]"
proof -
  have n: "page_number [0x31]" by (simp add: page_number_def c_isdigit_def)
  have e: "valid_word []" "fold_word [] = []"
    by (simp_all add: valid_word_def encodes_def wide_of_def mbstr_to_wc_loop.simps wide_ok_def fold_word_def utf8_wc_strupper_def)
  have "selected letters (\<lambda>w. prefix (fold_word []) (fold_word w)) = dd_index letters" by (simp add: selected_def letters_ok(2) e(2))
  moreover have "list_all entry_ok (dd_index letters)" using letters_ok(1) by (simp add: index_ok_def)
  moreover have "page_key [0x31] [0x31] [] = str ''1#1#''" by (simp add: page_key_def)
  ultimately show ?thesis
    using nprefix_page [of nprefix_strat sample_env letters "[0x31]" "[0x31]" "[]"] n e(1)
    by (auto simp: nprefix_strat_def select_strat_def sample_env_def letters_ok split: if_splits)
qed

section \<open>Words in headwords\<close>

text \<open>The words a headword is made of, as the tokenizer sees them.\<close>

definition words_in :: "bytes \<Rightarrow> bytes list \<Rightarrow> bool" where
  "words_in w ts \<longleftrightarrow> (\<exists>items trail. line_ok True items \<and> (\<forall>c\<in>set trail. blank c) \<and> w = concat (line_chars items trail) \<and>
     ts = line_words items \<and> list_all valid_word ts)"

lemma those_Some: "those xs = Some ys \<Longrightarrow> xs = map Some ys"
  by (induction xs arbitrary: ys) (auto split: option.splits)

lemma word_scan_ok:
  assumes "\<And>i. i \<in> set is \<Longrightarrow> tkn_read tb i = Some (ts ! i) \<and> valid_word (ts ! i)" "valid_word kw"
  shows "word_scan kw tb is = Some (of_bool (\<exists>i\<in>set is. fold_word (ts ! i) = fold_word kw))"
  using assms(1)
proof (induction "is")
  case (Cons i "is")
  then have i: "tkn_read tb i = Some (ts ! i)" "valid_word (ts ! i)" by simp_all
  with Cons compare_words [OF i(2) assms(2)] show ?case by auto
qed simp

theorem word_selectors:
  assumes w: "words_in w ts" and kw: "k_word key = Some kw" "valid_word kw" and mem: "se_mem en"
  shows "word_sel en DICO_SELECT_RUN key (Some w) = Some (of_bool (\<exists>t\<in>set ts. fold_word t = fold_word kw), key) \<and>
    first_sel en DICO_SELECT_RUN key (Some w) = Some (of_bool (ts \<noteq> [] \<and> fold_word (hd ts) = fold_word kw), key) \<and>
    last_sel en DICO_SELECT_RUN key (Some w) = Some (of_bool (ts \<noteq> [] \<and> fold_word (last ts) = fold_word kw), key)"
proof -
  obtain items trail where l: "line_ok True items" "\<forall>c\<in>set trail. blank c" "w = concat (line_chars items trail)" "ts = line_words items"
      "list_all valid_word ts" using w by (auto simp: words_in_def)
  have "tb_ok dico_tokenize_begin" "tb_tokc dico_tokenize_begin = 0" "tb_level dico_tokenize_begin = 0"
    by (simp_all add: tb_ok_def dico_tokenize_begin_def)
  then obtain tb where tb: "dico_tokenize_string (\<lambda>_. True) True (se_unset en) dico_tokenize_begin w = Some (tb, None)" "tkn_tokens tb = Some ts"
    using tokenize_string_ok [of dico_tokenize_begin "\<lambda>_. True" items trail "se_unset en"] l by auto
  have t: "tb_tokc tb = length ts" "\<And>i. i < length ts \<Longrightarrow> tkn_read tb i = Some (ts ! i) \<and> valid_word (ts ! i)"
  proof -
    have m: "map (tkn_read tb) [0..<tb_tokc tb] = map Some ts" using tb(2) those_Some by (simp add: tkn_tokens_def)
    then show c: "tb_tokc tb = length ts" by (metis length_map length_upt diff_zero)
    show "tkn_read tb i = Some (ts ! i) \<and> valid_word (ts ! i)" if "i < length ts" for i
    proof -
      have "map (tkn_read tb) [0..<tb_tokc tb] ! i = map Some ts ! i" by (simp only: m)
      then show ?thesis using c that l(5) by (simp add: list_all_length)
    qed
  qed
  have "word_scan kw tb [0..<length ts] = Some (of_bool (\<exists>t\<in>set ts. fold_word t = fold_word kw))"
    using word_scan_ok [of "[0..<length ts]" tb ts kw] t(2) kw(2) by (auto simp: in_set_conv_nth Bex_def)
  moreover have "word_scan kw tb (if length ts \<noteq> 0 then [0] else []) = Some (of_bool (ts \<noteq> [] \<and> fold_word (hd ts) = fold_word kw))"
    using word_scan_ok [of "[0]" tb ts kw] t(2) [of 0] kw(2) by (cases ts) (auto simp del: word_scan.simps(2))
  moreover have "word_scan kw tb (if length ts \<noteq> 0 then [length ts - 1] else []) = Some (of_bool (ts \<noteq> [] \<and> fold_word (last ts) = fold_word kw))"
    using word_scan_ok [of "[length ts - 1]" tb ts kw] t(2) [of "length ts - 1"] kw(2)
    by (cases "ts = []") (auto simp: last_conv_nth simp del: word_scan.simps(2))
  ultimately show ?thesis using tb(1) t(1) kw(1) mem 
    by (cases "ts = []") (simp_all add: word_sel_def first_sel_def last_sel_def tokens_sel_def del: word_scan.simps(2))
qed

end
