(* ===== verification/Spec2Isabelle.thy ===== *)
theory Spec2Isabelle
  imports Dico_List_Props Dico_Assoc Dico_Strat Dico_Utf8_Props Dico_Lev Dico_Filter_Props
    Dico_Tokenize_Props Dico_Session_Props Dico_Select_Props
begin

text \<open>
  GNU Dico is a dictionary server for the DICT protocol (\<^verbatim>\<open>dicod\<close>), a client (\<^verbatim>\<open>dico\<close>), a library
  both use (\<^verbatim>\<open>lib\<close>) and loadable modules that provide databases and match strategies
  (\<^verbatim>\<open>modules\<close>). This development models the library's data structures, codecs, streams and text
  functions, the core of the server and the module for dictionaries in the format of dict.org, and proves the properties that the rest relies on.

  \<^bold>\<open>How the parts work together.\<close> The server reads a line from the client through a stack of
  streams (\<^verbatim>\<open>lib/fdstream.c\<close>, \<^verbatim>\<open>iostr.c\<close>, \<^verbatim>\<open>crlfstr.c\<close> over the buffering of \<^verbatim>\<open>stream.c\<close>), splits it
  into words (\<^verbatim>\<open>tokenize.c\<close>), expands aliases and finds the handler of the command
  (\<^verbatim>\<open>dicod/alias.c\<close>, \<^verbatim>\<open>commands.c\<close>, \<^verbatim>\<open>capa.c\<close>). A search asks the modules of the databases the
  client may see (\<^verbatim>\<open>dicod/loader.c\<close>, \<^verbatim>\<open>acl.c\<close>, \<^verbatim>\<open>lang.c\<close>) with a match strategy
  (\<^verbatim>\<open>lib/strat.c\<close>, \<^verbatim>\<open>key.c\<close>); the answer goes back through a reply stream (\<^verbatim>\<open>dicod/ostream.c\<close>) that
  doubles dots at the beginning of lines and can encode the text (\<^verbatim>\<open>base64.c\<close>, \<^verbatim>\<open>qp.c\<close>,
  \<^verbatim>\<open>fltstream.c\<close>, \<^verbatim>\<open>linetrimstr.c\<close>). Registries and results are kept in lists
  (\<^verbatim>\<open>lib/list.c\<close>, \<^verbatim>\<open>assoc.c\<close>); words are compared as UTF-8 (\<^verbatim>\<open>utf8.c\<close>).

  \<^bold>\<open>Conventions.\<close> \<open>Dico_Prelude\<close> holds the machine types, error codes and the functions of the C
  library that the code uses. A C string is the list of its bytes before the NUL. The outer
  \<open>None\<close> of a result is undefined behaviour (a bad pointer, an access outside a buffer, a loop
  that does not end, or the end of the program where a comment says so); errors that the code
  reports are values. Loops that may run forever are \<open>partial_function\<close>s, so that returning is a
  theorem and not an assumption; no fuel is used anywhere. Memory is allocated or not according
  to a budget or a predicate that is a parameter.

  \<^bold>\<open>Theories and sources.\<close>
  \<^item> \<open>Dico_List\<close>, \<open>Dico_List_Props\<close>: \<^verbatim>\<open>lib/list.c\<close> over an explicit store of entries, with its
    iterators. The locales \<open>item_store\<close> and \<open>keyed_store\<close> state what clients rely on; the
    theorems relate every operation to the operation on lists it stands for.
  \<^item> \<open>Dico_Assoc\<close>: \<^verbatim>\<open>lib/assoc.c\<close> on these lists. \<open>Dico_Strat\<close>: the registries \<^verbatim>\<open>lib/strat.c\<close> and
    \<^verbatim>\<open>lib/markup.c\<close>, and search keys \<^verbatim>\<open>lib/key.c\<close>; invariants of the registry by rule induction.
  \<^item> \<open>Dico_Utf8_Tables\<close>, \<open>Dico_Utf8\<close>, \<open>Dico_Utf8_Props\<close>: \<^verbatim>\<open>lib/utf8.c\<close> with its case tables;
    round trips, canonical encodings, comparison, in-place conversion.
  \<^item> \<open>Dico_Lev\<close>: \<^verbatim>\<open>lib/levenshtein.c\<close> (equal to the least number of edits) and \<^verbatim>\<open>lib/soundex.c\<close>.
  \<^item> \<open>Dico_Codec\<close>, \<open>Dico_Codec_Props\<close>: \<^verbatim>\<open>lib/base64.c\<close> and \<^verbatim>\<open>lib/qp.c\<close>; round trips and bounds.
  \<^item> \<open>Dico_Stream\<close>, \<open>Dico_Stream_Props\<close>: \<^verbatim>\<open>lib/stream.c\<close> over a driver given as a record of
    functions. The locales \<open>byte_source\<close>, \<open>byte_sink\<close> and \<open>flushed_sink\<close> are the contracts of a
    driver. \<open>Dico_Drivers\<close>, \<open>Dico_Drivers_Props\<close>: \<^verbatim>\<open>fdstream.c\<close>, \<^verbatim>\<open>mapstream.c\<close>, \<^verbatim>\<open>iostr.c\<close>,
    \<^verbatim>\<open>crlfstr.c\<close>, \<^verbatim>\<open>xscript.c\<close> and the interpretations of the contracts.
    \<open>Dico_Filter\<close>, \<open>Dico_Filter_Props\<close>: \<^verbatim>\<open>fltstream.c\<close>.
    \<open>Dico_Lines\<close>: how a line-buffered stream cuts a text, as a locale \<open>line_sink\<close>.
  \<^item> \<open>Dico_Tokenize\<close>, \<open>Dico_Tokenize_Props\<close>: \<^verbatim>\<open>lib/tokenize.c\<close>, \<^verbatim>\<open>lib/xtkn.c\<close>.
    \<open>Dico_Argcv\<close>: \<^verbatim>\<open>lib/argcv.c\<close>.
  \<^item> \<open>Dico_Acl\<close>, \<open>Dico_Acl_Props\<close>: \<^verbatim>\<open>dicod/acl.c\<close> and the callbacks of \<^verbatim>\<open>dicod/main.c\<close> that build
    the lists.
  \<^item> \<open>Dico_Output\<close>, \<open>Dico_Output_Props\<close>: \<^verbatim>\<open>dicod/ostream.c\<close>, \<^verbatim>\<open>lib/linetrimstr.c\<close>,
    \<^verbatim>\<open>lib/xstream.c\<close>; the locale \<open>reply_transport\<close>.
  \<^item> \<open>Dico_Dispatch\<close>, \<open>Dico_Dispatch_Props\<close>: \<^verbatim>\<open>dicod/alias.c\<close>, \<^verbatim>\<open>stratcl.c\<close>, \<^verbatim>\<open>capa.c\<close> and the command
    table of \<^verbatim>\<open>commands.c\<close>; expansion of aliases as a terminating rewriting relation.
  \<^item> \<open>Dico_Database\<close>: the list of databases of \<^verbatim>\<open>dicod/main.c\<close>, its visibility, \<^verbatim>\<open>lang.c\<close> and the
    module interface of \<^verbatim>\<open>include/dico/types.h\<close>. \<open>Dico_Server\<close>, \<open>Dico_Server_Props\<close>: searches
    (\<^verbatim>\<open>loader.c\<close>) and all command handlers as functions from the session to the new session and the
    sequence of writes; hidden databases cannot be observed. \<open>Dico_Session\<close>,
    \<open>Dico_Session_Props\<close>: these writes performed on the streams, and the loop of
    \<^verbatim>\<open>dicod/dicod.c\<close>; the locale \<open>client_transport\<close> and what the client receives.

  \<^item> \<open>Dico_Search\<close>: \<^verbatim>\<open>bsearch\<close> and \<^verbatim>\<open>qsort\<close> of the C library and the range of equal entries around
    a hit; the locales \<open>keyed_order\<close> and \<open>sign_sorted\<close>. \<open>Dico_Parseopt\<close>: \<^verbatim>\<open>lib/parseopt.c\<close>.
  \<^item> \<open>Dico_Dictstr\<close>, \<open>Dico_Dictstr_Props\<close>: \<^verbatim>\<open>modules/dict.org/dictstr.c\<close>, random access to
    compressed dictionaries through a cache of chunks; the locale \<open>dict_source\<close>.
    \<open>Dico_Dictorg\<close>, \<open>Dico_Dictorg_Props\<close>, \<open>Dico_Index_Props\<close>: \<^verbatim>\<open>modules/dict.org/dictorg.c\<close> with
    \<^verbatim>\<open>lib/util.c\<close>; the index file is read back, searches in a sorted index find what they should
    (and what they miss), and articles are output from the compressed text.
  \<^item> \<open>Dico_Select\<close>, \<open>Dico_Select_Props\<close>: the selectors of the server's strategies (\<^verbatim>\<open>dicod/dicod.c\<close>,
    \<^verbatim>\<open>lev.c\<close>) and of the modules \<^verbatim>\<open>word\<close>, \<^verbatim>\<open>nprefix\<close>, \<^verbatim>\<open>substr\<close> and \<^verbatim>\<open>stratall\<close>, and the registration of the
    capabilities; the locale \<open>deciding_selector\<close> with an interpretation for each strategy, and what a
    search through an index finds with them.

  In the server the lists of \<^verbatim>\<open>lib/list.c\<close> are HOL lists: \<open>Dico_List_Props\<close> proves that the
  operations used (append, locate, iterate, remove) act on the heap as these do.

  \<^bold>\<open>Bounds.\<close> Counters and lengths that the code keeps in fixed width where overflow matters are
  words (\<open>64 word\<close> for \<^verbatim>\<open>size_t\<close> in the codecs and the iterator position, \<open>32 word\<close> for
  characters and addresses). The theorems on reply streams ask that a line with its
  continuation stays below the 1024 bytes of the line buffer; longer lines are cut there, and
  the theorem on doubled dots shows what then goes wrong.

  \<^bold>\<open>Not modelled.\<close> The client \<^verbatim>\<open>dico\<close>, the process and socket handling of \<^verbatim>\<open>dicod/server.c\<close>, SASL,
  IDENT, access logs, command lines, the configuration parser \<^verbatim>\<open>grecs\<close>, the loading of shared
  objects, and the modules other than those named above; for the server modules are records of
  functions. The vendored gnulib and libltdl; the Python web front end. Durations, the results of \<^verbatim>\<open>uname\<close>, message digests, the
  resolver and \<^verbatim>\<open>quotearg\<close> are parameters.
\<close>

end
